(* ===== verification/Pocl_Prelude.thy ===== *)
theory Pocl_Prelude
  imports Main "HOL-Library.Word"
begin

text \<open>
  Shared vocabulary of the development: the C integer types the runtime uses, the outcome of
  a call that may abort the process or run into undefined behaviour, and the generic facts on
  lists and words the component theories rely on.
\<close>

unbundle bit_operations_syntax

section \<open>C types\<close>

text \<open>The modelled target is LP64: \<open>size_t\<close> and pointers have 64 bits, \<open>int\<close> has 32 and
  \<open>short\<close> has 16.\<close>

type_synonym size_t = "64 word"
type_synonym c_int = "32 word"
type_synonym c_short = "16 word"
type_synonym cl_bitfield = "64 word"

section \<open>Outcomes\<close>

text \<open>
  A call returns a value, terminates the process (\<open>assert\<close>, \<open>abort\<close>, \<open>POCL\_ABORT\<close>), or
  has undefined behaviour (a NULL or dangling pointer is dereferenced).
\<close>

datatype 'a outcome = Ret 'a | Abort | Undef

fun obind :: "'a outcome \<Rightarrow> ('a \<Rightarrow> 'b outcome) \<Rightarrow> 'b outcome" where
  "obind (Ret x) f = f x"
| "obind Abort f = Abort"
| "obind Undef f = Undef"

fun returns :: "'a outcome \<Rightarrow> bool" where
  "returns (Ret x) = True"
| "returns Abort = False"
| "returns Undef = False"

definition c_assert :: "bool \<Rightarrow> unit outcome" where
  "c_assert b = (if b then Ret () else Abort)"

fun deref :: "'a option \<Rightarrow> 'a outcome" where
  "deref None = Undef"
| "deref (Some x) = Ret x"

definition c_nth :: "'a list \<Rightarrow> nat \<Rightarrow> 'a outcome" where
  "c_nth xs i = (if i < length xs then Ret (xs ! i) else Undef)"

named_theorems outcome_simps "how outcomes compose"

lemma obind_Ret_iff [outcome_simps]:
  "obind m f = Ret y \<longleftrightarrow> (\<exists>x. m = Ret x \<and> f x = Ret y)"
  by (cases m) auto

lemma obind_assoc: "obind (obind m f) g = obind m (\<lambda>x. obind (f x) g)"
  by (cases m) auto

lemma c_assert_simps [simp]: "c_assert True = Ret ()" "c_assert False = Abort"
  by (simp_all add: c_assert_def)

lemma c_assert_Ret_iff [outcome_simps]: "c_assert b = Ret u \<longleftrightarrow> b"
  by (simp add: c_assert_def)

lemma deref_Ret_iff [outcome_simps]: "deref p = Ret x \<longleftrightarrow> p = Some x"
  by (cases p) auto

lemma c_nth_Ret_iff [outcome_simps]: "c_nth xs i = Ret x \<longleftrightarrow> i < length xs \<and> xs ! i = x"
  by (auto simp: c_nth_def)

lemma returns_iff: "returns m \<longleftrightarrow> (\<exists>x. m = Ret x)"
  by (cases m) auto

text \<open>A loop over a list whose body updates a state and may fail.\<close>

fun oiter :: "('a \<Rightarrow> 's \<Rightarrow> 's outcome) \<Rightarrow> 'a list \<Rightarrow> 's \<Rightarrow> 's outcome" where
  "oiter f [] s = Ret s"
| "oiter f (x # xs) s = obind (f x s) (oiter f xs)"

lemma oiter_append: "oiter f (xs @ ys) s = obind (oiter f xs s) (oiter f ys)"
proof (induction xs arbitrary: s)
  case (Cons x xs)
  then show ?case by (cases "f x s") auto
qed simp

lemma oiter_inv:
  assumes "oiter f xs s = Ret t" "P s" "\<And>x s t. x \<in> set xs \<Longrightarrow> P s \<Longrightarrow> f x s = Ret t \<Longrightarrow> P t"
  shows "P t"
  using assms by (induction xs arbitrary: s) (auto simp: obind_Ret_iff)

lemma oiter_returns:
  assumes "P s" "\<And>x s. x \<in> set xs \<Longrightarrow> P s \<Longrightarrow> \<exists>t. f x s = Ret t \<and> P t"
  shows "\<exists>t. oiter f xs s = Ret t \<and> P t"
  using assms
proof (induction xs arbitrary: s)
  case (Cons x xs)
  obtain t where t: "f x s = Ret t" "P t"
    using Cons.prems(2) [OF list.set_intros(1) Cons.prems(1)] by blast
  with Cons.IH [of t] Cons.prems(2) show ?case by simp
qed simp

section \<open>Rounding addresses up\<close>

text \<open>The idiom \<open>(a + al - 1) & ~(al - 1)\<close>.\<close>

definition align_up :: "size_t \<Rightarrow> size_t \<Rightarrow> size_t" where
  "align_up al a = (a + al - 1) AND NOT (al - 1)"

lemma and_not_mask_eq: "w AND NOT (mask k) = push_bit k (drop_bit k w)" for w :: "'a::len word"
  by (rule bit_word_eqI) (auto simp: bit_simps)

lemma unat_and_not_mask: "unat (w AND NOT (mask k)) = unat w div 2 ^ k * 2 ^ k"
  for w :: "'a::len word"
proof -
  have le: "unat w div 2 ^ k * 2 ^ k < 2 ^ LENGTH('a)"
    by (rule le_less_trans [OF div_times_less_eq_dividend]) (rule unsigned_less)
  have "unat (push_bit k (drop_bit k w)) = take_bit LENGTH('a) (unat w div 2 ^ k * 2 ^ k)"
    by (simp only: unsigned_push_bit_eq unat_drop_bit_eq) (simp only: drop_bit_eq_div push_bit_eq_mult)
  with le show ?thesis
    by (simp add: and_not_mask_eq take_bit_nat_eq_self)
qed

lemma unat_two_power: "k < LENGTH('a) \<Longrightarrow> unat (2 ^ k :: 'a::len word) = 2 ^ k"
proof -
  assume "k < LENGTH('a)"
  then have "(2::nat) ^ k < 2 ^ LENGTH('a)" by simp
  then show ?thesis using unat_of_nat [of "2 ^ k", where ?'a = 'a] by simp
qed

lemma unat_align_up:
  assumes "unat a + 2 ^ k - 1 < 2 ^ 64" and "k < 64"
  shows "unat (align_up (2 ^ k) a) = (unat a + 2 ^ k - 1) div 2 ^ k * 2 ^ k"
proof -
  have k: "unat (2 ^ k :: size_t) = 2 ^ k"
    using assms(2) by (simp add: unat_two_power)
  have "unat (a + (2 ^ k - 1)) = unat a + 2 ^ k - 1"
  proof -
    have one: "unat (2 ^ k - 1 :: size_t) = 2 ^ k - 1"
      using assms(2) k by (subst unat_sub) (auto simp: word_le_nat_alt)
    then show ?thesis
      using assms(1) by (subst unat_add_lem [THEN iffD1]) auto
  qed
  then have "unat (a + 2 ^ k - 1) = unat a + 2 ^ k - 1" by (simp add: add_diff_eq)
  then show ?thesis
    unfolding align_up_def by (simp only: mask_eq_exp_minus_1 [symmetric] unat_and_not_mask)
qed

text \<open>Rounding up to a multiple of \<open>d\<close> on natural numbers.\<close>

definition round_up :: "nat \<Rightarrow> nat \<Rightarrow> nat" where
  "round_up d n = (n + d - 1) div d * d"

lemma dvd_round_up [simp]: "d dvd round_up d n"
  by (simp add: round_up_def)

lemma round_up_ge: "0 < d \<Longrightarrow> n \<le> round_up d n"
proof -
  assume d: "0 < d"
  have "n + d - 1 = (n + d - 1) div d * d + (n + d - 1) mod d" by simp
  moreover have "(n + d - 1) mod d < d" using d by simp
  ultimately show ?thesis unfolding round_up_def using d by linarith
qed

lemma round_up_less: "0 < d \<Longrightarrow> round_up d n < n + d"
proof -
  assume d: "0 < d"
  have "(n + d - 1) div d * d \<le> n + d - 1" by (rule div_times_less_eq_dividend)
  with d show ?thesis unfolding round_up_def by linarith
qed

lemma round_up_dvd [simp]: "0 < d \<Longrightarrow> d dvd n \<Longrightarrow> round_up d n = n"
proof -
  assume d: "0 < d" and "d dvd n"
  then obtain q where n: "n = d * q" by blast
  have "(n + d - 1) div d = ((d - 1) + d * q) div d" using d n by (simp add: add.commute)
  also have "\<dots> = q" using d by (subst div_mult_self2) auto
  finally show ?thesis by (simp add: round_up_def n)
qed

lemma round_up_least: "0 < d \<Longrightarrow> d dvd m \<Longrightarrow> n \<le> m \<Longrightarrow> round_up d n \<le> m"
proof -
  assume d: "0 < d" and dv: "d dvd m" and le: "n \<le> m"
  have "round_up d n \<le> round_up d m"
    unfolding round_up_def by (intro mult_le_mono1 div_le_mono diff_le_mono add_le_mono1 le)
  with d dv show ?thesis by simp
qed

end
