(* ===== verification/Utlist.thy ===== *)
theory Utlist
  imports Pocl_Prelude
begin

text \<open>
  The intrusive linked lists of \<open>include/utlist.h\<close> at the level of their pointer updates, and
  the proof that they implement lists. The allocator and the command queue are modelled on
  lists afterwards; this theory is what justifies that, including the one quirk the allocator
  depends on: the \<open>prev\<close> pointer of the head designates the tail.
\<close>

section \<open>Link fields and the macros\<close>

type_synonym ptr = nat

record links =
  nxt :: "ptr \<Rightarrow> ptr option"
  prv :: "ptr \<Rightarrow> ptr option"

definition set_nxt :: "ptr \<Rightarrow> ptr option \<Rightarrow> links \<Rightarrow> links" where
  "set_nxt p q h = h\<lparr>nxt := (nxt h)(p := q)\<rparr>"

definition set_prv :: "ptr \<Rightarrow> ptr option \<Rightarrow> links \<Rightarrow> links" where
  "set_prv p q h = h\<lparr>prv := (prv h)(p := q)\<rparr>"

text \<open>Both macros update the link fields and the head variable.\<close>

definition DL_APPEND :: "links \<Rightarrow> ptr option \<Rightarrow> ptr \<Rightarrow> (links \<times> ptr option) outcome" where
  "DL_APPEND h head add =
     (case head of
        Some hp \<Rightarrow>
          (let h1 = set_prv add (prv h hp) h in
           obind (deref (prv h1 hp)) (\<lambda>tl.
           let h2 = set_nxt tl (Some add) h1;
               h3 = set_prv hp (Some add) h2;
               h4 = set_nxt add None h3
           in Ret (h4, Some hp)))
      | None \<Rightarrow> Ret (set_nxt add None (set_prv add (Some add) h), Some add))"

definition DL_DELETE :: "links \<Rightarrow> ptr option \<Rightarrow> ptr \<Rightarrow> (links \<times> ptr option) outcome" where
  "DL_DELETE h head del =
     obind (c_assert (prv h del \<noteq> None)) (\<lambda>_.
     if prv h del = Some del then Ret (h, None)
     else if head = Some del then
       obind (deref (nxt h del)) (\<lambda>n. Ret (set_prv n (prv h del) h, Some n))
     else
       obind (deref (prv h del)) (\<lambda>p.
       let h1 = set_nxt p (nxt h del) h in
       case nxt h1 del of
         Some n \<Rightarrow> Ret (set_prv n (prv h1 del) h1, head)
       | None \<Rightarrow> obind (deref head) (\<lambda>hp. Ret (set_prv hp (prv h1 del) h1, head))))"

text \<open>\<open>LL\_APPEND\<close> walks to the last node (\<open>while (tmp->next)\<close>) and links the new one there; a
  cyclic list would make the walk endless, so it is a partial function.\<close>

partial_function (option) LL_last :: "links \<Rightarrow> ptr \<Rightarrow> ptr option" where
  "LL_last h p = (case nxt h p of None \<Rightarrow> Some p | Some q \<Rightarrow> LL_last h q)"

definition LL_APPEND :: "links \<Rightarrow> ptr option \<Rightarrow> ptr \<Rightarrow> (links \<times> ptr option) option" where
  "LL_APPEND h head add =
     (let h1 = set_nxt add None h in
      case head of
        Some hp \<Rightarrow> (case LL_last h1 hp of None \<Rightarrow> None
                   | Some t \<Rightarrow> Some (set_nxt t (Some add) h1, Some hp))
      | None \<Rightarrow> Some (h1, Some add))"

text \<open>The nodes \<open>DL\_FOREACH\<close> and \<open>LL\_FOREACH\<close> visit, in order.\<close>

partial_function (option) LL_FOREACH :: "links \<Rightarrow> ptr option \<Rightarrow> ptr list option" where
  "LL_FOREACH h el =
     (case el of None \<Rightarrow> Some []
      | Some p \<Rightarrow> Option.bind (LL_FOREACH h (nxt h p)) (\<lambda>ps. Some (p # ps)))"

section \<open>The lists they represent\<close>

definition head_of :: "'a list \<Rightarrow> 'a option" where
  "head_of xs = (case xs of [] \<Rightarrow> None | x # _ \<Rightarrow> Some x)"

definition linked :: "(ptr \<Rightarrow> ptr option) \<Rightarrow> (ptr \<Rightarrow> ptr option) \<Rightarrow> ptr \<Rightarrow> ptr \<Rightarrow> bool" where
  "linked n p a b \<longleftrightarrow> n a = Some b \<and> p b = Some a"

definition dl_repr :: "links \<Rightarrow> ptr option \<Rightarrow> ptr list \<Rightarrow> bool" where
  "dl_repr h head xs \<longleftrightarrow>
     head = head_of xs \<and> distinct xs \<and>
     successively (linked (nxt h) (prv h)) xs \<and>
     (xs \<noteq> [] \<longrightarrow> nxt h (last xs) = None \<and> prv h (hd xs) = Some (last xs))"

definition ll_repr :: "links \<Rightarrow> ptr option \<Rightarrow> ptr list \<Rightarrow> bool" where
  "ll_repr h head xs \<longleftrightarrow>
     head = head_of xs \<and> distinct xs \<and>
     successively (\<lambda>a b. nxt h a = Some b) xs \<and> (xs \<noteq> [] \<longrightarrow> nxt h (last xs) = None)"

definition dl_prev :: "'a list \<Rightarrow> 'a \<Rightarrow> 'a option" where
  "dl_prev xs x =
     (case rev (takeWhile (\<lambda>y. y \<noteq> x) xs) of y # _ \<Rightarrow> Some y
      | [] \<Rightarrow> (if xs = [] then None else Some (last xs)))"

definition dl_next :: "'a list \<Rightarrow> 'a \<Rightarrow> 'a option" where
  "dl_next xs x = head_of (drop 1 (dropWhile (\<lambda>y. y \<noteq> x) xs))"

lemma head_of_simps [simp]:
  "head_of [] = None" "head_of (x # xs) = Some x" "xs \<noteq> [] \<Longrightarrow> head_of xs = Some (hd xs)"
  by (auto simp: head_of_def split: list.splits)

lemma head_of_append [simp]: "head_of (xs @ ys) = (if xs = [] then head_of ys else Some (hd xs))"
  by (cases xs) auto

lemma set_links_simps [simp]:
  "nxt (set_nxt p q h) = (nxt h)(p := q)" "prv (set_nxt p q h) = prv h"
  "prv (set_prv p q h) = (prv h)(p := q)" "nxt (set_prv p q h) = nxt h"
  by (simp_all add: set_nxt_def set_prv_def)

text \<open>Neighbours in the list are the link fields in memory.\<close>

lemma dl_split_prev_next:
  assumes "distinct (as @ x # bs)"
  shows "dl_prev (as @ x # bs) x = Some (if as = [] then last (x # bs) else last as)"
    and "dl_next (as @ x # bs) x = head_of bs"
proof -
  have ta: "takeWhile (\<lambda>y. y \<noteq> x) (as @ x # bs) = as" "dropWhile (\<lambda>y. y \<noteq> x) (as @ x # bs) = x # bs"
    using assms by (auto simp: takeWhile_append dropWhile_append)
  show "dl_next (as @ x # bs) x = head_of bs" by (simp add: dl_next_def ta)
  show "dl_prev (as @ x # bs) x = Some (if as = [] then last (x # bs) else last as)"
    unfolding dl_prev_def ta by (cases as rule: rev_cases) auto
qed

lemma linked_update:
  assumes "successively (linked n p) xs"
    and "\<And>x. x \<in> set (butlast xs) \<Longrightarrow> n' x = n x" and "\<And>x. x \<in> set (tl xs) \<Longrightarrow> p' x = p x"
  shows "successively (linked n' p') xs"
  using assms
proof (induction xs)
  case (Cons x xs)
  then show ?case
    by (cases xs) (auto simp: successively_Cons linked_def)
qed simp

lemma dl_repr_links:
  assumes r: "dl_repr h head xs" and x: "x \<in> set xs"
  shows "prv h x = dl_prev xs x" and "nxt h x = dl_next xs x"
proof -
  from x obtain as bs where xs: "xs = as @ x # bs" by (meson split_list)
  have s: "successively (linked (nxt h) (prv h)) (as @ x # bs)"
    and d: "distinct (as @ x # bs)"
    and e: "nxt h (last (as @ x # bs)) = None" "prv h (hd (as @ x # bs)) = Some (last (as @ x # bs))"
    using r by (auto simp: dl_repr_def xs)
  show "prv h x = dl_prev xs x"
    using s e by (auto simp: xs dl_split_prev_next [OF d] successively_append_iff linked_def)
  show "nxt h x = dl_next xs x"
    unfolding xs dl_split_prev_next [OF d] using s e
    by (cases bs) (auto simp: successively_append_iff linked_def)
qed

text \<open>Fields of nodes outside the list are not touched.\<close>

definition same_links_outside :: "ptr set \<Rightarrow> links \<Rightarrow> links \<Rightarrow> bool" where
  "same_links_outside A h h' \<longleftrightarrow> (\<forall>p. p \<notin> A \<longrightarrow> nxt h' p = nxt h p \<and> prv h' p = prv h p)"

lemma distinct_last_butlast: "distinct xs \<Longrightarrow> x \<in> set (butlast xs) \<Longrightarrow> x \<noteq> last xs"
  by (cases xs rule: rev_cases) auto

lemma distinct_hd_tl: "distinct xs \<Longrightarrow> x \<in> set (tl xs) \<Longrightarrow> x \<noteq> hd xs"
  by (cases xs) auto

lemmas ends_distinct = distinct_last_butlast distinct_hd_tl in_set_butlastD list.set_sel(2)

lemma DL_APPEND_refines:
  assumes r: "dl_repr h head xs" and new: "add \<notin> set xs"
  shows "\<exists>h' head'. DL_APPEND h head add = Ret (h', head') \<and> dl_repr h' head' (xs @ [add]) \<and>
           same_links_outside (insert add (set xs)) h h'"
proof (cases "xs = []")
  case True
  with r show ?thesis by (auto simp: DL_APPEND_def dl_repr_def same_links_outside_def)
next
  case False
  have pl: "prv h (hd xs) = Some (last xs)" and hx: "head = Some (hd xs)" and d: "distinct xs"
    and s: "successively (linked (nxt h) (prv h)) xs"
    using r False by (auto simp: dl_repr_def)
  have ne: "add \<noteq> hd xs" "add \<noteq> last xs" using new False by auto
  let ?h = "set_nxt add None (set_prv (hd xs) (Some add) (set_nxt (last xs) (Some add)
              (set_prv add (Some (last xs)) h)))"
  have eq: "DL_APPEND h head add = Ret (?h, Some (hd xs))"
    using pl hx ne by (simp add: DL_APPEND_def)
  have "successively (linked (nxt ?h) (prv ?h)) xs"
    using s by (rule linked_update) (use d new False in \<open>auto dest: ends_distinct\<close>)
  then have "dl_repr ?h (Some (hd xs)) (xs @ [add])"
    unfolding dl_repr_def successively_append_iff using ne new d False by (auto simp: linked_def)
  then show ?thesis using eq ne False by (auto simp: same_links_outside_def)
qed

lemma DL_DELETE_refines:
  assumes r: "dl_repr h head xs" and del: "del \<in> set xs"
  shows "\<exists>h' head'. DL_DELETE h head del = Ret (h', head') \<and> dl_repr h' head' (remove1 del xs) \<and>
           same_links_outside (set xs) h h'"
proof -
  from del obtain as bs where xs: "xs = as @ del # bs" by (meson split_list)
  have d: "distinct (as @ del # bs)" using r by (simp add: dl_repr_def xs)
  have rm: "remove1 del xs = as @ bs" using d by (simp add: xs remove1_append)
  have p: "prv h del = Some (if as = [] then last (del # bs) else last as)"
    and n: "nxt h del = head_of bs"
    using dl_repr_links [OF r del] by (simp_all add: xs dl_split_prev_next [OF d])
  have s: "successively (linked (nxt h) (prv h)) as" "successively (linked (nxt h) (prv h)) bs"
    and e: "bs \<noteq> [] \<Longrightarrow> nxt h (last bs) = None" "prv h (hd (as @ [del])) = Some (last (del # bs))"
    and hd: "head = Some (hd (as @ [del]))"
    using r by (auto simp: dl_repr_def xs successively_append_iff successively_Cons hd_append)
  consider (only) "as = []" "bs = []" | (first) "as = []" "bs \<noteq> []"
    | (final) "as \<noteq> []" "bs = []" | (mid) "as \<noteq> []" "bs \<noteq> []" by blast
  then show ?thesis
  proof cases
    case only
    then show ?thesis using p by (auto simp: DL_DELETE_def rm dl_repr_def same_links_outside_def)
  next
    case first
    let ?h = "set_prv (hd bs) (prv h del) h"
    have "last bs \<noteq> del" using d first last_in_set [of bs] by auto
    then have "DL_DELETE h head del = Ret (?h, Some (hd bs))"
      using p n hd first by (auto simp: DL_DELETE_def)
    moreover have "successively (linked (nxt ?h) (prv ?h)) bs"
      using s(2) by (rule linked_update) (use d first in \<open>auto dest: ends_distinct\<close>)
    ultimately show ?thesis
      unfolding rm using p e d first by (auto simp: dl_repr_def same_links_outside_def xs)
  next
    case final
    let ?h = "set_prv (hd as) (Some (last as)) (set_nxt (last as) None h)"
    have ne: "last as \<noteq> del" "hd as \<noteq> del" using d final last_in_set [of as] by auto
    then have "DL_DELETE h head del = Ret (?h, Some (hd as))"
      using p n hd final by (auto simp: DL_DELETE_def)
    moreover have "successively (linked (nxt ?h) (prv ?h)) as"
      using s(1) by (rule linked_update) (use d final in \<open>auto dest: ends_distinct\<close>)
    ultimately show ?thesis
      unfolding rm using d final by (auto simp: dl_repr_def same_links_outside_def xs)
  next
    case mid
    let ?h = "set_prv (hd bs) (Some (last as)) (set_nxt (last as) (Some (hd bs)) h)"
    have ne: "last as \<noteq> del" "hd as \<noteq> del" "last bs \<noteq> last as" "hd as \<noteq> hd bs"
      using d mid last_in_set [of as] last_in_set [of bs] hd_in_set [of as] hd_in_set [of bs]
      by (auto simp del: hd_in_set last_in_set)
    then have "DL_DELETE h head del = Ret (?h, Some (hd as))"
      using p n hd mid by (auto simp: DL_DELETE_def)
    moreover have "successively (linked (nxt ?h) (prv ?h)) as"
      using s(1) by (rule linked_update) (use d mid in \<open>auto dest: ends_distinct\<close>)
    moreover have "successively (linked (nxt ?h) (prv ?h)) bs"
      using s(2) by (rule linked_update)
        (use d mid last_in_set [of as] in \<open>auto dest: ends_distinct simp del: last_in_set\<close>)
    ultimately show ?thesis
      unfolding rm using e d mid ne
      by (auto simp: dl_repr_def same_links_outside_def xs successively_append_iff linked_def)
  qed
qed

section \<open>Singly linked lists\<close>

lemma LL_last_eq:
  assumes "successively (\<lambda>a b. nxt h a = Some b) (p # xs)" and "nxt h (last (p # xs)) = None"
  shows "LL_last h p = Some (last (p # xs))"
  using assms
proof (induction xs arbitrary: p)
  case Nil
  then show ?case by (simp add: LL_last.simps)
next
  case (Cons q xs)
  then show ?case by (subst LL_last.simps) simp
qed

lemma LL_APPEND_refines:
  assumes r: "ll_repr h head xs" and new: "add \<notin> set xs"
  shows "\<exists>h' head'. LL_APPEND h head add = Some (h', head') \<and> ll_repr h' head' (xs @ [add])"
proof (cases xs)
  case Nil
  with r show ?thesis by (auto simp: LL_APPEND_def ll_repr_def)
next
  case (Cons p ys)
  let ?h = "set_nxt add None h"
  have s: "successively (\<lambda>a b. nxt h a = Some b) (p # ys)" and d: "distinct (p # ys)"
    and e: "nxt h (last (p # ys)) = None" and hp: "head = Some p"
    using r Cons by (auto simp: ll_repr_def)
  have s1: "successively (\<lambda>a b. nxt ?h a = Some b) (p # ys)"
    using s by (rule successively_mono) (use new Cons in auto)
  have lt: "last (p # ys) \<noteq> add" using new Cons last_in_set [of "p # ys"] by auto
  then have last: "LL_last ?h p = Some (last (p # ys))"
    by (intro LL_last_eq s1) (use e in simp)
  let ?h' = "set_nxt (last (p # ys)) (Some add) ?h"
  have s2: "successively (\<lambda>a b. nxt ?h' a = Some b) (p # ys)"
    using s1 by (rule successively_mono) (use e new Cons lt in \<open>auto split: if_splits\<close>)
  have "ll_repr ?h' (Some p) ((p # ys) @ [add])"
    unfolding ll_repr_def successively_append_iff using s2 d new Cons lt by auto
  then show ?thesis using Cons last hp by (auto simp: LL_APPEND_def)
qed

lemma LL_FOREACH_visits:
  assumes "successively (\<lambda>a b. nxt h a = Some b) xs" and "xs \<noteq> [] \<Longrightarrow> nxt h (last xs) = None"
  shows "LL_FOREACH h (head_of xs) = Some xs"
  using assms
proof (induction xs)
  case Nil
  then show ?case by (simp add: LL_FOREACH.simps)
next
  case (Cons p xs)
  then have "nxt h p = head_of xs" by (cases xs) auto
  moreover have "LL_FOREACH h (head_of xs) = Some xs"
    using Cons by (cases xs) auto
  ultimately show ?case by (subst LL_FOREACH.simps) simp
qed

section \<open>The interface the runtime uses\<close>

text \<open>
  What the allocator and the queue rely on: appending puts a fresh node last, deleting removes
  one node and keeps the order of the others, and a traversal visits the nodes in list order.
\<close>

locale intrusive_list =
  fixes repr :: "'h \<Rightarrow> ptr option \<Rightarrow> ptr list \<Rightarrow> bool"
    and append_op :: "'h \<Rightarrow> ptr option \<Rightarrow> ptr \<Rightarrow> ('h \<times> ptr option) outcome"
    and delete_op :: "'h \<Rightarrow> ptr option \<Rightarrow> ptr \<Rightarrow> ('h \<times> ptr option) outcome"
    and visit :: "'h \<Rightarrow> ptr option \<Rightarrow> ptr list option"
  assumes append_ok: "repr h head xs \<Longrightarrow> add \<notin> set xs \<Longrightarrow>
      \<exists>h' head'. append_op h head add = Ret (h', head') \<and> repr h' head' (xs @ [add])"
    and delete_ok: "repr h head xs \<Longrightarrow> del \<in> set xs \<Longrightarrow>
      \<exists>h' head'. delete_op h head del = Ret (h', head') \<and> repr h' head' (remove1 del xs)"
    and visit_ok: "repr h head xs \<Longrightarrow> visit h head = Some xs"
    and repr_distinct: "repr h head xs \<Longrightarrow> distinct xs"
begin

text \<open>Moving a node to the end, as the allocator does with its sentinel.\<close>

lemma move_to_end:
  assumes "repr h head xs" and "x \<in> set xs"
  shows "\<exists>h1 head1 h2 head2. delete_op h head x = Ret (h1, head1) \<and>
           append_op h1 head1 x = Ret (h2, head2) \<and> repr h2 head2 (remove1 x xs @ [x])"
proof -
  obtain h1 head1 where 1: "delete_op h head x = Ret (h1, head1)" "repr h1 head1 (remove1 x xs)"
    using delete_ok [OF assms] by blast
  have "x \<notin> set (remove1 x xs)" using repr_distinct [OF assms(1)] by simp
  from append_ok [OF 1(2) this] 1(1) show ?thesis by blast
qed

text \<open>A list built by appending nodes one at a time is visited in the order of the appends.\<close>

lemma append_all:
  assumes "repr h head xs" and "distinct ys" and "set xs \<inter> set ys = {}"
  shows "\<exists>h' head'. repr h' head' (xs @ ys) \<and> visit h' head' = Some (xs @ ys) \<and>
           foldl (\<lambda>m y. obind m (\<lambda>(h, hp). append_op h hp y)) (Ret (h, head)) ys = Ret (h', head')"
  using assms
proof (induction ys arbitrary: h head xs)
  case Nil
  then show ?case using visit_ok by auto
next
  case (Cons y ys)
  from Cons.prems have "y \<notin> set xs" by auto
  from append_ok [OF Cons.prems(1) this] obtain h1 head1
    where 1: "append_op h head y = Ret (h1, head1)" "repr h1 head1 (xs @ [y])" by blast
  show ?case using Cons.IH [OF 1(2)] Cons.prems 1(1) by auto
qed

end

lemma dl_repr_visit: "dl_repr h head xs \<Longrightarrow> LL_FOREACH h head = Some xs"
proof -
  assume r: "dl_repr h head xs"
  then have "successively (\<lambda>a b. nxt h a = Some b) xs"
    unfolding dl_repr_def by (auto elim: successively_mono simp: linked_def)
  with r show ?thesis by (simp add: dl_repr_def LL_FOREACH_visits)
qed

interpretation dl: intrusive_list dl_repr DL_APPEND DL_DELETE LL_FOREACH
proof unfold_locales
  fix h head xs add
  assume "dl_repr h head xs" "add \<notin> set xs"
  then show "\<exists>h' head'. DL_APPEND h head add = Ret (h', head') \<and> dl_repr h' head' (xs @ [add])"
    using DL_APPEND_refines by blast
next
  fix h head xs del
  assume "dl_repr h head xs" "del \<in> set xs"
  then show "\<exists>h' head'. DL_DELETE h head del = Ret (h', head') \<and> dl_repr h' head' (remove1 del xs)"
    using DL_DELETE_refines by blast
qed (simp_all add: dl_repr_visit, simp add: dl_repr_def)

end
