(* ===== verification/Bufalloc.thy ===== *)
theory Bufalloc
  imports Utlist
begin

text \<open>
  The buffer allocator of \<open>lib/CL/devices/bufalloc.c\<close>: regions of device memory cut into
  chunks. Chunk pointers are indices: \<open>i < MAX\_CHUNKS\_IN\_REGION\<close> is
  \<open>&region->all\_chunks[i]\<close>. The doubly linked lists \<open>chunks\<close> and \<open>free\_chunks\<close> are lists
  of such indices (the utlist theory proves the pointer macros implement them).
\<close>

section \<open>Data\<close>

definition MAX_CHUNKS_IN_REGION :: nat where
  "MAX_CHUNKS_IN_REGION = 64"

datatype allocation_strategy = BALLOCS_WASTEFUL | BALLOCS_TIGHT

record chunk_info =
  start_address :: size_t
  is_allocated :: bool
  chunk_size :: size_t
  children :: "ptr list"
  parent :: "ptr option"

record memory_region =
  all_chunks :: "ptr \<Rightarrow> chunk_info"
  chunks :: "ptr list"
  free_chunks :: "ptr list"
  last_chunk :: ptr
  strategy :: allocation_strategy
  alignment :: c_short

section \<open>Operations\<close>

text \<open>\<open>alignment\<close> is a \<open>short\<close>; in the address arithmetic it is sign-extended to \<open>size\_t\<close>.\<close>

definition al64 :: "memory_region \<Rightarrow> size_t" where
  "al64 r = scast (alignment r)"

definition upd_chunk :: "ptr \<Rightarrow> (chunk_info \<Rightarrow> chunk_info) \<Rightarrow> memory_region \<Rightarrow> memory_region" where
  "upd_chunk c f r = r\<lparr>all_chunks := (all_chunks r)(c := f (all_chunks r c))\<rparr>"

text \<open>The slack is computed in \<open>size\_t\<close> and returned as an \<open>int\<close>: the upper half is lost.\<close>

definition chunk_slack :: "memory_region \<Rightarrow> ptr \<Rightarrow> size_t \<Rightarrow> c_int" where
  "chunk_slack r c sz =
     (let ch = all_chunks r c;
          aligned_start_addr = align_up (al64 r) (start_address ch)
      in ucast (start_address ch + chunk_size ch - (aligned_start_addr + sz)))"

definition append_new_chunk ::
    "memory_region \<Rightarrow> size_t \<Rightarrow> (ptr option \<times> memory_region) outcome" where
  "append_new_chunk r sz =
     (let l = last_chunk r in
      obind (c_assert (\<not> is_allocated (all_chunks r l))) (\<lambda>_.
      if sint (chunk_slack r l sz) < 0 then Ret (None, r)
      else case free_chunks r of
        [] \<Rightarrow> Ret (None, r)
      | new_chunk # rest \<Rightarrow>
          (let r1 = r\<lparr>free_chunks := rest\<rparr>;
               start = align_up (al64 r1) (start_address (all_chunks r1 l));
               r2 = upd_chunk new_chunk (\<lambda>ch. ch\<lparr>start_address := start, chunk_size := sz,
                      is_allocated := True, children := []\<rparr>) r1;
               r3 = upd_chunk l (\<lambda>ch. ch\<lparr>chunk_size := scast (chunk_slack r2 l sz)\<rparr>) r2;
               r4 = upd_chunk l (\<lambda>ch. ch\<lparr>start_address :=
                      start_address (all_chunks r3 new_chunk) + chunk_size (all_chunks r3 new_chunk)\<rparr>) r3;
               r5 = r4\<lparr>chunks := remove1 l (chunks r4) @ [new_chunk] @ [l]\<rparr>
           in Ret (Some new_chunk, r5))))"

definition fits :: "memory_region \<Rightarrow> size_t \<Rightarrow> ptr \<Rightarrow> bool" where
  "fits r sz cursor \<longleftrightarrow>
     \<not> (cursor = last_chunk r \<or> is_allocated (all_chunks r cursor) \<or>
        sint (chunk_slack r cursor sz) < 0)"

definition reuse_chunk :: "memory_region \<Rightarrow> size_t \<Rightarrow> ptr option \<times> memory_region" where
  "reuse_chunk r sz =
     (case find (fits r sz) (chunks r) of
        None \<Rightarrow> (None, r)
      | Some chunk \<Rightarrow> (Some chunk, upd_chunk chunk (\<lambda>ch. ch\<lparr>is_allocated := True\<rparr>) r))"

definition alloc_buffer_from_region ::
    "memory_region \<Rightarrow> size_t \<Rightarrow> (ptr option \<times> memory_region) outcome" where
  "alloc_buffer_from_region r sz =
     obind (if strategy r = BALLOCS_WASTEFUL then append_new_chunk r sz else Ret (None, r))
       (\<lambda>(chunk, r1).
        case chunk of Some c \<Rightarrow> Ret (Some c, r1)
        | None \<Rightarrow>
            (case reuse_chunk r1 sz of
               (Some c, r2) \<Rightarrow> Ret (Some c, r2)
             | (None, r2) \<Rightarrow>
                 if strategy r2 \<noteq> BALLOCS_WASTEFUL then append_new_chunk r2 sz
                 else Ret (None, r2)))"

text \<open>The regions form a linked list; the result names the region as well as the chunk.\<close>

fun alloc_buffer ::
    "memory_region list \<Rightarrow> size_t \<Rightarrow> ((nat \<times> ptr) option \<times> memory_region list) outcome" where
  "alloc_buffer [] sz = Ret (None, [])"
| "alloc_buffer (r # rs) sz =
     obind (alloc_buffer_from_region r sz) (\<lambda>(chunk, r').
       case chunk of
         Some c \<Rightarrow> Ret (Some (0, c), r' # rs)
       | None \<Rightarrow> obind (alloc_buffer rs sz) (\<lambda>(res, rs').
                   Ret (map_option (\<lambda>(i, c). (Suc i, c)) res, r' # rs')))"

text \<open>\<open>create\_sub\_chunk\<close> takes its record from \<open>malloc\<close>: \<open>subchunk\<close> is the fresh pointer.
  The fields the code leaves unset keep what the memory held.\<close>

definition create_sub_chunk ::
    "ptr \<Rightarrow> ptr \<Rightarrow> size_t \<Rightarrow> size_t \<Rightarrow> memory_region \<Rightarrow> ptr \<times> memory_region" where
  "create_sub_chunk subchunk par offset sz r =
     (let r1 = upd_chunk subchunk (\<lambda>ch. ch\<lparr>
                 start_address := start_address (all_chunks r par) + offset,
                 chunk_size := sz, parent := Some par\<rparr>) r;
          r2 = upd_chunk par (\<lambda>ch. ch\<lparr>children := children ch @ [subchunk]\<rparr>) r1
      in (subchunk, r2))"

definition coalesce_chunks ::
    "memory_region \<Rightarrow> ptr option \<Rightarrow> ptr option \<Rightarrow> ptr option \<times> memory_region" where
  "coalesce_chunks r fst_chunk snd_chunk =
     (case (fst_chunk, snd_chunk) of
        (None, s) \<Rightarrow> (s, r)
      | (Some f, None) \<Rightarrow> (Some f, r)
      | (Some f, Some s) \<Rightarrow>
          (if is_allocated (all_chunks r f) \<or> is_allocated (all_chunks r s) then (Some s, r)
           else if start_address (all_chunks r f) > start_address (all_chunks r s) then (Some s, r)
           else
             let r1 = upd_chunk f (\<lambda>ch. ch\<lparr>chunk_size :=
                        start_address (all_chunks r s) + chunk_size (all_chunks r s)
                        - start_address (all_chunks r f)\<rparr>) r;
                 r2 = r1\<lparr>chunks := remove1 s (chunks r1)\<rparr>;
                 r3 = r2\<lparr>free_chunks := free_chunks r2 @ [s]\<rparr>;
                 r4 = (if last_chunk r3 = s then r3\<lparr>last_chunk := f\<rparr> else r3)
             in (Some f, r4)))"

text \<open>The link fields of a chunk live in whichever of the two lists it is on.\<close>

definition chunk_prev :: "memory_region \<Rightarrow> ptr \<Rightarrow> ptr option" where
  "chunk_prev r c = (if c \<in> set (chunks r) then dl_prev (chunks r) c else dl_prev (free_chunks r) c)"

definition chunk_next :: "memory_region \<Rightarrow> ptr \<Rightarrow> ptr option" where
  "chunk_next r c = (if c \<in> set (chunks r) then dl_next (chunks r) c else dl_next (free_chunks r) c)"

text \<open>
  In \<open>coalesce\_chunks (coalesce\_chunks (chunk->prev, chunk), chunk->next)\<close> the order in which
  the inner call and \<open>chunk->next\<close> are evaluated is unspecified in C. Both orders are
  modelled: the inner call may move \<open>chunk\<close> to \<open>free\_chunks\<close> and so change \<open>chunk->next\<close>.
\<close>

datatype arg_order = Next_First | Inner_First

definition release_chunk :: "arg_order \<Rightarrow> memory_region \<Rightarrow> ptr \<Rightarrow> memory_region" where
  "release_chunk ord r chunk =
     (let r0 = upd_chunk chunk (\<lambda>ch. ch\<lparr>is_allocated := False\<rparr>) r;
          (merged, r1) = coalesce_chunks r0 (chunk_prev r0 chunk) (Some chunk);
          next = (case ord of Next_First \<Rightarrow> chunk_next r0 chunk
                  | Inner_First \<Rightarrow> chunk_next r1 chunk)
      in snd (coalesce_chunks r1 merged next))"

definition free_chunk :: "arg_order \<Rightarrow> memory_region \<Rightarrow> ptr \<Rightarrow> memory_region" where
  "free_chunk ord r chunk = release_chunk ord r chunk"

fun free_buffer ::
    "arg_order \<Rightarrow> memory_region list \<Rightarrow> size_t \<Rightarrow> nat option \<times> memory_region list" where
  "free_buffer ord [] addr = (None, [])"
| "free_buffer ord (r # rs) addr =
     (case find (\<lambda>c. start_address (all_chunks r c) = addr) (chunks r) of
        Some chunk \<Rightarrow> (Some 0, release_chunk ord r chunk # rs)
      | None \<Rightarrow> (let (res, rs') = free_buffer ord rs addr in (map_option Suc res, r # rs')))"

definition init_mem_region :: "memory_region \<Rightarrow> size_t \<Rightarrow> size_t \<Rightarrow> memory_region" where
  "init_mem_region r start sz =
     (let r1 = r\<lparr>strategy := BALLOCS_WASTEFUL, chunks := [], free_chunks := [], alignment := 64\<rparr>;
          r2 = upd_chunk 0 (\<lambda>ch. ch\<lparr>start_address := start, chunk_size := sz,
                 is_allocated := False\<rparr>) (r1\<lparr>last_chunk := 0\<rparr>);
          r3 = r2\<lparr>chunks := chunks r2 @ [last_chunk r2]\<rparr>
      in r3\<lparr>free_chunks := foldl (\<lambda>xs i. xs @ [i]) (free_chunks r3) [1..<MAX_CHUNKS_IN_REGION]\<rparr>)"

section \<open>The region invariant\<close>

definition c_start :: "memory_region \<Rightarrow> ptr \<Rightarrow> nat" where
  "c_start r c = unat (start_address (all_chunks r c))"

definition c_size :: "memory_region \<Rightarrow> ptr \<Rightarrow> nat" where
  "c_size r c = unat (chunk_size (all_chunks r c))"

definition c_end :: "memory_region \<Rightarrow> ptr \<Rightarrow> nat" where
  "c_end r c = c_start r c + c_size r c"

definition al :: "memory_region \<Rightarrow> nat" where
  "al r = unat (al64 r)"

definition align_ok :: "memory_region \<Rightarrow> bool" where
  "align_ok r \<longleftrightarrow> (\<exists>k < 15. alignment r = 2 ^ k)"

text \<open>
  The chunk list is in address order without overlap between \<open>lo\<close> and \<open>hi\<close> and ends with the
  sentinel, which is free and reaches up to \<open>hi\<close>; all other chunks start at aligned addresses
  and are not empty; every chunk record is on exactly one of the two lists.
\<close>

definition region_inv :: "nat \<Rightarrow> nat \<Rightarrow> memory_region \<Rightarrow> bool" where
  "region_inv lo hi r \<longleftrightarrow>
     align_ok r \<and> hi < lo + 2 ^ 31 \<and> hi + al r \<le> 2 ^ 64 \<and>
     distinct (chunks r @ free_chunks r) \<and>
     set (chunks r) \<union> set (free_chunks r) = {..<MAX_CHUNKS_IN_REGION} \<and>
     chunks r \<noteq> [] \<and> last (chunks r) = last_chunk r \<and>
     \<not> is_allocated (all_chunks r (last_chunk r)) \<and> c_end r (last_chunk r) = hi \<and>
     sorted_wrt (\<lambda>a b. c_end r a \<le> c_start r b) (chunks r) \<and>
     (\<forall>c \<in> set (chunks r). lo \<le> c_start r c \<and> c_end r c \<le> hi) \<and>
     (\<forall>c \<in> set (butlast (chunks r)). al r dvd c_start r c \<and> 0 < c_size r c)"

text \<open>A request the \<open>int\<close>-typed slack computation handles correctly.\<close>

definition req_ok :: "memory_region \<Rightarrow> size_t \<Rightarrow> bool" where
  "req_ok r sz \<longleftrightarrow> 0 < unat sz \<and> unat sz + al r \<le> 2 ^ 31"

definition live :: "memory_region \<Rightarrow> ptr \<rightharpoonup> nat \<times> nat" where
  "live r = (\<lambda>c. if c \<in> set (chunks r) \<and> is_allocated (all_chunks r c)
                 then Some (c_start r c, c_size r c) else None)"

section \<open>Alignment and slack arithmetic\<close>

lemma upd_chunk_simps [simp]:
  "all_chunks (upd_chunk c f r) = (all_chunks r)(c := f (all_chunks r c))"
  "chunks (upd_chunk c f r) = chunks r" "free_chunks (upd_chunk c f r) = free_chunks r"
  "last_chunk (upd_chunk c f r) = last_chunk r" "strategy (upd_chunk c f r) = strategy r"
  "alignment (upd_chunk c f r) = alignment r"
  by (simp_all add: upd_chunk_def)

lemma al_power:
  assumes "align_ok r"
  shows "\<exists>k < 15. al64 r = 2 ^ k \<and> al r = 2 ^ k"
proof -
  from assms obtain k where k: "k < 15" "alignment r = 2 ^ k" by (auto simp: align_ok_def)
  have "al64 r = 2 ^ k"
  proof -
    have "(scast (2 ^ k :: c_short) :: size_t) = 2 ^ k"
      using k(1) by (intro bit_word_eqI) (auto simp: bit_simps)
    with k show ?thesis by (simp add: al64_def)
  qed
  with k show ?thesis by (auto simp: al_def unat_two_power)
qed

lemma al_pos: "align_ok r \<Longrightarrow> 0 < al r"
  using al_power [of r] by auto

lemma unat_aligned_start:
  assumes "align_ok r" and "unat a + al r \<le> 2 ^ 64"
  shows "unat (align_up (al64 r) a) = round_up (al r) (unat a)"
proof -
  obtain k where k: "k < 15" "al64 r = 2 ^ k" "al r = 2 ^ k" using al_power [OF assms(1)] by blast
  have "unat a + 2 ^ k - 1 < 2 ^ 64" using assms(2) k(3) by simp
  then show ?thesis using k by (simp add: unat_align_up round_up_def)
qed

lemma sint_slack:
  assumes "- (2 ^ 31) \<le> z" and "z < 2 ^ 31"
  shows "sint (ucast (word_of_int z :: size_t) :: c_int) = z"
proof -
  have "sint (ucast (word_of_int z :: size_t) :: c_int) = signed_take_bit 31 z"
    by (simp add: unsigned_of_int signed_of_int signed_take_bit_take_bit)
  also have "\<dots> = z" using assms by (intro signed_take_bit_int_eq_self) auto
  finally show ?thesis .
qed

text \<open>Within its range the slack is the exact distance.\<close>

lemma chunk_slack_exact:
  assumes al: "align_ok r" "c_start r c + al r \<le> 2 ^ 64"
    and z: "z = int (c_end r c) - int (round_up (al r) (c_start r c)) - int (unat sz)"
    and "- (2 ^ 31) \<le> z" "z < 2 ^ 31"
  shows "sint (chunk_slack r c sz) = z"
proof -
  let ?ch = "all_chunks r c"
  have a: "int (round_up (al r) (c_start r c)) = uint (align_up (al64 r) (start_address ?ch))"
    using unat_aligned_start [OF al(1), of "start_address ?ch"] al(2)
    by (simp add: c_start_def uint_nat)
  have "start_address ?ch + chunk_size ?ch - (align_up (al64 r) (start_address ?ch) + sz) = word_of_int z"
    unfolding z c_end_def a by (simp add: c_start_def c_size_def)
  then show ?thesis using sint_slack assms(4,5) by (simp add: chunk_slack_def Let_def)
qed

section \<open>Allocation keeps the invariant and never hands out memory twice\<close>

lemma region_inv_snoc:
  assumes "chunks r = xs @ [l]" and "last_chunk r = l"
  shows "region_inv lo hi r \<longleftrightarrow>
     align_ok r \<and> hi < lo + 2 ^ 31 \<and> hi + al r \<le> 2 ^ 64 \<and>
     distinct (xs @ l # free_chunks r) \<and>
     insert l (set xs) \<union> set (free_chunks r) = {..<MAX_CHUNKS_IN_REGION} \<and>
     \<not> is_allocated (all_chunks r l) \<and> lo \<le> c_start r l \<and> c_end r l = hi \<and>
     sorted_wrt (\<lambda>a b. c_end r a \<le> c_start r b) xs \<and>
     (\<forall>c \<in> set xs. c_end r c \<le> c_start r l \<and> lo \<le> c_start r c \<and> al r dvd c_start r c \<and> 0 < c_size r c)"
proof -
  have le: "c_start r l \<le> c_end r l" by (simp add: c_end_def)
  show ?thesis
    unfolding region_inv_def using assms le
    by (auto simp: sorted_wrt_append intro: le_trans)
qed

lemma region_inv_cases:
  assumes "region_inv lo hi r"
  obtains xs where "chunks r = xs @ [last_chunk r]"
  using assms append_butlast_last_id [of "chunks r"] by (metis region_inv_def)

lemma chunk_fields_upd [simp]:
  "c \<noteq> d \<Longrightarrow> c_start (upd_chunk d f r) c = c_start r c"
  "c \<noteq> d \<Longrightarrow> c_size (upd_chunk d f r) c = c_size r c"
  "c \<noteq> d \<Longrightarrow> c_end (upd_chunk d f r) c = c_end r c"
  "al (upd_chunk d f r) = al r" "al64 (upd_chunk d f r) = al64 r"
  "align_ok (upd_chunk d f r) = align_ok r"
  by (simp_all add: c_start_def c_size_def c_end_def al_def al64_def align_ok_def)

text \<open>The slack of a chunk of the region, read as an integer.\<close>

lemma slack_arith:
  fixes e st a d s lo hi :: nat
  assumes "st \<le> e" "st \<le> a" "a < st + d" "s + d \<le> 2 ^ 31" "lo \<le> st" "e \<le> hi" "hi < lo + 2 ^ 31"
  shows "- (2 ^ 31) \<le> int e - int a - int s \<and> int e - int a - int s < 2 ^ 31"
  using assms by auto

lemma slack_in_region:
  assumes inv: "region_inv lo hi r" and c: "c \<in> set (chunks r)" and req: "req_ok r sz"
  shows "sint (chunk_slack r c sz) =
           int (c_end r c) - int (round_up (al r) (c_start r c)) - int (unat sz)"
proof -
  from inv c have b: "lo \<le> c_start r c" "c_end r c \<le> hi" "hi < lo + 2 ^ 31" "hi + al r \<le> 2 ^ 64"
    and ok: "align_ok r" by (auto simp: region_inv_def)
  have "c_start r c \<le> c_end r c" by (simp add: c_end_def)
  moreover have "c_start r c \<le> round_up (al r) (c_start r c)"
    "round_up (al r) (c_start r c) < c_start r c + al r"
    using al_pos [OF ok] by (auto simp: round_up_ge round_up_less)
  moreover have "unat sz + al r \<le> 2 ^ 31" using req by (simp add: req_ok_def)
  ultimately have z: "- (2 ^ 31) \<le> int (c_end r c) - int (round_up (al r) (c_start r c)) - int (unat sz) \<and>
      int (c_end r c) - int (round_up (al r) (c_start r c)) - int (unat sz) < 2 ^ 31"
    using slack_arith b(1-3) by blast
  have "c_start r c + al r \<le> 2 ^ 64" using b(2,4) by (simp add: c_end_def)
  then show ?thesis using z by (intro chunk_slack_exact [OF ok _ refl]) auto
qed

definition append_result :: "memory_region \<Rightarrow> size_t \<Rightarrow> ptr \<Rightarrow> memory_region" where
  "append_result r sz n =
     (let l = last_chunk r; start = align_up (al64 r) (start_address (all_chunks r l)) in
      upd_chunk l (\<lambda>ch. ch\<lparr>chunk_size := scast (chunk_slack r l sz), start_address := start + sz\<rparr>)
        (upd_chunk n (\<lambda>ch. ch\<lparr>start_address := start, chunk_size := sz, is_allocated := True,
            children := []\<rparr>)
          (r\<lparr>free_chunks := tl (free_chunks r), chunks := remove1 l (chunks r) @ [n, l]\<rparr>)))"

lemma append_new_chunk_eq:
  assumes "\<not> is_allocated (all_chunks r (last_chunk r))" and "last_chunk r \<notin> set (free_chunks r)"
  shows "append_new_chunk r sz =
    (if sint (chunk_slack r (last_chunk r) sz) < 0 \<or> free_chunks r = [] then Ret (None, r)
     else Ret (Some (hd (free_chunks r)), append_result r sz (hd (free_chunks r))))"
proof (cases "free_chunks r")
  case (Cons n rest)
  with assms(2) have "last_chunk r \<noteq> n" by auto
  then show ?thesis using assms(1) Cons
    by (auto simp: append_new_chunk_def append_result_def Let_def upd_chunk_def al64_def fun_eq_iff
        chunk_slack_def intro!: memory_region.equality)
qed (use assms in \<open>simp add: append_new_chunk_def Let_def\<close>)

lemma unat_scast_nonneg: "0 \<le> sint w \<Longrightarrow> unat (scast w :: size_t) = nat (sint w)" for w :: c_int
proof -
  assume 0: "0 \<le> sint w"
  have "sint w < 2 ^ 64" using sint_lt [of w] by simp
  with 0 have "uint (word_of_int (sint w) :: size_t) = sint w"
    by (subst unsigned_of_int) (simp add: take_bit_int_eq_self)
  then show ?thesis by (simp add: unat_eq_nat_uint)
qed

lemma append_result_fields:
  assumes inv: "region_inv lo hi r" and req: "req_ok r sz"
    and fit: "0 \<le> sint (chunk_slack r (last_chunk r) sz)" and n: "n \<noteq> last_chunk r"
  defines "r' \<equiv> append_result r sz n" and "a \<equiv> round_up (al r) (c_start r (last_chunk r))"
  shows "c_start r' n = a" "c_size r' n = unat sz" "c_start r' (last_chunk r) = a + unat sz"
    "c_end r' (last_chunk r) = c_end r (last_chunk r)" "a + unat sz \<le> hi"
proof -
  let ?l = "last_chunk r"
  from inv have l: "?l \<in> set (chunks r)" and ok: "align_ok r" and hi: "c_end r ?l = hi" "hi + al r \<le> 2 ^ 64"
    by (auto simp: region_inv_def dest: last_in_set)
  have slack: "sint (chunk_slack r ?l sz) = int hi - int a - int (unat sz)"
    using slack_in_region [OF inv l req] hi(1) by (simp add: a_def)
  then show le: "a + unat sz \<le> hi" using fit by linarith
  have st: "unat (align_up (al64 r) (start_address (all_chunks r ?l))) = a"
    unfolding a_def c_start_def using hi by (intro unat_aligned_start [OF ok]) (simp add: c_end_def c_start_def)
  show "c_start r' n = a" "c_size r' n = unat sz"
    using n st by (simp_all add: r'_def append_result_def Let_def c_start_def c_size_def)
  have "a + unat sz < 2 ^ 64" using le hi(2) al_pos [OF ok] by linarith
  then have "unat (align_up (al64 r) (start_address (all_chunks r ?l)) + sz) = a + unat sz"
    using st by (subst unat_add_lem [THEN iffD1]) auto
  then show s: "c_start r' ?l = a + unat sz"
    by (simp add: r'_def append_result_def Let_def c_start_def)
  have "int hi - int a - int (unat sz) = int (hi - (a + unat sz))" using le by (simp add: of_nat_diff)
  then have "c_size r' ?l = hi - (a + unat sz)"
    using unat_scast_nonneg [OF fit] slack
    by (simp only: nat_int) (simp add: r'_def append_result_def Let_def c_size_def)
  with s le hi(1) show "c_end r' ?l = c_end r ?l" by (simp add: c_end_def)
qed

lemma append_result_frame:
  assumes "c \<noteq> n" "c \<noteq> last_chunk r"
  shows "all_chunks (append_result r sz n) c = all_chunks r c"
    and "c_start (append_result r sz n) c = c_start r c"
    and "c_size (append_result r sz n) c = c_size r c"
    and "c_end (append_result r sz n) c = c_end r c"
  using assms by (simp_all add: append_result_def Let_def c_start_def c_size_def c_end_def)

lemma append_result_simps:
  "al (append_result r sz n) = al r" "align_ok (append_result r sz n) = align_ok r"
  "last_chunk (append_result r sz n) = last_chunk r" "strategy (append_result r sz n) = strategy r"
  "free_chunks (append_result r sz n) = tl (free_chunks r)"
  "chunks (append_result r sz n) = remove1 (last_chunk r) (chunks r) @ [n, last_chunk r]"
  "n \<noteq> last_chunk r \<Longrightarrow> is_allocated (all_chunks (append_result r sz n) n)"
  "n \<noteq> last_chunk r \<Longrightarrow> is_allocated (all_chunks (append_result r sz n) (last_chunk r)) =
     is_allocated (all_chunks r (last_chunk r))"
  by (simp_all add: append_result_def Let_def al_def al64_def align_ok_def)

lemma append_result_inv:
  assumes inv: "region_inv lo hi r" and req: "req_ok r sz"
    and fit: "0 \<le> sint (chunk_slack r (last_chunk r) sz)" and free: "free_chunks r = n # rest"
  shows "region_inv lo hi (append_result r sz n)"
    and "live (append_result r sz n) = (live r)(n \<mapsto> (round_up (al r) (c_start r (last_chunk r)), unat sz))"
    and "live r n = None"
proof -
  let ?r = "append_result r sz n" and ?l = "last_chunk r"
  obtain xs where xs: "chunks r = xs @ [?l]" using region_inv_cases [OF inv] by blast
  note i = inv [unfolded region_inv_snoc [OF xs refl]]
  have n: "n \<noteq> ?l" "n \<notin> set xs" "?l \<notin> set xs" using i free by auto
  note f = append_result_fields [OF inv req fit n(1)]
  have ch: "chunks ?r = (xs @ [n]) @ [?l]" using n(3) by (simp add: append_result_simps xs remove1_append)
  have fr: "c_start ?r c = c_start r c" "c_end ?r c = c_end r c" "c_size ?r c = c_size r c"
      "all_chunks ?r c = all_chunks r c" if "c \<in> set xs" for c
    using that n append_result_frame [of c n r sz] by auto
  have ge: "c_start r ?l \<le> round_up (al r) (c_start r ?l)"
    using i by (intro round_up_ge al_pos) auto
  have so: "sorted_wrt (\<lambda>a b. c_end ?r a \<le> c_start ?r b) xs"
    using i by (auto intro: sorted_wrt_mono_rel [rotated] simp: fr)
  show "region_inv lo hi ?r"
    unfolding region_inv_snoc [OF ch append_result_simps(3)]
    using i so f ge n free
    by (auto simp: append_result_simps fr sorted_wrt_append c_end_def [of ?r n] req_ok_def
        intro: le_trans req [unfolded req_ok_def, THEN conjunct1])
  show "live r n = None" using n xs by (simp add: live_def)
  show "live ?r = (live r)(n \<mapsto> (round_up (al r) (c_start r ?l), unat sz))"
  proof
    fix c
    show "live ?r c = ((live r)(n \<mapsto> (round_up (al r) (c_start r ?l), unat sz))) c"
      using i f n fr [of c]
      by (cases "c = n"; cases "c = ?l"; cases "c \<in> set xs")
        (auto simp: live_def ch xs append_result_simps)
  qed
qed

text \<open>Changing only allocation flags of chunks other than the sentinel keeps the invariant.\<close>

lemma set_flag_inv:
  assumes inv: "region_inv lo hi r" and c: "c \<noteq> last_chunk r"
  shows "region_inv lo hi (upd_chunk c (\<lambda>ch. ch\<lparr>is_allocated := b\<rparr>) r)"
proof -
  let ?r = "upd_chunk c (\<lambda>ch. ch\<lparr>is_allocated := b\<rparr>) r"
  have "c_start ?r = c_start r" "c_size ?r = c_size r" "c_end ?r = c_end r"
    by (auto simp: c_start_def c_size_def c_end_def)
  then show ?thesis using inv c by (simp add: region_inv_def)
qed

lemma live_set_flag:
  assumes "c \<in> set (chunks r)"
  shows "live (upd_chunk c (\<lambda>ch. ch\<lparr>is_allocated := b\<rparr>) r) =
           (live r)(c := if b then Some (c_start r c, c_size r c) else None)"
  using assms by (auto simp: live_def c_start_def c_size_def fun_eq_iff)

lemma inner_chunk:
  assumes inv: "region_inv lo hi r" and c: "c \<in> set (chunks r)" "c \<noteq> last_chunk r"
  shows "al r dvd c_start r c" "0 < c_size r c" "c_end r c \<le> c_start r (last_chunk r)"
proof -
  obtain xs where xs: "chunks r = xs @ [last_chunk r]" using region_inv_cases [OF inv] by blast
  with c inv [unfolded region_inv_snoc [OF xs refl]]
  show "al r dvd c_start r c" "0 < c_size r c" "c_end r c \<le> c_start r (last_chunk r)" by auto
qed

lemma find_SomeD: "find P xs = Some x \<Longrightarrow> x \<in> set xs \<and> P x"
  by (induction xs) (auto split: if_splits)

lemma reuse_chunk_spec:
  assumes inv: "region_inv lo hi r" and req: "req_ok r sz" and re: "reuse_chunk r sz = (Some c, r')"
  shows "region_inv lo hi r'" "live r c = None" "live r' = (live r)(c \<mapsto> (c_start r c, c_size r c))"
    "al r dvd c_start r c" "unat sz \<le> c_size r c" "al r' = al r" "strategy r' = strategy r"
proof -
  from re have f: "find (fits r sz) (chunks r) = Some c"
    and r': "r' = upd_chunk c (\<lambda>ch. ch\<lparr>is_allocated := True\<rparr>) r"
    by (auto simp: reuse_chunk_def split: option.splits)
  from find_SomeD [OF f] have c: "c \<in> set (chunks r)" "c \<noteq> last_chunk r"
    "\<not> is_allocated (all_chunks r c)" "0 \<le> sint (chunk_slack r c sz)" by (auto simp: fits_def)
  note ic = inner_chunk [OF inv c(1,2)]
  have "al r > 0" using inv by (auto simp: region_inv_def intro: al_pos)
  with ic(1) have "round_up (al r) (c_start r c) = c_start r c" by simp
  with slack_in_region [OF inv c(1) req] c(4)
  have "int (unat sz) \<le> int (c_end r c) - int (c_start r c)" by simp
  then show "unat sz \<le> c_size r c" unfolding c_end_def of_nat_add by (simp only: add_diff_cancel_left' of_nat_le_iff)
  show "region_inv lo hi r'" unfolding r' by (rule set_flag_inv [OF inv c(2)])
  show "live r' = (live r)(c \<mapsto> (c_start r c, c_size r c))" unfolding r' live_set_flag [OF c(1)] by simp
  show "live r c = None" using c by (simp add: live_def)
  show "al r dvd c_start r c" by (rule ic(1))
qed (use re in \<open>auto simp: reuse_chunk_def split: option.splits\<close>)

lemma append_new_chunk_spec:
  assumes inv: "region_inv lo hi r" and req: "req_ok r sz"
  shows "\<exists>res r'. append_new_chunk r sz = Ret (res, r') \<and> region_inv lo hi r' \<and>
    al r' = al r \<and> strategy r' = strategy r \<and>
    (case res of None \<Rightarrow> r' = r
     | Some c \<Rightarrow> \<exists>a. live r c = None \<and> live r' = (live r)(c \<mapsto> (a, unat sz)) \<and> al r dvd a)"
proof -
  have pre: "\<not> is_allocated (all_chunks r (last_chunk r))" "last_chunk r \<notin> set (free_chunks r)"
    using inv last_in_set [of "chunks r"] by (auto simp: region_inv_def)
  show ?thesis
  proof (cases "sint (chunk_slack r (last_chunk r) sz) < 0 \<or> free_chunks r = []")
    case True
    then show ?thesis using inv by (simp add: append_new_chunk_eq [OF pre])
  next
    case False
    then obtain n rest where n: "free_chunks r = n # rest" by (cases "free_chunks r") auto
    have fit: "0 \<le> sint (chunk_slack r (last_chunk r) sz)" using False by simp
    note a = append_result_inv [OF inv req fit n]
    show ?thesis using False a n
      by (auto simp: append_new_chunk_eq [OF pre] append_result_simps)
  qed
qed

theorem alloc_region_spec:
  assumes inv: "region_inv lo hi r" and req: "req_ok r sz"
  shows "\<exists>res r'. alloc_buffer_from_region r sz = Ret (res, r') \<and> region_inv lo hi r' \<and>
    al r' = al r \<and> strategy r' = strategy r \<and>
    (case res of None \<Rightarrow> r' = r
     | Some c \<Rightarrow> \<exists>a n. live r c = None \<and> live r' = (live r)(c \<mapsto> (a, n)) \<and> al r dvd a \<and> unat sz \<le> n)"
proof -
  obtain res r1 where ap: "append_new_chunk r sz = Ret (res, r1)" "region_inv lo hi r1"
      "al r1 = al r" "strategy r1 = strategy r"
      "case res of None \<Rightarrow> r1 = r
       | Some c \<Rightarrow> \<exists>a. live r c = None \<and> live r1 = (live r)(c \<mapsto> (a, unat sz)) \<and> al r dvd a"
    using append_new_chunk_spec [OF inv req] by blast
  obtain res2 r2 where re: "reuse_chunk r sz = (res2, r2)" by fastforce
  show ?thesis
  proof (cases res2)
    case None
    with re have "r2 = r" by (auto simp: reuse_chunk_def split: option.splits)
    with None re ap show ?thesis
      by (cases res) (auto simp: alloc_buffer_from_region_def)
  next
    case (Some c)
    note s = reuse_chunk_spec [OF inv req re [unfolded Some]]
    show ?thesis using s ap re Some
      by (cases res) (auto simp: alloc_buffer_from_region_def)
  qed
qed

section \<open>Freeing and coalescing\<close>

lemma coalesce_noop:
  "is_allocated (all_chunks r f) \<or> is_allocated (all_chunks r s) \<or> c_start r s < c_start r f \<Longrightarrow>
   coalesce_chunks r (Some f) (Some s) = (Some s, r)"
  by (auto simp: coalesce_chunks_def c_start_def word_less_nat_alt)

definition merged :: "memory_region \<Rightarrow> ptr \<Rightarrow> ptr \<Rightarrow> memory_region" where
  "merged r f s =
     upd_chunk f (\<lambda>ch. ch\<lparr>chunk_size := start_address (all_chunks r s) + chunk_size (all_chunks r s)
                        - start_address (all_chunks r f)\<rparr>)
       (r\<lparr>chunks := remove1 s (chunks r), free_chunks := free_chunks r @ [s],
          last_chunk := (if last_chunk r = s then f else last_chunk r)\<rparr>)"

lemma coalesce_merged:
  assumes "\<not> is_allocated (all_chunks r f)" "\<not> is_allocated (all_chunks r s)"
    "c_start r f \<le> c_start r s"
  shows "coalesce_chunks r (Some f) (Some s) = (Some f, merged r f s)"
  using assms
  by (auto simp: coalesce_chunks_def merged_def c_start_def word_less_nat_alt Let_def upd_chunk_def
      intro!: memory_region.equality)

lemma merged_simps [simp]:
  "al (merged r f s) = al r" "align_ok (merged r f s) = align_ok r"
  "chunks (merged r f s) = remove1 s (chunks r)" "free_chunks (merged r f s) = free_chunks r @ [s]"
  "last_chunk (merged r f s) = (if last_chunk r = s then f else last_chunk r)"
  "is_allocated (all_chunks (merged r f s) c) = is_allocated (all_chunks r c)"
  "c_start (merged r f s) c = c_start r c"
  "c \<noteq> f \<Longrightarrow> c_size (merged r f s) c = c_size r c"
  "strategy (merged r f s) = strategy r"
  by (simp_all add: merged_def al_def al64_def align_ok_def c_start_def c_size_def)

lemma merged_end:
  assumes "c_start r f \<le> c_end r s" "c_end r s < 2 ^ 64"
  shows "c_end (merged r f s) f = c_end r s"
proof -
  let ?s = "all_chunks r s" and ?f = "all_chunks r f"
  have "unat (start_address ?s + chunk_size ?s) = c_end r s"
    using assms(2) by (subst unat_add_lem [THEN iffD1]) (auto simp: c_end_def c_start_def c_size_def)
  then have "unat (start_address ?s + chunk_size ?s - start_address ?f) = c_end r s - c_start r f"
    using assms(1) by (subst unat_sub) (auto simp: word_le_nat_alt c_start_def)
  then have "c_size (merged r f s) f = c_end r s - c_start r f" by (simp add: merged_def c_size_def)
  with assms(1) show ?thesis by (simp add: c_end_def [of "merged r f s"])
qed

text \<open>Merging two neighbours that are both free keeps the invariant and all live chunks.\<close>

lemma merge_neighbours:
  assumes inv: "region_inv lo hi r" and ch: "chunks r = xs @ f # s # ys"
    and free: "\<not> is_allocated (all_chunks r f)" "\<not> is_allocated (all_chunks r s)"
  shows "coalesce_chunks r (Some f) (Some s) = (Some f, merged r f s)"
    and "region_inv lo hi (merged r f s)" and "live (merged r f s) = live r"
    and "chunks (merged r f s) = xs @ f # ys"
proof -
  let ?m = "merged r f s"
  have d: "distinct (xs @ f # s # ys @ free_chunks r)" using inv ch by (simp add: region_inv_def)
  have so: "sorted_wrt (\<lambda>a b. c_end r a \<le> c_start r b) (xs @ f # s # ys)"
    and hi: "c_end r s \<le> hi" "hi + al r \<le> 2 ^ 64" and ok: "align_ok r"
    using inv ch by (auto simp: region_inv_def)
  have fs: "c_end r f \<le> c_start r s" using so by (simp add: sorted_wrt_append)
  then have st: "c_start r f \<le> c_start r s" "c_start r s \<le> c_end r s" by (auto simp: c_end_def)
  show "coalesce_chunks r (Some f) (Some s) = (Some f, ?m)" by (rule coalesce_merged [OF free st(1)])
  show chm: "chunks ?m = xs @ f # ys" using d ch by (simp add: remove1_append)
  have end_f: "c_end ?m f = c_end r s"
    using st hi al_pos [OF ok] by (intro merged_end) auto
  have fr: "c_size ?m c = c_size r c" "c_end ?m c = c_end r c" if "c \<noteq> f" for c
    using that by (auto simp: c_end_def)
  have frx: "c_end ?m c = c_end r c" "c_size ?m c = c_size r c" if "c \<in> set xs \<union> set ys" for c
    using d that fr [of c] by (cases "c = f"; auto)+
  show "live ?m = live r"
  proof
    fix c
    show "live ?m c = live r c"
      unfolding live_def chm ch using d free fr [of c] by (cases "c = f"; cases "c = s") auto
  qed
  have "sorted_wrt (\<lambda>a b. c_end ?m a \<le> c_start ?m b) zs"
    if "sorted_wrt (\<lambda>a b. c_end r a \<le> c_start r b) zs" "set zs \<subseteq> set xs \<union> set ys" for zs
    using that(1) by (rule sorted_wrt_mono_rel [rotated]) (use that(2) frx in \<open>auto simp: subset_iff\<close>)
  then have so': "sorted_wrt (\<lambda>a b. c_end ?m a \<le> c_start ?m b) (xs @ f # ys)"
    using so end_f frx by (auto simp: sorted_wrt_append)
  have bl: "butlast (xs @ f # s # ys) = (if ys = [] then xs @ [f] else xs @ f # s # butlast ys)"
    "butlast (xs @ f # ys) = (if ys = [] then xs else xs @ f # butlast ys)"
    by (auto simp: butlast_append)
  have pos: "0 < c_size ?m f" if "0 < c_size r f"
    using end_f st fs that by (simp add: c_end_def)
  show "region_inv lo hi ?m"
  proof (cases "ys = []")
    case True
    then show ?thesis
      unfolding region_inv_def chm
      using inv [unfolded region_inv_def ch bl] so' d end_f frx free by auto
  next
    case False
    have l: "last_chunk r \<in> set ys" "last_chunk r \<noteq> s"
      using inv ch d False last_in_set [of ys] by (auto simp: region_inv_def)
    have frb: "c_size ?m c = c_size r c" if "c \<in> set (butlast ys)" for c
      using frx that by (auto dest: in_set_butlastD)
    show ?thesis
      unfolding region_inv_def chm
      using inv [unfolded region_inv_def ch bl] so' d end_f frx frb pos l False by (auto simp: bl)
  qed
qed

lemma release_eq:
  assumes inv: "region_inv lo hi r0" and ch: "chunks r0 = as @ c # b # bs"
    and free: "\<not> is_allocated (all_chunks r0 c)"
    and r0: "r0 = upd_chunk c (\<lambda>ch. ch\<lparr>is_allocated := False\<rparr>) r"
  shows "release_chunk ord r c =
    (if as \<noteq> [] \<and> \<not> is_allocated (all_chunks r0 (last as)) then
       (if ord = Next_First \<and> \<not> is_allocated (all_chunks r0 b)
        then merged (merged r0 (last as) c) (last as) b else merged r0 (last as) c)
     else if \<not> is_allocated (all_chunks r0 b) then merged r0 c b else r0)"
proof -
  have d: "distinct (as @ c # b # bs @ free_chunks r0)" using inv ch by (simp add: region_inv_def)
  have prev: "chunk_prev r0 c = Some (if as = [] then last (b # bs) else last as)"
    and nxt: "chunk_next r0 c = Some b"
    using dl_split_prev_next [of as c "b # bs"] d by (simp_all add: chunk_prev_def chunk_next_def ch Int_Un_distrib)
  have l: "last_chunk r0 = last (b # bs)" using inv ch by (simp add: region_inv_def)
  have second: "coalesce_chunks r0 (Some c) (Some b) =
      (if is_allocated (all_chunks r0 b) then (Some b, r0) else (Some c, merged r0 c b))"
    using merge_neighbours(1) [OF inv ch free] by (auto intro: coalesce_noop)
  show ?thesis
  proof (cases "as \<noteq> [] \<and> \<not> is_allocated (all_chunks r0 (last as))")
    case False
    have "coalesce_chunks r0 (chunk_prev r0 c) (Some c) = (Some c, r0)"
    proof (cases "as = []")
      case True
      have "c \<noteq> last_chunk r0" using d l last_in_set [of "b # bs"] by auto
      then have "c_end r0 c \<le> c_start r0 (last_chunk r0)" "0 < c_size r0 c"
        using inner_chunk [OF inv, of c] ch by auto
      then show ?thesis using True prev l by (simp add: coalesce_noop c_end_def)
    next
      case as: False
      then show ?thesis using False prev by (simp add: coalesce_noop)
    qed
    then show ?thesis using False nxt second
      by (cases ord) (auto simp: release_chunk_def Let_def r0)
  next
    case True
    define p where "p = last as"
    from True have as: "as = butlast as @ [p]" by (simp add: p_def)
    have ch': "chunks r0 = butlast as @ p # c # b # bs" using ch as by (metis append.assoc append_Cons append_Nil)
    have pf: "\<not> is_allocated (all_chunks r0 p)" using True by (simp add: p_def)
    note m = merge_neighbours [OF inv ch' pf free]
    have "c \<notin> set (butlast as @ p # b # bs)" using inv ch' by (auto simp: region_inv_def)
    then have nr1: "chunk_next (merged r0 p c) c = None"
      using d dl_split_prev_next(2) [of "free_chunks r0" c "[]"]
      by (simp add: chunk_next_def m(4) del: merged_simps(3))
    have third: "coalesce_chunks (merged r0 p c) (Some p) (Some b) =
      (if is_allocated (all_chunks r0 b) then (Some b, merged r0 p c)
       else (Some p, merged (merged r0 p c) p b))"
      using merge_neighbours(1) [OF m(2,4)] pf by (auto intro: coalesce_noop)
    have none: "coalesce_chunks (merged r0 p c) (Some p) None = (Some p, merged r0 p c)"
      by (simp add: coalesce_chunks_def)
    show ?thesis using True prev nxt m(1) nr1 third none
      by (cases ord) (auto simp: release_chunk_def Let_def r0 [symmetric] p_def)
  qed
qed

theorem release_chunk_spec:
  assumes inv: "region_inv lo hi r" and lv: "live r c \<noteq> None"
  shows "region_inv lo hi (release_chunk ord r c)"
    and "live (release_chunk ord r c) = (live r)(c := None)"
    and "al (release_chunk ord r c) = al r"
proof -
  define r0 where "r0 = upd_chunk c (\<lambda>ch. ch\<lparr>is_allocated := False\<rparr>) r"
  have c: "c \<in> set (chunks r)" "c \<noteq> last_chunk r" "is_allocated (all_chunks r c)"
    using lv inv by (auto simp: live_def region_inv_def split: if_splits)
  have inv0: "region_inv lo hi r0" unfolding r0_def by (rule set_flag_inv [OF inv c(2)])
  have live0: "live r0 = (live r)(c := None)" unfolding r0_def live_set_flag [OF c(1)] by simp
  obtain as b bs where ch: "chunks r0 = as @ c # b # bs"
  proof -
    obtain as ys where ys: "chunks r = as @ c # ys" using c(1) by (meson split_list)
    moreover have "last (chunks r) = last_chunk r" using inv by (simp add: region_inv_def)
    ultimately show thesis using that c(2) by (cases ys) (auto simp: r0_def)
  qed
  have f: "\<not> is_allocated (all_chunks r0 c)" by (simp add: r0_def)
  note eq = release_eq [OF inv0 ch f r0_def]
  have al0: "al r0 = al r" by (simp add: r0_def)
  have prev: "chunks r0 = butlast as @ last as # c # b # bs" if "as \<noteq> []"
    using ch that by (metis append.assoc append_Cons append_Nil append_butlast_last_id)
  have "region_inv lo hi (release_chunk ord r c) \<and> live (release_chunk ord r c) = live r0 \<and>
        al (release_chunk ord r c) = al r0"
  proof (cases "as \<noteq> [] \<and> \<not> is_allocated (all_chunks r0 (last as))")
    case True
    note m = merge_neighbours [OF inv0 prev [OF conjunct1 [OF True]] conjunct2 [OF True] f]
    show ?thesis
      using True m(2,3) merge_neighbours(2,3) [OF m(2,4)] by (simp add: eq)
  next
    case False
    then show ?thesis using inv0 merge_neighbours(2,3) [OF inv0 ch f] by (auto simp: eq)
  qed
  then show "region_inv lo hi (release_chunk ord r c)"
    "live (release_chunk ord r c) = (live r)(c := None)" "al (release_chunk ord r c) = al r"
    using live0 al0 by auto
qed

section \<open>Initialisation and runs of a region\<close>

lemma foldl_snoc_eq: "foldl (\<lambda>xs i. xs @ [i]) ys zs = ys @ zs"
  by (induction zs arbitrary: ys) auto

lemma init_mem_region_simps:
  "chunks (init_mem_region r start sz) = [0]" "last_chunk (init_mem_region r start sz) = 0"
  "free_chunks (init_mem_region r start sz) = [1..<MAX_CHUNKS_IN_REGION]"
  "alignment (init_mem_region r start sz) = 64" "strategy (init_mem_region r start sz) = BALLOCS_WASTEFUL"
  "\<not> is_allocated (all_chunks (init_mem_region r start sz) 0)"
  "c_start (init_mem_region r start sz) 0 = unat start"
  "c_end (init_mem_region r start sz) 0 = unat start + unat sz"
  by (simp_all add: init_mem_region_def Let_def foldl_snoc_eq c_start_def c_end_def c_size_def)

lemma al_64: "alignment r = 64 \<Longrightarrow> al r = 64 \<and> align_ok r"
proof -
  assume a: "alignment r = 64"
  have "(6::nat) < 15 \<and> alignment r = 2 ^ 6" using a by simp
  then have "align_ok r" unfolding align_ok_def by blast
  moreover have "al r = 64" using a by (simp add: al_def al64_def)
  ultimately show ?thesis by simp
qed

lemma init_mem_region_inv:
  assumes "unat sz < 2 ^ 31" "unat start + unat sz + 64 \<le> 2 ^ 64"
  shows "region_inv (unat start) (unat start + unat sz) (init_mem_region r start sz)"
    and "live (init_mem_region r start sz) = Map.empty"
proof -
  let ?r = "init_mem_region r start sz"
  have a: "al ?r = 64" "align_ok ?r" using al_64 [of ?r] by (simp_all add: init_mem_region_simps)
  have "insert (0::nat) {1..<MAX_CHUNKS_IN_REGION} = {..<MAX_CHUNKS_IN_REGION}"
    by (auto simp: MAX_CHUNKS_IN_REGION_def)
  then show "region_inv (unat start) (unat start + unat sz) ?r"
    using assms a by (auto simp: region_inv_def init_mem_region_simps)
  show "live ?r = Map.empty" by (rule ext) (auto simp: live_def init_mem_region_simps)
qed

text \<open>The regions a client can reach with valid requests and valid frees, in any order.\<close>

inductive region_run :: "arg_order \<Rightarrow> memory_region \<Rightarrow> memory_region \<Rightarrow> bool" for ord where
  run_start: "region_run ord r r"
| run_alloc: "region_run ord r r1 \<Longrightarrow> req_ok r1 sz \<Longrightarrow>
     alloc_buffer_from_region r1 sz = Ret (res, r2) \<Longrightarrow> region_run ord r r2"
| run_free: "region_run ord r r1 \<Longrightarrow> live r1 c \<noteq> None \<Longrightarrow> region_run ord r (free_chunk ord r1 c)"

section \<open>The allocator interface\<close>

locale chunk_allocator =
  fixes inv :: "'r \<Rightarrow> bool"
    and live_map :: "'r \<Rightarrow> ptr \<rightharpoonup> nat \<times> nat"
    and alloc :: "'r \<Rightarrow> size_t \<Rightarrow> (ptr option \<times> 'r) outcome"
    and release :: "'r \<Rightarrow> ptr \<Rightarrow> 'r"
    and request_ok :: "'r \<Rightarrow> size_t \<Rightarrow> bool"
  assumes disjoint_law: "inv r \<Longrightarrow> live_map r c = Some (a, n) \<Longrightarrow> live_map r d = Some (b, m) \<Longrightarrow>
      c \<noteq> d \<Longrightarrow> a + n \<le> b \<or> b + m \<le> a"
    and alloc_law: "inv r \<Longrightarrow> request_ok r sz \<Longrightarrow>
      \<exists>res r'. alloc r sz = Ret (res, r') \<and> inv r' \<and> (\<forall>s. request_ok r' s = request_ok r s) \<and>
        (case res of None \<Rightarrow> live_map r' = live_map r
         | Some c \<Rightarrow> \<exists>a n. live_map r c = None \<and> live_map r' = (live_map r)(c \<mapsto> (a, n)) \<and> unat sz \<le> n)"
    and release_law: "inv r \<Longrightarrow> live_map r c \<noteq> None \<Longrightarrow>
      inv (release r c) \<and> live_map (release r c) = (live_map r)(c := None)"
begin

lemma alloc_inv: "inv r \<Longrightarrow> request_ok r sz \<Longrightarrow> alloc r sz = Ret (res, r') \<Longrightarrow> inv r'"
  using alloc_law by fastforce

text \<open>What is handed out does not overlap anything in use, and using it does not move other blocks.\<close>

lemma alloc_fresh:
  assumes "inv r" "request_ok r sz" "alloc r sz = Ret (Some c, r')"
  shows "\<exists>a n. live_map r' c = Some (a, n) \<and> unat sz \<le> n \<and>
           (\<forall>d b m. live_map r d = Some (b, m) \<longrightarrow>
              d \<noteq> c \<and> live_map r' d = Some (b, m) \<and> (a + n \<le> b \<or> b + m \<le> a))"
proof -
  obtain a n where i: "inv r'" and n: "live_map r c = None"
      "live_map r' = (live_map r)(c \<mapsto> (a, n))" "unat sz \<le> n"
    using alloc_law [OF assms(1,2)] assms(3) by auto
  have "d \<noteq> c \<and> live_map r' d = Some (b, m) \<and> (a + n \<le> b \<or> b + m \<le> a)"
    if "live_map r d = Some (b, m)" for d b m
  proof -
    have "d \<noteq> c" using that n(1) by auto
    moreover from this have "live_map r' d = Some (b, m)" using that n(2) by simp
    ultimately show ?thesis using disjoint_law [OF i, of c a n d b m] n(2) by auto
  qed
  then show ?thesis using n by auto
qed

lemma alloc_release:
  assumes "inv r" "request_ok r sz" "alloc r sz = Ret (Some c, r')"
  shows "inv (release r' c) \<and> live_map (release r' c) = live_map r"
proof -
  obtain a n where i: "inv r'" and n: "live_map r c = None" "live_map r' = (live_map r)(c \<mapsto> (a, n))"
    using alloc_law [OF assms(1,2)] assms(3) by auto
  then have "live_map r' c \<noteq> None" by simp
  from release_law [OF i this] n show ?thesis by (auto simp: fun_eq_iff)
qed

end

lemma live_disjoint:
  assumes inv: "region_inv lo hi r" and c: "live r c = Some (a, n)" and d: "live r d = Some (b, m)"
    and ne: "c \<noteq> d"
  shows "a + n \<le> b \<or> b + m \<le> a"
proof -
  have so: "sorted_wrt (\<lambda>a b. c_end r a \<le> c_start r b) (chunks r)" using inv by (simp add: region_inv_def)
  have "c \<in> set (chunks r)" "d \<in> set (chunks r)" and e: "a = c_start r c" "a + n = c_end r c"
      "b = c_start r d" "b + m = c_end r d"
    using c d by (auto simp: live_def c_end_def split: if_splits)
  then obtain i j where ij: "i < length (chunks r)" "j < length (chunks r)" "chunks r ! i = c" "chunks r ! j = d"
    by (auto simp: in_set_conv_nth)
  with ne have "i < j \<or> j < i" by (metis nat_neq_iff)
  then show ?thesis
    using sorted_wrt_nth_less [OF so, of i j] sorted_wrt_nth_less [OF so, of j i] ij e by auto
qed

interpretation region: chunk_allocator "region_inv lo hi" live alloc_buffer_from_region "free_chunk ord" req_ok
  for lo hi ord
proof unfold_locales
  fix r sz
  assume "region_inv lo hi r" "req_ok r sz"
  from alloc_region_spec [OF this] obtain res r' where
    a: "alloc_buffer_from_region r sz = Ret (res, r')" "region_inv lo hi r'" "al r' = al r"
      "case res of None \<Rightarrow> r' = r | Some c \<Rightarrow> \<exists>a n. live r c = None \<and>
         live r' = (live r)(c \<mapsto> (a, n)) \<and> al r dvd a \<and> unat sz \<le> n" by blast
  then show "\<exists>res r'. alloc_buffer_from_region r sz = Ret (res, r') \<and> region_inv lo hi r' \<and>
      (\<forall>s. req_ok r' s = req_ok r s) \<and>
      (case res of None \<Rightarrow> live r' = live r
       | Some c \<Rightarrow> \<exists>a n. live r c = None \<and> live r' = (live r)(c \<mapsto> (a, n)) \<and> unat sz \<le> n)"
    by (cases res) (auto simp: req_ok_def)
qed (use live_disjoint release_chunk_spec in \<open>auto simp: free_chunk_def\<close>)

lemma region_run_inv:
  "region_run ord r r' \<Longrightarrow> region_inv lo hi r \<Longrightarrow> region_inv lo hi r'"
  by (induction rule: region_run.induct)
    (auto dest: region.alloc_inv region.release_law)

section \<open>Full coalescing\<close>

text \<open>No two neighbouring chunks are both free.\<close>

definition busy_pair :: "memory_region \<Rightarrow> ptr \<Rightarrow> ptr \<Rightarrow> bool" where
  "busy_pair r a b \<longleftrightarrow> is_allocated (all_chunks r a) \<or> is_allocated (all_chunks r b)"

definition coalesced :: "memory_region \<Rightarrow> bool" where
  "coalesced r \<longleftrightarrow> successively (busy_pair r) (chunks r)"

lemma region_inv_distinct: "region_inv lo hi r \<Longrightarrow> distinct (chunks r)"
  by (simp add: region_inv_def)

lemma coalesced_append_result:
  assumes inv: "region_inv lo hi r" and co: "coalesced r" and free: "free_chunks r = n # rest"
  shows "coalesced (append_result r sz n)"
proof -
  obtain xs where xs: "chunks r = xs @ [last_chunk r]" using region_inv_cases [OF inv] by blast
  note i = inv [unfolded region_inv_snoc [OF xs refl]]
  have n: "n \<noteq> last_chunk r" "n \<notin> set xs" "last_chunk r \<notin> set xs" using i free by auto
  have "successively (busy_pair (append_result r sz n)) xs"
  proof (rule successively_mono)
    show "successively (busy_pair r) xs" using co by (simp add: coalesced_def xs successively_append_iff)
    fix a b assume ab: "a \<in> set xs" "b \<in> set xs" "busy_pair r a b"
    then have "a \<noteq> n" "a \<noteq> last_chunk r" "b \<noteq> n" "b \<noteq> last_chunk r" using n by auto
    then show "busy_pair (append_result r sz n) a b"
      using ab append_result_frame(1) [of a n r sz] append_result_frame(1) [of b n r sz]
      by (auto simp: busy_pair_def)
  qed
  then show ?thesis
    using n append_result_simps(7) [OF n(1)]
    by (auto simp: coalesced_def append_result_simps xs remove1_append successively_append_iff busy_pair_def)
qed

lemma coalesced_set_true: "coalesced r \<Longrightarrow> coalesced (upd_chunk c (\<lambda>ch. ch\<lparr>is_allocated := True\<rparr>) r)"
  unfolding coalesced_def by (auto elim!: successively_mono simp: busy_pair_def)

lemma coalesced_alloc:
  assumes inv: "region_inv lo hi r" and co: "coalesced r"
    and al: "alloc_buffer_from_region r sz = Ret (res, r')"
  shows "coalesced r'"
proof -
  have pre: "\<not> is_allocated (all_chunks r (last_chunk r))" "last_chunk r \<notin> set (free_chunks r)"
    using inv last_in_set [of "chunks r"] by (auto simp: region_inv_def)
  obtain x1 r1 where ap: "append_new_chunk r sz = Ret (x1, r1)"
    by (cases "sint (chunk_slack r (last_chunk r) sz) < 0 \<or> free_chunks r = []")
      (auto simp: append_new_chunk_eq [OF pre])
  then have 1: "coalesced r1" "x1 = None \<Longrightarrow> r1 = r"
    using co coalesced_append_result [OF inv co]
    by (cases "free_chunks r"; auto simp: append_new_chunk_eq [OF pre] split: if_splits)+
  obtain x2 r2 where re: "reuse_chunk r sz = (x2, r2)" by fastforce
  then have 2: "coalesced r2" "x2 = None \<Longrightarrow> r2 = r"
    using co coalesced_set_true by (auto simp: reuse_chunk_def split: option.splits)
  show ?thesis using al ap re 1 2
    by (cases "strategy r"; cases x1; cases x2) (auto simp: alloc_buffer_from_region_def)
qed

text \<open>When \<open>chunk->next\<close> is read before the inner merge, freeing merges on both sides.\<close>

lemma coalesced_merged:
  assumes "chunks r = xs @ f # s # ys" "distinct (xs @ f # s # ys)"
    "successively (busy_pair r) (xs @ [f])" "successively (busy_pair r) (s # ys)"
    "\<not> is_allocated (all_chunks r s)"
  shows "coalesced (merged r f s)"
proof -
  have bp: "busy_pair (merged r f s) = busy_pair r" by (auto simp: busy_pair_def fun_eq_iff)
  have "remove1 s (chunks r) = xs @ f # ys" using assms(1,2) by (simp add: remove1_append)
  moreover have "successively (busy_pair r) (f # ys)"
    using assms(4,5) by (cases ys) (auto simp: busy_pair_def)
  ultimately show ?thesis
    unfolding coalesced_def bp using assms(3) by (auto simp: successively_append_iff)
qed

lemma coalesced_release:
  assumes inv: "region_inv lo hi r" and co: "coalesced r" and lv: "live r c \<noteq> None"
  shows "coalesced (release_chunk Next_First r c)"
proof -
  define r0 where "r0 = upd_chunk c (\<lambda>ch. ch\<lparr>is_allocated := False\<rparr>) r"
  have c: "c \<in> set (chunks r)" "c \<noteq> last_chunk r" using lv inv
    by (auto simp: live_def region_inv_def split: if_splits)
  have inv0: "region_inv lo hi r0" unfolding r0_def by (rule set_flag_inv [OF inv c(2)])
  obtain as b bs where ch: "chunks r0 = as @ c # b # bs"
  proof -
    obtain as ys where "chunks r = as @ c # ys" using c(1) by (meson split_list)
    moreover have "last (chunks r) = last_chunk r" using inv by (simp add: region_inv_def)
    ultimately show thesis using that c(2) by (cases ys) (auto simp: r0_def)
  qed
  have f: "\<not> is_allocated (all_chunks r0 c)" by (simp add: r0_def)
  have d: "distinct (as @ c # b # bs)" using inv0 ch by (auto simp: region_inv_def)
  have keep: "successively (busy_pair r0) zs" if "successively (busy_pair r) zs" "c \<notin> set zs" for zs
    using that(1) by (rule successively_mono) (use that(2) in \<open>auto simp: busy_pair_def r0_def\<close>)
  have "successively (busy_pair r) (as @ c # b # bs)" using co ch by (simp add: coalesced_def r0_def)
  then have sa: "successively (busy_pair r0) as" and sb: "successively (busy_pair r0) (b # bs)"
    using keep [of as] keep [of "b # bs"] d by (auto simp: successively_append_iff)
  note eq = release_eq [OF inv0 ch f r0_def, of Next_First]
  have sac: "successively (busy_pair r0) (as @ [c])"
    if "as = [] \<or> is_allocated (all_chunks r0 (last as))"
    using sa that by (auto simp: successively_append_iff busy_pair_def)
  show ?thesis
  proof (cases "as \<noteq> [] \<and> \<not> is_allocated (all_chunks r0 (last as))")
    case False
    then show ?thesis
      using sac sb ch d f coalesced_merged [OF ch d _ sb]
      by (auto simp: eq coalesced_def successively_append_iff busy_pair_def)
  next
    case True
    define p where "p = last as"
    from True have as: "as = butlast as @ [p]" by (simp add: p_def)
    have ch': "chunks r0 = butlast as @ p # c # b # bs" using ch as by (metis append.assoc append_Cons append_Nil)
    have pf: "\<not> is_allocated (all_chunks r0 p)" using True by (simp add: p_def)
    note m = merge_neighbours [OF inv0 ch' pf f]
    have bp: "busy_pair (merged r0 p c) = busy_pair r0" by (auto simp: busy_pair_def fun_eq_iff)
    have sp: "successively (busy_pair r0) (butlast as @ [p])" using sa as by simp
    have d1: "distinct (butlast as @ p # b # bs)" using region_inv_distinct [OF m(2), unfolded m(4)] .
    show ?thesis
    proof (cases "is_allocated (all_chunks r0 b)")
      case True
      then show ?thesis
        using \<open>as \<noteq> [] \<and> _\<close> sp sb
        by (auto simp: eq p_def [symmetric] coalesced_def m(4) bp successively_append_iff busy_pair_def
            simp del: merged_simps(3))
    next
      case False
      have "coalesced (merged (merged r0 p c) p b)"
        by (rule coalesced_merged [OF m(4) d1]) (use sp sb False in \<open>auto simp: bp\<close>)
      then show ?thesis using \<open>as \<noteq> [] \<and> _\<close> False by (simp add: eq p_def)
    qed
  qed
qed

text \<open>A coalesced region without live chunks is one single free chunk again.\<close>

lemma coalesced_empty:
  assumes inv: "region_inv lo hi r" and co: "coalesced r" and none: "live r = Map.empty"
  shows "chunks r = [last_chunk r]"
proof -
  obtain xs where xs: "chunks r = xs @ [last_chunk r]" using region_inv_cases [OF inv] by blast
  have "\<not> is_allocated (all_chunks r c)" if "c \<in> set (chunks r)" for c
    using fun_cong [OF none, of c] that by (auto simp: live_def split: if_splits)
  then have "xs = []"
    using co xs by (cases xs rule: rev_cases) (auto simp: coalesced_def successively_append_iff busy_pair_def)
  with xs show ?thesis by simp
qed

section \<open>Several regions\<close>

definition regions_inv :: "(nat \<times> nat) list \<Rightarrow> memory_region list \<Rightarrow> bool" where
  "regions_inv bs rs \<longleftrightarrow> list_all2 (\<lambda>(lo, hi) r. region_inv lo hi r) bs rs"

lemma alloc_none_unchanged:
  assumes "region_inv lo hi r" "req_ok r sz" "alloc_buffer_from_region r sz = Ret (None, r')"
  shows "r' = r"
  using alloc_region_spec [OF assms(1,2)] assms(3) by auto

lemma alloc_buffer_first_fit:
  assumes "regions_inv bs rs" and "\<And>r. r \<in> set rs \<Longrightarrow> req_ok r sz"
  shows "\<exists>res rs'. alloc_buffer rs sz = Ret (res, rs') \<and>
    (case res of
       None \<Rightarrow> rs' = rs \<and> (\<forall>r \<in> set rs. alloc_buffer_from_region r sz = Ret (None, r))
     | Some (i, c) \<Rightarrow> i < length rs \<and>
         (\<forall>j < i. alloc_buffer_from_region (rs ! j) sz = Ret (None, rs ! j)) \<and>
         (\<exists>r'. alloc_buffer_from_region (rs ! i) sz = Ret (Some c, r') \<and> rs' = rs[i := r']))"
  using assms
proof (induction rs arbitrary: bs)
  case Nil
  then show ?case by simp
next
  case (Cons r rs)
  then obtain lo hi bs' where bs: "bs = (lo, hi) # bs'" and i: "region_inv lo hi r" "regions_inv bs' rs"
    by (auto simp: regions_inv_def list_all2_Cons2)
  have q: "req_ok r sz" using Cons.prems by simp
  obtain res r' where a: "alloc_buffer_from_region r sz = Ret (res, r')"
    using alloc_region_spec [OF i(1) q] by blast
  obtain res2 rs' where b: "alloc_buffer rs sz = Ret (res2, rs')"
    "case res2 of
       None \<Rightarrow> rs' = rs \<and> (\<forall>r \<in> set rs. alloc_buffer_from_region r sz = Ret (None, r))
     | Some (i, c) \<Rightarrow> i < length rs \<and>
         (\<forall>j < i. alloc_buffer_from_region (rs ! j) sz = Ret (None, rs ! j)) \<and>
         (\<exists>r'. alloc_buffer_from_region (rs ! i) sz = Ret (Some c, r') \<and> rs' = rs[i := r'])"
    using Cons.IH [OF i(2)] Cons.prems by auto
  show ?case
  proof (cases res)
    case (Some c)
    with a show ?thesis by auto
  next
    case None
    with alloc_none_unchanged [OF i(1) q] a have r': "r' = r" by simp
    show ?thesis
    proof (cases res2)
      case r2: None
      with None a b r' show ?thesis by auto
    next
      case (Some p)
      obtain j c where p: "p = (j, c)" by fastforce
      with Some b None a r' show ?thesis by (auto simp: less_Suc_eq_0_disj)
    qed
  qed
qed

lemma starts_distinct:
  assumes inv: "region_inv lo hi r" and "c \<in> set (chunks r)" "d \<in> set (chunks r)" "c_start r c = c_start r d"
  shows "c = d"
proof -
  obtain xs where xs: "chunks r = xs @ [last_chunk r]" using region_inv_cases [OF inv] by blast
  note i = inv [unfolded region_inv_snoc [OF xs refl]]
  have pos: "c_start r a < c_end r a" if "a \<in> set xs" for a using i that by (auto simp: c_end_def)
  have "sorted_wrt (\<lambda>a b. c_start r a < c_start r b) xs"
    by (rule sorted_wrt_mono_rel [where P = "\<lambda>a b. c_end r a \<le> c_start r b"])
      (use i pos in \<open>auto intro: less_le_trans\<close>)
  moreover have "c_start r a < c_start r (last_chunk r)" if "a \<in> set xs" for a
    using i pos [OF that] that by (auto intro: less_le_trans)
  ultimately have "sorted_wrt (<) (map (c_start r) (chunks r))"
    by (simp add: xs sorted_wrt_append sorted_wrt_map)
  then have "inj_on (c_start r) (set (chunks r))" by (simp add: strict_sorted_iff distinct_map)
  then show ?thesis using assms(2-4) by (auto dest: inj_onD)
qed

lemma find_unique:
  assumes "x \<in> set xs" "P x" "\<And>y. y \<in> set xs \<Longrightarrow> P y \<Longrightarrow> x = y"
  shows "find P xs = Some x"
proof (cases "find P xs")
  case None
  with assms(1,2) show ?thesis by (auto simp: find_None_iff)
next
  case (Some z)
  then show ?thesis using find_SomeD [OF Some] assms(3) [of z] by simp
qed

text \<open>
  Freeing by address finds the right chunk, provided the closed ranges of the regions are
  disjoint: the sentinel of a full region starts at the region's end.
\<close>

lemma free_buffer_finds:
  assumes "regions_inv bs rs" and "sorted_wrt (\<lambda>a b. snd a < fst b \<or> snd b < fst a) bs"
    and "i < length rs" and "live (rs ! i) c = Some (unat addr, n)"
  shows "free_buffer ord rs addr = (Some i, rs[i := release_chunk ord (rs ! i) c])"
  using assms
proof (induction rs arbitrary: bs i)
  case Nil
  then show ?case by simp
next
  case (Cons r rs)
  then obtain lo hi bs' where bs: "bs = (lo, hi) # bs'" and inv: "region_inv lo hi r" "regions_inv bs' rs"
    by (auto simp: regions_inv_def list_all2_Cons2)
  show ?case
  proof (cases i)
    case 0
    with Cons.prems have c: "c \<in> set (chunks r)" "c_start r c = unat addr" by (auto simp: live_def split: if_splits)
    then have "find (\<lambda>c. start_address (all_chunks r c) = addr) (chunks r) = Some c"
      by (intro find_unique) (auto simp: c_start_def word_unat_eq_iff intro: starts_distinct [OF inv(1)])
    with 0 show ?thesis by simp
  next
    case (Suc k)
    have k: "k < length rs" "live (rs ! k) c = Some (unat addr, n)" using Cons.prems Suc by auto
    have len: "length bs' = length rs" using inv(2) by (auto simp: regions_inv_def dest: list_all2_lengthD)
    obtain lo' hi' where b: "bs' ! k = (lo', hi')" by fastforce
    have "region_inv lo' hi' (rs ! k)"
      using list_all2_nthD [OF inv(2) [unfolded regions_inv_def], of k] k len b by auto
    then have in_k: "lo' \<le> unat addr" "unat addr \<le> hi'"
      using k(2) by (auto simp: live_def region_inv_def c_end_def split: if_splits)
    have "hi < lo' \<or> hi' < lo"
      using Cons.prems(2) k(1) len b nth_mem [of k bs'] by (auto simp: bs)
    then have "find (\<lambda>c. start_address (all_chunks r c) = addr) (chunks r) = None"
      using inv(1) in_k unfolding find_None_iff region_inv_def by (fastforce simp: c_start_def c_end_def)
    then show ?thesis using Cons.IH [OF inv(2) _ k] Cons.prems(2) Suc by (simp add: bs)
  qed
qed

section \<open>Concrete regions\<close>

definition blank_region :: memory_region where
  "blank_region = \<lparr>all_chunks = (\<lambda>_. \<lparr>start_address = 0, is_allocated = False, chunk_size = 0,
       children = [], parent = None\<rparr>), chunks = [], free_chunks = [], last_chunk = 0,
     strategy = BALLOCS_TIGHT, alignment = 0\<rparr>"

definition demo0 :: memory_region where
  "demo0 = init_mem_region blank_region 4096 65536"

definition demo1 :: memory_region where "demo1 = append_result demo0 100 1"
definition demo2 :: memory_region where "demo2 = append_result demo1 200 2"
definition demo3 :: memory_region where "demo3 = append_result demo2 300 3"

lemma upt_chunks: "[Suc 0..<MAX_CHUNKS_IN_REGION] = 1 # 2 # 3 # 4 # [5..<64]"
  by (simp add: MAX_CHUNKS_IN_REGION_def upt_conv_Cons)

lemmas demo_defs = demo3_def demo2_def demo1_def demo0_def append_result_def init_mem_region_def
  Let_def foldl_snoc_eq upt_chunks chunk_slack_def al64_def align_up_def blank_region_def

lemma demo0_inv: "region_inv 4096 69632 demo0"
  using init_mem_region_inv(1) [of 65536 4096 blank_region] by (simp add: demo0_def)

lemma demo_req: "req_ok demo0 100" "req_ok demo1 200" "req_ok demo2 300" "req_ok demo3 400"
  by (simp_all add: req_ok_def al_def demo_defs)

lemma wasteful_alloc:
  assumes inv: "region_inv lo hi r" and "strategy r = BALLOCS_WASTEFUL"
    and "\<not> sint (chunk_slack r (last_chunk r) sz) < 0" "free_chunks r \<noteq> []" "hd (free_chunks r) = n"
  shows "alloc_buffer_from_region r sz = Ret (Some n, append_result r sz n)"
proof -
  have "\<not> is_allocated (all_chunks r (last_chunk r))" "last_chunk r \<notin> set (free_chunks r)"
    using inv last_in_set [of "chunks r"] by (auto simp: region_inv_def)
  with assms append_new_chunk_eq [OF this] show ?thesis by (simp add: alloc_buffer_from_region_def)
qed

lemma demo_alloc0: "alloc_buffer_from_region demo0 100 = Ret (Some 1, demo1)"
  unfolding demo1_def by (rule wasteful_alloc [OF demo0_inv]) (simp_all add: demo_defs)

lemma demo1_inv: "region_inv 4096 69632 demo1"
  by (rule region.alloc_inv [OF demo0_inv demo_req(1) demo_alloc0])

lemma demo_alloc1: "alloc_buffer_from_region demo1 200 = Ret (Some 2, demo2)"
  unfolding demo2_def by (rule wasteful_alloc [OF demo1_inv]) (simp_all add: demo_defs)

lemma demo2_inv: "region_inv 4096 69632 demo2"
  by (rule region.alloc_inv [OF demo1_inv demo_req(2) demo_alloc1])

lemma demo_alloc2: "alloc_buffer_from_region demo2 300 = Ret (Some 3, demo3)"
  unfolding demo3_def by (rule wasteful_alloc [OF demo2_inv]) (simp_all add: demo_defs)

lemma demo3_inv: "region_inv 4096 69632 demo3"
  by (rule region.alloc_inv [OF demo2_inv demo_req(3) demo_alloc2])

lemmas demo_allocs = demo_alloc0 demo_alloc1 demo_alloc2
lemmas demo_invs = demo0_inv demo1_inv demo2_inv demo3_inv

lemma demo_run: "region_run ord demo0 demo3" "region_run ord demo0 demo2"
  by (rule run_alloc [OF run_alloc [OF run_alloc [OF run_start demo_req(1) demo_allocs(1)]
        demo_req(2) demo_allocs(2)] demo_req(3) demo_allocs(3)],
      rule run_alloc [OF run_alloc [OF run_start demo_req(1) demo_allocs(1)] demo_req(2) demo_allocs(2)])

lemma demo_live:
  "live demo3 1 = Some (4096, 100)" "live demo3 2 = Some (4224, 200)" "live demo3 3 = Some (4480, 300)"
  "live demo2 1 = Some (4096, 100)" "live demo2 2 = Some (4224, 200)"
  by (simp_all add: demo_defs live_def c_start_def c_size_def)

section \<open>Properties\<close>

lemma region_run_al: "region_run ord r r' \<Longrightarrow> region_inv lo hi r \<Longrightarrow> al r' = al r"
proof (induction rule: region_run.induct)
  case (run_alloc r r1 sz res r2)
  then have "region_inv lo hi r1" using region_run_inv by blast
  from alloc_region_spec [OF this run_alloc.hyps(2)] run_alloc show ?case by auto
next
  case (run_free r r1 c)
  then have "region_inv lo hi r1" using region_run_inv by blast
  from release_chunk_spec(3) [OF this run_free.hyps(2)] run_free show ?case by (simp add: free_chunk_def)
qed simp

lemma live_in_region:
  assumes inv: "region_inv lo hi r" and c: "live r c = Some (a, n)"
  shows "lo \<le> a \<and> a + n \<le> hi \<and> al r dvd a \<and> 0 < n"
proof -
  have m: "c \<in> set (chunks r)" "c \<noteq> last_chunk r" "a = c_start r c" "n = c_size r c"
    using c inv by (auto simp: live_def region_inv_def split: if_splits)
  then show ?thesis using inner_chunk(1,2) [OF inv m(1,2)] inv by (auto simp: region_inv_def c_end_def)
qed

lemma alloc_apart:
  assumes inv: "region_inv lo hi r" and ok: "req_ok r req"
  shows "\<exists>res r'. alloc_buffer_from_region r req = Ret (res, r') \<and>
         (case res of None \<Rightarrow> r' = r
          | Some e \<Rightarrow> \<exists>p k. live r e = None \<and> live r' = (live r)(e \<mapsto> (p, k)) \<and> unat req \<le> k \<and>
              (\<forall>f b m. live r f = Some (b, m) \<longrightarrow> p + k \<le> b \<or> b + m \<le> p))"
proof -
  obtain res r' where r': "alloc_buffer_from_region r req = Ret (res, r')"
    and s: "case res of None \<Rightarrow> r' = r | Some c \<Rightarrow> \<exists>a n. live r c = None \<and>
      live r' = (live r)(c \<mapsto> (a, n)) \<and> al r dvd a \<and> unat req \<le> n"
    using alloc_region_spec [OF inv ok] by blast
  show ?thesis
  proof (cases res)
    case None
    then show ?thesis using r' s by auto
  next
    case (Some e)
    obtain p k where u: "live r e = None" "live r' = (live r)(e \<mapsto> (p, k))" "unat req \<le> k"
      using s Some by auto
    have "p + k \<le> b \<or> b + m \<le> p" if "live r f = Some (b, m)" for f b m
      using region.alloc_fresh [OF inv ok r' [unfolded Some]] that u by auto
    with u Some r' show ?thesis by auto
  qed
qed

lemma init_run_inv:
  assumes "unat sz < 2 ^ 31" "unat start + unat sz + 64 \<le> 2 ^ 64"
    and run: "region_run ord (init_mem_region r0 start sz) r"
  shows "region_inv (unat start) (unat start + unat sz) r" and "al r = 64"
  using region_run_inv [OF run init_mem_region_inv(1) [OF assms(1,2)]]
    region_run_al [OF run init_mem_region_inv(1) [OF assms(1,2)]] al_64 [OF init_mem_region_simps(4)] by simp_all

text \<open>
  C2. Take any state a region of less than 2 GiB reaches from \<open>init\_mem\_region\<close> by allocations of
  at least one and less than about 2 GiB bytes and by frees of live chunks, in any order and for
  either argument evaluation order. The chunks are in address order without overlap and the last
  one ends at the end of the region; every live chunk lies inside of the region at an address
  aligned to 64 bytes, and no two live chunks overlap. The next allocation of such a size fails no
  assertion: it leaves the region as it is, or it makes one chunk live that was not, large enough
  and away from all live chunks, which keep their places. The next free of a live chunk takes
  exactly this chunk from the live ones.
\<close>

theorem bufalloc_run_safe:
  assumes "unat sz < 2 ^ 31" "unat start + unat sz + 64 \<le> 2 ^ 64"
    and run: "region_run ord (init_mem_region r0 start sz) r"
  shows "sorted_wrt (\<lambda>c d. c_end r c \<le> c_start r d) (chunks r) \<and>
    c_end r (last (chunks r)) = unat start + unat sz \<and>
    (\<forall>c a n. live r c = Some (a, n) \<longrightarrow>
       unat start \<le> a \<and> a + n \<le> unat start + unat sz \<and> 64 dvd a \<and> 0 < n) \<and>
    (\<forall>c d a b n m. live r c = Some (a, n) \<and> live r d = Some (b, m) \<and> c \<noteq> d \<longrightarrow> a + n \<le> b \<or> b + m \<le> a) \<and>
    (\<forall>req. 0 < unat req \<and> unat req + 64 \<le> 2 ^ 31 \<longrightarrow>
       (\<exists>res r'. alloc_buffer_from_region r req = Ret (res, r') \<and>
         (case res of None \<Rightarrow> r' = r
          | Some e \<Rightarrow> \<exists>p k. live r e = None \<and> live r' = (live r)(e \<mapsto> (p, k)) \<and> unat req \<le> k \<and>
              (\<forall>f b m. live r f = Some (b, m) \<longrightarrow> p + k \<le> b \<or> b + m \<le> p)))) \<and>
    (\<forall>c. live r c \<noteq> None \<longrightarrow> live (free_chunk ord r c) = (live r)(c := None))"
proof (intro conjI allI impI)
  note inv = init_run_inv(1) [OF assms] and al = init_run_inv(2) [OF assms]
  show "sorted_wrt (\<lambda>c d. c_end r c \<le> c_start r d) (chunks r)"
    and "c_end r (last (chunks r)) = unat start + unat sz" using inv by (simp_all add: region_inv_def)
  show "unat start \<le> a" "a + n \<le> unat start + unat sz" "64 dvd a" "0 < n"
    if "live r c = Some (a, n)" for c a n
    using live_in_region [OF inv that] al by auto
  show "a + n \<le> b \<or> b + m \<le> a" if "live r c = Some (a, n) \<and> live r d = Some (b, m) \<and> c \<noteq> d"
    for c d a b n m using live_disjoint [OF inv] that by blast
  show "live (free_chunk ord r c) = (live r)(c := None)" if "live r c \<noteq> None" for c
    using region.release_law [OF inv that] by blast
  show "\<exists>res r'. alloc_buffer_from_region r req = Ret (res, r') \<and>
         (case res of None \<Rightarrow> r' = r
          | Some e \<Rightarrow> \<exists>p k. live r e = None \<and> live r' = (live r)(e \<mapsto> (p, k)) \<and> unat req \<le> k \<and>
              (\<forall>f b m. live r f = Some (b, m) \<longrightarrow> p + k \<le> b \<or> b + m \<le> p))"
    if "0 < unat req \<and> unat req + 64 \<le> 2 ^ 31" for req
    by (rule alloc_apart [OF inv]) (use that al in \<open>simp add: req_ok_def\<close>)
qed

theorem bufalloc_run_safe_witness:
  "live demo3 2 = Some (4224, 200) \<and> live demo3 3 = Some (4480, 300) \<and>
   sorted_wrt (\<lambda>c d. c_end demo3 c \<le> c_start demo3 d) (chunks demo3) \<and>
   c_end demo3 (last (chunks demo3)) = 69632 \<and>
   4096 \<le> (4224::nat) \<and> (4224::nat) + 200 \<le> 69632 \<and> 64 dvd (4224::nat) \<and> 0 < (200::nat) \<and>
   (4224 + 200 \<le> (4480::nat) \<or> 4480 + 300 \<le> (4224::nat)) \<and>
   (\<exists>res r'. alloc_buffer_from_region demo3 400 = Ret (res, r')) \<and>
   live (free_chunk Next_First demo3 2) = (live demo3)(2 := None)"
proof -
  have "unat (65536 :: size_t) < 2 ^ 31" "unat (4096 :: size_t) + unat (65536 :: size_t) + 64 \<le> 2 ^ 64" by simp_all
  note s = bufalloc_run_safe [OF this demo_run(1) [of Next_First, unfolded demo0_def]]
  have "\<exists>res r'. alloc_buffer_from_region demo3 400 = Ret (res, r')"
    using s [THEN conjunct2, THEN conjunct2, THEN conjunct2, THEN conjunct2, THEN conjunct1, rule_format, of 400] by auto
  moreover have "sorted_wrt (\<lambda>c d. c_end demo3 c \<le> c_start demo3 d) (chunks demo3)"
    "c_end demo3 (last (chunks demo3)) = 69632" "live (free_chunk Next_First demo3 2) = (live demo3)(2 := None)"
    using s demo_live by auto
  ultimately show ?thesis using demo_live by auto
qed

text \<open>
  An allocation request of a size the slack computation can handle always returns normally.
  If it hands out a chunk, the chunk was not in use, is aligned, is at least as large as
  requested, and all other live chunks keep their address and size; if it returns NULL the
  region is unchanged.
\<close>

theorem alloc_buffer_from_region_correct:
  assumes "region_inv lo hi r" and "req_ok r sz"
  shows "\<exists>res r'. alloc_buffer_from_region r sz = Ret (res, r') \<and> region_inv lo hi r' \<and>
    (case res of None \<Rightarrow> r' = r
     | Some c \<Rightarrow> \<exists>a n. live r c = None \<and> live r' = (live r)(c \<mapsto> (a, n)) \<and> al r dvd a \<and> unat sz \<le> n)"
  using alloc_region_spec [OF assms] by blast

theorem alloc_buffer_from_region_correct_witness:
  "\<exists>res r'. alloc_buffer_from_region demo3 400 = Ret (res, r') \<and> region_inv 4096 69632 r' \<and>
    (case res of None \<Rightarrow> r' = demo3
     | Some c \<Rightarrow> \<exists>a n. live demo3 c = None \<and> live r' = (live demo3)(c \<mapsto> (a, n)) \<and>
         al demo3 dvd a \<and> unat (400 :: size_t) \<le> n)"
  by (rule alloc_buffer_from_region_correct [OF demo3_inv demo_req(4)])

lemma fits_iff:
  assumes inv: "region_inv lo hi r" and req: "req_ok r sz" and c: "c \<in> set (chunks r)"
  shows "fits r sz c \<longleftrightarrow> c \<noteq> last_chunk r \<and> \<not> is_allocated (all_chunks r c) \<and> unat sz \<le> c_size r c"
proof (cases "c = last_chunk r")
  case False
  have "0 < al r" using inv by (auto simp: region_inv_def intro: al_pos)
  with inner_chunk(1) [OF inv c False] have "round_up (al r) (c_start r c) = c_start r c" by simp
  with slack_in_region [OF inv c req] have "sint (chunk_slack r c sz) = int (c_size r c) - int (unat sz)"
    by (simp add: c_end_def)
  then have "sint (chunk_slack r c sz) < 0 \<longleftrightarrow> c_size r c < unat sz" by linarith
  then show ?thesis using False by (auto simp: fits_def)
qed (simp add: fits_def)

lemma alloc_success_cond:
  assumes inv: "region_inv lo hi r" and req: "req_ok r sz"
  shows "(\<exists>c r'. alloc_buffer_from_region r sz = Ret (Some c, r')) \<longleftrightarrow>
    (free_chunks r \<noteq> [] \<and> round_up (al r) (c_start r (last_chunk r)) + unat sz \<le> hi) \<or>
    (\<exists>c \<in> set (chunks r). c \<noteq> last_chunk r \<and> \<not> is_allocated (all_chunks r c) \<and> unat sz \<le> c_size r c)"
proof -
  have pre: "\<not> is_allocated (all_chunks r (last_chunk r))" "last_chunk r \<notin> set (free_chunks r)"
    and l: "last_chunk r \<in> set (chunks r)" "c_end r (last_chunk r) = hi"
    using inv last_in_set [of "chunks r"] by (auto simp: region_inv_def)
  have room: "sint (chunk_slack r (last_chunk r) sz) < 0 \<longleftrightarrow>
      \<not> round_up (al r) (c_start r (last_chunk r)) + unat sz \<le> hi"
    using slack_in_region [OF inv l(1) req] l(2) by linarith
  have re: "find (fits r sz) (chunks r) = None \<longleftrightarrow>
      \<not> (\<exists>c \<in> set (chunks r). c \<noteq> last_chunk r \<and> \<not> is_allocated (all_chunks r c) \<and> unat sz \<le> c_size r c)"
    using fits_iff [OF inv req] by (auto simp: find_None_iff)
  show ?thesis
    unfolding re [symmetric, THEN arg_cong [where f = Not], simplified]
    using append_new_chunk_eq [OF pre, of sz] room
    by (cases "strategy r"; cases "find (fits r sz) (chunks r)")
      (auto simp: alloc_buffer_from_region_def reuse_chunk_def)
qed

text \<open>
  Exactly when allocation succeeds: either a chunk record is left and the request fits, after
  alignment, before the end of the region, or some free chunk before the sentinel is large
  enough.
\<close>

theorem alloc_succeeds_iff:
  assumes inv: "region_inv lo hi r" and req: "req_ok r sz"
  shows "(\<exists>c r'. alloc_buffer_from_region r sz = Ret (Some c, r')) \<longleftrightarrow>
    (free_chunks r \<noteq> [] \<and> round_up (al r) (c_start r (last_chunk r)) + unat sz \<le> hi) \<or>
    (\<exists>c \<in> set (chunks r). c \<noteq> last_chunk r \<and> \<not> is_allocated (all_chunks r c) \<and> unat sz \<le> c_size r c)"
  by (rule alloc_success_cond [OF assms])

theorem alloc_succeeds_iff_witness:
  "(\<exists>c r'. alloc_buffer_from_region demo3 400 = Ret (Some c, r')) \<longleftrightarrow>
    (free_chunks demo3 \<noteq> [] \<and> round_up (al demo3) (c_start demo3 (last_chunk demo3)) + unat (400 :: size_t) \<le> 69632) \<or>
    (\<exists>c \<in> set (chunks demo3). c \<noteq> last_chunk demo3 \<and> \<not> is_allocated (all_chunks demo3 c) \<and>
       unat (400 :: size_t) \<le> c_size demo3 c)"
  by (rule alloc_succeeds_iff [OF demo3_inv demo_req(4)])

text \<open>
  Freeing a live chunk, whichever way its neighbours are merged and for either evaluation
  order, keeps the region well formed and removes exactly that chunk from the live ones: no
  other live chunk moves, shrinks or grows.
\<close>

theorem free_chunk_correct:
  assumes "region_inv lo hi r" and "live r c \<noteq> None"
  shows "region_inv lo hi (free_chunk ord r c) \<and> live (free_chunk ord r c) = (live r)(c := None)"
  using region.release_law [OF assms] .

theorem free_chunk_correct_witness:
  "region_inv 4096 69632 (free_chunk Inner_First demo3 2) \<and>
   live (free_chunk Inner_First demo3 2) = (live demo3)(2 := None)"
  by (rule free_chunk_correct [OF demo3_inv]) (simp add: demo_live)

text \<open>
  The allocator over a list of regions is first fit: it returns a chunk of the first region
  that can serve the request and changes only that region, and it returns NULL only if every
  region does.
\<close>

theorem alloc_buffer_correct:
  assumes "regions_inv bs rs" and "\<forall>r \<in> set rs. req_ok r sz"
  shows "\<exists>res rs'. alloc_buffer rs sz = Ret (res, rs') \<and>
    (case res of
       None \<Rightarrow> rs' = rs \<and> (\<forall>r \<in> set rs. alloc_buffer_from_region r sz = Ret (None, r))
     | Some (i, c) \<Rightarrow> i < length rs \<and>
         (\<forall>j < i. alloc_buffer_from_region (rs ! j) sz = Ret (None, rs ! j)) \<and>
         (\<exists>r'. alloc_buffer_from_region (rs ! i) sz = Ret (Some c, r') \<and> rs' = rs[i := r']))"
  using alloc_buffer_first_fit [OF assms(1)] assms(2) by blast

definition demo_far :: memory_region where
  "demo_far = init_mem_region blank_region 1048576 65536"

lemma demo_far_inv: "region_inv 1048576 1114112 demo_far"
  using init_mem_region_inv(1) [of 65536 1048576 blank_region] by (simp add: demo_far_def)

lemma demo_regions: "regions_inv [(1048576, 1114112), (4096, 69632)] [demo_far, demo3]"
  using demo_far_inv demo3_inv by (simp add: regions_inv_def)

theorem alloc_buffer_correct_witness:
  "\<exists>res rs'. alloc_buffer [demo_far, demo3] 400 = Ret (res, rs') \<and>
    (case res of
       None \<Rightarrow> rs' = [demo_far, demo3] \<and>
         (\<forall>r \<in> set [demo_far, demo3]. alloc_buffer_from_region r 400 = Ret (None, r))
     | Some (i, c) \<Rightarrow> i < length [demo_far, demo3] \<and>
         (\<forall>j < i. alloc_buffer_from_region ([demo_far, demo3] ! j) 400 = Ret (None, [demo_far, demo3] ! j)) \<and>
         (\<exists>r'. alloc_buffer_from_region ([demo_far, demo3] ! i) 400 = Ret (Some c, r') \<and>
            rs' = [demo_far, demo3][i := r']))"
  by (rule alloc_buffer_correct [OF demo_regions])
    (simp add: demo_req, simp add: req_ok_def al_def demo_far_def init_mem_region_def Let_def al64_def)

text \<open>
  \<open>free\_buffer\<close> with the start address of a live chunk releases that chunk and no other, when
  the regions' closed address ranges do not meet.
\<close>

theorem free_buffer_correct:
  assumes "regions_inv bs rs" and "sorted_wrt (\<lambda>a b. snd a < fst b \<or> snd b < fst a) bs"
    and "i < length rs" and "live (rs ! i) c = Some (unat addr, n)"
  shows "free_buffer ord rs addr = (Some i, rs[i := free_chunk ord (rs ! i) c])"
  unfolding free_chunk_def by (rule free_buffer_finds [OF assms])

theorem free_buffer_correct_witness:
  "free_buffer Next_First [demo_far, demo3] 4224 =
     (Some 1, [demo_far, demo3][1 := free_chunk Next_First ([demo_far, demo3] ! 1) 2])"
  by (rule free_buffer_correct [OF demo_regions, where n = 200]) (simp_all add: demo_live)

text \<open>The first chunk of the list never starts later than the first aligned address.\<close>

definition head_low :: "nat \<Rightarrow> memory_region \<Rightarrow> bool" where
  "head_low lo r \<longleftrightarrow> c_start r (hd (chunks r)) \<le> round_up (al r) lo"

lemma head_low_append:
  assumes inv: "region_inv lo hi r" and req: "req_ok r sz" and hl: "head_low lo r"
    and fit: "0 \<le> sint (chunk_slack r (last_chunk r) sz)" and free: "free_chunks r = n # rest"
  shows "head_low lo (append_result r sz n)"
proof -
  obtain xs where xs: "chunks r = xs @ [last_chunk r]" using region_inv_cases [OF inv] by blast
  note i = inv [unfolded region_inv_snoc [OF xs refl]]
  have n: "n \<noteq> last_chunk r" "n \<notin> set xs" "last_chunk r \<notin> set xs" using i free by auto
  have pos: "0 < al r" using i al_pos by blast
  show ?thesis
  proof (cases xs)
    case Nil
    then have "c_start r (last_chunk r) \<le> round_up (al r) lo" using hl xs by (simp add: head_low_def)
    then have "round_up (al r) (c_start r (last_chunk r)) \<le> round_up (al r) lo"
      by (intro round_up_least pos) simp_all
    then show ?thesis using Nil append_result_fields(1) [OF inv req fit n(1)]
      by (simp add: head_low_def append_result_simps xs)
  next
    case (Cons x ys)
    then have "x \<noteq> n" "x \<noteq> last_chunk r" using n by auto
    then show ?thesis using Cons hl n append_result_frame(2) [of x n r sz]
      by (simp add: head_low_def append_result_simps xs remove1_append)
  qed
qed

lemma head_low_alloc:
  assumes inv: "region_inv lo hi r" and req: "req_ok r sz" and hl: "head_low lo r"
    and al: "alloc_buffer_from_region r sz = Ret (res, r')"
  shows "head_low lo r'"
proof -
  have pre: "\<not> is_allocated (all_chunks r (last_chunk r))" "last_chunk r \<notin> set (free_chunks r)"
    using inv last_in_set [of "chunks r"] by (auto simp: region_inv_def)
  obtain x1 r1 where ap: "append_new_chunk r sz = Ret (x1, r1)"
    by (cases "sint (chunk_slack r (last_chunk r) sz) < 0 \<or> free_chunks r = []")
      (auto simp: append_new_chunk_eq [OF pre])
  then have 1: "head_low lo r1" "x1 = None \<Longrightarrow> r1 = r"
    using hl head_low_append [OF inv req hl]
    by (cases "free_chunks r"; auto simp: append_new_chunk_eq [OF pre] split: if_splits)+
  obtain x2 r2 where re: "reuse_chunk r sz = (x2, r2)" by fastforce
  then have 2: "head_low lo r2" "x2 = None \<Longrightarrow> r2 = r"
    using hl by (auto simp: reuse_chunk_def head_low_def c_start_def al_def al64_def split: option.splits)
  show ?thesis using al ap re 1 2
    by (cases "strategy r"; cases x1; cases x2) (auto simp: alloc_buffer_from_region_def)
qed

lemma head_low_release:
  assumes inv: "region_inv lo hi r" and hl: "head_low lo r" and lv: "live r c \<noteq> None"
  shows "head_low lo (release_chunk ord r c)"
proof -
  define r0 where "r0 = upd_chunk c (\<lambda>ch. ch\<lparr>is_allocated := False\<rparr>) r"
  have c: "c \<in> set (chunks r)" "c \<noteq> last_chunk r" using lv inv
    by (auto simp: live_def region_inv_def split: if_splits)
  have inv0: "region_inv lo hi r0" unfolding r0_def by (rule set_flag_inv [OF inv c(2)])
  obtain as b bs where ch: "chunks r0 = as @ c # b # bs"
  proof -
    obtain as ys where "chunks r = as @ c # ys" using c(1) by (meson split_list)
    moreover have "last (chunks r) = last_chunk r" using inv by (simp add: region_inv_def)
    ultimately show thesis using that c(2) by (cases ys) (auto simp: r0_def)
  qed
  have f: "\<not> is_allocated (all_chunks r0 c)" by (simp add: r0_def)
  have hl0: "head_low lo r0" using hl by (auto simp: head_low_def r0_def c_start_def)
  have d: "distinct (as @ c # b # bs)" using region_inv_distinct [OF inv0] ch by simp
  have step: "head_low lo (merged s p q)" if "head_low lo s" "hd (chunks s) \<noteq> q" for s p q
    using that by (cases "chunks s") (auto simp: head_low_def)
  show ?thesis
  proof (cases as)
    case Nil
    then show ?thesis using hl0 step [OF hl0, of b] d ch by (simp add: release_eq [OF inv0 ch f r0_def])
  next
    case (Cons x xs)
    then have "hd (chunks r0) = x" "x \<noteq> c" "x \<noteq> b" "hd (remove1 c (chunks r0)) = x" using d ch by auto
    then show ?thesis
      using hl0 step [OF hl0] step [where s = "merged r0 (last as) c" and p = "last as" and q = b]
      by (auto simp: release_eq [OF inv0 ch f r0_def])
  qed
qed

text \<open>
  C27. For the evaluation order in which \<open>chunk->next\<close> is read before the inner merge, a region
  whose buffers have all been freed is one free chunk again, from the first aligned address at the
  latest to the end of the region, and every other chunk record is free: whatever the order of the
  operations was, the next allocation gets any size up to what is left of the region behind its
  first aligned address.
\<close>

theorem bufalloc_reclaims:
  assumes "unat sz < 2 ^ 31" "unat start + unat sz + 64 \<le> 2 ^ 64"
    and run: "region_run Next_First (init_mem_region r0 start sz) r" and empty: "live r = Map.empty"
  shows "chunks r = [last_chunk r] \<and> c_start r (last_chunk r) \<le> round_up 64 (unat start) \<and>
    c_end r (last_chunk r) = unat start + unat sz \<and> length (free_chunks r) = MAX_CHUNKS_IN_REGION - 1 \<and>
    (\<forall>req. 0 < unat req \<and> unat req + 64 \<le> 2 ^ 31 \<and>
       round_up 64 (unat start) + unat req \<le> unat start + unat sz \<longrightarrow>
       (\<exists>c r'. alloc_buffer_from_region r req = Ret (Some c, r')))"
proof -
  let ?i = "init_mem_region r0 start sz" and ?lo = "unat start" and ?hi = "unat start + unat sz"
  note inv0 = init_mem_region_inv(1) [OF assms(1,2), of r0]
  have al: "al ?i = 64" using al_64 [OF init_mem_region_simps(4)] by blast
  have start: "coalesced ?i \<and> head_low ?lo ?i"
    using round_up_ge [of 64 ?lo] al by (simp add: coalesced_def head_low_def init_mem_region_simps)
  have "region_run Next_First s t \<Longrightarrow> region_inv ?lo ?hi s \<Longrightarrow> coalesced s \<and> head_low ?lo s \<Longrightarrow>
      coalesced t \<and> head_low ?lo t" for s t
  proof (induction rule: region_run.induct)
    case (run_alloc s t1 sz res t2)
    then show ?case using coalesced_alloc head_low_alloc region_run_inv by blast
  next
    case (run_free s t1 c)
    then show ?case
      unfolding free_chunk_def using coalesced_release head_low_release region_run_inv by blast
  qed simp
  from this [OF run inv0 start] have ch: "coalesced r" "head_low ?lo r" by auto
  have inv: "region_inv ?lo ?hi r" by (rule region_run_inv [OF run inv0])
  have one: "chunks r = [last_chunk r]" by (rule coalesced_empty [OF inv ch(1) empty])
  have "card (set (chunks r) \<union> set (free_chunks r)) = MAX_CHUNKS_IN_REGION"
    "distinct (chunks r @ free_chunks r)" using inv by (auto simp: region_inv_def)
  then have "length (chunks r @ free_chunks r) = MAX_CHUNKS_IN_REGION"
    by (metis distinct_card set_append)
  then have len: "length (free_chunks r) = MAX_CHUNKS_IN_REGION - 1" using one by simp
  have al: "al r = 64" using region_run_al [OF run inv0] al by simp
  have low: "c_start r (last_chunk r) \<le> round_up 64 ?lo" using one ch(2) al by (simp add: head_low_def)
  have "\<exists>c r'. alloc_buffer_from_region r req = Ret (Some c, r')"
    if "0 < unat req" "unat req + 64 \<le> 2 ^ 31" "round_up 64 ?lo + unat req \<le> ?hi" for req
  proof -
    have "round_up 64 (c_start r (last_chunk r)) \<le> round_up 64 ?lo"
      using low by (intro round_up_least) simp_all
    moreover have "free_chunks r \<noteq> []" using len by (auto simp: MAX_CHUNKS_IN_REGION_def)
    ultimately show ?thesis using alloc_success_cond [OF inv, of req] that al by (simp add: req_ok_def)
  qed
  then show ?thesis using one low len inv by (auto simp: region_inv_def)
qed

lemma demo_free_all:
  defines "f \<equiv> \<lambda>ord. free_chunk ord (free_chunk ord (free_chunk ord demo3 1) 2) 3"
  shows "chunks (f Next_First) = [1]" and "chunks (f Inner_First) = [1, 0]"
    and "\<not> is_allocated (all_chunks (f Inner_First) 1)" "\<not> is_allocated (all_chunks (f Inner_First) 0)"
  unfolding f_def by code_simp+

lemma demo3_live: "live demo3 = [1 \<mapsto> (4096, 100), 2 \<mapsto> (4224, 200), 3 \<mapsto> (4480, 300)]"
proof
  fix c
  have s: "set (chunks demo3) = {0, 1, 2, 3}" by (auto simp: demo_defs)
  have z: "live demo3 0 = None" by (simp add: demo_defs live_def)
  have o: "live demo3 c = None" if "c \<noteq> 0" "c \<noteq> 1" "c \<noteq> 2" "c \<noteq> 3" using that s by (simp add: live_def)
  show "live demo3 c = [1 \<mapsto> (4096, 100), 2 \<mapsto> (4224, 200), 3 \<mapsto> (4480, 300)] c"
    using demo_live(1-3) z o by (cases "c = 0"; cases "c = 1"; cases "c = 2"; cases "c = 3") simp_all
qed

lemma demo_freed:
  fixes ord
  defines "d \<equiv> free_chunk ord demo3 1"
  defines "e \<equiv> free_chunk ord d 2"
  shows "region_run ord demo0 (free_chunk ord e 3)" and "live (free_chunk ord e 3) = Map.empty"
proof -
  note 1 = region.release_law [OF demo3_inv, of 1 ord]
  have l1: "live d = [2 \<mapsto> (4224, 200), 3 \<mapsto> (4480, 300)]" and i1: "region_inv 4096 69632 d"
    using 1 by (auto simp: d_def demo3_live fun_eq_iff)
  have l2: "live e = [3 \<mapsto> (4480, 300)]" and i2: "region_inv 4096 69632 e"
    using region.release_law [OF i1, of 2 ord] by (auto simp: e_def l1 fun_eq_iff)
  show "live (free_chunk ord e 3) = Map.empty"
    using region.release_law [OF i2, of 3 ord] by (simp add: l2)
  have "region_run ord demo0 d" unfolding d_def by (rule run_free [OF demo_run(1)]) (simp add: demo3_live)
  then have "region_run ord demo0 e" unfolding e_def by (rule run_free) (simp add: l1)
  then show "region_run ord demo0 (free_chunk ord e 3)" by (rule run_free) (simp add: l2)
qed

theorem bufalloc_reclaims_witness:
  "let r = free_chunk Next_First (free_chunk Next_First (free_chunk Next_First demo3 1) 2) 3 in
   chunks r = [last_chunk r] \<and> c_start r (last_chunk r) \<le> round_up 64 4096 \<and>
   c_end r (last_chunk r) = 69632 \<and> length (free_chunks r) = 63 \<and>
   (\<exists>c r'. alloc_buffer_from_region r 65536 = Ret (Some c, r'))"
proof -
  note w = bufalloc_reclaims [of 65536 4096 blank_region, OF _ _ demo_freed(1) [unfolded demo0_def] demo_freed(2)]
  have "round_up 64 4096 = (4096 :: nat)" by (simp add: round_up_def)
  then show ?thesis using w by (simp add: Let_def MAX_CHUNKS_IN_REGION_def)
qed

text \<open>
  If instead the inner merge runs before \<open>chunk->next\<close> is read, the next pointer is that of
  the record just moved to \<open>free\_chunks\<close>, and the merge with the following chunk is lost: after
  freeing three buffers two free chunks stay next to each other.
\<close>

theorem inner_first_leaves_fragments:
  "let r = free_chunk Inner_First (free_chunk Inner_First (free_chunk Inner_First demo3 1) 2) 3 in
   live r = Map.empty \<and> chunks r = [1, 0] \<and> \<not> coalesced r"
  using demo_free_all demo_freed(2) [of Inner_First] by (simp add: Let_def coalesced_def busy_pair_def)

text \<open>
  The \<open>int\<close> result of \<open>chunk\_slack\<close> truncates: a request of 4 GiB and 64 bytes is served
  from a region of 64 KiB, as a chunk that reaches far beyond the end of the region.
\<close>

theorem huge_request_accepted:
  "\<exists>r'. alloc_buffer_from_region demo0 4294967360 = Ret (Some 1, r') \<and>
        live r' 1 = Some (4096, 4294967360) \<and> region_inv 4096 69632 demo0"
proof -
  have "alloc_buffer_from_region demo0 4294967360 = Ret (Some 1, append_result demo0 4294967360 1)"
    by (rule wasteful_alloc [OF demo0_inv]) (simp_all add: demo_defs)
  moreover have "live (append_result demo0 4294967360 1) 1 = Some (4096, 4294967360)"
    by (simp add: demo_defs live_def c_start_def c_size_def)
  ultimately show ?thesis using demo0_inv by blast
qed

text \<open>
  Freeing the same address twice destroys the region: the sentinel is its own predecessor in
  the circular \<open>prev\<close> chain, is merged with itself and leaves the chunk list empty.
\<close>

theorem double_free_empties_region:
  "let rs1 = snd (free_buffer Next_First [demo1] 4096);
       (found, rs2) = free_buffer Next_First rs1 4096
   in chunks (rs1 ! 0) = [1] \<and> found = Some 0 \<and> chunks (rs2 ! 0) = [] \<and>
      last_chunk (rs2 ! 0) \<in> set (free_chunks (rs2 ! 0))"
  by code_simp

end
