(* ===== verification/Pocl_Util.thy ===== *)
theory Pocl_Util
  imports Pocl_Prelude
begin

text \<open>
  The helpers of \<open>lib/CL/pocl\_util.c\<close>: byte swapping, rounding up to a power of two, and the
  aligned allocation wrappers. The C library's \<open>malloc\<close> and \<open>posix\_memalign\<close> are arguments.
\<close>

section \<open>Byte swapping\<close>

text \<open>The union gives the four bytes of the word; the swap reverses them.\<close>

definition word_byte :: "32 word \<Rightarrow> nat \<Rightarrow> 8 word" where
  "word_byte w i = ucast (drop_bit (8 * i) w)"

definition bytes_word :: "8 word \<Rightarrow> 8 word \<Rightarrow> 8 word \<Rightarrow> 8 word \<Rightarrow> 32 word" where
  "bytes_word b0 b1 b2 b3 = ucast b0 OR push_bit 8 (ucast b1) OR push_bit 16 (ucast b2) OR push_bit 24 (ucast b3)"

definition byteswap_uint32_t :: "32 word \<Rightarrow> bool \<Rightarrow> 32 word" where
  "byteswap_uint32_t w should_swap =
     (if \<not> should_swap then w
      else bytes_word (word_byte w 3) (word_byte w 2) (word_byte w 1) (word_byte w 0))"

text \<open>A \<open>float\<close> is its 32-bit representation: the union never interprets it.\<close>

definition byteswap_float :: "32 word \<Rightarrow> bool \<Rightarrow> 32 word" where
  "byteswap_float w should_swap =
     (if \<not> should_swap then w
      else bytes_word (word_byte w 3) (word_byte w 2) (word_byte w 1) (word_byte w 0))"

lemma less_4_cases: "i < (4::nat) \<Longrightarrow> i = 0 \<or> i = 1 \<or> i = 2 \<or> i = 3"
  by auto

lemma word_byte_bytes_word:
  "word_byte (bytes_word b0 b1 b2 b3) 0 = b0" "word_byte (bytes_word b0 b1 b2 b3) 1 = b1"
  "word_byte (bytes_word b0 b1 b2 b3) 2 = b2" "word_byte (bytes_word b0 b1 b2 b3) 3 = b3"
  by (rule bit_word_eqI; auto simp: word_byte_def bytes_word_def bit_simps dest: bit_imp_le_length)+

lemma bytes_word_word_byte: "bytes_word (word_byte w 0) (word_byte w 1) (word_byte w 2) (word_byte w 3) = w"
proof (rule bit_word_eqI)
  fix n assume "n < LENGTH(32)"
  then have "n < 8 \<or> (8 \<le> n \<and> n < 16) \<or> (16 \<le> n \<and> n < 24) \<or> (24 \<le> n \<and> n < 32)" by auto
  then show "bit (bytes_word (word_byte w 0) (word_byte w 1) (word_byte w 2) (word_byte w 3)) n = bit w n"
    by (auto simp: word_byte_def bytes_word_def bit_simps)
qed

section \<open>Rounding up to a power of two\<close>

definition pocl_size_ceil2 :: "size_t \<Rightarrow> size_t" where
  "pocl_size_ceil2 x =
     (let x = x - 1;
          x = x OR drop_bit 1 x;
          x = x OR drop_bit 2 x;
          x = x OR drop_bit 4 x;
          x = x OR drop_bit 8 x;
          x = x OR drop_bit 16 x;
          x = x OR drop_bit 32 x
      in x + 1)"

text \<open>\<open>smeared s x y\<close>: a bit of \<open>y\<close> is set when one of the \<open>s\<close> bits of \<open>x\<close> from there on is.\<close>

definition smeared :: "nat \<Rightarrow> size_t \<Rightarrow> size_t \<Rightarrow> bool" where
  "smeared s x y \<longleftrightarrow> (\<forall>n. bit y n \<longleftrightarrow> (\<exists>d < s. bit x (n + d)))"

lemma smeared_start: "smeared 1 x x"
  by (simp add: smeared_def)

lemma smeared_step:
  assumes "smeared s x y"
  shows "smeared (s + s) x (y OR drop_bit s y)"
proof -
  have "(\<exists>d < s. bit x (n + d)) \<or> (\<exists>d < s. bit x (s + n + d)) \<longleftrightarrow> (\<exists>d < s + s. bit x (n + d))" for n
  proof
    assume "\<exists>d < s + s. bit x (n + d)"
    then obtain d where d: "d < s + s" "bit x (n + d)" by blast
    show "(\<exists>d < s. bit x (n + d)) \<or> (\<exists>d < s. bit x (s + n + d))"
    proof (cases "d < s")
      case False
      then have "d - s < s" "bit x (s + n + (d - s))" using d by (auto simp: ac_simps)
      then show ?thesis by blast
    qed (use d in blast)
  next
    assume "(\<exists>d < s. bit x (n + d)) \<or> (\<exists>d < s. bit x (s + n + d))"
    then show "\<exists>d < s + s. bit x (n + d)"
    proof
      assume "\<exists>d < s. bit x (s + n + d)"
      then obtain d where "d < s" "bit x (s + n + d)" by blast
      then show ?thesis by (intro exI [of _ "s + d"]) (auto simp: ac_simps)
    qed (meson trans_less_add1)
  qed
  then show ?thesis using assms by (simp add: smeared_def bit_simps)
qed

text \<open>The number of significant bits.\<close>

definition bitlen :: "size_t \<Rightarrow> nat" where
  "bitlen x = (LEAST k. unat x < 2 ^ k)"

lemma bitlen_bounds: "unat x < 2 ^ bitlen x" "bitlen x \<le> 64" "k < bitlen x \<Longrightarrow> 2 ^ k \<le> unat x"
proof -
  have 64: "unat x < 2 ^ 64" using unsigned_less [of x] by simp
  show "unat x < 2 ^ bitlen x" unfolding bitlen_def by (rule LeastI [of "\<lambda>k. unat x < 2 ^ k" 64, OF 64])
  show "bitlen x \<le> 64" unfolding bitlen_def by (rule Least_le [of "\<lambda>k. unat x < 2 ^ k" 64, OF 64])
  show "2 ^ k \<le> unat x" if "k < bitlen x" using not_less_Least [OF that [unfolded bitlen_def]] by simp
qed

lemma smeared_64_mask:
  assumes "smeared 64 x y"
  shows "y = mask (bitlen x)"
proof (rule bit_word_eqI)
  fix n assume n: "n < LENGTH(64)"
  have high: "\<not> bit x m" if "bitlen x \<le> m" for m
  proof -
    have "(2::nat) ^ bitlen x \<le> 2 ^ m" using that by simp
    with bitlen_bounds(1) [of x] have "unat x div 2 ^ m = 0" by (intro div_less) linarith
    then have "\<not> bit (unat x) m" by (simp add: bit_iff_odd)
    then show ?thesis by (simp add: bit_unsigned_iff)
  qed
  have top: "bit x (bitlen x - 1)" if "bitlen x \<noteq> 0"
  proof -
    let ?k = "bitlen x - 1"
    have lo: "2 ^ ?k \<le> unat x" using that bitlen_bounds(3) [of ?k x] by simp
    have "unat x < 2 * 2 ^ ?k" using bitlen_bounds(1) [of x] that by (cases "bitlen x") auto
    then have "unat x div 2 ^ ?k = 1" using lo by (intro div_nat_eqI) auto
    then have "bit (unat x) ?k" by (simp add: bit_iff_odd)
    then show ?thesis by (simp add: bit_unsigned_iff)
  qed
  have "(\<exists>d < 64. bit x (n + d)) \<longleftrightarrow> n < bitlen x"
  proof
    assume "\<exists>d < 64. bit x (n + d)"
    then show "n < bitlen x" using high by (meson le_add1 le_less_trans not_le trans_less_add1 leD le_trans)
  next
    assume lt: "n < bitlen x"
    then have "bit x (n + (bitlen x - 1 - n))" "bitlen x - 1 - n < 64" using top bitlen_bounds(2) [of x] by auto
    then show "\<exists>d < 64. bit x (n + d)" by blast
  qed
  then show "bit y n = bit (mask (bitlen x) :: size_t) n"
    using assms n by (simp add: smeared_def bit_simps)
qed

lemma pocl_size_ceil2_eq: "pocl_size_ceil2 x = 2 ^ bitlen (x - 1)"
proof -
  have s: "smeared s x y \<Longrightarrow> t = s + s \<Longrightarrow> smeared t x (y OR drop_bit s y)" for s t x y
    using smeared_step by simp
  have "smeared 64 (x - 1) (pocl_size_ceil2 x - 1)"
    unfolding pocl_size_ceil2_def Let_def add_diff_cancel_right'
    by (rule s, rule s, rule s, rule s, rule s, rule s, rule smeared_start) simp_all
  from smeared_64_mask [OF this] show ?thesis by (simp add: mask_eq_exp_minus_1)
qed

lemma unat_pocl_size_ceil2:
  assumes "0 < unat x" "unat x \<le> 2 ^ 63"
  shows "unat (pocl_size_ceil2 x) = 2 ^ bitlen (x - 1)"
proof -
  have x: "unat (x - 1) = unat x - 1" using assms(1) by (intro unat_minus_one) auto
  have "bitlen (x - 1) \<le> 63"
    unfolding bitlen_def by (rule Least_le) (use assms x in auto)
  then show ?thesis by (simp add: pocl_size_ceil2_eq unat_two_power)
qed

section \<open>Aligned allocation\<close>

text \<open>
  With \<open>HAVE\_POSIX\_MEMALIGN\<close>: \<open>posix\_memalign\<close> gives the address of the block or its error number.
  The size check is a mask test, so it is a divisibility test only for powers of two.
\<close>

definition sizeof_ptr :: size_t where
  "sizeof_ptr = 8"

definition pocl_aligned_malloc_posix :: "(size_t \<Rightarrow> size_t \<Rightarrow> nat + size_t) \<Rightarrow> size_t \<Rightarrow> size_t \<Rightarrow> size_t option" where
  "pocl_aligned_malloc_posix posix_memalign alignment sz =
     (if sz AND (alignment - 1) \<noteq> 0 then None
      else let alignment = (if alignment < sizeof_ptr then sizeof_ptr else alignment)
           in case posix_memalign alignment sz of
                Inl err \<Rightarrow> None
              | Inr result \<Rightarrow> Some result)"

text \<open>
  Without it: a larger block is requested from \<open>malloc\<close> (address 0 on failure), the address is
  rounded up, and the address of the block is stored in the word before the result. \<open>slots\<close> is
  the part of the memory that holds such pointers, indexed by its address.
\<close>

definition pocl_aligned_malloc ::
  "(size_t \<Rightarrow> size_t) \<Rightarrow> (size_t \<Rightarrow> size_t) \<Rightarrow> size_t \<Rightarrow> size_t \<Rightarrow> size_t option \<times> (size_t \<Rightarrow> size_t)" where
  "pocl_aligned_malloc malloc slots alignment sz =
     (let alignment = (if sz = 0 then 1 else alignment);
          msk = alignment - 1
      in if alignment = 0 \<or> alignment AND msk \<noteq> 0 \<or> sz AND msk \<noteq> 0 then (None, slots)
         else let address = malloc (sz + msk + sizeof_ptr)
              in if address = 0 then (None, slots)
                 else let aligned_address = (address + msk + sizeof_ptr) AND NOT msk;
                          address_ptr = aligned_address - sizeof_ptr
                      in (Some aligned_address, slots(address_ptr := address)))"

text \<open>The address \<open>pocl\_aligned\_free\<close> hands to \<open>free\<close>, if it calls it.\<close>

fun pocl_aligned_free :: "(size_t \<Rightarrow> size_t) \<Rightarrow> size_t option \<Rightarrow> size_t option" where
  "pocl_aligned_free slots None = None"
| "pocl_aligned_free slots (Some ptr) = Some (slots (ptr - sizeof_ptr))"

lemma two_power_and_mask: "k < 64 \<Longrightarrow> (2 ^ k :: size_t) AND (2 ^ k - 1) = 0"
  by (rule bit_word_eqI) (auto simp flip: mask_eq_exp_minus_1 simp: bit_simps)

lemma and_mask_zero_iff: "k < 64 \<Longrightarrow> (w :: size_t) AND (2 ^ k - 1) = 0 \<longleftrightarrow> 2 ^ k dvd unat w"
proof -
  assume "k < 64"
  have "w AND (2 ^ k - 1) = 0 \<longleftrightarrow> take_bit k w = 0"
    by (simp flip: mask_eq_exp_minus_1 take_bit_eq_mask)
  also have "\<dots> \<longleftrightarrow> take_bit k (unat w) = 0"
    by (metis unat_eq_zero unsigned_take_bit_eq min_def unsigned_0)
  finally show ?thesis by (simp add: take_bit_eq_mod dvd_eq_mod_eq_0)
qed

text \<open>The arithmetic of the header word: the aligned address leaves room for the word before it
  and for the block after it.\<close>

lemma aligned_address_bounds:
  assumes "k < 64" "unat a + unat sz + 2 ^ k - 1 + 8 < 2 ^ 64"
  defines "p \<equiv> (a + (2 ^ k - 1) + sizeof_ptr) AND NOT (2 ^ k - 1 :: size_t)"
  shows "2 ^ k dvd unat p" "unat a + 8 \<le> unat p" "unat p + unat sz \<le> unat a + unat sz + (2 ^ k - 1) + 8"
proof -
  have one: "(1::nat) \<le> 2 ^ k" by simp
  have lt: "unat a + 8 < 2 ^ 64" using assms(2) one by linarith
  have a8: "unat (a + 8) = unat a + 8"
    using lt by (subst unat_add_lem [THEN iffD1]) auto
  have p: "p = align_up (2 ^ k) (a + 8)"
    unfolding p_def align_up_def sizeof_ptr_def by (simp add: algebra_simps)
  have "unat p = round_up (2 ^ k) (unat a + 8)"
    unfolding p round_up_def using assms(1,2) one by (subst unat_align_up) (auto simp: a8)
  moreover have "unat a + 8 \<le> round_up (2 ^ k) (unat a + 8)" by (rule round_up_ge) simp
  moreover have "round_up (2 ^ k) (unat a + 8) < unat a + 8 + 2 ^ k" by (rule round_up_less) simp
  ultimately show "2 ^ k dvd unat p" "unat a + 8 \<le> unat p"
    "unat p + unat sz \<le> unat a + unat sz + (2 ^ k - 1) + 8" using one by auto
qed

section \<open>Properties\<close>

text \<open>A byte swap reverses the four bytes and undoes itself; without the swap flag the word
  is unchanged.\<close>

theorem byteswap_reverses:
  "byteswap_uint32_t (byteswap_uint32_t w s) s = w \<and> byteswap_uint32_t w False = w \<and>
   (\<forall>i \<in> {0, 1, 2, 3}. word_byte (byteswap_uint32_t w True) i = word_byte w (3 - i)) \<and>
   byteswap_float w s = byteswap_uint32_t w s"
  by (cases s) (auto simp: byteswap_uint32_t_def byteswap_float_def word_byte_bytes_word bytes_word_word_byte
      word_byte_bytes_word [unfolded One_nat_def] bytes_word_word_byte [unfolded One_nat_def])

theorem byteswap_reverses_witness:
  "byteswap_uint32_t 0x11223344 True = 0x44332211 \<and>
   word_byte (byteswap_uint32_t 0x11223344 True) 0 = word_byte 0x11223344 3"
  using byteswap_reverses [of "0x11223344" True] by code_simp

text \<open>\<open>pocl\_size\_ceil2\<close> gives the least power of two that is not below its argument, for every
  argument from 1 to 2 to the 63; zero and all larger arguments wrap around to zero.\<close>

theorem pocl_size_ceil2_least:
  "(0 < unat x \<and> unat x \<le> 2 ^ 63 \<longrightarrow>
      (\<exists>k. unat (pocl_size_ceil2 x) = 2 ^ k \<and> unat x \<le> 2 ^ k \<and> (\<forall>j. unat x \<le> 2 ^ j \<longrightarrow> k \<le> j))) \<and>
   (unat x = 0 \<or> 2 ^ 63 < unat x \<longrightarrow> pocl_size_ceil2 x = 0)"
proof (intro conjI impI)
  assume x: "0 < unat x \<and> unat x \<le> 2 ^ 63"
  have x1: "unat (x - 1) = unat x - 1" using x by (intro unat_minus_one) auto
  have "bitlen (x - 1) \<le> j" if "unat x \<le> 2 ^ j" for j
    unfolding bitlen_def by (rule Least_le) (use x x1 that in auto)
  moreover have "unat x \<le> 2 ^ bitlen (x - 1)" using bitlen_bounds(1) [of "x - 1"] x1 by auto
  ultimately show "\<exists>k. unat (pocl_size_ceil2 x) = 2 ^ k \<and> unat x \<le> 2 ^ k \<and> (\<forall>j. unat x \<le> 2 ^ j \<longrightarrow> k \<le> j)"
    using unat_pocl_size_ceil2 [of x] x by (intro exI [of _ "bitlen (x - 1)"]) simp
next
  assume x: "unat x = 0 \<or> 2 ^ 63 < unat x"
  have "2 ^ 63 \<le> unat (x - 1)"
  proof (cases "x = 0")
    case False
    then have "unat (x - 1) = unat x - 1" by (intro unat_minus_one) auto
    then show ?thesis using x False by (auto simp: unat_eq_zero)
  next
    case True
    have "unat (- 1 :: size_t) = 2 ^ 64 - 1" by (simp add: unsigned_minus_1_eq_mask mask_eq_exp_minus_1)
    with True show ?thesis by simp
  qed
  moreover have "unat (x - 1) < 2 ^ bitlen (x - 1)" by (rule bitlen_bounds(1))
  ultimately have "(2::nat) ^ 63 < 2 ^ bitlen (x - 1)" by linarith
  then have "63 < bitlen (x - 1)" by (simp only: power_strict_increasing_iff one_less_numeral_iff semiring_norm)
  then have "bitlen (x - 1) = 64" using bitlen_bounds(2) [of "x - 1"] by simp
  then show "pocl_size_ceil2 x = 0" by (simp add: pocl_size_ceil2_eq)
qed

theorem pocl_size_ceil2_least_witness:
  "(\<exists>k. unat (pocl_size_ceil2 37) = 2 ^ k \<and> (37::nat) \<le> 2 ^ k \<and> (\<forall>j. (37::nat) \<le> 2 ^ j \<longrightarrow> k \<le> j)) \<and>
   pocl_size_ceil2 37 = 64"
  using pocl_size_ceil2_least [of 37] by (simp add: pocl_size_ceil2_def)

text \<open>The \<open>malloc\<close> variant of \<open>pocl\_aligned\_malloc\<close>: when \<open>malloc\<close> gives a block at \<open>a\<close> that does
  not reach the end of the address space, the result is a multiple of the alignment, the header
  word and the \<open>sz\<close> bytes of the result lie inside the block, and \<open>pocl\_aligned\_free\<close> of the
  result frees exactly that block.\<close>

theorem pocl_aligned_malloc_correct:
  assumes "k < 64" "2 ^ k dvd unat sz" "0 < unat sz"
    and "malloc (sz + (2 ^ k - 1) + sizeof_ptr) = a" "a \<noteq> 0"
    and "unat a + unat sz + 2 ^ k - 1 + 8 < 2 ^ 64"
  shows "\<exists>p slots'. pocl_aligned_malloc malloc slots (2 ^ k) sz = (Some p, slots') \<and>
    2 ^ k dvd unat p \<and> unat a + 8 \<le> unat p \<and>
    unat p + unat sz \<le> unat a + unat (sz + (2 ^ k - 1) + sizeof_ptr) \<and>
    pocl_aligned_free slots' (Some p) = Some a"
proof -
  have k: "unat (2 ^ k - 1 :: size_t) = 2 ^ k - 1"
    using assms(1) using unat_two_power [of k, where ?'a = 64] by (subst unat_sub) (auto simp: word_le_nat_alt)
  have one: "(1::nat) \<le> 2 ^ k" by simp
  have lt: "unat sz + (2 ^ k - 1) < 2 ^ 64" "unat sz + (2 ^ k - 1) + 8 < 2 ^ 64" using assms(6) one by linarith+
  have r1: "unat (sz + (2 ^ k - 1)) = unat sz + (2 ^ k - 1)"
    by (subst unat_add_lem [THEN iffD1]) (use lt(1) k in simp_all)
  have r: "unat (sz + (2 ^ k - 1) + sizeof_ptr) = unat sz + (2 ^ k - 1) + 8"
    unfolding sizeof_ptr_def by (subst unat_add_lem [THEN iffD1]) (use lt(2) r1 in simp_all)
  have "unat (2 ^ k :: size_t) = 2 ^ k" using assms(1) by (simp add: unat_two_power)
  then have sz: "sz \<noteq> 0" "sz AND (2 ^ k - 1) = 0" "(2 ^ k :: size_t) \<noteq> 0" "(2 ^ k :: size_t) AND (2 ^ k - 1) = 0"
    using assms(1-3) by (auto simp only: and_mask_zero_iff two_power_and_mask unat_0 unsigned_0 less_irrefl)
  let ?p = "(a + (2 ^ k - 1) + sizeof_ptr) AND NOT (2 ^ k - 1 :: size_t)"
  have run: "pocl_aligned_malloc malloc slots (2 ^ k) sz = (Some ?p, slots(?p - sizeof_ptr := a))"
    unfolding pocl_aligned_malloc_def Let_def using sz assms(4,5) by simp
  have p: "2 ^ k dvd unat ?p" "unat a + 8 \<le> unat ?p" "unat ?p + unat sz \<le> unat a + unat sz + (2 ^ k - 1) + 8"
    using aligned_address_bounds [OF assms(1,6)] by blast+
  show ?thesis
    by (intro exI conjI) (rule run, use p r in simp_all)
qed

theorem pocl_aligned_malloc_correct_witness:
  "\<exists>p slots'. pocl_aligned_malloc (\<lambda>n. 0x1008) (\<lambda>p. 0) (2 ^ 7) 256 = (Some p, slots') \<and>
     2 ^ 7 dvd unat p \<and> pocl_aligned_free slots' (Some p) = Some 0x1008"
  using pocl_aligned_malloc_correct [of 7 256 "\<lambda>n. 0x1008" "0x1008" "\<lambda>p. 0"] by fastforce

text \<open>The requested size is computed modulo the word size: a size close to the end of the
  address space passes the checks and \<open>malloc\<close> is asked for almost nothing.\<close>

theorem pocl_aligned_malloc_wraps:
  "fst (pocl_aligned_malloc (\<lambda>n. if n \<le> 64 then 0x2000 else 0) slots 1 (- 8)) = Some 0x2008 \<and>
   unat (- 8 :: size_t) = 2 ^ 64 - 8"
  by (simp add: pocl_aligned_malloc_def sizeof_ptr_def)

end
