(* ===== verification/Memory.thy ===== *)
theory Memory
  imports Bufalloc
begin

text \<open>
  The memory of the host process as the runtime uses it: bytes at 64-bit addresses, the blocks
  the C library handed out, and the chunk regions each device driver manages. Device memory of
  the CPU drivers is host memory, so there is one address space. \<open>memcpy\<close> on unmapped or
  overlapping ranges and \<open>free\<close> of anything but a block or NULL are undefined.
\<close>

type_synonym byte = "8 word"

record memory =
  bytes :: "size_t \<Rightarrow> byte option"
  blocks :: "size_t \<Rightarrow> size_t option"
  regions :: "nat \<Rightarrow> memory_region list"

section \<open>Ranges of bytes\<close>

text \<open>\<open>n\<close> bytes from \<open>p\<close> on, modulo the size of the address space.\<close>

definition in_range :: "size_t \<Rightarrow> nat \<Rightarrow> size_t \<Rightarrow> bool" where
  "in_range p n a \<longleftrightarrow> unat (a - p) < n"

definition mapped :: "memory \<Rightarrow> size_t \<Rightarrow> nat \<Rightarrow> bool" where
  "mapped m p n \<longleftrightarrow> list_all (\<lambda>i. bytes m (p + of_nat i) \<noteq> None) [0..<n]"

definition overlap :: "size_t \<Rightarrow> size_t \<Rightarrow> nat \<Rightarrow> bool" where
  "overlap p q n \<longleftrightarrow> 0 < n \<and> (unat (q - p) < n \<or> unat (p - q) < n)"

definition load :: "memory \<Rightarrow> size_t \<Rightarrow> nat \<Rightarrow> byte list outcome" where
  "load m p n = (if mapped m p n then Ret (map (\<lambda>i. the (bytes m (p + of_nat i))) [0..<n]) else Undef)"

definition copy_bytes :: "(size_t \<Rightarrow> byte option) \<Rightarrow> size_t \<Rightarrow> size_t \<Rightarrow> nat \<Rightarrow> size_t \<Rightarrow> byte option" where
  "copy_bytes b d s n = (\<lambda>a. if in_range d n a then b (s + (a - d)) else b a)"

definition memcpy :: "memory \<Rightarrow> size_t \<Rightarrow> size_t \<Rightarrow> size_t \<Rightarrow> memory outcome" where
  "memcpy m dst src n =
     (if \<not> mapped m dst (unat n) \<or> \<not> mapped m src (unat n) \<or> overlap dst src (unat n) then Undef
      else Ret (m\<lparr>bytes := copy_bytes (bytes m) dst src (unat n)\<rparr>))"

section \<open>Blocks\<close>

text \<open>
  Where a block goes and what is in it before it is written is up to the C library: \<open>place\<close> is
  the address it chooses, if it can serve the request, and \<open>junk\<close> the initial bytes. Records of
  the runtime live outside the modelled bytes; \<open>no\_record\<close> says when allocating one fails.
\<close>

record c_library =
  place :: "memory \<Rightarrow> size_t \<Rightarrow> size_t \<Rightarrow> size_t option"
  junk :: "memory \<Rightarrow> size_t \<Rightarrow> byte"
  no_record :: "memory \<Rightarrow> bool"

definition posix_memalign :: "c_library \<Rightarrow> memory \<Rightarrow> size_t \<Rightarrow> size_t \<Rightarrow> (size_t \<times> memory) option" where
  "posix_memalign lib m algn sz =
     (case place lib m algn sz of
        None \<Rightarrow> None
      | Some p \<Rightarrow> Some (p, m\<lparr>bytes := (\<lambda>a. if in_range p (unat sz) a then Some (junk lib m a) else bytes m a),
                             blocks := (blocks m)(p \<mapsto> sz)\<rparr>))"

definition c_free :: "memory \<Rightarrow> size_t \<Rightarrow> memory outcome" where
  "c_free m p =
     (if p = 0 then Ret m
      else case blocks m p of
             None \<Rightarrow> Undef
           | Some n \<Rightarrow> Ret (m\<lparr>bytes := (\<lambda>a. if in_range p (unat n) a then None else bytes m a),
                              blocks := (blocks m)(p := None)\<rparr>))"

text \<open>What the C library documents: a block is not NULL, is aligned, stays below the last page of
  the address space, and lies in memory that was not in use.\<close>

definition library_ok :: "c_library \<Rightarrow> bool" where
  "library_ok lib \<longleftrightarrow> (\<forall>m al sz p. place lib m al sz = Some p \<longrightarrow>
     p \<noteq> 0 \<and> unat al dvd unat p \<and> unat p + unat sz + 4096 \<le> 2 ^ 64 \<and> blocks m p = None \<and>
     (\<forall>a. in_range p (unat sz) a \<longrightarrow> bytes m a = None))"

section \<open>Facts\<close>

lemma mapped_iff: "mapped m p n \<longleftrightarrow> (\<forall>i < n. bytes m (p + of_nat i) \<noteq> None)"
  by (auto simp: mapped_def list_all_iff)

lemma of_nat_unat_diff [simp]: "p + (of_nat (unat (a - p)) :: size_t) = a"
  by simp

lemma mapped_in_range: "n \<le> 2 ^ 64 \<Longrightarrow> mapped m p n \<longleftrightarrow> (\<forall>a. in_range p n a \<longrightarrow> bytes m a \<noteq> None)"
proof
  assume n: "n \<le> 2 ^ 64" and r: "\<forall>a. in_range p n a \<longrightarrow> bytes m a \<noteq> None"
  have "in_range p n (p + of_nat i)" if "i < n" for i
    using that n by (simp add: in_range_def unat_of_nat take_bit_nat_eq_self)
  with r show "mapped m p n" by (simp add: mapped_iff)
next
  assume m: "mapped m p n"
  show "\<forall>a. in_range p n a \<longrightarrow> bytes m a \<noteq> None"
  proof (intro allI impI)
    fix a assume "in_range p n a"
    with m have "bytes m (p + of_nat (unat (a - p))) \<noteq> None" unfolding mapped_iff in_range_def by blast
    then show "bytes m a \<noteq> None" by (simp only: of_nat_unat_diff) simp
  qed
qed

lemma in_range_offset: "i < n \<Longrightarrow> n \<le> 2 ^ 64 \<Longrightarrow> in_range p n (p + of_nat i)"
  by (simp add: in_range_def unat_of_nat take_bit_nat_eq_self)

lemma unat_le_64: "unat (n :: size_t) \<le> 2 ^ 64"
proof -
  have "unat n < 2 ^ LENGTH(64)" by (rule unsigned_less)
  then show ?thesis by simp
qed

lemma overlap_iff:
  assumes "n \<le> 2 ^ 64"
  shows "overlap p q n \<longleftrightarrow> (\<exists>a. in_range p n a \<and> in_range q n a)"
proof
  assume o: "overlap p q n"
  then have "0 < n" by (simp add: overlap_def)
  then have "in_range p n p" "in_range q n q" by (simp_all add: in_range_def)
  moreover have "in_range p n q \<or> in_range q n p" using o by (auto simp: overlap_def in_range_def)
  ultimately show "\<exists>a. in_range p n a \<and> in_range q n a" by blast
next
  assume "\<exists>a. in_range p n a \<and> in_range q n a"
  then obtain a where a: "unat (a - p) < n" "unat (a - q) < n" by (auto simp: in_range_def)
  show "overlap p q n"
  proof (cases "unat (a - q) \<le> unat (a - p)")
    case True
    then have "unat ((a - p) - (a - q)) = unat (a - p) - unat (a - q)"
      by (intro unat_sub) (simp add: word_le_nat_alt)
    then have "unat (q - p) < n" using a by (simp add: algebra_simps)
    then show ?thesis using a by (auto simp: overlap_def)
  next
    case False
    then have "unat ((a - q) - (a - p)) = unat (a - q) - unat (a - p)"
      by (intro unat_sub) (simp add: word_le_nat_alt)
    then have "unat (p - q) < n" using a by (simp add: algebra_simps)
    then show ?thesis using a by (auto simp: overlap_def)
  qed
qed

definition apart :: "size_t \<Rightarrow> nat \<Rightarrow> size_t \<Rightarrow> nat \<Rightarrow> bool" where
  "apart p n q k \<longleftrightarrow> \<not> (\<exists>a. in_range p n a \<and> in_range q k a)"

lemma apart_sym: "apart p n q k \<longleftrightarrow> apart q k p n"
  by (auto simp: apart_def)

lemma apart_linear:
  assumes "unat p + n \<le> unat q" "unat q + k \<le> 2 ^ 64"
  shows "apart p n q k"
proof -
  { fix a assume a: "in_range p n a" "in_range q k a"
    have "unat a = unat p + unat (a - p)"
      using a assms unat_add_lem [of p "a - p"] by (auto simp: in_range_def)
    moreover have "unat a = unat q + unat (a - q)"
      using a assms unat_add_lem [of q "a - q"] by (auto simp: in_range_def)
    ultimately have False using a assms by (auto simp: in_range_def) }
  then show ?thesis by (auto simp: apart_def)
qed

lemma memcpy_Ret_iff:
  "memcpy m d s n = Ret m' \<longleftrightarrow> mapped m d (unat n) \<and> mapped m s (unat n) \<and> apart d (unat n) s (unat n) \<and>
     m' = m\<lparr>bytes := copy_bytes (bytes m) d s (unat n)\<rparr>"
  using overlap_iff [OF unat_le_64, of d s n] by (auto simp: memcpy_def apart_def)

lemma memcpy_same_shape:
  assumes "memcpy m d s n = Ret m'"
  shows "bytes m' a = None \<longleftrightarrow> bytes m a = None" "blocks m' = blocks m" "regions m' = regions m"
proof -
  have *: "mapped m d (unat n)" "mapped m s (unat n)" "m' = m\<lparr>bytes := copy_bytes (bytes m) d s (unat n)\<rparr>"
    using assms by (auto simp: memcpy_Ret_iff)
  then show "blocks m' = blocks m" "regions m' = regions m" by auto
  show "bytes m' a = None \<longleftrightarrow> bytes m a = None"
  proof (cases "in_range d (unat n) a")
    case True
    then have "bytes m a \<noteq> None" using *(1) mapped_in_range [OF unat_le_64] by blast
    moreover have "bytes m (s + of_nat (unat (a - d))) \<noteq> None"
      using *(2) True unfolding mapped_iff in_range_def by blast
    ultimately show ?thesis using * True by (auto simp: copy_bytes_def)
  qed (use * in \<open>simp add: copy_bytes_def\<close>)
qed

lemma load_Ret_iff:
  "load m p n = Ret xs \<longleftrightarrow> length xs = n \<and> (\<forall>i < n. bytes m (p + of_nat i) = Some (xs ! i))"
proof
  assume "load m p n = Ret xs"
  then have "mapped m p n" "xs = map (\<lambda>i. the (bytes m (p + of_nat i))) [0..<n]"
    by (auto simp: load_def split: if_splits)
  then show "length xs = n \<and> (\<forall>i < n. bytes m (p + of_nat i) = Some (xs ! i))"
    by (auto simp: mapped_iff)
next
  assume *: "length xs = n \<and> (\<forall>i < n. bytes m (p + of_nat i) = Some (xs ! i))"
  then have "mapped m p n" by (simp add: mapped_iff)
  moreover have "map (\<lambda>i. the (bytes m (p + of_nat i))) [0..<n] = xs"
    using * by (intro nth_equalityI) auto
  ultimately show "load m p n = Ret xs" by (simp add: load_def)
qed

text \<open>After a copy the destination holds what the source held, and every range apart from the
  destination holds what it held.\<close>

lemma load_memcpy_dst:
  assumes "memcpy m d s n = Ret m'" "load m s (unat n) = Ret xs"
  shows "load m' d (unat n) = Ret xs"
proof -
  have m': "m' = m\<lparr>bytes := copy_bytes (bytes m) d s (unat n)\<rparr>" using assms by (simp add: memcpy_Ret_iff)
  have "in_range d (unat n) (d + of_nat i)" if "i < unat n" for i
    using that unat_le_64 by (intro in_range_offset) auto
  then show ?thesis using assms(2) by (simp add: load_Ret_iff m' copy_bytes_def)
qed

lemma load_memcpy_apart:
  assumes "memcpy m d s n = Ret m'" "apart d (unat n) p k" "k \<le> 2 ^ 64"
  shows "load m' p k = load m p k"
proof -
  have m': "m' = m\<lparr>bytes := copy_bytes (bytes m) d s (unat n)\<rparr>" using assms by (simp add: memcpy_Ret_iff)
  have "bytes m' (p + of_nat i) = bytes m (p + of_nat i)" if "i < k" for i
  proof -
    have "in_range p k (p + of_nat i)" using that assms(3) by (rule in_range_offset)
    with assms(2) have "\<not> in_range d (unat n) (p + of_nat i)" by (auto simp: apart_def)
    then show ?thesis by (simp add: m' copy_bytes_def)
  qed
  then show ?thesis by (auto simp: load_def mapped_iff)
qed

section \<open>Copying rows\<close>

text \<open>A sequence of copies of \<open>n\<close> bytes each, from the second to the first address of a pair.\<close>

definition copy_rows :: "size_t \<Rightarrow> (size_t \<times> size_t) list \<Rightarrow> memory \<Rightarrow> memory outcome" where
  "copy_rows n = oiter (\<lambda>(d, s) m. memcpy m d s n)"

text \<open>Rows that can be copied in any order: all mapped, no destination row meets another
  destination row or any source row.\<close>

definition rows_ok :: "memory \<Rightarrow> nat \<Rightarrow> (size_t \<times> size_t) list \<Rightarrow> bool" where
  "rows_ok m n rs \<longleftrightarrow>
     (\<forall>(d, s) \<in> set rs. mapped m d n \<and> mapped m s n) \<and>
     (\<forall>(d, s) \<in> set rs. \<forall>(d', s') \<in> set rs. apart d n s' n) \<and>
     sorted_wrt (\<lambda>x y. apart (fst x) n (fst y) n) rs"

lemma mapped_cong: "(\<And>a. bytes m' a = None \<longleftrightarrow> bytes m a = None) \<Longrightarrow> mapped m' p n = mapped m p n"
  by (simp add: mapped_iff)

lemma copy_rows_shape:
  assumes "copy_rows n rs m = Ret m'"
  shows "(\<forall>a. bytes m' a = None \<longleftrightarrow> bytes m a = None) \<and> blocks m' = blocks m \<and> regions m' = regions m"
  using assms unfolding copy_rows_def
  by (rule oiter_inv) (auto dest: memcpy_same_shape)

lemma copy_rows_spec:
  assumes "rows_ok m (unat n) rs"
  shows "\<exists>m'. copy_rows n rs m = Ret m' \<and>
    (\<forall>(d, s) \<in> set rs. \<forall>a. in_range d (unat n) a \<longrightarrow> bytes m' a = bytes m (s + (a - d))) \<and>
    (\<forall>a. (\<forall>(d, s) \<in> set rs. \<not> in_range d (unat n) a) \<longrightarrow> bytes m' a = bytes m a)"
  using assms
proof (induction rs arbitrary: m)
  case Nil
  then show ?case by (simp add: copy_rows_def)
next
  case (Cons r rs)
  obtain d s where r: "r = (d, s)" by (cases r)
  let ?m = "m\<lparr>bytes := copy_bytes (bytes m) d s (unat n)\<rparr>"
  have step: "memcpy m d s n = Ret ?m" using Cons.prems by (auto simp: r rows_ok_def memcpy_Ret_iff)
  note shape = memcpy_same_shape(1) [OF step]
  have ap: "apart d (unat n) s' (unat n)" "apart d (unat n) d' (unat n)" if "(d', s') \<in> set rs" for d' s'
    using Cons.prems that by (auto simp: r rows_ok_def)
  have "rows_ok ?m (unat n) rs"
    using Cons.prems shape by (auto simp: rows_ok_def r mapped_cong [of ?m m])
  from Cons.IH [OF this] obtain m' where m': "copy_rows n rs ?m = Ret m'"
    and ins: "\<And>d' s' a. (d', s') \<in> set rs \<Longrightarrow> in_range d' (unat n) a \<Longrightarrow> bytes m' a = bytes ?m (s' + (a - d'))"
    and out: "\<And>a. \<forall>(d', s') \<in> set rs. \<not> in_range d' (unat n) a \<Longrightarrow> bytes m' a = bytes ?m a"
    by fastforce
  have old: "bytes ?m (s' + (a - d')) = bytes m (s' + (a - d'))"
    if "(d', s') \<in> set rs" "in_range d' (unat n) a" for d' s' a
  proof -
    have "in_range s' (unat n) (s' + (a - d'))" using that(2) by (simp add: in_range_def)
    then have "\<not> in_range d (unat n) (s' + (a - d'))" using ap(1) [OF that(1)] by (auto simp: apart_def)
    then show ?thesis by (simp add: copy_bytes_def)
  qed
  have first: "bytes m' a = bytes m (s + (a - d))" if "in_range d (unat n) a" for a
  proof -
    have "\<forall>(d', s') \<in> set rs. \<not> in_range d' (unat n) a" using ap(2) that by (auto simp: apart_def)
    with out that show ?thesis by (simp add: copy_bytes_def)
  qed
  have rest: "bytes m' a = bytes m a" if "\<forall>(d', s') \<in> set (r # rs). \<not> in_range d' (unat n) a" for a
    using out [of a] that by (auto simp: r copy_bytes_def)
  show ?case
  proof (intro exI conjI)
    show "copy_rows n (r # rs) m = Ret m'" using m' step by (simp add: copy_rows_def r)
    show "\<forall>(d', s') \<in> set (r # rs). \<forall>a. in_range d' (unat n) a \<longrightarrow> bytes m' a = bytes m (s' + (a - d'))"
      using ins old first by (auto simp: r)
    show "\<forall>a. (\<forall>(d', s') \<in> set (r # rs). \<not> in_range d' (unat n) a) \<longrightarrow> bytes m' a = bytes m a"
      using rest by blast
  qed
qed

end
