(* ===== verification/Driver.thy ===== *)
theory Driver
  imports Memory
begin

text \<open>
  The device driver interface (the function pointers of \<open>struct \_cl\_device\_id\<close>) and the two CPU
  drivers that implement its memory operations: \<open>devices/basic/basic.c\<close> and
  \<open>devices/pthread/pthread.c\<close>. The locale \<open>device\_driver\<close> is what the runtime relies on; both
  drivers are shown to provide it.
\<close>

section \<open>Flags\<close>

definition CL_MEM_READ_WRITE :: cl_bitfield where "CL_MEM_READ_WRITE = 1"
definition CL_MEM_WRITE_ONLY :: cl_bitfield where "CL_MEM_WRITE_ONLY = 2"
definition CL_MEM_READ_ONLY :: cl_bitfield where "CL_MEM_READ_ONLY = 4"
definition CL_MEM_USE_HOST_PTR :: cl_bitfield where "CL_MEM_USE_HOST_PTR = 8"
definition CL_MEM_ALLOC_HOST_PTR :: cl_bitfield where "CL_MEM_ALLOC_HOST_PTR = 16"
definition CL_MEM_COPY_HOST_PTR :: cl_bitfield where "CL_MEM_COPY_HOST_PTR = 32"
definition CL_MEM_HOST_WRITE_ONLY :: cl_bitfield where "CL_MEM_HOST_WRITE_ONLY = 128"
definition CL_MEM_HOST_READ_ONLY :: cl_bitfield where "CL_MEM_HOST_READ_ONLY = 256"
definition CL_MEM_HOST_NO_ACCESS :: cl_bitfield where "CL_MEM_HOST_NO_ACCESS = 512"

lemmas mem_flag_defs = CL_MEM_READ_WRITE_def CL_MEM_WRITE_ONLY_def CL_MEM_READ_ONLY_def
  CL_MEM_USE_HOST_PTR_def CL_MEM_ALLOC_HOST_PTR_def CL_MEM_COPY_HOST_PTR_def
  CL_MEM_HOST_WRITE_ONLY_def CL_MEM_HOST_READ_ONLY_def CL_MEM_HOST_NO_ACCESS_def

definition has :: "cl_bitfield \<Rightarrow> cl_bitfield \<Rightarrow> bool" where
  "has flags f \<longleftrightarrow> flags AND f \<noteq> 0"

text \<open>The alignment of \<open>double16\<close>, which \<open>configure.ac\<close> records.\<close>

definition MAX_EXTENDED_ALIGNMENT :: size_t where
  "MAX_EXTENDED_ALIGNMENT = 128"

section \<open>Status codes\<close>

datatype cl_int =
    CL_SUCCESS | CL_DEVICE_NOT_FOUND | CL_MEM_OBJECT_ALLOCATION_FAILURE | CL_OUT_OF_RESOURCES
  | CL_OUT_OF_HOST_MEMORY | CL_MEM_COPY_OVERLAP | CL_MAP_FAILURE | CL_INVALID_VALUE
  | CL_INVALID_DEVICE_TYPE | CL_INVALID_PLATFORM | CL_INVALID_DEVICE | CL_INVALID_CONTEXT
  | CL_INVALID_QUEUE_PROPERTIES | CL_INVALID_COMMAND_QUEUE | CL_INVALID_HOST_PTR
  | CL_INVALID_MEM_OBJECT | CL_INVALID_PROGRAM | CL_INVALID_KERNEL | CL_INVALID_ARG_INDEX
  | CL_INVALID_ARG_VALUE | CL_INVALID_WORK_DIMENSION | CL_INVALID_WORK_GROUP_SIZE
  | CL_INVALID_WORK_ITEM_SIZE | CL_INVALID_GLOBAL_OFFSET | CL_INVALID_EVENT_WAIT_LIST
  | CL_INVALID_EVENT | CL_INVALID_OPERATION | CL_INVALID_BUFFER_SIZE
  | CL_INVALID_GLOBAL_WORK_SIZE | CL_INVALID_PROPERTY | CL_INVALID_KERNEL_ARGS
  | CL_PROFILING_INFO_NOT_AVAILABLE | CL_IMAGE_FORMAT_NOT_SUPPORTED | CL_INVALID_IMAGE_FORMAT_DESCRIPTOR
  | CL_INVALID_IMAGE_SIZE | CL_INVALID_IMAGE_DESCRIPTOR | CL_INVALID_PROGRAM_EXECUTABLE | CL_INVALID_KERNEL_NAME
  | CL_INVALID_BINARY | CL_BUILD_PROGRAM_FAILURE

section \<open>Image formats\<close>

type_synonym cl_channel_order = "32 word"
type_synonym cl_channel_type = "32 word"

definition CL_R :: cl_channel_order where "CL_R = 0x10B0"
definition CL_A :: cl_channel_order where "CL_A = 0x10B1"
definition CL_RG :: cl_channel_order where "CL_RG = 0x10B2"
definition CL_RA :: cl_channel_order where "CL_RA = 0x10B3"
definition CL_RGB :: cl_channel_order where "CL_RGB = 0x10B4"
definition CL_RGBA :: cl_channel_order where "CL_RGBA = 0x10B5"
definition CL_BGRA :: cl_channel_order where "CL_BGRA = 0x10B6"
definition CL_ARGB :: cl_channel_order where "CL_ARGB = 0x10B7"
definition CL_INTENSITY :: cl_channel_order where "CL_INTENSITY = 0x10B8"
definition CL_LUMINANCE :: cl_channel_order where "CL_LUMINANCE = 0x10B9"
definition CL_Rx :: cl_channel_order where "CL_Rx = 0x10BA"
definition CL_RGx :: cl_channel_order where "CL_RGx = 0x10BB"
definition CL_RGBx :: cl_channel_order where "CL_RGBx = 0x10BC"

definition CL_SNORM_INT8 :: cl_channel_type where "CL_SNORM_INT8 = 0x10D0"
definition CL_SNORM_INT16 :: cl_channel_type where "CL_SNORM_INT16 = 0x10D1"
definition CL_UNORM_INT8 :: cl_channel_type where "CL_UNORM_INT8 = 0x10D2"
definition CL_UNORM_INT16 :: cl_channel_type where "CL_UNORM_INT16 = 0x10D3"
definition CL_UNORM_SHORT_565 :: cl_channel_type where "CL_UNORM_SHORT_565 = 0x10D4"
definition CL_UNORM_SHORT_555 :: cl_channel_type where "CL_UNORM_SHORT_555 = 0x10D5"
definition CL_UNORM_INT_101010 :: cl_channel_type where "CL_UNORM_INT_101010 = 0x10D6"
definition CL_SIGNED_INT8 :: cl_channel_type where "CL_SIGNED_INT8 = 0x10D7"
definition CL_SIGNED_INT16 :: cl_channel_type where "CL_SIGNED_INT16 = 0x10D8"
definition CL_SIGNED_INT32 :: cl_channel_type where "CL_SIGNED_INT32 = 0x10D9"
definition CL_UNSIGNED_INT8 :: cl_channel_type where "CL_UNSIGNED_INT8 = 0x10DA"
definition CL_UNSIGNED_INT16 :: cl_channel_type where "CL_UNSIGNED_INT16 = 0x10DB"
definition CL_UNSIGNED_INT32 :: cl_channel_type where "CL_UNSIGNED_INT32 = 0x10DC"
definition CL_HALF_FLOAT :: cl_channel_type where "CL_HALF_FLOAT = 0x10DD"
definition CL_FLOAT :: cl_channel_type where "CL_FLOAT = 0x10DE"

lemmas channel_order_defs = CL_R_def CL_A_def CL_RG_def CL_RA_def CL_RGB_def CL_RGBA_def CL_BGRA_def CL_ARGB_def
  CL_INTENSITY_def CL_LUMINANCE_def CL_Rx_def CL_RGx_def CL_RGBx_def
lemmas channel_type_defs = CL_SNORM_INT8_def CL_SNORM_INT16_def CL_UNORM_INT8_def CL_UNORM_INT16_def
  CL_UNORM_SHORT_565_def CL_UNORM_SHORT_555_def CL_UNORM_INT_101010_def CL_SIGNED_INT8_def
  CL_SIGNED_INT16_def CL_SIGNED_INT32_def CL_UNSIGNED_INT8_def CL_UNSIGNED_INT16_def
  CL_UNSIGNED_INT32_def CL_HALF_FLOAT_def CL_FLOAT_def

record cl_image_format =
  fmt_order :: cl_channel_order
  fmt_type :: cl_channel_type

definition formats :: "cl_channel_order \<Rightarrow> cl_channel_type list \<Rightarrow> cl_image_format list" where
  "formats ord tys = map (\<lambda>t. \<lparr>fmt_order = ord, fmt_type = t\<rparr>) tys"

text \<open>The channel types of the orders that support all of them, in the order of the table.\<close>

definition all_channel_types :: "cl_channel_type list" where
  "all_channel_types = [CL_SNORM_INT8, CL_SNORM_INT16, CL_UNORM_INT8, CL_UNORM_INT16, CL_UNORM_SHORT_565,
     CL_UNORM_SHORT_555, CL_UNORM_INT_101010, CL_SIGNED_INT8, CL_SIGNED_INT16, CL_SIGNED_INT32,
     CL_UNSIGNED_INT8, CL_UNSIGNED_INT16, CL_UNSIGNED_INT32, CL_HALF_FLOAT, CL_FLOAT]"

text \<open>The table of \<open>basic.c\<close>, grouped by channel order.\<close>

definition supported_image_formats :: "cl_image_format list" where
  "supported_image_formats =
     formats CL_R all_channel_types @
     formats CL_Rx all_channel_types @
     formats CL_A all_channel_types @
     formats CL_RG all_channel_types @
     formats CL_RGx all_channel_types @
     formats CL_RA all_channel_types @
     formats CL_RGBA all_channel_types @
     formats CL_INTENSITY [CL_UNORM_INT8, CL_UNORM_INT16, CL_SNORM_INT8, CL_SNORM_INT16, CL_HALF_FLOAT, CL_FLOAT] @
     formats CL_LUMINANCE [CL_UNORM_INT8, CL_UNORM_INT16, CL_SNORM_INT8, CL_SNORM_INT16, CL_HALF_FLOAT, CL_FLOAT] @
     formats CL_RGB [CL_UNORM_SHORT_565, CL_UNORM_SHORT_555, CL_UNORM_INT_101010] @
     formats CL_RGBx [CL_UNORM_SHORT_565, CL_UNORM_SHORT_555, CL_UNORM_INT_101010] @
     formats CL_ARGB [CL_SNORM_INT8, CL_UNORM_INT8, CL_SIGNED_INT8, CL_UNSIGNED_INT8] @
     formats CL_BGRA [CL_SNORM_INT8, CL_UNORM_INT8, CL_SIGNED_INT8, CL_UNSIGNED_INT8]"

section \<open>The function table\<close>

type_synonym size3 = "size_t \<times> size_t \<times> size_t"

type_synonym rect_op = "memory \<Rightarrow> size_t \<Rightarrow> size_t \<Rightarrow> size3 \<Rightarrow> size3 \<Rightarrow> size3 \<Rightarrow>
  size_t \<Rightarrow> size_t \<Rightarrow> size_t \<Rightarrow> size_t \<Rightarrow> memory outcome"

text \<open>The first number of \<open>op\_malloc\<close> and \<open>op\_free\<close> is the driver's \<open>data\<close>; a NULL entry of the
  table is \<open>None\<close>. Pointers are addresses, with NULL the address 0.\<close>

record driver_ops =
  op_malloc :: "memory \<Rightarrow> nat \<Rightarrow> cl_bitfield \<Rightarrow> size_t \<Rightarrow> size_t \<Rightarrow> (size_t \<times> memory) outcome"
  op_free :: "memory \<Rightarrow> nat \<Rightarrow> cl_bitfield \<Rightarrow> size_t \<Rightarrow> memory outcome"
  op_read :: "memory \<Rightarrow> size_t \<Rightarrow> size_t \<Rightarrow> size_t \<Rightarrow> memory outcome"
  op_read_rect :: rect_op
  op_write :: "memory \<Rightarrow> size_t \<Rightarrow> size_t \<Rightarrow> size_t \<Rightarrow> memory outcome"
  op_write_rect :: rect_op
  op_copy :: "memory \<Rightarrow> size_t \<Rightarrow> size_t \<Rightarrow> size_t \<Rightarrow> memory outcome"
  op_copy_rect :: rect_op
  op_fill :: "(memory \<Rightarrow> byte list \<Rightarrow> size_t \<Rightarrow> size_t \<Rightarrow> memory outcome) option"
  op_map_mem :: "memory \<Rightarrow> size_t \<Rightarrow> size_t \<Rightarrow> size_t \<Rightarrow> size_t \<Rightarrow> (size_t \<times> memory) outcome"
  op_unmap_mem :: "(memory \<Rightarrow> size_t \<Rightarrow> size_t \<Rightarrow> size_t \<Rightarrow> memory outcome) option"
  op_get_supported_image_formats :: "cl_bitfield \<Rightarrow> cl_int \<times> cl_image_format list"

section \<open>Rectangular copies\<close>

text \<open>The address of the first byte of a box. Both drivers scale the slice pitch by the row pitch.\<close>

fun adjusted_ptr :: "size_t \<Rightarrow> size3 \<Rightarrow> size_t \<Rightarrow> size_t \<Rightarrow> size_t" where
  "adjusted_ptr p (x, y, z) row_pitch slice_pitch = p + x + row_pitch * (y + slice_pitch * z)"

text \<open>The loops over the slices and rows of \<open>region\<close>.\<close>

fun rect_rows :: "size3 \<Rightarrow> size_t \<Rightarrow> size_t \<Rightarrow> size_t \<Rightarrow> size_t \<Rightarrow> size_t \<Rightarrow> size_t \<Rightarrow> (size_t \<times> size_t) list" where
  "rect_rows (w, h, d) dst dst_row dst_slice src src_row src_slice =
     concat (map (\<lambda>k. map (\<lambda>j. (dst + dst_row * of_nat j + dst_slice * of_nat k,
                                  src + src_row * of_nat j + src_slice * of_nat k)) [0..<unat h]) [0..<unat d])"

definition pocl_basic_copy_rect :: rect_op where
  "pocl_basic_copy_rect m src_ptr dst_ptr src_origin dst_origin region
       src_row_pitch src_slice_pitch dst_row_pitch dst_slice_pitch =
     (let adjusted_src_ptr = adjusted_ptr src_ptr src_origin src_row_pitch src_slice_pitch;
          adjusted_dst_ptr = adjusted_ptr dst_ptr dst_origin dst_row_pitch dst_slice_pitch
      in copy_rows (fst region)
           (rect_rows region adjusted_dst_ptr dst_row_pitch dst_slice_pitch
              adjusted_src_ptr src_row_pitch src_slice_pitch) m)"

definition pocl_basic_write_rect :: rect_op where
  "pocl_basic_write_rect m host_ptr device_ptr buffer_origin host_origin region
       buffer_row_pitch buffer_slice_pitch host_row_pitch host_slice_pitch =
     (let adjusted_device_ptr = adjusted_ptr device_ptr buffer_origin buffer_row_pitch buffer_slice_pitch;
          adjusted_host_ptr = adjusted_ptr host_ptr host_origin host_row_pitch host_slice_pitch
      in copy_rows (fst region)
           (rect_rows region adjusted_device_ptr buffer_row_pitch buffer_slice_pitch
              adjusted_host_ptr host_row_pitch host_slice_pitch) m)"

definition pocl_basic_read_rect :: rect_op where
  "pocl_basic_read_rect m host_ptr device_ptr buffer_origin host_origin region
       buffer_row_pitch buffer_slice_pitch host_row_pitch host_slice_pitch =
     (let adjusted_device_ptr = adjusted_ptr device_ptr buffer_origin buffer_row_pitch buffer_slice_pitch;
          adjusted_host_ptr = adjusted_ptr host_ptr host_origin host_row_pitch host_slice_pitch
      in copy_rows (fst region)
           (rect_rows region adjusted_host_ptr host_row_pitch host_slice_pitch
              adjusted_device_ptr buffer_row_pitch buffer_slice_pitch) m)"

section \<open>The basic driver\<close>

definition pocl_basic_malloc ::
  "c_library \<Rightarrow> memory \<Rightarrow> nat \<Rightarrow> cl_bitfield \<Rightarrow> size_t \<Rightarrow> size_t \<Rightarrow> (size_t \<times> memory) outcome" where
  "pocl_basic_malloc lib m device_data flags sz host_ptr =
     (if has flags CL_MEM_COPY_HOST_PTR then
        case posix_memalign lib m MAX_EXTENDED_ALIGNMENT sz of
          Some (b, m') \<Rightarrow> obind (memcpy m' b host_ptr sz) (\<lambda>m''. Ret (b, m''))
        | None \<Rightarrow> Ret (0, m)
      else if has flags CL_MEM_USE_HOST_PTR \<and> host_ptr \<noteq> 0 then Ret (host_ptr, m)
      else case posix_memalign lib m MAX_EXTENDED_ALIGNMENT sz of
             Some (b, m') \<Rightarrow> Ret (b, m')
           | None \<Rightarrow> Ret (0, m))"

definition pocl_basic_free :: "memory \<Rightarrow> nat \<Rightarrow> cl_bitfield \<Rightarrow> size_t \<Rightarrow> memory outcome" where
  "pocl_basic_free m data flags ptr =
     (if has flags CL_MEM_USE_HOST_PTR then Ret m else c_free m ptr)"

definition pocl_basic_read :: "memory \<Rightarrow> size_t \<Rightarrow> size_t \<Rightarrow> size_t \<Rightarrow> memory outcome" where
  "pocl_basic_read m host_ptr device_ptr cb =
     (if host_ptr = device_ptr then Ret m else memcpy m host_ptr device_ptr cb)"

definition pocl_basic_write :: "memory \<Rightarrow> size_t \<Rightarrow> size_t \<Rightarrow> size_t \<Rightarrow> memory outcome" where
  "pocl_basic_write m host_ptr device_ptr cb =
     (if host_ptr = device_ptr then Ret m else memcpy m device_ptr host_ptr cb)"

definition pocl_basic_copy :: "memory \<Rightarrow> size_t \<Rightarrow> size_t \<Rightarrow> size_t \<Rightarrow> memory outcome" where
  "pocl_basic_copy m src_ptr dst_ptr cb =
     (if src_ptr = dst_ptr then Ret m else memcpy m dst_ptr src_ptr cb)"

definition pocl_basic_map_mem ::
  "memory \<Rightarrow> size_t \<Rightarrow> size_t \<Rightarrow> size_t \<Rightarrow> size_t \<Rightarrow> (size_t \<times> memory) outcome" where
  "pocl_basic_map_mem m buf_ptr offset sz host_ptr =
     Ret (if host_ptr \<noteq> 0 then host_ptr else buf_ptr + offset, m)"

text \<open>The callers pass the addresses of array elements, so that the test for NULL never holds.\<close>

definition pocl_basic_get_supported_image_formats :: "cl_bitfield \<Rightarrow> cl_int \<times> cl_image_format list" where
  "pocl_basic_get_supported_image_formats flags = (CL_SUCCESS, supported_image_formats)"

definition basic_ops :: "c_library \<Rightarrow> driver_ops" where
  "basic_ops lib = \<lparr>
     op_malloc = pocl_basic_malloc lib,
     op_free = pocl_basic_free,
     op_read = pocl_basic_read,
     op_read_rect = pocl_basic_read_rect,
     op_write = pocl_basic_write,
     op_write_rect = pocl_basic_write_rect,
     op_copy = pocl_basic_copy,
     op_copy_rect = pocl_basic_copy_rect,
     op_fill = None,
     op_map_mem = pocl_basic_map_mem,
     op_unmap_mem = None,
     op_get_supported_image_formats = pocl_basic_get_supported_image_formats\<rparr>"

section \<open>The pthread driver\<close>

definition ALLOCATION_MULTIPLE :: size_t where "ALLOCATION_MULTIPLE = 32"
definition ADDITIONAL_ALLOCATION_MAX_MB :: size_t where "ADDITIONAL_ALLOCATION_MAX_MB = 100"

definition region_size_for :: "size_t \<Rightarrow> size_t" where
  "region_size_for sz =
     max (min (sz + ADDITIONAL_ALLOCATION_MAX_MB * 1024 * 1024) (sz * ALLOCATION_MULTIPLE)) sz"

text \<open>The record a new region is built in; every field the allocator reads is set by
  \<open>init\_mem\_region\<close> or the caller.\<close>

definition raw_region :: memory_region where
  "raw_region = \<lparr>all_chunks = (\<lambda>_. \<lparr>start_address = 0, is_allocated = False, chunk_size = 0,
       children = [], parent = None\<rparr>), chunks = [], free_chunks = [], last_chunk = 0,
     strategy = BALLOCS_TIGHT, alignment = 0\<rparr>"

text \<open>With \<open>CUSTOM\_BUFFER\_ALLOCATOR\<close>, the configured default: \<open>Inl\<close> is \<open>ENOMEM\<close>.\<close>

definition allocate_aligned_buffer ::
  "c_library \<Rightarrow> memory \<Rightarrow> nat \<Rightarrow> size_t \<Rightarrow> size_t \<Rightarrow> ((unit + size_t) \<times> memory) outcome" where
  "allocate_aligned_buffer lib m d algn sz =
     obind (alloc_buffer (regions m d) sz) (\<lambda>(chunk, rs).
       case chunk of
         Some (i, c) \<Rightarrow> Ret (Inr (start_address (all_chunks (rs ! i) c)), m\<lparr>regions := (regions m)(d := rs)\<rparr>)
       | None \<Rightarrow>
           if no_record lib m then Ret (Inl (), m\<lparr>regions := (regions m)(d := rs)\<rparr>)
           else
             let region_size = region_size_for sz in
             obind (c_assert (region_size \<ge> sz)) (\<lambda>_.
             case (case posix_memalign lib m algn region_size of
                     Some (space, m1) \<Rightarrow> Some (space, m1, region_size)
                   | None \<Rightarrow> (case posix_memalign lib m algn sz of
                               Some (space, m1) \<Rightarrow> Some (space, m1, sz)
                             | None \<Rightarrow> None)) of
               None \<Rightarrow> Ret (Inl (), m\<lparr>regions := (regions m)(d := rs)\<rparr>)
             | Some (space, m1, region_size) \<Rightarrow>
                 let new_mem_region = (init_mem_region raw_region space region_size)\<lparr>alignment := ucast algn\<rparr> in
                 obind (alloc_buffer_from_region new_mem_region sz) (\<lambda>(chunk, r).
                   case chunk of
                     None \<Rightarrow> Abort
                   | Some c \<Rightarrow> Ret (Inr (start_address (all_chunks r c)),
                                m1\<lparr>regions := (regions m)(d := rs @ [r])\<rparr>))))"

definition pocl_pthread_malloc ::
  "c_library \<Rightarrow> memory \<Rightarrow> nat \<Rightarrow> cl_bitfield \<Rightarrow> size_t \<Rightarrow> size_t \<Rightarrow> (size_t \<times> memory) outcome" where
  "pocl_pthread_malloc lib m d flags sz host_ptr =
     (if has flags CL_MEM_COPY_HOST_PTR then
        obind (allocate_aligned_buffer lib m d MAX_EXTENDED_ALIGNMENT sz) (\<lambda>(res, m').
          case res of
            Inr b \<Rightarrow> obind (memcpy m' b host_ptr sz) (\<lambda>m''. Ret (b, m''))
          | Inl _ \<Rightarrow> Ret (0, m'))
      else if has flags CL_MEM_USE_HOST_PTR \<and> host_ptr \<noteq> 0 then Ret (host_ptr, m)
      else obind (allocate_aligned_buffer lib m d MAX_EXTENDED_ALIGNMENT sz) (\<lambda>(res, m').
             case res of
               Inr b \<Rightarrow> Ret (b, m')
             | Inl _ \<Rightarrow> Ret (0, m')))"

definition pocl_pthread_free :: "arg_order \<Rightarrow> memory \<Rightarrow> nat \<Rightarrow> cl_bitfield \<Rightarrow> size_t \<Rightarrow> memory outcome" where
  "pocl_pthread_free ord m d flags ptr =
     (if has flags CL_MEM_USE_HOST_PTR then Ret m
      else let (region, rs) = free_buffer ord (regions m d) ptr
           in obind (c_assert (region \<noteq> None)) (\<lambda>_. Ret (m\<lparr>regions := (regions m)(d := rs)\<rparr>)))"

definition pocl_pthread_free_libc :: "memory \<Rightarrow> nat \<Rightarrow> cl_bitfield \<Rightarrow> size_t \<Rightarrow> memory outcome" where
  "pocl_pthread_free_libc m data flags ptr =
     (if has flags CL_MEM_COPY_HOST_PTR then Ret m else c_free m ptr)"

definition pocl_pthread_read :: "memory \<Rightarrow> size_t \<Rightarrow> size_t \<Rightarrow> size_t \<Rightarrow> memory outcome" where
  "pocl_pthread_read m host_ptr device_ptr cb =
     (if host_ptr = device_ptr then Ret m else memcpy m host_ptr device_ptr cb)"

definition pocl_pthread_write :: "memory \<Rightarrow> size_t \<Rightarrow> size_t \<Rightarrow> size_t \<Rightarrow> memory outcome" where
  "pocl_pthread_write m host_ptr device_ptr cb =
     (if host_ptr = device_ptr then Ret m else memcpy m device_ptr host_ptr cb)"

definition pocl_pthread_copy :: "memory \<Rightarrow> size_t \<Rightarrow> size_t \<Rightarrow> size_t \<Rightarrow> memory outcome" where
  "pocl_pthread_copy m src_ptr dst_ptr cb =
     (if src_ptr = dst_ptr then Ret m else memcpy m dst_ptr src_ptr cb)"

definition pocl_pthread_read_rect :: rect_op where
  "pocl_pthread_read_rect m host_ptr device_ptr buffer_origin host_origin region
       buffer_row_pitch buffer_slice_pitch host_row_pitch host_slice_pitch =
     (let adjusted_device_ptr = adjusted_ptr device_ptr buffer_origin buffer_row_pitch buffer_slice_pitch;
          adjusted_host_ptr = adjusted_ptr host_ptr host_origin host_row_pitch host_slice_pitch
      in copy_rows (fst region)
           (rect_rows region adjusted_host_ptr host_row_pitch host_slice_pitch
              adjusted_device_ptr buffer_row_pitch buffer_slice_pitch) m)"

definition pocl_pthread_write_rect :: rect_op where
  "pocl_pthread_write_rect m host_ptr device_ptr buffer_origin host_origin region
       buffer_row_pitch buffer_slice_pitch host_row_pitch host_slice_pitch =
     (let adjusted_device_ptr = adjusted_ptr device_ptr buffer_origin buffer_row_pitch buffer_slice_pitch;
          adjusted_host_ptr = adjusted_ptr host_ptr host_origin host_row_pitch host_slice_pitch
      in copy_rows (fst region)
           (rect_rows region adjusted_device_ptr buffer_row_pitch buffer_slice_pitch
              adjusted_host_ptr host_row_pitch host_slice_pitch) m)"

definition pocl_pthread_copy_rect :: rect_op where
  "pocl_pthread_copy_rect m src_ptr dst_ptr src_origin dst_origin region
       src_row_pitch src_slice_pitch dst_row_pitch dst_slice_pitch =
     (let adjusted_src_ptr = adjusted_ptr src_ptr src_origin src_row_pitch src_slice_pitch;
          adjusted_dst_ptr = adjusted_ptr dst_ptr dst_origin dst_row_pitch dst_slice_pitch
      in copy_rows (fst region)
           (rect_rows region adjusted_dst_ptr dst_row_pitch dst_slice_pitch
              adjusted_src_ptr src_row_pitch src_slice_pitch) m)"

definition pocl_pthread_map_mem ::
  "memory \<Rightarrow> size_t \<Rightarrow> size_t \<Rightarrow> size_t \<Rightarrow> size_t \<Rightarrow> (size_t \<times> memory) outcome" where
  "pocl_pthread_map_mem m buf_ptr offset sz host_ptr = Ret (buf_ptr + offset, m)"

definition pthread_ops :: "arg_order \<Rightarrow> c_library \<Rightarrow> driver_ops" where
  "pthread_ops ord lib = \<lparr>
     op_malloc = pocl_pthread_malloc lib,
     op_free = pocl_pthread_free ord,
     op_read = pocl_pthread_read,
     op_read_rect = pocl_pthread_read_rect,
     op_write = pocl_pthread_write,
     op_write_rect = pocl_pthread_write_rect,
     op_copy = pocl_pthread_copy,
     op_copy_rect = pocl_pthread_copy_rect,
     op_fill = None,
     op_map_mem = pocl_pthread_map_mem,
     op_unmap_mem = None,
     op_get_supported_image_formats = pocl_basic_get_supported_image_formats\<rparr>"

section \<open>What a driver promises\<close>

text \<open>\<open>m'\<close> is \<open>m\<close> with \<open>n\<close> bytes moved from \<open>s\<close> to \<open>d\<close> and nothing else changed.\<close>

definition moved :: "memory \<Rightarrow> size_t \<Rightarrow> size_t \<Rightarrow> nat \<Rightarrow> memory \<Rightarrow> bool" where
  "moved m d s n m' \<longleftrightarrow>
     (\<forall>a. bytes m' a = (if in_range d n a then bytes m (s + (a - d)) else bytes m a)) \<and>
     blocks m' = blocks m \<and> regions m' = regions m"

definition movable :: "memory \<Rightarrow> size_t \<Rightarrow> size_t \<Rightarrow> nat \<Rightarrow> bool" where
  "movable m d s n \<longleftrightarrow> mapped m d n \<and> mapped m s n \<and> (d = s \<or> apart d n s n)"

lemma moved_self: "moved m d d n m"
  by (simp add: moved_def)

lemma memcpy_moved: "movable m d s (unat n) \<Longrightarrow> d \<noteq> s \<Longrightarrow> \<exists>m'. memcpy m d s n = Ret m' \<and> moved m d s (unat n) m'"
  by (auto simp: movable_def memcpy_Ret_iff moved_def copy_bytes_def)

lemma moved_mapped:
  assumes "moved m d s n m'" "mapped m d n" "mapped m s n" "n \<le> 2 ^ 64"
  shows "mapped m' p k = mapped m p k"
proof (rule mapped_cong)
  fix a
  have "bytes m (s + of_nat (unat (a - d))) \<noteq> None" if "in_range d n a"
    using assms(3) that unfolding mapped_iff in_range_def by blast
  moreover have "bytes m a \<noteq> None" if "in_range d n a"
    using assms(2) that mapped_in_range [OF assms(4)] by blast
  ultimately show "bytes m' a = None \<longleftrightarrow> bytes m a = None"
    using assms(1) by (auto simp: moved_def)
qed

lemma moved_load_dst:
  assumes "moved m d s n m'" "n \<le> 2 ^ 64"
  shows "load m' d n = load m s n"
proof -
  have "bytes m' (d + of_nat i) = bytes m (s + of_nat i)" if "i < n" for i
    using assms in_range_offset [OF that assms(2), of d] by (simp add: moved_def)
  then show ?thesis by (auto simp: load_def mapped_iff)
qed

lemma moved_load_apart:
  assumes "moved m d s n m'" "apart d n p k" "k \<le> 2 ^ 64"
  shows "load m' p k = load m p k"
proof -
  have "bytes m' (p + of_nat i) = bytes m (p + of_nat i)" if "i < k" for i
    using assms in_range_offset [OF that assms(3), of p] by (auto simp: moved_def apart_def)
  then show ?thesis by (auto simp: load_def mapped_iff)
qed

locale device_driver =
  fixes ops :: driver_ops
  assumes read_law: "movable m h d (unat cb) \<Longrightarrow> \<exists>m'. op_read ops m h d cb = Ret m' \<and> moved m h d (unat cb) m'"
    and write_law: "movable m d h (unat cb) \<Longrightarrow> \<exists>m'. op_write ops m h d cb = Ret m' \<and> moved m d h (unat cb) m'"
    and copy_law: "movable m d s (unat cb) \<Longrightarrow> \<exists>m'. op_copy ops m s d cb = Ret m' \<and> moved m d s (unat cb) m'"
    and map_law: "p \<noteq> 0 \<Longrightarrow> op_map_mem ops m p off sz 0 = Ret (p + off, m)"
    and remap_law: "\<exists>q. op_map_mem ops m p off sz h = Ret (q, m)"
begin

text \<open>What the host wrote to the device is what it reads back, from the device memory itself or
  from a copy of it.\<close>

lemma write_read:
  assumes "movable m d h (unat cb)" "movable m h' d (unat cb)"
  shows "\<exists>m1 m2. op_write ops m h d cb = Ret m1 \<and> op_read ops m1 h' d cb = Ret m2 \<and>
    load m2 h' (unat cb) = load m h (unat cb) \<and>
    (\<forall>p k. apart d (unat cb) p k \<and> apart h' (unat cb) p k \<and> k \<le> 2 ^ 64 \<longrightarrow> load m2 p k = load m p k)"
proof -
  obtain m1 where m1: "op_write ops m h d cb = Ret m1" "moved m d h (unat cb) m1"
    using write_law [OF assms(1)] by blast
  have "movable m1 h' d (unat cb)"
    using assms moved_mapped [OF m1(2)] unat_le_64 by (simp add: movable_def)
  then obtain m2 where m2: "op_read ops m1 h' d cb = Ret m2" "moved m1 h' d (unat cb) m2"
    using read_law by blast
  have "load m2 h' (unat cb) = load m h (unat cb)"
    using moved_load_dst [OF m2(2) unat_le_64] moved_load_dst [OF m1(2) unat_le_64] by simp
  moreover have "load m2 p k = load m p k"
    if "apart d (unat cb) p k \<and> apart h' (unat cb) p k \<and> k \<le> 2 ^ 64" for p k
    using moved_load_apart [OF m2(2)] moved_load_apart [OF m1(2)] that by simp
  ultimately show ?thesis using m1 m2 by blast
qed

lemma write_copy_read:
  assumes "movable m d h (unat cb)" "movable m d' d (unat cb)" "movable m h' d' (unat cb)"
  shows "\<exists>m1 m2 m3. op_write ops m h d cb = Ret m1 \<and> op_copy ops m1 d d' cb = Ret m2 \<and>
    op_read ops m2 h' d' cb = Ret m3 \<and> load m3 h' (unat cb) = load m h (unat cb)"
proof -
  obtain m1 where m1: "op_write ops m h d cb = Ret m1" "moved m d h (unat cb) m1"
    using write_law [OF assms(1)] by blast
  have "movable m1 d' d (unat cb)"
    using assms moved_mapped [OF m1(2)] unat_le_64 by (simp add: movable_def)
  then obtain m2 where m2: "op_copy ops m1 d d' cb = Ret m2" "moved m1 d' d (unat cb) m2"
    using copy_law by blast
  have "mapped m1 d' (unat cb)" "mapped m1 d (unat cb)"
    using assms moved_mapped [OF m1(2)] unat_le_64 by (auto simp: movable_def)
  then have "movable m2 h' d' (unat cb)"
    using assms moved_mapped [OF m1(2)] moved_mapped [OF m2(2)] unat_le_64 by (simp add: movable_def)
  then obtain m3 where m3: "op_read ops m2 h' d' cb = Ret m3" "moved m2 h' d' (unat cb) m3"
    using read_law by blast
  have "load m3 h' (unat cb) = load m h (unat cb)"
    using moved_load_dst [OF m3(2) unat_le_64] moved_load_dst [OF m2(2) unat_le_64]
      moved_load_dst [OF m1(2) unat_le_64] by simp
  with m1 m2 m3 show ?thesis by blast
qed

end

lemmas driver_defs = basic_ops_def pthread_ops_def pocl_basic_read_def pocl_basic_write_def
  pocl_basic_copy_def pocl_basic_map_mem_def pocl_pthread_read_def pocl_pthread_write_def
  pocl_pthread_copy_def pocl_pthread_map_mem_def

interpretation basic: device_driver "basic_ops lib" for lib
  by unfold_locales (auto simp: driver_defs intro: memcpy_moved moved_self)

interpretation pthread: device_driver "pthread_ops ord lib" for ord lib
  by unfold_locales (auto simp: driver_defs intro: memcpy_moved moved_self)

text \<open>The rectangular transfers of a driver copy row by row, from where the code puts the boxes.\<close>

locale rect_driver = device_driver +
  assumes read_rect_law: "op_read_rect ops m h p bo ho region br bs hr hs =
      copy_rows (fst region) (rect_rows region (adjusted_ptr h ho hr hs) hr hs (adjusted_ptr p bo br bs) br bs) m"
    and write_rect_law: "op_write_rect ops m h p bo ho region br bs hr hs =
      copy_rows (fst region) (rect_rows region (adjusted_ptr p bo br bs) br bs (adjusted_ptr h ho hr hs) hr hs) m"
    and copy_rect_law: "op_copy_rect ops m sp dp so d_o region sr ss dr ds =
      copy_rows (fst region) (rect_rows region (adjusted_ptr dp d_o dr ds) dr ds (adjusted_ptr sp so sr ss) sr ss) m"

lemmas rect_defs = pocl_basic_read_rect_def pocl_basic_write_rect_def pocl_basic_copy_rect_def
  pocl_pthread_read_rect_def pocl_pthread_write_rect_def pocl_pthread_copy_rect_def

interpretation basic_rect: rect_driver "basic_ops lib" for lib
  by unfold_locales (simp_all add: basic_ops_def rect_defs)

interpretation pthread_rect: rect_driver "pthread_ops ord lib" for ord lib
  by unfold_locales (simp_all add: pthread_ops_def rect_defs)

section \<open>Rectangular copies are row by row\<close>

text \<open>A box whose rows do not overlap and that does not wrap around the address space.\<close>

fun box_ok :: "size_t \<Rightarrow> size_t \<Rightarrow> size_t \<Rightarrow> size3 \<Rightarrow> bool" where
  "box_ok p row sl (w, h, d) \<longleftrightarrow>
     w \<le> row \<and> unat row * unat h \<le> unat sl \<and> unat p + unat sl * unat d \<le> 2 ^ 64"

definition row_at :: "size_t \<Rightarrow> size_t \<Rightarrow> size_t \<Rightarrow> nat \<Rightarrow> nat \<Rightarrow> size_t" where
  "row_at p row sl j k = p + row * of_nat j + sl * of_nat k"

lemma rect_rows_product:
  "rect_rows (w, h, d) dst dr ds src sr ss =
     map (\<lambda>(k, j). (row_at dst dr ds j k, row_at src sr ss j k)) (List.product [0..<unat d] [0..<unat h])"
  by (simp add: row_at_def product_concat_map map_concat comp_def)

lemma mult_suc_le: "k < d \<Longrightarrow> s * k + s \<le> s * (d :: nat)"
  by (metis Suc_leI mult_Suc_right mult_le_mono2 add.commute)

lemma row_end:
  assumes "box_ok p row sl (w, h, d)" "j < unat h" "k < unat d"
  shows "unat p + unat row * j + unat sl * k + unat w \<le> unat p + unat sl * k + unat sl"
    "unat p + unat sl * k + unat sl \<le> 2 ^ 64"
proof -
  have "unat row * j + unat row \<le> unat row * unat h" using assms(2) by (rule mult_suc_le)
  then show "unat p + unat row * j + unat sl * k + unat w \<le> unat p + unat sl * k + unat sl"
    using assms(1) by (auto simp: word_le_nat_alt)
  have "unat sl * k + unat sl \<le> unat sl * unat d" using assms(3) by (rule mult_suc_le)
  then show "unat p + unat sl * k + unat sl \<le> 2 ^ 64" using assms(1) by auto
qed

lemma unat_row_at:
  assumes "box_ok p row sl (w, h, d)" "j < unat h" "k < unat d" "0 < unat w"
  shows "unat (row_at p row sl j k) = unat p + unat row * j + unat sl * k"
proof -
  have "row_at p row sl j k = of_nat (unat p + unat row * j + unat sl * k)"
    by (simp add: row_at_def)
  moreover have "unat p + unat row * j + unat sl * k < 2 ^ 64"
    using row_end [OF assms(1-3)] assms(4) by linarith
  ultimately show ?thesis by (simp add: unat_of_nat take_bit_nat_eq_self del: of_nat_add of_nat_mult)
qed

lemma row_bounds:
  assumes "box_ok p row sl (w, h, d)" "j < unat h" "k < unat d" "0 < unat w"
  shows "unat p \<le> unat (row_at p row sl j k)"
    "unat (row_at p row sl j k) + unat w \<le> unat p + unat sl * unat d"
  using unat_row_at [OF assms] row_end [OF assms(1-3)] mult_suc_le [OF assms(3), of "unat sl"] by auto

lemma rows_apart:
  assumes box: "box_ok p row sl (w, h, d)" and "0 < unat w"
    and "j < unat h" "k < unat d" "j' < unat h" "k' < unat d" "(k, j) \<noteq> (k', j')"
  shows "apart (row_at p row sl j k) (unat w) (row_at p row sl j' k') (unat w)"
proof -
  have ordered: "apart (row_at p row sl j k) (unat w) (row_at p row sl j' k') (unat w)"
    if "j < unat h" "k < unat d" "j' < unat h" "k' < unat d" "k < k' \<or> k = k' \<and> j < j'" for j k j' k'
  proof (rule apart_linear)
    note u = unat_row_at [OF box that(1,2) assms(2)] unat_row_at [OF box that(3,4) assms(2)]
    show "unat (row_at p row sl j' k') + unat w \<le> 2 ^ 64"
      using u(2) row_end [OF box that(3,4)] by linarith
    show "unat (row_at p row sl j k) + unat w \<le> unat (row_at p row sl j' k')"
      using that(5)
    proof
      assume "k < k'"
      then have "unat sl * k + unat sl \<le> unat sl * k'" by (rule mult_suc_le)
      then show ?thesis using u row_end(1) [OF box that(1,2)] by linarith
    next
      assume "k = k' \<and> j < j'"
      then have "unat row * j + unat row \<le> unat row * j'" "k = k'" by (auto intro: mult_suc_le)
      moreover have "unat w \<le> unat row" using box by (simp add: word_le_nat_alt)
      ultimately show ?thesis using u by simp
    qed
  qed
  consider "k < k' \<or> k = k' \<and> j < j'" | "k' < k \<or> k' = k \<and> j' < j" using assms(7) by fastforce
  then show ?thesis using ordered assms apart_sym by cases blast+
qed

lemma sorted_wrt_distinct:
  "distinct xs \<Longrightarrow> (\<And>x y. x \<in> set xs \<Longrightarrow> y \<in> set xs \<Longrightarrow> x \<noteq> y \<Longrightarrow> Q x y) \<Longrightarrow> sorted_wrt Q xs"
  by (induction xs) auto

lemma mapped_sub:
  assumes "mapped m p n" "unat p \<le> unat q" "unat q + k \<le> unat p + n" "n \<le> 2 ^ 64"
  shows "mapped m q k"
proof -
  have "bytes m (q + of_nat i) \<noteq> None" if "i < k" for i
  proof -
    have "unat q - unat p + i < n" using that assms(2,3) by simp
    then have "bytes m (p + of_nat (unat q - unat p + i)) \<noteq> None" using assms(1) unfolding mapped_iff by blast
    moreover have "p + of_nat (unat q - unat p + i) = q + of_nat i" using assms(2) by (simp add: of_nat_diff)
    ultimately show ?thesis by (simp only:) simp
  qed
  then show ?thesis by (simp only: mapped_iff) blast
qed

lemma apart_sub:
  assumes "apart p n q l" "unat p \<le> unat p'" "unat p' + n' \<le> unat p + n" "n \<le> 2 ^ 64"
  shows "apart p' n' q l"
proof -
  have "in_range p n a" if "in_range p' n' a" for a
  proof -
    have "a - p = (p' - p) + (a - p')" by simp
    moreover have "unat (p' - p) = unat p' - unat p" using assms(2) by (simp add: unat_sub word_le_nat_alt)
    ultimately have "unat (a - p) \<le> unat p' - unat p + unat (a - p')"
      by (metis unat_word_ariths(1) mod_less_eq_dividend)
    then show ?thesis using that assms(2,3) by (simp add: in_range_def)
  qed
  then show ?thesis using assms(1) by (auto simp: apart_def)
qed

text \<open>The common core of the six rectangular transfers.\<close>

lemma rect_copy_spec:
  assumes dst: "box_ok dst dr ds (w, h, d)" and src: "box_ok src sr ss (w, h, d)" and w: "0 < unat w"
    and maps: "mapped m dst (unat ds * unat d)" "mapped m src (unat ss * unat d)"
    and ap: "apart dst (unat ds * unat d) src (unat ss * unat d)"
  shows "\<exists>m'. copy_rows w (rect_rows (w, h, d) dst dr ds src sr ss) m = Ret m' \<and>
    (\<forall>k < unat d. \<forall>j < unat h. \<forall>i < unat w.
       bytes m' (row_at dst dr ds j k + of_nat i) = bytes m (row_at src sr ss j k + of_nat i)) \<and>
    (\<forall>a. (\<forall>k < unat d. \<forall>j < unat h. \<not> in_range (row_at dst dr ds j k) (unat w) a) \<longrightarrow> bytes m' a = bytes m a)"
proof -
  let ?rs = "rect_rows (w, h, d) dst dr ds src sr ss"
  have le: "unat ds * unat d \<le> 2 ^ 64" "unat ss * unat d \<le> 2 ^ 64" using dst src by auto
  have mem: "(x, y) \<in> set ?rs \<longleftrightarrow> (\<exists>k < unat d. \<exists>j < unat h. x = row_at dst dr ds j k \<and> y = row_at src sr ss j k)" for x y
    unfolding rect_rows_product by (auto simp del: row_at_def) blast
  have "rows_ok m (unat w) ?rs"
    unfolding rows_ok_def
  proof (intro conjI)
    show "\<forall>(x, y) \<in> set ?rs. mapped m x (unat w) \<and> mapped m y (unat w)"
    proof (clarsimp simp: mem simp del: rect_rows.simps)
      fix k j assume b: "k < unat d" "j < unat h"
      show "mapped m (row_at dst dr ds j k) (unat w) \<and> mapped m (row_at src sr ss j k) (unat w)"
        using mapped_sub [OF maps(1) row_bounds [OF dst b(2,1) w] le(1)]
          mapped_sub [OF maps(2) row_bounds [OF src b(2,1) w] le(2)] by blast
    qed
    show "\<forall>(x, y) \<in> set ?rs. \<forall>(x', y') \<in> set ?rs. apart x (unat w) y' (unat w)"
    proof (clarsimp simp: mem simp del: rect_rows.simps)
      fix k j k' j' assume b: "k < unat d" "j < unat h" "k' < unat d" "j' < unat h"
      have "apart (row_at dst dr ds j k) (unat w) src (unat ss * unat d)"
        using apart_sub [OF ap] row_bounds [OF dst b(2,1) w] le(1) by blast
      then show "apart (row_at dst dr ds j k) (unat w) (row_at src sr ss j' k') (unat w)"
        using apart_sub [of src _ _ "unat w"] row_bounds [OF src b(4,3) w] le(2) apart_sym by blast
    qed
    show "sorted_wrt (\<lambda>x y. apart (fst x) (unat w) (fst y) (unat w)) ?rs"
      unfolding rect_rows_product sorted_wrt_map
      by (rule sorted_wrt_distinct) (auto intro!: rows_apart [OF dst w] simp: distinct_product)
  qed
  from copy_rows_spec [OF this] obtain m' where m': "copy_rows w ?rs m = Ret m'"
    and ins: "\<And>x y a. (x, y) \<in> set ?rs \<Longrightarrow> in_range x (unat w) a \<Longrightarrow> bytes m' a = bytes m (y + (a - x))"
    and out: "\<And>a. \<forall>(x, y) \<in> set ?rs. \<not> in_range x (unat w) a \<Longrightarrow> bytes m' a = bytes m a"
    by fastforce
  have "bytes m' (row_at dst dr ds j k + of_nat i) = bytes m (row_at src sr ss j k + of_nat i)"
    if "k < unat d" "j < unat h" "i < unat w" for i j k
    using ins [of "row_at dst dr ds j k" "row_at src sr ss j k" "row_at dst dr ds j k + of_nat i"]
      in_range_offset [OF that(3) unat_le_64] that mem by auto
  moreover have "bytes m' a = bytes m a"
    if "\<forall>k < unat d. \<forall>j < unat h. \<not> in_range (row_at dst dr ds j k) (unat w) a" for a
    by (rule out) (use that in \<open>auto simp: mem simp del: rect_rows.simps\<close>)
  ultimately show ?thesis using m' by blast
qed

section \<open>Allocation\<close>

lemma posix_memalign_ok:
  assumes "library_ok lib" "posix_memalign lib m algn sz = Some (p, m')"
  shows "p \<noteq> 0" "unat algn dvd unat p" "unat p + unat sz + 4096 \<le> 2 ^ 64" "mapped m' p (unat sz)"
    "blocks m' p = Some sz" "regions m' = regions m" "bytes m a \<noteq> None \<Longrightarrow> bytes m' a = bytes m a"
    "in_range p (unat sz) a \<Longrightarrow> bytes m a = None" "\<not> in_range p (unat sz) a \<Longrightarrow> bytes m' a = bytes m a"
proof -
  have pl: "place lib m algn sz = Some p"
    and m': "m' = m\<lparr>bytes := (\<lambda>a. if in_range p (unat sz) a then Some (junk lib m a) else bytes m a),
                             blocks := (blocks m)(p \<mapsto> sz)\<rparr>"
    using assms(2) by (auto simp: posix_memalign_def split: option.splits)
  have ok: "p \<noteq> 0 \<and> unat algn dvd unat p \<and> unat p + unat sz + 4096 \<le> 2 ^ 64 \<and> blocks m p = None \<and>
     (\<forall>a. in_range p (unat sz) a \<longrightarrow> bytes m a = None)"
    using assms(1) pl unfolding library_ok_def by blast
  then show "p \<noteq> 0" "unat algn dvd unat p" "unat p + unat sz + 4096 \<le> 2 ^ 64" by auto
  show "mapped m' p (unat sz)" by (simp add: mapped_in_range [OF unat_le_64] m')
  show "blocks m' p = Some sz" "regions m' = regions m" by (simp_all add: m')
  show "bytes m a \<noteq> None \<Longrightarrow> bytes m' a = bytes m a" "in_range p (unat sz) a \<Longrightarrow> bytes m a = None"
    "\<not> in_range p (unat sz) a \<Longrightarrow> bytes m' a = bytes m a"
    using ok by (auto simp: m')
qed

text \<open>A region fresh from \<open>init\_mem\_region\<close> with a new alignment is well formed.\<close>

definition fresh_region :: "size_t \<Rightarrow> size_t \<Rightarrow> memory_region" where
  "fresh_region start sz = (init_mem_region raw_region start sz)\<lparr>alignment := ucast MAX_EXTENDED_ALIGNMENT\<rparr>"

lemma fresh_region_simps:
  "chunks (fresh_region start sz) = [0]" "last_chunk (fresh_region start sz) = 0"
  "free_chunks (fresh_region start sz) = [1..<MAX_CHUNKS_IN_REGION]"
  "alignment (fresh_region start sz) = 128" "strategy (fresh_region start sz) = BALLOCS_WASTEFUL"
  "\<not> is_allocated (all_chunks (fresh_region start sz) 0)"
  "c_start (fresh_region start sz) 0 = unat start" "c_end (fresh_region start sz) 0 = unat start + unat sz"
  using init_mem_region_simps [of raw_region start sz]
  by (simp_all add: fresh_region_def c_start_def c_end_def c_size_def MAX_EXTENDED_ALIGNMENT_def)

lemma fresh_region_al: "align_ok (fresh_region start sz)" "al (fresh_region start sz) = 128"
proof -
  have "(7::nat) < 15 \<and> alignment (fresh_region start sz) = 2 ^ 7" by (simp add: fresh_region_simps)
  then show "align_ok (fresh_region start sz)" unfolding align_ok_def by blast
  show "al (fresh_region start sz) = 128" by (simp add: al_def al64_def fresh_region_simps)
qed

lemma fresh_region_inv:
  assumes "unat sz < 2 ^ 31" "unat start + unat sz + 4096 \<le> 2 ^ 64"
  shows "region_inv (unat start) (unat start + unat sz) (fresh_region start sz)"
proof -
  have "insert (0::nat) {1..<MAX_CHUNKS_IN_REGION} = {..<MAX_CHUNKS_IN_REGION}"
    by (auto simp: MAX_CHUNKS_IN_REGION_def)
  then show ?thesis
    using assms fresh_region_al [of start sz] by (auto simp: region_inv_def fresh_region_simps)
qed

lemma fresh_region_serves:
  assumes "unat n < 2 ^ 31" "unat start + unat n + 4096 \<le> 2 ^ 64" "128 dvd unat start"
    and "0 < unat sz" "sz \<le> n" "unat sz + 128 \<le> 2 ^ 31"
  shows "\<exists>c r a k. alloc_buffer_from_region (fresh_region start n) sz = Ret (Some c, r) \<and>
    region_inv (unat start) (unat start + unat n) r \<and> live r c = Some (a, k) \<and> 128 dvd a \<and> unat sz \<le> k"
proof -
  note inv = fresh_region_inv [OF assms(1,2)]
  have req: "req_ok (fresh_region start n) sz" using assms(4,6) by (simp add: req_ok_def fresh_region_al)
  have "free_chunks (fresh_region start n) \<noteq> []" by (simp add: fresh_region_simps MAX_CHUNKS_IN_REGION_def)
  moreover have "unat start + unat sz \<le> unat start + unat n" using assms(5) by (simp add: word_le_nat_alt)
  ultimately obtain c r where ok: "alloc_buffer_from_region (fresh_region start n) sz = Ret (Some c, r)"
    using alloc_success_cond [OF inv req] assms(3) by (auto simp: fresh_region_simps fresh_region_al)
  then show ?thesis using alloc_region_spec [OF inv req] fresh_region_al by fastforce
qed

lemma region_size_for_bounds:
  assumes "unat sz + 104857600 < 2 ^ 31"
  shows "sz \<le> region_size_for sz" "unat (region_size_for sz) < 2 ^ 31"
proof -
  show "sz \<le> region_size_for sz" by (simp only: region_size_for_def max.cobounded2)
  have "unat (sz + 104857600) = unat sz + 104857600"
    using assms by (subst unat_add_lem [THEN iffD1]) auto
  then have "unat (min (sz + 104857600) (sz * 32)) < 2 ^ 31" "unat sz < 2 ^ 31"
    using assms by (auto simp: min_def word_le_nat_alt)
  then show "unat (region_size_for sz) < 2 ^ 31"
    by (auto simp: region_size_for_def ADDITIONAL_ALLOCATION_MAX_MB_def ALLOCATION_MULTIPLE_def max_def)
qed

text \<open>
  The regions of a pthread device, as its driver builds them: well-formed chunk lists aligned to 128
  bytes on address ranges that do not meet and that are mapped in the memory of the process.
\<close>

definition ranges_mapped :: "memory \<Rightarrow> (nat \<times> nat) list \<Rightarrow> bool" where
  "ranges_mapped m bs \<longleftrightarrow> (\<forall>(lo, hi) \<in> set bs. lo < hi \<and> (\<forall>a. lo \<le> unat a \<and> unat a < hi \<longrightarrow> bytes m a \<noteq> None))"

definition ranges_apart :: "(nat \<times> nat) list \<Rightarrow> bool" where
  "ranges_apart bs \<longleftrightarrow> sorted_wrt (\<lambda>x y. snd x \<le> fst y \<or> snd y \<le> fst x) bs"

definition pool_ok :: "memory \<Rightarrow> memory_region list \<Rightarrow> bool" where
  "pool_ok m rs \<longleftrightarrow> (\<forall>r \<in> set rs. al r = 128) \<and>
     (\<exists>bs. regions_inv bs rs \<and> ranges_apart bs \<and> ranges_mapped m bs)"

text \<open>
  The live block \<open>(a, k)\<close> of region \<open>i\<close> is apart from every block that was live in \<open>rs\<close>, and all
  these blocks are still live at the same place in \<open>rs'\<close>.
\<close>

definition block_added :: "memory_region list \<Rightarrow> memory_region list \<Rightarrow> nat \<Rightarrow> ptr \<Rightarrow> nat \<Rightarrow> nat \<Rightarrow> bool" where
  "block_added rs rs' i c a k \<longleftrightarrow> i < length rs' \<and> live (rs' ! i) c = Some (a, k) \<and>
     (\<forall>j e b n. j < length rs \<and> live (rs ! j) e = Some (b, n) \<longrightarrow>
        j < length rs' \<and> live (rs' ! j) e = Some (b, n) \<and> (a + k \<le> b \<or> b + n \<le> a))"

lemma regions_inv_nth:
  assumes "regions_inv bs rs" "i < length rs"
  shows "i < length bs" and "region_inv (fst (bs ! i)) (snd (bs ! i)) (rs ! i)"
  using assms list_all2_nthD2 [of "\<lambda>(lo, hi) r. region_inv lo hi r" bs rs i]
  by (auto simp: regions_inv_def dest: list_all2_lengthD split: prod.splits)

lemma blocks_of_regions_apart:
  assumes inv: "regions_inv bs rs" and ap: "ranges_apart bs" and ij: "i < length rs" "j < length rs" "i \<noteq> j"
    and c: "live (rs ! i) c = Some (a, k)" and e: "live (rs ! j) e = Some (b, n)"
  shows "a + k \<le> b \<or> b + n \<le> a"
proof -
  note i = regions_inv_nth [OF inv ij(1)] and j = regions_inv_nth [OF inv ij(2)]
  have "snd (bs ! i) \<le> fst (bs ! j) \<or> snd (bs ! j) \<le> fst (bs ! i)"
    using sorted_wrt_nth_less [OF ap [unfolded ranges_apart_def], of i j]
      sorted_wrt_nth_less [OF ap [unfolded ranges_apart_def], of j i] ij(3) i(1) j(1)
    by (cases "i < j") auto
  then show ?thesis using live_in_region [OF i(2) c] live_in_region [OF j(2) e] by linarith
qed

lemma regions_inv_update:
  "regions_inv bs rs \<Longrightarrow> i < length rs \<Longrightarrow> region_inv (fst (bs ! i)) (snd (bs ! i)) r' \<Longrightarrow> regions_inv bs (rs[i := r'])"
  by (fastforce simp: regions_inv_def list_all2_conv_all_nth nth_list_update split: prod.splits)

lemma alloc_keeps_al:
  assumes "region_inv lo hi r" "req_ok r sz" "alloc_buffer_from_region r sz = Ret (res, r')"
  shows "al r' = al r"
  using region_run_al [OF run_alloc [OF run_start assms(2,3)] assms(1)] .

lemma alloc_buffer_pool:
  assumes pool: "pool_ok m rs" and sz: "0 < unat sz" "unat sz + 128 \<le> 2 ^ 31"
  shows "\<exists>res rs'. alloc_buffer rs sz = Ret (res, rs') \<and>
    (case res of None \<Rightarrow> rs' = rs
     | Some (i, c) \<Rightarrow> pool_ok m rs' \<and> (\<exists>a k. block_added rs rs' i c a k \<and> 128 dvd a \<and> unat sz \<le> k))"
proof -
  obtain bs where bs: "regions_inv bs rs" "ranges_apart bs" "ranges_mapped m bs"
    and al: "\<And>r. r \<in> set rs \<Longrightarrow> al r = 128" using pool by (auto simp: pool_ok_def)
  have req: "\<forall>r \<in> set rs. req_ok r sz" using al sz by (auto simp: req_ok_def)
  obtain res rs' where ab: "alloc_buffer rs sz = Ret (res, rs')"
    and res: "case res of
       None \<Rightarrow> rs' = rs \<and> (\<forall>r \<in> set rs. alloc_buffer_from_region r sz = Ret (None, r))
     | Some (i, c) \<Rightarrow> i < length rs \<and>
         (\<forall>j < i. alloc_buffer_from_region (rs ! j) sz = Ret (None, rs ! j)) \<and>
         (\<exists>r'. alloc_buffer_from_region (rs ! i) sz = Ret (Some c, r') \<and> rs' = rs[i := r'])"
    using alloc_buffer_first_fit [OF bs(1), of sz] req by blast
  show ?thesis
  proof (cases res)
    case None
    then show ?thesis using ab res by auto
  next
    case (Some ic)
    obtain i c where ic: "ic = (i, c)" by (cases ic)
    from res obtain r' where i: "i < length rs" "alloc_buffer_from_region (rs ! i) sz = Ret (Some c, r')" "rs' = rs[i := r']"
      by (auto simp: Some ic)
    note inv = regions_inv_nth(2) [OF bs(1) i(1)]
    have rq: "req_ok (rs ! i) sz" using req i(1) by simp
    have al': "al (rs ! i) = 128" "al r' = 128" using al i(1) alloc_keeps_al [OF inv rq i(2)] by simp_all
    obtain a k where u: "live (rs ! i) c = None" "live r' = (live (rs ! i))(c \<mapsto> (a, k))" "128 dvd a" "unat sz \<le> k"
      using alloc_region_spec [OF inv rq] i(2) al' by auto
    have inv': "regions_inv bs rs'"
      using regions_inv_update [OF bs(1) i(1)] region.alloc_inv [OF inv rq i(2)] i(3) by simp
    have pool': "pool_ok m rs'"
      unfolding pool_ok_def using inv' bs(2,3) al al'(2) set_update_subset_insert [of rs i r'] i(3) by blast
    have "block_added rs rs' i c a k"
      unfolding block_added_def
    proof (intro conjI allI impI; (elim conjE)?)
      show "i < length rs'" "live (rs' ! i) c = Some (a, k)" using i u by simp_all
      fix j e b n assume j: "j < length rs" "live (rs ! j) e = Some (b, n)"
      show "j < length rs'" using j i(3) by simp
      show kept: "live (rs' ! j) e = Some (b, n)" using j u i by (cases "j = i") auto
      show "a + k \<le> b \<or> b + n \<le> a"
      proof (cases "j = i")
        case True
        then show ?thesis using region.alloc_fresh [OF inv rq i(2)] j(2) u(2) by auto
      next
        case False
        show ?thesis
          by (rule blocks_of_regions_apart [OF inv' bs(2), of i j c a k e]) (use i j u kept False in auto)
      qed
    qed
    with pool' u(3,4) ab show ?thesis by (auto simp: Some ic)
  qed
qed

lemma start_of_live: "live r c = Some (a, k) \<Longrightarrow> unat (start_address (all_chunks r c)) = a"
  by (auto simp: live_def c_start_def split: if_splits)

text \<open>A new block of the C library is apart from the mapped ranges.\<close>

lemma new_range:
  assumes lib: "library_ok lib" "posix_memalign lib m algn n = Some (space, m1)" and n: "0 < unat n"
    and bs: "ranges_apart bs" "ranges_mapped m bs"
  shows "ranges_apart (bs @ [(unat space, unat space + unat n)])"
    and "ranges_mapped m1 (bs @ [(unat space, unat space + unat n)])"
proof -
  note pm = posix_memalign_ok [OF lib]
  have new: "in_range space (unat n) a" if "unat space \<le> unat a" "unat a < unat space + unat n" for a
  proof -
    have "unat (a - space) = unat a - unat space" using that by (intro unat_sub) (simp add: word_le_nat_alt)
    then show ?thesis using that by (simp add: in_range_def)
  qed
  have "hi \<le> unat space \<or> unat space + unat n \<le> lo" if x: "(lo, hi) \<in> set bs" for lo hi
  proof (rule ccontr)
    assume no: "\<not> ?thesis"
    define z where "z = max lo (unat space)"
    have "lo < hi" using bs(2) x unfolding ranges_mapped_def by blast
    then have z: "lo \<le> z" "z < hi" "unat space \<le> z" "z < unat space + unat n"
      using no n by (simp_all add: z_def)
    have "z < 2 ^ 64" using z(4) pm(3) by linarith
    then have "unat (of_nat z :: size_t) = z" by (simp add: unat_of_nat take_bit_nat_eq_self)
    then have "lo \<le> unat (of_nat z :: size_t) \<and> unat (of_nat z :: size_t) < hi" "in_range space (unat n) (of_nat z)"
      using z new [of "of_nat z"] by simp_all
    moreover from this(1) have "bytes m (of_nat z) \<noteq> None" using x bs(2) unfolding ranges_mapped_def by blast
    ultimately show False using pm(8) [where a = "of_nat z"] by simp
  qed
  then show "ranges_apart (bs @ [(unat space, unat space + unat n)])"
    using bs(1) by (auto simp: ranges_apart_def sorted_wrt_append)
  have "bytes m1 a \<noteq> None" if "unat space \<le> unat a" "unat a < unat space + unat n" for a
    using pm(4) new [OF that] by (simp add: mapped_in_range [OF unat_le_64])
  moreover have "bytes m1 a \<noteq> None" if "bytes m a \<noteq> None" for a using pm(7) [OF that] that by simp
  ultimately show "ranges_mapped m1 (bs @ [(unat space, unat space + unat n)])"
    using bs(2) n unfolding ranges_mapped_def by fastforce
qed

text \<open>The new region serves the request whichever of the two sizes it was allocated with.\<close>

lemma new_region_case:
  assumes lib: "library_ok lib" "posix_memalign lib m MAX_EXTENDED_ALIGNMENT n = Some (space, m1)"
    and n: "unat n < 2 ^ 31" "0 < unat sz" "sz \<le> n" "unat sz + 128 \<le> 2 ^ 31" and pool: "pool_ok m rs"
  shows "\<exists>c r a k. alloc_buffer_from_region ((init_mem_region raw_region space n)\<lparr>alignment := ucast MAX_EXTENDED_ALIGNMENT\<rparr>) sz
      = Ret (Some c, r) \<and> pool_ok m1 (rs @ [r]) \<and> block_added rs (rs @ [r]) (length rs) c a k \<and> 128 dvd a \<and> unat sz \<le> k"
proof -
  have sp: "unat space + unat n + 4096 \<le> 2 ^ 64" "128 dvd unat space"
    using posix_memalign_ok(2,3) [OF lib] by (auto simp: MAX_EXTENDED_ALIGNMENT_def)
  obtain c r a k where s: "alloc_buffer_from_region (fresh_region space n) sz = Ret (Some c, r)"
    "region_inv (unat space) (unat space + unat n) r" "live r c = Some (a, k)" "128 dvd a" "unat sz \<le> k"
    using fresh_region_serves [OF n(1) sp n(2-4)] by blast
  have "al r = 128"
    using alloc_keeps_al [OF fresh_region_inv [OF n(1) sp(1)] _ s(1)] n(2,4)
    by (simp add: req_ok_def fresh_region_al)
  obtain bs where bs: "regions_inv bs rs" "ranges_apart bs" "ranges_mapped m bs"
    and al: "\<And>r. r \<in> set rs \<Longrightarrow> al r = 128" using pool by (auto simp: pool_ok_def)
  define bs' where "bs' = bs @ [(unat space, unat space + unat n)]"
  have "0 < unat n" using n(2,3) by (simp add: word_le_nat_alt)
  then have ok: "ranges_apart bs'" "ranges_mapped m1 bs'"
    unfolding bs'_def using new_range [OF lib _ bs(2,3)] by blast+
  have inv: "regions_inv bs' (rs @ [r])"
    using bs(1) s(2) by (auto simp: bs'_def regions_inv_def intro!: list_all2_appendI)
  have "pool_ok m1 (rs @ [r])" unfolding pool_ok_def using inv ok al \<open>al r = 128\<close> by auto
  moreover have "a + k \<le> b \<or> b + l \<le> a" if "j < length rs" "live (rs ! j) e = Some (b, l)" for j e b l
    by (rule blocks_of_regions_apart [OF inv ok(1), of "length rs" j c a k e])
      (use s(3) that in \<open>simp_all add: nth_append\<close>)
  moreover from this have "block_added rs (rs @ [r]) (length rs) c a k"
    unfolding block_added_def nth_append using s(3) by simp blast
  ultimately show ?thesis using s by (auto simp: fresh_region_def)
qed

text \<open>The address of a live block of the pool is that of mapped memory.\<close>

lemma block_mapped:
  assumes pool: "pool_ok m rs" and i: "i < length rs" "live (rs ! i) c = Some (unat p, k)" and k: "unat sz \<le> k"
  shows "mapped m p (unat sz)"
proof -
  obtain bs where bs: "regions_inv bs rs" "ranges_mapped m bs" using pool by (auto simp: pool_ok_def)
  note n = regions_inv_nth [OF bs(1) i(1)]
  have in_r: "fst (bs ! i) \<le> unat p" "unat p + k \<le> snd (bs ! i)" "snd (bs ! i) \<le> 2 ^ 64"
    using live_in_region [OF n(2) i(2)] n(2) by (auto simp: region_inv_def)
  have "bytes m (p + of_nat j) \<noteq> None" if "j < unat sz" for j
  proof -
    have "unat (p + of_nat j) = unat p + j"
      using that k in_r by (simp add: unat_word_ariths unat_of_nat take_bit_nat_eq_self)
    then show ?thesis using bs(2) nth_mem [OF n(1)] in_r that k unfolding ranges_mapped_def by fastforce
  qed
  then show ?thesis by (simp add: mapped_iff)
qed

text \<open>What the caller sees of a block that one of the regions serves.\<close>

lemma served_block:
  assumes run: "allocate_aligned_buffer lib m d algn sz =
      Ret (Inr (start_address (all_chunks r c)), mem\<lparr>regions := (regions m)(d := rs')\<rparr>)"
    and pool: "pool_ok mem rs'" and new: "block_added (regions m d) rs' i c a k" and a: "128 dvd a" "unat sz \<le> k"
    and r: "rs' ! i = r" and keep: "\<And>x. bytes m x \<noteq> None \<Longrightarrow> bytes mem x = bytes m x"
  shows "\<exists>res m'. allocate_aligned_buffer lib m d algn sz = Ret (res, m') \<and>
    (case res of
       Inl _ \<Rightarrow> m' = m
     | Inr p \<Rightarrow> pool_ok m' (regions m' d) \<and> 128 dvd unat p \<and>
         (\<exists>i c k. block_added (regions m d) (regions m' d) i c (unat p) k \<and> unat sz \<le> k) \<and>
         mapped m' p (unat sz) \<and> (\<forall>a. bytes m a \<noteq> None \<longrightarrow> bytes m' a = bytes m a) \<and>
         (\<forall>e. e \<noteq> d \<longrightarrow> regions m' e = regions m e))"
proof -
  have l: "i < length rs'" "live (rs' ! i) c = Some (a, k)" using new by (auto simp: block_added_def)
  have p: "unat (start_address (all_chunks r c)) = a" using start_of_live [OF l(2)] r by simp
  have "mapped mem (start_address (all_chunks r c)) (unat sz)"
    by (rule block_mapped [OF pool l(1) _ a(2)]) (use l p in simp)
  moreover have "pool_ok (mem\<lparr>regions := x\<rparr>) rs'" "mapped (mem\<lparr>regions := x\<rparr>) q n = mapped mem q n" for x q n
    using pool by (auto simp: pool_ok_def ranges_mapped_def mapped_def)
  ultimately show ?thesis using run new a p keep by auto
qed

section \<open>Properties\<close>

text \<open>On both CPU drivers, what the host writes to device memory is what it reads back from
  there, and every other range of memory keeps its contents.\<close>

theorem driver_write_read:
  assumes "ops = basic_ops lib \<or> ops = pthread_ops ord lib"
    and "movable m d h (unat cb)" "movable m h' d (unat cb)"
  shows "\<exists>m1 m2. op_write ops m h d cb = Ret m1 \<and> op_read ops m1 h' d cb = Ret m2 \<and>
    load m2 h' (unat cb) = load m h (unat cb) \<and>
    (\<forall>p k. apart d (unat cb) p k \<and> apart h' (unat cb) p k \<and> k \<le> 2 ^ 64 \<longrightarrow> load m2 p k = load m p k)"
  using assms(1) basic.write_read [OF assms(2,3)] pthread.write_read [OF assms(2,3)] by blast

text \<open>A small memory: 64 bytes from 0x1000 on, each holding the low byte of its address.\<close>

definition demo_memory :: memory where
  "demo_memory = \<lparr>bytes = (\<lambda>a. if in_range 0x1000 64 a then Some (ucast a) else None),
     blocks = Map.empty, regions = (\<lambda>_. [])\<rparr>"

text \<open>A C library that places every block at 0x10000 while nothing is mapped there.\<close>

definition demo_library :: c_library where
  "demo_library = \<lparr>place = (\<lambda>m algn sz. if unat algn dvd 0x10000 \<and> unat sz \<le> 2 ^ 32 \<and> blocks m 0x10000 = None \<and>
       mapped (m\<lparr>bytes := (\<lambda>a. if bytes m a = None then Some 0 else None)\<rparr>) 0x10000 (unat sz) then Some 0x10000 else None),
     junk = (\<lambda>_ _. 0), no_record = (\<lambda>_. False)\<rparr>"

lemma demo_library_ok: "library_ok demo_library"
  unfolding library_ok_def demo_library_def
  by (auto simp: mapped_in_range [OF unat_le_64] split: if_splits)

lemma apart_code: "n \<le> 2 ^ 64 \<Longrightarrow> \<not> overlap p q n \<Longrightarrow> apart p n q n"
  by (simp add: overlap_iff apart_def)

theorem driver_write_read_witness:
  "\<exists>m1 m2. op_write (pthread_ops Next_First demo_library) demo_memory 0x1000 0x1010 4 = Ret m1 \<and>
     op_read (pthread_ops Next_First demo_library) m1 0x1020 0x1010 4 = Ret m2 \<and> load m2 0x1020 4 = Ret [0, 1, 2, 3]"
proof -
  have mv: "movable demo_memory 0x1010 0x1000 (unat (4 :: size_t))" "movable demo_memory 0x1020 0x1010 (unat (4 :: size_t))"
    unfolding movable_def
    by (auto intro!: apart_code simp: overlap_def mapped_def demo_memory_def in_range_def upt_rec)
  have "load demo_memory 0x1000 4 = Ret [0, 1, 2, 3]"
    by (simp add: load_def mapped_def demo_memory_def in_range_def upt_rec)
  then show ?thesis using driver_write_read [OF disjI2 [OF refl] mv, of Next_First demo_library] by auto
qed

text \<open>A rectangular copy of either CPU driver copies exactly the rows of the box: each byte of a
  destination row receives the byte of the source row at the same position, and no other byte
  of the memory changes. This holds for boxes whose rows are disjoint and that do not wrap
  around the address space, with the box addresses as the code computes them.\<close>

theorem copy_rect_correct:
  assumes "dst = adjusted_ptr dst_ptr dst_origin dr ds" "src = adjusted_ptr src_ptr src_origin sr ss"
    and "box_ok dst dr ds (w, h, d)" "box_ok src sr ss (w, h, d)" "0 < unat w"
    and "mapped m dst (unat ds * unat d)" "mapped m src (unat ss * unat d)"
    and "apart dst (unat ds * unat d) src (unat ss * unat d)"
    and "ops = basic_ops lib \<or> ops = pthread_ops ord lib"
  shows "\<exists>m'. op_copy_rect ops m src_ptr dst_ptr src_origin dst_origin (w, h, d) sr ss dr ds = Ret m' \<and>
    (\<forall>k < unat d. \<forall>j < unat h. \<forall>i < unat w.
       bytes m' (row_at dst dr ds j k + of_nat i) = bytes m (row_at src sr ss j k + of_nat i)) \<and>
    (\<forall>a. (\<forall>k < unat d. \<forall>j < unat h. \<not> in_range (row_at dst dr ds j k) (unat w) a) \<longrightarrow> bytes m' a = bytes m a)"
proof -
  have "op_copy_rect ops m src_ptr dst_ptr src_origin dst_origin (w, h, d) sr ss dr ds =
      copy_rows w (rect_rows (w, h, d) dst dr ds src sr ss) m"
    using assms(1,2,9) by (auto simp: basic_ops_def pthread_ops_def pocl_basic_copy_rect_def pocl_pthread_copy_rect_def)
  then show ?thesis using rect_copy_spec [OF assms(3-8)] by simp
qed

lemma apart_linear_code: "unat p + n \<le> unat q \<and> unat q + k \<le> 2 ^ 64 \<or> unat q + k \<le> unat p \<and> unat p + n \<le> 2 ^ 64 \<Longrightarrow> apart p n q k"
  using apart_linear apart_sym by blast

theorem copy_rect_correct_witness:
  "\<exists>m'. op_copy_rect (basic_ops demo_library) demo_memory 0x1000 0x1020 (1, 0, 0) (2, 0, 0) (2, 2, 1) 8 16 4 8 = Ret m' \<and>
     bytes m' 0x1022 = Some 1 \<and> bytes m' 0x1023 = Some 2 \<and> bytes m' 0x1026 = Some 9 \<and> bytes m' 0x1027 = Some 10"
proof -
  have pre: "box_ok 0x1022 4 8 (2, 2, 1)" "box_ok 0x1001 8 16 (2, 2, 1)" "0 < unat (2 :: size_t)"
    "mapped demo_memory 0x1022 (unat (8 :: size_t) * unat (1 :: size_t))"
    "mapped demo_memory 0x1001 (unat (16 :: size_t) * unat (1 :: size_t))"
    by (simp_all add: mapped_def demo_memory_def in_range_def upt_rec)
  have ap: "apart 0x1022 (unat (8 :: size_t) * unat (1 :: size_t)) 0x1001 (unat (16 :: size_t) * unat (1 :: size_t))"
    by (rule apart_linear_code) simp
  obtain m' where m': "op_copy_rect (basic_ops demo_library) demo_memory 0x1000 0x1020 (1, 0, 0) (2, 0, 0) (2, 2, 1) 8 16 4 8 = Ret m'"
    and b: "\<And>k j i. k < 1 \<Longrightarrow> j < 2 \<Longrightarrow> i < 2 \<Longrightarrow>
      bytes m' (row_at 0x1022 4 8 j k + of_nat i) = bytes demo_memory (row_at 0x1001 8 16 j k + of_nat i)"
    using copy_rect_correct [of _ "0x1020" "(2, 0, 0)" 4 8 _ "0x1000" "(1, 0, 0)" 8 16, OF _ _ pre ap disjI1 [OF refl],
        of demo_library]
    by fastforce
  show ?thesis using m' b [of 0 0 0] b [of 0 0 1] b [of 0 1 0] b [of 0 1 1]
    by (simp add: row_at_def demo_memory_def in_range_def)
qed

text \<open>
  C33. With a C library that serves requests from unused memory, buffer allocation of the pthread
  driver never fails its assertions on a request of at least one byte that stays below 2 GiB together with
  the 100 MiB by which a region may be larger and 128 bytes for the alignment. It either reports that memory is exhausted and
  changes nothing, or returns a mapped block of at least that size at an address aligned to 128
  bytes that is apart from all blocks live in any region of the device, which all stay where they
  are; no mapped byte changes, the regions of the other devices are kept, and those of this device
  are well formed again, so that the next request is served in the same way.
\<close>

theorem allocate_aligned_buffer_correct:
  assumes lib: "library_ok lib" and pool: "pool_ok m (regions m d)"
    and sz: "0 < unat sz" "unat sz + 104857600 + 128 < 2 ^ 31"
  shows "\<exists>res m'. allocate_aligned_buffer lib m d MAX_EXTENDED_ALIGNMENT sz = Ret (res, m') \<and>
    (case res of
       Inl _ \<Rightarrow> m' = m
     | Inr p \<Rightarrow> pool_ok m' (regions m' d) \<and> 128 dvd unat p \<and>
         (\<exists>i c k. block_added (regions m d) (regions m' d) i c (unat p) k \<and> unat sz \<le> k) \<and>
         mapped m' p (unat sz) \<and> (\<forall>a. bytes m a \<noteq> None \<longrightarrow> bytes m' a = bytes m a) \<and>
         (\<forall>e. e \<noteq> d \<longrightarrow> regions m' e = regions m e))"
proof -
  have b: "sz \<le> region_size_for sz" "unat (region_size_for sz) < 2 ^ 31" "unat sz < 2 ^ 31" "unat sz + 128 \<le> 2 ^ 31"
    using region_size_for_bounds [of sz] sz(2) by auto
  obtain res rs where ab: "alloc_buffer (regions m d) sz = Ret (res, rs)"
    and res: "case res of None \<Rightarrow> rs = regions m d
     | Some (i, c) \<Rightarrow> pool_ok m rs \<and>
         (\<exists>a k. block_added (regions m d) rs i c a k \<and> 128 dvd a \<and> unat sz \<le> k)"
    using alloc_buffer_pool [OF pool sz(1) b(4)] by blast
  show ?thesis
  proof (cases res)
    case (Some ic)
    obtain i c where ic: "ic = (i, c)" by (cases ic)
    with res Some obtain a k where u: "pool_ok m rs" "block_added (regions m d) rs i c a k" "128 dvd a" "unat sz \<le> k"
      by auto
    show ?thesis
      by (rule served_block [where r = "rs ! i" and c = c and rs' = rs and mem = m, OF _ _ u(2-4)])
        (use u ab Some ic in \<open>auto simp: allocate_aligned_buffer_def pool_ok_def\<close>)
  next
    case None
    then have rs: "rs = regions m d" using res by simp
    have new: ?thesis
      if p: "posix_memalign lib m MAX_EXTENDED_ALIGNMENT n = Some (space, m1)" "unat n < 2 ^ 31" "sz \<le> n"
        and run: "\<And>c r. alloc_buffer_from_region ((init_mem_region raw_region space n)\<lparr>alignment := ucast MAX_EXTENDED_ALIGNMENT\<rparr>) sz = Ret (Some c, r) \<Longrightarrow>
          allocate_aligned_buffer lib m d MAX_EXTENDED_ALIGNMENT sz =
            Ret (Inr (start_address (all_chunks r c)), m1\<lparr>regions := (regions m)(d := rs @ [r])\<rparr>)" for n space m1
    proof -
      obtain c r a k where u: "alloc_buffer_from_region ((init_mem_region raw_region space n)\<lparr>alignment := ucast MAX_EXTENDED_ALIGNMENT\<rparr>) sz
          = Ret (Some c, r)" "pool_ok m1 (rs @ [r])" "block_added rs (rs @ [r]) (length rs) c a k" "128 dvd a" "unat sz \<le> k"
        using new_region_case [OF lib p(1,2) sz(1) p(3) b(4) pool] rs by blast
      show ?thesis
        by (rule served_block [where i = "length rs" and r = r and c = c and rs' = "rs @ [r]" and mem = m1, OF run [OF u(1)] u(2) _ u(4,5)])
          (use u(3) rs posix_memalign_ok(7) [OF lib p(1)] in simp_all)
    qed
    note unf = allocate_aligned_buffer_def ab None Let_def
    show ?thesis
    proof (cases "no_record lib m")
      case True
      then show ?thesis using rs by (simp add: unf)
    next
      case rec: False
      show ?thesis
      proof (cases "posix_memalign lib m MAX_EXTENDED_ALIGNMENT (region_size_for sz)")
        case (Some sm)
        then obtain space m1 where sm: "posix_memalign lib m MAX_EXTENDED_ALIGNMENT (region_size_for sz) = Some (space, m1)"
          by (cases sm) simp
        show ?thesis by (rule new [OF sm b(2,1)]) (simp add: unf rec b(1) sm)
      next
        case big: None
        show ?thesis
        proof (cases "posix_memalign lib m MAX_EXTENDED_ALIGNMENT sz")
          case (Some sm)
          then obtain space m1 where sm: "posix_memalign lib m MAX_EXTENDED_ALIGNMENT sz = Some (space, m1)"
            by (cases sm) simp
          show ?thesis by (rule new [OF sm b(3) order_refl]) (simp add: unf rec b(1) big sm)
        qed (use rs rec b(1) big in \<open>simp add: unf\<close>)
      qed
    qed
  qed
qed

theorem allocate_aligned_buffer_correct_witness:
  "\<exists>res m'. allocate_aligned_buffer demo_library demo_memory 0 MAX_EXTENDED_ALIGNMENT 100 = Ret (res, m') \<and>
    (case res of
       Inl _ \<Rightarrow> m' = demo_memory
     | Inr p \<Rightarrow> pool_ok m' (regions m' 0) \<and> 128 dvd unat p \<and>
         (\<exists>i c k. block_added (regions demo_memory 0) (regions m' 0) i c (unat p) k \<and> unat (100 :: size_t) \<le> k) \<and>
         mapped m' p (unat (100 :: size_t)) \<and> (\<forall>a. bytes demo_memory a \<noteq> None \<longrightarrow> bytes m' a = bytes demo_memory a) \<and>
         (\<forall>e. e \<noteq> 0 \<longrightarrow> regions m' e = regions demo_memory e))"
  by (rule allocate_aligned_buffer_correct [OF demo_library_ok])
    (simp_all add: pool_ok_def demo_memory_def regions_inv_def ranges_apart_def ranges_mapped_def)

end
