(* ===== verification/Runtime.thy ===== *)
theory Runtime
  imports Driver
begin

text \<open>
  The state of the runtime: the objects of \<open>lib/CL/pocl\_cl.h\<close> and \<open>include/pocl.h\<close> in one store
  per type, the process memory, and a counter that numbers the calls whose result the
  environment decides. An object pointer is a number; NULL is 0 and a freed object is absent
  from its store, so that using either is undefined. Numbers are never reused.
\<close>

unbundle bit_operations_syntax

section \<open>Constants\<close>

datatype command_type =
    CL_COMMAND_NDRANGE_KERNEL | CL_COMMAND_READ_BUFFER | CL_COMMAND_WRITE_BUFFER
  | CL_COMMAND_COPY_BUFFER | CL_COMMAND_MAP_BUFFER | CL_COMMAND_UNMAP_MEM_OBJECT
  | CL_COMMAND_MARKER | CL_COMMAND_READ_BUFFER_RECT | CL_COMMAND_WRITE_BUFFER_RECT
  | CL_COMMAND_COPY_BUFFER_RECT | CL_COMMAND_TASK | CL_COMMAND_READ_IMAGE

text \<open>The execution status of an event.\<close>

definition CL_COMPLETE :: int where "CL_COMPLETE = 0"
definition CL_RUNNING :: int where "CL_RUNNING = 1"
definition CL_SUBMITTED :: int where "CL_SUBMITTED = 2"
definition CL_QUEUED :: int where "CL_QUEUED = 3"

definition CL_QUEUE_OUT_OF_ORDER_EXEC_MODE_ENABLE :: cl_bitfield where
  "CL_QUEUE_OUT_OF_ORDER_EXEC_MODE_ENABLE = 1"
definition CL_QUEUE_PROFILING_ENABLE :: cl_bitfield where
  "CL_QUEUE_PROFILING_ENABLE = 2"
definition CL_DEVICE_TYPE_DEFAULT :: cl_bitfield where "CL_DEVICE_TYPE_DEFAULT = 1"
definition CL_DEVICE_TYPE_CPU :: cl_bitfield where "CL_DEVICE_TYPE_CPU = 2"
definition CL_DEVICE_TYPE_GPU :: cl_bitfield where "CL_DEVICE_TYPE_GPU = 4"

type_synonym cl_uint = "32 word"
type_synonym cl_ulong = "64 word"

abbreviation NULL :: ptr where "NULL \<equiv> 0"

section \<open>Objects\<close>

text \<open>
  What \<open>clGetDeviceInfo\<close> reports of a device, apart from the fields the runtime itself reads,
  which are in the record \<open>device\<close> below. A name is \<open>None\<close> when its pointer dangles.
\<close>

record device_info =
  vendor_id :: cl_uint
  max_compute_units :: cl_uint
  max_work_item_dimensions :: cl_uint
  preferred_wg_size_multiple :: size_t
  preferred_vector_width_char :: cl_uint
  preferred_vector_width_short :: cl_uint
  preferred_vector_width_int :: cl_uint
  preferred_vector_width_long :: cl_uint
  preferred_vector_width_float :: cl_uint
  preferred_vector_width_double :: cl_uint
  preferred_vector_width_half :: cl_uint
  native_vector_width_char :: cl_uint
  native_vector_width_short :: cl_uint
  native_vector_width_int :: cl_uint
  native_vector_width_long :: cl_uint
  native_vector_width_float :: cl_uint
  native_vector_width_double :: cl_uint
  native_vector_width_half :: cl_uint
  max_clock_frequency :: cl_uint
  address_bits :: cl_uint
  image_support :: cl_uint
  max_read_image_args :: cl_uint
  max_write_image_args :: cl_uint
  image2d_max_width :: size_t
  image2d_max_height :: size_t
  image3d_max_width :: size_t
  image3d_max_height :: size_t
  image3d_max_depth :: size_t
  max_samplers :: cl_uint
  max_parameter_size :: size_t
  mem_base_addr_align :: cl_uint
  min_data_type_align_size :: cl_uint
  single_fp_config :: cl_bitfield
  double_fp_config :: cl_bitfield
  global_mem_cache_type :: cl_uint
  global_mem_cacheline_size :: cl_uint
  global_mem_cache_size :: cl_ulong
  global_mem_size :: cl_ulong
  max_constant_buffer_size :: cl_ulong
  max_constant_args :: cl_uint
  local_mem_type :: cl_uint
  local_mem_size :: cl_ulong
  error_correction_support :: cl_uint
  host_unified_memory :: cl_uint
  profiling_timer_resolution :: size_t
  endian_little :: cl_uint
  compiler_available :: cl_uint
  execution_capabilities :: cl_bitfield
  queue_properties :: cl_bitfield
  dev_platform :: size_t
  dev_name :: "string option"
  llvm_target_triplet :: "string option"
  dev_vendor :: "string option"
  driver_version :: string
  dev_profile :: string
  dev_version :: string
  extensions :: string

record device =
  dev_refcount :: int
  dev_type :: cl_bitfield
  dev_id :: nat
  dev_data :: nat
  available :: bool
  isHSAinit :: bool
  agent_id :: nat
  max_mem_alloc_size :: "64 word"
  max_work_item_sizes :: size3
  max_work_group_size :: size_t
  dev_info :: device_info

text \<open>
  The initial values of the basic device, \<open>POCL\_DEVICES\_BASIC\<close>: what the build configuration sets is
  in the record \<open>build\_config\<close>.
\<close>

record build_config =
  width_char :: cl_uint
  width_short :: cl_uint
  width_int :: cl_uint
  width_long :: cl_uint
  width_float :: cl_uint
  width_double :: cl_uint
  width_half :: cl_uint
  device_address_bits :: cl_uint
  words_bigendian :: bool
  package_version :: string
  build_icd :: bool
  kernel_target :: string

definition CL_FP_INF_NAN :: cl_bitfield where "CL_FP_INF_NAN = 2"
definition CL_FP_ROUND_TO_NEAREST :: cl_bitfield where "CL_FP_ROUND_TO_NEAREST = 4"
definition CL_GLOBAL :: cl_uint where "CL_GLOBAL = 2"
definition CL_EXEC_KERNEL :: cl_bitfield where "CL_EXEC_KERNEL = 1"
definition CL_INT_MAX :: size_t where "CL_INT_MAX = 0x7FFFFFFF"

definition basic_info :: "build_config \<Rightarrow> device_info" where
  "basic_info cfg = \<lparr>vendor_id = 0, max_compute_units = 1, max_work_item_dimensions = 3, preferred_wg_size_multiple = 8,
     preferred_vector_width_char = width_char cfg, preferred_vector_width_short = width_short cfg,
     preferred_vector_width_int = width_int cfg, preferred_vector_width_long = width_long cfg,
     preferred_vector_width_float = width_float cfg, preferred_vector_width_double = width_double cfg,
     preferred_vector_width_half = width_half cfg, native_vector_width_char = width_char cfg,
     native_vector_width_short = width_short cfg, native_vector_width_int = width_int cfg,
     native_vector_width_long = width_long cfg, native_vector_width_float = width_float cfg,
     native_vector_width_double = width_double cfg, native_vector_width_half = width_half cfg,
     max_clock_frequency = 0, address_bits = device_address_bits cfg, image_support = 0, max_read_image_args = 0,
     max_write_image_args = 0, image2d_max_width = 0, image2d_max_height = 0, image3d_max_width = 0,
     image3d_max_height = 0, image3d_max_depth = 0, max_samplers = 0, max_parameter_size = 1024,
     mem_base_addr_align = 0, min_data_type_align_size = 0,
     single_fp_config = CL_FP_ROUND_TO_NEAREST OR CL_FP_INF_NAN, double_fp_config = CL_FP_ROUND_TO_NEAREST OR CL_FP_INF_NAN,
     global_mem_cache_type = 0, global_mem_cacheline_size = 0, global_mem_cache_size = 0, global_mem_size = 0,
     max_constant_buffer_size = 0, max_constant_args = 0, local_mem_type = CL_GLOBAL, local_mem_size = 0,
     error_correction_support = 0, host_unified_memory = 1, profiling_timer_resolution = 0,
     endian_little = (if words_bigendian cfg then 0 else 1), compiler_available = 1, execution_capabilities = CL_EXEC_KERNEL,
     queue_properties = CL_QUEUE_PROFILING_ENABLE, dev_platform = 0, dev_name = Some ''basic'', llvm_target_triplet = Some (kernel_target cfg), dev_vendor = Some ''pocl'',
     driver_version = package_version cfg, dev_profile = ''FULL_PROFILE'', dev_version = ''OpenCL 1.2 pocl'',
     extensions = []\<rparr>"

definition POCL_DEVICES_BASIC :: "build_config \<Rightarrow> device" where
  "POCL_DEVICES_BASIC cfg = \<lparr>dev_refcount = 0, dev_type = CL_DEVICE_TYPE_CPU, dev_id = 0, dev_data = 0, available = True,
     isHSAinit = False, agent_id = 0, max_mem_alloc_size = 0, max_work_item_sizes = (CL_INT_MAX, CL_INT_MAX, CL_INT_MAX),
     max_work_group_size = 1024, dev_info = basic_info cfg\<rparr>"

text \<open>An entry of the device array the code has not set is \<open>None\<close>.\<close>

record cl_context =
  ctx_refcount :: int
  ctx_devices :: "ptr option list"
  ctx_properties :: "int list option"
  valid :: bool

record mem_mapping =
  map_host_ptr :: size_t
  map_offset :: size_t
  map_size :: size_t

record cl_mem =
  m_refcount :: int
  m_type :: cl_uint
  m_flags :: cl_bitfield
  m_size :: size_t
  mem_host_ptr :: size_t
  map_count :: cl_uint
  m_context :: ptr
  device_ptrs :: "size_t list"
  mappings :: "ptr list"
  m_parent :: ptr
  is_image :: bool
  image_channel_order :: "32 word"
  image_channel_data_type :: "32 word"
  image_width :: size_t
  image_height :: size_t
  image_depth :: size_t
  image_array_size :: size_t
  image_row_pitch :: size_t
  image_slice_pitch :: size_t
  image_elem_size :: size_t
  image_channels :: size_t
  num_mip_levels :: "32 word"
  num_samples :: "32 word"
  m_buffer :: ptr
  image_handle :: "64 word"

text \<open>The value of a kernel argument: NULL, a block that has been freed, or a block with its bytes.\<close>

datatype arg_mem = Arg_null | Arg_freed | Arg_bytes "byte list"

record pocl_argument =
  arg_size :: size_t
  arg_value :: arg_mem

text \<open>The three sections of a BRIG module, each with its header.\<close>

record brig_module =
  data_section :: "byte list"
  code_section :: "byte list"
  operand_section :: "byte list"

text \<open>
  \<open>binaries\<close> is \<open>None\<close> for the NULL array; the sizes are the lengths of its entries. \<open>brigModule\<close> is \<open>None\<close>
  as long as no module has been loaded.
\<close>

record cl_program =
  p_refcount :: int
  p_context :: ptr
  p_devices :: "ptr option list"
  prog_source :: "string option"
  compiler_options :: "string option"
  binaries :: "byte list option list option"
  temp_dir :: string
  p_kernels :: "ptr list"
  brigModule :: "brig_module option"

definition binary_list :: "cl_program \<Rightarrow> byte list option list" where
  "binary_list p = (case binaries p of None \<Rightarrow> [] | Some bs \<Rightarrow> bs)"

text \<open>What the HSA finalizer says of a kernel; \<open>None\<close> in a kernel as long as it has not been finalized.\<close>

record hsa_code_descriptor =
  workgroup_group_segment_byte_size :: "32 word"
  kernarg_segment_byte_size :: "64 word"
  workitem_private_segment_byte_size :: "32 word"
  code_handle :: "64 word"

record cl_kernel =
  k_refcount :: int
  function_name :: string
  k_name :: string
  num_args :: nat
  k_context :: ptr
  k_program :: ptr
  arg_is_pointer :: "bool list"
  arg_is_local :: "bool list option"
  arg_is_image :: "bool list"
  arg_is_sampler :: "bool list"
  arg_is_struct :: "bool list"
  num_locals :: nat
  reqd_wg_size :: "int list option"
  hsaCodeDescriptor :: "hsa_code_descriptor option"
  hsaArgCount :: nat
  dyn_arguments :: "pocl_argument list option"

record cl_event =
  e_refcount :: int
  e_queue :: ptr
  e_type :: command_type
  e_status :: int
  time_queue :: "64 word"
  time_submit :: "64 word"
  time_start :: "64 word"
  time_end :: "64 word"

record cl_sampler =
  normalized_coords :: cl_uint
  addressing_mode :: cl_uint
  filter_mode :: cl_uint

text \<open>\<open>struct pocl\_context\<close>: the index space of a kernel invocation.\<close>

record pocl_context =
  work_dim :: nat
  num_groups :: size3
  group_id :: size3
  global_offset :: size3
  global_size :: size3
  local_size :: size3

record command_run =
  tmp_dir :: string
  run_kernel :: ptr
  arg_buffers :: "ptr list"
  pc :: pocl_context
  run_arguments :: "pocl_argument list"

datatype command =
    Cmd_run command_run
  | Cmd_read size_t size_t size_t ptr
  | Cmd_write size_t size_t size_t ptr
  | Cmd_copy size_t size_t size_t ptr ptr
  | Cmd_map ptr ptr
  | Cmd_marker
  | Cmd_other

record command_node =
  cmd :: command
  node_event :: ptr

text \<open>The queue's command list is singly linked; it is kept here as the list of its nodes.\<close>

record cl_command_queue =
  q_refcount :: int
  q_context :: ptr
  q_device :: ptr
  q_properties :: cl_bitfield
  root :: "command_node list"

section \<open>State and environment\<close>

record rt =
  devices :: "ptr \<Rightarrow> device option"
  pocl_num_devices :: nat
  pocl_devices :: "ptr list"
  contexts :: "ptr \<Rightarrow> cl_context option"
  queues :: "ptr \<Rightarrow> cl_command_queue option"
  mems :: "ptr \<Rightarrow> cl_mem option"
  maps :: "ptr \<Rightarrow> mem_mapping option"
  events :: "ptr \<Rightarrow> cl_event option"
  programs :: "ptr \<Rightarrow> cl_program option"
  kernels :: "ptr \<Rightarrow> cl_kernel option"
  samplers :: "ptr \<Rightarrow> cl_sampler option"
  ram :: memory
  tick :: nat

text \<open>What \<open>hsa\_agent\_get\_info\<close> reports.\<close>

record agent_info =
  agent_device :: nat
  grid_max_dim :: "cl_uint \<times> cl_uint \<times> cl_uint"
  wg_max_size :: cl_uint
  image2d_max_dim :: "cl_uint \<times> cl_uint \<times> cl_uint"
  image3d_max_dim :: "cl_uint \<times> cl_uint \<times> cl_uint"
  sampler_max :: cl_uint
  agent_name :: string
  agent_vendor :: string

text \<open>
  What the runtime cannot decide, by the number of the call: whether \<open>malloc\<close> of a record and
  whether a call into the HSA library fails, and what the clock shows. \<open>driver\<close> gives the
  function table of a device and \<open>run\<close> its entry that executes a kernel. \<open>platform\_id\<close> is
  the address of the one platform, \<open>hsa\_agent\<close> the agent the HSA library finds (0 for none),
  \<open>pocl\_device\_types\<close> the devices the library is built with and \<open>init\_device\<close> what their \<open>init\<close>
  entry makes of the device with that number; \<open>os\<close> is what a call to the operating
  system returns, \<open>unset\_string\<close> and \<open>unset\_size\<close> the values of a local array and of a local variable before
  they are written and \<open>agent\<close> what HSA reports of its agent; \<open>raw\_mem\<close> and \<open>raw\_event\<close> are what is
  in the memory of a new record.
\<close>

record env =
  malloc_fails :: "nat \<Rightarrow> bool"
  hsa_fails :: "nat \<Rightarrow> bool"
  clock :: "nat \<Rightarrow> 64 word"
  driver :: "ptr \<Rightarrow> driver_ops"
  run :: "ptr \<Rightarrow> command_node \<Rightarrow> rt \<Rightarrow> rt outcome"
  platform_id :: int
  hsa_agent :: nat
  pocl_device_types :: "device list"
  init_device :: "nat \<Rightarrow> device \<Rightarrow> device"
  os :: "nat \<Rightarrow> int"
  unset_string :: string
  unset_size :: size_t
  agent :: agent_info
  raw_mem :: cl_mem
  raw_event :: cl_event

definition next_tick :: "rt \<Rightarrow> rt" where
  "next_tick s = s\<lparr>tick := Suc (tick s)\<rparr>"

text \<open>\<open>malloc (sizeof (...))\<close> of a runtime record: a new number, or NULL.\<close>

definition new_obj :: "env \<Rightarrow> rt \<Rightarrow> ptr \<times> rt" where
  "new_obj env s = (if malloc_fails env (tick s) then (NULL, next_tick s) else (tick s, next_tick s))"

text \<open>A call into HSA: when it fails, the \<open>check\<close> macro exits.\<close>

definition hsa_call :: "env \<Rightarrow> rt \<Rightarrow> rt outcome" where
  "hsa_call env s = (if hsa_fails env (tick s) then Abort else Ret (next_tick s))"

definition on_ram :: "(memory \<Rightarrow> memory outcome) \<Rightarrow> rt \<Rightarrow> rt outcome" where
  "on_ram f s = obind (f (ram s)) (\<lambda>m. Ret (s\<lparr>ram := m\<rparr>))"

section \<open>Reference counts\<close>

text \<open>The counter is an \<open>int\<close>; its overflow is undefined.\<close>

definition incr :: "int \<Rightarrow> int outcome" where
  "incr n = (if n = 2 ^ 31 - 1 then Undef else Ret (n + 1))"

definition decr :: "int \<Rightarrow> int outcome" where
  "decr n = (if n = - (2 ^ 31) then Undef else Ret (n - 1))"

text \<open>The macros work on any object type: \<open>cnt\<close> reads the counter field and \<open>upd\<close> changes it. The
  lock makes each of them atomic.\<close>

definition POCL_RETAIN_OBJECT ::
  "('o \<Rightarrow> int) \<Rightarrow> ((int \<Rightarrow> int) \<Rightarrow> 'o \<Rightarrow> 'o) \<Rightarrow> (ptr \<Rightarrow> 'o option) \<Rightarrow> ptr \<Rightarrow> (ptr \<Rightarrow> 'o option) outcome" where
  "POCL_RETAIN_OBJECT cnt upd st p =
     obind (deref (st p)) (\<lambda>ob. obind (incr (cnt ob)) (\<lambda>n. Ret (st(p \<mapsto> upd (\<lambda>_. n) ob))))"

definition POCL_RELEASE_OBJECT ::
  "('o \<Rightarrow> int) \<Rightarrow> ((int \<Rightarrow> int) \<Rightarrow> 'o \<Rightarrow> 'o) \<Rightarrow> (ptr \<Rightarrow> 'o option) \<Rightarrow> ptr \<Rightarrow> (int \<times> (ptr \<Rightarrow> 'o option)) outcome" where
  "POCL_RELEASE_OBJECT cnt upd st p =
     obind (deref (st p)) (\<lambda>ob. obind (decr (cnt ob)) (\<lambda>n. Ret (n, st(p \<mapsto> upd (\<lambda>_. n) ob))))"

definition retain_mem :: "ptr \<Rightarrow> rt \<Rightarrow> rt outcome" where
  "retain_mem p s = obind (POCL_RETAIN_OBJECT m_refcount m_refcount_update (mems s) p) (\<lambda>st. Ret (s\<lparr>mems := st\<rparr>))"

definition release_mem :: "ptr \<Rightarrow> rt \<Rightarrow> (int \<times> rt) outcome" where
  "release_mem p s = obind (POCL_RELEASE_OBJECT m_refcount m_refcount_update (mems s) p) (\<lambda>(n, st). Ret (n, s\<lparr>mems := st\<rparr>))"

definition retain_context :: "ptr \<Rightarrow> rt \<Rightarrow> rt outcome" where
  "retain_context p s = obind (POCL_RETAIN_OBJECT ctx_refcount ctx_refcount_update (contexts s) p) (\<lambda>st. Ret (s\<lparr>contexts := st\<rparr>))"

definition release_context :: "ptr \<Rightarrow> rt \<Rightarrow> (int \<times> rt) outcome" where
  "release_context p s = obind (POCL_RELEASE_OBJECT ctx_refcount ctx_refcount_update (contexts s) p) (\<lambda>(n, st). Ret (n, s\<lparr>contexts := st\<rparr>))"

definition retain_queue :: "ptr \<Rightarrow> rt \<Rightarrow> rt outcome" where
  "retain_queue p s = obind (POCL_RETAIN_OBJECT q_refcount q_refcount_update (queues s) p) (\<lambda>st. Ret (s\<lparr>queues := st\<rparr>))"

definition release_queue :: "ptr \<Rightarrow> rt \<Rightarrow> (int \<times> rt) outcome" where
  "release_queue p s = obind (POCL_RELEASE_OBJECT q_refcount q_refcount_update (queues s) p) (\<lambda>(n, st). Ret (n, s\<lparr>queues := st\<rparr>))"

definition retain_event :: "ptr \<Rightarrow> rt \<Rightarrow> rt outcome" where
  "retain_event p s = obind (POCL_RETAIN_OBJECT e_refcount e_refcount_update (events s) p) (\<lambda>st. Ret (s\<lparr>events := st\<rparr>))"

definition release_event :: "ptr \<Rightarrow> rt \<Rightarrow> (int \<times> rt) outcome" where
  "release_event p s = obind (POCL_RELEASE_OBJECT e_refcount e_refcount_update (events s) p) (\<lambda>(n, st). Ret (n, s\<lparr>events := st\<rparr>))"

definition retain_device :: "ptr \<Rightarrow> rt \<Rightarrow> rt outcome" where
  "retain_device p s = obind (POCL_RETAIN_OBJECT dev_refcount dev_refcount_update (devices s) p) (\<lambda>st. Ret (s\<lparr>devices := st\<rparr>))"

definition release_device :: "ptr \<Rightarrow> rt \<Rightarrow> (int \<times> rt) outcome" where
  "release_device p s = obind (POCL_RELEASE_OBJECT dev_refcount dev_refcount_update (devices s) p) (\<lambda>(n, st). Ret (n, s\<lparr>devices := st\<rparr>))"

definition retain_kernel :: "ptr \<Rightarrow> rt \<Rightarrow> rt outcome" where
  "retain_kernel p s = obind (POCL_RETAIN_OBJECT k_refcount k_refcount_update (kernels s) p) (\<lambda>st. Ret (s\<lparr>kernels := st\<rparr>))"

definition release_kernel :: "ptr \<Rightarrow> rt \<Rightarrow> (int \<times> rt) outcome" where
  "release_kernel p s = obind (POCL_RELEASE_OBJECT k_refcount k_refcount_update (kernels s) p) (\<lambda>(n, st). Ret (n, s\<lparr>kernels := st\<rparr>))"

definition retain_program :: "ptr \<Rightarrow> rt \<Rightarrow> rt outcome" where
  "retain_program p s = obind (POCL_RETAIN_OBJECT p_refcount p_refcount_update (programs s) p) (\<lambda>st. Ret (s\<lparr>programs := st\<rparr>))"

definition release_program :: "ptr \<Rightarrow> rt \<Rightarrow> (int \<times> rt) outcome" where
  "release_program p s = obind (POCL_RELEASE_OBJECT p_refcount p_refcount_update (programs s) p) (\<lambda>(n, st). Ret (n, s\<lparr>programs := st\<rparr>))"

end
