(* ===== verification/Objects.thy ===== *)
theory Objects
  imports Runtime
begin

text \<open>
  Object life cycles: the reference counting contract as a locale, interpreted on every object
  type, and the \<open>clRetain*\<close> and \<open>clRelease*\<close> entry points that do not touch a command queue.
\<close>

section \<open>The reference counting contract\<close>

locale refcounted =
  fixes cnt :: "'o \<Rightarrow> int" and upd :: "(int \<Rightarrow> int) \<Rightarrow> 'o \<Rightarrow> 'o"
  assumes cnt_upd [simp]: "cnt (upd f ob) = f (cnt ob)"
    and upd_upd: "upd f (upd g ob) = upd (f \<circ> g) ob"
    and upd_cnt [simp]: "upd (\<lambda>_. cnt ob) ob = ob"
begin

lemma retain_Ret_iff:
  "POCL_RETAIN_OBJECT cnt upd st p = Ret st' \<longleftrightarrow>
     (\<exists>ob. st p = Some ob \<and> cnt ob \<noteq> 2 ^ 31 - 1 \<and> st' = st(p \<mapsto> upd (\<lambda>_. cnt ob + 1) ob))"
  by (auto simp: POCL_RETAIN_OBJECT_def incr_def outcome_simps)

lemma release_Ret_iff:
  "POCL_RELEASE_OBJECT cnt upd st p = Ret (n, st') \<longleftrightarrow>
     (\<exists>ob. st p = Some ob \<and> cnt ob \<noteq> - (2 ^ 31) \<and> n = cnt ob - 1 \<and> st' = st(p \<mapsto> upd (\<lambda>_. cnt ob - 1) ob))"
  by (auto simp: POCL_RELEASE_OBJECT_def decr_def outcome_simps)

text \<open>Retaining and releasing cancel out: the store is as before, and the count the release
  reports is the one from before the retain.\<close>

lemma retain_release:
  assumes "st p = Some ob" "0 < cnt ob" "POCL_RETAIN_OBJECT cnt upd st p = Ret st1"
  shows "POCL_RELEASE_OBJECT cnt upd st1 p = Ret (cnt ob, st)"
  using assms by (auto simp: retain_Ret_iff release_Ret_iff upd_upd comp_def fun_upd_idem)

end

interpretation mem_rc: refcounted m_refcount m_refcount_update by unfold_locales auto
interpretation context_rc: refcounted ctx_refcount ctx_refcount_update by unfold_locales auto
interpretation queue_rc: refcounted q_refcount q_refcount_update by unfold_locales auto
interpretation event_rc: refcounted e_refcount e_refcount_update by unfold_locales auto
interpretation device_rc: refcounted dev_refcount dev_refcount_update by unfold_locales auto
interpretation program_rc: refcounted p_refcount p_refcount_update by unfold_locales auto
interpretation kernel_rc: refcounted k_refcount k_refcount_update by unfold_locales auto

lemmas rc_defs = retain_mem_def release_mem_def retain_context_def release_context_def
  retain_queue_def release_queue_def retain_event_def release_event_def retain_device_def
  release_device_def retain_kernel_def release_kernel_def retain_program_def release_program_def

section \<open>Retaining\<close>

definition clRetainMemObject :: "ptr \<Rightarrow> rt \<Rightarrow> (cl_int \<times> rt) outcome" where
  "clRetainMemObject memobj s = obind (retain_mem memobj s) (\<lambda>s. Ret (CL_SUCCESS, s))"

definition clRetainContext :: "ptr \<Rightarrow> rt \<Rightarrow> (cl_int \<times> rt) outcome" where
  "clRetainContext p s = obind (retain_context p s) (\<lambda>s. Ret (CL_SUCCESS, s))"

definition clRetainCommandQueue :: "ptr \<Rightarrow> rt \<Rightarrow> (cl_int \<times> rt) outcome" where
  "clRetainCommandQueue p s = obind (retain_queue p s) (\<lambda>s. Ret (CL_SUCCESS, s))"

definition clRetainDevice :: "ptr \<Rightarrow> rt \<Rightarrow> (cl_int \<times> rt) outcome" where
  "clRetainDevice p s = obind (retain_device p s) (\<lambda>s. Ret (CL_SUCCESS, s))"

definition clRetainKernel :: "ptr \<Rightarrow> rt \<Rightarrow> (cl_int \<times> rt) outcome" where
  "clRetainKernel p s = obind (retain_kernel p s) (\<lambda>s. Ret (CL_SUCCESS, s))"

definition clRetainProgram :: "ptr \<Rightarrow> rt \<Rightarrow> (cl_int \<times> rt) outcome" where
  "clRetainProgram p s = obind (retain_program p s) (\<lambda>s. Ret (CL_SUCCESS, s))"

definition clRetainEvent :: "ptr \<Rightarrow> rt \<Rightarrow> (cl_int \<times> rt) outcome" where
  "clRetainEvent event s =
     (if event = NULL then Ret (CL_INVALID_EVENT, s)
      else obind (deref (events s event)) (\<lambda>e.
           if e_queue e = NULL then Ret (CL_INVALID_EVENT, s)
           else obind (retain_event event s) (\<lambda>s. Ret (CL_SUCCESS, s))))"

section \<open>Releasing\<close>

definition clReleaseDevice :: "env \<Rightarrow> ptr \<Rightarrow> rt \<Rightarrow> (cl_int \<times> rt) outcome" where
  "clReleaseDevice env device s =
     obind (release_device device s) (\<lambda>(new_refcount, s).
     obind (deref (devices s device)) (\<lambda>dev.
     if has (dev_type dev) CL_DEVICE_TYPE_GPU \<and> isHSAinit dev
     then obind (hsa_call env s) (\<lambda>s.
          Ret (CL_SUCCESS, s\<lparr>devices := (devices s)(device \<mapsto> dev\<lparr>isHSAinit := False\<rparr>)\<rparr>))
     else Ret (CL_SUCCESS, s)))"

definition clReleaseContext :: "env \<Rightarrow> ptr \<Rightarrow> rt \<Rightarrow> (cl_int \<times> rt) outcome" where
  "clReleaseContext env context s =
     obind (deref (contexts s context)) (\<lambda>c.
     if \<not> valid c then Ret (CL_INVALID_CONTEXT, s)
     else obind (release_context context s) (\<lambda>(new_refcount, s).
          if new_refcount = 0
          then obind (oiter (\<lambda>d s. obind (deref d) (\<lambda>dp. obind (clReleaseDevice env dp s) (\<lambda>(_, s). Ret s)))
                        (ctx_devices c) s) (\<lambda>s.
               Ret (CL_SUCCESS, s\<lparr>contexts := (contexts s)(context := None)\<rparr>))
          else Ret (CL_SUCCESS, s)))"

text \<open>The body of the loop over the devices of a memory object's context.\<close>

definition free_on_device :: "env \<Rightarrow> ptr \<Rightarrow> ptr option \<Rightarrow> rt \<Rightarrow> rt outcome" where
  "free_on_device env memobj d s =
     obind (deref d) (\<lambda>device_id.
     obind (deref (devices s device_id)) (\<lambda>dev.
     obind (if has (dev_type dev) CL_DEVICE_TYPE_GPU then hsa_call env s else Ret s) (\<lambda>s.
     obind (deref (mems s memobj)) (\<lambda>m.
     obind (c_nth (device_ptrs m) (dev_id dev)) (\<lambda>dptr.
     obind (on_ram (\<lambda>r. op_free (driver env device_id) r (dev_data dev) (m_flags m) dptr) s) (\<lambda>s.
     Ret (s\<lparr>mems := (mems s)(memobj \<mapsto> m\<lparr>device_ptrs := (device_ptrs m)[dev_id dev := 0]\<rparr>)\<rparr>)))))))"

definition clReleaseMemObject :: "env \<Rightarrow> ptr \<Rightarrow> rt \<Rightarrow> (cl_int \<times> rt) outcome" where
  "clReleaseMemObject env memobj s =
     (if memobj = NULL then Ret (CL_INVALID_MEM_OBJECT, s)
      else obind (release_mem memobj s) (\<lambda>(new_refcount, s).
           if new_refcount = 0
           then obind (deref (mems s memobj)) (\<lambda>m.
                obind (if m_parent m = NULL
                       then obind (deref (contexts s (m_context m))) (\<lambda>c.
                            oiter (free_on_device env memobj) (ctx_devices c) s)
                       else obind (release_mem (m_parent m) s) (\<lambda>(_, s). Ret s)) (\<lambda>s.
                obind (release_context (m_context m) s) (\<lambda>(_, s).
                Ret (CL_SUCCESS,
                  s\<lparr>maps := (\<lambda>p. if p \<in> set (mappings m) then None else maps s p),
                    mems := (mems s)(memobj := None)\<rparr>))))
           else Ret (CL_SUCCESS, s)))"

text \<open>Removing the program's temporary directory touches only the file system.\<close>

definition clReleaseProgram :: "env \<Rightarrow> ptr \<Rightarrow> rt \<Rightarrow> (cl_int \<times> rt) outcome" where
  "clReleaseProgram env program s =
     obind (release_program program s) (\<lambda>(new_refcount, s).
     if new_refcount = 0
     then obind (deref (programs s program)) (\<lambda>p.
          obind (oiter (\<lambda>d s. obind (deref d) (\<lambda>d. obind (deref (devices s d)) (\<lambda>dev.
                   if has (dev_type dev) CL_DEVICE_TYPE_GPU then hsa_call env s else Ret s))) (p_devices p) s) (\<lambda>s.
          obind (oiter (\<lambda>k s. obind (deref (kernels s k)) (\<lambda>kn.
                   Ret (s\<lparr>kernels := (kernels s)(k \<mapsto> kn\<lparr>k_program := NULL\<rparr>)\<rparr>))) (p_kernels p) s) (\<lambda>s.
          obind (release_context (p_context p) s) (\<lambda>(_, s).
          Ret (CL_SUCCESS, s\<lparr>programs := (programs s)(program := None)\<rparr>)))))
     else Ret (CL_SUCCESS, s))"

definition clReleaseKernel :: "env \<Rightarrow> ptr \<Rightarrow> rt \<Rightarrow> (cl_int \<times> rt) outcome" where
  "clReleaseKernel env kern s =
     obind (release_kernel kern s) (\<lambda>(new_refcount, s).
     if new_refcount = 0
     then obind (deref (kernels s kern)) (\<lambda>k.
          if k_program k \<noteq> NULL
          then obind (deref (programs s (k_program k))) (\<lambda>p.
               if kern \<notin> set (p_kernels p) then Ret (CL_INVALID_VALUE, s)
               else obind (clReleaseProgram env (k_program k)
                       (s\<lparr>programs := (programs s)(k_program k \<mapsto> p\<lparr>p_kernels := remove1 kern (p_kernels p)\<rparr>)\<rparr>)) (\<lambda>(_, s).
                    Ret (CL_SUCCESS, s\<lparr>kernels := (kernels s)(kern := None)\<rparr>)))
          else Ret (CL_SUCCESS, s\<lparr>kernels := (kernels s)(kern := None)\<rparr>))
     else Ret (CL_SUCCESS, s))"

end
