(* ===== verification/Queue.thy ===== *)
theory Queue
  imports Objects
begin

text \<open>
  Command queues and events: the event status macros of \<open>pocl\_cl.h\<close>, \<open>clFinish\<close> with the
  execution of every kind of command, \<open>clFlush\<close>, \<open>clWaitForEvents\<close>, the release of queues and
  events, and the \<open>clEnqueue*\<close> functions on buffers.
\<close>

section \<open>Event status\<close>

definition update_event ::
  "(64 word \<Rightarrow> cl_event \<Rightarrow> cl_event) \<Rightarrow> int \<Rightarrow> env \<Rightarrow> ptr \<Rightarrow> ptr \<Rightarrow> rt \<Rightarrow> rt outcome" where
  "update_event stamp st env q event s =
     (if event = NULL then Ret s
      else obind (deref (events s event)) (\<lambda>e.
           obind (deref (queues s q)) (\<lambda>command_queue.
           let e' = e\<lparr>e_status := st\<rparr> in
           if has (q_properties command_queue) CL_QUEUE_PROFILING_ENABLE
           then Ret ((next_tick s)\<lparr>events := (events s)(event \<mapsto> stamp (clock env (tick s)) e')\<rparr>)
           else Ret (s\<lparr>events := (events s)(event \<mapsto> e')\<rparr>))))"

definition POCL_UPDATE_EVENT_QUEUED :: "env \<Rightarrow> ptr \<Rightarrow> ptr \<Rightarrow> rt \<Rightarrow> rt outcome" where
  "POCL_UPDATE_EVENT_QUEUED = update_event (\<lambda>t e. e\<lparr>time_queue := t\<rparr>) CL_QUEUED"

text \<open>The assertions of the other three macros assign the status they mean to test, so that they
  never fail.\<close>

definition POCL_UPDATE_EVENT_SUBMITTED :: "env \<Rightarrow> ptr \<Rightarrow> ptr \<Rightarrow> rt \<Rightarrow> rt outcome" where
  "POCL_UPDATE_EVENT_SUBMITTED = update_event (\<lambda>t e. e\<lparr>time_submit := t\<rparr>) CL_SUBMITTED"

definition POCL_UPDATE_EVENT_RUNNING :: "env \<Rightarrow> ptr \<Rightarrow> ptr \<Rightarrow> rt \<Rightarrow> rt outcome" where
  "POCL_UPDATE_EVENT_RUNNING = update_event (\<lambda>t e. e\<lparr>time_start := t\<rparr>) CL_RUNNING"

definition POCL_UPDATE_EVENT_COMPLETE :: "env \<Rightarrow> ptr \<Rightarrow> ptr \<Rightarrow> rt \<Rightarrow> rt outcome" where
  "POCL_UPDATE_EVENT_COMPLETE = update_event (\<lambda>t e. e\<lparr>time_end := t\<rparr>) CL_COMPLETE"

section \<open>Executing commands\<close>

text \<open>\<open>command\_queue->device->op (...)\<close>.\<close>

definition device_op :: "env \<Rightarrow> ptr \<Rightarrow> (driver_ops \<Rightarrow> memory \<Rightarrow> memory outcome) \<Rightarrow> rt \<Rightarrow> rt outcome" where
  "device_op env q f s =
     obind (deref (queues s q)) (\<lambda>command_queue.
     obind (deref (devices s (q_device command_queue))) (\<lambda>dev.
     on_ram (f (driver env (q_device command_queue))) s))"

definition release_buffer :: "env \<Rightarrow> ptr \<Rightarrow> rt \<Rightarrow> rt outcome" where
  "release_buffer env p s = obind (clReleaseMemObject env p s) (\<lambda>(_, s). Ret s)"

definition pocl_map_mem_cmd :: "env \<Rightarrow> ptr \<Rightarrow> ptr \<Rightarrow> ptr \<Rightarrow> rt \<Rightarrow> (size_t \<times> rt) outcome" where
  "pocl_map_mem_cmd env device buffer mapping_info s =
     obind (deref (devices s device)) (\<lambda>dev.
     obind (deref (mems s buffer)) (\<lambda>m.
     obind (deref (maps s mapping_info)) (\<lambda>mi.
     obind (c_nth (device_ptrs m) (dev_id dev)) (\<lambda>dptr.
     obind (op_map_mem (driver env device) (ram s) dptr (map_offset mi) (map_size mi) (map_host_ptr mi)) (\<lambda>(_, r).
     Ret (map_host_ptr mi,
       s\<lparr>ram := r, mems := (mems s)(buffer \<mapsto> m\<lparr>map_count := map_count m + 1\<rparr>)\<rparr>))))))"

text \<open>The clean-up after a kernel command.\<close>

definition release_run :: "env \<Rightarrow> bool \<Rightarrow> command_run \<Rightarrow> rt \<Rightarrow> rt outcome" where
  "release_run env gpu c s =
     obind (oiter (\<lambda>buf s. if buf = NULL then Ret s else release_buffer env buf s) (arg_buffers c) s) (\<lambda>s.
     obind (deref (kernels s (run_kernel c))) (\<lambda>k.
     if length (run_arguments c) < num_args k + num_locals k then Undef
     else if gpu then Ret s
     else obind (clReleaseKernel env (run_kernel c) s) (\<lambda>(_, s). Ret s)))"

definition exec_command :: "env \<Rightarrow> ptr \<Rightarrow> command_node \<Rightarrow> rt \<Rightarrow> rt outcome" where
  "exec_command env q node s =
     (let event = node_event node in
      case cmd node of
        Cmd_read host_ptr device_ptr cb buffer \<Rightarrow>
          obind (POCL_UPDATE_EVENT_SUBMITTED env q event s) (\<lambda>s.
          obind (POCL_UPDATE_EVENT_RUNNING env q event s) (\<lambda>s.
          obind (device_op env q (\<lambda>ops m. op_read ops m host_ptr device_ptr cb) s) (\<lambda>s.
          obind (POCL_UPDATE_EVENT_COMPLETE env q event s) (release_buffer env buffer))))
      | Cmd_write host_ptr device_ptr cb buffer \<Rightarrow>
          obind (POCL_UPDATE_EVENT_SUBMITTED env q event s) (\<lambda>s.
          obind (POCL_UPDATE_EVENT_RUNNING env q event s) (\<lambda>s.
          obind (device_op env q (\<lambda>ops m. op_write ops m host_ptr device_ptr cb) s) (\<lambda>s.
          obind (POCL_UPDATE_EVENT_COMPLETE env q event s) (release_buffer env buffer))))
      | Cmd_copy src_ptr dst_ptr cb src_buffer dst_buffer \<Rightarrow>
          obind (POCL_UPDATE_EVENT_SUBMITTED env q event s) (\<lambda>s.
          obind (POCL_UPDATE_EVENT_RUNNING env q event s) (\<lambda>s.
          obind (device_op env q (\<lambda>ops m. op_copy ops m src_ptr dst_ptr cb) s) (\<lambda>s.
          obind (POCL_UPDATE_EVENT_COMPLETE env q event s) (\<lambda>s.
          obind (release_buffer env src_buffer s) (release_buffer env dst_buffer)))))
      | Cmd_map buffer mapping \<Rightarrow>
          obind (POCL_UPDATE_EVENT_SUBMITTED env q event s) (\<lambda>s.
          obind (POCL_UPDATE_EVENT_RUNNING env q event s) (\<lambda>s.
          obind (deref (queues s q)) (\<lambda>command_queue.
          obind (pocl_map_mem_cmd env (q_device command_queue) buffer mapping s) (\<lambda>(_, s).
          POCL_UPDATE_EVENT_COMPLETE env q event s))))
      | Cmd_run c \<Rightarrow>
          obind (deref (queues s q)) (\<lambda>command_queue.
          obind (deref (devices s (q_device command_queue))) (\<lambda>dev.
          obind (POCL_UPDATE_EVENT_SUBMITTED env q event s) (\<lambda>s.
          obind (POCL_UPDATE_EVENT_RUNNING env q event s) (\<lambda>s.
          obind (run env (q_device command_queue) node s) (\<lambda>s.
          obind (POCL_UPDATE_EVENT_COMPLETE env q event s)
            (release_run env (has (dev_type dev) CL_DEVICE_TYPE_GPU) c))))))
      | Cmd_marker \<Rightarrow> POCL_UPDATE_EVENT_COMPLETE env q event s
      | Cmd_other \<Rightarrow> Abort)"

definition clFinish :: "env \<Rightarrow> ptr \<Rightarrow> rt \<Rightarrow> (cl_int \<times> rt) outcome" where
  "clFinish env q s =
     obind (deref (queues s q)) (\<lambda>command_queue.
     if has (q_properties command_queue) CL_QUEUE_OUT_OF_ORDER_EXEC_MODE_ENABLE then Abort
     else obind (oiter (exec_command env q) (root command_queue) s) (\<lambda>s.
          obind (deref (queues s q)) (\<lambda>command_queue.
          Ret (CL_SUCCESS, s\<lparr>queues := (queues s)(q \<mapsto> command_queue\<lparr>root := []\<rparr>)\<rparr>))))"

definition clFlush :: "env \<Rightarrow> ptr \<Rightarrow> rt \<Rightarrow> (cl_int \<times> rt) outcome" where
  "clFlush = clFinish"

definition clWaitForEvents :: "env \<Rightarrow> ptr list \<Rightarrow> rt \<Rightarrow> (cl_int \<times> rt) outcome" where
  "clWaitForEvents env event_list s =
     obind (oiter (\<lambda>ev s. obind (deref (events s ev)) (\<lambda>e.
                     obind (clFinish env (e_queue e) s) (\<lambda>(_, s). Ret s))) event_list s) (\<lambda>s.
     Ret (CL_SUCCESS, s))"

section \<open>Releasing queues and events\<close>

text \<open>The queue of a GPU device always has an HSA queue when it is released: \<open>clCreateCommandQueue\<close> ends the process when
  \<open>hsa\_queue\_create\<close> fails, so that the test for NULL in front of \<open>hsa\_queue\_destroy\<close> always succeeds.\<close>

definition clReleaseCommandQueue :: "env \<Rightarrow> ptr \<Rightarrow> rt \<Rightarrow> (cl_int \<times> rt) outcome" where
  "clReleaseCommandQueue env q s =
     obind (clFlush env q s) (\<lambda>(_, s).
     obind (release_queue q s) (\<lambda>(new_refcount, s).
     if new_refcount = 0
     then obind (deref (queues s q)) (\<lambda>command_queue.
          obind (deref (devices s (q_device command_queue))) (\<lambda>dev.
          obind (if has (dev_type dev) CL_DEVICE_TYPE_GPU then hsa_call env s else Ret s) (\<lambda>s.
          Ret (CL_SUCCESS, s\<lparr>queues := (queues s)(q := None)\<rparr>))))
     else Ret (CL_SUCCESS, s)))"

definition clReleaseEvent :: "env \<Rightarrow> ptr \<Rightarrow> rt \<Rightarrow> (cl_int \<times> rt) outcome" where
  "clReleaseEvent env event s =
     (if event = NULL then Ret (CL_INVALID_EVENT, s)
      else obind (deref (events s event)) (\<lambda>e.
      if e_queue e = NULL then Ret (CL_INVALID_EVENT, s)
      else obind (release_event event s) (\<lambda>(new_refcount, s).
      if new_refcount = 0
      then obind (deref (queues s (e_queue e))) (\<lambda>command_queue.
           obind (deref (devices s (q_device command_queue))) (\<lambda>dev.
           obind (if \<not> has (dev_type dev) CL_DEVICE_TYPE_GPU
                  then obind (clReleaseCommandQueue env (e_queue e) s) (\<lambda>(_, s). Ret s)
                  else Ret s) (\<lambda>s.
           Ret (CL_SUCCESS, s\<lparr>events := (events s)(event := None)\<rparr>))))
      else Ret (CL_SUCCESS, s))))"

section \<open>Enqueueing\<close>

text \<open>The event of a new command; NULL if there is no memory for it.\<close>

definition new_event :: "env \<Rightarrow> ptr \<Rightarrow> command_type \<Rightarrow> rt \<Rightarrow> (ptr \<times> rt) outcome" where
  "new_event env q ty s =
     (case new_obj env s of (p, s) \<Rightarrow>
      if p = NULL then Ret (NULL, s)
      else let s = s\<lparr>events := (events s)(p \<mapsto> (raw_event env)\<lparr>e_refcount := 1, e_queue := q, e_type := ty\<rparr>)\<rparr> in
           obind (clRetainCommandQueue q s) (\<lambda>(_, s).
           obind (POCL_UPDATE_EVENT_QUEUED env q p s) (\<lambda>s.
           Ret (p, s))))"

text \<open>\<open>if (event != NULL) \<dots>\<close>: \<open>Inl\<close> is the early return for lack of memory.\<close>

definition event_for :: "env \<Rightarrow> ptr \<Rightarrow> command_type \<Rightarrow> bool \<Rightarrow> rt \<Rightarrow> ((unit + ptr) \<times> rt) outcome" where
  "event_for env q ty want s =
     (if \<not> want then Ret (Inr NULL, s)
      else obind (new_event env q ty s) (\<lambda>(p, s).
           if p = NULL then Ret (Inl (), s) else Ret (Inr p, s)))"

text \<open>A wait list has to be given exactly when it is announced, and holds no NULL.\<close>

definition bad_wait_list :: "nat \<Rightarrow> ptr list option \<Rightarrow> bool" where
  "bad_wait_list num_events_in_wait_list event_wait_list \<longleftrightarrow>
     (num_events_in_wait_list > 0 \<and> event_wait_list = None) \<or>
     (num_events_in_wait_list = 0 \<and> event_wait_list \<noteq> None) \<or>
     (case event_wait_list of None \<Rightarrow> False | Some es \<Rightarrow> NULL \<in> set (take num_events_in_wait_list es))"

text \<open>The index of a device in its context; the number of devices if it is not there.\<close>

definition device_index :: "cl_context \<Rightarrow> ptr \<Rightarrow> nat" where
  "device_index c d = length (takeWhile (\<lambda>x. x \<noteq> Some d) (ctx_devices c))"

text \<open>\<open>LL\_APPEND(command\_queue->root, cmd)\<close>.\<close>

definition append_command :: "ptr \<Rightarrow> command_node \<Rightarrow> rt \<Rightarrow> rt outcome" where
  "append_command q node s =
     obind (deref (queues s q)) (\<lambda>command_queue.
     Ret (s\<lparr>queues := (queues s)(q \<mapsto> command_queue\<lparr>root := root command_queue @ [node]\<rparr>)\<rparr>))"

text \<open>The argument checks \<open>clEnqueueReadBuffer\<close> and \<open>clEnqueueWriteBuffer\<close> share.\<close>

definition transfer_checks :: "ptr \<Rightarrow> ptr \<Rightarrow> size_t \<Rightarrow> size_t \<Rightarrow> size_t \<Rightarrow> nat \<Rightarrow> ptr list option \<Rightarrow> rt \<Rightarrow> cl_int outcome" where
  "transfer_checks q buffer offset cb ptr n_wait wait s =
     (if q = NULL then Ret CL_INVALID_COMMAND_QUEUE
      else if buffer = NULL then Ret CL_INVALID_MEM_OBJECT
      else obind (deref (queues s q)) (\<lambda>command_queue.
           obind (deref (mems s buffer)) (\<lambda>m.
           if q_context command_queue \<noteq> m_context m then Ret CL_INVALID_CONTEXT
           else if ptr = 0 \<or> offset + cb > m_size m then Ret CL_INVALID_VALUE
           else if bad_wait_list n_wait wait then Ret CL_INVALID_EVENT_WAIT_LIST
           else obind (deref (contexts s (q_context command_queue))) (\<lambda>c.
                obind (c_assert (device_index c (q_device command_queue) < length (ctx_devices c))) (\<lambda>_.
                Ret CL_SUCCESS)))))"

text \<open>The blocking branch: everything queued before is finished first, then the device
  transfers the bytes.\<close>

definition transfer_now ::
  "env \<Rightarrow> ptr \<Rightarrow> ptr \<Rightarrow> size_t \<Rightarrow> ptr \<Rightarrow> (driver_ops \<Rightarrow> size_t \<Rightarrow> memory \<Rightarrow> memory outcome) \<Rightarrow> rt \<Rightarrow> rt outcome" where
  "transfer_now env q buffer offset event f s =
     obind (deref (queues s q)) (\<lambda>command_queue.
     if has (q_properties command_queue) CL_QUEUE_OUT_OF_ORDER_EXEC_MODE_ENABLE then Abort
     else obind (clRetainMemObject buffer s) (\<lambda>(_, s).
          obind (clFinish env q s) (\<lambda>(_, s).
          obind (POCL_UPDATE_EVENT_SUBMITTED env q event s) (\<lambda>s.
          obind (POCL_UPDATE_EVENT_RUNNING env q event s) (\<lambda>s.
          obind (deref (devices s (q_device command_queue))) (\<lambda>dev.
          obind (deref (mems s buffer)) (\<lambda>m.
          obind (c_nth (device_ptrs m) (dev_id dev)) (\<lambda>dptr.
          obind (on_ram (f (driver env (q_device command_queue)) (dptr + offset)) s) (\<lambda>s.
          obind (POCL_UPDATE_EVENT_COMPLETE env q event s) (release_buffer env buffer))))))))))"

definition clEnqueueReadBuffer ::
  "env \<Rightarrow> ptr \<Rightarrow> ptr \<Rightarrow> bool \<Rightarrow> size_t \<Rightarrow> size_t \<Rightarrow> size_t \<Rightarrow> nat \<Rightarrow> ptr list option \<Rightarrow> bool \<Rightarrow> rt \<Rightarrow>
     (cl_int \<times> ptr \<times> rt) outcome" where
  "clEnqueueReadBuffer env q buffer blocking_read offset cb ptr n_wait wait want s =
     obind (transfer_checks q buffer offset cb ptr n_wait wait s) (\<lambda>code.
     if code \<noteq> CL_SUCCESS then Ret (code, NULL, s)
     else obind (event_for env q CL_COMMAND_READ_BUFFER want s) (\<lambda>(ev, s).
     case ev of Inl _ \<Rightarrow> Ret (CL_OUT_OF_HOST_MEMORY, NULL, s)
     | Inr event \<Rightarrow>
         if blocking_read
         then obind (transfer_now env q buffer offset event (\<lambda>ops dptr m. op_read ops m ptr dptr cb) s) (\<lambda>s.
              Ret (CL_SUCCESS, event, s))
         else case new_obj env s of (cmd_ptr, s) \<Rightarrow>
              if cmd_ptr = NULL then Ret (CL_OUT_OF_HOST_MEMORY, event, s)
              else obind (deref (queues s q)) (\<lambda>command_queue.
                   obind (deref (devices s (q_device command_queue))) (\<lambda>dev.
                   obind (deref (mems s buffer)) (\<lambda>m.
                   obind (c_nth (device_ptrs m) (dev_id dev)) (\<lambda>dptr.
                   obind (clRetainMemObject buffer s) (\<lambda>(_, s).
                   obind (append_command q \<lparr>cmd = Cmd_read ptr (dptr + offset) cb buffer, node_event = event\<rparr> s) (\<lambda>s.
                   Ret (CL_SUCCESS, event, s)))))))))"

text \<open>The queued write takes its device pointer at the device's index in the context, not at its
  \<open>dev\_id\<close>.\<close>

definition clEnqueueWriteBuffer ::
  "env \<Rightarrow> ptr \<Rightarrow> ptr \<Rightarrow> bool \<Rightarrow> size_t \<Rightarrow> size_t \<Rightarrow> size_t \<Rightarrow> nat \<Rightarrow> ptr list option \<Rightarrow> bool \<Rightarrow> rt \<Rightarrow>
     (cl_int \<times> ptr \<times> rt) outcome" where
  "clEnqueueWriteBuffer env q buffer blocking_write offset cb ptr n_wait wait want s =
     obind (transfer_checks q buffer offset cb ptr n_wait wait s) (\<lambda>code.
     if code \<noteq> CL_SUCCESS then Ret (code, NULL, s)
     else obind (event_for env q CL_COMMAND_WRITE_BUFFER want s) (\<lambda>(ev, s).
     case ev of Inl _ \<Rightarrow> Ret (CL_OUT_OF_HOST_MEMORY, NULL, s)
     | Inr event \<Rightarrow>
         if blocking_write
         then obind (transfer_now env q buffer offset event (\<lambda>ops dptr m. op_write ops m ptr dptr cb) s) (\<lambda>s.
              Ret (CL_SUCCESS, event, s))
         else case new_obj env s of (cmd_ptr, s) \<Rightarrow>
              if cmd_ptr = NULL then Ret (CL_OUT_OF_HOST_MEMORY, event, s)
              else obind (deref (queues s q)) (\<lambda>command_queue.
                   obind (deref (contexts s (q_context command_queue))) (\<lambda>c.
                   obind (deref (mems s buffer)) (\<lambda>m.
                   obind (c_nth (device_ptrs m) (device_index c (q_device command_queue))) (\<lambda>dptr.
                   obind (clRetainMemObject buffer s) (\<lambda>(_, s).
                   obind (append_command q \<lparr>cmd = Cmd_write ptr (dptr + offset) cb buffer, node_event = event\<rparr> s) (\<lambda>s.
                   Ret (CL_SUCCESS, event, s)))))))))"

definition clEnqueueCopyBuffer ::
  "env \<Rightarrow> ptr \<Rightarrow> ptr \<Rightarrow> ptr \<Rightarrow> size_t \<Rightarrow> size_t \<Rightarrow> size_t \<Rightarrow> bool \<Rightarrow> rt \<Rightarrow> (cl_int \<times> ptr \<times> rt) outcome" where
  "clEnqueueCopyBuffer env q src_buffer dst_buffer src_offset dst_offset cb want s =
     (if q = NULL then Ret (CL_INVALID_COMMAND_QUEUE, NULL, s)
      else if src_buffer = NULL \<or> dst_buffer = NULL then Ret (CL_INVALID_MEM_OBJECT, NULL, s)
      else obind (deref (queues s q)) (\<lambda>command_queue.
           obind (deref (mems s src_buffer)) (\<lambda>sm.
           obind (deref (mems s dst_buffer)) (\<lambda>dm.
           if q_context command_queue \<noteq> m_context sm \<or> q_context command_queue \<noteq> m_context dm
           then Ret (CL_INVALID_CONTEXT, NULL, s)
           else if src_offset + cb > m_size sm \<or> dst_offset + cb > m_size dm
           then Ret (CL_INVALID_VALUE, NULL, s)
           else obind (deref (contexts s (q_context command_queue))) (\<lambda>c.
                obind (c_assert (device_index c (q_device command_queue) < length (ctx_devices c))) (\<lambda>_.
                obind (event_for env q CL_COMMAND_COPY_BUFFER want s) (\<lambda>(ev, s).
                case ev of Inl _ \<Rightarrow> Ret (CL_OUT_OF_HOST_MEMORY, NULL, s)
                | Inr event \<Rightarrow>
                    case new_obj env s of (cmd_ptr, s) \<Rightarrow>
                    if cmd_ptr = NULL then Ret (CL_OUT_OF_HOST_MEMORY, event, s)
                    else obind (clRetainMemObject src_buffer s) (\<lambda>(_, s).
                         obind (clRetainMemObject dst_buffer s) (\<lambda>(_, s).
                         obind (deref (devices s (q_device command_queue))) (\<lambda>dev.
                         obind (c_nth (device_ptrs sm) (dev_id dev)) (\<lambda>sp.
                         obind (c_nth (device_ptrs dm) (dev_id dev)) (\<lambda>dp.
                         obind (append_command q \<lparr>cmd = Cmd_copy (sp + src_offset) (dp + dst_offset) cb src_buffer dst_buffer,
                                                  node_event = event\<rparr> s) (\<lambda>s.
                         Ret (CL_SUCCESS, event, s))))))))))))))"

definition clEnqueueMarker :: "env \<Rightarrow> ptr \<Rightarrow> bool \<Rightarrow> rt \<Rightarrow> (cl_int \<times> ptr \<times> rt) outcome" where
  "clEnqueueMarker env q want s =
     (if q = NULL then Ret (CL_INVALID_COMMAND_QUEUE, NULL, s)
      else if \<not> want then Ret (CL_INVALID_VALUE, NULL, s)
      else obind (new_event env q CL_COMMAND_MARKER s) (\<lambda>(event, s).
           if event = NULL then Ret (CL_OUT_OF_HOST_MEMORY, NULL, s)
           else case new_obj env s of (cmd_ptr, s) \<Rightarrow>
                if cmd_ptr = NULL then Ret (CL_OUT_OF_HOST_MEMORY, event, s)
                else obind (append_command q \<lparr>cmd = Cmd_marker, node_event = event\<rparr> s) (\<lambda>s.
                     Ret (CL_SUCCESS, event, s))))"

definition clEnqueueBarrier :: "ptr \<Rightarrow> rt \<Rightarrow> (cl_int \<times> rt) outcome" where
  "clEnqueueBarrier q s = Abort"

text \<open>\<open>(!offset\%pattern\_size)||!(cb\%pattern\_size)\<close>: \<open>!offset\<close> is 0 or 1.\<close>

definition fill_args_rejected :: "size_t \<Rightarrow> size_t \<Rightarrow> size_t \<Rightarrow> bool" where
  "fill_args_rejected pattern_size offset cb \<longleftrightarrow>
     (if offset = 0 then 1 else 0) mod pattern_size \<noteq> 0 \<or> cb mod pattern_size = 0"

definition clEnqueueFillBuffer ::
  "env \<Rightarrow> ptr \<Rightarrow> ptr \<Rightarrow> byte list option \<Rightarrow> size_t \<Rightarrow> size_t \<Rightarrow> size_t \<Rightarrow> nat \<Rightarrow> ptr list option \<Rightarrow> bool \<Rightarrow> rt \<Rightarrow>
     (cl_int \<times> ptr \<times> rt) outcome" where
  "clEnqueueFillBuffer env q buffer pattern pattern_size offset cb n_wait wait want s =
     (if q = NULL then Ret (CL_INVALID_COMMAND_QUEUE, NULL, s)
      else if buffer = NULL then Ret (CL_INVALID_MEM_OBJECT, NULL, s)
      else obind (deref (queues s q)) (\<lambda>command_queue.
           obind (deref (mems s buffer)) (\<lambda>m.
           if q_context command_queue \<noteq> m_context m then Ret (CL_INVALID_CONTEXT, NULL, s)
           else if pattern = None \<or> offset + cb > m_size m then Ret (CL_INVALID_VALUE, NULL, s)
           else if (pattern_size - 1) AND pattern_size \<noteq> 0 \<or> pattern_size > 128 \<or> pattern_size < 1
           then Ret (CL_INVALID_VALUE, NULL, s)
           else if fill_args_rejected pattern_size offset cb then Ret (CL_INVALID_VALUE, NULL, s)
           else if bad_wait_list n_wait wait then Ret (CL_INVALID_EVENT_WAIT_LIST, NULL, s)
           else obind (deref (contexts s (q_context command_queue))) (\<lambda>c.
                obind (c_assert (device_index c (q_device command_queue) < length (ctx_devices c))) (\<lambda>_.
                obind (event_for env q CL_COMMAND_READ_BUFFER want s) (\<lambda>(ev, s).
                case ev of Inl _ \<Rightarrow> Ret (CL_OUT_OF_HOST_MEMORY, NULL, s)
                | Inr event \<Rightarrow>
                    obind (transfer_now env q buffer offset event
                       (\<lambda>ops dptr m. obind (deref (op_fill ops)) (\<lambda>fill. fill m (the pattern) dptr cb)) s) (\<lambda>s.
                    Ret (CL_SUCCESS, event, s))))))))"

section \<open>Mapping\<close>

definition CL_MAP_READ :: cl_bitfield where "CL_MAP_READ = 1"
definition CL_MAP_WRITE :: cl_bitfield where "CL_MAP_WRITE = 2"
definition CL_MAP_WRITE_INVALIDATE_REGION :: cl_bitfield where "CL_MAP_WRITE_INVALIDATE_REGION = 4"

text \<open>The result is what is written to \<open>*errcode\_ret\<close>, the returned pointer, the event and the new
  state. When there is no memory for the event, the error code itself (-6) is returned as the
  pointer and \<open>*errcode\_ret\<close> is not written. \<open>blocking_map\<close> stands for \<open>CL\_TRUE\<close> and \<open>CL\_FALSE\<close>; the code takes any
  other value for \<open>CL\_FALSE\<close>.\<close>

definition clEnqueueMapBuffer ::
  "env \<Rightarrow> ptr \<Rightarrow> ptr \<Rightarrow> bool \<Rightarrow> cl_bitfield \<Rightarrow> size_t \<Rightarrow> size_t \<Rightarrow> bool \<Rightarrow> rt \<Rightarrow> (cl_int option \<times> size_t \<times> ptr \<times> rt) outcome" where
  "clEnqueueMapBuffer env q buffer blocking_map map_flags offset sz want s =
     (if buffer = NULL then Ret (Some CL_INVALID_MEM_OBJECT, 0, NULL, s)
      else if q = NULL then Ret (Some CL_INVALID_COMMAND_QUEUE, 0, NULL, s)
      else obind (deref (queues s q)) (\<lambda>command_queue.
      if q_device command_queue = NULL \<or> q_context command_queue = NULL
      then Ret (Some CL_INVALID_COMMAND_QUEUE, 0, NULL, s)
      else obind (deref (mems s buffer)) (\<lambda>m.
      if q_context command_queue \<noteq> m_context m then Ret (Some CL_INVALID_CONTEXT, 0, NULL, s)
      else if offset + sz > m_size m then Ret (Some CL_INVALID_VALUE, 0, NULL, s)
      else if has (m_flags m) (CL_MEM_HOST_WRITE_ONLY OR CL_MEM_HOST_NO_ACCESS) \<and> has map_flags CL_MAP_READ
      then Ret (Some CL_INVALID_OPERATION, 0, NULL, s)
      else if has (m_flags m) (CL_MEM_HOST_READ_ONLY OR CL_MEM_HOST_NO_ACCESS) \<and>
              has map_flags (CL_MAP_WRITE OR CL_MAP_WRITE_INVALIDATE_REGION)
      then Ret (Some CL_INVALID_OPERATION, 0, NULL, s)
      else obind (clRetainMemObject buffer s) (\<lambda>(_, s).
      obind (event_for env q CL_COMMAND_MAP_BUFFER want s) (\<lambda>(ev, s).
      case ev of Inl _ \<Rightarrow> Ret (None, -6, NULL, s)
      | Inr event \<Rightarrow>
          case new_obj env s of (mapping_info, s) \<Rightarrow>
          if mapping_info = NULL then Ret (Some CL_OUT_OF_HOST_MEMORY, 0, event, s)
          else
          obind (deref (devices s (q_device command_queue))) (\<lambda>dev.
          obind (if has (m_flags m) CL_MEM_USE_HOST_PTR
                 then obind (c_assert (mem_host_ptr m \<noteq> 0)) (\<lambda>_. Ret (mem_host_ptr m + offset, ram s))
                 else obind (c_nth (device_ptrs m) (dev_id dev)) (\<lambda>dptr.
                      op_map_mem (driver env (q_device command_queue)) (ram s) dptr offset sz 0)) (\<lambda>(host_ptr, r).
          let s = s\<lparr>ram := r\<rparr> in
          if host_ptr = 0
          then obind (POCL_UPDATE_EVENT_COMPLETE env q event s) (\<lambda>s. Ret (Some CL_MAP_FAILURE, 0, event, s))
          else
          obind (deref (mems s buffer)) (\<lambda>m.
          let s = s\<lparr>maps := (maps s)(mapping_info \<mapsto> \<lparr>map_host_ptr = host_ptr, map_offset = offset, map_size = sz\<rparr>),
                    mems := (mems s)(buffer \<mapsto> m\<lparr>mappings := mappings m @ [mapping_info]\<rparr>)\<rparr> in
          if \<not> blocking_map
          then case new_obj env s of (cmd_ptr, s) \<Rightarrow>
               if cmd_ptr = NULL then Ret (Some CL_OUT_OF_HOST_MEMORY, 0, event, s)
               else obind (append_command q \<lparr>cmd = Cmd_map buffer mapping_info, node_event = event\<rparr> s) (\<lambda>s.
                    Ret (Some CL_SUCCESS, host_ptr, event, s))
          else
          obind (clFinish env q s) (\<lambda>(_, s).
          obind (POCL_UPDATE_EVENT_SUBMITTED env q event s) (\<lambda>s.
          obind (POCL_UPDATE_EVENT_RUNNING env q event s) (\<lambda>s.
          obind (pocl_map_mem_cmd env (q_device command_queue) buffer mapping_info s) (\<lambda>(host_ptr, s).
          obind (POCL_UPDATE_EVENT_COMPLETE env q event s) (\<lambda>s.
          if host_ptr = 0
          then obind (POCL_UPDATE_EVENT_COMPLETE env q event s) (\<lambda>s. Ret (Some CL_MAP_FAILURE, 0, event, s))
          else Ret (Some CL_SUCCESS, host_ptr, event, s))))))))))))))"

text \<open>The search for a mapping by its address; NULL if there is none.\<close>

fun find_mapping :: "(ptr \<Rightarrow> mem_mapping option) \<Rightarrow> size_t \<Rightarrow> ptr list \<Rightarrow> ptr outcome" where
  "find_mapping st addr [] = Ret NULL"
| "find_mapping st addr (p # ps) =
     obind (deref (st p)) (\<lambda>mi. if map_host_ptr mi = addr then Ret p else find_mapping st addr ps)"

text \<open>The mapping record is taken off the buffer's list but not freed.\<close>

definition clEnqueueUnmapMemObject ::
  "env \<Rightarrow> ptr \<Rightarrow> ptr \<Rightarrow> size_t \<Rightarrow> bool \<Rightarrow> rt \<Rightarrow> (cl_int \<times> ptr \<times> rt) outcome" where
  "clEnqueueUnmapMemObject env q memobj mapped_ptr want s =
     (if memobj = NULL then Ret (CL_INVALID_MEM_OBJECT, NULL, s)
      else if q = NULL then Ret (CL_INVALID_COMMAND_QUEUE, NULL, s)
      else obind (deref (queues s q)) (\<lambda>command_queue.
      if q_device command_queue = NULL \<or> q_context command_queue = NULL
      then Ret (CL_INVALID_COMMAND_QUEUE, NULL, s)
      else obind (deref (mems s memobj)) (\<lambda>m.
      if q_context command_queue \<noteq> m_context m then Ret (CL_INVALID_CONTEXT, NULL, s)
      else obind (find_mapping (maps s) mapped_ptr (mappings m)) (\<lambda>mapping.
        if mapping = NULL then Ret (CL_INVALID_VALUE, NULL, s)
        else
          obind (deref (contexts s (q_context command_queue))) (\<lambda>c.
          obind (c_assert (device_index c (q_device command_queue) < length (ctx_devices c))) (\<lambda>_.
          obind (event_for env q CL_COMMAND_UNMAP_MEM_OBJECT want s) (\<lambda>(ev, s).
          case ev of Inl _ \<Rightarrow> Ret (CL_OUT_OF_HOST_MEMORY, NULL, s)
          | Inr event \<Rightarrow>
              obind (POCL_UPDATE_EVENT_SUBMITTED env q event s) (\<lambda>s.
              obind (POCL_UPDATE_EVENT_RUNNING env q event s) (\<lambda>s.
              obind (deref (devices s (q_device command_queue))) (\<lambda>dev.
              obind (deref (maps s mapping)) (\<lambda>mi.
              obind (if has (m_flags m) (CL_MEM_USE_HOST_PTR OR CL_MEM_ALLOC_HOST_PTR) then Ret s
                     else case op_unmap_mem (driver env (q_device command_queue)) of
                            None \<Rightarrow> Ret s
                          | Some unmap \<Rightarrow>
                              obind (c_nth (device_ptrs m) (dev_id dev)) (\<lambda>dptr.
                              on_ram (\<lambda>r. unmap r (map_host_ptr mi) (dptr + map_offset mi) (map_size mi)) s)) (\<lambda>s.
              obind (POCL_UPDATE_EVENT_COMPLETE env q event s) (\<lambda>s.
              obind (deref (mems s memobj)) (\<lambda>m.
              obind (release_buffer env memobj
                  (s\<lparr>mems := (mems s)(memobj \<mapsto> m\<lparr>mappings := remove1 mapping (mappings m),
                                                   map_count := map_count m - 1\<rparr>)\<rparr>)) (\<lambda>s.
              Ret (CL_SUCCESS, event, s))))))))))))))))"

end
