(* ===== verification/Queue_Proofs.thy ===== *)
theory Queue_Proofs
  imports Queue
begin

text \<open>
  Correctness of command execution. The abstract specification of a queue is a list of memory
  transformers: \<open>exec\_mem\<close> applies them in order. \<open>clFinish\<close> implements it, completes the event of
  every command and returns exactly the references the commands held.
\<close>

section \<open>The specification of a command list\<close>

fun exec_mem :: "driver_ops \<Rightarrow> command list \<Rightarrow> memory \<Rightarrow> memory outcome" where
  "exec_mem ops [] m = Ret m"
| "exec_mem ops (c # cs) m =
     obind (case c of
              Cmd_read h d cb b \<Rightarrow> op_read ops m h d cb
            | Cmd_write h d cb b \<Rightarrow> op_write ops m h d cb
            | Cmd_copy sp dp cb a b \<Rightarrow> op_copy ops m sp dp cb
            | _ \<Rightarrow> Ret m) (exec_mem ops cs)"

text \<open>The references to a memory object and the mappings of it a command stands for.\<close>

fun refs_cmd :: "ptr \<Rightarrow> command \<Rightarrow> nat" where
  "refs_cmd p (Cmd_read h d cb b) = (if b = p then 1 else 0)"
| "refs_cmd p (Cmd_write h d cb b) = (if b = p then 1 else 0)"
| "refs_cmd p (Cmd_copy sp dp cb a b) = (if a = p then 1 else 0) + (if b = p then 1 else 0)"
| "refs_cmd p _ = 0"

fun maps_cmd :: "ptr \<Rightarrow> command \<Rightarrow> nat" where
  "maps_cmd p (Cmd_map b i) = (if b = p then 1 else 0)"
| "maps_cmd p _ = 0"

definition refs :: "command list \<Rightarrow> ptr \<Rightarrow> nat" where
  "refs cs p = sum_list (map (refs_cmd p) cs)"

definition maps_of :: "command list \<Rightarrow> ptr \<Rightarrow> nat" where
  "maps_of cs p = sum_list (map (maps_cmd p) cs)"

lemma refs_Cons [simp]: "refs (c # cs) p = refs_cmd p c + refs cs p" "refs [] p = 0"
  by (simp_all add: refs_def)

lemma maps_of_Cons [simp]: "maps_of (c # cs) p = maps_cmd p c + maps_of cs p" "maps_of [] p = 0"
  by (simp_all add: maps_of_def)

text \<open>The memory objects after the commands have given their references back.\<close>

definition settle :: "command list \<Rightarrow> (ptr \<Rightarrow> cl_mem option) \<Rightarrow> ptr \<Rightarrow> cl_mem option" where
  "settle cs st = (\<lambda>p. map_option (\<lambda>m. m\<lparr>m_refcount := m_refcount m - int (refs cs p),
                                         map_count := map_count m + of_nat (maps_of cs p)\<rparr>) (st p))"

lemma settle_Nil [simp]: "settle [] st = st"
proof
  fix p show "settle [] st p = st p" by (cases "st p") (simp_all add: settle_def)
qed

lemma settle_Cons: "settle cs (settle [c] st) = settle (c # cs) st"
proof
  fix p show "settle cs (settle [c] st) p = settle (c # cs) st p"
    by (cases "st p") (simp_all add: settle_def algebra_simps)
qed

section \<open>Events\<close>

text \<open>All objects but events and memory objects are as they were.\<close>

definition same_objs :: "rt \<Rightarrow> rt \<Rightarrow> bool" where
  "same_objs s s' \<longleftrightarrow> queues s' = queues s \<and> devices s' = devices s \<and> contexts s' = contexts s \<and>
     maps s' = maps s \<and> programs s' = programs s \<and> kernels s' = kernels s \<and>
     pocl_num_devices s' = pocl_num_devices s \<and> tick s \<le> tick s'"

text \<open>Only the event \<open>e\<close> has changed, and it has status \<open>st\<close>.\<close>

definition event_set :: "ptr \<Rightarrow> int \<Rightarrow> rt \<Rightarrow> rt \<Rightarrow> bool" where
  "event_set e st s s' \<longleftrightarrow>
     (\<forall>x. x \<noteq> e \<longrightarrow> events s' x = events s x) \<and>
     (if e = NULL then events s' = events s
      else \<exists>ev ev'. events s e = Some ev \<and> events s' e = Some ev' \<and> e_status ev' = st \<and>
             e_refcount ev' = e_refcount ev \<and> e_queue ev' = e_queue ev \<and> e_type ev' = e_type ev)"

definition event_moved :: "ptr \<Rightarrow> int \<Rightarrow> rt \<Rightarrow> rt \<Rightarrow> bool" where
  "event_moved e st s s' \<longleftrightarrow> same_objs s s' \<and> mems s' = mems s \<and> ram s' = ram s \<and> event_set e st s s'"

definition event_live :: "ptr \<Rightarrow> rt \<Rightarrow> bool" where
  "event_live e s \<longleftrightarrow> e = NULL \<or> events s e \<noteq> None"

lemma same_objs_refl [simp]: "same_objs s s"
  by (simp add: same_objs_def)

lemma same_objs_trans: "same_objs s s1 \<Longrightarrow> same_objs s1 s2 \<Longrightarrow> same_objs s s2"
  by (auto simp: same_objs_def)

lemma same_objs_update [simp]:
  "same_objs s (s'\<lparr>ram := r\<rparr>) = same_objs s s'" "same_objs s (s'\<lparr>mems := ms\<rparr>) = same_objs s s'"
  "same_objs (s\<lparr>ram := r\<rparr>) s' = same_objs s s'" "same_objs (s\<lparr>mems := ms\<rparr>) s' = same_objs s s'"
  by (simp_all add: same_objs_def)

lemma event_set_update [simp]:
  "event_set e st s (s'\<lparr>ram := r\<rparr>) = event_set e st s s'" "event_set e st s (s'\<lparr>mems := ms\<rparr>) = event_set e st s s'"
  "event_set e st (s\<lparr>ram := r\<rparr>) s' = event_set e st s s'" "event_set e st (s\<lparr>mems := ms\<rparr>) s' = event_set e st s s'"
  by (simp_all add: event_set_def)

lemma event_set_trans:
  assumes "event_set e st s s1" "event_set e st' s1 s2"
  shows "event_set e st' s s2"
proof (cases "e = NULL")
  case False
  then show ?thesis using assms by (fastforce simp: event_set_def)
qed (use assms in \<open>simp add: event_set_def\<close>)

lemma event_set_live: "event_set e st s s' \<Longrightarrow> event_live x s' \<longleftrightarrow> event_live x s"
  by (cases "x = e") (auto simp: event_set_def event_live_def split: if_splits)

lemma event_live_update [simp]:
  "event_live e (s\<lparr>ram := r\<rparr>) = event_live e s" "event_live e (s\<lparr>mems := ms\<rparr>) = event_live e s"
  by (simp_all add: event_live_def)

lemma event_moved_simps:
  assumes "event_moved e st s s'"
  shows "queues s' = queues s" "devices s' = devices s" "contexts s' = contexts s" "mems s' = mems s"
    "maps s' = maps s" "programs s' = programs s" "kernels s' = kernels s" "ram s' = ram s"
    "pocl_num_devices s' = pocl_num_devices s" "event_live x s' \<longleftrightarrow> event_live x s"
  using assms event_set_live by (auto simp: event_moved_def same_objs_def)

lemma event_moved_trans: "event_moved e st s s1 \<Longrightarrow> event_moved e st' s1 s2 \<Longrightarrow> event_moved e st' s s2"
  by (auto simp: event_moved_def intro: same_objs_trans event_set_trans)

lemma update_event_moves:
  assumes "event_live e s" "queues s q = Some cq"
    and "\<And>t ev. e_status (stamp t ev) = e_status ev" "\<And>t ev. e_refcount (stamp t ev) = e_refcount ev"
    and "\<And>t ev. e_queue (stamp t ev) = e_queue ev" "\<And>t ev. e_type (stamp t ev) = e_type ev"
  shows "\<exists>s'. update_event stamp st env q e s = Ret s' \<and> event_moved e st s s'"
proof (cases "e = NULL")
  case True
  then show ?thesis by (simp add: update_event_def event_moved_def event_set_def)
next
  case False
  then obtain ev where "events s e = Some ev" using assms(1) by (auto simp: event_live_def)
  then show ?thesis using assms(2-) False
    by (auto simp: update_event_def event_moved_def same_objs_def event_set_def next_tick_def Let_def)
qed

lemma status_updates:
  assumes "event_live e s" "queues s q = Some cq"
  shows "\<exists>s'. POCL_UPDATE_EVENT_SUBMITTED env q e s = Ret s' \<and> event_moved e CL_SUBMITTED s s'"
    "\<exists>s'. POCL_UPDATE_EVENT_RUNNING env q e s = Ret s' \<and> event_moved e CL_RUNNING s s'"
    "\<exists>s'. POCL_UPDATE_EVENT_COMPLETE env q e s = Ret s' \<and> event_moved e CL_COMPLETE s s'"
    "\<exists>s'. POCL_UPDATE_EVENT_QUEUED env q e s = Ret s' \<and> event_moved e CL_QUEUED s s'"
  unfolding POCL_UPDATE_EVENT_SUBMITTED_def POCL_UPDATE_EVENT_RUNNING_def POCL_UPDATE_EVENT_COMPLETE_def
    POCL_UPDATE_EVENT_QUEUED_def
  by (rule update_event_moves [OF assms]; simp)+

section \<open>One command\<close>

lemma release_buffer_keeps:
  assumes "mems s p = Some m" "p \<noteq> NULL" "1 < m_refcount m"
  shows "release_buffer env p s = Ret (s\<lparr>mems := (mems s)(p \<mapsto> m\<lparr>m_refcount := m_refcount m - 1\<rparr>)\<rparr>)"
  using assms
  by (simp add: release_buffer_def clReleaseMemObject_def release_mem_def POCL_RELEASE_OBJECT_def decr_def)

text \<open>What a queue needs to run a command on a device with index \<open>i\<close>.\<close>

definition cmd_ready :: "nat \<Rightarrow> rt \<Rightarrow> command \<Rightarrow> bool" where
  "cmd_ready i s c \<longleftrightarrow>
     (case c of
        Cmd_read h d cb b \<Rightarrow> movable (ram s) h d (unat cb) \<and> b \<noteq> NULL
      | Cmd_write h d cb b \<Rightarrow> movable (ram s) d h (unat cb) \<and> b \<noteq> NULL
      | Cmd_copy sp dp cb a b \<Rightarrow> movable (ram s) dp sp (unat cb) \<and> a \<noteq> NULL \<and> b \<noteq> NULL
      | Cmd_map b mi \<Rightarrow> (\<exists>m. mems s b = Some m \<and> i < length (device_ptrs m)) \<and> maps s mi \<noteq> None
      | Cmd_marker \<Rightarrow> True
      | _ \<Rightarrow> False)"

definition node_ready :: "nat \<Rightarrow> rt \<Rightarrow> command_node \<Rightarrow> bool" where
  "node_ready i s n \<longleftrightarrow> event_live (node_event n) s \<and> cmd_ready i s (cmd n)"

text \<open>Every object the commands will release outlives them: somebody else holds a reference.\<close>

definition refs_kept :: "command list \<Rightarrow> rt \<Rightarrow> bool" where
  "refs_kept cs s \<longleftrightarrow> (\<forall>p. 0 < refs cs p \<longrightarrow> (\<exists>m. mems s p = Some m \<and> int (refs cs p) < m_refcount m))"

text \<open>The state after one command.\<close>

definition executed :: "driver_ops \<Rightarrow> command_node \<Rightarrow> rt \<Rightarrow> rt \<Rightarrow> bool" where
  "executed ops n s s' \<longleftrightarrow>
     exec_mem ops [cmd n] (ram s) = Ret (ram s') \<and> mems s' = settle [cmd n] (mems s) \<and>
     same_objs s s' \<and> event_set (node_event n) CL_COMPLETE s s' \<and>
     (\<forall>p k. mapped (ram s') p k = mapped (ram s) p k)"

lemma settle_none: "(\<And>p. refs_cmd p c = 0) \<Longrightarrow> (\<And>p. maps_cmd p c = 0) \<Longrightarrow> settle [c] st = st"
proof
  fix p assume "\<And>p. refs_cmd p c = 0" "\<And>p. maps_cmd p c = 0"
  then show "settle [c] st p = st p" by (cases "st p") (simp_all add: settle_def)
qed

lemma settle_one:
  assumes "\<And>p. refs_cmd p c = (if b = p then 1 else 0)" "\<And>p. maps_cmd p c = 0" "st b = Some m"
  shows "settle [c] st = st(b \<mapsto> m\<lparr>m_refcount := m_refcount m - 1\<rparr>)"
proof
  fix p show "settle [c] st p = (st(b \<mapsto> m\<lparr>m_refcount := m_refcount m - 1\<rparr>)) p"
    using assms by (cases "st p") (auto simp: settle_def)
qed

text \<open>The two status updates before an operation.\<close>

lemma started:
  assumes "queues s q = Some cq" "event_live e s"
  shows "\<exists>s'. obind (POCL_UPDATE_EVENT_SUBMITTED env q e s) (\<lambda>s. obind (POCL_UPDATE_EVENT_RUNNING env q e s) k) = k s' \<and>
    event_moved e CL_RUNNING s s'"
proof -
  obtain s1 where s1: "POCL_UPDATE_EVENT_SUBMITTED env q e s = Ret s1" "event_moved e CL_SUBMITTED s s1"
    using status_updates(1) [OF assms(2,1)] by blast
  have "queues s1 q = Some cq" "event_live e s1" using assms event_moved_simps [OF s1(2)] by simp_all
  then obtain s2 where s2: "POCL_UPDATE_EVENT_RUNNING env q e s1 = Ret s2" "event_moved e CL_RUNNING s1 s2"
    using status_updates(2) by blast
  show ?thesis using s1 s2 event_moved_trans [OF s1(2) s2(2)] by auto
qed

text \<open>The shape shared by the read, write and copy commands: status, device operation, status,
  and what follows.\<close>

lemma transfer_runs:
  assumes q: "queues s q = Some cq" "devices s (q_device cq) = Some dev" and e: "event_live e s"
    and f: "f (driver env (q_device cq)) (ram s) = Ret r"
  shows "\<exists>s'. obind (POCL_UPDATE_EVENT_SUBMITTED env q e s) (\<lambda>s.
      obind (POCL_UPDATE_EVENT_RUNNING env q e s) (\<lambda>s.
      obind (device_op env q f s) (\<lambda>s. obind (POCL_UPDATE_EVENT_COMPLETE env q e s) k))) = k s' \<and>
    ram s' = r \<and> mems s' = mems s \<and> same_objs s s' \<and> event_set e CL_COMPLETE s s'"
proof -
  let ?k = "\<lambda>s. obind (device_op env q f s) (\<lambda>s. obind (POCL_UPDATE_EVENT_COMPLETE env q e s) k)"
  obtain s2 where s2: "obind (POCL_UPDATE_EVENT_SUBMITTED env q e s) (\<lambda>s. obind (POCL_UPDATE_EVENT_RUNNING env q e s) ?k) = ?k s2"
    "event_moved e CL_RUNNING s s2"
    using started [OF q(1) e, where k = ?k] by blast
  note f2 = event_moved_simps [OF s2(2)]
  have op: "device_op env q f s2 = Ret (s2\<lparr>ram := r\<rparr>)" using f q f2 by (simp add: device_op_def on_ram_def)
  have "queues (s2\<lparr>ram := r\<rparr>) q = Some cq" "event_live e (s2\<lparr>ram := r\<rparr>)" using q e f2 by simp_all
  then obtain s3 where s3: "POCL_UPDATE_EVENT_COMPLETE env q e (s2\<lparr>ram := r\<rparr>) = Ret s3"
    "event_moved e CL_COMPLETE (s2\<lparr>ram := r\<rparr>) s3"
    using status_updates(3) by blast
  have "ram s3 = r" "mems s3 = mems s" "same_objs s s3" "event_set e CL_COMPLETE s s3"
    using s2(2) s3(2) by (auto simp: event_moved_def intro: same_objs_trans event_set_trans)
  then show ?thesis using s2(1) s3(1) op by (intro exI [of _ s3]) simp
qed

lemma moved_same_shape:
  "movable m d s (unat (cb :: size_t)) \<Longrightarrow> moved m d s (unat cb) m' \<Longrightarrow> mapped m' p k = mapped m p k"
  unfolding movable_def by (elim conjE, rule moved_mapped, assumption+) (rule unat_le_64)

lemma exec_transfer_one:
  assumes q: "queues s q = Some cq" "devices s (q_device cq) = Some dev" "event_live (node_event n) s"
    and f: "f (driver env (q_device cq)) (ram s) = Ret r" "exec_mem (driver env (q_device cq)) [cmd n] (ram s) = Ret r"
    and shape: "\<And>p k. mapped r p k = mapped (ram s) p k"
    and refs: "\<And>p. refs_cmd p (cmd n) = (if b = p then 1 else 0)" "\<And>p. maps_cmd p (cmd n) = 0"
    and b: "b \<noteq> NULL" "refs_kept [cmd n] s"
  shows "\<exists>s'. obind (POCL_UPDATE_EVENT_SUBMITTED env q (node_event n) s) (\<lambda>s.
      obind (POCL_UPDATE_EVENT_RUNNING env q (node_event n) s) (\<lambda>s.
      obind (device_op env q f s) (\<lambda>s.
      obind (POCL_UPDATE_EVENT_COMPLETE env q (node_event n) s) (release_buffer env b)))) = Ret s' \<and>
    executed (driver env (q_device cq)) n s s'"
proof -
  obtain m where m: "mems s b = Some m" "1 < m_refcount m"
    using b(2) [unfolded refs_kept_def, THEN spec, of b] refs(1) by auto
  obtain t where t: "obind (POCL_UPDATE_EVENT_SUBMITTED env q (node_event n) s) (\<lambda>s.
      obind (POCL_UPDATE_EVENT_RUNNING env q (node_event n) s) (\<lambda>s.
      obind (device_op env q f s) (\<lambda>s.
      obind (POCL_UPDATE_EVENT_COMPLETE env q (node_event n) s) (release_buffer env b)))) = release_buffer env b t"
    "ram t = r" "mems t = mems s" "same_objs s t" "event_set (node_event n) CL_COMPLETE s t"
    using transfer_runs [of s q cq dev "node_event n" f env r "release_buffer env b"] q f(1) by blast
  have "release_buffer env b t = Ret (t\<lparr>mems := settle [cmd n] (mems s)\<rparr>)"
    using release_buffer_keeps [OF _ b(1) m(2), of t env] m(1) t(3) settle_one [where c = "cmd n", OF refs, of "mems s"] by simp
  then show ?thesis using t f(2) shape by (auto simp: executed_def simp del: exec_mem.simps)
qed

lemma exec_marker:
  assumes "queues s q = Some cq" "event_live (node_event n) s" "cmd n = Cmd_marker"
  shows "\<exists>s'. exec_command env q n s = Ret s' \<and> executed ops n s s'"
proof -
  obtain s' where "POCL_UPDATE_EVENT_COMPLETE env q (node_event n) s = Ret s'" "event_moved (node_event n) CL_COMPLETE s s'"
    using status_updates(3) [OF assms(2,1)] by blast
  then show ?thesis using assms(3) by (auto simp: exec_command_def executed_def settle_none event_moved_def)
qed

lemma exec_map:
  assumes q: "queues s q = Some cq" "devices s (q_device cq) = Some dev" and n: "cmd n = Cmd_map b mi"
    and d: "device_driver (driver env (q_device cq))" and r: "node_ready (dev_id dev) s n"
  shows "\<exists>s'. exec_command env q n s = Ret s' \<and> executed (driver env (q_device cq)) n s s'"
proof -
  have e: "event_live (node_event n) s" using r by (simp add: node_ready_def)
  obtain m where m: "mems s b = Some m" "dev_id dev < length (device_ptrs m)"
    using r by (auto simp: node_ready_def cmd_ready_def n)
  obtain i where i: "maps s mi = Some i" using r by (auto simp: node_ready_def cmd_ready_def n)
  let ?k = "\<lambda>s. obind (deref (queues s q)) (\<lambda>command_queue.
          obind (pocl_map_mem_cmd env (q_device command_queue) b mi s) (\<lambda>(_, s).
          POCL_UPDATE_EVENT_COMPLETE env q (node_event n) s))"
  have "exec_command env q n s = obind (POCL_UPDATE_EVENT_SUBMITTED env q (node_event n) s)
      (\<lambda>s. obind (POCL_UPDATE_EVENT_RUNNING env q (node_event n) s) ?k)"
    by (simp add: exec_command_def n Let_def)
  then obtain s2 where s2: "exec_command env q n s = ?k s2" "event_moved (node_event n) CL_RUNNING s s2"
    using started [OF q(1) e, of env ?k] by auto
  note f2 = event_moved_simps [OF s2(2)]
  let ?ms = "(mems s)(b \<mapsto> m\<lparr>map_count := map_count m + 1\<rparr>)"
  obtain x where "op_map_mem (driver env (q_device cq)) (ram s) (device_ptrs m ! dev_id dev) (map_offset i) (map_size i)
      (map_host_ptr i) = Ret (x, ram s)"
    using device_driver.remap_law [OF d] by blast
  then have op: "pocl_map_mem_cmd env (q_device cq) b mi s2 = Ret (map_host_ptr i, s2\<lparr>ram := ram s, mems := ?ms\<rparr>)"
    using m i q f2 by (simp add: pocl_map_mem_cmd_def c_nth_def)
  have "queues (s2\<lparr>ram := ram s, mems := ?ms\<rparr>) q = Some cq" "event_live (node_event n) (s2\<lparr>ram := ram s, mems := ?ms\<rparr>)"
    using q e f2 by simp_all
  then obtain s3 where s3: "POCL_UPDATE_EVENT_COMPLETE env q (node_event n) (s2\<lparr>ram := ram s, mems := ?ms\<rparr>) = Ret s3"
    "event_moved (node_event n) CL_COMPLETE (s2\<lparr>ram := ram s, mems := ?ms\<rparr>) s3"
    using status_updates(3) by blast
  have "settle [Cmd_map b mi] (mems s) = ?ms"
  proof
    fix p show "settle [Cmd_map b mi] (mems s) p = ?ms p" using m by (cases "mems s p") (auto simp: settle_def)
  qed
  then have "executed (driver env (q_device cq)) n s s3"
    using s2(2) s3(2) f2 by (auto simp: executed_def n event_moved_def intro: same_objs_trans event_set_trans)
  moreover have "exec_command env q n s = Ret s3" using s2(1) s3(1) op f2(1) q(1) by simp
  ultimately show ?thesis by blast
qed

lemma exec_copy:
  assumes q: "queues s q = Some cq" "devices s (q_device cq) = Some dev" and n: "cmd n = Cmd_copy sp dp cb a b"
    and d: "device_driver (driver env (q_device cq))" and r: "node_ready (dev_id dev) s n" and k: "refs_kept [cmd n] s"
  shows "\<exists>s'. exec_command env q n s = Ret s' \<and> executed (driver env (q_device cq)) n s s'"
proof -
  have e: "event_live (node_event n) s" and mv: "movable (ram s) dp sp (unat cb)" and nz: "a \<noteq> NULL" "b \<noteq> NULL"
    using r by (simp_all add: node_ready_def cmd_ready_def n)
  obtain r' where r': "op_copy (driver env (q_device cq)) (ram s) sp dp cb = Ret r'" "moved (ram s) dp sp (unat cb) r'"
    using device_driver.copy_law [OF d mv] by blast
  obtain ma where ma: "mems s a = Some ma" "int (refs_cmd a (cmd n)) < m_refcount ma"
    using k [unfolded refs_kept_def, THEN spec, of a] n by auto
  obtain mb where mb: "mems s b = Some mb" "int (refs_cmd b (cmd n)) < m_refcount mb"
    using k [unfolded refs_kept_def, THEN spec, of b] n by auto
  let ?k = "\<lambda>s. obind (release_buffer env a s) (release_buffer env b)"
  obtain t where t: "exec_command env q n s = ?k t"
    "ram t = r'" "mems t = mems s" "same_objs s t" "event_set (node_event n) CL_COMPLETE s t"
    using transfer_runs [of s q cq dev "node_event n" "\<lambda>ops m. op_copy ops m sp dp cb" env r' ?k] q e r'(1)
    by (auto simp: exec_command_def n Let_def)
  have "?k t = Ret (t\<lparr>mems := settle [cmd n] (mems s)\<rparr>)"
  proof (cases "a = b")
    case True
    have "settle [cmd n] (mems s) = (mems s)(b \<mapsto> mb\<lparr>m_refcount := m_refcount mb - 2\<rparr>)"
    proof
      fix p show "settle [cmd n] (mems s) p = ((mems s)(b \<mapsto> mb\<lparr>m_refcount := m_refcount mb - 2\<rparr>)) p"
        using mb True by (cases "mems s p") (auto simp: settle_def n)
    qed
    then show ?thesis using mb nz t(3) True by (simp add: release_buffer_keeps n)
  next
    case False
    have "settle [cmd n] (mems s) = (mems s)(a \<mapsto> ma\<lparr>m_refcount := m_refcount ma - 1\<rparr>, b \<mapsto> mb\<lparr>m_refcount := m_refcount mb - 1\<rparr>)"
    proof
      fix p show "settle [cmd n] (mems s) p = ((mems s)(a \<mapsto> ma\<lparr>m_refcount := m_refcount ma - 1\<rparr>, b \<mapsto> mb\<lparr>m_refcount := m_refcount mb - 1\<rparr>)) p"
        using ma mb False by (cases "mems s p") (auto simp: settle_def n)
    qed
    then show ?thesis using ma mb nz t(3) False by (simp add: release_buffer_keeps n)
  qed
  then show ?thesis using t r' moved_same_shape [OF mv r'(2)] by (auto simp: executed_def n)
qed

lemma exec_command_runs:
  assumes q: "queues s q = Some cq" "devices s (q_device cq) = Some dev"
    and d: "device_driver (driver env (q_device cq))" and r: "node_ready (dev_id dev) s n" and k: "refs_kept [cmd n] s"
  shows "\<exists>s'. exec_command env q n s = Ret s' \<and> executed (driver env (q_device cq)) n s s'"
proof (cases "cmd n")
  case (Cmd_read h p cb b)
  then have e: "event_live (node_event n) s" "b \<noteq> NULL" and mv: "movable (ram s) h p (unat cb)"
    using r by (simp_all add: node_ready_def cmd_ready_def)
  obtain r' where r': "op_read (driver env (q_device cq)) (ram s) h p cb = Ret r'" "moved (ram s) h p (unat cb) r'"
    using device_driver.read_law [OF d mv] by blast
  show ?thesis
    using exec_transfer_one [of s q cq dev n "\<lambda>ops m. op_read ops m h p cb" env r' b] q e r' Cmd_read k
      moved_same_shape [OF mv r'(2)] by (simp add: exec_command_def Let_def)
next
  case (Cmd_write h p cb b)
  then have e: "event_live (node_event n) s" "b \<noteq> NULL" and mv: "movable (ram s) p h (unat cb)"
    using r by (simp_all add: node_ready_def cmd_ready_def)
  obtain r' where r': "op_write (driver env (q_device cq)) (ram s) h p cb = Ret r'" "moved (ram s) p h (unat cb) r'"
    using device_driver.write_law [OF d mv] by blast
  show ?thesis
    using exec_transfer_one [of s q cq dev n "\<lambda>ops m. op_write ops m h p cb" env r' b] q e r' Cmd_write k
      moved_same_shape [OF mv r'(2)] by (simp add: exec_command_def Let_def)
next
  case (Cmd_copy sp dp cb a b)
  then show ?thesis using exec_copy [OF q _ d r k] by blast
next
  case (Cmd_map b mi)
  then show ?thesis using exec_map [OF q _ d r] by blast
next
  case Cmd_marker
  then show ?thesis using exec_marker [OF q(1)] r by (simp add: node_ready_def)
qed (use r in \<open>simp_all add: node_ready_def cmd_ready_def\<close>)

section \<open>A list of commands\<close>

lemma settle_Some: "st p = Some m \<Longrightarrow> settle cs st p =
    Some (m\<lparr>m_refcount := m_refcount m - int (refs cs p), map_count := map_count m + of_nat (maps_of cs p)\<rparr>)"
  by (simp add: settle_def)

lemma cmd_ready_executed:
  assumes "executed ops n s s'" "cmd_ready i s c"
  shows "cmd_ready i s' c"
proof -
  have m: "mapped (ram s') p k = mapped (ram s) p k" for p k using assms(1) by (simp add: executed_def)
  have o: "maps s' = maps s" "mems s' = settle [cmd n] (mems s)" using assms(1) by (auto simp: executed_def same_objs_def)
  show ?thesis
    using assms(2) m o by (cases c) (auto simp: cmd_ready_def movable_def settle_Some)
qed

lemma node_ready_executed: "executed ops n s s' \<Longrightarrow> node_ready i s n' \<Longrightarrow> node_ready i s' n'"
  unfolding node_ready_def by (metis cmd_ready_executed event_set_live executed_def)

lemma refs_kept_executed:
  assumes "executed ops n s s'" "refs_kept (cmd n # cs) s"
  shows "refs_kept cs s'"
proof -
  have st: "mems s' = settle [cmd n] (mems s)" using assms(1) by (simp add: executed_def)
  have kept: "\<exists>m. mems s p = Some m \<and> int (refs_cmd p (cmd n) + refs cs p) < m_refcount m"
    if "0 < refs_cmd p (cmd n) + refs cs p" for p
    using assms(2) [unfolded refs_kept_def, THEN spec, of p] that unfolding refs_Cons by blast
  show "refs_kept cs s'"
    unfolding refs_kept_def
  proof (intro allI impI)
    fix p assume "0 < refs cs p"
    then obtain m where "mems s p = Some m" "int (refs_cmd p (cmd n) + refs cs p) < m_refcount m" using kept [of p] by auto
    then show "\<exists>m. mems s' p = Some m \<and> int (refs cs p) < m_refcount m" by (simp add: st settle_Some)
  qed
qed

lemma refs_kept_hd:
  assumes "refs_kept (c # cs) s"
  shows "refs_kept [c] s"
  unfolding refs_kept_def
proof (intro allI impI)
  fix p assume "0 < refs [c] p"
  then have "0 < refs (c # cs) p" by simp
  then obtain m where "mems s p = Some m" "int (refs (c # cs) p) < m_refcount m"
    using assms unfolding refs_kept_def by blast
  then show "\<exists>m. mems s p = Some m \<and> int (refs [c] p) < m_refcount m" by auto
qed

text \<open>The state after a list of commands.\<close>

definition all_executed :: "driver_ops \<Rightarrow> command_node list \<Rightarrow> rt \<Rightarrow> rt \<Rightarrow> bool" where
  "all_executed ops ns s s' \<longleftrightarrow>
     exec_mem ops (map cmd ns) (ram s) = Ret (ram s') \<and> mems s' = settle (map cmd ns) (mems s) \<and> same_objs s s' \<and>
     (\<forall>p k. mapped (ram s') p k = mapped (ram s) p k) \<and> (\<forall>e. event_live e s' = event_live e s) \<and>
     (\<forall>e. e \<notin> node_event ` set ns \<longrightarrow> events s' e = events s e) \<and>
     (\<forall>n \<in> set ns. node_event n \<noteq> NULL \<longrightarrow> (\<exists>ev. events s' (node_event n) = Some ev \<and> e_status ev = CL_COMPLETE))"

lemma exec_mem_Cons: "exec_mem ops [c] m = Ret m' \<Longrightarrow> exec_mem ops (c # cs) m = exec_mem ops cs m'"
  by (auto simp: outcome_simps)

lemma all_executed_Cons:
  assumes "executed ops n s s1" "all_executed ops ns s1 s2"
  shows "all_executed ops (n # ns) s s2"
proof -
  have e: "event_set (node_event n) CL_COMPLETE s s1" using assms(1) by (simp add: executed_def)
  have "\<exists>ev. events s2 (node_event x) = Some ev \<and> e_status ev = CL_COMPLETE"
    if "x = n" "node_event x \<noteq> NULL" "node_event x \<notin> node_event ` set ns" for x
    using that assms(2) e by (auto simp: all_executed_def event_set_def)
  moreover have "\<exists>ev. events s2 (node_event x) = Some ev \<and> e_status ev = CL_COMPLETE"
    if "node_event x \<noteq> NULL" "node_event x \<in> node_event ` set ns" for x
    using that assms(2) by (auto simp: all_executed_def)
  ultimately have "\<forall>x \<in> set (n # ns). node_event x \<noteq> NULL \<longrightarrow> (\<exists>ev. events s2 (node_event x) = Some ev \<and> e_status ev = CL_COMPLETE)"
    by (metis imageI set_ConsD)
  moreover have "exec_mem ops (map cmd (n # ns)) (ram s) = Ret (ram s2)"
    using assms exec_mem_Cons [of ops "cmd n"] by (simp add: executed_def all_executed_def del: exec_mem.simps)
  moreover have "mems s2 = settle (map cmd (n # ns)) (mems s)"
    using assms settle_Cons by (simp add: executed_def all_executed_def)
  moreover have "events s2 x = events s x" if "x \<notin> node_event ` set (n # ns)" for x
    using that assms(2) e by (simp add: all_executed_def event_set_def)
  moreover have "event_live x s2 = event_live x s" for x
    using assms(2) event_set_live [OF e] by (simp add: all_executed_def)
  ultimately show ?thesis
    using assms same_objs_trans unfolding all_executed_def executed_def by (auto simp del: exec_mem.simps)
qed

lemma exec_all:
  assumes "queues s q = Some cq" "devices s (q_device cq) = Some dev"
    and d: "device_driver (driver env (q_device cq))"
    and "\<forall>n \<in> set ns. node_ready (dev_id dev) s n" "refs_kept (map cmd ns) s"
  shows "\<exists>s'. oiter (exec_command env q) ns s = Ret s' \<and> all_executed (driver env (q_device cq)) ns s s'"
  using assms(1,2,4,5)
proof (induction ns arbitrary: s)
  case Nil
  then show ?case by (simp add: all_executed_def)
next
  case (Cons n ns)
  obtain s1 where s1: "exec_command env q n s = Ret s1" "executed (driver env (q_device cq)) n s s1"
    using exec_command_runs [OF Cons.prems(1,2) d] Cons.prems(3,4) refs_kept_hd by fastforce
  have o: "queues s1 = queues s" "devices s1 = devices s" using s1(2) by (auto simp: executed_def same_objs_def)
  have "\<exists>s'. oiter (exec_command env q) ns s1 = Ret s' \<and> all_executed (driver env (q_device cq)) ns s1 s'"
    by (rule Cons.IH) (use Cons.prems o s1(2) in \<open>auto intro: node_ready_executed refs_kept_executed\<close>)
  then show ?case using s1 all_executed_Cons by auto
qed

text \<open>A queue that \<open>clFinish\<close> can drain.\<close>

definition drainable :: "env \<Rightarrow> ptr \<Rightarrow> rt \<Rightarrow> bool" where
  "drainable env q s \<longleftrightarrow> (\<exists>cq dev. queues s q = Some cq \<and> devices s (q_device cq) = Some dev \<and>
     \<not> has (q_properties cq) CL_QUEUE_OUT_OF_ORDER_EXEC_MODE_ENABLE \<and> device_driver (driver env (q_device cq)) \<and>
     (\<forall>n \<in> set (root cq). node_ready (dev_id dev) s n) \<and> refs_kept (map cmd (root cq)) s)"

lemma clFinish_drains:
  assumes "drainable env q s" "queues s q = Some cq"
  shows "\<exists>s'. clFinish env q s = Ret (CL_SUCCESS, s'\<lparr>queues := (queues s)(q \<mapsto> cq\<lparr>root := []\<rparr>)\<rparr>) \<and>
    all_executed (driver env (q_device cq)) (root cq) s s'"
proof -
  obtain dev where "devices s (q_device cq) = Some dev" "\<forall>n \<in> set (root cq). node_ready (dev_id dev) s n"
    "refs_kept (map cmd (root cq)) s" "device_driver (driver env (q_device cq))"
    and p: "\<not> has (q_properties cq) CL_QUEUE_OUT_OF_ORDER_EXEC_MODE_ENABLE"
    using assms by (auto simp: drainable_def)
  then obtain s' where s': "oiter (exec_command env q) (root cq) s = Ret s'"
    "all_executed (driver env (q_device cq)) (root cq) s s'"
    using exec_all [OF assms(2)] by blast
  then have "queues s' = queues s" by (simp add: all_executed_def same_objs_def)
  then show ?thesis using s' p assms(2) by (auto simp: clFinish_def)
qed

section \<open>Blocking transfers\<close>

lemma refs_kept_mono:
  assumes "refs_kept cs s" "\<And>p m. mems s p = Some m \<Longrightarrow> \<exists>m'. mems s' p = Some m' \<and> m_refcount m \<le> m_refcount m'"
  shows "refs_kept cs s'"
  using assms unfolding refs_kept_def by (meson less_le_trans)

lemma drainable_retain:
  assumes "drainable env q s" "mems s b = Some m"
  shows "drainable env q (s\<lparr>mems := (mems s)(b \<mapsto> m\<lparr>m_refcount := m_refcount m + 1\<rparr>)\<rparr>)" (is "drainable env q ?s")
proof -
  have "node_ready i ?s n" if "node_ready i s n" for i n
    using that assms(2) unfolding node_ready_def cmd_ready_def event_live_def
    by (cases "cmd n") auto
  moreover have "refs_kept cs ?s" if "refs_kept cs s" for cs
    using that by (rule refs_kept_mono) (auto simp: assms(2))
  ultimately show ?thesis using assms(1) unfolding drainable_def by fastforce
qed

lemma settle_retained:
  assumes "st b = Some m"
  shows "settle cs (st(b \<mapsto> m\<lparr>m_refcount := m_refcount m + 1\<rparr>)) b =
      Some (m\<lparr>m_refcount := m_refcount m - int (refs cs b) + 1, map_count := map_count m + of_nat (maps_of cs b)\<rparr>)"
    "(settle cs (st(b \<mapsto> m\<lparr>m_refcount := m_refcount m + 1\<rparr>)))(b \<mapsto> m\<lparr>map_count := map_count m + of_nat (maps_of cs b),
        m_refcount := m_refcount m - int (refs cs b)\<rparr>) = settle cs st"
proof -
  show "settle cs (st(b \<mapsto> m\<lparr>m_refcount := m_refcount m + 1\<rparr>)) b =
      Some (m\<lparr>m_refcount := m_refcount m - int (refs cs b) + 1, map_count := map_count m + of_nat (maps_of cs b)\<rparr>)"
    by (simp add: settle_def algebra_simps)
  show "(settle cs (st(b \<mapsto> m\<lparr>m_refcount := m_refcount m + 1\<rparr>)))(b \<mapsto> m\<lparr>map_count := map_count m + of_nat (maps_of cs b),
        m_refcount := m_refcount m - int (refs cs b)\<rparr>) = settle cs st"
    using assms by (intro ext, cases m) (auto simp: settle_def)
qed

lemma refs_below:
  assumes "drainable env q s" "queues s q = Some cq" "mems s b = Some m" "0 < m_refcount m"
  shows "int (refs (map cmd (root cq)) b) < m_refcount m"
proof (cases "refs (map cmd (root cq)) b")
  case (Suc k)
  have "refs_kept (map cmd (root cq)) s" using assms(1,2) by (auto simp: drainable_def)
  from this [unfolded refs_kept_def, THEN spec, of b] show ?thesis using Suc assms(3) by auto
qed (use assms in simp)

text \<open>The state after a blocking transfer: everything queued has run, then the transfer, and the
  reference counts are as if only the queued commands had run.\<close>

definition transferred :: "driver_ops \<Rightarrow> (memory \<Rightarrow> memory outcome) \<Rightarrow> ptr \<Rightarrow> cl_command_queue \<Rightarrow> ptr \<Rightarrow> rt \<Rightarrow> rt \<Rightarrow> bool" where
  "transferred ops f q cq e s s' \<longleftrightarrow>
     (\<exists>r. exec_mem ops (map cmd (root cq)) (ram s) = Ret r \<and> f r = Ret (ram s')) \<and>
     mems s' = settle (map cmd (root cq)) (mems s) \<and> queues s' = (queues s)(q \<mapsto> cq\<lparr>root := []\<rparr>) \<and>
     devices s' = devices s \<and> contexts s' = contexts s \<and> maps s' = maps s \<and>
     (e \<noteq> NULL \<longrightarrow> (\<exists>ev. events s' e = Some ev \<and> e_status ev = CL_COMPLETE))"

lemma transfer_now_runs:
  assumes dr: "drainable env q s" and q: "queues s q = Some cq" "devices s (q_device cq) = Some dev"
    and b: "mems s b = Some m" "b \<noteq> NULL" "0 < m_refcount m" "m_refcount m < 2 ^ 31 - 1" "dev_id dev < length (device_ptrs m)"
    and e: "event_live e s"
    and f: "\<And>r. exec_mem (driver env (q_device cq)) (map cmd (root cq)) (ram s) = Ret r \<Longrightarrow>
        (\<And>p k. mapped r p k = mapped (ram s) p k) \<Longrightarrow>
        \<exists>r'. f (driver env (q_device cq)) (device_ptrs m ! dev_id dev + offset) r = Ret r'"
  shows "\<exists>s'. transfer_now env q b offset e f s = Ret s' \<and>
    transferred (driver env (q_device cq)) (f (driver env (q_device cq)) (device_ptrs m ! dev_id dev + offset)) q cq e s s'"
proof -
  let ?cs = "map cmd (root cq)" and ?ops = "driver env (q_device cq)"
  let ?s1 = "s\<lparr>mems := (mems s)(b \<mapsto> m\<lparr>m_refcount := m_refcount m + 1\<rparr>)\<rparr>"
  let ?m2 = "m\<lparr>m_refcount := m_refcount m - int (refs ?cs b) + 1, map_count := map_count m + of_nat (maps_of ?cs b)\<rparr>"
  have ret: "clRetainMemObject b s = Ret (CL_SUCCESS, ?s1)"
    using b by (simp add: clRetainMemObject_def retain_mem_def POCL_RETAIN_OBJECT_def incr_def)
  obtain t where t: "clFinish env q ?s1 = Ret (CL_SUCCESS, t\<lparr>queues := (queues s)(q \<mapsto> cq\<lparr>root := []\<rparr>)\<rparr>)"
    "all_executed ?ops (root cq) ?s1 t"
    using clFinish_drains [OF drainable_retain [OF dr b(1)], of cq] q by auto
  let ?s2 = "t\<lparr>queues := (queues s)(q \<mapsto> cq\<lparr>root := []\<rparr>)\<rparr>"
  have m2: "mems ?s2 b = Some ?m2" "exec_mem ?ops ?cs (ram s) = Ret (ram t)" "devices t = devices s" "contexts t = contexts s"
    "maps t = maps s" "event_live e ?s2" "\<And>p k. mapped (ram t) p k = mapped (ram s) p k"
    using t(2) e settle_retained(1) [where st = "mems s", OF b(1)] by (simp_all add: all_executed_def same_objs_def event_live_def)
  have below: "1 < m_refcount ?m2" using refs_below [OF dr q(1) b(1,3)] by simp
  obtain r' where r': "f ?ops (device_ptrs m ! dev_id dev + offset) (ram t) = Ret r'" using f [OF m2(2,7)] by blast
  let ?k = "\<lambda>s. obind (deref (devices s (q_device cq))) (\<lambda>dev. obind (deref (mems s b)) (\<lambda>m.
      obind (c_nth (device_ptrs m) (dev_id dev)) (\<lambda>dptr. obind (on_ram (f ?ops (dptr + offset)) s) (\<lambda>s.
      obind (POCL_UPDATE_EVENT_COMPLETE env q e s) (release_buffer env b)))))"
  have run: "transfer_now env q b offset e f s = obind (POCL_UPDATE_EVENT_SUBMITTED env q e ?s2) (\<lambda>s. obind (POCL_UPDATE_EVENT_RUNNING env q e s) ?k)"
    using dr q ret t(1) by (auto simp: transfer_now_def drainable_def)
  obtain s3 where s3: "transfer_now env q b offset e f s = ?k s3" "event_moved e CL_RUNNING ?s2 s3"
    using run started [of ?s2 q _ e env ?k, OF _ m2(6)] by auto
  note f3 = event_moved_simps [OF s3(2)]
  have op: "?k s3 = obind (POCL_UPDATE_EVENT_COMPLETE env q e (s3\<lparr>ram := r'\<rparr>)) (release_buffer env b)"
    using f3 m2 q b r' by (simp add: c_nth_def on_ram_def)
  have "queues (s3\<lparr>ram := r'\<rparr>) q = Some (cq\<lparr>root := []\<rparr>)" "event_live e (s3\<lparr>ram := r'\<rparr>)" using f3 m2 by simp_all
  then obtain s4 where s4: "POCL_UPDATE_EVENT_COMPLETE env q e (s3\<lparr>ram := r'\<rparr>) = Ret s4" "event_moved e CL_COMPLETE (s3\<lparr>ram := r'\<rparr>) s4"
    using status_updates(3) by blast
  note f4 = event_moved_simps [OF s4(2)]
  have rel: "release_buffer env b s4 = Ret (s4\<lparr>mems := settle ?cs (mems s)\<rparr>)"
    using release_buffer_keeps [of s4 b ?m2 env, OF _ b(2) below] f3 f4 m2(1) t(2) settle_retained(2) [where st = "mems s" and cs = ?cs, OF b(1)]
    by (simp add: all_executed_def)
  have "e \<noteq> NULL \<Longrightarrow> \<exists>ev. events s4 e = Some ev \<and> e_status ev = CL_COMPLETE"
    using s4(2) by (auto simp: event_moved_def event_set_def)
  then have "transferred ?ops (f ?ops (device_ptrs m ! dev_id dev + offset)) q cq e s (s4\<lparr>mems := settle ?cs (mems s)\<rparr>)"
    using f3 f4 m2 r' by (simp add: transferred_def)
  then show ?thesis using s3(1) op s4(1) rel by auto
qed

section \<open>Queued and blocking transfers\<close>

lemma exec_mem_append: "exec_mem ops (cs @ ds) m = obind (exec_mem ops cs m) (exec_mem ops ds)"
proof (induction cs arbitrary: m)
  case (Cons c cs)
  then show ?case by (simp add: obind_assoc cong: command.case_cong) (simp add: Cons [abs_def] obind_assoc)
qed simp

lemma refs_append [simp]: "refs (cs @ ds) p = refs cs p + refs ds p"
  by (simp add: refs_def)

lemma maps_of_append [simp]: "maps_of (cs @ ds) p = maps_of cs p + maps_of ds p"
  by (simp add: maps_of_def)

lemma checks_ok:
  assumes "transfer_checks q b offset cb h n w s = Ret CL_SUCCESS"
  shows "q \<noteq> NULL" "b \<noteq> NULL" "h \<noteq> 0"
  using assms by (auto simp: transfer_checks_def outcome_simps split: if_splits)

lemma checks_again:
  assumes "transfer_checks q b offset cb h n w s = Ret CL_SUCCESS"
    and "queues s q = Some cq" "queues s' q = Some cq'" "q_context cq' = q_context cq" "q_device cq' = q_device cq"
    and "mems s b = Some m" "mems s' b = Some m'" "m_context m' = m_context m" "m_size m' = m_size m" "contexts s' = contexts s"
  shows "transfer_checks q b offset cb h n w s' = Ret CL_SUCCESS"
  using assms by (auto simp: transfer_checks_def outcome_simps split: if_splits)

text \<open>A blocking read or write of an accepted request.\<close>

lemma blocking_calls:
  assumes dr: "drainable env q s" and q: "queues s q = Some cq" "devices s (q_device cq) = Some dev"
    and b: "mems s b = Some m" "0 < m_refcount m" "m_refcount m < 2 ^ 31 - 1" "dev_id dev < length (device_ptrs m)"
    and ok: "transfer_checks q b offset cb h n w s = Ret CL_SUCCESS"
  shows "movable (ram s) (device_ptrs m ! dev_id dev + offset) h (unat cb) \<Longrightarrow>
      \<exists>s'. clEnqueueWriteBuffer env q b True offset cb h n w False s = Ret (CL_SUCCESS, NULL, s') \<and>
        transferred (driver env (q_device cq)) (\<lambda>r. op_write (driver env (q_device cq)) r h (device_ptrs m ! dev_id dev + offset) cb) q cq NULL s s'"
    and "movable (ram s) h (device_ptrs m ! dev_id dev + offset) (unat cb) \<Longrightarrow>
      \<exists>s'. clEnqueueReadBuffer env q b True offset cb h n w False s = Ret (CL_SUCCESS, NULL, s') \<and>
        transferred (driver env (q_device cq)) (\<lambda>r. op_read (driver env (q_device cq)) r h (device_ptrs m ! dev_id dev + offset) cb) q cq NULL s s'"
proof -
  have d: "device_driver (driver env (q_device cq))" using dr q by (auto simp: drainable_def)
  have e: "event_live NULL s" by (simp add: event_live_def)
  note run = transfer_now_runs [OF dr q b(1) checks_ok(2) [OF ok] b(2-4) e]
  show "\<exists>s'. clEnqueueWriteBuffer env q b True offset cb h n w False s = Ret (CL_SUCCESS, NULL, s') \<and>
        transferred (driver env (q_device cq)) (\<lambda>r. op_write (driver env (q_device cq)) r h (device_ptrs m ! dev_id dev + offset) cb) q cq NULL s s'"
    if mv: "movable (ram s) (device_ptrs m ! dev_id dev + offset) h (unat cb)"
  proof -
    have "\<exists>s'. transfer_now env q b offset NULL (\<lambda>ops dptr m. op_write ops m h dptr cb) s = Ret s' \<and>
        transferred (driver env (q_device cq)) (\<lambda>r. op_write (driver env (q_device cq)) r h (device_ptrs m ! dev_id dev + offset) cb) q cq NULL s s'"
    proof (rule run)
      fix r assume "\<And>p k. mapped r p k = mapped (ram s) p k"
      then have "movable r (device_ptrs m ! dev_id dev + offset) h (unat cb)" using mv by (simp add: movable_def)
      from device_driver.write_law [OF d this]
      show "\<exists>r'. op_write (driver env (q_device cq)) r h (device_ptrs m ! dev_id dev + offset) cb = Ret r'" by blast
    qed
    then show ?thesis using ok by (auto simp: clEnqueueWriteBuffer_def event_for_def)
  qed
  show "\<exists>s'. clEnqueueReadBuffer env q b True offset cb h n w False s = Ret (CL_SUCCESS, NULL, s') \<and>
        transferred (driver env (q_device cq)) (\<lambda>r. op_read (driver env (q_device cq)) r h (device_ptrs m ! dev_id dev + offset) cb) q cq NULL s s'"
    if mv: "movable (ram s) h (device_ptrs m ! dev_id dev + offset) (unat cb)"
  proof -
    have "\<exists>s'. transfer_now env q b offset NULL (\<lambda>ops dptr m. op_read ops m h dptr cb) s = Ret s' \<and>
        transferred (driver env (q_device cq)) (\<lambda>r. op_read (driver env (q_device cq)) r h (device_ptrs m ! dev_id dev + offset) cb) q cq NULL s s'"
    proof (rule run)
      fix r assume "\<And>p k. mapped r p k = mapped (ram s) p k"
      then have "movable r h (device_ptrs m ! dev_id dev + offset) (unat cb)" using mv by (simp add: movable_def)
      from device_driver.read_law [OF d this]
      show "\<exists>r'. op_read (driver env (q_device cq)) r h (device_ptrs m ! dev_id dev + offset) cb = Ret r'" by blast
    qed
    then show ?thesis using ok by (auto simp: clEnqueueReadBuffer_def event_for_def)
  qed
qed

text \<open>A queued read waits in the queue with a reference to its buffer.\<close>

lemma queued_read:
  assumes dr: "drainable env q s" and q: "queues s q = Some cq" "devices s (q_device cq) = Some dev"
    and b: "mems s b = Some m" "0 < m_refcount m" "m_refcount m < 2 ^ 31 - 1" "dev_id dev < length (device_ptrs m)"
    and ok: "transfer_checks q b offset cb h n w s = Ret CL_SUCCESS"
    and mv: "movable (ram s) h (device_ptrs m ! dev_id dev + offset) (unat cb)"
    and mem: "\<not> malloc_fails env (tick s)" "tick s \<noteq> 0"
  defines "node \<equiv> \<lparr>cmd = Cmd_read h (device_ptrs m ! dev_id dev + offset) cb b, node_event = NULL\<rparr>"
  shows "\<exists>s1. clEnqueueReadBuffer env q b False offset cb h n w False s = Ret (CL_SUCCESS, NULL, s1) \<and>
    s1 = (next_tick s)\<lparr>mems := (mems s)(b \<mapsto> m\<lparr>m_refcount := m_refcount m + 1\<rparr>),
            queues := (queues s)(q \<mapsto> cq\<lparr>root := root cq @ [node]\<rparr>)\<rparr> \<and> drainable env q s1"
proof -
  let ?s1 = "(next_tick s)\<lparr>mems := (mems s)(b \<mapsto> m\<lparr>m_refcount := m_refcount m + 1\<rparr>),
            queues := (queues s)(q \<mapsto> cq\<lparr>root := root cq @ [node]\<rparr>)\<rparr>"
  have r: "\<forall>n \<in> set (root cq). node_ready (dev_id dev) s n" "refs_kept (map cmd (root cq)) s"
    "\<not> has (q_properties cq) CL_QUEUE_OUT_OF_ORDER_EXEC_MODE_ENABLE" "device_driver (driver env (q_device cq))"
    using dr q by (auto simp: drainable_def)
  have "node_ready (dev_id dev) ?s1 x" if "x \<in> set (root cq)" for x
    using r(1) that b(1) unfolding node_ready_def cmd_ready_def event_live_def next_tick_def
    by (cases "cmd x") auto
  moreover have "node_ready (dev_id dev) ?s1 node"
    using mv checks_ok(2) [OF ok] by (simp add: node_ready_def cmd_ready_def event_live_def node_def next_tick_def)
  moreover have "refs_kept (map cmd (root cq @ [node])) ?s1"
    unfolding refs_kept_def
  proof (intro allI impI)
    fix p assume "0 < refs (map cmd (root cq @ [node])) p"
    then show "\<exists>m. mems ?s1 p = Some m \<and> int (refs (map cmd (root cq @ [node])) p) < m_refcount m"
      using refs_below [OF dr q(1) b(1,2)] r(2) [unfolded refs_kept_def, THEN spec, of p]
      by (cases "p = b") (auto simp: node_def)
  qed
  ultimately have "drainable env q ?s1" using r(3,4) q(2) unfolding drainable_def by (auto simp: next_tick_def)
  moreover have "clEnqueueReadBuffer env q b False offset cb h n w False s = Ret (CL_SUCCESS, NULL, ?s1)"
    using ok q b mem
    by (simp add: clEnqueueReadBuffer_def event_for_def new_obj_def next_tick_def c_nth_def clRetainMemObject_def retain_mem_def
        POCL_RETAIN_OBJECT_def incr_def append_command_def node_def)
  ultimately show ?thesis by blast
qed

end
