(* ===== verification/Queue_Claims.thy ===== *)
theory Queue_Claims
  imports Queue_Proofs
begin

text \<open>
  The properties of command queues, with a small runtime as witness: one basic device, a context,
  a queue and a buffer of 16 bytes.
\<close>

section \<open>A small runtime\<close>

definition demo_config :: build_config where
  "demo_config = \<lparr>width_char = 16, width_short = 8, width_int = 4, width_long = 2, width_float = 4, width_double = 2,
     width_half = 0, device_address_bits = 64, words_bigendian = False, package_version = ''0.10'', build_icd = False, kernel_target = ''x86_64''\<rparr>"

definition demo_device :: device where
  "demo_device = \<lparr>dev_refcount = 1, dev_type = CL_DEVICE_TYPE_CPU, dev_id = 0, dev_data = 0, available = True,
     isHSAinit = False, agent_id = 0, max_mem_alloc_size = 0x100000, max_work_item_sizes = (1024, 1024, 1024), max_work_group_size = 1024,
     dev_info = basic_info demo_config\<rparr>"

definition demo_buffer :: cl_mem where
  "demo_buffer = \<lparr>m_refcount = 2, m_type = 0x10F0, m_flags = CL_MEM_READ_WRITE, m_size = 16, mem_host_ptr = 0, map_count = 0,
     m_context = 2, device_ptrs = [0x1010], mappings = [], m_parent = NULL, is_image = False,
     image_channel_order = 0, image_channel_data_type = 0, image_width = 0, image_height = 0, image_depth = 0,
     image_array_size = 0, image_row_pitch = 0, image_slice_pitch = 0, image_elem_size = 0, image_channels = 0,
     num_mip_levels = 0, num_samples = 0, m_buffer = NULL, image_handle = 0\<rparr>"

definition demo_event :: cl_event where
  "demo_event = \<lparr>e_refcount = 1, e_queue = 3, e_type = CL_COMMAND_WRITE_BUFFER, e_status = CL_QUEUED,
     time_queue = 0, time_submit = 0, time_start = 0, time_end = 0\<rparr>"

definition demo_queue :: cl_command_queue where
  "demo_queue = \<lparr>q_refcount = 2, q_context = 2, q_device = 1, q_properties = 0,
     root = [\<lparr>cmd = Cmd_write 0x1000 0x1010 4 4, node_event = 5\<rparr>, \<lparr>cmd = Cmd_marker, node_event = 0\<rparr>]\<rparr>"

definition demo_agent :: agent_info where
  "demo_agent = \<lparr>agent_device = 1, grid_max_dim = (1024, 1024, 1024), wg_max_size = 1024, image2d_max_dim = (8192, 8192, 0),
     image3d_max_dim = (2048, 2048, 2048), sampler_max = 16, agent_name = ''gpu'', agent_vendor = ''amd''\<rparr>"

definition demo_env :: env where
  "demo_env = \<lparr>malloc_fails = (\<lambda>_. False), hsa_fails = (\<lambda>_. False), clock = (\<lambda>_. 0), driver = (\<lambda>_. basic_ops demo_library),
     run = (\<lambda>_ _ s. Ret s), platform_id = 0x7000, hsa_agent = 1,
     pocl_device_types = [POCL_DEVICES_BASIC demo_config], init_device = (\<lambda>_ d. d), os = (\<lambda>_. 0), unset_string = [], unset_size = 0, agent = demo_agent, raw_mem = demo_buffer, raw_event = demo_event\<rparr>"

definition demo_rt :: rt where
  "demo_rt = \<lparr>devices = [1 \<mapsto> demo_device], pocl_num_devices = 1, pocl_devices = [1],
     contexts = [2 \<mapsto> \<lparr>ctx_refcount = 2, ctx_devices = [Some 1], ctx_properties = None, valid = True\<rparr>],
     queues = [3 \<mapsto> demo_queue], mems = [4 \<mapsto> demo_buffer], maps = Map.empty, events = [5 \<mapsto> demo_event],
     programs = Map.empty, kernels = Map.empty, samplers = Map.empty, ram = demo_memory, tick = 10\<rparr>"

lemma demo_objects:
  "queues demo_rt 3 = Some demo_queue" "devices demo_rt (q_device demo_queue) = Some demo_device" "dev_id demo_device = 0"
  "mems demo_rt 4 = Some demo_buffer" "0 < m_refcount demo_buffer" "m_refcount demo_buffer < 2 ^ 31 - 1"
  "dev_id demo_device < length (device_ptrs demo_buffer)" "device_ptrs demo_buffer ! 0 = 0x1010"
  "driver demo_env x = basic_ops demo_library" "ram demo_rt = demo_memory" "tick demo_rt = 10" "m_refcount demo_buffer = 2"
  by (simp_all add: demo_rt_def demo_queue_def demo_device_def demo_buffer_def demo_env_def)

lemma demo_movable:
  "movable demo_memory 0x1010 0x1000 4" "movable demo_memory 0x1020 0x1010 4" "movable demo_memory 0x1020 0x1014 4"
  unfolding movable_def
  by (auto intro!: apart_code simp: overlap_def mapped_def demo_memory_def in_range_def upt_rec)

lemma demo_drainable: "drainable demo_env 3 demo_rt"
proof -
  have "refs_kept (map cmd (root demo_queue)) demo_rt"
    by (auto simp: refs_kept_def demo_queue_def demo_rt_def demo_buffer_def split: if_splits)
  moreover have "\<forall>n \<in> set (root demo_queue). node_ready 0 demo_rt n"
    using demo_movable by (auto simp: node_ready_def cmd_ready_def event_live_def demo_queue_def demo_rt_def)
  moreover have "\<not> has (q_properties demo_queue) CL_QUEUE_OUT_OF_ORDER_EXEC_MODE_ENABLE"
    by (simp add: demo_queue_def has_def)
  ultimately show ?thesis
    using demo_objects basic.device_driver_axioms by (auto simp: drainable_def)
qed

lemma demo_checks:
  "transfer_checks 3 4 0 4 0x1000 0 None demo_rt = Ret CL_SUCCESS" "transfer_checks 3 4 0 4 0x1020 0 None demo_rt = Ret CL_SUCCESS"
  "transfer_checks 3 4 4 4 0x1020 0 None demo_rt = Ret CL_SUCCESS"
  by (simp_all add: transfer_checks_def demo_rt_def demo_queue_def demo_buffer_def bad_wait_list_def device_index_def)

section \<open>Properties\<close>

text \<open>C1. \<open>clFinish\<close> on an in-order queue whose commands are reads, writes, copies, maps and markers with readable and
  writable ranges, none of which holds the last reference to its buffer (kernel launches are not
  among them). The commands run to completion, in the order they were enqueued: the call returns, the
  queue is empty and otherwise unchanged, the memory is what applying the commands one after the other gives, the event
  of every command has status complete, and every memory object has lost exactly the references the commands held and
  gained the mappings they made.\<close>

theorem clFinish_in_order:
  assumes "drainable env q s" "queues s q = Some cq"
  shows "\<exists>s'. clFinish env q s = Ret (CL_SUCCESS, s') \<and> queues s' = (queues s)(q \<mapsto> cq\<lparr>root := []\<rparr>) \<and>
    exec_mem (driver env (q_device cq)) (map cmd (root cq)) (ram s) = Ret (ram s') \<and>
    (\<forall>p m. mems s p = Some m \<longrightarrow> mems s' p = Some (m\<lparr>m_refcount := m_refcount m - int (refs (map cmd (root cq)) p),
       map_count := map_count m + of_nat (maps_of (map cmd (root cq)) p)\<rparr>)) \<and>
    (\<forall>n \<in> set (root cq). node_event n \<noteq> NULL \<longrightarrow> (\<exists>ev. events s' (node_event n) = Some ev \<and> e_status ev = CL_COMPLETE))"
proof -
  obtain t where t: "clFinish env q s = Ret (CL_SUCCESS, t\<lparr>queues := (queues s)(q \<mapsto> cq\<lparr>root := []\<rparr>)\<rparr>)"
    "all_executed (driver env (q_device cq)) (root cq) s t"
    using clFinish_drains [OF assms] by blast
  show ?thesis
    using t by (intro exI [of _ "t\<lparr>queues := (queues s)(q \<mapsto> cq\<lparr>root := []\<rparr>)\<rparr>"]) (auto simp: all_executed_def settle_Some)
qed

theorem clFinish_in_order_witness:
  "\<exists>s' ev. clFinish demo_env 3 demo_rt = Ret (CL_SUCCESS, s') \<and> queues s' 3 = Some (demo_queue\<lparr>root := []\<rparr>) \<and>
     mems s' 4 = Some (demo_buffer\<lparr>m_refcount := 1\<rparr>) \<and> events s' 5 = Some ev \<and> e_status ev = CL_COMPLETE"
proof -
  obtain s' where s': "clFinish demo_env 3 demo_rt = Ret (CL_SUCCESS, s')" "queues s' = (queues demo_rt)(3 \<mapsto> demo_queue\<lparr>root := []\<rparr>)"
    "\<forall>p m. mems demo_rt p = Some m \<longrightarrow> mems s' p = Some (m\<lparr>m_refcount := m_refcount m - int (refs (map cmd (root demo_queue)) p),
       map_count := map_count m + of_nat (maps_of (map cmd (root demo_queue)) p)\<rparr>)"
    "\<forall>n \<in> set (root demo_queue). node_event n \<noteq> NULL \<longrightarrow> (\<exists>ev. events s' (node_event n) = Some ev \<and> e_status ev = CL_COMPLETE)"
    using clFinish_in_order [OF demo_drainable demo_objects(1)] by blast
  have "mems s' 4 = Some (demo_buffer\<lparr>m_refcount := 1\<rparr>)"
    using s'(3) demo_objects(4,12) by (simp add: demo_queue_def demo_buffer_def)
  moreover have "\<exists>ev. events s' 5 = Some ev \<and> e_status ev = CL_COMPLETE" using s'(4) by (simp add: demo_queue_def)
  ultimately show ?thesis using s'(1,2) by auto
qed

text \<open>C3. Blocking write, blocking read: after a blocking \<open>clEnqueueWriteBuffer\<close> a blocking
  \<open>clEnqueueReadBuffer\<close> of the same part of the buffer delivers the bytes the host range held when
  the commands queued before had run.\<close>

theorem blocking_write_read:
  assumes dr: "drainable env q s" and q: "queues s q = Some cq" "devices s (q_device cq) = Some dev"
    and b: "mems s b = Some m" "0 < m_refcount m" "m_refcount m < 2 ^ 31 - 1" "dev_id dev < length (device_ptrs m)"
    and p: "p = device_ptrs m ! dev_id dev + offset"
    and ok: "transfer_checks q b offset cb h n w s = Ret CL_SUCCESS" "transfer_checks q b offset cb h' n' w' s = Ret CL_SUCCESS"
    and mv: "movable (ram s) p h (unat cb)" "movable (ram s) h' p (unat cb)"
  shows "\<exists>s1 s2 r. clEnqueueWriteBuffer env q b True offset cb h n w False s = Ret (CL_SUCCESS, NULL, s1) \<and>
    clEnqueueReadBuffer env q b True offset cb h' n' w' False s1 = Ret (CL_SUCCESS, NULL, s2) \<and>
    exec_mem (driver env (q_device cq)) (map cmd (root cq)) (ram s) = Ret r \<and> load (ram s2) h' (unat cb) = load r h (unat cb)"
proof -
  let ?ops = "driver env (q_device cq)" and ?cs = "map cmd (root cq)"
  have d: "device_driver ?ops" "\<not> has (q_properties cq) CL_QUEUE_OUT_OF_ORDER_EXEC_MODE_ENABLE" using dr q by (auto simp: drainable_def)
  obtain s1 where s1: "clEnqueueWriteBuffer env q b True offset cb h n w False s = Ret (CL_SUCCESS, NULL, s1)"
    "transferred ?ops (\<lambda>r. op_write ?ops r h p cb) q cq NULL s s1"
    using blocking_calls(1) [OF dr q b ok(1)] mv(1) p by blast
  obtain t where t: "all_executed ?ops (root cq) s t" using clFinish_drains [OF dr q(1)] by blast
  then have r: "exec_mem ?ops ?cs (ram s) = Ret (ram t)" "\<And>p k. mapped (ram t) p k = mapped (ram s) p k"
    by (simp_all add: all_executed_def)
  have mvt: "movable (ram t) p h (unat cb)" using mv(1) r(2) by (simp add: movable_def)
  have w: "moved (ram t) p h (unat cb) (ram s1)"
    using s1(2) r(1) device_driver.write_law [OF d(1) mvt] by (auto simp: transferred_def)
  let ?m1 = "m\<lparr>m_refcount := m_refcount m - int (refs ?cs b), map_count := map_count m + of_nat (maps_of ?cs b)\<rparr>"
  have o1: "queues s1 q = Some (cq\<lparr>root := []\<rparr>)" "devices s1 = devices s" "contexts s1 = contexts s" "mems s1 b = Some ?m1"
    using s1(2) settle_Some [where st = "mems s", OF b(1)] by (simp_all add: transferred_def)
  have below: "int (refs ?cs b) < m_refcount m" by (rule refs_below [OF dr q(1) b(1,2)])
  have dr1: "drainable env q s1" using o1 q d by (auto simp: drainable_def refs_kept_def)
  have ok1: "transfer_checks q b offset cb h' n' w' s1 = Ret CL_SUCCESS"
    by (rule checks_again [OF ok(2) q(1) o1(1) _ _ b(1) o1(4)]) (simp_all add: o1)
  have "movable (ram s1) h' p (unat cb)"
    using mv r(2) moved_same_shape [OF mvt w] by (simp add: movable_def)
  then obtain s2 where s2: "clEnqueueReadBuffer env q b True offset cb h' n' w' False s1 = Ret (CL_SUCCESS, NULL, s2)"
    "transferred ?ops (\<lambda>r. op_read ?ops r h' p cb) q (cq\<lparr>root := []\<rparr>) NULL s1 s2"
    using blocking_calls(2) [OF dr1 o1(1) _ o1(4) _ _ _ ok1, of dev] q(2) o1(2) b(2-4) below p by auto
  have "moved (ram s1) h' p (unat cb) (ram s2)"
    using s2(2) device_driver.read_law [OF d(1) \<open>movable (ram s1) h' p (unat cb)\<close>] by (auto simp: transferred_def)
  then have "load (ram s2) h' (unat cb) = load (ram t) h (unat cb)"
    using moved_load_dst [OF _ unat_le_64] w by simp
  then show ?thesis using s1(1) s2(1) r(1) by blast
qed

theorem blocking_write_read_witness:
  "\<exists>s1 s2. clEnqueueWriteBuffer demo_env 3 4 True 0 4 0x1000 0 None False demo_rt = Ret (CL_SUCCESS, NULL, s1) \<and>
     clEnqueueReadBuffer demo_env 3 4 True 0 4 0x1020 0 None False s1 = Ret (CL_SUCCESS, NULL, s2) \<and>
     load (ram s2) 0x1020 4 = Ret [0, 1, 2, 3]"
proof -
  have "load r 0x1000 4 = Ret [0, 1, 2, 3]"
    if "exec_mem (basic_ops demo_library) (map cmd (root demo_queue)) demo_memory = Ret r" for r
    using that by (auto simp: demo_queue_def basic_ops_def pocl_basic_write_def memcpy_Ret_iff outcome_simps copy_bytes_def
        load_def mapped_def demo_memory_def in_range_def upt_rec)
  then show ?thesis
    using blocking_write_read [OF demo_drainable demo_objects(1,2,4,5,6,7) _ demo_checks(1,2)] demo_movable(1,2)
    by (fastforce simp: demo_objects)
qed

text \<open>C21. A queued read followed by \<open>clFinish\<close> has the same effect as a blocking read: both end with
  the same memory, the same memory objects and the same queues.\<close>

theorem queued_read_equals_blocking:
  assumes dr: "drainable env q s" and q: "queues s q = Some cq" "devices s (q_device cq) = Some dev"
    and b: "mems s b = Some m" "0 < m_refcount m" "m_refcount m < 2 ^ 31 - 1" "dev_id dev < length (device_ptrs m)"
    and ok: "transfer_checks q b offset cb h n w s = Ret CL_SUCCESS"
    and mv: "movable (ram s) h (device_ptrs m ! dev_id dev + offset) (unat cb)"
    and mem: "\<not> malloc_fails env (tick s)" "tick s \<noteq> 0"
  shows "\<exists>s1 s2 t. clEnqueueReadBuffer env q b False offset cb h n w False s = Ret (CL_SUCCESS, NULL, s1) \<and>
    clFinish env q s1 = Ret (CL_SUCCESS, s2) \<and>
    clEnqueueReadBuffer env q b True offset cb h n w False s = Ret (CL_SUCCESS, NULL, t) \<and>
    ram s2 = ram t \<and> mems s2 = mems t \<and> queues s2 = queues t"
proof -
  let ?ops = "driver env (q_device cq)" and ?cs = "map cmd (root cq)" and ?p = "device_ptrs m ! dev_id dev + offset"
  let ?node = "\<lparr>cmd = Cmd_read h ?p cb b, node_event = NULL\<rparr>"
  obtain s1 where s1: "clEnqueueReadBuffer env q b False offset cb h n w False s = Ret (CL_SUCCESS, NULL, s1)" "drainable env q s1"
    "s1 = (next_tick s)\<lparr>mems := (mems s)(b \<mapsto> m\<lparr>m_refcount := m_refcount m + 1\<rparr>),
            queues := (queues s)(q \<mapsto> cq\<lparr>root := root cq @ [?node]\<rparr>)\<rparr>"
    using queued_read [OF dr q b ok mv mem] by blast
  then have q1: "queues s1 q = Some (cq\<lparr>root := root cq @ [?node]\<rparr>)" by simp
  obtain u where u: "clFinish env q s1 = Ret (CL_SUCCESS, u\<lparr>queues := (queues s1)(q \<mapsto> cq\<lparr>root := []\<rparr>)\<rparr>)"
    "all_executed ?ops (root cq @ [?node]) s1 u"
    using clFinish_drains [OF s1(2) q1] by auto
  obtain t where t: "clEnqueueReadBuffer env q b True offset cb h n w False s = Ret (CL_SUCCESS, NULL, t)"
    "transferred ?ops (\<lambda>r. op_read ?ops r h ?p cb) q cq NULL s t"
    using blocking_calls(2) [OF dr q b ok mv] by blast
  have "ram u = ram t"
    using u(2) t(2) s1(3) by (auto simp: all_executed_def transferred_def exec_mem_append next_tick_def outcome_simps)
  moreover have "mems u = mems t"
    using u(2) t(2) s1(3) settle_retained(2) [where st = "mems s" and cs = ?cs, OF b(1)] b(1)
    by (auto simp: all_executed_def transferred_def settle_def next_tick_def fun_eq_iff)
  moreover have "(queues s1)(q \<mapsto> cq\<lparr>root := []\<rparr>) = queues t"
    using t(2) s1(3) by (simp add: transferred_def)
  ultimately show ?thesis using s1(1) u(1) t(1) by auto
qed

theorem queued_read_equals_blocking_witness:
  "\<exists>s1 s2 t. clEnqueueReadBuffer demo_env 3 4 False 4 4 0x1020 0 None False demo_rt = Ret (CL_SUCCESS, NULL, s1) \<and>
    clFinish demo_env 3 s1 = Ret (CL_SUCCESS, s2) \<and>
    clEnqueueReadBuffer demo_env 3 4 True 4 4 0x1020 0 None False demo_rt = Ret (CL_SUCCESS, NULL, t) \<and>
    ram s2 = ram t \<and> mems s2 = mems t \<and> queues s2 = queues t"
  by (rule queued_read_equals_blocking [OF demo_drainable demo_objects(1,2,4,5,6,7) demo_checks(3)])
    (use demo_movable(3) in \<open>simp_all add: demo_objects demo_env_def\<close>)

definition demo_idle :: rt where
  "demo_idle = demo_rt\<lparr>queues := [3 \<mapsto> demo_queue\<lparr>root := []\<rparr>]\<rparr>"

lemma demo_idle_drainable: "drainable demo_env 3 demo_idle"
  using demo_objects basic.device_driver_axioms
  by (auto simp: drainable_def demo_idle_def demo_queue_def refs_kept_def has_def)

text \<open>The range check of a transfer is computed modulo the word size: a blocking read of a 16-byte
  buffer at an offset just below zero is accepted and hands the host the bytes in front of the
  buffer.\<close>

theorem read_offset_wraps:
  "\<exists>s'. clEnqueueReadBuffer demo_env 3 4 True (- 8) 16 0x1020 0 None False demo_idle = Ret (CL_SUCCESS, NULL, s') \<and>
     load (ram s') 0x1020 16 = Ret [8, 9, 10, 11, 12, 13, 14, 15, 16, 17, 18, 19, 20, 21, 22, 23]"
proof -
  have o: "queues demo_idle 3 = Some (demo_queue\<lparr>root := []\<rparr>)" "devices demo_idle (q_device (demo_queue\<lparr>root := []\<rparr>)) = Some demo_device"
    "mems demo_idle 4 = Some demo_buffer" "ram demo_idle = demo_memory"
    using demo_objects by (simp_all add: demo_idle_def)
  have mv: "movable demo_memory 0x1020 0x1008 16"
    unfolding movable_def
    by (auto intro!: apart_code simp: overlap_def mapped_def demo_memory_def in_range_def upt_rec)
  have ok: "transfer_checks 3 4 (- 8) 16 0x1020 0 None demo_idle = Ret CL_SUCCESS"
    by (simp add: transfer_checks_def demo_idle_def demo_rt_def demo_queue_def demo_buffer_def bad_wait_list_def device_index_def)
  obtain s' where s': "clEnqueueReadBuffer demo_env 3 4 True (- 8) 16 0x1020 0 None False demo_idle = Ret (CL_SUCCESS, NULL, s')"
    "pocl_basic_read demo_memory 0x1020 0x1008 16 = Ret (ram s')"
    using blocking_calls(2) [OF demo_idle_drainable o(1,2,3) demo_objects(5,6,7) ok] mv o(4)
    by (auto simp: demo_objects transferred_def basic_ops_def)
  have "moved demo_memory 0x1020 0x1008 16 (ram s')"
    using s'(2) memcpy_moved [of demo_memory "0x1020" "0x1008" 16] mv by (auto simp: pocl_basic_read_def)
  then have "load (ram s') 0x1020 16 = load demo_memory 0x1008 16" by (rule moved_load_dst) simp
  then show ?thesis using s'(1)
    by (simp add: load_def mapped_def demo_memory_def in_range_def upt_rec)
qed

definition demo_second :: rt where
  "demo_second = demo_idle\<lparr>devices := [1 \<mapsto> demo_device\<lparr>dev_id := 1\<rparr>], pocl_num_devices := 2,
     mems := [4 \<mapsto> demo_buffer\<lparr>device_ptrs := [0, 0x1010]\<rparr>]\<rparr>"

lemmas demo_defs = demo_second_def demo_idle_def demo_rt_def demo_queue_def demo_device_def demo_buffer_def demo_env_def

text \<open>A queued write looks its device pointer up by the position of the device in the context
  instead of its \<open>dev\_id\<close>: on a context that holds only the second device of the system it takes
  the NULL entry of the first, and \<open>clFinish\<close> writes through it.\<close>

theorem queued_write_wrong_pointer:
  "\<exists>s'. clEnqueueWriteBuffer demo_env 3 4 False 0 4 0x1000 0 None False demo_second = Ret (CL_SUCCESS, NULL, s') \<and>
     clFinish demo_env 3 s' = Undef"
proof -
  have ok: "transfer_checks 3 4 0 4 0x1000 0 None demo_second = Ret CL_SUCCESS"
    by (simp add: transfer_checks_def demo_defs bad_wait_list_def device_index_def)
  let ?s = "(next_tick demo_second)\<lparr>mems := [4 \<mapsto> demo_buffer\<lparr>device_ptrs := [0, 0x1010], m_refcount := 3\<rparr>],
     queues := [3 \<mapsto> demo_queue\<lparr>root := [\<lparr>cmd = Cmd_write 0x1000 0 4 4, node_event = NULL\<rparr>]\<rparr>]\<rparr>"
  have "clEnqueueWriteBuffer demo_env 3 4 False 0 4 0x1000 0 None False demo_second = Ret (CL_SUCCESS, NULL, ?s)"
    by (simp add: clEnqueueWriteBuffer_def ok, simp add: event_for_def new_obj_def next_tick_def c_nth_def clRetainMemObject_def retain_mem_def
        POCL_RETAIN_OBJECT_def incr_def append_command_def device_index_def demo_defs)
  moreover have "clFinish demo_env 3 ?s = Undef"
    by (simp add: clFinish_def next_tick_def demo_defs has_def exec_command_def POCL_UPDATE_EVENT_SUBMITTED_def POCL_UPDATE_EVENT_RUNNING_def
      update_event_def device_op_def on_ram_def basic_ops_def pocl_basic_write_def memcpy_def mapped_def demo_memory_def in_range_def upt_rec
      CL_QUEUE_OUT_OF_ORDER_EXEC_MODE_ENABLE_def)
  ultimately show ?thesis by blast
qed
text \<open>\<open>clEnqueueFillBuffer\<close> refuses every request to fill a whole number of patterns: whenever the
  size is a multiple of the pattern size, the call returns an error and changes nothing.\<close>

theorem fill_rejects_whole_patterns:
  assumes "queues s q = Some cq" "mems s b = Some m" "cb mod pattern_size = 0"
  shows "\<exists>code. clEnqueueFillBuffer env q b pat pattern_size offset cb n w want s = Ret (code, NULL, s) \<and> code \<noteq> CL_SUCCESS"
  using assms by (auto simp: clEnqueueFillBuffer_def fill_args_rejected_def)

theorem fill_rejects_whole_patterns_witness:
  "\<exists>code. clEnqueueFillBuffer demo_env 3 4 (Some [1, 2]) 2 2 8 0 None False demo_idle = Ret (code, NULL, demo_idle) \<and> code \<noteq> CL_SUCCESS"
  by (rule fill_rejects_whole_patterns [of _ _ "demo_queue\<lparr>root := []\<rparr>" _ demo_buffer])
    (simp_all add: demo_idle_def demo_rt_def)

text \<open>C34. Releasing the last reference to a queue of a device that is no GPU, whose commands are reads, writes, copies, maps
  and markers that can run and hold no last reference to a buffer, first runs everything queued: the call returns, the memory is what the queued commands make of it, their events are
  complete and the queue is gone.\<close>

theorem release_queue_drains:
  assumes "drainable env q s" "queues s q = Some cq" "devices s (q_device cq) = Some dev"
    and "q_refcount cq = 1" "\<not> has (dev_type dev) CL_DEVICE_TYPE_GPU"
  shows "\<exists>s'. clReleaseCommandQueue env q s = Ret (CL_SUCCESS, s') \<and> queues s' = (queues s)(q := None) \<and>
    exec_mem (driver env (q_device cq)) (map cmd (root cq)) (ram s) = Ret (ram s') \<and>
    (\<forall>n \<in> set (root cq). node_event n \<noteq> NULL \<longrightarrow> (\<exists>ev. events s' (node_event n) = Some ev \<and> e_status ev = CL_COMPLETE))"
proof -
  obtain t where t: "clFinish env q s = Ret (CL_SUCCESS, t\<lparr>queues := (queues s)(q \<mapsto> cq\<lparr>root := []\<rparr>)\<rparr>)"
    "all_executed (driver env (q_device cq)) (root cq) s t"
    using clFinish_drains [OF assms(1,2)] by blast
  have "devices t = devices s" using t(2) by (simp add: all_executed_def same_objs_def)
  then have "clReleaseCommandQueue env q s = Ret (CL_SUCCESS, t\<lparr>queues := (queues s)(q := None)\<rparr>)"
    using t(1) assms(3-5)
    by (simp add: clReleaseCommandQueue_def clFlush_def release_queue_def POCL_RELEASE_OBJECT_def decr_def)
  then show ?thesis using t(2) by (auto simp: all_executed_def)
qed

definition demo_last :: rt where
  "demo_last = demo_rt\<lparr>queues := [3 \<mapsto> demo_queue\<lparr>q_refcount := 1\<rparr>]\<rparr>"

theorem release_queue_drains_witness:
  "\<exists>s' ev. clReleaseCommandQueue demo_env 3 demo_last = Ret (CL_SUCCESS, s') \<and> queues s' 3 = None \<and>
     events s' 5 = Some ev \<and> e_status ev = CL_COMPLETE"
proof -
  let ?cq = "demo_queue\<lparr>q_refcount := 1\<rparr>"
  have "refs_kept (map cmd (root ?cq)) demo_last"
    by (auto simp: refs_kept_def demo_last_def demo_queue_def demo_rt_def demo_buffer_def split: if_splits)
  moreover have "\<forall>n \<in> set (root ?cq). node_ready 0 demo_last n"
    using demo_movable by (auto simp: node_ready_def cmd_ready_def event_live_def demo_last_def demo_queue_def demo_rt_def)
  ultimately have "drainable demo_env 3 demo_last"
    using demo_objects basic.device_driver_axioms
    by (auto simp: drainable_def demo_last_def demo_queue_def has_def)
  then obtain s' where s': "clReleaseCommandQueue demo_env 3 demo_last = Ret (CL_SUCCESS, s')" "queues s' = (queues demo_last)(3 := None)"
    "\<forall>n \<in> set (root ?cq). node_event n \<noteq> NULL \<longrightarrow> (\<exists>ev. events s' (node_event n) = Some ev \<and> e_status ev = CL_COMPLETE)"
    using release_queue_drains [of demo_env 3 demo_last ?cq demo_device]
    by (auto simp: demo_last_def demo_rt_def demo_queue_def demo_device_def has_def CL_DEVICE_TYPE_CPU_def CL_DEVICE_TYPE_GPU_def)
  then show ?thesis by (auto simp: demo_queue_def)
qed

section \<open>Mapping\<close>

lemma drainable_mapping:
  assumes "drainable env q s" "mems s b = Some m" "m_refcount m \<le> m_refcount m'" "length (device_ptrs m') = length (device_ptrs m)"
    and s': "s' = s\<lparr>tick := n, maps := (maps s)(i \<mapsto> mi), mems := (mems s)(b \<mapsto> m')\<rparr>"
  shows "drainable env q s'"
proof -
  have "node_ready j s' x" if "node_ready j s x" for j x
    using that assms(2,4) unfolding s' node_ready_def cmd_ready_def event_live_def
    by (cases "cmd x") auto
  moreover have "refs_kept cs s'" if "refs_kept cs s" for cs
    using that by (rule refs_kept_mono) (auto simp: assms s')
  ultimately show ?thesis using assms(1) unfolding drainable_def s' by fastforce
qed

lemma pocl_map_mem_cmd_runs:
  assumes "device_driver (driver env d)" "devices s d = Some dev" "mems s b = Some m" "maps s i = Some mi"
    and "dev_id dev < length (device_ptrs m)"
  shows "pocl_map_mem_cmd env d b i s =
    Ret (map_host_ptr mi, s\<lparr>ram := ram s, mems := (mems s)(b \<mapsto> m\<lparr>map_count := map_count m + 1\<rparr>)\<rparr>)"
proof -
  obtain x where "op_map_mem (driver env d) (ram s) (device_ptrs m ! dev_id dev) (map_offset mi) (map_size mi) (map_host_ptr mi) = Ret (x, ram s)"
    using device_driver.remap_law [OF assms(1)] by blast
  then show ?thesis using assms by (simp add: pocl_map_mem_cmd_def c_nth_def)
qed

text \<open>The buffer while it is mapped.\<close>

definition mapped_buffer :: "cl_mem \<Rightarrow> nat \<Rightarrow> nat \<Rightarrow> ptr \<Rightarrow> cl_mem" where
  "mapped_buffer m k j i = m\<lparr>m_refcount := m_refcount m + 1 - int k, map_count := map_count m + of_nat j + 1, mappings := [i]\<rparr>"

lemma blocking_map:
  assumes dr: "drainable env q s" and q: "queues s q = Some cq" "devices s (q_device cq) = Some dev" "q \<noteq> NULL" "b \<noteq> NULL"
      "q_device cq \<noteq> NULL" "q_context cq \<noteq> NULL" "q_context cq = m_context m"
    and b: "mems s b = Some m" "m_refcount m < 2 ^ 31 - 1" "dev_id dev < length (device_ptrs m)" "mappings m = []"
      "offset + sz \<le> m_size m" "\<not> has (m_flags m) CL_MEM_USE_HOST_PTR"
    and fl: "\<not> (has (m_flags m) (CL_MEM_HOST_WRITE_ONLY OR CL_MEM_HOST_NO_ACCESS) \<and> has fl CL_MAP_READ)"
      "\<not> (has (m_flags m) (CL_MEM_HOST_READ_ONLY OR CL_MEM_HOST_NO_ACCESS) \<and> has fl (CL_MAP_WRITE OR CL_MAP_WRITE_INVALIDATE_REGION))"
    and p: "device_ptrs m ! dev_id dev \<noteq> 0" "p = device_ptrs m ! dev_id dev + offset" "p \<noteq> 0"
    and mem: "\<not> malloc_fails env (tick s)" "tick s \<noteq> 0"
  defines "cs \<equiv> map cmd (root cq)" and "i \<equiv> tick s"
  shows "\<exists>s1. clEnqueueMapBuffer env q b True fl offset sz False s = Ret (Some CL_SUCCESS, p, NULL, s1) \<and>
    exec_mem (driver env (q_device cq)) cs (ram s) = Ret (ram s1) \<and>
    mems s1 = (settle cs (mems s))(b \<mapsto> mapped_buffer m (refs cs b) (maps_of cs b) i) \<and>
    maps s1 i = Some \<lparr>map_host_ptr = p, map_offset = offset, map_size = sz\<rparr> \<and>
    queues s1 = (queues s)(q \<mapsto> cq\<lparr>root := []\<rparr>) \<and> devices s1 = devices s \<and> contexts s1 = contexts s"
proof -
  let ?mi = "\<lparr>map_host_ptr = p, map_offset = offset, map_size = sz\<rparr>"
  let ?m1 = "m\<lparr>m_refcount := m_refcount m + 1, mappings := [i]\<rparr>"
  let ?s1 = "s\<lparr>tick := Suc (tick s), maps := (maps s)(i \<mapsto> ?mi), mems := (mems s)(b \<mapsto> ?m1)\<rparr>"
  have d: "device_driver (driver env (q_device cq))" using dr q by (auto simp: drainable_def)
  have dr1: "drainable env q ?s1" by (rule drainable_mapping [OF dr b(1), of ?m1]) simp_all
  obtain t where t: "clFinish env q ?s1 = Ret (CL_SUCCESS, t\<lparr>queues := (queues s)(q \<mapsto> cq\<lparr>root := []\<rparr>)\<rparr>)"
    "all_executed (driver env (q_device cq)) (root cq) ?s1 t"
    using clFinish_drains [OF dr1, of cq] q by auto
  let ?s2 = "t\<lparr>queues := (queues s)(q \<mapsto> cq\<lparr>root := []\<rparr>)\<rparr>"
  let ?m2 = "?m1\<lparr>m_refcount := m_refcount m + 1 - int (refs cs b), map_count := map_count m + of_nat (maps_of cs b)\<rparr>"
  have t2: "exec_mem (driver env (q_device cq)) cs (ram s) = Ret (ram t)" "mems t = settle cs ((mems s)(b \<mapsto> ?m1))"
    "maps t = (maps s)(i \<mapsto> ?mi)" "devices t = devices s" "contexts t = contexts s"
    using t(2) by (simp_all add: all_executed_def same_objs_def cs_def)
  have "mems ?s2 b = Some ?m2" by (simp add: t2(2) settle_def)
  then have cmd: "pocl_map_mem_cmd env (q_device cq) b i ?s2 =
      Ret (p, ?s2\<lparr>ram := ram ?s2, mems := (mems ?s2)(b \<mapsto> ?m2\<lparr>map_count := map_count ?m2 + 1\<rparr>)\<rparr>)"
    using pocl_map_mem_cmd_runs [OF d, of ?s2 dev b ?m2 i ?mi] q(2) t2(3,4) b(3) by simp
  have "clEnqueueMapBuffer env q b True fl offset sz False s =
      Ret (Some CL_SUCCESS, p, NULL, ?s2\<lparr>ram := ram ?s2, mems := (mems ?s2)(b \<mapsto> ?m2\<lparr>map_count := map_count ?m2 + 1\<rparr>)\<rparr>)"
    using q b fl p mem device_driver.map_law [OF d p(1)] t(1) cmd
    by (simp add: clEnqueueMapBuffer_def clRetainMemObject_def retain_mem_def POCL_RETAIN_OBJECT_def incr_def event_for_def
        new_obj_def next_tick_def c_nth_def i_def Let_def POCL_UPDATE_EVENT_SUBMITTED_def POCL_UPDATE_EVENT_RUNNING_def
        POCL_UPDATE_EVENT_COMPLETE_def update_event_def not_less)
  moreover have "(mems ?s2)(b \<mapsto> ?m2\<lparr>map_count := map_count ?m2 + 1\<rparr>) = (settle cs (mems s))(b \<mapsto> mapped_buffer m (refs cs b) (maps_of cs b) i)"
    by (rule ext) (simp add: t2(2) settle_def mapped_buffer_def algebra_simps)
  ultimately show ?thesis using t2 by auto
qed

text \<open>C28. Mapping and unmapping a buffer: a blocking \<open>clEnqueueMapBuffer\<close> returns the address of the
  mapped part in the device memory itself, after everything queued has run, and records the
  mapping; \<open>clEnqueueUnmapMemObject\<close> of that address succeeds and leaves the memory as it is
  and the buffer with the reference count, the map count and the mappings it had.\<close>

theorem map_unmap_roundtrip:
  assumes dr: "drainable env q s" and q: "queues s q = Some cq" "devices s (q_device cq) = Some dev" "q \<noteq> NULL" "b \<noteq> NULL"
      "q_device cq \<noteq> NULL" "q_context cq \<noteq> NULL" "q_context cq = m_context m"
    and c: "contexts s (q_context cq) = Some c" "device_index c (q_device cq) < length (ctx_devices c)"
    and b: "mems s b = Some m" "m_refcount m < 2 ^ 31 - 1" "dev_id dev < length (device_ptrs m)" "mappings m = []"
      "offset + sz \<le> m_size m" "\<not> has (m_flags m) CL_MEM_USE_HOST_PTR" "0 < m_refcount m"
    and fl: "\<not> (has (m_flags m) (CL_MEM_HOST_WRITE_ONLY OR CL_MEM_HOST_NO_ACCESS) \<and> has fl CL_MAP_READ)"
      "\<not> (has (m_flags m) (CL_MEM_HOST_READ_ONLY OR CL_MEM_HOST_NO_ACCESS) \<and> has fl (CL_MAP_WRITE OR CL_MAP_WRITE_INVALIDATE_REGION))"
    and p: "device_ptrs m ! dev_id dev \<noteq> 0" "p = device_ptrs m ! dev_id dev + offset" "p \<noteq> 0"
    and mem: "\<not> malloc_fails env (tick s)" "tick s \<noteq> 0" and unmap: "op_unmap_mem (driver env (q_device cq)) = None"
  shows "\<exists>s1 s2. clEnqueueMapBuffer env q b True fl offset sz False s = Ret (Some CL_SUCCESS, p, NULL, s1) \<and>
    exec_mem (driver env (q_device cq)) (map cmd (root cq)) (ram s) = Ret (ram s1) \<and>
    clEnqueueUnmapMemObject env q b p False s1 = Ret (CL_SUCCESS, NULL, s2) \<and> ram s2 = ram s1 \<and>
    mems s2 = settle (map cmd (root cq)) (mems s)"
proof -
  let ?cs = "map cmd (root cq)" and ?i = "tick s"
  obtain s1 where s1: "clEnqueueMapBuffer env q b True fl offset sz False s = Ret (Some CL_SUCCESS, p, NULL, s1)"
    "exec_mem (driver env (q_device cq)) ?cs (ram s) = Ret (ram s1)"
    "mems s1 = (settle ?cs (mems s))(b \<mapsto> mapped_buffer m (refs ?cs b) (maps_of ?cs b) ?i)"
    "maps s1 ?i = Some \<lparr>map_host_ptr = p, map_offset = offset, map_size = sz\<rparr>"
    "queues s1 = (queues s)(q \<mapsto> cq\<lparr>root := []\<rparr>)" "devices s1 = devices s" "contexts s1 = contexts s"
    using blocking_map [OF dr q b(1-6) fl p mem] by blast
  have below: "int (refs ?cs b) < m_refcount m" by (rule refs_below [OF dr q(1) b(1,7)])
  let ?m2 = "m\<lparr>map_count := map_count m + of_nat (maps_of ?cs b), m_refcount := m_refcount m - int (refs ?cs b)\<rparr>"
  have "release_buffer env b (s1\<lparr>mems := (mems s1)(b \<mapsto> ?m2\<lparr>m_refcount := m_refcount m + 1 - int (refs ?cs b)\<rparr>)\<rparr>) =
      Ret (s1\<lparr>mems := (mems s1)(b \<mapsto> ?m2)\<rparr>)"
    using below by (subst release_buffer_keeps [where m = "?m2\<lparr>m_refcount := m_refcount m + 1 - int (refs ?cs b)\<rparr>", OF _ q(4)]) simp_all
  moreover have "(mapped_buffer m (refs ?cs b) (maps_of ?cs b) ?i)\<lparr>mappings := [], map_count := map_count m + of_nat (maps_of ?cs b)\<rparr> =
      ?m2\<lparr>m_refcount := m_refcount m + 1 - int (refs ?cs b)\<rparr>"
    using b(4) by (cases m) (simp add: mapped_buffer_def)
  ultimately have "clEnqueueUnmapMemObject env q b p False s1 = Ret (CL_SUCCESS, NULL, s1\<lparr>mems := (mems s1)(b \<mapsto> ?m2)\<rparr>)"
    using q c mem(2) unmap s1(3-7)
    by (simp add: clEnqueueUnmapMemObject_def event_for_def POCL_UPDATE_EVENT_SUBMITTED_def POCL_UPDATE_EVENT_RUNNING_def
        POCL_UPDATE_EVENT_COMPLETE_def update_event_def mapped_buffer_def)
  moreover have "(mems s1)(b \<mapsto> ?m2) = settle ?cs (mems s)"
    using b(1) by (intro ext, cases m) (simp add: s1(3) settle_def)
  ultimately show ?thesis using s1(1,2) by auto
qed

theorem map_unmap_roundtrip_witness:
  "\<exists>s1 s2. clEnqueueMapBuffer demo_env 3 4 True CL_MAP_WRITE 4 8 False demo_rt = Ret (Some CL_SUCCESS, 0x1014, NULL, s1) \<and>
     clEnqueueUnmapMemObject demo_env 3 4 0x1014 False s1 = Ret (CL_SUCCESS, NULL, s2) \<and>
     mems s2 4 = Some (demo_buffer\<lparr>m_refcount := 1\<rparr>)"
proof -
  have "settle (map cmd (root demo_queue)) (mems demo_rt) 4 = Some (demo_buffer\<lparr>m_refcount := 1\<rparr>)"
    by (simp add: settle_def demo_queue_def demo_rt_def demo_buffer_def)
  moreover have "has (m_flags demo_buffer) (CL_MEM_HOST_READ_ONLY OR CL_MEM_HOST_NO_ACCESS) = False"
    "has (m_flags demo_buffer) (CL_MEM_HOST_WRITE_ONLY OR CL_MEM_HOST_NO_ACCESS) = False"
    "has (m_flags demo_buffer) CL_MEM_USE_HOST_PTR = False"
    by (simp_all add: has_def demo_buffer_def mem_flag_defs)
  ultimately show ?thesis
    using map_unmap_roundtrip [OF demo_drainable demo_objects(1,2), where b = 4 and m = demo_buffer and offset = 4 and sz = 8 and p = "0x1014"
        and fl = CL_MAP_WRITE and c = "\<lparr>ctx_refcount = 2, ctx_devices = [Some 1], ctx_properties = None, valid = True\<rparr>"]
    by (auto simp: demo_rt_def demo_queue_def demo_buffer_def demo_device_def demo_env_def device_index_def basic_ops_def)
qed

end
