(* ===== verification/Platform.thy ===== *)
theory Platform
  imports Objects
begin

text \<open>
  Platforms and devices: \<open>devices/devices.c\<close> with the table of the enabled devices,
  \<open>clGetPlatformIDs\<close> and \<open>clGetDeviceIDs\<close>.
\<close>

section \<open>Setting up the devices\<close>

text \<open>The words \<open>strtok\_r\<close> finds between spaces.\<close>

function tokens :: "string \<Rightarrow> string list" where
  "tokens str =
     (let rest = dropWhile (\<lambda>c. c = CHR '' '') str in
      if rest = [] then [] else takeWhile (\<lambda>c. c \<noteq> CHR '' '') rest # tokens (dropWhile (\<lambda>c. c \<noteq> CHR '' '') rest))"
  by auto

termination
proof (relation "measure length")
  fix str rest :: string
  assume r: "rest = dropWhile (\<lambda>c. c = CHR '' '') str" "rest \<noteq> []"
  have "hd rest \<noteq> CHR '' ''" using r hd_dropWhile [of "\<lambda>c. c = CHR '' ''" str] by auto
  then have "length (dropWhile (\<lambda>c. c \<noteq> CHR '' '') rest) < length rest"
    using r(2) by (cases rest) (simp_all add: length_dropWhile_le less_Suc_eq_le)
  also have "\<dots> \<le> length str" by (simp add: r(1) length_dropWhile_le)
  finally show "(dropWhile (\<lambda>c. c \<noteq> CHR '' '') rest, str) \<in> measure length" by simp
qed simp

declare tokens.simps [simp del]

definition device_list :: "cl_bitfield \<Rightarrow> string" where
  "device_list type =
     (if type = CL_DEVICE_TYPE_GPU \<or> type = CL_DEVICE_TYPE_DEFAULT then ''hsa''
      else if type = CL_DEVICE_TYPE_CPU then ''pthread''
      else ''pthread hsa'')"

text \<open>The second loop over the words: each names a device type, which is copied to the next entry
  and initialised. A word that names none stops the program.\<close>

fun add_devices :: "env \<Rightarrow> nat \<Rightarrow> string list \<Rightarrow> rt \<Rightarrow> rt outcome" where
  "add_devices env devcount [] s = Ret s"
| "add_devices env devcount (token # ts) s =
     (case find (\<lambda>ty. dev_name (dev_info ty) = Some token) (pocl_device_types env) of
        None \<Rightarrow> Abort
      | Some ty \<Rightarrow>
          let p = tick s;
              dev = (init_device env devcount ty)\<lparr>dev_id := devcount\<rparr>
          in add_devices env (Suc devcount) ts
               ((next_tick s)\<lparr>devices := (devices s)(p \<mapsto> dev), pocl_devices := pocl_devices s @ [p]\<rparr>))"

text \<open>The memory for the table is used without a check.\<close>

definition pocl_init_devices :: "env \<Rightarrow> cl_bitfield \<Rightarrow> rt \<Rightarrow> rt outcome" where
  "pocl_init_devices env type s =
     (if pocl_num_devices s > 0 then Ret s
      else if malloc_fails env (tick s) then Undef
      else let ts = tokens (device_list type) in
           add_devices env 0 ts ((next_tick s)\<lparr>pocl_num_devices := length ts, pocl_devices := []\<rparr>))"

section \<open>Queries\<close>

text \<open>The result code, the platforms stored and the number stored; \<open>want\<close> and \<open>want\_num\<close> say
  whether the pointers for them are given.\<close>

definition clGetPlatformIDs :: "env \<Rightarrow> nat \<Rightarrow> bool \<Rightarrow> bool \<Rightarrow> cl_int \<times> int list \<times> nat option" where
  "clGetPlatformIDs env num_entries want want_num =
     (if want \<and> num_entries < 1 then (CL_INVALID_VALUE, [], None)
      else (CL_SUCCESS, if want then [platform_id env] else [], if want_num then Some 1 else None))"

text \<open>The initialisation of HSA for a device: the library, the search for a GPU agent, and
  whether one was found.\<close>

definition init_hsa :: "env \<Rightarrow> ptr \<Rightarrow> rt \<Rightarrow> rt outcome" where
  "init_hsa env d s =
     obind (hsa_call env s) (\<lambda>s.
     obind (hsa_call env s) (\<lambda>s.
     if hsa_agent env = 0 then Abort
     else obind (deref (devices s d)) (\<lambda>dev.
          Ret (s\<lparr>devices := (devices s)(d \<mapsto> dev\<lparr>isHSAinit := True\<rparr>)\<rparr>))))"

definition set_agent :: "env \<Rightarrow> ptr \<Rightarrow> rt \<Rightarrow> rt outcome" where
  "set_agent env d s =
     obind (deref (devices s d)) (\<lambda>dev. Ret (s\<lparr>devices := (devices s)(d \<mapsto> dev\<lparr>agent_id := hsa_agent env\<rparr>)\<rparr>))"

definition matches :: "cl_bitfield \<Rightarrow> device \<Rightarrow> bool" where
  "matches device_type dev \<longleftrightarrow> has (dev_type dev) device_type \<and> available dev"

text \<open>The loop over the table: the devices stored and the number of those that match.\<close>

fun collect_devices ::
  "env \<Rightarrow> cl_bitfield \<Rightarrow> nat \<Rightarrow> bool \<Rightarrow> ptr list \<Rightarrow> nat \<Rightarrow> ptr list \<Rightarrow> rt \<Rightarrow> (ptr list \<times> nat \<times> rt) outcome" where
  "collect_devices env device_type num_entries want added total_num [] s = Ret (added, total_num, s)"
| "collect_devices env device_type num_entries want added total_num (d # ds) s =
     obind (deref (devices s d)) (\<lambda>dev.
     if matches device_type dev
     then if want \<and> length added < num_entries
          then obind (if dev_type dev = CL_DEVICE_TYPE_GPU OR CL_DEVICE_TYPE_DEFAULT \<and> \<not> isHSAinit dev
                      then obind (init_hsa env d s) (set_agent env d) else Ret s) (\<lambda>s.
               collect_devices env device_type num_entries want (added @ [d]) (Suc total_num) ds s)
          else collect_devices env device_type num_entries want added (Suc total_num) ds s
     else collect_devices env device_type num_entries want added total_num ds s)"

definition clGetDeviceIDs ::
  "env \<Rightarrow> int \<Rightarrow> cl_bitfield \<Rightarrow> nat \<Rightarrow> bool \<Rightarrow> bool \<Rightarrow> rt \<Rightarrow> (cl_int \<times> ptr list \<times> nat option \<times> rt) outcome" where
  "clGetDeviceIDs env platform device_type num_entries want want_num s =
     obind (pocl_init_devices env device_type s) (\<lambda>s.
     if platform = 0 then Ret (CL_INVALID_PLATFORM, [], None, s)
     else if num_entries = 0 \<and> want then Ret (CL_INVALID_VALUE, [], None, s)
     else if \<not> want_num \<and> \<not> want then Ret (CL_INVALID_VALUE, [], None, s)
     else obind (collect_devices env device_type num_entries want [] 0 (pocl_devices s) s) (\<lambda>(added, total_num, s).
          Ret (if added \<noteq> [] \<or> num_entries = 0 then CL_SUCCESS else CL_DEVICE_NOT_FOUND,
               added, if want_num then Some total_num else None, s)))"

end
