(* ===== verification/Creation.thy ===== *)
theory Creation
  imports Queue Platform
begin

text \<open>
  Creating objects: \<open>clCreateBuffer\<close>, \<open>clCreateSubBuffer\<close>, \<open>clCreateContext\<close>,
  \<open>clCreateContextFromType\<close> and \<open>clCreateCommandQueue\<close>. Every one returns the error code, the
  new object (NULL on an error) and the state. An array that comes with its length is a list.
\<close>

section \<open>Buffers\<close>

definition CL_MEM_OBJECT_BUFFER :: cl_uint where "CL_MEM_OBJECT_BUFFER = 0x10F0"

text \<open>Flags that exclude each other.\<close>

definition flags_conflict :: "cl_bitfield \<Rightarrow> bool" where
  "flags_conflict flags \<longleftrightarrow>
     (has flags CL_MEM_READ_WRITE \<and> (has flags CL_MEM_WRITE_ONLY \<or> has flags CL_MEM_READ_ONLY)) \<or>
     (has flags CL_MEM_READ_ONLY \<and> has flags CL_MEM_WRITE_ONLY) \<or>
     (has flags CL_MEM_USE_HOST_PTR \<and> (has flags CL_MEM_ALLOC_HOST_PTR \<or> has flags CL_MEM_COPY_HOST_PTR)) \<or>
     (has flags CL_MEM_HOST_WRITE_ONLY \<and> has flags CL_MEM_HOST_READ_ONLY) \<or>
     (has flags CL_MEM_HOST_NO_ACCESS \<and> (has flags CL_MEM_HOST_READ_ONLY \<or> has flags CL_MEM_HOST_WRITE_ONLY))"

text \<open>The host pointer is given exactly when a flag asks for it.\<close>

definition host_ptr_mismatch :: "cl_bitfield \<Rightarrow> size_t \<Rightarrow> bool" where
  "host_ptr_mismatch flags host_ptr \<longleftrightarrow>
     (if host_ptr = 0 then has flags CL_MEM_USE_HOST_PTR \<or> has flags CL_MEM_COPY_HOST_PTR
      else has (NOT flags) CL_MEM_USE_HOST_PTR \<and> has (NOT flags) CL_MEM_COPY_HOST_PTR)"

text \<open>The loop that asks every device of the context for its largest allocation.\<close>

fun too_big_for :: "size_t \<Rightarrow> ptr option list \<Rightarrow> rt \<Rightarrow> bool outcome" where
  "too_big_for sz [] s = Ret False"
| "too_big_for sz (d # ds) s =
     obind (deref d) (\<lambda>device.
     obind (deref (devices s device)) (\<lambda>dev.
     if sz > max_mem_alloc_size dev then Ret True else too_big_for sz ds s))"

text \<open>
  The loop that allocates the buffer on every device. \<open>done\<close> are the devices that have it; the
  result says whether all of them could, and which did.
\<close>

fun alloc_on_devices ::
  "env \<Rightarrow> ptr \<Rightarrow> cl_bitfield \<Rightarrow> size_t \<Rightarrow> size_t \<Rightarrow> ptr option list \<Rightarrow> ptr option list \<Rightarrow> rt \<Rightarrow>
     (bool \<times> ptr option list \<times> rt) outcome" where
  "alloc_on_devices env mem flags sz host_ptr done_devs [] s = Ret (True, done_devs, s)"
| "alloc_on_devices env mem flags sz host_ptr done_devs (d # ds) s =
     obind (if done_devs \<noteq> [] then obind (clRetainMemObject mem s) (\<lambda>(_, s). Ret s) else Ret s) (\<lambda>s.
     obind (deref d) (\<lambda>device.
     obind (deref (devices s device)) (\<lambda>dev.
     obind (op_malloc (driver env device) (ram s) (dev_data dev) flags sz host_ptr) (\<lambda>(device_ptr, r).
     if device_ptr = 0 then Ret (False, done_devs, s\<lparr>ram := r\<rparr>)
     else obind (deref (mems s mem)) (\<lambda>m.
          obind (c_nth (device_ptrs m) (dev_id dev)) (\<lambda>_.
          let m' = m\<lparr>device_ptrs := (device_ptrs m)[dev_id dev := device_ptr],
                     mem_host_ptr := (if has flags (CL_MEM_ALLOC_HOST_PTR OR CL_MEM_USE_HOST_PTR) then host_ptr else 0)\<rparr>
          in alloc_on_devices env mem flags sz host_ptr (done_devs @ [d]) ds
               (s\<lparr>ram := r, mems := (mems s)(mem \<mapsto> m')\<rparr>)))))))"

text \<open>\<open>ERROR\_CLEAN\_MEM\_AND\_DEVICE\<close>: what the earlier devices allocated is freed.\<close>

definition undo_alloc :: "env \<Rightarrow> ptr \<Rightarrow> cl_bitfield \<Rightarrow> ptr option list \<Rightarrow> rt \<Rightarrow> rt outcome" where
  "undo_alloc env mem flags = oiter (\<lambda>d s.
     obind (deref d) (\<lambda>device.
     obind (deref (devices s device)) (\<lambda>dev.
     obind (deref (mems s mem)) (\<lambda>m.
     obind (c_nth (device_ptrs m) (dev_id dev)) (\<lambda>dptr.
     on_ram (\<lambda>r. op_free (driver env device) r (dev_data dev) flags dptr) s)))))"

text \<open>The new record as \<open>clCreateBuffer\<close> sets it up before the allocation.\<close>

definition init_buffer :: "env \<Rightarrow> cl_bitfield \<Rightarrow> cl_mem" where
  "init_buffer env flags = (raw_mem env)\<lparr>m_refcount := 1, m_parent := NULL, map_count := 0, mappings := [],
     m_type := CL_MEM_OBJECT_BUFFER, m_flags := flags, is_image := False, image_channel_order := 0,
     image_channel_data_type := 0, image_channels := 0, image_depth := 0, image_elem_size := 0, image_height := 0,
     image_row_pitch := 0, image_slice_pitch := 0, num_mip_levels := 0, num_samples := 0\<rparr>"

definition clCreateBuffer ::
  "env \<Rightarrow> ptr \<Rightarrow> cl_bitfield \<Rightarrow> size_t \<Rightarrow> size_t \<Rightarrow> rt \<Rightarrow> (cl_int \<times> ptr \<times> rt) outcome" where
  "clCreateBuffer env context flags0 sz host_ptr s =
     (if context = NULL then Ret (CL_INVALID_CONTEXT, NULL, s)
      else case new_obj env s of (mem, s) \<Rightarrow>
      if mem = NULL then Ret (CL_OUT_OF_HOST_MEMORY, NULL, s)
      else if sz = 0 then Ret (CL_OUT_OF_HOST_MEMORY, NULL, s)
      else let flags = (if flags0 = 0 then CL_MEM_READ_WRITE else flags0) in
      if flags > 1023 then Ret (CL_INVALID_VALUE, NULL, s)
      else if flags_conflict flags then Ret (CL_INVALID_VALUE, NULL, s)
      else if host_ptr_mismatch flags host_ptr then Ret (CL_INVALID_HOST_PTR, NULL, s)
      else obind (deref (contexts s context)) (\<lambda>c.
           obind (too_big_for sz (ctx_devices c) s) (\<lambda>too_big.
           if too_big then Ret (CL_INVALID_BUFFER_SIZE, NULL, s)
           else case new_obj env s of (ptrs, s) \<Rightarrow>
           if ptrs = NULL then Ret (CL_OUT_OF_HOST_MEMORY, NULL, s)
           else obind (alloc_on_devices env mem flags sz host_ptr [] (ctx_devices c)
                    (s\<lparr>mems := (mems s)(mem \<mapsto> (init_buffer env flags)\<lparr>device_ptrs := replicate (pocl_num_devices s) 0\<rparr>)\<rparr>)) (\<lambda>(ok, done_devs, s).
                if \<not> ok
                then obind (undo_alloc env mem flags done_devs s) (\<lambda>s.
                     Ret (CL_MEM_OBJECT_ALLOCATION_FAILURE, NULL, s\<lparr>mems := (mems s)(mem := None)\<rparr>))
                else obind (deref (mems s mem)) (\<lambda>m.
                     obind (retain_context context (s\<lparr>mems := (mems s)(mem \<mapsto> m\<lparr>m_size := sz, m_context := context\<rparr>)\<rparr>)) (\<lambda>s.
                     Ret (CL_SUCCESS, mem, s)))))))"

section \<open>Sub-buffers\<close>

definition CL_BUFFER_CREATE_TYPE_REGION :: cl_uint where "CL_BUFFER_CREATE_TYPE_REGION = 0x1220"

record cl_buffer_region =
  region_origin :: size_t
  sub_size :: size_t

text \<open>Access rights the parent does not have.\<close>

definition sub_flags_conflict :: "cl_bitfield \<Rightarrow> cl_bitfield \<Rightarrow> bool" where
  "sub_flags_conflict parent_flags flags \<longleftrightarrow>
     (has parent_flags CL_MEM_WRITE_ONLY \<and> has flags (CL_MEM_READ_WRITE OR CL_MEM_READ_ONLY)) \<or>
     (has parent_flags CL_MEM_READ_ONLY \<and> has flags (CL_MEM_READ_WRITE OR CL_MEM_WRITE_ONLY)) \<or>
     has flags (CL_MEM_USE_HOST_PTR OR CL_MEM_ALLOC_HOST_PTR OR CL_MEM_COPY_HOST_PTR) \<or>
     (has parent_flags CL_MEM_HOST_WRITE_ONLY \<and> has flags CL_MEM_HOST_READ_ONLY) \<or>
     (has parent_flags CL_MEM_HOST_READ_ONLY \<and> has flags CL_MEM_HOST_WRITE_ONLY) \<or>
     (has parent_flags CL_MEM_HOST_NO_ACCESS \<and> has flags (CL_MEM_HOST_READ_ONLY OR CL_MEM_HOST_WRITE_ONLY))"

definition access_bits :: "cl_bitfield \<Rightarrow> cl_bitfield" where
  "access_bits f = (f AND CL_MEM_READ_WRITE) OR (f AND CL_MEM_READ_ONLY) OR (f AND CL_MEM_WRITE_ONLY)"

definition sub_flags :: "cl_bitfield \<Rightarrow> cl_bitfield \<Rightarrow> cl_bitfield" where
  "sub_flags parent_flags flags =
     (if access_bits flags \<noteq> 0 then access_bits flags else access_bits parent_flags) OR
     (parent_flags AND CL_MEM_USE_HOST_PTR) OR (parent_flags AND CL_MEM_ALLOC_HOST_PTR) OR
     (parent_flags AND CL_MEM_COPY_HOST_PTR)"

text \<open>The loop over the devices: the pointers of the sub-buffer are those of the parent, moved by
  the origin.\<close>

definition sub_pointers :: "ptr \<Rightarrow> size_t \<Rightarrow> ptr option list \<Rightarrow> rt \<Rightarrow> size_t list \<Rightarrow> size_t list outcome" where
  "sub_pointers buffer origin ds s = oiter (\<lambda>d ptrs.
     obind (deref d) (\<lambda>device.
     obind (deref (devices s device)) (\<lambda>dev.
     obind (deref (mems s buffer)) (\<lambda>b.
     obind (c_nth (device_ptrs b) (dev_id dev)) (\<lambda>p.
     obind (c_nth ptrs (dev_id dev)) (\<lambda>_.
     Ret (ptrs[dev_id dev := p + origin]))))))) ds"

definition clCreateSubBuffer ::
  "env \<Rightarrow> ptr \<Rightarrow> cl_bitfield \<Rightarrow> cl_uint \<Rightarrow> cl_buffer_region option \<Rightarrow> rt \<Rightarrow> (cl_int \<times> ptr \<times> rt) outcome" where
  "clCreateSubBuffer env buffer flags buffer_create_type buffer_create_info s =
     (if buffer = NULL then Ret (CL_INVALID_MEM_OBJECT, NULL, s)
      else obind (deref (mems s buffer)) (\<lambda>b.
      if m_parent b \<noteq> NULL then Ret (CL_INVALID_MEM_OBJECT, NULL, s)
      else case buffer_create_info of
        None \<Rightarrow> Ret (CL_INVALID_VALUE, NULL, s)
      | Some info \<Rightarrow>
          if buffer_create_type \<noteq> CL_BUFFER_CREATE_TYPE_REGION then Ret (CL_INVALID_VALUE, NULL, s)
          else if sub_size info = 0 then Ret (CL_INVALID_BUFFER_SIZE, NULL, s)
          else if sub_size info + region_origin info > m_size b then Ret (CL_INVALID_VALUE, NULL, s)
          else case new_obj env s of (mem, s) \<Rightarrow>
          if mem = NULL then Ret (CL_OUT_OF_HOST_MEMORY, NULL, s)
          else if sub_flags_conflict (m_flags b) flags then Ret (CL_INVALID_VALUE, NULL, s)
          else case new_obj env s of (arr, s) \<Rightarrow>
          if arr = NULL then Ret (CL_OUT_OF_HOST_MEMORY, NULL, s)
          else let m = (raw_mem env)\<lparr>m_refcount := 1, mappings := [], m_parent := buffer, m_type := CL_MEM_OBJECT_BUFFER,
                     m_size := sub_size info, m_context := m_context b, m_flags := sub_flags (m_flags b) flags\<rparr>;
                   m = (if has (m_flags m) CL_MEM_USE_HOST_PTR
                        then m\<lparr>mem_host_ptr := mem_host_ptr b + region_origin info\<rparr> else m)
               in obind (deref (contexts s (m_context m))) (\<lambda>c.
                  obind (sub_pointers buffer (region_origin info) (ctx_devices c) s (replicate (pocl_num_devices s) 0)) (\<lambda>ptrs.
                  obind (retain_mem buffer (s\<lparr>mems := (mems s)(mem \<mapsto> m\<lparr>device_ptrs := ptrs\<rparr>)\<rparr>)) (\<lambda>s.
                  obind (retain_context (m_context b) s) (\<lambda>s.
                  Ret (CL_SUCCESS, mem, s)))))))"

section \<open>Contexts\<close>

definition CL_CONTEXT_PLATFORM :: int where "CL_CONTEXT_PLATFORM = 0x1084"

text \<open>The loop over a property list, which ends with 0: an error, or the number of properties.
  \<open>seen\<close> are the names before the current one.\<close>

fun scan_properties :: "int \<Rightarrow> int list \<Rightarrow> int list \<Rightarrow> (cl_int + nat) outcome" where
  "scan_properties platform seen [] = Undef"
| "scan_properties platform seen (name # rest) =
     (if name = 0 then Ret (Inr (length seen))
      else if name \<in> set seen then Ret (Inl CL_INVALID_PROPERTY)
      else if name = CL_CONTEXT_PLATFORM
      then (case rest of
              [] \<Rightarrow> Undef
            | val # rest' \<Rightarrow>
                if val \<noteq> platform then Ret (Inl CL_INVALID_PLATFORM)
                else scan_properties platform (seen @ [name]) rest')
      else Ret (Inl CL_INVALID_PROPERTY))"

text \<open>The error, or the properties the context keeps.\<close>

definition context_set_properties :: "env \<Rightarrow> int list option \<Rightarrow> rt \<Rightarrow> ((cl_int + int list option) \<times> rt) outcome" where
  "context_set_properties env properties s =
     (case properties of
        None \<Rightarrow> Ret (Inr None, s)
      | Some ps \<Rightarrow>
          obind (scan_properties (platform_id env) [] ps) (\<lambda>res.
          case res of
            Inl code \<Rightarrow> Ret (Inl code, s)
          | Inr num_properties \<Rightarrow>
              (case new_obj env s of (p, s) \<Rightarrow>
               if p = NULL then Ret (Inl CL_OUT_OF_HOST_MEMORY, s)
               else Ret (Inr (Some (take (num_properties * 2 + 1) ps)), s))))"

text \<open>The loop over the given devices: the entries set, or the error.\<close>

fun pick_devices :: "ptr list \<Rightarrow> ptr list \<Rightarrow> rt \<Rightarrow> ((cl_int + ptr list) \<times> rt) outcome" where
  "pick_devices picked [] s = Ret (Inr picked, s)"
| "pick_devices picked (d # ds) s =
     (if d = NULL then Ret (Inl CL_INVALID_DEVICE, s)
      else obind (deref (devices s d)) (\<lambda>dev.
           obind (clRetainDevice d s) (\<lambda>(_, s).
           pick_devices (if available dev then picked @ [d] else picked) ds s)))"

text \<open>\<open>pocl\_init\_devices\<close> is called without its argument, which it reads unless the devices have
  been set up before. The entries of the array after the devices found are not set.\<close>

definition clCreateContext ::
  "env \<Rightarrow> int list option \<Rightarrow> ptr list option \<Rightarrow> rt \<Rightarrow> (cl_int \<times> ptr \<times> rt) outcome" where
  "clCreateContext env properties devs s =
     (case devs of
        None \<Rightarrow> Ret (CL_INVALID_VALUE, NULL, s)
      | Some ds \<Rightarrow>
          if ds = [] then Ret (CL_INVALID_VALUE, NULL, s)
          else if pocl_num_devices s = 0 then Undef
          else case new_obj env s of (context, s) \<Rightarrow>
          if context = NULL then Ret (CL_OUT_OF_HOST_MEMORY, NULL, s)
          else obind (context_set_properties env properties s) (\<lambda>(props, s).
          case props of
            Inl code \<Rightarrow> Ret (code, NULL, s)
          | Inr ps \<Rightarrow>
              (case new_obj env s of (arr, s) \<Rightarrow>
               if arr = NULL then Ret (CL_OUT_OF_HOST_MEMORY, NULL, s)
               else obind (pick_devices [] ds s) (\<lambda>(res, s).
                    case res of
                      Inl code \<Rightarrow> Ret (code, NULL, s)
                    | Inr picked \<Rightarrow>
                        Ret (CL_SUCCESS, context, s\<lparr>contexts := (contexts s)(context \<mapsto>
                          \<lparr>ctx_refcount = 1, ctx_devices = map Some picked @ replicate (length ds - length picked) None,
                           ctx_properties = ps, valid = True\<rparr>)\<rparr>)))))"

text \<open>
  The loop of \<open>clCreateContextFromType\<close> over the table. The entry \<open>i\<close> of the table becomes the entry
  \<open>j\<close> of the context, but the agent is stored through the entry \<open>i\<close> of the context: that is another
  device, or none.
\<close>

fun fill_context :: "env \<Rightarrow> cl_bitfield \<Rightarrow> nat \<Rightarrow> ptr list \<Rightarrow> ptr list \<Rightarrow> rt \<Rightarrow> (ptr list \<times> rt) outcome" where
  "fill_context env device_type i filled [] s = Ret (filled, s)"
| "fill_context env device_type i filled (d # ds) s =
     obind (deref (devices s d)) (\<lambda>dev.
     if matches device_type dev
     then obind (if has device_type (CL_DEVICE_TYPE_GPU OR CL_DEVICE_TYPE_DEFAULT) \<and> \<not> isHSAinit dev
                 then obind (init_hsa env d s) (\<lambda>s.
                      obind (c_nth (filled @ [d]) i) (\<lambda>e. set_agent env e s))
                 else Ret s) (\<lambda>s.
          obind (clRetainDevice d s) (\<lambda>(_, s).
          fill_context env device_type (Suc i) (filled @ [d]) ds s))
     else fill_context env device_type (Suc i) filled ds s)"

fun count_matching :: "cl_bitfield \<Rightarrow> ptr list \<Rightarrow> rt \<Rightarrow> nat outcome" where
  "count_matching device_type [] s = Ret 0"
| "count_matching device_type (d # ds) s =
     obind (deref (devices s d)) (\<lambda>dev.
     obind (count_matching device_type ds s) (\<lambda>n. Ret (if matches device_type dev then Suc n else n)))"

text \<open>Without a device of the type the context is a dummy that is not valid; its
  device array is not set.\<close>

definition clCreateContextFromType ::
  "env \<Rightarrow> int list option \<Rightarrow> cl_bitfield \<Rightarrow> rt \<Rightarrow> (cl_int \<times> ptr \<times> rt) outcome" where
  "clCreateContextFromType env properties device_type s =
     obind (pocl_init_devices env device_type s) (\<lambda>s.
     case new_obj env s of (context, s) \<Rightarrow>
     if context = NULL then Ret (CL_OUT_OF_HOST_MEMORY, NULL, s)
     else obind (context_set_properties env properties s) (\<lambda>(props, s).
     case props of
       Inl code \<Rightarrow> Ret (code, NULL, s)
     | Inr ps \<Rightarrow>
         obind (count_matching device_type (pocl_devices s) s) (\<lambda>num_devices.
         if num_devices = 0
         then Ret (CL_DEVICE_NOT_FOUND, context, s\<lparr>contexts := (contexts s)(context \<mapsto>
                \<lparr>ctx_refcount = 1, ctx_devices = [None], ctx_properties = ps, valid = False\<rparr>)\<rparr>)
         else case new_obj env s of (arr, s) \<Rightarrow>
              if arr = NULL then Ret (CL_OUT_OF_HOST_MEMORY, NULL, s)
              else obind (fill_context env device_type 0 [] (pocl_devices s) s) (\<lambda>(filled, s).
                   Ret (CL_SUCCESS, context, s\<lparr>contexts := (contexts s)(context \<mapsto>
                     \<lparr>ctx_refcount = 1, ctx_devices = map Some filled, ctx_properties = ps, valid = True\<rparr>)\<rparr>)))))"

section \<open>Command queues\<close>

text \<open>Whether the device is one of the context is found out, but nothing depends on it.\<close>

definition clCreateCommandQueue ::
  "env \<Rightarrow> ptr \<Rightarrow> ptr \<Rightarrow> cl_bitfield \<Rightarrow> rt \<Rightarrow> (cl_int \<times> ptr \<times> rt) outcome" where
  "clCreateCommandQueue env context device properties s =
     (if properties > 3 then Ret (CL_INVALID_VALUE, NULL, s)
      else if has properties CL_QUEUE_OUT_OF_ORDER_EXEC_MODE_ENABLE then Ret (CL_INVALID_QUEUE_PROPERTIES, NULL, s)
      else obind (deref (contexts s context)) (\<lambda>c.
      case new_obj env s of (q, s) \<Rightarrow>
      if q = NULL then Ret (CL_OUT_OF_HOST_MEMORY, NULL, s)
      else obind (deref (devices s device)) (\<lambda>dev.
           obind (if has (dev_type dev) CL_DEVICE_TYPE_GPU then obind (hsa_call env s) (hsa_call env) else Ret s) (\<lambda>s.
           Ret (CL_SUCCESS, q, s\<lparr>queues := (queues s)(q \<mapsto>
             \<lparr>q_refcount = 1, q_context = context, q_device = device, q_properties = properties, root = []\<rparr>)\<rparr>)))))"

text \<open>The function of OpenCL 2.0 has the same body, and takes the old bit field of properties.\<close>

definition clCreateCommandQueueWithProperties ::
  "env \<Rightarrow> ptr \<Rightarrow> ptr \<Rightarrow> cl_bitfield \<Rightarrow> rt \<Rightarrow> (cl_int \<times> ptr \<times> rt) outcome" where
  "clCreateCommandQueueWithProperties = clCreateCommandQueue"

end
