(* ===== verification/Creation_Claims.thy ===== *)
theory Creation_Claims
  imports Creation Queue_Claims
begin

text \<open>
  What the creation of objects guarantees: a buffer that is created and released leaves nothing
  behind, the reference count a buffer starts with, sub-buffers as windows into their parent,
  the life of a context, and the list of devices a query returns.
\<close>

section \<open>Buffers\<close>

text \<open>Freeing a block, whatever was written into it, gives back the memory from before.\<close>

lemma memalign_free:
  assumes "library_ok lib" "posix_memalign lib m algn sz = Some (p, m1)"
    and "\<And>a. \<not> in_range p (unat sz) a \<Longrightarrow> bytes m2 a = bytes m1 a" "blocks m2 = blocks m1" "regions m2 = regions m1"
  shows "c_free m2 p = Ret m"
proof -
  have pl: "place lib m algn sz = Some p" using assms(2) by (auto simp: posix_memalign_def split: option.splits)
  then have ok: "p \<noteq> 0" "blocks m p = None" "\<And>a. in_range p (unat sz) a \<Longrightarrow> bytes m a = None"
    using assms(1) unfolding library_ok_def by blast+
  have m1: "m1 = m\<lparr>bytes := (\<lambda>a. if in_range p (unat sz) a then Some (junk lib m a) else bytes m a), blocks := (blocks m)(p \<mapsto> sz)\<rparr>"
    using assms(2) pl by (simp add: posix_memalign_def)
  have "(\<lambda>a. if in_range p (unat sz) a then None else bytes m2 a) = bytes m" using assms(3) ok(3) by (auto simp: m1)
  then show ?thesis using assms(4,5) ok(1,2) by (cases m) (simp add: c_free_def m1 fun_upd_idem)
qed

lemma basic_malloc_free:
  assumes "library_ok lib" "pocl_basic_malloc lib m d flags sz h = Ret (p, r)" "p \<noteq> 0"
    and "\<not> flags_conflict flags" "\<not> host_ptr_mismatch flags h"
  shows "pocl_basic_free r d flags p = Ret m"
proof (cases "has flags CL_MEM_USE_HOST_PTR")
  case True
  then have "\<not> has flags CL_MEM_COPY_HOST_PTR" "h \<noteq> 0" using assms(4,5) by (auto simp: flags_conflict_def host_ptr_mismatch_def)
  then show ?thesis using True assms(2) by (simp add: pocl_basic_malloc_def pocl_basic_free_def)
next
  case False
  obtain m1 where m1: "posix_memalign lib m MAX_EXTENDED_ALIGNMENT sz = Some (p, m1)"
    "r = m1 \<or> memcpy m1 p h sz = Ret r"
    using False assms(2,3) by (auto simp: pocl_basic_malloc_def outcome_simps split: if_splits option.splits)
  then have "c_free r p = Ret m"
    by (intro memalign_free [OF assms(1) m1(1)]) (auto simp: memcpy_Ret_iff copy_bytes_def)
  then show ?thesis using False by (simp add: pocl_basic_free_def)
qed

text \<open>A context with one CPU device on which the buffer can be created.\<close>

definition one_device :: "env \<Rightarrow> rt \<Rightarrow> ptr \<Rightarrow> cl_context \<Rightarrow> ptr \<Rightarrow> device \<Rightarrow> bool" where
  "one_device env s context c d dev \<longleftrightarrow>
     context \<noteq> NULL \<and> contexts s context = Some c \<and> ctx_devices c = [Some d] \<and> devices s d = Some dev \<and>
     0 < ctx_refcount c \<and> ctx_refcount c < 2 ^ 31 - 1 \<and> \<not> has (dev_type dev) CL_DEVICE_TYPE_GPU \<and>
     dev_id dev < pocl_num_devices s \<and> \<not> malloc_fails env (tick s) \<and> \<not> malloc_fails env (Suc (tick s)) \<and>
     tick s \<noteq> 0 \<and> mems s (tick s) = None"

text \<open>The flags a new buffer gets.\<close>

definition given_flags :: "cl_bitfield \<Rightarrow> cl_bitfield" where
  "given_flags flags = (if flags = 0 then CL_MEM_READ_WRITE else flags)"

definition new_buffer :: "env \<Rightarrow> rt \<Rightarrow> ptr \<Rightarrow> nat \<Rightarrow> cl_bitfield \<Rightarrow> size_t \<Rightarrow> size_t \<Rightarrow> size_t \<Rightarrow> cl_mem" where
  "new_buffer env s context i flags sz h p = (init_buffer env flags)\<lparr>
     device_ptrs := (replicate (pocl_num_devices s) 0)[i := p],
     mem_host_ptr := (if has flags (CL_MEM_ALLOC_HOST_PTR OR CL_MEM_USE_HOST_PTR) then h else 0),
     m_size := sz, m_context := context\<rparr>"

lemma create_buffer_one:
  assumes o: "one_device env s context c d dev"
    and f: "sz \<noteq> 0" "given_flags flags \<le> 1023" "\<not> flags_conflict (given_flags flags)"
      "\<not> host_ptr_mismatch (given_flags flags) h" "sz \<le> max_mem_alloc_size dev"
    and m: "op_malloc (driver env d) (ram s) (dev_data dev) (given_flags flags) sz h = Ret (p, r)" "p \<noteq> 0"
  shows "clCreateBuffer env context flags sz h s = Ret (CL_SUCCESS, tick s, s\<lparr>tick := tick s + 2, ram := r,
    mems := (mems s)(tick s \<mapsto> new_buffer env s context (dev_id dev) (given_flags flags) sz h p),
    contexts := (contexts s)(context \<mapsto> c\<lparr>ctx_refcount := ctx_refcount c + 1\<rparr>)\<rparr>)"
  using assms unfolding one_device_def
  by (simp add: clCreateBuffer_def new_obj_def next_tick_def Let_def given_flags_def not_less c_nth_def
      retain_context_def POCL_RETAIN_OBJECT_def incr_def new_buffer_def)

lemma release_buffer_one:
  assumes "mems s b = Some m" "b \<noteq> NULL" "m_refcount m = 1" "m_parent m = NULL" "mappings m = []"
    and "contexts s (m_context m) = Some c" "ctx_refcount c \<noteq> - (2 ^ 31)" "ctx_devices c = [Some d]" "devices s d = Some dev"
    and "\<not> has (dev_type dev) CL_DEVICE_TYPE_GPU" "dev_id dev < length (device_ptrs m)"
    and "op_free (driver env d) (ram s) (dev_data dev) (m_flags m) (device_ptrs m ! dev_id dev) = Ret r"
  shows "clReleaseMemObject env b s = Ret (CL_SUCCESS, s\<lparr>ram := r, mems := (mems s)(b := None),
    contexts := (contexts s)(m_context m \<mapsto> c\<lparr>ctx_refcount := ctx_refcount c - 1\<rparr>)\<rparr>)"
  using assms
  by (simp add: clReleaseMemObject_def release_mem_def release_context_def POCL_RELEASE_OBJECT_def decr_def
      free_on_device_def on_ram_def c_nth_def)

text \<open>C4. Creating a buffer and releasing it leaves nothing behind: in a context with one device of
  the basic driver, whenever the driver gets the memory, \<open>clCreateBuffer\<close> returns a new object
  with the size and flags asked for and the block as its device pointer, and one
  \<open>clReleaseMemObject\<close> gives back the process memory, the memory objects and the reference
  count of the context exactly as they were.\<close>

theorem create_release_buffer:
  assumes o: "one_device env s context c d dev"
    and f: "sz \<noteq> 0" "given_flags flags \<le> 1023" "\<not> flags_conflict (given_flags flags)"
      "\<not> host_ptr_mismatch (given_flags flags) h" "sz \<le> max_mem_alloc_size dev"
    and d: "driver env d = basic_ops lib" "library_ok lib"
    and m: "pocl_basic_malloc lib (ram s) (dev_data dev) (given_flags flags) sz h = Ret (p, r)" "p \<noteq> 0"
  shows "\<exists>b s1 s2 m. clCreateBuffer env context flags sz h s = Ret (CL_SUCCESS, b, s1) \<and> mems s b = None \<and>
    mems s1 b = Some m \<and> m_size m = sz \<and> m_flags m = given_flags flags \<and> m_refcount m = 1 \<and>
    device_ptrs m ! dev_id dev = p \<and> ram s1 = r \<and>
    clReleaseMemObject env b s1 = Ret (CL_SUCCESS, s2) \<and> mems s2 = mems s \<and> contexts s2 = contexts s \<and> ram s2 = ram s"
proof -
  let ?m = "new_buffer env s context (dev_id dev) (given_flags flags) sz h p"
  let ?c = "c\<lparr>ctx_refcount := ctx_refcount c + 1\<rparr>"
  let ?s1 = "s\<lparr>tick := tick s + 2, ram := r, mems := (mems s)(tick s \<mapsto> ?m), contexts := (contexts s)(context \<mapsto> ?c)\<rparr>"
  note o' = o [unfolded one_device_def]
  have cr: "clCreateBuffer env context flags sz h s = Ret (CL_SUCCESS, tick s, ?s1)"
    using create_buffer_one [OF o f, of p r] m by (simp add: d(1) basic_ops_def)
  have fr: "pocl_basic_free r (dev_data dev) (given_flags flags) p = Ret (ram s)"
    using basic_malloc_free [OF d(2) m f(3,4)] .
  have p: "device_ptrs ?m ! dev_id dev = p" using o' by (simp add: new_buffer_def)
  have "clReleaseMemObject env (tick s) ?s1 = Ret (CL_SUCCESS, ?s1\<lparr>ram := ram s, mems := (mems ?s1)(tick s := None),
      contexts := (contexts ?s1)(m_context ?m \<mapsto> ?c\<lparr>ctx_refcount := ctx_refcount ?c - 1\<rparr>)\<rparr>)"
    by (rule release_buffer_one [where d = d and dev = dev])
      (use o' p fr in \<open>simp_all add: new_buffer_def init_buffer_def d(1) basic_ops_def\<close>)
  moreover have "(contexts ?s1)(m_context ?m \<mapsto> ?c\<lparr>ctx_refcount := ctx_refcount ?c - 1\<rparr>) = contexts s"
    using o' by (simp add: new_buffer_def fun_upd_idem)
  moreover have "(mems ?s1)(tick s := None) = mems s" using o' by (simp add: fun_upd_idem)
  ultimately show ?thesis using cr p o' by (auto simp: new_buffer_def init_buffer_def)
qed

lemma demo_one_device: "one_device demo_env demo_rt 2 \<lparr>ctx_refcount = 2, ctx_devices = [Some 1], ctx_properties = None, valid = True\<rparr> 1 demo_device"
  by (simp add: one_device_def demo_rt_def demo_device_def demo_env_def has_def CL_DEVICE_TYPE_CPU_def CL_DEVICE_TYPE_GPU_def)

lemma demo_place: "place demo_library demo_memory MAX_EXTENDED_ALIGNMENT 16 = Some 0x10000"
  by (simp add: demo_library_def demo_memory_def MAX_EXTENDED_ALIGNMENT_def mapped_def in_range_def upt_rec)

theorem create_release_buffer_witness:
  "\<exists>b s1 s2 m. clCreateBuffer demo_env 2 0 16 0 demo_rt = Ret (CL_SUCCESS, b, s1) \<and> mems s1 b = Some m \<and>
     device_ptrs m ! 0 = 0x10000 \<and> clReleaseMemObject demo_env b s1 = Ret (CL_SUCCESS, s2) \<and> ram s2 = demo_memory"
proof -
  have fl: "given_flags 0 = 1" by (simp add: given_flags_def CL_MEM_READ_WRITE_def)
  obtain r where "pocl_basic_malloc demo_library (ram demo_rt) (dev_data demo_device) (given_flags 0) 16 0 = Ret (0x10000, r)"
    using demo_place demo_objects(10) by (simp add: fl pocl_basic_malloc_def posix_memalign_def has_def mem_flag_defs)
  then show ?thesis
    using create_release_buffer [OF demo_one_device, of 16 0 0 demo_library "0x10000" r] demo_library_ok demo_objects
    by (auto simp: fl flags_conflict_def host_ptr_mismatch_def has_def mem_flag_defs demo_device_def)
qed

section \<open>Buffers in contexts with several devices\<close>

text \<open>Every device after the first adds a reference to the buffer.\<close>

lemma alloc_on_devices_count:
  assumes "alloc_on_devices env b fl sz h dn ds s = Ret (True, dn', s')" "mems s b = Some m"
  shows "\<exists>m'. mems s' b = Some m' \<and> contexts s' = contexts s \<and>
    m_refcount m' = m_refcount m + int (length ds) - (if dn = [] \<and> ds \<noteq> [] then 1 else 0)"
  using assms
proof (induction ds arbitrary: dn s m)
  case (Cons d ds)
  have "\<exists>s1 m1. alloc_on_devices env b fl sz h (dn @ [d]) ds s1 = Ret (True, dn', s') \<and> mems s1 b = Some m1 \<and>
      contexts s1 = contexts s \<and> m_refcount m1 = m_refcount m + (if dn = [] then 0 else 1)"
    using Cons.prems
    by (auto simp: outcome_simps Let_def clRetainMemObject_def retain_mem_def mem_rc.retain_Ret_iff split: if_splits
        intro!: exI)
  then obtain s1 m1 where "alloc_on_devices env b fl sz h (dn @ [d]) ds s1 = Ret (True, dn', s')" "mems s1 b = Some m1"
    and "contexts s1 = contexts s" "m_refcount m1 = m_refcount m + (if dn = [] then 0 else 1)"
    by blast
  with Cons.IH [of "dn @ [d]" s1 m1] show ?case by auto
qed auto

lemma retain_context_Ret:
  "retain_context p s = Ret s' \<Longrightarrow> mems s' = mems s \<and> ram s' = ram s"
  by (auto simp: retain_context_def outcome_simps)

lemma created_count:
  assumes "clCreateBuffer env context flags sz h s = Ret (CL_SUCCESS, b, s1)" "contexts s context = Some c"
  shows "\<exists>m. mems s1 b = Some m \<and> m_refcount m = max 1 (int (length (ctx_devices c))) \<and> b \<noteq> NULL"
proof -
  obtain fl dn u where u: "alloc_on_devices env b fl sz h [] (ctx_devices c)
      (s\<lparr>tick := tick s + 2, mems := (mems s)(b \<mapsto> (init_buffer env fl)\<lparr>device_ptrs := replicate (pocl_num_devices s) 0\<rparr>)\<rparr>) = Ret (True, dn, u)"
    and b: "b \<noteq> NULL" and r: "\<exists>m. mems u b = Some m \<and> retain_context context (u\<lparr>mems := (mems u)(b \<mapsto> m\<lparr>m_size := sz, m_context := context\<rparr>)\<rparr>) = Ret s1"
    using assms by (auto simp: clCreateBuffer_def Let_def new_obj_def next_tick_def outcome_simps split: if_splits)
  obtain m where "mems u b = Some m" "m_refcount m = 1 + int (length (ctx_devices c)) - (if ctx_devices c \<noteq> [] then 1 else 0)"
    using alloc_on_devices_count [OF u] by (auto simp: init_buffer_def)
  then show ?thesis using r b retain_context_Ret by (fastforce simp: Suc_le_eq)
qed

text \<open>In a context with several devices a buffer starts with as many references as there are
  devices: whenever \<open>clCreateBuffer\<close> succeeds there, the release of the one reference the caller
  has leaves the buffer and all its device memory in place.\<close>

theorem multi_device_buffer_leaks:
  assumes "clCreateBuffer env context flags sz h s = Ret (CL_SUCCESS, b, s1)" "contexts s context = Some c"
    and "2 \<le> length (ctx_devices c)"
  shows "\<exists>m s2. mems s1 b = Some m \<and> m_refcount m = int (length (ctx_devices c)) \<and>
    clReleaseMemObject env b s1 = Ret (CL_SUCCESS, s2) \<and> mems s2 b \<noteq> None \<and> ram s2 = ram s1"
proof -
  obtain m where m: "mems s1 b = Some m" "m_refcount m = int (length (ctx_devices c))" "b \<noteq> NULL"
    using created_count [OF assms(1,2)] assms(3) by auto
  then have "clReleaseMemObject env b s1 = Ret (CL_SUCCESS, s1\<lparr>mems := (mems s1)(b \<mapsto> m\<lparr>m_refcount := m_refcount m - 1\<rparr>)\<rparr>)"
    using assms(3) by (simp add: clReleaseMemObject_def release_mem_def POCL_RELEASE_OBJECT_def decr_def)
  then show ?thesis using m by simp
qed

text \<open>Two devices share the buffer at the host address 0x1000.\<close>

definition demo_two :: rt where
  "demo_two = demo_rt\<lparr>devices := [1 \<mapsto> demo_device, 6 \<mapsto> demo_device\<lparr>dev_id := 1\<rparr>], pocl_num_devices := 2, pocl_devices := [1, 6],
     contexts := [2 \<mapsto> \<lparr>ctx_refcount = 2, ctx_devices = [Some 1, Some 6], ctx_properties = None, valid = True\<rparr>]\<rparr>"

theorem multi_device_buffer_leaks_witness:
  "\<exists>b s1 s2. clCreateBuffer demo_env 2 8 16 0x1000 demo_two = Ret (CL_SUCCESS, b, s1) \<and>
     clReleaseMemObject demo_env b s1 = Ret (CL_SUCCESS, s2) \<and> mems s2 b \<noteq> None"
proof -
  have "\<exists>b s1. clCreateBuffer demo_env 2 8 16 0x1000 demo_two = Ret (CL_SUCCESS, b, s1)"
    by (simp add: clCreateBuffer_def new_obj_def next_tick_def Let_def flags_conflict_def host_ptr_mismatch_def has_def mem_flag_defs
        demo_two_def demo_rt_def demo_env_def demo_device_def basic_ops_def pocl_basic_malloc_def c_nth_def clRetainMemObject_def
        retain_mem_def retain_context_def POCL_RETAIN_OBJECT_def incr_def init_buffer_def)
  then obtain b s1 where "clCreateBuffer demo_env 2 8 16 0x1000 demo_two = Ret (CL_SUCCESS, b, s1)" by blast
  with multi_device_buffer_leaks [OF this, of "\<lparr>ctx_refcount = 2, ctx_devices = [Some 1, Some 6], ctx_properties = None, valid = True\<rparr>"]
  show ?thesis by (auto simp: demo_two_def)
qed

section \<open>Sub-buffers\<close>

definition devices_ready :: "rt \<Rightarrow> cl_mem \<Rightarrow> ptr option list \<Rightarrow> bool" where
  "devices_ready s m ds \<longleftrightarrow> (\<forall>d \<in> set ds. \<exists>x dev. d = Some x \<and> devices s x = Some dev \<and>
     dev_id dev < length (device_ptrs m) \<and> dev_id dev < pocl_num_devices s)"

lemma sub_pointers_shifted:
  assumes "devices_ready s mb ds" "mems s b = Some mb" "length ptrs = pocl_num_devices s"
  shows "\<exists>ptrs'. sub_pointers b origin ds s ptrs = Ret ptrs' \<and> length ptrs' = length ptrs \<and>
    (\<forall>i < length ptrs. ptrs' ! i = (if \<exists>x dev. Some x \<in> set ds \<and> devices s x = Some dev \<and> dev_id dev = i
       then device_ptrs mb ! i + origin else ptrs ! i))"
  using assms
proof (induction ds arbitrary: ptrs)
  case (Cons d ds)
  obtain x dev where d: "d = Some x" "devices s x = Some dev" "dev_id dev < length (device_ptrs mb)" "dev_id dev < pocl_num_devices s"
    using Cons.prems(1) by (auto simp: devices_ready_def)
  let ?ptrs = "ptrs[dev_id dev := device_ptrs mb ! dev_id dev + origin]"
  have "sub_pointers b origin (d # ds) s ptrs = sub_pointers b origin ds s ?ptrs"
    using d Cons.prems(2,3) by (simp add: sub_pointers_def c_nth_def)
  moreover have "devices_ready s mb ds" using Cons.prems(1) by (simp add: devices_ready_def)
  ultimately show ?case using Cons.IH [of ?ptrs] Cons.prems(2,3) d by (fastforce simp: nth_list_update)
qed (simp add: sub_pointers_def)

text \<open>The request for a part of a buffer that \<open>clCreateSubBuffer\<close> accepts.\<close>

definition sub_request_ok :: "env \<Rightarrow> rt \<Rightarrow> ptr \<Rightarrow> cl_mem \<Rightarrow> cl_context \<Rightarrow> cl_bitfield \<Rightarrow> cl_buffer_region \<Rightarrow> bool" where
  "sub_request_ok env s b mb c flags info \<longleftrightarrow>
     b \<noteq> NULL \<and> mems s b = Some mb \<and> m_parent mb = NULL \<and> contexts s (m_context mb) = Some c \<and>
     0 < m_refcount mb \<and> m_refcount mb < 2 ^ 31 - 2 \<and> 0 < ctx_refcount c \<and> ctx_refcount c < 2 ^ 31 - 1 \<and>
     devices_ready s mb (ctx_devices c) \<and> sub_size info \<noteq> 0 \<and>
     unat (region_origin info) + unat (sub_size info) \<le> unat (m_size mb) \<and> \<not> sub_flags_conflict (m_flags mb) flags \<and>
     \<not> malloc_fails env (tick s) \<and> \<not> malloc_fails env (Suc (tick s)) \<and> tick s \<noteq> 0 \<and> mems s (tick s) = None"

lemma unat_add_le:
  fixes a b c :: size_t
  shows "unat a + unat b \<le> unat c \<Longrightarrow> unat (a + b) = unat a + unat b"
  using unsigned_less [of c, where ?'a = nat] by (subst unat_add_lem [THEN iffD1]) auto

lemma create_sub_buffer:
  assumes "sub_request_ok env s b mb c flags info"
  shows "\<exists>sub s1. clCreateSubBuffer env b flags CL_BUFFER_CREATE_TYPE_REGION (Some info) s = Ret (CL_SUCCESS, tick s, s1) \<and>
    s1 = s\<lparr>tick := tick s + 2, mems := (mems s)(tick s \<mapsto> sub, b \<mapsto> mb\<lparr>m_refcount := m_refcount mb + 1\<rparr>),
           contexts := (contexts s)(m_context mb \<mapsto> c\<lparr>ctx_refcount := ctx_refcount c + 1\<rparr>)\<rparr> \<and>
    m_refcount sub = 1 \<and> m_size sub = sub_size info \<and> m_parent sub = b \<and> m_context sub = m_context mb \<and>
    length (device_ptrs sub) = pocl_num_devices s \<and>
    (\<forall>x dev. Some x \<in> set (ctx_devices c) \<longrightarrow> devices s x = Some dev \<longrightarrow>
       device_ptrs sub ! dev_id dev = device_ptrs mb ! dev_id dev + region_origin info)"
proof -
  note a = assms [unfolded sub_request_ok_def]
  let ?s2 = "s\<lparr>tick := tick s + 2\<rparr>"
  have rd: "devices_ready ?s2 mb (ctx_devices c)" using a by (simp add: devices_ready_def)
  obtain ptrs where p: "sub_pointers b (region_origin info) (ctx_devices c) ?s2 (replicate (pocl_num_devices s) 0) = Ret ptrs"
      "length ptrs = pocl_num_devices s"
      "\<And>i. i < pocl_num_devices s \<Longrightarrow> \<exists>x dev. Some x \<in> set (ctx_devices c) \<and> devices s x = Some dev \<and> dev_id dev = i \<Longrightarrow>
        ptrs ! i = device_ptrs mb ! i + region_origin info"
    using sub_pointers_shifted [OF rd, of b "replicate (pocl_num_devices s) 0" "region_origin info"] a by fastforce
  have fits: "\<not> m_size mb < sub_size info + region_origin info"
    using a unat_add_le [of "region_origin info" "sub_size info" "m_size mb"] by (simp add: word_less_nat_alt add.commute)
  let ?sub = "(let m = (raw_mem env)\<lparr>m_refcount := 1, mappings := [], m_parent := b, m_type := CL_MEM_OBJECT_BUFFER,
                     m_size := sub_size info, m_context := m_context mb, m_flags := sub_flags (m_flags mb) flags\<rparr> in
        (if has (m_flags m) CL_MEM_USE_HOST_PTR then m\<lparr>mem_host_ptr := mem_host_ptr mb + region_origin info\<rparr> else m))\<lparr>device_ptrs := ptrs\<rparr>"
  have ne: "b \<noteq> tick s" using a by auto
  have "clCreateSubBuffer env b flags CL_BUFFER_CREATE_TYPE_REGION (Some info) s = Ret (CL_SUCCESS, tick s,
     s\<lparr>tick := tick s + 2, mems := (mems s)(tick s \<mapsto> ?sub, b \<mapsto> mb\<lparr>m_refcount := m_refcount mb + 1\<rparr>),
           contexts := (contexts s)(m_context mb \<mapsto> c\<lparr>ctx_refcount := ctx_refcount c + 1\<rparr>)\<rparr>)"
    using a fits p(1) ne
    by (simp add: clCreateSubBuffer_def new_obj_def next_tick_def Let_def retain_mem_def retain_context_def POCL_RETAIN_OBJECT_def incr_def)
  moreover have "device_ptrs ?sub ! dev_id dev = device_ptrs mb ! dev_id dev + region_origin info"
    if "Some x \<in> set (ctx_devices c)" "devices s x = Some dev" for x dev
  proof -
    have "dev_id dev < pocl_num_devices s" using a that unfolding devices_ready_def by fastforce
    with that show ?thesis using p(3) [of "dev_id dev"] by (auto simp: Let_def)
  qed
  moreover have "length (device_ptrs ?sub) = pocl_num_devices s" using p(2) by (simp add: Let_def)
  moreover have "m_refcount ?sub = 1" "m_size ?sub = sub_size info" "m_parent ?sub = b" "m_context ?sub = m_context mb"
    by (simp_all add: Let_def)
  ultimately show ?thesis by blast
qed

lemma takeWhile_shorter: "x \<in> set xs \<Longrightarrow> length (takeWhile (\<lambda>y. y \<noteq> x) xs) < length xs"
  by (induction xs) auto

text \<open>A queue can still be drained when objects have been added or retained.\<close>

lemma drainable_grow:
  assumes "drainable env q s"
    and "queues s' = queues s" "devices s' = devices s" "maps s' = maps s" "events s' = events s" "ram s' = ram s"
    and grow: "\<And>p m. mems s p = Some m \<Longrightarrow>
      \<exists>m'. mems s' p = Some m' \<and> m_refcount m \<le> m_refcount m' \<and> length (device_ptrs m') = length (device_ptrs m)"
  shows "drainable env q s'"
proof -
  have "node_ready i s' n" if rd: "node_ready i s n" for i n
  proof (cases "cmd n")
    case (Cmd_map b mi)
    then obtain m where "mems s b = Some m" "i < length (device_ptrs m)"
      using rd by (auto simp: node_ready_def cmd_ready_def)
    with grow [of b m] rd assms(2-6) Cmd_map show ?thesis by (auto simp: node_ready_def cmd_ready_def event_live_def)
  qed (use rd assms(2-6) in \<open>auto simp: node_ready_def cmd_ready_def event_live_def\<close>)
  moreover have "refs_kept cs s'" if "refs_kept cs s" for cs
    using that by (rule refs_kept_mono) (use grow in blast)
  ultimately show ?thesis using assms(1) unfolding drainable_def assms(2,3) by blast
qed

text \<open>C22. A sub-buffer is a window into its parent: for a range inside the parent the call
  \<open>clCreateSubBuffer\<close> succeeds, and a blocking read or write of a part of the sub-buffer, on any queue of the
  context, does to the memory what the same call on the parent does at the offset moved by the
  origin.\<close>

theorem sub_buffer_aliases_parent:
  assumes r: "sub_request_ok env s b mb c flags info"
    and dr: "drainable env q s" and q: "queues s q = Some cq" "devices s (q_device cq) = Some dev" "q \<noteq> NULL"
      "q_context cq = m_context mb" "Some (q_device cq) \<in> set (ctx_devices c)"
    and range: "unat off + unat cb \<le> unat (sub_size info)" "h \<noteq> 0"
    and p: "p = device_ptrs mb ! dev_id dev + (region_origin info + off)" and mv: "movable (ram s) h p (unat cb)"
  shows "\<exists>x s1 t u t' u'. clCreateSubBuffer env b flags CL_BUFFER_CREATE_TYPE_REGION (Some info) s = Ret (CL_SUCCESS, x, s1) \<and>
    clEnqueueReadBuffer env q x True off cb h 0 None False s1 = Ret (CL_SUCCESS, NULL, t) \<and>
    clEnqueueReadBuffer env q b True (region_origin info + off) cb h 0 None False s1 = Ret (CL_SUCCESS, NULL, u) \<and> ram t = ram u \<and>
    clEnqueueWriteBuffer env q x True off cb h 0 None False s1 = Ret (CL_SUCCESS, NULL, t') \<and>
    clEnqueueWriteBuffer env q b True (region_origin info + off) cb h 0 None False s1 = Ret (CL_SUCCESS, NULL, u') \<and> ram t' = ram u'"
proof -
  let ?x = "tick s" and ?o = "region_origin info + off"
  note a = r [unfolded sub_request_ok_def]
  obtain sub s1 where cr: "clCreateSubBuffer env b flags CL_BUFFER_CREATE_TYPE_REGION (Some info) s = Ret (CL_SUCCESS, ?x, s1)"
    and s1: "s1 = s\<lparr>tick := tick s + 2, mems := (mems s)(?x \<mapsto> sub, b \<mapsto> mb\<lparr>m_refcount := m_refcount mb + 1\<rparr>),
           contexts := (contexts s)(m_context mb \<mapsto> c\<lparr>ctx_refcount := ctx_refcount c + 1\<rparr>)\<rparr>"
    and sub: "m_refcount sub = 1" "m_size sub = sub_size info" "m_context sub = m_context mb" "length (device_ptrs sub) = pocl_num_devices s"
      "device_ptrs sub ! dev_id dev = device_ptrs mb ! dev_id dev + region_origin info"
    using create_sub_buffer [OF r] q(2,5) by blast
  have ne: "b \<noteq> ?x" using a by auto
  have ids: "dev_id dev < length (device_ptrs mb)" "dev_id dev < pocl_num_devices s"
    using a q(2,5) unfolding devices_ready_def by fastforce+
  have dr1: "drainable env q s1" by (rule drainable_grow [OF dr]) (use a in \<open>auto simp: s1\<close>)
  have q1: "queues s1 q = Some cq" "devices s1 (q_device cq) = Some dev" using q by (simp_all add: s1)
  have sizes: "unat (off + cb) = unat off + unat cb" "unat (region_origin info + off) = unat (region_origin info) + unat off"
    using range a unat_add_le [of off cb "sub_size info"] unat_add_le [of "region_origin info" off "m_size mb"] by linarith+
  have "unat (?o + cb) = unat ?o + unat cb" using sizes range a unat_add_le [of ?o cb "m_size mb"] by linarith
  then have bounds: "\<not> m_size sub < off + cb" "\<not> m_size mb < ?o + cb" using sizes range a sub(2) by (simp_all add: word_less_nat_alt)
  have di: "length (takeWhile (\<lambda>x. x \<noteq> Some (q_device cq)) (ctx_devices c)) < length (ctx_devices c)"
    by (rule takeWhile_shorter [OF q(5)])
  have ok: "transfer_checks q ?x off cb h 0 None s1 = Ret CL_SUCCESS" "transfer_checks q b ?o cb h 0 None s1 = Ret CL_SUCCESS"
    using q a range(2) sub bounds ne di by (simp_all add: transfer_checks_def s1 bad_wait_list_def device_index_def)
  have mx: "mems s1 ?x = Some sub" "mems s1 b = Some (mb\<lparr>m_refcount := m_refcount mb + 1\<rparr>)" using ne by (simp_all add: s1)
  have px: "device_ptrs sub ! dev_id dev + off = p" "device_ptrs (mb\<lparr>m_refcount := m_refcount mb + 1\<rparr>) ! dev_id dev + ?o = p"
    using sub(5) p by (simp_all add: add.assoc)
  have mv1: "movable (ram s1) h p (unat cb)" "movable (ram s1) p h (unat cb)"
    using mv by (auto simp: s1 movable_def apart_def)
  note x = blocking_calls [OF dr1 q1 mx(1) _ _ _ ok(1), unfolded px]
  note y = blocking_calls [OF dr1 q1 mx(2) _ _ _ ok(2), unfolded px]
  let ?ops = "driver env (q_device cq)"
  obtain t u t' u' where "clEnqueueReadBuffer env q ?x True off cb h 0 None False s1 = Ret (CL_SUCCESS, NULL, t)"
      "transferred ?ops (\<lambda>r. op_read ?ops r h p cb) q cq NULL s1 t"
      "clEnqueueReadBuffer env q b True ?o cb h 0 None False s1 = Ret (CL_SUCCESS, NULL, u)"
      "transferred ?ops (\<lambda>r. op_read ?ops r h p cb) q cq NULL s1 u"
      "clEnqueueWriteBuffer env q ?x True off cb h 0 None False s1 = Ret (CL_SUCCESS, NULL, t')"
      "transferred ?ops (\<lambda>r. op_write ?ops r h p cb) q cq NULL s1 t'"
      "clEnqueueWriteBuffer env q b True ?o cb h 0 None False s1 = Ret (CL_SUCCESS, NULL, u')"
      "transferred ?ops (\<lambda>r. op_write ?ops r h p cb) q cq NULL s1 u'"
    using x y mv1 sub a ids by auto
  then show ?thesis using cr by (auto simp: transferred_def)
qed

definition demo_part :: cl_buffer_region where
  "demo_part = \<lparr>region_origin = 4, sub_size = 8\<rparr>"

lemma demo_sub_request:
  "sub_request_ok demo_env demo_rt 4 demo_buffer \<lparr>ctx_refcount = 2, ctx_devices = [Some 1], ctx_properties = None, valid = True\<rparr> 0 demo_part"
  by (simp add: sub_request_ok_def devices_ready_def demo_rt_def demo_buffer_def demo_part_def demo_env_def demo_device_def
      sub_flags_conflict_def has_def)

theorem sub_buffer_aliases_parent_witness:
  "\<exists>x s1 t u. clCreateSubBuffer demo_env 4 0 CL_BUFFER_CREATE_TYPE_REGION (Some demo_part) demo_rt = Ret (CL_SUCCESS, x, s1) \<and>
     clEnqueueReadBuffer demo_env 3 x True 2 4 0x1000 0 None False s1 = Ret (CL_SUCCESS, NULL, t) \<and>
     clEnqueueReadBuffer demo_env 3 4 True 6 4 0x1000 0 None False s1 = Ret (CL_SUCCESS, NULL, u) \<and> ram t = ram u"
proof -
  have "movable demo_memory 0x1000 0x1016 4"
    unfolding movable_def by (auto intro!: apart_code simp: overlap_def mapped_def demo_memory_def in_range_def upt_rec)
  then show ?thesis
    using sub_buffer_aliases_parent [OF demo_sub_request demo_drainable demo_objects(1,2), of 2 4 "0x1000" "0x1016"]
    by (fastforce simp: demo_objects demo_queue_def demo_part_def demo_buffer_def demo_device_def)
qed

text \<open>A parent that is released before its sub-buffer is never freed: releasing the sub-buffer
  brings the parent's reference count to 0, but the parent stays, and with it its device
  memory.\<close>

theorem released_parent_stays:
  assumes r: "sub_request_ok env s b mb c flags info" and "m_refcount mb = 1"
  shows "\<exists>x s1 s2 s3. clCreateSubBuffer env b flags CL_BUFFER_CREATE_TYPE_REGION (Some info) s = Ret (CL_SUCCESS, x, s1) \<and>
    clReleaseMemObject env b s1 = Ret (CL_SUCCESS, s2) \<and> clReleaseMemObject env x s2 = Ret (CL_SUCCESS, s3) \<and>
    mems s3 = (mems s)(b \<mapsto> mb\<lparr>m_refcount := 0\<rparr>) \<and> ram s3 = ram s"
proof -
  let ?x = "tick s"
  note a = r [unfolded sub_request_ok_def]
  obtain sub s1 where cr: "clCreateSubBuffer env b flags CL_BUFFER_CREATE_TYPE_REGION (Some info) s = Ret (CL_SUCCESS, ?x, s1)"
    and s1: "s1 = s\<lparr>tick := tick s + 2, mems := (mems s)(?x \<mapsto> sub, b \<mapsto> mb\<lparr>m_refcount := m_refcount mb + 1\<rparr>),
           contexts := (contexts s)(m_context mb \<mapsto> c\<lparr>ctx_refcount := ctx_refcount c + 1\<rparr>)\<rparr>"
    and sub: "m_refcount sub = 1" "m_context sub = m_context mb" "m_parent sub = b"
    using create_sub_buffer [OF r] by blast
  have ne: "b \<noteq> ?x" using a by auto
  let ?s2 = "s1\<lparr>mems := (mems s1)(b \<mapsto> mb\<lparr>m_refcount := 1\<rparr>)\<rparr>"
  have "clReleaseMemObject env b s1 = Ret (CL_SUCCESS, ?s2)"
    using a assms(2) by (simp add: clReleaseMemObject_def release_mem_def POCL_RELEASE_OBJECT_def decr_def s1)
  moreover have "\<exists>s3. clReleaseMemObject env ?x ?s2 = Ret (CL_SUCCESS, s3) \<and> ram s3 = ram s \<and>
      mems s3 = (mems s)(b \<mapsto> mb\<lparr>m_refcount := 0\<rparr>)"
    using a ne sub
    by (auto simp: clReleaseMemObject_def release_mem_def release_context_def POCL_RELEASE_OBJECT_def decr_def s1 fun_upd_idem fun_upd_twist)
  ultimately show ?thesis using cr by blast
qed

theorem released_parent_stays_witness:
  "\<exists>x s1 s2 s3. clCreateSubBuffer demo_env 4 0 CL_BUFFER_CREATE_TYPE_REGION (Some demo_part)
       (demo_rt\<lparr>mems := [4 \<mapsto> demo_buffer\<lparr>m_refcount := 1\<rparr>]\<rparr>) = Ret (CL_SUCCESS, x, s1) \<and>
     clReleaseMemObject demo_env 4 s1 = Ret (CL_SUCCESS, s2) \<and> clReleaseMemObject demo_env x s2 = Ret (CL_SUCCESS, s3) \<and>
     mems s3 4 = Some (demo_buffer\<lparr>m_refcount := 0\<rparr>)"
proof -
  have "sub_request_ok demo_env (demo_rt\<lparr>mems := [4 \<mapsto> demo_buffer\<lparr>m_refcount := 1\<rparr>]\<rparr>) 4 (demo_buffer\<lparr>m_refcount := 1\<rparr>)
      \<lparr>ctx_refcount = 2, ctx_devices = [Some 1], ctx_properties = None, valid = True\<rparr> 0 demo_part"
    by (simp add: sub_request_ok_def devices_ready_def demo_rt_def demo_buffer_def demo_part_def demo_env_def demo_device_def
      sub_flags_conflict_def has_def)
  from released_parent_stays [OF this] show ?thesis by fastforce
qed

end
