(* ===== verification/Context_Claims.thy ===== *)
theory Context_Claims
  imports Creation Queue_Claims
begin

text \<open>
  Contexts and devices: creating and releasing a context keeps the devices' reference counts in
  balance, the table of devices is set up once, a query returns the matching devices, and what
  goes wrong for devices that are not available or not initialised.
\<close>

section \<open>Balance of the device references\<close>

text \<open>The devices with \<open>k d\<close> added to the reference count of each device \<open>d\<close>.\<close>

definition add_refs :: "(ptr \<Rightarrow> int) \<Rightarrow> (ptr \<Rightarrow> device option) \<Rightarrow> ptr \<Rightarrow> device option" where
  "add_refs k st = (\<lambda>d. map_option (\<lambda>dev. dev\<lparr>dev_refcount := dev_refcount dev + k d\<rparr>) (st d))"

lemma add_refs_add: "add_refs k (add_refs l st) = add_refs (\<lambda>d. k d + l d) st"
proof
  fix d show "add_refs k (add_refs l st) d = add_refs (\<lambda>d. k d + l d) st d"
    by (cases "st d") (simp_all add: add_refs_def algebra_simps)
qed

lemma add_refs_0: "(\<And>d. k d = 0) \<Longrightarrow> add_refs k st = st"
proof
  fix d assume "\<And>d. k d = 0" then show "add_refs k st d = st d" by (cases "st d") (simp_all add: add_refs_def)
qed

lemma add_refs_one:
  "st d = Some dev \<Longrightarrow> st(d \<mapsto> dev\<lparr>dev_refcount := dev_refcount dev + i\<rparr>) = add_refs (\<lambda>x. if x = d then i else 0) st"
proof
  fix x assume "st d = Some dev"
  then show "(st(d \<mapsto> dev\<lparr>dev_refcount := dev_refcount dev + i\<rparr>)) x = add_refs (\<lambda>x. if x = d then i else 0) st x"
    by (cases "st x") (auto simp: add_refs_def)
qed

text \<open>Devices that can be retained \<open>n\<close> times and do not belong to HSA.\<close>

definition usable :: "nat \<Rightarrow> rt \<Rightarrow> ptr \<Rightarrow> bool" where
  "usable n s d \<longleftrightarrow> d \<noteq> NULL \<and> (\<exists>dev. devices s d = Some dev \<and> available dev \<and> 0 \<le> dev_refcount dev \<and>
     dev_refcount dev + int n < 2 ^ 31 \<and> \<not> has (dev_type dev) CL_DEVICE_TYPE_GPU)"

lemma count_list_Cons_int:
  "(\<lambda>x. int (count_list ds x) + (if x = d then 1 else 0)) = (\<lambda>x. int (count_list (d # ds) x))"
  by (rule ext) simp

lemma pick_devices_all:
  assumes "\<And>d. d \<in> set ds \<Longrightarrow> usable (length ds) s d"
  shows "pick_devices picked ds s = Ret (Inr (picked @ ds), s\<lparr>devices := add_refs (\<lambda>d. int (count_list ds d)) (devices s)\<rparr>)"
  using assms
proof (induction ds arbitrary: picked s)
  case Nil
  show ?case by (simp add: add_refs_0)
next
  case (Cons d ds)
  obtain dev where dev: "devices s d = Some dev" "available dev" "d \<noteq> NULL" "dev_refcount dev \<noteq> 2 ^ 31 - 1"
    using Cons.prems [of d] by (auto simp: usable_def)
  let ?s = "s\<lparr>devices := add_refs (\<lambda>x. if x = d then 1 else 0) (devices s)\<rparr>"
  have "clRetainDevice d s = Ret (CL_SUCCESS, ?s)"
    using dev add_refs_one [where st = "devices s" and i = 1, OF dev(1)]
    by (simp add: clRetainDevice_def retain_device_def POCL_RETAIN_OBJECT_def incr_def)
  moreover have "usable (length ds) ?s x" if "x \<in> set ds" for x
    using Cons.prems [of x] that by (auto simp: usable_def add_refs_def)
  ultimately show ?case
    using Cons.IH [of ?s "picked @ [d]"] dev count_list_Cons_int [of ds d] by (simp add: add_refs_add)
qed

lemma release_devices:
  assumes "\<And>d. d \<in> set ds \<Longrightarrow> \<exists>dev. devices s d = Some dev \<and> int (length ds) \<le> dev_refcount dev + 2 ^ 31 \<and> \<not> has (dev_type dev) CL_DEVICE_TYPE_GPU"
  shows "oiter (\<lambda>d s. obind (deref d) (\<lambda>dp. obind (clReleaseDevice env dp s) (\<lambda>(_, s). Ret s))) (map Some ds) s =
    Ret (s\<lparr>devices := add_refs (\<lambda>d. - int (count_list ds d)) (devices s)\<rparr>)"
  using assms
proof (induction ds arbitrary: s)
  case Nil
  show ?case by (simp add: add_refs_0)
next
  case (Cons d ds)
  obtain dev where dev: "devices s d = Some dev" "int (Suc (length ds)) \<le> dev_refcount dev + 2 ^ 31" "\<not> has (dev_type dev) CL_DEVICE_TYPE_GPU"
    using Cons.prems [of d] by auto
  let ?s = "s\<lparr>devices := add_refs (\<lambda>x. if x = d then - 1 else 0) (devices s)\<rparr>"
  have "clReleaseDevice env d s = Ret (CL_SUCCESS, ?s)"
    using dev add_refs_one [where st = "devices s" and i = "- 1", OF dev(1), symmetric]
    by (simp add: clReleaseDevice_def release_device_def POCL_RELEASE_OBJECT_def decr_def)
  moreover have "\<exists>dev. devices ?s x = Some dev \<and> int (length ds) \<le> dev_refcount dev + 2 ^ 31 \<and> \<not> has (dev_type dev) CL_DEVICE_TYPE_GPU"
    if "x \<in> set ds" for x
    using Cons.prems [of x] that by (auto simp: add_refs_def)
  moreover have "(\<lambda>x. - int (count_list ds x) + (if x = d then - 1 else 0)) = (\<lambda>x. - int (count_list (d # ds) x))"
    by (rule ext) simp
  ultimately show ?case using Cons.IH [of ?s] by (simp add: add_refs_add)
qed

text \<open>C35. Creating a context and releasing it is neutral: for devices that are all available and do not
  use HSA, without properties and with memory for the context, \<open>clCreateContext\<close> returns a valid context with exactly these
  devices, in order, and one \<open>clReleaseContext\<close> frees it and gives every device its reference count back.\<close>

theorem create_release_context:
  assumes "ds \<noteq> []" "0 < pocl_num_devices s" "\<And>d. d \<in> set ds \<Longrightarrow> usable (length ds) s d"
    and "\<not> malloc_fails env (tick s)" "\<not> malloc_fails env (Suc (tick s))" "tick s \<noteq> 0" "contexts s (tick s) = None"
  shows "\<exists>x s1 s2 c. clCreateContext env None (Some ds) s = Ret (CL_SUCCESS, x, s1) \<and> contexts s1 x = Some c \<and>
    ctx_devices c = map Some ds \<and> valid c \<and> ctx_refcount c = 1 \<and>
    clReleaseContext env x s1 = Ret (CL_SUCCESS, s2) \<and> devices s2 = devices s \<and> contexts s2 = contexts s"
proof -
  let ?c = "\<lparr>ctx_refcount = 1, ctx_devices = map Some ds, ctx_properties = None, valid = True\<rparr>"
  let ?up = "add_refs (\<lambda>d. int (count_list ds d)) (devices s)"
  let ?s1 = "s\<lparr>tick := tick s + 2, devices := ?up, contexts := (contexts s)(tick s \<mapsto> ?c)\<rparr>"
  have "pick_devices [] ds (s\<lparr>tick := tick s + 2\<rparr>) = Ret (Inr ds, s\<lparr>tick := tick s + 2, devices := ?up\<rparr>)"
    using pick_devices_all [of ds "s\<lparr>tick := tick s + 2\<rparr>" "[]"] assms(3) by (simp add: usable_def)
  then have cr: "clCreateContext env None (Some ds) s = Ret (CL_SUCCESS, tick s, ?s1)"
    using assms by (simp add: clCreateContext_def new_obj_def next_tick_def context_set_properties_def)
  let ?s2 = "?s1\<lparr>contexts := (contexts ?s1)(tick s \<mapsto> ?c\<lparr>ctx_refcount := 0\<rparr>)\<rparr>"
  have "oiter (\<lambda>d s. obind (deref d) (\<lambda>dp. obind (clReleaseDevice env dp s) (\<lambda>(_, s). Ret s))) (map Some ds) ?s2 =
      Ret (?s2\<lparr>devices := add_refs (\<lambda>d. - int (count_list ds d)) (devices ?s2)\<rparr>)"
  proof (rule release_devices)
    fix d assume d: "d \<in> set ds"
    show "\<exists>dev. devices ?s2 d = Some dev \<and> int (length ds) \<le> dev_refcount dev + 2 ^ 31 \<and> \<not> has (dev_type dev) CL_DEVICE_TYPE_GPU"
      using assms(3) [OF d] by (auto simp: usable_def add_refs_def)
  qed
  moreover have "add_refs (\<lambda>d. - int (count_list ds d)) ?up = devices s" by (simp add: add_refs_add add_refs_0)
  ultimately have "clReleaseContext env (tick s) ?s1 = Ret (CL_SUCCESS, s\<lparr>tick := tick s + 2, devices := devices s, contexts := contexts s\<rparr>)"
    using assms(7) by (simp add: clReleaseContext_def release_context_def POCL_RELEASE_OBJECT_def decr_def fun_upd_idem)
  then show ?thesis using cr by auto
qed

theorem create_release_context_witness:
  "\<exists>x s1 s2. clCreateContext demo_env None (Some [1, 1]) demo_rt = Ret (CL_SUCCESS, x, s1) \<and>
     clReleaseContext demo_env x s1 = Ret (CL_SUCCESS, s2) \<and> devices s2 1 = Some demo_device"
proof -
  have "usable 2 demo_rt 1"
    by (simp add: usable_def demo_rt_def demo_device_def has_def CL_DEVICE_TYPE_CPU_def CL_DEVICE_TYPE_GPU_def)
  then obtain x s1 s2 where "clCreateContext demo_env None (Some [1, 1]) demo_rt = Ret (CL_SUCCESS, x, s1)"
    "clReleaseContext demo_env x s1 = Ret (CL_SUCCESS, s2)" "devices s2 = devices demo_rt"
    using create_release_context [of "[1, 1]" demo_rt demo_env] by (auto simp: numeral_2_eq_2 demo_rt_def demo_env_def)
  then show ?thesis by (auto simp: demo_rt_def)
qed

text \<open>A context for a device that is not available is created all the same, with an entry that is
  never set; releasing that context is undefined.\<close>

theorem unavailable_device_context:
  assumes "devices s d = Some dev" "\<not> available dev" "d \<noteq> NULL" "dev_refcount dev \<noteq> 2 ^ 31 - 1" "0 < pocl_num_devices s"
    and "\<not> malloc_fails env (tick s)" "\<not> malloc_fails env (Suc (tick s))" "tick s \<noteq> 0"
  shows "\<exists>x s1. clCreateContext env None (Some [d]) s = Ret (CL_SUCCESS, x, s1) \<and> clReleaseContext env x s1 = Undef"
proof -
  have "\<exists>s1. clCreateContext env None (Some [d]) s = Ret (CL_SUCCESS, tick s, s1) \<and>
      contexts s1 (tick s) = Some \<lparr>ctx_refcount = 1, ctx_devices = [None], ctx_properties = None, valid = True\<rparr>"
    using assms by (simp add: clCreateContext_def new_obj_def next_tick_def context_set_properties_def clRetainDevice_def
        retain_device_def POCL_RETAIN_OBJECT_def incr_def)
  then show ?thesis
    by (auto simp: clReleaseContext_def release_context_def POCL_RELEASE_OBJECT_def decr_def)
qed

theorem unavailable_device_context_witness:
  "\<exists>x s1. clCreateContext demo_env None (Some [1]) (demo_rt\<lparr>devices := [1 \<mapsto> demo_device\<lparr>available := False\<rparr>]\<rparr>) = Ret (CL_SUCCESS, x, s1) \<and>
     clReleaseContext demo_env x s1 = Undef"
  by (rule unavailable_device_context [of _ _ "demo_device\<lparr>available := False\<rparr>"])
    (simp_all add: demo_rt_def demo_device_def demo_env_def)

section \<open>The table of devices\<close>

lemma add_devices_table:
  assumes "\<And>t. t \<in> set ts \<Longrightarrow> \<exists>ty \<in> set (pocl_device_types env). dev_name (dev_info ty) = Some t"
    and "length (pocl_devices s) = n" "distinct (pocl_devices s)" "\<And>p. p \<in> set (pocl_devices s) \<Longrightarrow> p < tick s"
    and "\<And>i. i < n \<Longrightarrow> \<exists>dev. devices s (pocl_devices s ! i) = Some dev \<and> dev_id dev = i"
  shows "\<exists>s'. add_devices env n ts s = Ret s' \<and> pocl_num_devices s' = pocl_num_devices s \<and>
    length (pocl_devices s') = n + length ts \<and> distinct (pocl_devices s') \<and>
    (\<forall>i < n + length ts. \<exists>dev. devices s' (pocl_devices s' ! i) = Some dev \<and> dev_id dev = i)"
  using assms
proof (induction ts arbitrary: n s)
  case (Cons t ts)
  obtain ty where ty: "find (\<lambda>ty. dev_name (dev_info ty) = Some t) (pocl_device_types env) = Some ty"
    using Cons.prems(1) [of t] by (fastforce simp: find_None_iff)
  let ?dev = "(init_device env n ty)\<lparr>dev_id := n\<rparr>"
  let ?s = "(next_tick s)\<lparr>devices := (devices s)(tick s \<mapsto> ?dev), pocl_devices := pocl_devices s @ [tick s]\<rparr>"
  have "\<exists>dev. devices ?s (pocl_devices ?s ! i) = Some dev \<and> dev_id dev = i" if "i < Suc n" for i
  proof (cases "i < n")
    case True
    then have "pocl_devices s ! i \<noteq> tick s" using Cons.prems(2,4) by (metis less_irrefl nth_mem)
    with True Cons.prems(2,5) show ?thesis by (simp add: nth_append)
  qed (use that Cons.prems(2) in \<open>simp add: nth_append\<close>)
  moreover have "add_devices env n (t # ts) s = add_devices env (Suc n) ts ?s" using ty by (simp add: Let_def)
  moreover have "distinct (pocl_devices ?s)" "\<And>p. p \<in> set (pocl_devices ?s) \<Longrightarrow> p < tick ?s" "length (pocl_devices ?s) = Suc n"
    using Cons.prems by (auto simp: next_tick_def less_Suc_eq)
  ultimately show ?case using Cons.IH [of ?s "Suc n"] Cons.prems(1) by (simp add: next_tick_def)
qed simp

text \<open>C37. The table of devices is set up once: if every name in the list for the type is that of a
  driver the library was built with, the first call fills the table, the entry \<open>i\<close> has the
  \<open>dev\_id\<close> \<open>i\<close> and no entry occurs twice; any later call, for whatever type, changes nothing.\<close>

theorem pocl_init_devices_once:
  assumes "pocl_num_devices s = 0" "\<not> malloc_fails env (tick s)"
    and "\<And>t. t \<in> set (tokens (device_list ty)) \<Longrightarrow> \<exists>d \<in> set (pocl_device_types env). dev_name (dev_info d) = Some t"
  shows "\<exists>s'. pocl_init_devices env ty s = Ret s' \<and> pocl_num_devices s' = length (pocl_devices s') \<and>
    length (pocl_devices s') = length (tokens (device_list ty)) \<and> distinct (pocl_devices s') \<and>
    (\<forall>i < length (pocl_devices s'). \<exists>dev. devices s' (pocl_devices s' ! i) = Some dev \<and> dev_id dev = i) \<and>
    (\<forall>ty'. pocl_init_devices env ty' s' = Ret s')"
proof -
  let ?ts = "tokens (device_list ty)"
  let ?s = "(next_tick s)\<lparr>pocl_num_devices := length ?ts, pocl_devices := []\<rparr>"
  have ne: "?ts \<noteq> []" by (simp add: device_list_def tokens.simps)
  obtain s' where "add_devices env 0 ?ts ?s = Ret s'" "pocl_num_devices s' = length ?ts" "length (pocl_devices s') = length ?ts"
    "distinct (pocl_devices s')" "\<forall>i < length ?ts. \<exists>dev. devices s' (pocl_devices s' ! i) = Some dev \<and> dev_id dev = i"
    using add_devices_table [where ts = ?ts and s = ?s and n = 0, OF assms(3)] by auto
  then show ?thesis using assms(1,2) ne by (auto simp: pocl_init_devices_def)
qed

definition demo_start :: rt where
  "demo_start = demo_rt\<lparr>devices := Map.empty, pocl_num_devices := 0, pocl_devices := []\<rparr>"

definition demo_build :: env where
  "demo_build = demo_env\<lparr>pocl_device_types := map (\<lambda>n. demo_device\<lparr>dev_info := (basic_info demo_config)\<lparr>dev_name := Some n\<rparr>\<rparr>)
     [''pthread'', ''basic'', ''hsa'']\<rparr>"

theorem pocl_init_devices_once_witness:
  "\<exists>s'. pocl_init_devices demo_build 0xFFFFFFFF demo_start = Ret s' \<and> pocl_num_devices s' = 2 \<and> length (pocl_devices s') = 2"
proof -
  have ts: "tokens (device_list 0xFFFFFFFF) = [''pthread'', ''hsa'']"
    by (simp add: device_list_def CL_DEVICE_TYPE_GPU_def CL_DEVICE_TYPE_DEFAULT_def CL_DEVICE_TYPE_CPU_def tokens.simps)
  have "pocl_num_devices demo_start = 0" "\<not> malloc_fails demo_build (tick demo_start)"
    by (simp_all add: demo_start_def demo_build_def demo_env_def)
  moreover have "\<exists>d \<in> set (pocl_device_types demo_build). dev_name (dev_info d) = Some t" if "t \<in> set (tokens (device_list 0xFFFFFFFF))" for t
    using that by (auto simp: ts demo_build_def)
  ultimately show ?thesis using pocl_init_devices_once [of demo_start demo_build "0xFFFFFFFF"] by (auto simp: ts)
qed

section \<open>Queries\<close>

text \<open>Devices that need no call into HSA when they are handed out.\<close>

definition no_hsa_init :: "device \<Rightarrow> bool" where
  "no_hsa_init dev \<longleftrightarrow> dev_type dev \<noteq> CL_DEVICE_TYPE_GPU OR CL_DEVICE_TYPE_DEFAULT \<or> isHSAinit dev"

lemma collect_devices_all:
  assumes "\<And>d. d \<in> set ds \<Longrightarrow> \<exists>dev. devices s d = Some dev \<and> no_hsa_init dev" "length added \<le> n"
  shows "collect_devices env ty n want added k ds s =
    Ret (added @ take (if want then n - length added else 0) (filter (\<lambda>d. matches ty (the (devices s d))) ds),
         k + length (filter (\<lambda>d. matches ty (the (devices s d))) ds), s)"
  using assms
proof (induction ds arbitrary: added k)
  case (Cons d ds)
  obtain dev where dev: "devices s d = Some dev" "no_hsa_init dev" using Cons.prems(1) [of d] by auto
  have take: "take (n - length added) (d # ys) = d # take (n - Suc (length added)) ys" if "length added < n" for ys
    using that by (simp add: take_Cons')
  show ?case using dev Cons.IH Cons.prems take by (auto simp: no_hsa_init_def not_less)
qed simp

text \<open>C36. \<open>clGetDeviceIDs\<close> on a table of initialised devices stores the available devices of the type in
  table order, as many as there is room for, and their total number; the state stays as it is.
  The result is \<open>CL\_SUCCESS\<close> if a device was stored or no entries were asked for: a caller that
  only wants the number has to pass 0.\<close>

theorem clGetDeviceIDs_correct:
  fixes ty :: cl_bitfield
  assumes "0 < pocl_num_devices s" "platform \<noteq> 0" "want \<Longrightarrow> 0 < num_entries" "want \<or> want_num"
    and "\<And>d. d \<in> set (pocl_devices s) \<Longrightarrow> \<exists>dev. devices s d = Some dev \<and> no_hsa_init dev"
  defines "found \<equiv> filter (\<lambda>d. matches ty (the (devices s d))) (pocl_devices s)"
  shows "clGetDeviceIDs env platform ty num_entries want want_num s =
    Ret (if (want \<and> found \<noteq> []) \<or> num_entries = 0 then CL_SUCCESS else CL_DEVICE_NOT_FOUND,
         if want then take num_entries found else [], if want_num then Some (length found) else None, s)"
  using assms(1-4) collect_devices_all [where ds = "pocl_devices s" and added = "[]" and n = num_entries and env = env and ty = ty and want = want and k = 0, OF assms(5)]
  by (auto simp: clGetDeviceIDs_def pocl_init_devices_def found_def)

theorem clGetDeviceIDs_correct_witness:
  "clGetDeviceIDs demo_env 0x7000 CL_DEVICE_TYPE_CPU 4 True True demo_rt = Ret (CL_SUCCESS, [1], Some 1, demo_rt)"
  using clGetDeviceIDs_correct [where s = demo_rt and platform = "0x7000" and want = True and num_entries = 4 and want_num = True
      and ty = CL_DEVICE_TYPE_CPU and env = demo_env]
  by (simp add: demo_rt_def demo_device_def no_hsa_init_def matches_def has_def CL_DEVICE_TYPE_CPU_def CL_DEVICE_TYPE_GPU_def
      CL_DEVICE_TYPE_DEFAULT_def)

section \<open>Contexts by type\<close>

text \<open>\<open>clCreateContextFromType\<close> stores the HSA agent through the wrong index: when the table has
  another device before the first GPU and HSA has not been initialised yet, the call reads past
  the entries of the context that are set.\<close>

theorem context_from_type_wrong_index:
  assumes "pocl_num_devices s > 0" "pocl_devices s = [d, g]" "devices s d = Some dev" "devices s g = Some gpu"
    and "\<not> matches CL_DEVICE_TYPE_GPU dev" "matches CL_DEVICE_TYPE_GPU gpu" "\<not> isHSAinit gpu"
    and "\<And>i. \<not> malloc_fails env i" "\<And>i. \<not> hsa_fails env i" "hsa_agent env \<noteq> 0" "tick s \<noteq> 0"
  shows "clCreateContextFromType env None CL_DEVICE_TYPE_GPU s = Undef"
  using assms
  by (simp add: clCreateContextFromType_def pocl_init_devices_def new_obj_def next_tick_def context_set_properties_def init_hsa_def
      hsa_call_def c_nth_def has_def CL_DEVICE_TYPE_GPU_def CL_DEVICE_TYPE_DEFAULT_def)

theorem context_from_type_wrong_index_witness:
  "clCreateContextFromType demo_env None CL_DEVICE_TYPE_GPU
     (demo_rt\<lparr>pocl_devices := [1, 6], devices := [1 \<mapsto> demo_device, 6 \<mapsto> demo_device\<lparr>dev_type := CL_DEVICE_TYPE_GPU OR CL_DEVICE_TYPE_DEFAULT\<rparr>]\<rparr>) = Undef"
  by (rule context_from_type_wrong_index [of _ 1 6 demo_device "demo_device\<lparr>dev_type := CL_DEVICE_TYPE_GPU OR CL_DEVICE_TYPE_DEFAULT\<rparr>"])
    (simp_all add: demo_rt_def demo_device_def demo_env_def matches_def has_def CL_DEVICE_TYPE_GPU_def CL_DEVICE_TYPE_DEFAULT_def CL_DEVICE_TYPE_CPU_def)

end
