(* ===== verification/Info.thy ===== *)
theory Info
  imports Platform
begin

text \<open>
  The \<open>clGet*Info\<close> queries. An answer is the result code, the bytes stored at \<open>param\_value\<close> and
  the number stored at \<open>param\_value\_size\_ret\<close>; \<open>want\<close> and \<open>want\_ret\<close> say whether these pointers
  are given. Parameter names are the numbers of \<open>CL/cl.h\<close>, object pointers their numbers, and
  integers are stored with the lowest byte first.
\<close>

section \<open>Values as bytes\<close>

definition le_bytes :: "nat \<Rightarrow> 'a::len word \<Rightarrow> byte list" where
  "le_bytes n w = map (\<lambda>i. ucast (drop_bit (8 * i) w)) [0..<n]"

lemma le_bytes_length [simp]: "length (le_bytes n w) = n"
  by (simp add: le_bytes_def)

definition u32 :: "cl_uint \<Rightarrow> byte list outcome" where "u32 w = Ret (le_bytes 4 w)"
definition u64 :: "64 word \<Rightarrow> byte list outcome" where "u64 w = Ret (le_bytes 8 w)"
definition object :: "ptr \<Rightarrow> byte list outcome" where "object p = u64 (of_nat p)"
definition counter :: "int \<Rightarrow> byte list outcome" where "counter n = u32 (word_of_int n)"

definition c_string :: "string \<Rightarrow> byte list" where
  "c_string str = map (\<lambda>c. of_nat (of_char c)) str @ [0]"

definition str :: "string \<Rightarrow> byte list outcome" where "str st = Ret (c_string st)"

type_synonym answer = "cl_int \<times> byte list option \<times> size_t option"

text \<open>\<open>POCL\_RETURN\_GETINFO\<close> and its variants in the single files: \<open>POCL\_RETURN\_DEVICE\_INFO\_WITH\_IMPL\_CHECK\<close>,
  which also prints a warning for the value 0, and \<open>POCL\_RETURN\_DEVICE\_INFO\_STR\<close>, whose value is a text with its
  terminator. All three test the room, store the value and report its size in the same way.\<close>

definition POCL_RETURN_GETINFO :: "size_t \<Rightarrow> bool \<Rightarrow> bool \<Rightarrow> byte list \<Rightarrow> answer" where
  "POCL_RETURN_GETINFO param_value_size want want_ret v =
     (if want \<and> param_value_size < of_nat (length v) then (CL_INVALID_VALUE, None, None)
      else (CL_SUCCESS, if want then Some v else None, if want_ret then Some (of_nat (length v)) else None))"

text \<open>A \<open>switch\<close> over the parameter name whose cases all end in that macro.\<close>

definition switch :: "(nat \<times> byte list outcome) list \<Rightarrow> nat \<Rightarrow> size_t \<Rightarrow> bool \<Rightarrow> bool \<Rightarrow> answer outcome" where
  "switch cases param_name param_value_size want want_ret =
     (case map_of cases param_name of
        None \<Rightarrow> Ret (CL_INVALID_VALUE, None, None)
      | Some v \<Rightarrow> obind v (\<lambda>v. Ret (POCL_RETURN_GETINFO param_value_size want want_ret v)))"

section \<open>Platforms and devices\<close>

definition platform_params :: "build_config \<Rightarrow> (nat \<times> byte list outcome) list" where
  "platform_params cfg =
     [(0x0900, str ''FULL_PROFILE''), (0x0901, str (''OpenCL 2.0 pocl '' @ package_version cfg)),
      (0x0902, str ''Portable Computing Language''), (0x0903, str ''The pocl project''),
      (0x0904, str (if build_icd cfg then ''cl_khr_icd'' else [])), (0x0920, str ''POCL'')]"

definition clGetPlatformInfo ::
  "env \<Rightarrow> build_config \<Rightarrow> int \<Rightarrow> nat \<Rightarrow> size_t \<Rightarrow> bool \<Rightarrow> bool \<Rightarrow> answer outcome" where
  "clGetPlatformInfo env cfg platform param_name param_value_size want want_ret =
     (if platform = 0 \<or> platform \<noteq> platform_id env then Ret (CL_INVALID_PLATFORM, None, None)
      else switch (platform_params cfg) param_name param_value_size want want_ret)"

text \<open>What a query of a GPU device copies from the HSA agent into the device first.\<close>

definition refresh :: "agent_info \<Rightarrow> nat \<Rightarrow> device \<Rightarrow> device" where
  "refresh ag param_name dev =
     (if \<not> has (dev_type dev) CL_DEVICE_TYPE_GPU then dev
      else let i = dev_info dev in
      if param_name = 0x1000
      then dev\<lparr>dev_type := (if agent_device ag = 0 then CL_DEVICE_TYPE_CPU else if agent_device ag = 2 then dev_type dev
                            else CL_DEVICE_TYPE_GPU)\<rparr>
      else if param_name = 0x1003
      then (case grid_max_dim ag of (x, y, z) \<Rightarrow>
            dev\<lparr>dev_info := i\<lparr>max_work_item_dimensions := (if z \<noteq> 0 then 3 else if y \<noteq> 0 then 2 else if x \<noteq> 0 then 1
                                                           else max_work_item_dimensions i)\<rparr>\<rparr>)
      else if param_name = 0x1005
      then (case grid_max_dim ag of (x, y, z) \<Rightarrow> dev\<lparr>max_work_item_sizes := (ucast x, ucast y, ucast z)\<rparr>)
      else if param_name = 0x1004 then dev\<lparr>max_work_group_size := ucast (wg_max_size ag)\<rparr>
      else if param_name = 0x1011 then dev\<lparr>dev_info := i\<lparr>image2d_max_width := ucast (fst (image2d_max_dim ag))\<rparr>\<rparr>
      else if param_name = 0x1012 then dev\<lparr>dev_info := i\<lparr>image2d_max_height := ucast (fst (snd (image2d_max_dim ag)))\<rparr>\<rparr>
      else if param_name = 0x1013 then dev\<lparr>dev_info := i\<lparr>image3d_max_width := ucast (fst (image3d_max_dim ag))\<rparr>\<rparr>
      else if param_name = 0x1014 then dev\<lparr>dev_info := i\<lparr>image3d_max_height := ucast (fst (snd (image3d_max_dim ag)))\<rparr>\<rparr>
      else if param_name = 0x1015 then dev\<lparr>dev_info := i\<lparr>image3d_max_depth := ucast (snd (snd (image3d_max_dim ag)))\<rparr>\<rparr>
      else if param_name = 0x1018 then dev\<lparr>dev_info := i\<lparr>max_samplers := sampler_max ag\<rparr>\<rparr>
      else if param_name = 0x102B then dev\<lparr>dev_info := i\<lparr>dev_name := Some (agent_name ag)\<rparr>\<rparr>
      else if param_name = 0x102C then dev\<lparr>dev_info := i\<lparr>dev_vendor := Some (agent_vendor ag)\<rparr>\<rparr>
      else dev)"

text \<open>The names of a GPU device are left pointing to a local array of the query.\<close>

definition leave :: "nat \<Rightarrow> bool \<Rightarrow> device \<Rightarrow> device" where
  "leave param_name gpu dev =
     (if gpu \<and> param_name = 0x102B then dev\<lparr>dev_info := (dev_info dev)\<lparr>dev_name := None\<rparr>\<rparr>
      else if gpu \<and> param_name = 0x102C then dev\<lparr>dev_info := (dev_info dev)\<lparr>dev_vendor := None\<rparr>\<rparr>
      else dev)"

definition flag :: "bool \<Rightarrow> byte list outcome" where "flag b = u32 (if b then 1 else 0)"

definition name_of :: "string option \<Rightarrow> byte list outcome" where
  "name_of n = obind (deref n) str"

definition size_triple :: "size3 \<Rightarrow> byte list outcome" where
  "size_triple t = Ret (le_bytes 8 (fst t) @ le_bytes 8 (fst (snd t)) @ le_bytes 8 (snd (snd t)))"

text \<open>The first half of the \<open>switch\<close> of \<open>clGetDeviceInfo\<close>, up to the image dimensions.\<close>

definition device_params_1 :: "device \<Rightarrow> (nat \<times> byte list outcome) list" where
  "device_params_1 dev = (let i = dev_info dev in
     [(0x1016, flag True), (0x1000, u64 (dev_type dev)), (0x1001, u32 (vendor_id i)), (0x1002, u32 (max_compute_units i)),
      (0x1003, u32 (max_work_item_dimensions i)), (0x1005, size_triple (max_work_item_sizes dev)),
      (0x1004, u64 (max_work_group_size dev)),
      (0x1006, u32 (preferred_vector_width_char i)), (0x1007, u32 (preferred_vector_width_short i)),
      (0x1008, u32 (preferred_vector_width_int i)), (0x1009, u32 (preferred_vector_width_long i)),
      (0x100A, u32 (preferred_vector_width_float i)), (0x100B, u32 (preferred_vector_width_double i)),
      (0x100C, u32 (max_clock_frequency i)), (0x100D, u32 (address_bits i)), (0x100E, u32 (max_read_image_args i)),
      (0x100F, u32 (max_write_image_args i)), (0x1010, u64 (max_mem_alloc_size dev)),
      (0x1011, u64 (image2d_max_width i)), (0x1012, u64 (image2d_max_height i))])"

text \<open>The second half.\<close>

definition device_params_2 :: "int \<Rightarrow> device \<Rightarrow> (nat \<times> byte list outcome) list" where
  "device_params_2 platform dev = (let i = dev_info dev in
     [(0x1013, u64 (image3d_max_width i)), (0x1014, u64 (image3d_max_height i)), (0x1015, u64 (image3d_max_depth i)),
      (0x1017, u64 (max_parameter_size i)), (0x1018, u32 (max_samplers i)), (0x1019, u32 (mem_base_addr_align i)),
      (0x101A, u32 (min_data_type_align_size i)), (0x101B, u64 (single_fp_config i)), (0x101C, u32 (global_mem_cache_type i)),
      (0x101D, u32 (global_mem_cacheline_size i)), (0x101E, u64 (global_mem_cache_size i)), (0x101F, u64 (global_mem_size i)),
      (0x1020, u32 (ucast (max_constant_buffer_size i))), (0x1021, u32 (max_constant_args i)), (0x1022, u32 (local_mem_type i)),
      (0x1023, u64 (local_mem_size i)), (0x1024, u32 (error_correction_support i)),
      (0x1025, u32 (ucast (profiling_timer_resolution i))), (0x1026, u32 (endian_little i)), (0x1027, flag (available dev)),
      (0x1028, u32 (compiler_available i)), (0x1029, u32 (ucast (execution_capabilities i))),
      (0x102A, u32 (ucast (queue_properties i))), (0x102B, name_of (dev_name i)), (0x102C, name_of (dev_vendor i)),
      (0x102D, str (driver_version i)), (0x102E, str (dev_profile i)), (0x102F, str (dev_version i)), (0x1030, str (extensions i)),
      (0x1031, u64 (word_of_int platform)), (0x1032, u64 (double_fp_config i)), (0x1034, u32 (preferred_vector_width_half i)),
      (0x1035, flag True), (0x1036, u32 (native_vector_width_char i)), (0x1037, u32 (native_vector_width_short i)),
      (0x1038, u32 (native_vector_width_int i)), (0x1039, u32 (native_vector_width_long i)),
      (0x103A, u32 (native_vector_width_float i)), (0x103B, u32 (native_vector_width_double i)),
      (0x103C, u32 (native_vector_width_half i)), (0x103D, str ''OpenCL C 2.0'')])"

definition device_answer :: "int \<Rightarrow> device \<Rightarrow> nat \<Rightarrow> size_t \<Rightarrow> bool \<Rightarrow> bool \<Rightarrow> answer outcome" where
  "device_answer platform dev = switch (device_params_1 dev @ device_params_2 platform dev)"

definition clGetDeviceInfo ::
  "env \<Rightarrow> ptr \<Rightarrow> nat \<Rightarrow> size_t \<Rightarrow> bool \<Rightarrow> bool \<Rightarrow> rt \<Rightarrow> (answer \<times> rt) outcome" where
  "clGetDeviceInfo env device param_name param_value_size want want_ret s =
     obind (deref (devices s device)) (\<lambda>dev.
     let dev' = refresh (agent env) param_name dev in
     obind (device_answer (platform_id env) dev' param_name param_value_size want want_ret) (\<lambda>ans.
     Ret (ans, s\<lparr>devices := (devices s)(device \<mapsto> leave param_name (has (dev_type dev) CL_DEVICE_TYPE_GPU) dev')\<rparr>)))"

section \<open>Contexts\<close>

definition num_properties :: "cl_context \<Rightarrow> nat" where
  "num_properties c = (case ctx_properties c of None \<Rightarrow> 0 | Some ps \<Rightarrow> (length ps - 1) div 2)"

text \<open>The bytes of the device array; those of an unset entry are indeterminate.\<close>

fun pointer_bytes :: "ptr option list \<Rightarrow> byte list outcome" where
  "pointer_bytes [] = Ret []"
| "pointer_bytes (d # ds) =
     obind (deref d) (\<lambda>p. obind (pointer_bytes ds) (\<lambda>bs. Ret (le_bytes 8 (of_nat p :: size_t) @ bs)))"

text \<open>\<open>POCL\_RETURN\_CONTEXT\_INFO\<close> tests the room against a variable that two of the cases do not set.\<close>

definition POCL_RETURN_CONTEXT_INFO :: "size_t \<Rightarrow> size_t \<Rightarrow> bool \<Rightarrow> bool \<Rightarrow> byte list \<Rightarrow> answer" where
  "POCL_RETURN_CONTEXT_INFO value_size param_value_size want want_ret v =
     (if want \<and> param_value_size < value_size then (CL_INVALID_VALUE, None, None)
      else (CL_SUCCESS, if want then Some v else None, if want_ret then Some (of_nat (length v)) else None))"

text \<open>The number of devices is read with the width of a \<open>size\_t\<close>, together with the field after it,
  and the properties are read from the device array.\<close>

definition clGetContextInfo ::
  "env \<Rightarrow> ptr \<Rightarrow> nat \<Rightarrow> size_t \<Rightarrow> bool \<Rightarrow> bool \<Rightarrow> rt \<Rightarrow> answer outcome" where
  "clGetContextInfo env context param_name param_value_size want want_ret s =
     (if context = NULL then Ret (CL_INVALID_CONTEXT, None, None)
      else obind (deref (contexts s context)) (\<lambda>c.
      if param_name = 0x1080
      then obind (counter (ctx_refcount c)) (\<lambda>v. Ret (POCL_RETURN_CONTEXT_INFO (unset_size env) param_value_size want want_ret v))
      else if param_name = 0x1081
      then obind (pointer_bytes (ctx_devices c)) (\<lambda>v.
           Ret (POCL_RETURN_CONTEXT_INFO (of_nat (8 * length (ctx_devices c))) param_value_size want want_ret v))
      else if param_name = 0x1083
      then Ret (POCL_RETURN_CONTEXT_INFO (unset_size env) param_value_size want want_ret
             (le_bytes 4 (of_nat (length (ctx_devices c)) :: cl_uint) @ le_bytes 4 (of_nat (num_properties c) :: cl_uint)))
      else if param_name = 0x1082
      then if ctx_properties c \<noteq> None
           then let n = 8 * (num_properties c * 2 + 1) in
                obind (pointer_bytes (ctx_devices c)) (\<lambda>v.
                if want \<and> \<not> param_value_size < of_nat n \<and> length v < n then Undef
                else Ret (if want \<and> param_value_size < of_nat n then (CL_INVALID_VALUE, None, None)
                          else (CL_SUCCESS, if want then Some (take n v) else None, if want_ret then Some (of_nat n) else None)))
           else if \<not> want_ret then Undef else Ret (CL_SUCCESS, None, Some 0)
      else Ret (CL_INVALID_VALUE, None, None)))"

section \<open>Queues, memory objects and events\<close>

definition queue_params :: "cl_command_queue \<Rightarrow> (nat \<times> byte list outcome) list" where
  "queue_params q = [(0x1090, object (q_context q)), (0x1091, object (q_device q)), (0x1092, counter (q_refcount q)),
     (0x1093, u64 (q_properties q))]"

definition clGetCommandQueueInfo :: "ptr \<Rightarrow> nat \<Rightarrow> size_t \<Rightarrow> bool \<Rightarrow> bool \<Rightarrow> rt \<Rightarrow> answer outcome" where
  "clGetCommandQueueInfo q param_name param_value_size want want_ret s =
     (if q = NULL then Ret (CL_INVALID_COMMAND_QUEUE, None, None)
      else obind (deref (queues s q)) (\<lambda>command_queue.
           switch (queue_params command_queue) param_name param_value_size want want_ret))"

definition mem_params :: "cl_mem \<Rightarrow> (nat \<times> byte list outcome) list" where
  "mem_params m = [(0x1100, u32 (m_type m)), (0x1101, u64 (m_flags m)), (0x1102, u64 (m_size m)), (0x1103, u64 (mem_host_ptr m)),
     (0x1104, u32 (map_count m)), (0x1105, counter (m_refcount m)), (0x1106, object (m_context m)), (0x1107, object (m_parent m)),
     (0x1108, Abort)]"

definition clGetMemObjectInfo :: "ptr \<Rightarrow> nat \<Rightarrow> size_t \<Rightarrow> bool \<Rightarrow> bool \<Rightarrow> rt \<Rightarrow> answer outcome" where
  "clGetMemObjectInfo memobj param_name param_value_size want want_ret s =
     (if memobj = NULL then Ret (CL_INVALID_MEM_OBJECT, None, None)
      else obind (deref (mems s memobj)) (\<lambda>m. switch (mem_params m) param_name param_value_size want want_ret))"

definition command_code :: "command_type \<Rightarrow> cl_uint" where
  "command_code t = (case t of CL_COMMAND_NDRANGE_KERNEL \<Rightarrow> 0x11F0 | CL_COMMAND_TASK \<Rightarrow> 0x11F1 | CL_COMMAND_READ_IMAGE \<Rightarrow> 0x11F6 | CL_COMMAND_READ_BUFFER \<Rightarrow> 0x11F3
     | CL_COMMAND_WRITE_BUFFER \<Rightarrow> 0x11F4 | CL_COMMAND_COPY_BUFFER \<Rightarrow> 0x11F5 | CL_COMMAND_MAP_BUFFER \<Rightarrow> 0x11FB
     | CL_COMMAND_UNMAP_MEM_OBJECT \<Rightarrow> 0x11FD | CL_COMMAND_MARKER \<Rightarrow> 0x11FE | CL_COMMAND_READ_BUFFER_RECT \<Rightarrow> 0x1201
     | CL_COMMAND_WRITE_BUFFER_RECT \<Rightarrow> 0x1202 | CL_COMMAND_COPY_BUFFER_RECT \<Rightarrow> 0x1203)"

definition event_params :: "cl_event \<Rightarrow> (nat \<times> byte list outcome) list" where
  "event_params e = [(0x11D3, counter (e_status e)), (0x11D0, object (e_queue e)), (0x11D1, u32 (command_code (e_type e))),
     (0x11D2, counter (e_refcount e))]"

definition clGetEventInfo :: "ptr \<Rightarrow> nat \<Rightarrow> size_t \<Rightarrow> bool \<Rightarrow> bool \<Rightarrow> rt \<Rightarrow> answer outcome" where
  "clGetEventInfo event param_name param_value_size want want_ret s =
     (if param_name \<notin> {0x11D0, 0x11D1, 0x11D2, 0x11D3} then Ret (CL_INVALID_VALUE, None, None)
      else obind (deref (events s event)) (\<lambda>e. switch (event_params e) param_name param_value_size want want_ret))"

definition profiling_params :: "cl_event \<Rightarrow> (nat \<times> 64 word) list" where
  "profiling_params e = [(0x1280, time_queue e), (0x1281, time_submit e), (0x1282, time_start e), (0x1283, time_end e)]"

definition clGetEventProfilingInfo :: "ptr \<Rightarrow> nat \<Rightarrow> size_t \<Rightarrow> bool \<Rightarrow> bool \<Rightarrow> rt \<Rightarrow> answer outcome" where
  "clGetEventProfilingInfo event param_name param_value_size want want_ret s =
     obind (deref (events s event)) (\<lambda>e.
     obind (deref (queues s (e_queue e))) (\<lambda>q.
     if \<not> has (q_properties q) CL_QUEUE_PROFILING_ENABLE \<or> e_status e \<noteq> CL_COMPLETE
     then Ret (CL_PROFILING_INFO_NOT_AVAILABLE, None, None)
     else if want \<and> param_value_size < 8 then Ret (CL_INVALID_VALUE, None, None)
     else let ret = (if want_ret then Some 8 else None) in
          if \<not> want then Ret (CL_SUCCESS, None, ret)
          else case map_of (profiling_params e) param_name of
                 None \<Rightarrow> Ret (CL_INVALID_VALUE, None, None)
               | Some t \<Rightarrow> Ret (CL_SUCCESS, Some (le_bytes 8 t), ret)))"

section \<open>Kernels and programs\<close>

definition kernel_params :: "cl_kernel \<Rightarrow> (nat \<times> byte list outcome) list" where
  "kernel_params k = [(0x1190, str (k_name k)), (0x1191, u32 (of_nat (num_args k))), (0x1192, counter (k_refcount k)),
     (0x1193, object (k_context k)), (0x1194, object (k_program k))]"

definition clGetKernelInfo :: "ptr \<Rightarrow> nat \<Rightarrow> size_t \<Rightarrow> bool \<Rightarrow> bool \<Rightarrow> rt \<Rightarrow> answer outcome" where
  "clGetKernelInfo kern param_name param_value_size want want_ret s =
     (if kern = NULL then Ret (CL_INVALID_KERNEL, None, None)
      else obind (deref (kernels s kern)) (\<lambda>k. switch (kernel_params k) param_name param_value_size want want_ret))"

text \<open>The device a work-group query is about: the one given, if it is in the kernel's context, or
  else the only one of the context.\<close>

definition wg_device :: "cl_context \<Rightarrow> ptr \<Rightarrow> ptr option outcome" where
  "wg_device c device =
     (if device \<noteq> NULL then Ret (if Some device \<in> set (ctx_devices c) then Some device else None)
      else if length (ctx_devices c) > 1 then Ret None
      else obind (c_nth (ctx_devices c) 0) (\<lambda>d. obind (deref d) (\<lambda>p. Ret (Some p))))"

text \<open>The local memory of a kernel: that of the arguments the host sets and the automatic one.\<close>

definition local_mem_total :: "cl_kernel \<Rightarrow> size_t outcome" where
  "local_mem_total k =
     (case arg_is_local k of
        None \<Rightarrow> Ret 0
      | Some is_local \<Rightarrow>
          if num_args k + num_locals k = 0 then Ret 0
          else obind (deref (dyn_arguments k)) (\<lambda>args.
               if length args < num_args k + num_locals k \<or> length is_local < num_args k then Undef
               else Ret (sum_list (map (\<lambda>i. if is_local ! i then arg_size (args ! i) else 0) [0..<num_args k]) +
                         sum_list (map (\<lambda>i. arg_size (args ! (num_args k + i))) [0..<num_locals k]))))"

text \<open>The compile-time work-group size is an array of three \<open>int\<close> that is read as three \<open>size\_t\<close>;
  it is allocated by the first query when it is not there.\<close>

definition compile_wg_size ::
  "env \<Rightarrow> ptr \<Rightarrow> cl_kernel \<Rightarrow> size_t \<Rightarrow> bool \<Rightarrow> bool \<Rightarrow> rt \<Rightarrow> (answer \<times> rt) outcome" where
  "compile_wg_size env kern k param_value_size want want_ret s =
     obind (if reqd_wg_size k \<noteq> None then Ret s
            else case new_obj env s of (p, s) \<Rightarrow>
                 if p = NULL then Undef
                 else Ret (s\<lparr>kernels := (kernels s)(kern \<mapsto> k\<lparr>reqd_wg_size := Some [0, 0, 0]\<rparr>)\<rparr>)) (\<lambda>s.
     if want \<and> \<not> param_value_size < 24 then Undef
     else Ret (if want then (CL_INVALID_VALUE, None, None) else (CL_SUCCESS, None, if want_ret then Some 24 else None), s))"

definition clGetKernelWorkGroupInfo ::
  "env \<Rightarrow> ptr \<Rightarrow> ptr \<Rightarrow> nat \<Rightarrow> size_t \<Rightarrow> bool \<Rightarrow> bool \<Rightarrow> rt \<Rightarrow> (answer \<times> rt) outcome" where
  "clGetKernelWorkGroupInfo env kern device param_name param_value_size want want_ret s =
     obind (deref (kernels s kern)) (\<lambda>k.
     obind (deref (contexts s (k_context k))) (\<lambda>c.
     obind (wg_device c device) (\<lambda>found.
     case found of
       None \<Rightarrow> Ret ((CL_INVALID_DEVICE, None, None), s)
     | Some d \<Rightarrow>
         if param_name = 0x11B0 then clGetDeviceInfo env d 0x1004 param_value_size want want_ret s
         else if param_name = 0x11B1 then compile_wg_size env kern k param_value_size want want_ret s
         else if param_name = 0x11B3
         then obind (deref (devices s d)) (\<lambda>dev. obind (u64 (preferred_wg_size_multiple (dev_info dev))) (\<lambda>v.
              Ret (POCL_RETURN_GETINFO param_value_size want want_ret v, s)))
         else if param_name = 0x11B2
         then obind (local_mem_total k) (\<lambda>sz. obind (u64 sz) (\<lambda>v.
              Ret (POCL_RETURN_GETINFO param_value_size want want_ret v, s)))
         else if param_name = 0x11B4
         then obind (deref (devices s d)) (\<lambda>dev.
              if has (dev_type dev) CL_DEVICE_TYPE_GPU
              then obind (deref (hsaCodeDescriptor k)) (\<lambda>desc. obind (u64 (ucast (workitem_private_segment_byte_size desc))) (\<lambda>v.
                   Ret (POCL_RETURN_GETINFO param_value_size want want_ret v, s)))
              else Abort)
         else Ret ((CL_INVALID_VALUE, None, None), s))))"

text \<open>
  The queries of programs. \<open>targets\<close> are the pointers the caller has put where the binaries query
  looks for them. The number of devices is stored as a \<open>size\_t\<close> after room for a \<open>cl\_uint\<close> was
  checked; an unknown parameter aborts.
\<close>

definition store :: "memory \<Rightarrow> size_t \<Rightarrow> byte list \<Rightarrow> memory outcome" where
  "store m p bs =
     (if mapped m p (length bs)
      then Ret (m\<lparr>bytes := (\<lambda>a. if in_range p (length bs) a then Some (bs ! unat (a - p)) else bytes m a)\<rparr>)
      else Undef)"

definition binary_sizes :: "cl_program \<Rightarrow> byte list" where
  "binary_sizes p = concat (map (\<lambda>b. le_bytes 8 (of_nat (case b of None \<Rightarrow> 0 | Some bs \<Rightarrow> length bs) :: size_t))
                       (take (length (p_devices p)) (binary_list p)))"

fun copy_binaries :: "byte list option list \<Rightarrow> size_t list \<Rightarrow> memory \<Rightarrow> memory outcome" where
  "copy_binaries [] targets m = Ret m"
| "copy_binaries (b # bs) [] m = Undef"
| "copy_binaries (b # bs) (t # ts) m =
     (if t = 0 then copy_binaries bs ts m
      else obind (deref b) (\<lambda>b. obind (store m t b) (copy_binaries bs ts)))"

definition clGetProgramInfo ::
  "ptr \<Rightarrow> nat \<Rightarrow> size_t \<Rightarrow> bool \<Rightarrow> size_t list \<Rightarrow> bool \<Rightarrow> rt \<Rightarrow> (answer \<times> rt) outcome" where
  "clGetProgramInfo program param_name param_value_size want targets want_ret s =
     (if param_name \<notin> {0x1160, 0x1161, 0x1162, 0x1163, 0x1164, 0x1165, 0x1166} then Abort
      else obind (deref (programs s program)) (\<lambda>p.
      let n = length (p_devices p);
          getinfo = (\<lambda>v. Ret (POCL_RETURN_GETINFO param_value_size want want_ret v, s));
          too_small = (\<lambda>sz. want \<and> param_value_size < of_nat sz);
          sized = (\<lambda>sz. if want_ret then Some (of_nat sz) else None)
      in if param_name = 0x1160 then obind (counter (p_refcount p)) getinfo
      else if param_name = 0x1161 then obind (object (p_context p)) getinfo
      else if param_name = 0x1162
      then if too_small 4 then Ret ((CL_INVALID_VALUE, None, None), s)
           else Ret ((CL_SUCCESS, if want then Some (le_bytes 8 (of_nat n :: size_t)) else None, sized 4), s)
      else if param_name = 0x1163
      then if \<not> want then Ret ((CL_SUCCESS, None, sized (8 * n)), s)
           else if too_small (8 * n) then Ret ((CL_INVALID_VALUE, None, None), s)
           else obind (deref (contexts s (p_context p))) (\<lambda>c.
                if length (ctx_devices c) < n then Undef
                else obind (pointer_bytes (take n (ctx_devices c))) getinfo)
      else if param_name = 0x1164
      then obind (str (case prog_source p of None \<Rightarrow> [] | Some source \<Rightarrow> source)) getinfo
      else if too_small (8 * n) then Ret ((CL_INVALID_VALUE, None, None), s)
      else if \<not> want then Ret ((CL_SUCCESS, None, sized (8 * n)), s)
      else if param_name = 0x1165
      then if length (binary_list p) < n then Undef else getinfo (binary_sizes p)
      else obind (copy_binaries (map (\<lambda>i. if i < length (binary_list p) then binary_list p ! i else None) [0..<n]) targets (ram s)) (\<lambda>m.
           Ret ((CL_SUCCESS, None, sized (8 * n)), s\<lparr>ram := m\<rparr>))))"

text \<open>The build status, options and log are all reported as an empty string.\<close>

definition clGetProgramBuildInfo :: "ptr \<Rightarrow> ptr \<Rightarrow> nat \<Rightarrow> size_t \<Rightarrow> bool \<Rightarrow> bool \<Rightarrow> rt \<Rightarrow> answer outcome" where
  "clGetProgramBuildInfo program device param_name param_value_size want want_ret s =
     obind (deref (programs s program)) (\<lambda>p.
     if None \<in> set (p_devices p) then Undef
     else if Some device \<notin> set (p_devices p) then Ret (CL_INVALID_DEVICE, None, None)
     else switch (map (\<lambda>param. (param, str [])) [0x1181, 0x1182, 0x1183]) param_name param_value_size want want_ret)"

end
