(* ===== verification/Info_Claims.thy ===== *)
theory Info_Claims
  imports Info Queue_Claims
begin

text \<open>
  The contract of the information queries: a caller asks for the size, provides that much room,
  and gets exactly that many bytes; a query never stores more than there is room for.
\<close>

section \<open>The contract\<close>

locale info_query =
  fixes ask :: "nat \<Rightarrow> size_t \<Rightarrow> bool \<Rightarrow> bool \<Rightarrow> answer outcome"
  assumes room_law: "ask p sz want ret = Ret (code, Some v, len) \<Longrightarrow> code = CL_SUCCESS \<and> want \<and> of_nat (length v) \<le> sz"
    and value_law: "ask p sz False True = Ret (CL_SUCCESS, None, Some n) \<Longrightarrow>
      \<exists>bs. n = of_nat (length bs) \<and> (\<forall>room ret. ask p room True ret =
        Ret (if room < n then (CL_INVALID_VALUE, None, None) else (CL_SUCCESS, Some bs, if ret then Some n else None)))"
begin

lemma two_calls:
  assumes "ask p 0 False True = Ret (CL_SUCCESS, None, Some n)"
  shows "\<exists>bs. ask p n True False = Ret (CL_SUCCESS, Some bs, None) \<and> n = of_nat (length bs) \<and>
    (\<forall>room < n. ask p room True False = Ret (CL_INVALID_VALUE, None, None))"
proof -
  obtain bs where bs: "n = of_nat (length bs)" "\<And>room ret. ask p room True ret =
      Ret (if room < n then (CL_INVALID_VALUE, None, None) else (CL_SUCCESS, Some bs, if ret then Some n else None))"
    using value_law [OF assms] by blast
  show ?thesis unfolding bs(2) using bs(1) by (intro exI [of _ bs]) auto
qed

lemma never_overflows:
  assumes "ask p sz want ret = Ret (code, Some v, n)" "length v < 2 ^ 64"
  shows "length v \<le> unat sz"
  using room_law [OF assms(1)] assms(2) by (simp add: word_le_nat_alt unat_of_nat take_bit_nat_eq_self)

end

lemma switch_Ret_iff:
  "switch cases p sz want ret = Ret a \<longleftrightarrow>
     (map_of cases p = None \<and> a = (CL_INVALID_VALUE, None, None)) \<or>
     (\<exists>v. map_of cases p = Some (Ret v) \<and> a = POCL_RETURN_GETINFO sz want ret v)"
  by (auto simp: switch_def outcome_simps split: option.splits)

text \<open>Every query that is a \<open>switch\<close> over values fulfils it.\<close>

lemma switch_contract: "info_query (switch cases)"
proof
  fix p sz want ret code v n
  assume "switch cases p sz want ret = Ret (code, Some v, n)"
  then show "code = CL_SUCCESS \<and> want \<and> of_nat (length v) \<le> sz"
    by (auto simp: switch_Ret_iff POCL_RETURN_GETINFO_def not_less split: if_splits)
next
  fix p sz n
  assume "switch cases p sz False True = Ret (CL_SUCCESS, None, Some n)"
  then obtain bs where bs: "map_of cases p = Some (Ret bs)" "n = of_nat (length bs)"
    by (auto simp: switch_Ret_iff POCL_RETURN_GETINFO_def)
  then show "\<exists>bs. n = of_nat (length bs) \<and> (\<forall>room ret. switch cases p room True ret =
      Ret (if room < n then (CL_INVALID_VALUE, None, None) else (CL_SUCCESS, Some bs, if ret then Some n else None)))"
    by (intro exI [of _ bs]) (simp add: switch_def POCL_RETURN_GETINFO_def)
qed

interpretation platform_info: info_query "switch (platform_params cfg)" for cfg by (rule switch_contract)
interpretation device_info: info_query "device_answer platform dev" for platform dev
  unfolding device_answer_def by (rule switch_contract)
interpretation queue_info: info_query "switch (queue_params q)" for q by (rule switch_contract)
interpretation mem_info: info_query "switch (mem_params m)" for m by (rule switch_contract)
interpretation event_info: info_query "switch (event_params e)" for e by (rule switch_contract)
interpretation kernel_info: info_query "switch (kernel_params k)" for k by (rule switch_contract)

section \<open>Devices\<close>

lemma clGetDeviceInfo_cpu:
  assumes "devices s d = Some dev" "\<not> has (dev_type dev) CL_DEVICE_TYPE_GPU"
  shows "clGetDeviceInfo env d p sz want ret s = obind (device_answer (platform_id env) dev p sz want ret) (\<lambda>ans. Ret (ans, s))"
proof -
  have "s\<lparr>devices := (devices s)(d \<mapsto> dev)\<rparr> = s" using assms(1) by (intro rt.equality) auto
  then show ?thesis using assms by (simp add: clGetDeviceInfo_def refresh_def leave_def)
qed

section \<open>Properties\<close>

text \<open>
  The parameters of a device that are numbers, with the types \<open>struct _cl_device_id\<close> declares for its fields, which are
  those of the OpenCL specification, and the values the fields hold.
\<close>

datatype cl_type = T_uint | T_bool | T_ulong | T_size | T_bitfield | T_pointer

fun sizeof :: "cl_type \<Rightarrow> nat" where
  "sizeof T_uint = 4"
| "sizeof T_bool = 4"
| "sizeof T_ulong = 8"
| "sizeof T_size = 8"
| "sizeof T_bitfield = 8"
| "sizeof T_pointer = 8"

definition number_queries :: "int \<Rightarrow> device \<Rightarrow> (nat \<times> cl_type \<times> nat) list" where
  "number_queries platform dev = (let i = dev_info dev in
     [(0x1000, T_bitfield, unat (dev_type dev)), (0x1001, T_uint, unat (vendor_id i)), (0x1002, T_uint, unat (max_compute_units i)),
      (0x1003, T_uint, unat (max_work_item_dimensions i)), (0x1004, T_size, unat (max_work_group_size dev)),
      (0x1006, T_uint, unat (preferred_vector_width_char i)), (0x1007, T_uint, unat (preferred_vector_width_short i)),
      (0x1008, T_uint, unat (preferred_vector_width_int i)), (0x1009, T_uint, unat (preferred_vector_width_long i)),
      (0x100A, T_uint, unat (preferred_vector_width_float i)), (0x100B, T_uint, unat (preferred_vector_width_double i)),
      (0x1034, T_uint, unat (preferred_vector_width_half i)),
      (0x1036, T_uint, unat (native_vector_width_char i)), (0x1037, T_uint, unat (native_vector_width_short i)),
      (0x1038, T_uint, unat (native_vector_width_int i)), (0x1039, T_uint, unat (native_vector_width_long i)),
      (0x103A, T_uint, unat (native_vector_width_float i)), (0x103B, T_uint, unat (native_vector_width_double i)),
      (0x103C, T_uint, unat (native_vector_width_half i)),
      (0x100C, T_uint, unat (max_clock_frequency i)), (0x100D, T_uint, unat (address_bits i)),
      (0x1010, T_ulong, unat (max_mem_alloc_size dev)), (0x100E, T_uint, unat (max_read_image_args i)),
      (0x100F, T_uint, unat (max_write_image_args i)), (0x1011, T_size, unat (image2d_max_width i)),
      (0x1012, T_size, unat (image2d_max_height i)), (0x1013, T_size, unat (image3d_max_width i)),
      (0x1014, T_size, unat (image3d_max_height i)), (0x1015, T_size, unat (image3d_max_depth i)),
      (0x1018, T_uint, unat (max_samplers i)), (0x1017, T_size, unat (max_parameter_size i)),
      (0x1019, T_uint, unat (mem_base_addr_align i)), (0x101A, T_uint, unat (min_data_type_align_size i)),
      (0x101B, T_bitfield, unat (single_fp_config i)), (0x1032, T_bitfield, unat (double_fp_config i)),
      (0x101C, T_uint, unat (global_mem_cache_type i)), (0x101D, T_uint, unat (global_mem_cacheline_size i)),
      (0x101E, T_ulong, unat (global_mem_cache_size i)), (0x101F, T_ulong, unat (global_mem_size i)),
      (0x1020, T_ulong, unat (max_constant_buffer_size i)), (0x1021, T_uint, unat (max_constant_args i)),
      (0x1022, T_uint, unat (local_mem_type i)), (0x1023, T_ulong, unat (local_mem_size i)),
      (0x1024, T_bool, unat (error_correction_support i)), (0x1025, T_size, unat (profiling_timer_resolution i)),
      (0x1026, T_bool, unat (endian_little i)), (0x1027, T_bool, of_bool (available dev)),
      (0x1028, T_bool, unat (compiler_available i)), (0x1029, T_bitfield, unat (execution_capabilities i)),
      (0x102A, T_bitfield, unat (queue_properties i)), (0x1031, T_pointer, unat (word_of_int platform :: size_t))])"

text \<open>The parameters that are texts.\<close>

definition text_queries :: "device \<Rightarrow> (nat \<times> string) list" where
  "text_queries dev = (let i = dev_info dev in
     [(0x102B, the (dev_name i)), (0x102C, the (dev_vendor i)), (0x102D, driver_version i), (0x102E, dev_profile i),
      (0x102F, dev_version i), (0x1030, extensions i)])"

text \<open>Four parameters with values of eight bytes are answered with four.\<close>

definition narrow :: "nat set" where
  "narrow = {0x1020, 0x1025, 0x1029, 0x102A}"

definition stored_number :: "byte list \<Rightarrow> nat" where
  "stored_number bs = foldr (\<lambda>b n. unat b + 256 * n) bs 0"

lemma stored_number_le_bytes: "stored_number (le_bytes n w) = take_bit (8 * n) (unat w)"
proof -
  have "stored_number (map (\<lambda>i. ucast (drop_bit (8 * i) w) :: byte) [m..<m + n]) = take_bit (8 * n) (drop_bit (8 * m) (unat w))" for m
  proof (induction n arbitrary: m)
    case (Suc n)
    have "[m..<m + Suc n] = m # [Suc m..<Suc m + n]" by (simp add: upt_conv_Cons)
    then have "stored_number (map (\<lambda>i. ucast (drop_bit (8 * i) w) :: byte) [m..<m + Suc n]) =
        unat (ucast (drop_bit (8 * m) w) :: byte) + 256 * take_bit (8 * n) (drop_bit (8 * Suc m) (unat w))"
      using Suc [of "Suc m"] by (simp add: stored_number_def)
    also have "unat (ucast (drop_bit (8 * m) w) :: byte) = take_bit 8 (drop_bit (8 * m) (unat w))"
      by (rule bit_eqI) (auto simp: bit_simps dest: bit_imp_le_length)
    also have "take_bit 8 (drop_bit (8 * m) (unat w)) + 256 * take_bit (8 * n) (drop_bit (8 * Suc m) (unat w)) =
        take_bit (8 * Suc n) (drop_bit (8 * m) (unat w))"
    proof -
      have "take_bit (8 * Suc n) x = take_bit 8 x + 256 * take_bit (8 * n) (drop_bit 8 x)" for x :: nat
        using mod_mult2_eq [of x "2 ^ 8" "2 ^ (8 * n)"] by (simp add: take_bit_eq_mod drop_bit_eq_div power_add)
      from this [of "drop_bit (8 * m) (unat w)"] show ?thesis by (simp add: add.commute)
    qed
    finally show ?case .
  qed (simp add: stored_number_def)
  from this [of 0] show ?thesis by (simp add: le_bytes_def)
qed

lemma stored_number_whole:
  "stored_number (le_bytes 4 (w :: 32 word)) = unat w" "stored_number (le_bytes 8 (v :: 64 word)) = unat v"
  "stored_number (le_bytes 4 (ucast v :: 32 word)) = unat v mod 2 ^ 32"
proof -
  have w: "unat w < 2 ^ 32" for w :: "32 word" using unsigned_less [of w, where ?'a = nat] by simp
  have v: "unat v < 2 ^ 64" for v :: "64 word" using unsigned_less [of v, where ?'a = nat] by simp
  show "stored_number (le_bytes 4 w) = unat w" for w :: "32 word" using w [of w] by (simp add: stored_number_le_bytes take_bit_nat_eq_self_iff)
  show "stored_number (le_bytes 8 v) = unat v" for v :: "64 word" using v [of v] by (simp add: stored_number_le_bytes take_bit_nat_eq_self_iff)
  show "stored_number (le_bytes 4 (ucast v :: 32 word)) = unat v mod 2 ^ 32" for v :: "64 word"
    by (simp add: stored_number_le_bytes take_bit_eq_mod unsigned_ucast_eq)
qed

text \<open>What a \<open>switch\<close> answers to the two calls when it has a value for the parameter.\<close>

definition answers :: "env \<Rightarrow> ptr \<Rightarrow> nat \<Rightarrow> rt \<Rightarrow> byte list \<Rightarrow> bool" where
  "answers env d p s bs \<longleftrightarrow>
     clGetDeviceInfo env d p 0 False True s = Ret ((CL_SUCCESS, None, Some (of_nat (length bs))), s) \<and>
     clGetDeviceInfo env d p (of_nat (length bs)) True False s = Ret ((CL_SUCCESS, Some bs, None), s) \<and>
     (\<forall>room < of_nat (length bs). clGetDeviceInfo env d p room True False s = Ret ((CL_INVALID_VALUE, None, None), s))"

lemma answers_value:
  assumes "devices s d = Some dev" "\<not> has (dev_type dev) CL_DEVICE_TYPE_GPU"
    and "map_of (device_params_1 dev @ device_params_2 (platform_id env) dev) p = Some (Ret bs)"
  shows "answers env d p s bs"
proof -
  note cpu = clGetDeviceInfo_cpu [OF assms(1,2)]
  have size: "device_answer (platform_id env) dev p 0 False True = Ret (CL_SUCCESS, None, Some (of_nat (length bs)))"
    using assms(3) by (simp add: device_answer_def switch_def POCL_RETURN_GETINFO_def)
  have "device_answer (platform_id env) dev p (of_nat (length bs)) True False = Ret (CL_SUCCESS, Some bs, None)"
    using assms(3) by (simp add: device_answer_def switch_def POCL_RETURN_GETINFO_def)
  moreover have "\<forall>room < of_nat (length bs). device_answer (platform_id env) dev p room True False = Ret (CL_INVALID_VALUE, None, None)"
    using device_info.two_calls [OF size] by blast
  ultimately show ?thesis unfolding answers_def cpu using size by simp
qed

text \<open>The values the \<open>switch\<close> has for the parameters of the tables.\<close>

definition number_bytes :: "nat \<Rightarrow> cl_type \<Rightarrow> nat \<Rightarrow> byte list \<Rightarrow> bool" where
  "number_bytes p ty v bs \<longleftrightarrow> length bs = (if p \<in> narrow then 4 else sizeof ty) \<and>
     stored_number bs = (if p \<in> narrow then v mod 2 ^ 32 else v)"

lemma unat_narrow: "unat (ucast (v :: 64 word) :: 32 word) = unat v mod 4294967296"
  by (simp add: unsigned_ucast_eq take_bit_eq_mod)

lemma flag_number: "stored_number (le_bytes 4 (if b then 1 else 0 :: 32 word)) = of_bool b"
  by (simp add: stored_number_whole)

lemma numbers_found:
  "(p, ty, v) \<in> set (number_queries platform dev) \<Longrightarrow>
   \<exists>bs. map_of (device_params_1 dev @ device_params_2 platform dev) p = Some (Ret bs) \<and> number_bytes p ty v bs"
  unfolding number_queries_def Let_def
  by (simp only: set_simps insert_iff empty_iff prod.inject, elim disjE conjE FalseE;
      simp add: device_params_1_def device_params_2_def Let_def u32_def u64_def flag_def number_bytes_def narrow_def stored_number_whole flag_number unat_narrow)

lemma texts_found:
  "dev_name (dev_info dev) \<noteq> None \<Longrightarrow> dev_vendor (dev_info dev) \<noteq> None \<Longrightarrow> (p, t) \<in> set (text_queries dev) \<Longrightarrow>
   map_of (device_params_1 dev @ device_params_2 platform dev) p = Some (Ret (map (\<lambda>c. of_nat (of_char c)) t @ [0]))"
  unfolding text_queries_def Let_def
  by (simp only: set_simps insert_iff empty_iff prod.inject, elim disjE conjE FalseE;
      auto simp: device_params_1_def device_params_2_def Let_def str_def name_of_def c_string_def)



text \<open>The number of devices of a program is stored as eight bytes, after room for four was checked.\<close>

theorem program_num_devices_overflows:
  assumes "programs s program = Some p"
  shows "\<exists>bs. clGetProgramInfo program 0x1162 4 True targets True s = Ret ((CL_SUCCESS, Some bs, Some 4), s) \<and> length bs = 8"
  using assms by (simp add: clGetProgramInfo_def Let_def)

end
