(* ===== verification/Kernels.thy ===== *)
theory Kernels
  imports Info Queue Pocl_Util
begin

text \<open>
  Kernel arguments and kernel launches: \<open>clSetKernelArg\<close>, \<open>clEnqueueNDRangeKernel\<close> and
  \<open>clEnqueueTask\<close>. The value of an argument is the bytes the call copied; a cell that was freed
  and not set again is \<open>Arg\_freed\<close>. Calls to the operating system are numbered by \<open>tick\<close> and
  answered by the environment.
\<close>

section \<open>Argument blocks\<close>

definition arg_alignment :: "size_t \<Rightarrow> size_t" where
  "arg_alignment sz =
     (let arg_alignment = pocl_size_ceil2 sz in
      if arg_alignment \<ge> MAX_EXTENDED_ALIGNMENT then MAX_EXTENDED_ALIGNMENT else arg_alignment)"

definition arg_alloc_size :: "size_t \<Rightarrow> size_t" where
  "arg_alloc_size sz = (if sz < arg_alignment sz then arg_alignment sz else sz)"

text \<open>Whether \<open>pocl\_aligned\_malloc\<close> gives the block.\<close>

definition arg_block :: "env \<Rightarrow> size_t \<Rightarrow> rt \<Rightarrow> bool \<times> rt" where
  "arg_block env sz s =
     (pocl_aligned_malloc_posix (\<lambda>_ _. if malloc_fails env (tick s) then Inl 12 else Inr (of_nat (tick s)))
        (arg_alignment sz) (arg_alloc_size sz) \<noteq> None, next_tick s)"

text \<open>\<open>free\<close> of an argument's block, and what the pointer to it is worth then.\<close>

fun free_value :: "arg_mem \<Rightarrow> arg_mem outcome" where
  "free_value Arg_null = Ret Arg_null"
| "free_value Arg_freed = Undef"
| "free_value (Arg_bytes bs) = Ret Arg_freed"

text \<open>The first \<open>n\<close> elements, as \<open>memcpy\<close> reads them.\<close>

definition c_take :: "nat \<Rightarrow> 'a list \<Rightarrow> 'a list outcome" where
  "c_take n bs = (if length bs < n then Undef else Ret (take n bs))"

definition c_set :: "'a list \<Rightarrow> nat \<Rightarrow> 'a \<Rightarrow> 'a list outcome" where
  "c_set xs i v = (if i < length xs then Ret (xs[i := v]) else Undef)"

section \<open>clSetKernelArg\<close>

text \<open>A pointer argument whose first four bytes are zero counts as NULL.\<close>

definition arg_given :: "cl_kernel \<Rightarrow> nat \<Rightarrow> byte list option \<Rightarrow> bool outcome" where
  "arg_given k i value =
     (case value of
        None \<Rightarrow> Ret False
      | Some bs \<Rightarrow> obind (c_nth (arg_is_pointer k) i) (\<lambda>is_pointer.
          if is_pointer then obind (c_take 4 bs) (\<lambda>b. Ret (b \<noteq> [0, 0, 0, 0])) else Ret True))"

definition put_kernel :: "ptr \<Rightarrow> cl_kernel \<Rightarrow> rt \<Rightarrow> rt" where
  "put_kernel kern k s = s\<lparr>kernels := (kernels s)(kern \<mapsto> k)\<rparr>"

text \<open>For a program made from a binary, a NULL argument is taken for a local one.\<close>

definition mark_local :: "cl_kernel \<Rightarrow> nat \<Rightarrow> rt \<Rightarrow> cl_kernel outcome" where
  "mark_local k i s =
     obind (deref (programs s (k_program k))) (\<lambda>p.
     if prog_source p \<noteq> None then Ret k
     else obind (c_set (arg_is_pointer k) i True) (\<lambda>ptrs.
          obind (deref (arg_is_local k)) (\<lambda>is_local.
          obind (c_set is_local i True) (\<lambda>is_local.
          Ret (k\<lparr>arg_is_pointer := ptrs, arg_is_local := Some is_local\<rparr>)))))"

definition clSetKernelArg ::
  "env \<Rightarrow> ptr \<Rightarrow> cl_uint \<Rightarrow> size_t \<Rightarrow> byte list option \<Rightarrow> rt \<Rightarrow> (cl_int \<times> rt) outcome" where
  "clSetKernelArg env kern arg_index sz value s =
     (if kern = NULL then Ret (CL_INVALID_KERNEL, s)
      else obind (deref (kernels s kern)) (\<lambda>k.
      let i = unat arg_index in
      if i > num_args k then Ret (CL_INVALID_ARG_INDEX, s)
      else case dyn_arguments k of
        None \<Rightarrow> Ret (CL_INVALID_KERNEL, s)
      | Some args \<Rightarrow>
          obind (arg_given k i value) (\<lambda>given.
          obind (c_nth args i) (\<lambda>p.
          obind (free_value (arg_value p)) (\<lambda>old.
          if given
          then case arg_block env sz s of (ok, s) \<Rightarrow>
               if \<not> ok
               then Ret (CL_OUT_OF_HOST_MEMORY, put_kernel kern (k\<lparr>dyn_arguments := Some (args[i := p\<lparr>arg_value := old\<rparr>])\<rparr>) s)
               else obind (deref value) (\<lambda>bs.
                    obind (c_take (unat sz) bs) (\<lambda>bs.
                    Ret (CL_SUCCESS,
                         put_kernel kern (k\<lparr>dyn_arguments := Some (args[i := \<lparr>arg_size = sz, arg_value = Arg_bytes bs\<rparr>])\<rparr>) s)))
          else obind (mark_local k i s) (\<lambda>k.
               Ret (CL_SUCCESS,
                    put_kernel kern (k\<lparr>dyn_arguments := Some (args[i := \<lparr>arg_size = sz, arg_value = Arg_null\<rparr>])\<rparr>) s))))))) "

section \<open>The index space\<close>

text \<open>An array of up to three extents; those beyond \<open>wdim\<close> are 1.\<close>

definition read_dims :: "cl_uint \<Rightarrow> size_t list \<Rightarrow> size3 outcome" where
  "read_dims wdim xs =
     obind (c_nth xs 0) (\<lambda>x.
     obind (if wdim > 1 then c_nth xs 1 else Ret 1) (\<lambda>y.
     obind (if wdim > 2 then c_nth xs 2 else Ret 1) (\<lambda>z.
     Ret (x, y, z))))"

lemma unat_half: "unat (p div 2 :: size_t) = unat p div 2"
  by (simp add: unat_div)

text \<open>The loop that halves the preferred multiple until it divides the global size.\<close>

function wg_multiple :: "size_t \<Rightarrow> size_t \<Rightarrow> size_t option" where
  "wg_multiple global_x preferred_wg_multiple =
     (if preferred_wg_multiple \<ge> 1
      then if global_x mod preferred_wg_multiple = 0 \<and> preferred_wg_multiple \<le> global_x
           then Some preferred_wg_multiple
           else wg_multiple global_x (preferred_wg_multiple div 2)
      else None)"
  by pat_completeness auto

termination wg_multiple
  by (relation "measure (\<lambda>(g, p). unat p)") (auto simp: unat_half word_le_nat_alt)

declare wg_multiple.simps [simp del]

definition fst3 :: "size3 \<Rightarrow> size_t" where "fst3 t = fst t"
definition snd3 :: "size3 \<Rightarrow> size_t" where "snd3 t = fst (snd t)"
definition thd3 :: "size3 \<Rightarrow> size_t" where "thd3 t = snd (snd t)"

lemmas size3_simps [simp] = fst3_def snd3_def thd3_def

definition le_word :: "byte list \<Rightarrow> size_t" where
  "le_word bs = foldr (\<lambda>b w. ucast b + 256 * w) bs 0"

text \<open>The local size when the caller gives none.\<close>

definition default_local :: "env \<Rightarrow> ptr \<Rightarrow> ptr \<Rightarrow> size_t \<Rightarrow> rt \<Rightarrow> (size3 \<times> rt) outcome" where
  "default_local env kern device global_x s =
     obind (clGetKernelWorkGroupInfo env kern device 0x11B3 8 True False s) (\<lambda>(ans, s).
     case ans of (retval, value, _) \<Rightarrow>
     if retval \<noteq> CL_SUCCESS then Ret ((1, 1, 1), s)
     else obind (deref value) (\<lambda>v.
          Ret ((case wg_multiple global_x (le_word v) of None \<Rightarrow> 1 | Some x \<Rightarrow> x, 1, 1), s)))"

text \<open>The checks of a CPU device. The number of work-items is a product of \<open>size\_t\<close>.\<close>

definition group_checks :: "device \<Rightarrow> cl_uint \<Rightarrow> size3 \<Rightarrow> size3 \<Rightarrow> nat \<Rightarrow> ptr list option \<Rightarrow> cl_int outcome" where
  "group_checks dev wdim glob loc n_wait wait =
     (let ms = max_work_item_sizes dev in
      if fst3 loc * snd3 loc * thd3 loc > max_work_group_size dev then Ret CL_INVALID_WORK_GROUP_SIZE
      else if fst3 loc > fst3 ms \<or> (wdim > 1 \<and> snd3 loc > snd3 ms) \<or> (wdim > 2 \<and> thd3 loc > thd3 ms)
      then Ret CL_INVALID_WORK_ITEM_SIZE
      else if fst3 loc = 0 then Undef
      else if fst3 glob mod fst3 loc \<noteq> 0 then Ret CL_INVALID_WORK_GROUP_SIZE
      else if snd3 loc = 0 then Undef
      else if snd3 glob mod snd3 loc \<noteq> 0 then Ret CL_INVALID_WORK_GROUP_SIZE
      else if thd3 loc = 0 then Undef
      else if thd3 glob mod thd3 loc \<noteq> 0 then Ret CL_INVALID_WORK_GROUP_SIZE
      else if (wait = None \<and> n_wait > 0) \<or> (wait \<noteq> None \<and> n_wait = 0) then Ret CL_INVALID_EVENT_WAIT_LIST
      else Ret CL_SUCCESS)"

section \<open>Preparing the code\<close>

fun decimal :: "nat \<Rightarrow> string" where
  "decimal n = (if n < 10 then [char_of (48 + n)] else decimal (n div 10) @ [char_of (48 + n mod 10)])"

declare decimal.simps [simp del]

definition POCL_FILENAME_LENGTH :: nat where "POCL_FILENAME_LENGTH = 1024"

text \<open>\<open>snprintf\<close> into an array of that length.\<close>

definition filename :: "string \<Rightarrow> string" where
  "filename st = take (POCL_FILENAME_LENGTH - 1) st"

definition triple_name :: "size3 \<Rightarrow> string" where
  "triple_name t = decimal (unat (fst3 t)) @ ''-'' @ decimal (unat (snd3 t)) @ ''-'' @ decimal (unat (thd3 t))"

definition work_group_dir :: "cl_program \<Rightarrow> string \<Rightarrow> cl_kernel \<Rightarrow> size3 \<Rightarrow> size3 \<Rightarrow> string" where
  "work_group_dir p device_name k loc off =
     filename (temp_dir p @ ''/'' @ device_name @ ''/'' @ k_name k @ ''/'' @ triple_name loc @ ''.'' @ triple_name off)"

definition os_call :: "env \<Rightarrow> rt \<Rightarrow> int \<times> rt" where
  "os_call env s = (os env (tick s), next_tick s)"

text \<open>Writing the bitcode of the kernel, unless the file is already there.\<close>

definition write_kernel_file :: "env \<Rightarrow> cl_program \<Rightarrow> rt \<Rightarrow> (cl_int \<times> rt) outcome" where
  "write_kernel_file env p s =
     (case os_call env s of (accessible, s) \<Rightarrow>
      if accessible = 0 then Ret (CL_SUCCESS, s)
      else case os_call env s of (kernel_file, s) \<Rightarrow>
      if kernel_file = 0 then Ret (CL_OUT_OF_HOST_MEMORY, s)
      else obind (c_nth (binary_list p) 0) (\<lambda>b. obind (deref b) (\<lambda>binary.
           case os_call env s of (n, s) \<Rightarrow>
           if n < int (length binary) then Ret (CL_OUT_OF_HOST_MEMORY, s) else Ret (CL_SUCCESS, s))))"

text \<open>The command for the work-group script is only written when its result is not there yet, and
  executed in both cases.\<close>

definition run_work_group_script :: "env \<Rightarrow> rt \<Rightarrow> (cl_int \<times> rt) outcome" where
  "run_work_group_script env s =
     (case os_call env s of (accessible, s) \<Rightarrow>
      if accessible = 0 then Undef
      else case os_call env s of (written, s) \<Rightarrow>
      if written < 0 then Ret (CL_OUT_OF_HOST_MEMORY, s)
      else case os_call env s of (error, s) \<Rightarrow>
      Ret (if error \<noteq> 0 then CL_OUT_OF_RESOURCES else CL_SUCCESS, s))"

text \<open>The part of the launch only a CPU device goes through: the code and the directory.\<close>

definition prepare_code ::
  "env \<Rightarrow> device \<Rightarrow> cl_kernel \<Rightarrow> size3 \<Rightarrow> size3 \<Rightarrow> rt \<Rightarrow> ((cl_int \<times> string) \<times> rt) outcome" where
  "prepare_code env dev k loc off s =
     obind (deref (programs s (k_program k))) (\<lambda>p.
     obind (deref (dev_name (dev_info dev))) (\<lambda>device_name.
     let tmpdir = work_group_dir p device_name k loc off in
     case os_call env s of (written, s) \<Rightarrow>
     if written < 0 then Ret ((CL_OUT_OF_HOST_MEMORY, tmpdir), s)
     else case os_call env s of (written, s) \<Rightarrow>
     if written < 0 then Ret ((CL_OUT_OF_HOST_MEMORY, tmpdir), s)
     else obind (write_kernel_file env p s) (\<lambda>(code, s).
          if code \<noteq> CL_SUCCESS then Ret ((code, tmpdir), s)
          else obind (run_work_group_script env s) (\<lambda>(code, s). Ret ((code, tmpdir), s)))))"

section \<open>The arguments of a launch\<close>

text \<open>The launch has its own copy of every argument; a block that cannot be had is written to all
  the same.\<close>

definition copy_arg :: "env \<Rightarrow> pocl_argument \<Rightarrow> rt \<Rightarrow> (pocl_argument \<times> rt) outcome" where
  "copy_arg env a s =
     (case arg_value a of
        Arg_null \<Rightarrow> Ret (\<lparr>arg_size = arg_size a, arg_value = Arg_null\<rparr>, s)
      | Arg_freed \<Rightarrow> Undef
      | Arg_bytes bs \<Rightarrow>
          case arg_block env (arg_size a) s of (ok, s) \<Rightarrow>
          if \<not> ok then Undef
          else obind (c_take (unat (arg_size a)) bs) (\<lambda>bs. Ret (\<lparr>arg_size = arg_size a, arg_value = Arg_bytes bs\<rparr>, s)))"

fun copy_args :: "env \<Rightarrow> pocl_argument list \<Rightarrow> rt \<Rightarrow> (pocl_argument list \<times> rt) outcome" where
  "copy_args env [] s = Ret ([], s)"
| "copy_args env (a # as) s =
     obind (copy_arg env a s) (\<lambda>(a, s). obind (copy_args env as s) (\<lambda>(as, s). Ret (a # as, s)))"

text \<open>The first \<open>n\<close> arguments that are buffers: not local, pointers, and not NULL.\<close>

definition is_buffer_arg :: "cl_kernel \<Rightarrow> bool list \<Rightarrow> pocl_argument list \<Rightarrow> nat \<Rightarrow> bool outcome" where
  "is_buffer_arg k is_local args i =
     obind (c_nth args i) (\<lambda>a.
     obind (c_nth is_local i) (\<lambda>loc.
     if loc then Ret False
     else obind (c_nth (arg_is_pointer k) i) (\<lambda>is_pointer. Ret (is_pointer \<and> arg_value a \<noteq> Arg_null))))"

text \<open>\<open>*(cl\_mem *) value\<close>.\<close>

definition buffer_of :: "arg_mem \<Rightarrow> ptr outcome" where
  "buffer_of v = (case v of Arg_bytes bs \<Rightarrow> obind (c_take 8 bs) (\<lambda>bs. Ret (unat (le_word bs))) | _ \<Rightarrow> Undef)"

definition retain_arg ::
  "cl_kernel \<Rightarrow> bool list \<Rightarrow> pocl_argument list \<Rightarrow> nat \<Rightarrow> ptr list \<times> rt \<Rightarrow> (ptr list \<times> rt) outcome" where
  "retain_arg k is_local args i = (\<lambda>(bufs, s).
     obind (is_buffer_arg k is_local args i) (\<lambda>is_buffer.
     if \<not> is_buffer then Ret (bufs, s)
     else obind (buffer_of (arg_value (args ! i))) (\<lambda>buf.
          if buf = NULL then Ret (bufs @ [buf], s)
          else obind (clRetainMemObject buf s) (\<lambda>(_, s). Ret (bufs @ [buf], s)))))"

definition retain_args :: "env \<Rightarrow> cl_kernel \<Rightarrow> pocl_argument list \<Rightarrow> rt \<Rightarrow> (ptr list \<times> rt) outcome" where
  "retain_args env k args s =
     (case new_obj env s of (block, s) \<Rightarrow>
      if num_args k = 0 then Ret ([], s)
      else obind (deref (arg_is_local k)) (\<lambda>is_local.
           obind (oiter (retain_arg k is_local args) [0..<num_args k] ([], s)) (\<lambda>(bufs, s).
           if bufs \<noteq> [] \<and> block = NULL then Undef else Ret (bufs, s))))"

section \<open>clEnqueueNDRangeKernel\<close>

definition launch_checks :: "ptr \<Rightarrow> ptr \<Rightarrow> cl_uint \<Rightarrow> rt \<Rightarrow> cl_int outcome" where
  "launch_checks q kern wdim s =
     (if q = NULL then Ret CL_INVALID_COMMAND_QUEUE
      else if kern = NULL then Ret CL_INVALID_KERNEL
      else obind (deref (queues s q)) (\<lambda>command_queue.
           obind (deref (kernels s kern)) (\<lambda>k.
           if q_context command_queue \<noteq> k_context k then Ret CL_INVALID_CONTEXT
           else obind (deref (devices s (q_device command_queue))) (\<lambda>dev.
                if wdim < 1 \<or> wdim > max_work_item_dimensions (dev_info dev) then Ret CL_INVALID_WORK_DIMENSION
                else obind (c_assert (max_work_item_dimensions (dev_info dev) \<le> 3)) (\<lambda>_. Ret CL_SUCCESS)))))"

definition div3 :: "size3 \<Rightarrow> size3 \<Rightarrow> size3 outcome" where
  "div3 g l = (if fst3 l = 0 \<or> snd3 l = 0 \<or> thd3 l = 0 then Undef
               else Ret (fst3 g div fst3 l, snd3 g div snd3 l, thd3 g div thd3 l))"

text \<open>The index space of a launch; the group's number is not set yet.\<close>

definition launch_pc :: "env \<Rightarrow> cl_uint \<Rightarrow> size3 \<Rightarrow> size3 \<Rightarrow> size3 \<Rightarrow> size3 \<Rightarrow> pocl_context" where
  "launch_pc env wdim off glob loc groups =
     \<lparr>work_dim = unat wdim, num_groups = groups, group_id = (unset_size env, unset_size env, unset_size env),
      global_offset = off, global_size = glob, local_size = loc\<rparr>"

text \<open>From the event on: the launch record, with its references, goes to the end of the queue. The
  event's type is taken from the new command node before that is set.\<close>

definition append_launch ::
  "env \<Rightarrow> ptr \<Rightarrow> ptr \<Rightarrow> cl_uint \<Rightarrow> size3 \<Rightarrow> size3 \<Rightarrow> size3 \<Rightarrow> string \<Rightarrow> bool \<Rightarrow> rt \<Rightarrow> (cl_int \<times> ptr \<times> rt) outcome" where
  "append_launch env q kern wdim off glob loc tmpdir want s =
     obind (event_for env q (e_type (raw_event env)) want s) (\<lambda>(ev, s).
     case ev of Inl _ \<Rightarrow> Ret (CL_OUT_OF_HOST_MEMORY, NULL, s)
     | Inr event \<Rightarrow>
         obind (div3 glob loc) (\<lambda>groups.
         obind (deref (kernels s kern)) (\<lambda>k.
         case new_obj env s of (block, s) \<Rightarrow>
         let n = num_args k + num_locals k in
         obind (if n = 0 then Ret [] else if block = NULL then Undef else deref (dyn_arguments k)) (\<lambda>args.
         if length args < n then Undef
         else obind (copy_args env (take n args) s) (\<lambda>(arguments, s).
              obind (clRetainCommandQueue q s) (\<lambda>(_, s).
              obind (clRetainKernel kern s) (\<lambda>(_, s).
              obind (retain_args env k args s) (\<lambda>(bufs, s).
              obind (append_command q \<lparr>cmd = Cmd_run \<lparr>tmp_dir = tmpdir, run_kernel = kern, arg_buffers = bufs,
                       pc = launch_pc env wdim off glob loc groups,
                       run_arguments = arguments\<rparr>, node_event = event\<rparr> s) (\<lambda>s.
              Ret (CL_SUCCESS, event, s)))))))))) "

definition clEnqueueNDRangeKernel ::
  "env \<Rightarrow> ptr \<Rightarrow> ptr \<Rightarrow> cl_uint \<Rightarrow> size_t list option \<Rightarrow> size_t list option \<Rightarrow> size_t list option \<Rightarrow>
     nat \<Rightarrow> ptr list option \<Rightarrow> bool \<Rightarrow> rt \<Rightarrow> (cl_int \<times> ptr \<times> rt) outcome" where
  "clEnqueueNDRangeKernel env q kern wdim global_work_offset global_work_size local_work_size n_wait wait want s =
     obind (launch_checks q kern wdim s) (\<lambda>code.
     if code \<noteq> CL_SUCCESS then Ret (code, NULL, s)
     else case new_obj env s of (node, s) \<Rightarrow>
     if node = NULL then Ret (CL_OUT_OF_HOST_MEMORY, NULL, s)
     else obind (case global_work_offset of None \<Rightarrow> Ret (0, 0, 0) | Some xs \<Rightarrow> read_dims wdim xs) (\<lambda>off.
     obind (deref global_work_size) (\<lambda>xs.
     obind (read_dims wdim xs) (\<lambda>glob.
     if fst3 glob = 0 \<or> snd3 glob = 0 \<or> thd3 glob = 0 then Ret (CL_INVALID_GLOBAL_WORK_SIZE, NULL, s)
     else obind (deref (queues s q)) (\<lambda>command_queue.
     obind (case local_work_size of
              Some xs \<Rightarrow> obind (read_dims wdim xs) (\<lambda>loc. Ret (loc, s))
            | None \<Rightarrow> default_local env kern (q_device command_queue) (fst3 glob) s) (\<lambda>(loc, s).
     obind (deref (kernels s kern)) (\<lambda>k.
     obind (deref (devices s (q_device command_queue))) (\<lambda>dev.
     obind (if has (dev_type dev) CL_DEVICE_TYPE_CPU
            then obind (group_checks dev wdim glob loc n_wait wait) (\<lambda>code.
                 if code \<noteq> CL_SUCCESS then Ret ((code, []), s) else prepare_code env dev k loc off s)
            else Ret ((CL_SUCCESS, unset_string env), s)) (\<lambda>((code, tmpdir), s).
     if code \<noteq> CL_SUCCESS then Ret (code, NULL, s)
     else append_launch env q kern wdim off glob loc tmpdir want s)))))))))"

text \<open>When the launch fails, the event it did not make is written to all the same.\<close>

definition clEnqueueTask :: "env \<Rightarrow> ptr \<Rightarrow> ptr \<Rightarrow> nat \<Rightarrow> ptr list option \<Rightarrow> bool \<Rightarrow> rt \<Rightarrow> (cl_int \<times> ptr \<times> rt) outcome" where
  "clEnqueueTask env q kern n_wait wait want s =
     obind (clEnqueueNDRangeKernel env q kern 1 None (Some [1]) (Some [1]) n_wait wait want s) (\<lambda>(status, event, s).
     if \<not> want then Ret (status, event, s)
     else obind (deref (events s event)) (\<lambda>e.
          Ret (status, event, s\<lparr>events := (events s)(event \<mapsto> e\<lparr>e_type := CL_COMMAND_TASK\<rparr>)\<rparr>)))"

section \<open>Well-typed kernels\<close>

text \<open>The type invariant of a kernel: there is a cell for every argument and automatic local buffer, a cell with a value has
  as many bytes as its size says, and the parameter flags cover the arguments.\<close>

definition arg_typed :: "pocl_argument \<Rightarrow> bool" where
  "arg_typed a \<longleftrightarrow> (case arg_value a of Arg_bytes bs \<Rightarrow> length bs = unat (arg_size a) | _ \<Rightarrow> True)"

definition kernel_typed :: "cl_kernel \<Rightarrow> bool" where
  "kernel_typed k \<longleftrightarrow>
     (case dyn_arguments k of None \<Rightarrow> True | Some args \<Rightarrow> length args = num_args k + num_locals k \<and> (\<forall>a \<in> set args. arg_typed a)) \<and>
     length (arg_is_pointer k) = num_args k \<and> (case arg_is_local k of None \<Rightarrow> True | Some ls \<Rightarrow> length ls = num_args k)"

end
