(* ===== verification/Execution.thy ===== *)
theory Execution
  imports Kernels "HOL-Library.Multiset"
begin

text \<open>
  The execution of a kernel command by the two CPU drivers: \<open>llvm\_codegen\<close>, the argument array of a
  work-group function, the loops of \<open>pocl\_basic\_run\<close>, and the threads of \<open>pocl\_pthread\_run\<close>. The
  work-group function is compiled code found by \<open>lt\_dlsym\<close>; it is an argument, a function of its
  arguments, the index space with the group's number in it, and the memory.
\<close>

section \<open>Loading the code\<close>

text \<open>A call whose result an assertion tests.\<close>

definition os_assert :: "env \<Rightarrow> (int \<Rightarrow> bool) \<Rightarrow> rt \<Rightarrow> rt outcome" where
  "os_assert env P s = (case os_call env s of (r, s) \<Rightarrow> if P r then Ret s else Abort)"

definition written :: "int \<Rightarrow> bool" where "written r \<longleftrightarrow> r \<ge> 0"
definition exited :: "int \<Rightarrow> bool" where "exited r \<longleftrightarrow> r = 0"

text \<open>The module is built by \<open>llc\<close>, \<open>clang\<close> and the linker unless it is already there.\<close>

definition llvm_codegen :: "env \<Rightarrow> string \<Rightarrow> rt \<Rightarrow> (string \<times> rt) outcome" where
  "llvm_codegen env tmpdir s =
     (case new_obj env s of (block, s) \<Rightarrow>
      if block = NULL then Undef
      else let module = filename (tmpdir @ ''/parallel.so'') in
      obind (os_assert env written s) (\<lambda>s.
      case os_call env s of (accessible, s) \<Rightarrow>
      if accessible = 0 then Ret (module, s)
      else obind (oiter (os_assert env) [written, written, written, exited, written, exited, written, exited] s) (\<lambda>s.
           Ret (module, s))))"

text \<open>
  An entry of the argument array points to a cell the driver allocated, to the device pointer of
  a buffer, or to the value itself.
\<close>

datatype wg_arg = Cell size_t | Slot size_t | Val arg_mem

type_synonym workgroup = "wg_arg list \<Rightarrow> pocl_context \<Rightarrow> memory \<Rightarrow> memory outcome"

definition WORKGROUP_STRING_LENGTH :: nat where "WORKGROUP_STRING_LENGTH = 128"

definition workgroup_string :: "cl_kernel \<Rightarrow> string" where
  "workgroup_string k = take (WORKGROUP_STRING_LENGTH - 1) (''_'' @ function_name k @ ''_workgroup'')"

text \<open>\<open>lt\_dlopen\<close> and \<open>lt\_dlsym\<close>; both drivers give up when one of them fails.\<close>

definition open_module :: "env \<Rightarrow> string \<Rightarrow> rt \<Rightarrow> (string \<times> rt) outcome" where
  "open_module env tmpdir s =
     obind (llvm_codegen env tmpdir s) (\<lambda>(module, s).
     case os_call env s of (handle, s) \<Rightarrow> if handle = 0 then Abort else Ret (module, s))"

definition find_workgroup :: "(string \<Rightarrow> string \<Rightarrow> workgroup option) \<Rightarrow> string \<Rightarrow> cl_kernel \<Rightarrow> workgroup outcome" where
  "find_workgroup dlsym module k =
     (case dlsym module (workgroup_string k) of None \<Rightarrow> Abort | Some w \<Rightarrow> Ret w)"

text \<open>The position in the kernel's context of the first device with this driver data; it stays
  unset when there is none.\<close>

fun find_data :: "(ptr \<Rightarrow> device option) \<Rightarrow> nat \<Rightarrow> ptr option list \<Rightarrow> nat \<Rightarrow> (nat \<times> ptr) option outcome" where
  "find_data devs data [] i = Ret None"
| "find_data devs data (d # ds) i =
     obind (deref d) (\<lambda>p. obind (deref (devs p)) (\<lambda>dev.
     if dev_data dev = data then Ret (Some (i, p)) else find_data devs data ds (Suc i)))"

section \<open>The argument array\<close>

definition image_struct :: "size_t \<Rightarrow> cl_mem \<Rightarrow> byte list" where
  "image_struct data m =
     le_bytes 8 data @ le_bytes 4 (image_width m) @ le_bytes 4 (image_height m) @ le_bytes 4 (image_row_pitch m) @
     le_bytes 4 (image_channel_order m) @ le_bytes 4 (image_channel_data_type m)"

text \<open>A new cell; its \<open>malloc\<close> is not checked.\<close>

definition new_cell :: "env \<Rightarrow> rt \<Rightarrow> rt outcome" where
  "new_cell env s = (case new_obj env s of (cell, s) \<Rightarrow> if cell = NULL then Undef else Ret s)"

definition device_malloc :: "driver_ops \<Rightarrow> nat \<Rightarrow> size_t \<Rightarrow> rt \<Rightarrow> (size_t \<times> rt) outcome" where
  "device_malloc ops data sz s =
     obind (op_malloc ops (ram s) data 0 sz 0) (\<lambda>(p, m). Ret (p, s\<lparr>ram := m\<rparr>))"

definition device_free :: "driver_ops \<Rightarrow> nat \<Rightarrow> size_t \<Rightarrow> rt \<Rightarrow> rt outcome" where
  "device_free ops data p = on_ram (\<lambda>m. op_free ops m data 0 p)"

text \<open>The device pointer of the buffer or image an argument names.\<close>

definition device_slot :: "nat option \<Rightarrow> arg_mem \<Rightarrow> rt \<Rightarrow> (size_t \<times> cl_mem) outcome" where
  "device_slot index v s =
     obind (buffer_of v) (\<lambda>buf.
     obind (deref (mems s buf)) (\<lambda>m.
     obind (deref index) (\<lambda>i.
     obind (c_nth (device_ptrs m) i) (\<lambda>p. Ret (p, m)))))"

text \<open>
  The conversion of one argument, the same in both drivers: \<open>i\<close> below \<open>num\_args\<close> is an argument of
  the kernel, from there on an automatic local. A sampler is copied from a variable that is not
  set.
\<close>

definition setup_arg ::
  "env \<Rightarrow> driver_ops \<Rightarrow> nat \<Rightarrow> nat option \<Rightarrow> cl_kernel \<Rightarrow> pocl_argument list \<Rightarrow> nat \<Rightarrow> rt \<Rightarrow> (wg_arg \<times> rt) outcome" where
  "setup_arg env ops data index k args i s =
     obind (c_nth args i) (\<lambda>a.
     if i \<ge> num_args k
     then obind (new_cell env s) (\<lambda>s. obind (device_malloc ops data (arg_size a) s) (\<lambda>(p, s). Ret (Cell p, s)))
     else obind (deref (arg_is_local k)) (\<lambda>is_local.
     obind (c_nth is_local i) (\<lambda>loc.
     if loc then obind (new_cell env s) (\<lambda>s. obind (device_malloc ops data (arg_size a) s) (\<lambda>(p, s). Ret (Cell p, s)))
     else obind (c_nth (arg_is_pointer k) i) (\<lambda>is_pointer.
     if is_pointer
     then if arg_value a = Arg_null then obind (new_cell env s) (\<lambda>s. Ret (Cell 0, s))
          else obind (device_slot index (arg_value a) s) (\<lambda>(p, _). Ret (Slot p, s))
     else obind (c_nth (arg_is_image k) i) (\<lambda>is_img.
     if is_img
     then obind (device_slot index (arg_value a) s) (\<lambda>(p, m).
          obind (device_malloc ops data 32 s) (\<lambda>(devptr, s).
          obind (new_cell env s) (\<lambda>s.
          obind (on_ram (\<lambda>r. store r devptr (image_struct p m)) s) (\<lambda>s. Ret (Cell devptr, s)))))
     else obind (c_nth (arg_is_sampler k) i) (\<lambda>is_sampler.
     if is_sampler
     then obind (new_cell env s) (\<lambda>s.
          obind (device_malloc ops data 4 s) (\<lambda>(p, s).
          obind (on_ram (\<lambda>r. store r p (le_bytes 4 (unset_size env))) s) (\<lambda>s. Ret (Cell p, s))))
     else Ret (Val (arg_value a), s)))))))"

text \<open>The numbers of the work-groups, in the order of the loops over z, y and x.\<close>

definition group_ids :: "size3 \<Rightarrow> size3 list" where
  "group_ids n =
     concat (map (\<lambda>z. concat (map (\<lambda>y. map (\<lambda>x. (of_nat x, of_nat y, of_nat z)) [0..<unat (fst3 n)])
       [0..<unat (snd3 n)])) [0..<unat (thd3 n)])"

definition run_group :: "workgroup \<Rightarrow> wg_arg list \<Rightarrow> pocl_context \<Rightarrow> size3 \<Rightarrow> memory \<Rightarrow> memory outcome" where
  "run_group w args c gid m = w args (c\<lparr>group_id := gid\<rparr>) m"

section \<open>The basic driver\<close>

fun setup_args ::
  "env \<Rightarrow> driver_ops \<Rightarrow> nat \<Rightarrow> nat option \<Rightarrow> cl_kernel \<Rightarrow> pocl_argument list \<Rightarrow> nat list \<Rightarrow> rt \<Rightarrow> (wg_arg list \<times> rt) outcome"
where
  "setup_args env ops data index k args [] s = Ret ([], s)"
| "setup_args env ops data index k args (i # is) s =
     obind (setup_arg env ops data index k args i s) (\<lambda>(a, s).
     obind (setup_args env ops data index k args is s) (\<lambda>(as, s). Ret (a # as, s)))"

text \<open>Only the local memory is given back; the cells are not.\<close>

definition free_local :: "driver_ops \<Rightarrow> nat \<Rightarrow> cl_kernel \<Rightarrow> wg_arg list \<Rightarrow> nat \<Rightarrow> rt \<Rightarrow> rt outcome" where
  "free_local ops data k as i s =
     obind (if i \<ge> num_args k then Ret True
            else obind (deref (arg_is_local k)) (\<lambda>is_local. c_nth is_local i)) (\<lambda>loc.
     if \<not> loc then Ret s
     else case as ! i of Cell p \<Rightarrow> device_free ops data p s | _ \<Rightarrow> Undef)"

definition pocl_basic_run ::
  "env \<Rightarrow> c_library \<Rightarrow> (string \<Rightarrow> string \<Rightarrow> workgroup option) \<Rightarrow> nat \<Rightarrow> command_run \<Rightarrow> rt \<Rightarrow> rt outcome" where
  "pocl_basic_run env lib dlsym data c s =
     obind (c_assert (data \<noteq> 0)) (\<lambda>_.
     obind (deref (kernels s (run_kernel c))) (\<lambda>k.
     obind (open_module env (tmp_dir c) s) (\<lambda>(module, s).
     obind (deref (contexts s (k_context k))) (\<lambda>ctx.
     obind (find_data (devices s) data (ctx_devices ctx) 0) (\<lambda>found.
     obind (find_workgroup dlsym module k) (\<lambda>w.
     let n = num_args k + num_locals k; ops = basic_ops lib in
     obind (setup_args env ops data (map_option fst found) k (run_arguments c) [0..<n] s) (\<lambda>(as, s).
     obind (oiter (\<lambda>gid. on_ram (run_group w as (pc c) gid)) (group_ids (num_groups (pc c))) s) (\<lambda>s.
     oiter (free_local ops data k as) [0..<n] s))))))))"

section \<open>The pthread driver\<close>

fun digits :: "int \<Rightarrow> string \<Rightarrow> int" where
  "digits acc [] = acc"
| "digits acc (c # cs) =
     (let d = int (of_char c) - 48 in if 0 \<le> d \<and> d \<le> 9 then digits (acc * 10 + d) cs else acc)"

definition atoi :: "string \<Rightarrow> int outcome" where
  "atoi st =
     (let st = dropWhile (\<lambda>c. of_char c \<in> {9, 10, 11, 12, 13, 32 :: nat}) st;
          v = (case st of [] \<Rightarrow> 0
               | c # cs \<Rightarrow> if c = CHR ''-'' then - digits 0 cs else if c = CHR ''+'' then digits 0 cs else digits 0 st)
      in if - (2 ^ 31) \<le> v \<and> v < 2 ^ 31 then Ret v else Undef)"

text \<open>\<open>max\_threads\<close> is the value of \<open>POCL\_MAX\_PTHREAD\_COUNT\<close>, if it is set.\<close>

definition FALLBACK_MAX_THREAD_COUNT :: int where "FALLBACK_MAX_THREAD_COUNT = 8"

definition get_max_thread_count :: "string option \<Rightarrow> device \<Rightarrow> int outcome" where
  "get_max_thread_count max_threads dev =
     (case max_threads of
        Some st \<Rightarrow> atoi st
      | None \<Rightarrow> Ret (if max_compute_units (dev_info dev) = 0 then FALLBACK_MAX_THREAD_COUNT
                     else sint (max_compute_units (dev_info dev))))"

text \<open>What differs between the threads of a launch.\<close>

record thread_arguments =
  ta_pc :: pocl_context
  last_gid_x :: int

text \<open>A \<open>size\_t\<close> stored in an \<open>int\<close>.\<close>

definition to_int :: "size_t \<Rightarrow> int" where
  "to_int n = sint (ucast n :: c_int)"

text \<open>The loop that hands out the work-groups; the last thread also gets those left over.\<close>

fun create_threads :: "int \<Rightarrow> int \<Rightarrow> pocl_context \<Rightarrow> nat \<Rightarrow> int \<Rightarrow> int \<Rightarrow> thread_arguments list" where
  "create_threads wgs_per_thread leftover_wgs c 0 first_gid_x last_x = []"
| "create_threads wgs_per_thread leftover_wgs c (Suc n) first_gid_x last_x =
     (let last_x = (if n = 0 then last_x + leftover_wgs else last_x) in
      \<lparr>ta_pc = c\<lparr>group_id := (word_of_int first_gid_x, snd3 (group_id c), thd3 (group_id c))\<rparr>, last_gid_x = last_x\<rparr> #
      create_threads wgs_per_thread leftover_wgs c n (first_gid_x + wgs_per_thread) (last_x + wgs_per_thread))"

definition split_groups :: "int \<Rightarrow> pocl_context \<Rightarrow> thread_arguments list" where
  "split_groups num_threads c =
     (let num_groups_x = to_int (fst3 (num_groups c));
          wgs_per_thread = num_groups_x div num_threads;
          leftover_wgs = num_groups_x - num_threads * wgs_per_thread
      in create_threads wgs_per_thread leftover_wgs c (nat num_threads) 0 (wgs_per_thread - 1))"

text \<open>The loops of one thread over its part of the groups.\<close>

definition thread_groups :: "thread_arguments \<Rightarrow> size3 list" where
  "thread_groups ta =
     (let first_gid_x = to_int (fst3 (group_id (ta_pc ta))); n = num_groups (ta_pc ta) in
      concat (map (\<lambda>z. concat (map (\<lambda>y. map (\<lambda>x. (of_nat x, of_nat y, of_nat z))
          [nat first_gid_x..<nat (last_gid_x ta + 1)]) [0..<unat (snd3 n)])) [0..<unat (thd3 n)]))"

datatype wg_step = Setup nat | Group size3 | Cleanup nat

text \<open>What \<open>workgroup\_thread\<close> does, one after the other.\<close>

definition workgroup_thread :: "cl_kernel \<Rightarrow> thread_arguments \<Rightarrow> wg_step list" where
  "workgroup_thread k ta =
     (let n = num_args k + num_locals k in
      map Setup [0..<n] @ map Group (thread_groups ta) @ map Cleanup [0..<n])"

text \<open>\<open>free (arguments[i])\<close> is only defined for a cell.\<close>

definition free_cell :: "wg_arg \<Rightarrow> rt \<Rightarrow> rt outcome" where
  "free_cell a s = (case a of Cell p \<Rightarrow> Ret s | _ \<Rightarrow> Undef)"

fun points_to_null :: "wg_arg \<Rightarrow> bool" where
  "points_to_null (Cell p) = (p = 0)"
| "points_to_null (Slot p) = (p = 0)"
| "points_to_null (Val v) = False"

definition cleanup_arg :: "driver_ops \<Rightarrow> nat \<Rightarrow> cl_kernel \<Rightarrow> wg_arg list \<Rightarrow> nat \<Rightarrow> rt \<Rightarrow> rt outcome" where
  "cleanup_arg ops data k as i s =
     obind (c_nth as i) (\<lambda>a.
     if i \<ge> num_args k then (case a of Cell p \<Rightarrow> device_free ops data p s | _ \<Rightarrow> Undef)
     else obind (deref (arg_is_local k)) (\<lambda>is_local.
     obind (c_nth is_local i) (\<lambda>loc.
     if loc then (case a of Cell p \<Rightarrow> device_free ops data p s | _ \<Rightarrow> Undef)
     else obind (c_nth (arg_is_sampler k) i) (\<lambda>is_sampler.
     if is_sampler then free_cell a s
     else obind (c_nth (arg_is_image k) i) (\<lambda>is_img.
     if is_img then free_cell a s
     else obind (c_nth (arg_is_pointer k) i) (\<lambda>is_pointer.
     if is_pointer \<and> points_to_null a then free_cell a s else Ret s))))))"

definition thread_step ::
  "env \<Rightarrow> driver_ops \<Rightarrow> nat \<Rightarrow> nat option \<Rightarrow> cl_kernel \<Rightarrow> pocl_argument list \<Rightarrow> workgroup \<Rightarrow> pocl_context \<Rightarrow>
     wg_step \<Rightarrow> wg_arg list \<times> rt \<Rightarrow> (wg_arg list \<times> rt) outcome" where
  "thread_step env ops data index k args w c stp = (\<lambda>(as, s).
     case stp of
       Setup i \<Rightarrow> obind (setup_arg env ops data index k args i s) (\<lambda>(a, s). Ret (as @ [a], s))
     | Group gid \<Rightarrow> obind (on_ram (run_group w as c gid) s) (\<lambda>s. Ret (as, s))
     | Cleanup i \<Rightarrow> obind (cleanup_arg ops data k as i s) (\<lambda>s. Ret (as, s)))"

text \<open>
  The threads run in any interleaving: \<open>sched\<close> says, for the number of the step, which of the
  threads that are not done goes on. The main thread waits until all of them are.
\<close>

definition pending :: "('a \<times> 'b list) list \<Rightarrow> nat list" where
  "pending ts = filter (\<lambda>i. snd (ts ! i) \<noteq> []) [0..<length ts]"

definition pick :: "(nat \<Rightarrow> nat) \<Rightarrow> nat \<Rightarrow> ('a \<times> 'b list) list \<Rightarrow> nat" where
  "pick sched n ts = pending ts ! (sched n mod length (pending ts))"

lemma pick_pending:
  assumes "pending ts \<noteq> []"
  shows "pick sched n ts < length ts" "snd (ts ! pick sched n ts) \<noteq> []"
proof -
  have "pick sched n ts \<in> set (pending ts)" using assms by (simp add: pick_def)
  then show "pick sched n ts < length ts" "snd (ts ! pick sched n ts) \<noteq> []" by (auto simp: pending_def)
qed

text \<open>Every step leaves one step less.\<close>

definition steps_left :: "('a \<times> 'b list) list \<Rightarrow> nat" where
  "steps_left ts = sum_list (map (\<lambda>t. length (snd t)) ts)"

lemma steps_left_decr:
  assumes "i < length ts" "snd (ts ! i) \<noteq> []"
  shows "Suc (steps_left (ts[i := (as, tl (snd (ts ! i)))])) = steps_left ts"
  using assms
proof (induction ts arbitrary: i)
  case (Cons t ts)
  show ?case
  proof (cases i)
    case 0
    then show ?thesis using Cons.prems by (cases "snd t") (auto simp: steps_left_def)
  next
    case (Suc j)
    then show ?thesis using Cons by (auto simp: steps_left_def)
  qed
qed simp

lemma steps_left_pick:
  "pending ts \<noteq> [] \<Longrightarrow> steps_left (ts[pick sched n ts := (as, tl (snd (ts ! pick sched n ts)))]) < steps_left ts"
  using steps_left_decr [OF pick_pending (1,2), of ts sched n as] by simp

function interleave ::
  "(nat \<Rightarrow> nat) \<Rightarrow> ('b \<Rightarrow> 'a \<times> 's \<Rightarrow> ('a \<times> 's) outcome) \<Rightarrow> nat \<Rightarrow> ('a \<times> 'b list) list \<Rightarrow> 's \<Rightarrow> 's outcome" where
  "interleave sched exec n ts s =
     (if pending ts = [] then Ret s
      else let i = pick sched n ts; t = ts ! i in
           obind (exec (hd (snd t)) (fst t, s)) (\<lambda>(as, s).
           interleave sched exec (Suc n) (ts[i := (as, tl (snd t))]) s))"
  by pat_completeness auto

termination interleave
  by (relation "measure (\<lambda>(sched, exec, n, ts, s). steps_left ts)") (auto intro: steps_left_pick)

declare interleave.simps [simp del]

definition mark_event :: "(64 word \<Rightarrow> cl_event \<Rightarrow> cl_event) \<Rightarrow> int \<Rightarrow> env \<Rightarrow> ptr \<Rightarrow> rt \<Rightarrow> rt outcome" where
  "mark_event stamp st env event s =
     (if event = NULL then Ret s
      else obind (deref (events s event)) (\<lambda>e. update_event stamp st env (e_queue e) event s))"

text \<open>
  The counters of the loops over y and z are \<open>unsigned\<close>: with 2 to the 32 or more groups there
  they wrap and the threads never end, so that the call does not return.
\<close>

definition counters_wrap :: "size3 \<Rightarrow> bool" where
  "counters_wrap n \<longleftrightarrow> 2 ^ 32 \<le> unat (snd3 n) \<or> 2 ^ 32 \<le> unat (thd3 n)"

text \<open>With no group the division by the number of threads is undefined; a negative number of threads
  asks \<open>malloc\<close> for almost the whole address space and writes through the result.\<close>

definition pocl_pthread_run ::
  "env \<Rightarrow> arg_order \<Rightarrow> c_library \<Rightarrow> (string \<Rightarrow> string \<Rightarrow> workgroup option) \<Rightarrow> (nat \<Rightarrow> nat) \<Rightarrow> string option \<Rightarrow>
     nat \<Rightarrow> command_run \<Rightarrow> ptr \<Rightarrow> rt \<Rightarrow> rt outcome" where
  "pocl_pthread_run env ord lib dlsym sched max_threads data c event s =
     obind (deref (kernels s (run_kernel c))) (\<lambda>k.
     obind (open_module env (tmp_dir c) s) (\<lambda>(module, s).
     obind (deref (contexts s (k_context k))) (\<lambda>ctx.
     obind (find_data (devices s) data (ctx_devices ctx) 0) (\<lambda>found.
     obind (find_workgroup dlsym module k) (\<lambda>w.
     obind (deref found) (\<lambda>(index, device_ptr).
     obind (deref (devices s device_ptr)) (\<lambda>dev.
     obind (get_max_thread_count max_threads dev) (\<lambda>max_threads.
     let num_threads = min max_threads (to_int (fst3 (num_groups (pc c)))) in
     if num_threads < 1 then Undef
     else obind (new_cell env s) (\<lambda>s.
     obind (new_cell env s) (\<lambda>s.
     obind (mark_event (\<lambda>t e. e\<lparr>time_start := t\<rparr>) CL_RUNNING env event s) (\<lambda>s.
     obind (oiter (\<lambda>_. os_assert env exited) (split_groups num_threads (pc c)) s) (\<lambda>s.
     if counters_wrap (num_groups (pc c)) then Abort
     else obind (interleave sched
            (thread_step env (pthread_ops ord lib) data (Some index) k (run_arguments c) w (pc c)) 0
            (map (\<lambda>ta. ([], workgroup_thread k ta)) (split_groups num_threads (pc c))) s) (\<lambda>s.
     mark_event (\<lambda>t e. e\<lparr>time_end := t\<rparr>) CL_COMPLETE env event s)))))))))))))"

end
