(* ===== verification/Execution_Claims.thy ===== *)
theory Execution_Claims
  imports Execution Queue_Claims
begin

text \<open>
  What the execution of a kernel guarantees: the choice of a work-group size ends and is right,
  the threads of the pthread driver share the work-groups out without loss or repetition, and in
  every interleaving they do what the basic driver's loop does.
\<close>

section \<open>The default work-group size\<close>

lemma wg_multiple_loop:
  assumes "0 < unat g" "0 < unat p"
  shows "\<exists>k r. wg_multiple g p = Some r \<and> unat r = unat p div 2 ^ k \<and> 0 < unat r \<and> unat r dvd unat g \<and>
    (\<forall>j < k. \<not> unat p div 2 ^ j dvd unat g)"
  using assms
proof (induction g p rule: wg_multiple.induct)
  case (1 g p)
  have g: "0 < unat g" by (rule "1.prems"(1))
  have p: "1 \<le> p" using "1.prems" by (simp add: word_le_nat_alt)
  have thread_fits: "g mod p = 0 \<and> p \<le> g \<longleftrightarrow> unat p dvd unat g"
  proof -
    have "g mod p = 0 \<longleftrightarrow> unat p dvd unat g"
      by (metis dvd_eq_mod_eq_0 unat_eq_zero unat_mod)
    then show ?thesis using dvd_imp_le [of "unat p" "unat g"] g by (auto simp: word_le_nat_alt)
  qed
  show ?case
  proof (cases "unat p dvd unat g")
    case True
    then show ?thesis
      using p thread_fits "1.prems" by (intro exI [of _ 0] exI [of _ p]) (simp add: wg_multiple.simps [of g p])
  next
    case False
    then have "unat p \<noteq> 1" by auto
    then have "0 < unat (p div 2)" using "1.prems" by (simp add: unat_half)
    then obtain k r where r: "wg_multiple g (p div 2) = Some r" "unat r = unat (p div 2) div 2 ^ k" "0 < unat r"
      "unat r dvd unat g" "\<forall>j < k. \<not> unat (p div 2) div 2 ^ j dvd unat g"
      using "1.IH" [OF p _ g] thread_fits False by meson
    have "\<not> unat p div 2 ^ j dvd unat g" if "j < Suc k" for j
      using that r(5) False by (cases j) (auto simp: unat_half div_mult2_eq)
    moreover have "wg_multiple g p = Some r" using r(1) thread_fits False p by (subst wg_multiple.simps) auto
    ultimately show ?thesis
      using r by (intro exI [of _ "Suc k"] exI [of _ r]) (simp add: unat_half div_mult2_eq)
  qed
qed

section \<open>Sharing out the work-groups\<close>

text \<open>The groups whose first number is in \<open>xs\<close>.\<close>

definition grid :: "nat list \<Rightarrow> size3 \<Rightarrow> size3 list" where
  "grid xs n = concat (map (\<lambda>z. concat (map (\<lambda>y. map (\<lambda>x. (of_nat x, of_nat y, of_nat z)) xs)
     [0..<unat (snd3 n)])) [0..<unat (thd3 n)])"

definition columns :: "thread_arguments \<Rightarrow> nat list" where
  "columns ta = [nat (to_int (fst3 (group_id (ta_pc ta))))..<nat (last_gid_x ta + 1)]"

lemma thread_groups_grid: "thread_groups ta = grid (columns ta) (num_groups (ta_pc ta))"
  by (simp add: thread_groups_def grid_def columns_def Let_def)

lemma group_ids_grid: "group_ids n = grid [0..<unat (fst3 n)] n"
  by (simp add: group_ids_def grid_def)

lemma mset_concat_append:
  "mset (concat (map (\<lambda>y. f y @ g y) ys)) = mset (concat (map f ys)) + mset (concat (map g ys))"
  by (induction ys) (auto simp: ac_simps)

lemma mset_concat_cong: "(\<And>y. y \<in> set ys \<Longrightarrow> mset (f y) = mset (g y)) \<Longrightarrow> mset (concat (map f ys)) = mset (concat (map g ys))"
  by (induction ys) auto

lemma mset_grid_append: "mset (grid (xs @ ys) n) = mset (grid xs n) + mset (grid ys n)"
proof -
  have "mset (grid (xs @ ys) n) =
    mset (concat (map (\<lambda>z. concat (map (\<lambda>y. map (\<lambda>x. (of_nat x, of_nat y, of_nat z)) xs) [0..<unat (snd3 n)]) @
      concat (map (\<lambda>y. map (\<lambda>x. (of_nat x, of_nat y, of_nat z)) ys) [0..<unat (snd3 n)])) [0..<unat (thd3 n)]))"
    unfolding grid_def by (rule mset_concat_cong) (simp only: map_append mset_concat_append mset_append)
  then show ?thesis by (simp only: mset_concat_append grid_def)
qed

lemma mset_grid_concat:
  assumes "\<forall>ta \<in> set tas. num_groups (ta_pc ta) = n"
  shows "mset (concat (map thread_groups tas)) = mset (grid (concat (map columns tas)) n)"
  using assms
proof (induction tas)
  case Nil
  show ?case by (simp add: grid_def)
next
  case (Cons ta tas)
  then show ?case by (simp add: mset_grid_append thread_groups_grid)
qed

lemma to_int_small: "0 \<le> i \<Longrightarrow> i < 2 ^ 31 \<Longrightarrow> to_int (word_of_int i) = i"
  by (simp add: to_int_def unsigned_of_int sint_uint signed_take_bit_take_bit signed_take_bit_int_eq_self)

lemma to_int_uint: "uint n < 2 ^ 31 \<Longrightarrow> to_int n = uint n"
  using to_int_small [of "uint n"] by simp

lemma uint_less_unat: "unat n < 2 ^ k \<Longrightarrow> uint n < 2 ^ k"
  by (metis of_nat_less_iff of_nat_numeral of_nat_power uint_nat)

lemma upt_split: "i \<le> j \<Longrightarrow> j \<le> k \<Longrightarrow> [i..<k] = [i..<j] @ [j..<k]"
  by (metis le_add_diff_inverse upt_add_eq_append)

lemma create_threads_columns:
  assumes "0 < n" "1 \<le> w" "0 \<le> l" "0 \<le> f" "f + int n * w + l < 2 ^ 31"
  shows "concat (map columns (create_threads w l c n f (f + w - 1))) = [nat f..<nat (f + int n * w + l)]"
  using assms
proof (induction n arbitrary: f)
  case (Suc n)
  have grow: "w + int n * w = int (Suc n) * w" by (simp add: algebra_simps)
  have nonneg: "0 \<le> int n * w" using Suc.prems(2) by simp
  have f: "to_int (word_of_int f) = f"
    using Suc.prems(3,4,5) grow nonneg Suc.prems(2) by (intro to_int_small) linarith+
  show ?case
  proof (cases n)
    case 0
    then show ?thesis using f by (simp add: columns_def algebra_simps)
  next
    case (Suc m)
    have next_last: "f + w - 1 + w = (f + w) + w - 1" by simp
    have "concat (map columns (create_threads w l c n (f + w) (f + w - 1 + w))) = [nat (f + w)..<nat (f + w + int n * w + l)]"
      unfolding next_last
    proof (rule Suc.IH)
      show "0 < n" using Suc by simp
      show "f + w + int n * w + l < 2 ^ 31" using Suc.prems(5) grow by linarith
    qed (use Suc.prems in linarith)+
    then have "concat (map columns (create_threads w l c (Suc n) f (f + w - 1))) =
      [nat f..<nat (f + w)] @ [nat (f + w)..<nat (f + w + int n * w + l)]"
    proof -
      assume rest: "concat (map columns (create_threads w l c n (f + w) (f + w - 1 + w))) =
        [nat (f + w)..<nat (f + w + int n * w + l)]"
      have n: "n \<noteq> 0" using Suc by simp
      have "create_threads w l c (Suc n) f (f + w - 1) =
        \<lparr>ta_pc = c\<lparr>group_id := (word_of_int f, snd3 (group_id c), thd3 (group_id c))\<rparr>, last_gid_x = f + w - 1\<rparr> #
        create_threads w l c n (f + w) (f + w - 1 + w)"
        using n by (simp only: create_threads.simps(2) Let_def if_False)
      then show ?thesis using f rest by (simp only: list.map concat.simps) (simp add: columns_def del: create_threads.simps)
    qed
    also have "\<dots> = [nat f..<nat (f + w + int n * w + l)]"
      by (intro upt_split [symmetric] nat_mono) (use Suc.prems(2,3) nonneg in linarith)+
    finally show ?thesis using grow by (simp add: add.assoc)
  qed
qed simp

lemma create_threads_groups: "ta \<in> set (create_threads w l c n f la) \<Longrightarrow> num_groups (ta_pc ta) = num_groups c"
  by (induction n arbitrary: f la) (auto simp: Let_def)

lemma length_create_threads: "length (create_threads w l c n f la) = n"
  by (induction n arbitrary: f la) (auto simp: Let_def)

lemma split_groups_mset:
  assumes "1 \<le> nt" "nt \<le> int (unat (fst3 (num_groups c)))" "unat (fst3 (num_groups c)) < 2 ^ 31"
  shows "mset (concat (map thread_groups (split_groups nt c))) = mset (group_ids (num_groups c))"
proof -
  let ?x = "uint (fst3 (num_groups c))"
  let ?w = "?x div nt"
  have lt: "?x < 2 ^ 31" using assms(3) by (rule uint_less_unat)
  have x: "to_int (fst3 (num_groups c)) = ?x" using lt by (rule to_int_uint)
  have le: "nt \<le> ?x" using assms(2) by (simp only: uint_nat)
  have w: "1 \<le> ?w" using assms(1) le by (simp add: pos_imp_zdiv_pos_iff int_one_le_iff_zero_less)
  have l: "0 \<le> ?x - nt * ?w" using assms(1) by (simp add: minus_mult_div_eq_mod)
  have "concat (map columns (split_groups nt c)) = [0..<nat ?x]"
    unfolding split_groups_def Let_def x
    using create_threads_columns [of "nat nt" ?w "?x - nt * ?w" 0 c] w l assms(1) lt by simp
  then have "concat (map columns (split_groups nt c)) = [0..<unat (fst3 (num_groups c))]"
    by (simp only: unat_eq_nat_uint)
  moreover have "\<forall>ta \<in> set (split_groups nt c). num_groups (ta_pc ta) = num_groups c"
    by (auto simp: split_groups_def Let_def dest: create_threads_groups)
  ultimately show ?thesis using mset_grid_concat [of "split_groups nt c" "num_groups c"] by (simp add: group_ids_grid)
qed

lemma of_nat_below:
  assumes "i < unat (k :: size_t)"
  shows "unat (of_nat i :: size_t) = i" "(of_nat i :: size_t) < k"
  using assms unat_le_64 [of k] by (simp_all add: word_less_nat_alt unat_of_nat take_bit_nat_eq_self)

lemma group_ids_product:
  "group_ids n = map (\<lambda>(z, y, x). (of_nat x, of_nat y, of_nat z))
     (List.product [0..<unat (thd3 n)] (List.product [0..<unat (snd3 n)] [0..<unat (fst3 n)]))"
  by (simp add: group_ids_def product_concat_map map_concat comp_def)

lemma group_ids_distinct: "distinct (group_ids n)"
proof -
  have inj: "i = j" if "(of_nat i :: size_t) = of_nat j" "i < unat k" "j < unat (k :: size_t)" for i j k
    using that of_nat_below(1) by metis
  show ?thesis
    unfolding group_ids_product distinct_map by (auto simp: distinct_product inj_on_def dest: inj)
qed

lemma set_group_ids: "(x, y, z) \<in> set (group_ids n) \<longleftrightarrow> x < fst3 n \<and> y < snd3 n \<and> z < thd3 n"
proof
  assume "x < fst3 n \<and> y < snd3 n \<and> z < thd3 n"
  then show "(x, y, z) \<in> set (group_ids n)"
    unfolding group_ids_product set_map
    by (intro image_eqI [of _ _ "(unat z, unat y, unat x)"]) (auto simp: word_less_nat_alt)
next
  assume "(x, y, z) \<in> set (group_ids n)"
  then show "x < fst3 n \<and> y < snd3 n \<and> z < thd3 n" by (auto simp: group_ids_product of_nat_below(2))
qed

section \<open>Interleavings\<close>

lemma obind_Ret: "obind m Ret = m"
  by (cases m) auto

text \<open>Actions that commute can be done in any order.\<close>

definition commute :: "('s \<Rightarrow> 's outcome) \<Rightarrow> ('s \<Rightarrow> 's outcome) \<Rightarrow> bool" where
  "commute f g \<longleftrightarrow> (\<forall>m. obind (f m) g = obind (g m) f)"

lemma oiter_move:
  assumes "\<forall>x \<in> set xs. commute (W x) (W g)"
  shows "oiter W (xs @ g # ys) m = obind (W g m) (oiter W (xs @ ys))"
  using assms
proof (induction xs arbitrary: m)
  case (Cons x xs)
  have "oiter W ((x # xs) @ g # ys) m = obind (W x m) (\<lambda>m. obind (W g m) (oiter W (xs @ ys)))"
    using Cons by (cases "W x m") auto
  also have "\<dots> = obind (obind (W x m) (W g)) (oiter W (xs @ ys))" by (simp add: obind_assoc)
  also have "\<dots> = obind (obind (W g m) (W x)) (oiter W (xs @ ys))"
    using Cons.prems by (simp add: commute_def)
  finally show ?case by (simp add: obind_assoc)
qed simp

lemma oiter_perm:
  assumes "mset xs = mset ys" "\<forall>x \<in> set xs. \<forall>y \<in> set xs. commute (W x) (W y)"
  shows "oiter W xs m = oiter W ys m"
  using assms
proof (induction xs arbitrary: ys m)
  case (Cons x xs)
  have "x \<in> set ys" using Cons.prems(1) by (metis list.set_intros(1) set_mset_mset)
  then obtain us vs where ys: "ys = us @ x # vs" by (auto simp: in_set_conv_decomp)
  have sub: "set ys = set (x # xs)" using Cons.prems(1) by (metis set_mset_mset)
  have "mset xs = mset (us @ vs)" using Cons.prems(1) ys by simp
  then have "oiter W xs m' = oiter W (us @ vs) m'" for m' using Cons by simp
  moreover have "oiter W ys m = obind (W x m) (oiter W (us @ vs))"
    unfolding ys using Cons.prems(2) sub ys by (intro oiter_move) auto
  ultimately show ?case by (cases "W x m") auto
qed simp

text \<open>
  Threads whose steps act on a shared part \<open>'m\<close> of the state and on nothing else but the counter:
  \<open>eff\<close> is the effect of a step there, \<open>mk\<close> puts the state together, and \<open>ok\<close> says that a thread's
  own state thread_fits the steps it still has to do.
\<close>

locale independent_threads =
  fixes exec :: "'b \<Rightarrow> 'a \<times> 's \<Rightarrow> ('a \<times> 's) outcome"
    and mk :: "'m \<Rightarrow> nat \<Rightarrow> 's"
    and ok :: "'a \<Rightarrow> 'b list \<Rightarrow> bool"
    and eff :: "'b \<Rightarrow> 'm \<Rightarrow> 'm outcome"
  assumes thread_law: "ok as (a # r) \<Longrightarrow> 0 < t \<Longrightarrow>
    \<exists>as' t'. t \<le> t' \<and> ok as' r \<and> (\<forall>m. exec a (as, mk m t) = obind (eff a m) (\<lambda>m'. Ret (as', mk m' t')))"
begin

lemma take_step:
  assumes "\<forall>(as, todo) \<in> set ts. ok as todo" "i < length ts" "snd (ts ! i) = a # r" "0 < t"
    and "\<forall>x \<in> set (concat (map snd ts)). \<forall>y \<in> set (concat (map snd ts)). commute (eff x) (eff y)"
  shows "\<exists>as' t'. t \<le> t' \<and> (\<forall>(as, todo) \<in> set (ts[i := (as', r)]). ok as todo) \<and>
    (\<forall>m. exec a (fst (ts ! i), mk m t) = obind (eff a m) (\<lambda>m'. Ret (as', mk m' t'))) \<and>
    (\<forall>m. oiter eff (concat (map snd ts)) m = obind (eff a m) (oiter eff (concat (map snd (ts[i := (as', r)]))))) \<and>
    set (concat (map snd (ts[i := (as', r)]))) \<subseteq> set (concat (map snd ts))"
proof -
  have "ok (fst (ts ! i)) (a # r)" using bspec [OF assms(1) nth_mem [OF assms(2)]] assms(3) by (simp add: split_beta)
  then obtain as' t' where s: "t \<le> t'" "ok as' r"
    "\<And>m. exec a (fst (ts ! i), mk m t) = obind (eff a m) (\<lambda>m'. Ret (as', mk m' t'))"
    using thread_law assms(4) by meson
  have ts: "ts = take i ts @ ts ! i # drop (Suc i) ts" by (rule id_take_nth_drop [OF assms(2)])
  have upd: "ts[i := (as', r)] = take i ts @ (as', r) # drop (Suc i) ts" by (rule upd_conv_take_nth_drop [OF assms(2)])
  let ?pre = "concat (map snd (take i ts))" and ?post = "concat (map snd (drop (Suc i) ts))"
  have all: "concat (map snd ts) = ?pre @ a # r @ ?post"
    by (subst ts) (simp only: map_append concat_append list.map concat.simps assms(3) append_Cons)
  have rest: "concat (map snd (ts[i := (as', r)])) = ?pre @ r @ ?post" by (simp add: upd)
  have "oiter eff (concat (map snd ts)) m = obind (eff a m) (oiter eff (concat (map snd (ts[i := (as', r)]))))" for m
    unfolding all rest using assms(5) all by (intro oiter_move) auto
  moreover have "\<forall>(as, todo) \<in> set (ts[i := (as', r)]). ok as todo"
    using assms(1) s(2) set_update_subset_insert [of ts i "(as', r)"] by blast
  moreover have "set (concat (map snd (ts[i := (as', r)]))) \<subseteq> set (concat (map snd ts))" unfolding all rest by auto
  ultimately show ?thesis using s by (intro exI [of _ as'] exI [of _ t']) simp
qed

lemma interleave_sequential:
  assumes "\<forall>(as, todo) \<in> set ts. ok as todo" "0 < t"
    and "\<forall>x \<in> set (concat (map snd ts)). \<forall>y \<in> set (concat (map snd ts)). commute (eff x) (eff y)"
  shows "\<exists>T \<ge> t. \<forall>m. interleave sched exec n ts (mk m t) = obind (oiter eff (concat (map snd ts)) m) (\<lambda>m'. Ret (mk m' T))"
  using assms
proof (induction "steps_left ts" arbitrary: n ts t)
  case 0
  then have "\<forall>x \<in> set ts. snd x = []" by (auto simp: steps_left_def)
  then have "pending ts = []" and none: "concat (map snd ts) = []" by (auto simp: pending_def filter_empty_conv)
  then show ?case unfolding none by (intro exI [of _ t]) (simp add: interleave.simps)
next
  case (Suc left)
  have "pending ts \<noteq> []"
  proof
    assume "pending ts = []"
    then have "\<forall>i < length ts. snd (ts ! i) = []" by (auto simp: pending_def filter_empty_conv)
    then have "steps_left ts = 0" by (auto simp: steps_left_def in_set_conv_nth) (metis snd_conv)
    with Suc.hyps(2) show False by simp
  qed
  define i where "i = pick sched n ts"
  have i: "i < length ts" "snd (ts ! i) \<noteq> []" unfolding i_def using pick_pending [OF \<open>pending ts \<noteq> []\<close>] by auto
  then obtain a r where ar: "snd (ts ! i) = a # r" by (cases "snd (ts ! i)") auto
  obtain as' t' where s: "t \<le> t'" "\<forall>(as, todo) \<in> set (ts[i := (as', r)]). ok as todo"
    "\<And>m. exec a (fst (ts ! i), mk m t) = obind (eff a m) (\<lambda>m'. Ret (as', mk m' t'))"
    "\<And>m. oiter eff (concat (map snd ts)) m = obind (eff a m) (oiter eff (concat (map snd (ts[i := (as', r)]))))"
    "set (concat (map snd (ts[i := (as', r)]))) \<subseteq> set (concat (map snd ts))"
    using take_step [OF Suc.prems(1) i(1) ar Suc.prems(2,3)] by (elim exE conjE) simp
  have "left = steps_left (ts[i := (as', r)])"
    using steps_left_decr [OF i, of as'] Suc.hyps(2) ar by simp
  moreover have "0 < t'" using s(1) Suc.prems(2) by simp
  moreover have "\<forall>x \<in> set (concat (map snd (ts[i := (as', r)]))). \<forall>y \<in> set (concat (map snd (ts[i := (as', r)]))).
      commute (eff x) (eff y)"
    using s(5) Suc.prems(3) by blast
  ultimately obtain T where T: "T \<ge> t'" "\<And>m. interleave sched exec (Suc n) (ts[i := (as', r)]) (mk m t') =
      obind (oiter eff (concat (map snd (ts[i := (as', r)]))) m) (\<lambda>m'. Ret (mk m' T))"
    using Suc.hyps(1) [OF _ s(2)] by blast
  have "interleave sched exec n ts (mk m t) = obind (oiter eff (concat (map snd ts)) m) (\<lambda>m'. Ret (mk m' T))" for m
    using \<open>pending ts \<noteq> []\<close> unfolding interleave.simps [of sched exec n ts] i_def [symmetric]
    by (cases "eff a m") (simp_all add: Let_def ar s(3,4) T(2))
  then show ?case using s(1) T(1) by (intro exI [of _ T]) simp
qed

end

section \<open>Kernels without local memory\<close>

text \<open>
  The arguments of a kernel that uses no local memory, images or samplers: NULL pointers, buffers
  that have memory on the device, and plain values. \<open>plain\_arg\<close> is what the drivers make of such an
  argument.
\<close>

definition plain_arg :: "nat option \<Rightarrow> cl_kernel \<Rightarrow> pocl_argument list \<Rightarrow> rt \<Rightarrow> nat \<Rightarrow> wg_arg" where
  "plain_arg index k args s i =
     (let v = arg_value (args ! i) in
      if \<not> arg_is_pointer k ! i then Val v
      else if v = Arg_null then Cell 0
      else case device_slot index v s of Ret (p, m) \<Rightarrow> Slot p | _ \<Rightarrow> Cell 0)"

definition plain_args :: "nat option \<Rightarrow> cl_kernel \<Rightarrow> pocl_argument list \<Rightarrow> rt \<Rightarrow> bool" where
  "plain_args index k args s \<longleftrightarrow>
     num_locals k = 0 \<and> num_args k \<le> length args \<and> num_args k \<le> length (arg_is_pointer k) \<and>
     num_args k \<le> length (arg_is_image k) \<and> num_args k \<le> length (arg_is_sampler k) \<and>
     (case arg_is_local k of None \<Rightarrow> False | Some is_local \<Rightarrow> num_args k \<le> length is_local \<and> (\<forall>i < num_args k. \<not> is_local ! i)) \<and>
     (\<forall>i < num_args k. \<not> arg_is_image k ! i \<and> \<not> arg_is_sampler k ! i \<and>
        (arg_is_pointer k ! i \<and> arg_value (args ! i) \<noteq> Arg_null \<longrightarrow>
           (case device_slot index (arg_value (args ! i)) s of Ret (p, m) \<Rightarrow> p \<noteq> 0 | _ \<Rightarrow> False)))"

definition with_ram :: "rt \<Rightarrow> memory \<Rightarrow> nat \<Rightarrow> rt" where
  "with_ram s m t = s\<lparr>ram := m, tick := t\<rparr>"

lemma with_ram_simps [simp]:
  "ram (with_ram s m t) = m" "tick (with_ram s m t) = t" "mems (with_ram s m t) = mems s"
  "next_tick (with_ram s m t) = with_ram s m (Suc t)" "with_ram s m t\<lparr>ram := m'\<rparr> = with_ram s m' t"
  "device_slot index v (with_ram s m t) = device_slot index v s"
  by (simp_all add: with_ram_def next_tick_def device_slot_def)

definition all_malloc :: "env \<Rightarrow> bool" where "all_malloc env \<longleftrightarrow> (\<forall>n. \<not> malloc_fails env n)"

lemma new_obj_runs: "all_malloc env \<Longrightarrow> new_obj env s = (tick s, next_tick s)"
  by (simp add: all_malloc_def new_obj_def)

lemma setup_plain:
  assumes "plain_args index k args s" "all_malloc env" "i < num_args k" "0 < t"
  shows "\<exists>t' \<ge> t. \<forall>m. setup_arg env ops data index k args i (with_ram s m t) =
    Ret (plain_arg index k args s i, with_ram s m t')"
proof (cases "arg_is_pointer k ! i \<and> arg_value (args ! i) = Arg_null")
  case True
  with assms show ?thesis
    by (intro exI [of _ "Suc t"])
      (auto simp: setup_arg_def plain_args_def plain_arg_def c_nth_def new_cell_def new_obj_runs split: option.splits)
next
  case False
  with assms show ?thesis
    by (intro exI [of _ t])
      (auto simp: setup_arg_def plain_args_def plain_arg_def c_nth_def split: option.splits outcome.splits)
qed

lemma cleanup_plain:
  assumes "plain_args index k args s" "i < num_args k" "as = map (plain_arg index k args s) [0..<num_args k]"
  shows "cleanup_arg ops data k as i s' = Ret s'"
  using assms
  by (auto simp: cleanup_arg_def plain_args_def plain_arg_def c_nth_def free_cell_def Let_def split: option.splits outcome.splits)

text \<open>The part of a thread's steps that matches the arguments it has set up so far.\<close>

fun thread_fits :: "nat \<Rightarrow> (nat \<Rightarrow> wg_arg) \<Rightarrow> wg_arg list \<Rightarrow> wg_step list \<Rightarrow> bool" where
  "thread_fits n A as [] = True"
| "thread_fits n A as (Setup i # r) = (i < n \<and> as = map A [0..<i] \<and> thread_fits n A (as @ [A i]) r)"
| "thread_fits n A as (Group gid # r) = (as = map A [0..<n] \<and> thread_fits n A as r)"
| "thread_fits n A as (Cleanup i # r) = (i < n \<and> as = map A [0..<n] \<and> thread_fits n A as r)"

fun ram_effect :: "(size3 \<Rightarrow> memory \<Rightarrow> memory outcome) \<Rightarrow> wg_step \<Rightarrow> memory \<Rightarrow> memory outcome" where
  "ram_effect W (Setup i) = Ret"
| "ram_effect W (Group gid) = W gid"
| "ram_effect W (Cleanup i) = Ret"

definition plain_groups :: "workgroup \<Rightarrow> pocl_context \<Rightarrow> nat option \<Rightarrow> cl_kernel \<Rightarrow> pocl_argument list \<Rightarrow> rt \<Rightarrow>
    size3 \<Rightarrow> memory \<Rightarrow> memory outcome" where
  "plain_groups w c index k args s = run_group w (map (plain_arg index k args s) [0..<num_args k]) c"

definition plain_thread :: "env \<Rightarrow> nat option \<Rightarrow> cl_kernel \<Rightarrow> pocl_argument list \<Rightarrow> rt \<Rightarrow> wg_arg list \<Rightarrow> wg_step list \<Rightarrow> bool" where
  "plain_thread env index k args s as todo \<longleftrightarrow>
     plain_args index k args s \<and> all_malloc env \<and> thread_fits (num_args k) (plain_arg index k args s) as todo"

lemma thread_step_plain:
  assumes "plain_thread env index k args s as (a # r)" "0 < t"
  shows "\<exists>as' t'. t \<le> t' \<and> plain_thread env index k args s as' r \<and>
    (\<forall>m. thread_step env ops data index k args w c a (as, with_ram s m t) =
       obind (ram_effect (plain_groups w c index k args s) a m) (\<lambda>m'. Ret (as', with_ram s m' t')))"
proof (cases a)
  case (Setup i)
  have pre: "plain_args index k args s" "all_malloc env" "i < num_args k"
    using assms(1) Setup by (auto simp: plain_thread_def)
  obtain t' where t': "t' \<ge> t" "\<forall>m. setup_arg env ops data index k args i (with_ram s m t) =
      Ret (plain_arg index k args s i, with_ram s m t')"
    using setup_plain [OF pre assms(2)] by blast
  have "plain_thread env index k args s (as @ [plain_arg index k args s i]) r"
    using assms(1) Setup by (simp only: plain_thread_def thread_fits.simps) blast
  with t' show ?thesis
    using Setup by (intro exI [of _ "as @ [plain_arg index k args s i]"] exI [of _ t']) (simp add: thread_step_def)
next
  case (Group gid)
  have "obind (on_ram (run_group w as c gid) (with_ram s m t)) (\<lambda>s. Ret (as, s)) =
      obind (plain_groups w c index k args s gid m) (\<lambda>m'. Ret (as, with_ram s m' t))" for m
    using assms(1) Group by (cases "run_group w as c gid m") (auto simp: on_ram_def plain_groups_def plain_thread_def)
  then show ?thesis
    using assms Group by (intro exI [of _ as] exI [of _ t]) (auto simp: plain_thread_def thread_step_def)
next
  case (Cleanup i)
  have "cleanup_arg ops data k as i s' = Ret s'" for s'
    using assms(1) Cleanup by (intro cleanup_plain) (auto simp: plain_thread_def)
  then show ?thesis
    using assms Cleanup by (intro exI [of _ as] exI [of _ t]) (auto simp: plain_thread_def thread_step_def)
qed

interpretation plain: independent_threads
  "thread_step env ops data index k args w c" "with_ram s" "plain_thread env index k args s"
  "ram_effect (plain_groups w c index k args s)"
  for env ops data index k args w c s
  by unfold_locales (rule thread_step_plain)

lemma thread_fits_groups: "as = map A [0..<n] \<Longrightarrow> (\<forall>i \<in> set is. i < n) \<Longrightarrow> thread_fits n A as (map Group gs @ map Cleanup is)"
proof (induction gs)
  case Nil
  then show ?case by (induction "is") auto
qed simp

lemma thread_fits_start: "j \<le> n \<Longrightarrow> thread_fits n A (map A [0..<j]) (map Setup [j..<n] @ map Group gs @ map Cleanup [0..<n])"
proof (induction "n - j" arbitrary: j)
  case 0
  then show ?case by (auto intro: thread_fits_groups)
next
  case (Suc d)
  then have "j < n" by simp
  then have "[j..<n] = j # [Suc j..<n]" by (rule upt_conv_Cons)
  then show ?case using Suc.hyps(1) [of "Suc j"] Suc.hyps(2) \<open>j < n\<close> by simp
qed

lemma plain_thread_start:
  "plain_args index k args s \<Longrightarrow> all_malloc env \<Longrightarrow> plain_thread env index k args s [] (workgroup_thread k ta)"
  using thread_fits_start [of 0 "num_args k"] by (simp add: plain_thread_def workgroup_thread_def plain_args_def Let_def)

lemma oiter_ram_effect: "oiter (ram_effect W) (workgroup_thread k ta) m = oiter W (thread_groups ta) m"
proof -
  have skip: "oiter (ram_effect W) (map f xs) m = Ret m" if "\<And>i m. ram_effect W (f i) m = Ret m" for f xs and m
    using that by (induction xs) auto
  have groups: "oiter (ram_effect W) (map Group gs) m = oiter W gs m" for gs m
  proof (induction gs arbitrary: m)
    case (Cons g gs)
    then show ?case by (cases "W g m") auto
  qed simp
  show ?thesis
    unfolding workgroup_thread_def Let_def oiter_append
    by (cases "oiter W (thread_groups ta) m") (simp_all add: skip groups)
qed

lemma oiter_ram_effects:
  "oiter (ram_effect W) (concat (map (workgroup_thread k) tas)) m = oiter W (concat (map thread_groups tas)) m"
proof (induction tas arbitrary: m)
  case (Cons ta tas)
  then show ?case by (cases "oiter W (thread_groups ta) m") (simp_all add: oiter_append oiter_ram_effect)
qed simp

lemma ram_effect_commute:
  assumes "\<forall>x \<in> G. \<forall>y \<in> G. commute (W x) (W y)" "\<forall>g. Group g = a \<or> Group g = b \<longrightarrow> g \<in> G"
  shows "commute (ram_effect W a) (ram_effect W b)"
  using assms by (cases a; cases b) (auto simp: commute_def obind_Ret)

lemma setup_args_plain:
  assumes "plain_args index k args s" "all_malloc env" "\<forall>i \<in> set is. i < num_args k" "0 < t"
  shows "\<exists>t' \<ge> t. \<forall>m. setup_args env ops data index k args is (with_ram s m t) =
    Ret (map (plain_arg index k args s) is, with_ram s m t')"
  using assms(3,4)
proof (induction "is" arbitrary: t)
  case (Cons i "is")
  obtain t1 where t1: "t1 \<ge> t" "\<forall>m. setup_arg env ops data index k args i (with_ram s m t) =
      Ret (plain_arg index k args s i, with_ram s m t1)"
    using setup_plain [OF assms(1,2)] Cons.prems by (meson list.set_intros(1))
  moreover obtain t2 where "t2 \<ge> t1" "\<forall>m. setup_args env ops data index k args is (with_ram s m t1) =
      Ret (map (plain_arg index k args s) is, with_ram s m t2)"
    using Cons.IH [of t1] Cons.prems t1(1) by auto
  ultimately show ?case by (intro exI [of _ t2]) simp
qed auto

lemma oiter_on_ram:
  "oiter (\<lambda>gid. on_ram (W gid)) gs (with_ram s m t) = obind (oiter W gs m) (\<lambda>m'. Ret (with_ram s m' t))"
proof (induction gs arbitrary: m)
  case (Cons g gs)
  then show ?case by (cases "W g m") (simp_all add: on_ram_def)
qed simp

lemma free_local_plain: "plain_args index k args s \<Longrightarrow> i < num_args k \<Longrightarrow> free_local ops data k as i s' = Ret s'"
  by (auto simp: free_local_def plain_args_def c_nth_def split: option.splits)

lemma oiter_skip: "\<forall>x \<in> set xs. \<forall>s. f x s = Ret s \<Longrightarrow> oiter f xs s = Ret s"
  by (induction xs) auto

lemma with_ram_self: "with_ram s (ram s) (tick s) = s"
  by (simp add: with_ram_def)

text \<open>What the steps around the threads keep.\<close>

definition only_ticks :: "rt \<Rightarrow> rt \<Rightarrow> bool" where
  "only_ticks s s' \<longleftrightarrow> (\<exists>t \<ge> tick s. s' = s\<lparr>tick := t\<rparr>)"

lemma only_ticks_refl: "only_ticks s s"
  by (auto simp: only_ticks_def intro: exI [of _ "tick s"])

lemma only_ticks_trans: "only_ticks s s1 \<Longrightarrow> only_ticks s1 s2 \<Longrightarrow> only_ticks s s2"
  by (auto simp: only_ticks_def intro: exI [of _ "tick s2"])

lemma next_tick_only: "only_ticks s (next_tick s)"
  by (auto simp: only_ticks_def next_tick_def intro: exI [of _ "Suc (tick s)"])

lemma os_assert_only: "os_assert env P s = Ret s' \<Longrightarrow> only_ticks s s'"
  by (auto simp: os_assert_def os_call_def next_tick_only split: if_splits)

lemma oiter_only:
  assumes "oiter f xs s = Ret s'" "\<And>x s s'. f x s = Ret s' \<Longrightarrow> only_ticks s s'"
  shows "only_ticks s s'"
  using assms(1) by (rule oiter_inv [where P = "only_ticks s"]) (auto intro: only_ticks_refl only_ticks_trans assms(2))

lemma open_module_only: "open_module env tmpdir s = Ret (md, s') \<Longrightarrow> only_ticks s s'"
proof -
  assume "open_module env tmpdir s = Ret (md, s')"
  then obtain s1 where s1: "llvm_codegen env tmpdir s = Ret (md, s1)" "s' = next_tick s1"
    by (auto simp: open_module_def os_call_def outcome_simps split: if_splits)
  have "only_ticks s s1"
  proof -
    obtain s2 where s2: "os_assert env written (next_tick s) = Ret s2"
      "s1 = next_tick s2 \<or> oiter (os_assert env) [written, written, written, exited, written, exited, written, exited] (next_tick s2) = Ret s1"
      using s1(1) by (auto simp: llvm_codegen_def new_obj_def os_call_def outcome_simps Let_def split: if_splits)
    then have "only_ticks (next_tick s2) s1 \<or> s1 = next_tick s2"
      using oiter_only [of "os_assert env"] os_assert_only by blast
    then have "only_ticks s2 s1" using next_tick_only only_ticks_trans by blast
    then show ?thesis using os_assert_only [OF s2(1)] next_tick_only only_ticks_trans by blast
  qed
  then show ?thesis using s1(2) next_tick_only only_ticks_trans by blast
qed

lemma create_all:
  assumes "\<forall>n \<ge> tick s. os env n = 0"
  shows "\<exists>t \<ge> tick s. oiter (\<lambda>_. os_assert env exited) tas s = Ret (s\<lparr>tick := t\<rparr>)"
  using assms
proof (induction tas arbitrary: s)
  case (Cons ta tas)
  have "os_assert env exited s = Ret (next_tick s)"
    using Cons.prems by (simp add: os_assert_def os_call_def exited_def)
  moreover obtain t where "t \<ge> tick (next_tick s)" "oiter (\<lambda>_. os_assert env exited) tas (next_tick s) = Ret ((next_tick s)\<lparr>tick := t\<rparr>)"
    using Cons.IH [of "next_tick s"] Cons.prems by (auto simp: next_tick_def)
  ultimately show ?case by (intro exI [of _ t]) (simp add: next_tick_def)
qed auto

definition event_ok :: "ptr \<Rightarrow> rt \<Rightarrow> bool" where
  "event_ok event s \<longleftrightarrow> event = NULL \<or>
     (case events s event of None \<Rightarrow> False | Some e \<Rightarrow> queues s (e_queue e) \<noteq> None)"

text \<open>The objects that a kernel's execution leaves alone.\<close>

definition same_stores :: "rt \<Rightarrow> rt \<Rightarrow> bool" where
  "same_stores s s' \<longleftrightarrow> mems s' = mems s \<and> kernels s' = kernels s \<and> queues s' = queues s \<and> contexts s' = contexts s \<and>
     devices s' = devices s \<and> programs s' = programs s \<and> maps s' = maps s"

lemma same_stores_trans: "same_stores s s1 \<Longrightarrow> same_stores s1 s2 \<Longrightarrow> same_stores s s2"
  by (simp add: same_stores_def)

lemma same_stores_with [simp]: "same_stores s (with_ram s m t)" "same_stores s (s\<lparr>tick := t\<rparr>)" "same_stores s s"
  by (simp_all add: same_stores_def with_ram_def)

lemma mark_event_runs:
  assumes "event_ok event s" "\<And>t e. e_queue (stamp t e) = e_queue e \<and> e_status (stamp t e) = e_status e"
  shows "\<exists>s'. mark_event stamp st env event s = Ret s' \<and> event_ok event s' \<and> ram s' = ram s \<and> same_stores s s' \<and>
    tick s \<le> tick s' \<and> (event \<noteq> NULL \<longrightarrow> (\<exists>e. events s' event = Some e \<and> e_status e = st))"
proof (cases "event = NULL")
  case False
  then obtain e q where e: "events s event = Some e" "queues s (e_queue e) = Some q"
    using assms(1) by (auto simp: event_ok_def split: option.splits)
  then show ?thesis
    using False assms(2) by (auto simp: mark_event_def update_event_def Let_def event_ok_def same_stores_def next_tick_def)
qed (use assms in \<open>simp add: mark_event_def\<close>)

lemma plain_cong:
  assumes "mems s' = mems s"
  shows "plain_args index k args s' = plain_args index k args s" "plain_arg index k args s' = plain_arg index k args s"
    "plain_groups w c index k args s' = plain_groups w c index k args s"
proof -
  have slot: "device_slot index v s' = device_slot index v s" for v using assms by (simp add: device_slot_def)
  show "plain_args index k args s' = plain_args index k args s" by (simp add: plain_args_def slot)
  show arg: "plain_arg index k args s' = plain_arg index k args s" by (rule ext) (simp add: plain_arg_def slot Let_def)
  show "plain_groups w c index k args s' = plain_groups w c index k args s" by (simp add: plain_groups_def arg)
qed

text \<open>The threads, from their creation on.\<close>

lemma threads_run:
  assumes "plain_args index k args s" "all_malloc env" "0 < tick s"
    and "1 \<le> nt" "nt \<le> int (unat (fst3 (num_groups c)))" "unat (fst3 (num_groups c)) < 2 ^ 31"
    and comm: "\<forall>x \<in> set (group_ids (num_groups c)). \<forall>y \<in> set (group_ids (num_groups c)).
      commute (plain_groups w c index k args s x) (plain_groups w c index k args s y)"
  shows "\<exists>T. interleave sched (thread_step env ops data index k args w c) 0
      (map (\<lambda>ta. ([], workgroup_thread k ta)) (split_groups nt c)) s =
    obind (oiter (plain_groups w c index k args s) (group_ids (num_groups c)) (ram s)) (\<lambda>m. Ret (with_ram s m T))"
proof -
  let ?W = "plain_groups w c index k args s"
  let ?ts = "map (\<lambda>ta. ([] :: wg_arg list, workgroup_thread k ta)) (split_groups nt c)"
  have ms: "mset (concat (map thread_groups (split_groups nt c))) = mset (group_ids (num_groups c))"
    using assms(4-6) by (rule split_groups_mset)
  then have sets: "set (concat (map thread_groups (split_groups nt c))) = set (group_ids (num_groups c))"
    by (metis set_mset_mset)
  have todo: "concat (map snd ?ts) = concat (map (workgroup_thread k) (split_groups nt c))" by (simp add: comp_def)
  have ok: "\<forall>(as, todo) \<in> set ?ts. plain_thread env index k args s as todo"
    using assms(1,2) by (auto intro: plain_thread_start)
  have steps: "g \<in> set (group_ids (num_groups c))" if "Group g \<in> set (concat (map snd ?ts))" for g
    using that unfolding todo sets [symmetric] by (auto simp: workgroup_thread_def Let_def split: if_splits)
  have c: "\<forall>x \<in> set (concat (map snd ?ts)). \<forall>y \<in> set (concat (map snd ?ts)). commute (ram_effect ?W x) (ram_effect ?W y)"
  proof (intro ballI ram_effect_commute [OF comm] allI impI)
    fix x y g assume "x \<in> set (concat (map snd ?ts))" "y \<in> set (concat (map snd ?ts))" "Group g = x \<or> Group g = y"
    then show "g \<in> set (group_ids (num_groups c))" by (elim disjE; hypsubst; intro steps)
  qed
  obtain T where T: "\<forall>m. interleave sched (thread_step env ops data index k args w c) 0 ?ts (with_ram s m (tick s)) =
      obind (oiter (ram_effect ?W) (concat (map snd ?ts)) m) (\<lambda>m'. Ret (with_ram s m' T))"
    using plain.interleave_sequential [OF ok assms(3) c, where sched = sched and n = 0 and ops = ops and data = data]
    by (elim exE conjE) (erule that)
  have "oiter (ram_effect ?W) (concat (map snd ?ts)) m = oiter ?W (group_ids (num_groups c)) m" for m
    unfolding todo oiter_ram_effects by (rule oiter_perm [OF ms]) (use comm sets in blast)
  then show ?thesis using T [rule_format, of "ram s"] by (auto simp: with_ram_self)
qed

lemma basic_run_plain:
  assumes "kernels s (run_kernel c) = Some k" "open_module env (tmp_dir c) s = Ret (md, s1)" "contexts s (k_context k) = Some ctx"
    and "find_data (devices s) data (ctx_devices ctx) 0 = Ret (Some (index, d))" "dlsym md (workgroup_string k) = Some w"
    and "data \<noteq> 0" "all_malloc env" "0 < tick s" "plain_args (Some index) k (run_arguments c) s"
  shows "\<exists>T. pocl_basic_run env lib dlsym data c s =
    obind (oiter (plain_groups w (pc c) (Some index) k (run_arguments c) s) (group_ids (num_groups (pc c))) (ram s))
      (\<lambda>m. Ret (with_ram s m T))"
proof -
  let ?args = "run_arguments c"
  obtain t where s1: "s1 = with_ram s (ram s) t" "0 < t"
    using open_module_only [OF assms(2)] assms(8) by (auto simp: only_ticks_def with_ram_def)
  have n: "num_args k + num_locals k = num_args k" using assms(9) by (simp add: plain_args_def)
  obtain t' where t': "t' \<ge> t" "\<forall>m. setup_args env (basic_ops lib) data (Some index) k ?args [0..<num_args k] (with_ram s m t) =
      Ret (map (plain_arg (Some index) k ?args s) [0..<num_args k], with_ram s m t')"
    using setup_args_plain [OF assms(9,7) _ s1(2), of "[0..<num_args k]" "basic_ops lib" data] by fastforce
  have "oiter (free_local (basic_ops lib) data k as) [0..<num_args k] s' = Ret s'" for as s'
    using free_local_plain [OF assms(9)] by (intro oiter_skip) simp
  then have free: "oiter (free_local (basic_ops lib) data k as) [0..<num_args k] = Ret" for as by (rule ext)
  have stores: "contexts s1 = contexts s" "devices s1 = devices s" by (simp_all add: s1(1) with_ram_def)
  have "pocl_basic_run env lib dlsym data c s =
    obind (oiter (\<lambda>gid. on_ram (plain_groups w (pc c) (Some index) k ?args s gid)) (group_ids (num_groups (pc c))) (with_ram s (ram s) t')) Ret"
    unfolding pocl_basic_run_def Let_def
    using assms(1-6) by (simp add: stores find_workgroup_def n) (simp add: s1(1) t'(2) free plain_groups_def)
  then show ?thesis by (auto simp: oiter_on_ram obind_Ret)
qed

lemma pthread_run_plain:
  assumes "kernels s (run_kernel c) = Some k" "open_module env (tmp_dir c) s = Ret (md, s1)" "contexts s (k_context k) = Some ctx"
    and "find_data (devices s) data (ctx_devices ctx) 0 = Ret (Some (index, d))" "dlsym md (workgroup_string k) = Some w"
    and "devices s d = Some dev" "get_max_thread_count max_threads dev = Ret n" "1 \<le> n"
    and "all_malloc env" "0 < tick s" "plain_args (Some index) k (run_arguments c) s"
    and "1 \<le> unat (fst3 (num_groups (pc c)))" "unat (fst3 (num_groups (pc c))) < 2 ^ 31" "\<not> counters_wrap (num_groups (pc c))"
    and "event_ok event s" "\<forall>n \<ge> tick s1. os env n = 0"
    and comm: "\<forall>x \<in> set (group_ids (num_groups (pc c))). \<forall>y \<in> set (group_ids (num_groups (pc c))).
      commute (plain_groups w (pc c) (Some index) k (run_arguments c) s x) (plain_groups w (pc c) (Some index) k (run_arguments c) s y)"
  shows "\<exists>f. pocl_pthread_run env ord lib dlsym sched max_threads data c event s =
      obind (oiter (plain_groups w (pc c) (Some index) k (run_arguments c) s) (group_ids (num_groups (pc c))) (ram s)) (\<lambda>m. Ret (f m)) \<and>
    (\<forall>m. ram (f m) = m \<and> same_stores s (f m) \<and>
      (event \<noteq> NULL \<longrightarrow> (\<exists>e. events (f m) event = Some e \<and> e_status e = CL_COMPLETE)))"
proof -
  let ?args = "run_arguments c" and ?x = "fst3 (num_groups (pc c))"
  let ?nt = "min n (to_int ?x)"
  let ?W = "plain_groups w (pc c) (Some index) k ?args s"
  obtain t where s1: "s1 = s\<lparr>tick := t\<rparr>" "0 < t"
    using open_module_only [OF assms(2)] assms(10) by (auto simp: only_ticks_def)
  have x: "to_int ?x = int (unat ?x)" using to_int_uint [OF uint_less_unat [OF assms(13)]] by (simp only: uint_nat)
  have nt: "1 \<le> ?nt" "?nt \<le> int (unat ?x)" unfolding x using assms(8,12) by linarith+
  define s2 where "s2 = next_tick (next_tick s1)"
  have s2: "new_cell env s1 = Ret (next_tick s1)" "new_cell env (next_tick s1) = Ret s2" "tick s1 \<le> tick s2" "ram s2 = ram s"
      "same_stores s s2" "event_ok event s2"
    using assms(9,15) s1 by (auto simp: s2_def new_cell_def new_obj_runs next_tick_def same_stores_def event_ok_def split: option.splits)
  obtain s3 where s3: "mark_event (\<lambda>t e. e\<lparr>time_start := t\<rparr>) CL_RUNNING env event s2 = Ret s3" "event_ok event s3"
      "ram s3 = ram s" "same_stores s s3" "tick s2 \<le> tick s3"
    using mark_event_runs [OF s2(6), of "\<lambda>t e. e\<lparr>time_start := t\<rparr>" CL_RUNNING env] s2(4,5) by (auto intro: same_stores_trans)
  obtain t4 where t4: "t4 \<ge> tick s3" "oiter (\<lambda>_. os_assert env exited) (split_groups ?nt (pc c)) s3 = Ret (s3\<lparr>tick := t4\<rparr>)"
    using create_all [of s3 env "split_groups ?nt (pc c)"] assms(16) s2(3) s3(5) by auto
  let ?s4 = "s3\<lparr>tick := t4\<rparr>"
  have plain4: "mems ?s4 = mems s" "0 < tick ?s4" using s3(4,5) s2(3) s1 t4(1) by (auto simp: same_stores_def)
  obtain T where T: "interleave sched (thread_step env (pthread_ops ord lib) data (Some index) k ?args w (pc c)) 0
      (map (\<lambda>ta. ([], workgroup_thread k ta)) (split_groups ?nt (pc c))) ?s4 =
      obind (oiter ?W (group_ids (num_groups (pc c))) (ram ?s4)) (\<lambda>m. Ret (with_ram ?s4 m T))"
    using threads_run [of "Some index" k ?args ?s4 env ?nt "pc c" w sched "pthread_ops ord lib" data] assms(9,11,13) nt comm plain4 plain_cong [OF plain4(1)] by auto
  have fin: "\<exists>s'. mark_event (\<lambda>t e. e\<lparr>time_end := t\<rparr>) CL_COMPLETE env event (with_ram ?s4 m T) = Ret s' \<and> ram s' = m \<and>
      same_stores s s' \<and> (event \<noteq> NULL \<longrightarrow> (\<exists>e. events s' event = Some e \<and> e_status e = CL_COMPLETE))" for m
  proof -
    have "event_ok event (with_ram ?s4 m T)" "same_stores s (with_ram ?s4 m T)"
      using s3(2,4) by (auto simp: event_ok_def with_ram_def same_stores_def split: option.splits)
    then show ?thesis
      using mark_event_runs [of event "with_ram ?s4 m T" "\<lambda>t e. e\<lparr>time_end := t\<rparr>" CL_COMPLETE env]
      by (auto intro: same_stores_trans)
  qed
  then obtain f where f: "\<forall>m. mark_event (\<lambda>t e. e\<lparr>time_end := t\<rparr>) CL_COMPLETE env event (with_ram ?s4 m T) = Ret (f m) \<and>
      ram (f m) = m \<and> same_stores s (f m) \<and> (event \<noteq> NULL \<longrightarrow> (\<exists>e. events (f m) event = Some e \<and> e_status e = CL_COMPLETE))"
    by metis
  have stores: "contexts s1 = contexts s" "devices s1 = devices s" by (simp_all add: s1(1))
  have some: "\<not> ?nt < 1" using nt(1) by linarith
  have "pocl_pthread_run env ord lib dlsym sched max_threads data c event s =
      obind (oiter ?W (group_ids (num_groups (pc c))) (ram s)) (\<lambda>m. Ret (f m))"
    unfolding pocl_pthread_run_def Let_def
    using assms(1-7,14) some s2(1,2) s3(1,3) t4(2) T f
    by (cases "oiter ?W (group_ids (num_groups (pc c))) (ram s)") (simp_all add: stores find_workgroup_def del: size3_simps)
  then show ?thesis using f by blast
qed

section \<open>Properties\<close>

text \<open>The search for a work-group size ends: for a global size and a preferred multiple that are
  not zero it returns the preferred multiple halved as often as needed, and no more often, to divide the
  global size.\<close>

theorem wg_multiple_terminates:
  assumes "global_x \<noteq> 0" "preferred \<noteq> 0"
  shows "\<exists>k r. wg_multiple global_x preferred = Some r \<and> unat r = unat preferred div 2 ^ k \<and> 0 < unat r \<and>
    unat r dvd unat global_x \<and> (\<forall>j < k. \<not> unat preferred div 2 ^ j dvd unat global_x)"
  by (rule wg_multiple_loop) (use assms in \<open>simp_all add: unat_gt_0\<close>)

theorem wg_multiple_terminates_witness:
  "(\<exists>k r. wg_multiple 20 8 = Some r \<and> unat r = unat (8 :: size_t) div 2 ^ k \<and> 0 < unat r \<and>
    unat r dvd unat (20 :: size_t)) \<and> wg_multiple 20 8 = Some 4"
proof -
  have "wg_multiple 20 8 = Some 4" by (simp add: wg_multiple.simps)
  moreover have "(20 :: size_t) \<noteq> 0" "(8 :: size_t) \<noteq> 0" by simp_all
  ultimately show ?thesis using wg_multiple_terminates [of 20 8] by blast
qed

text \<open>The pthread driver hands every work-group to exactly one of its threads: whatever the number
  of threads, the groups of all threads together are the groups of the index space, each of them
  once.\<close>

theorem split_groups_partition:
  assumes "1 \<le> num_threads" "num_threads \<le> int (unat (fst (num_groups c)))" "unat (fst (num_groups c)) < 2 ^ 31"
  shows "length (split_groups num_threads c) = nat num_threads \<and>
    distinct (concat (map thread_groups (split_groups num_threads c))) \<and>
    (\<forall>x y z. (x, y, z) \<in> set (concat (map thread_groups (split_groups num_threads c))) \<longleftrightarrow>
       x < fst (num_groups c) \<and> y < fst (snd (num_groups c)) \<and> z < snd (snd (num_groups c)))"
proof -
  have ms: "mset (concat (map thread_groups (split_groups num_threads c))) = mset (group_ids (num_groups c))"
    using assms by (intro split_groups_mset) simp_all
  have "set (concat (map thread_groups (split_groups num_threads c))) = set (group_ids (num_groups c))"
    using ms by (metis set_mset_mset)
  moreover have "distinct (concat (map thread_groups (split_groups num_threads c)))"
    using ms group_ids_distinct by (metis mset_eq_imp_distinct_iff)
  moreover have "length (split_groups num_threads c) = nat num_threads"
    by (simp add: split_groups_def Let_def length_create_threads)
  ultimately show ?thesis by (simp only: set_group_ids size3_simps) blast
qed

definition demo_pc :: pocl_context where
  "demo_pc = \<lparr>work_dim = 1, num_groups = (5, 1, 1), group_id = (0, 0, 0), global_offset = (0, 0, 0),
     global_size = (20, 1, 1), local_size = (4, 1, 1)\<rparr>"

theorem split_groups_partition_witness:
  "length (split_groups 2 demo_pc) = 2 \<and> map last_gid_x (split_groups 2 demo_pc) = [1, 4] \<and>
   distinct (concat (map thread_groups (split_groups 2 demo_pc)))"
proof -
  have "unat (fst (num_groups demo_pc)) = 5" by (simp add: demo_pc_def)
  then have "length (split_groups 2 demo_pc) = nat 2 \<and> distinct (concat (map thread_groups (split_groups 2 demo_pc)))"
    using split_groups_partition [of 2 demo_pc] by simp
  moreover have "map last_gid_x (split_groups 2 demo_pc) = [1, 4]"
    by code_simp
  ultimately show ?thesis by (simp only: nat_numeral)
qed

text \<open>C5. The pthread driver refines the basic one. For a kernel whose arguments are buffers, NULL
  pointers and values and whose work-groups commute, both drivers leave exactly the memory that
  running the work-groups one after the other in the order of the loops gives, for every number
  of threads and every interleaving of their steps, and the pthread driver completes the event.\<close>

theorem pthread_refines_basic:
  assumes "kernels s (run_kernel c) = Some k" "contexts s (k_context k) = Some ctx"
    and "open_module env (tmp_dir c) s = Ret (md, s1)" "dlsym md (workgroup_string k) = Some w"
    and "find_data (devices s) data (ctx_devices ctx) 0 = Ret (Some (index, d))" "data \<noteq> 0"
    and "devices s d = Some dev" "get_max_thread_count max_threads dev = Ret n" "1 \<le> n"
    and "all_malloc env" "0 < tick s" "\<forall>n \<ge> tick s1. os env n = 0"
    and "plain_args (Some index) k (run_arguments c) s" "event_ok event s"
    and "1 \<le> unat (fst (num_groups (pc c)))" "unat (fst (num_groups (pc c))) < 2 ^ 31" "\<not> counters_wrap (num_groups (pc c))"
    and "\<forall>x \<in> set (group_ids (num_groups (pc c))). \<forall>y \<in> set (group_ids (num_groups (pc c))).
      commute (plain_groups w (pc c) (Some index) k (run_arguments c) s x) (plain_groups w (pc c) (Some index) k (run_arguments c) s y)"
  defines "spec \<equiv> oiter (plain_groups w (pc c) (Some index) k (run_arguments c) s) (group_ids (num_groups (pc c))) (ram s)"
  shows "obind (pocl_basic_run env lib dlsym data c s) (\<lambda>s. Ret (ram s)) = spec \<and>
    obind (pocl_pthread_run env ord lib dlsym sched max_threads data c event s) (\<lambda>s. Ret (ram s)) = spec \<and>
    (\<forall>s'. pocl_pthread_run env ord lib dlsym sched max_threads data c event s = Ret s' \<longrightarrow> same_stores s s' \<and>
       (event \<noteq> NULL \<longrightarrow> (\<exists>e. events s' event = Some e \<and> e_status e = CL_COMPLETE)))"
proof -
  obtain T where T: "pocl_basic_run env lib dlsym data c s = obind spec (\<lambda>m. Ret (with_ram s m T))"
    using basic_run_plain [where dlsym = dlsym, OF assms(1,3,2,5,4,6,10,11,13), of lib] unfolding spec_def by blast
  obtain f where f: "pocl_pthread_run env ord lib dlsym sched max_threads data c event s = obind spec (\<lambda>m. Ret (f m))"
    "\<forall>m. ram (f m) = m \<and> same_stores s (f m) \<and> (event \<noteq> NULL \<longrightarrow> (\<exists>e. events (f m) event = Some e \<and> e_status e = CL_COMPLETE))"
    using pthread_run_plain [where dlsym = dlsym, OF assms(1,3,2,5,4,7-11,13) _ _ assms(17,14,12,18), of ord lib sched] assms(15,16)
    unfolding spec_def by auto
  show ?thesis using f(2) unfolding T f(1) by (cases spec) auto
qed

definition demo_kernel :: cl_kernel where
  "demo_kernel = \<lparr>k_refcount = 1, function_name = ''fill'', k_name = ''fill'', num_args = 1, k_context = 2, k_program = 6,
     arg_is_pointer = [True], arg_is_local = Some [False], arg_is_image = [False], arg_is_sampler = [False], arg_is_struct = [False], num_locals = 0,
     reqd_wg_size = None, hsaCodeDescriptor = None, hsaArgCount = 0,
     dyn_arguments = Some [\<lparr>arg_size = 8, arg_value = Arg_bytes [4, 0, 0, 0, 0, 0, 0, 0]\<rparr>]\<rparr>"

text \<open>A kernel in which each work-group stores its number in the buffer.\<close>

definition demo_fill :: workgroup where
  "demo_fill args c m = (case args of
     [Slot p] \<Rightarrow> Ret (m\<lparr>bytes := (bytes m)(p + fst (group_id c) \<mapsto> ucast (fst (group_id c)))\<rparr>) | _ \<Rightarrow> Undef)"

definition demo_run :: command_run where
  "demo_run = \<lparr>tmp_dir = ''/tmp'', run_kernel = 7, arg_buffers = [4], pc = demo_pc,
     run_arguments = [\<lparr>arg_size = 8, arg_value = Arg_bytes [4, 0, 0, 0, 0, 0, 0, 0]\<rparr>]\<rparr>"

definition demo_run_rt :: rt where
  "demo_run_rt = demo_rt\<lparr>devices := [1 \<mapsto> demo_device\<lparr>dev_data := 9\<rparr>], kernels := [7 \<mapsto> demo_kernel]\<rparr>"

definition demo_run_env :: env where
  "demo_run_env = demo_env\<lparr>os := (\<lambda>n. if n = 13 then 1 else 0)\<rparr>"

lemma demo_run_opens: "open_module demo_run_env ''/tmp'' demo_run_rt = Ret (''/tmp/parallel.so'', demo_run_rt\<lparr>tick := 14\<rparr>)"
  by (simp add: open_module_def llvm_codegen_def new_obj_def os_assert_def os_call_def written_def next_tick_def demo_run_env_def
      demo_env_def demo_run_rt_def demo_rt_def filename_def POCL_FILENAME_LENGTH_def Let_def)

lemma demo_slot: "device_slot (Some 0) (Arg_bytes [4, 0, 0, 0, 0, 0, 0, 0]) demo_run_rt = Ret (0x1010, demo_buffer)"
  by (simp add: device_slot_def buffer_of_def c_take_def le_word_def c_nth_def demo_run_rt_def demo_rt_def demo_buffer_def)

lemma demo_plain:
  "plain_args (Some 0) demo_kernel (run_arguments demo_run) demo_run_rt"
  "plain_groups demo_fill (pc demo_run) (Some 0) demo_kernel (run_arguments demo_run) demo_run_rt (x, y, z) m =
     Ret (m\<lparr>bytes := (bytes m)(0x1010 + x \<mapsto> ucast x)\<rparr>)"
  by (simp_all add: plain_args_def plain_groups_def plain_arg_def demo_slot demo_kernel_def demo_run_def run_group_def demo_fill_def)

theorem pthread_refines_basic_witness:
  "obind (pocl_pthread_run demo_run_env Next_First demo_library (\<lambda>_ _. Some demo_fill) (\<lambda>n. n * n) (Some ''2'') 9 demo_run 5 demo_run_rt)
     (\<lambda>s. Ret (ram s)) =
   obind (pocl_basic_run demo_run_env demo_library (\<lambda>_ _. Some demo_fill) 9 demo_run demo_run_rt) (\<lambda>s. Ret (ram s))"
proof -
  have objs: "kernels demo_run_rt (run_kernel demo_run) = Some demo_kernel"
    "contexts demo_run_rt (k_context demo_kernel) = Some \<lparr>ctx_refcount = 2, ctx_devices = [Some 1], ctx_properties = None, valid = True\<rparr>"
    "open_module demo_run_env (tmp_dir demo_run) demo_run_rt = Ret (''/tmp/parallel.so'', demo_run_rt\<lparr>tick := 14\<rparr>)"
    "devices demo_run_rt 1 = Some (demo_device\<lparr>dev_data := 9\<rparr>)" "all_malloc demo_run_env" "0 < tick demo_run_rt"
    "event_ok 5 demo_run_rt" "\<forall>n \<ge> tick (demo_run_rt\<lparr>tick := 14\<rparr>). os demo_run_env n = 0"
    using demo_run_opens
    by (simp_all add: demo_run_def demo_run_rt_def demo_rt_def demo_kernel_def demo_run_env_def demo_env_def all_malloc_def
        event_ok_def demo_event_def)
  have found: "find_data (devices demo_run_rt) 9 (ctx_devices \<lparr>ctx_refcount = 2, ctx_devices = [Some 1], ctx_properties = None, valid = True\<rparr>) 0 =
      Ret (Some (0, 1))"
    using objs(4) by simp
  have threads: "get_max_thread_count (Some ''2'') (demo_device\<lparr>dev_data := 9\<rparr>) = Ret 2"
    by (simp add: get_max_thread_count_def atoi_def)
  have groups: "unat (fst (num_groups (pc demo_run))) = 5" "\<not> counters_wrap (num_groups (pc demo_run))"
    by (simp_all add: demo_run_def demo_pc_def counters_wrap_def)
  have comm: "commute (plain_groups demo_fill (pc demo_run) (Some 0) demo_kernel (run_arguments demo_run) demo_run_rt x)
      (plain_groups demo_fill (pc demo_run) (Some 0) demo_kernel (run_arguments demo_run) demo_run_rt y)" for x y
  proof -
    have "(f :: size_t \<Rightarrow> byte option)(0x1010 + a \<mapsto> ucast a, 0x1010 + b \<mapsto> ucast b) =
        f(0x1010 + b \<mapsto> ucast b, 0x1010 + a \<mapsto> ucast a)" for f and a b :: size_t
      by (cases "a = b") (auto intro: fun_upd_twist)
    then show ?thesis by (cases x; cases y) (simp add: commute_def demo_plain(2))
  qed
  show ?thesis
    using pthread_refines_basic [where dlsym = "\<lambda>_ _. Some demo_fill" and w = demo_fill and lib = demo_library and
        ord = Next_First and sched = "\<lambda>n. n * n", OF objs(1-3) refl found _ objs(4) threads _ objs(5,6,8) demo_plain(1) objs(7) _ _ groups(2)]
      groups(1) comm by simp
qed

end
