(* ===== verification/Kernel_Claims.thy ===== *)
theory Kernel_Claims
  imports Execution_Claims
begin

text \<open>
  Kernel arguments and launches: what \<open>clSetKernelArg\<close> keeps, and that a launch that is enqueued and
  finished runs every work-group on the arguments of the moment it was enqueued.
\<close>

section \<open>References held by a launch\<close>

definition retained :: "ptr list \<Rightarrow> (ptr \<Rightarrow> cl_mem option) \<Rightarrow> ptr \<Rightarrow> cl_mem option" where
  "retained bufs st p = map_option (\<lambda>m. m\<lparr>m_refcount := m_refcount m + int (count_list bufs p)\<rparr>) (st p)"

lemma retained_Nil [simp]: "retained [] st = st"
proof
  fix p show "retained [] st p = st p" by (cases "st p") (simp_all add: retained_def)
qed

definition all_live :: "ptr list \<Rightarrow> (ptr \<Rightarrow> cl_mem option) \<Rightarrow> bool" where
  "all_live bufs st \<longleftrightarrow> (\<forall>p \<in> set bufs. p \<noteq> NULL \<and> (case st p of None \<Rightarrow> False
     | Some m \<Rightarrow> 0 < m_refcount m \<and> m_refcount m + int (length bufs) < 2 ^ 31))"

lemma count_list_le: "count_list xs x \<le> length xs"
  by (induction xs) auto

lemma retain_one:
  assumes "st p = Some m" "m_refcount m + int (length (bufs @ [p])) < 2 ^ 31" "0 < m_refcount m" "p \<noteq> NULL"
  shows "clRetainMemObject p (s\<lparr>mems := retained bufs st\<rparr>) = Ret (CL_SUCCESS, s\<lparr>mems := retained (bufs @ [p]) st\<rparr>)"
proof -
  have "m_refcount m + int (count_list bufs p) \<noteq> 2 ^ 31 - 1"
    using assms(2) count_list_le [of bufs p] by simp
  moreover have "(retained bufs st)(p \<mapsto> m\<lparr>m_refcount := m_refcount m + int (count_list bufs p) + 1\<rparr>) = retained (bufs @ [p]) st"
    using assms(1) by (auto simp: retained_def fun_eq_iff)
  ultimately show ?thesis
    using assms(1,4) by (simp add: clRetainMemObject_def retain_mem_def POCL_RETAIN_OBJECT_def incr_def retained_def)
qed

lemma release_one:
  assumes "st p = Some m" "0 < m_refcount m" "p \<noteq> NULL"
  shows "release_buffer env p (s\<lparr>mems := retained (p # bufs) st\<rparr>) = Ret (s\<lparr>mems := retained bufs st\<rparr>)"
proof -
  let ?m = "m\<lparr>m_refcount := m_refcount m + 1 + int (count_list bufs p)\<rparr>"
  have at: "mems (s\<lparr>mems := retained (p # bufs) st\<rparr>) p = Some ?m" using assms(1) by (simp add: retained_def algebra_simps)
  have "(retained (p # bufs) st)(p \<mapsto> m\<lparr>m_refcount := m_refcount m + int (count_list bufs p)\<rparr>) = retained bufs st"
    using assms(1) by (auto simp: retained_def fun_eq_iff)
  then show ?thesis using release_buffer_keeps [OF at assms(3), of env] assms(2) by (simp add: algebra_simps)
qed

lemma release_all:
  assumes "all_live bufs st"
  shows "oiter (\<lambda>buf s. if buf = NULL then Ret s else release_buffer env buf s) bufs (s\<lparr>mems := retained bufs st\<rparr>) = Ret (s\<lparr>mems := st\<rparr>)"
proof -
  have "\<forall>p \<in> set bufs. p \<noteq> NULL \<and> (\<exists>m. st p = Some m \<and> 0 < m_refcount m)"
    using assms by (auto simp: all_live_def split: option.splits)
  then show ?thesis
  proof (induction bufs)
    case (Cons p bufs)
    then show ?case by (auto simp: release_one)
  qed simp
qed

section \<open>The arguments of a launch\<close>

text \<open>The buffers among the arguments, in their order.\<close>

definition arg_buffer_list :: "cl_kernel \<Rightarrow> pocl_argument list \<Rightarrow> nat list \<Rightarrow> ptr list" where
  "arg_buffer_list k args is = concat (map (\<lambda>i.
     case arg_value (args ! i) of Arg_bytes bs \<Rightarrow> if arg_is_pointer k ! i then [unat (le_word (take 8 bs))] else [] | _ \<Rightarrow> []) is)"

lemma arg_buffer_list_append: "arg_buffer_list k args (is @ js) = arg_buffer_list k args is @ arg_buffer_list k args js"
  by (simp add: arg_buffer_list_def)

lemma plain_slot:
  assumes "plain_args index k args s" "i < num_args k" "arg_is_pointer k ! i" "arg_value (args ! i) \<noteq> Arg_null"
  shows "\<exists>p m. device_slot index (arg_value (args ! i)) s = Ret (p, m) \<and> p \<noteq> 0"
  using assms by (cases "device_slot index (arg_value (args ! i)) s") (force simp: plain_args_def)+

lemma retain_args_plain:
  assumes "plain_args index k args s" "all_live (arg_buffer_list k args [0..<num_args k]) (mems s)"
    and "arg_is_local k = Some is_local" "n \<le> num_args k"
  shows "oiter (retain_arg k is_local args) [0..<n] ([], s) =
    Ret (arg_buffer_list k args [0..<n], s\<lparr>mems := retained (arg_buffer_list k args [0..<n]) (mems s)\<rparr>)"
  using assms(4)
proof (induction n)
  case (Suc n)
  let ?bs = "arg_buffer_list k args [0..<n]"
  have n: "n < num_args k" using Suc.prems by simp
  have split: "arg_buffer_list k args [0..<num_args k] = ?bs @ arg_buffer_list k args [n] @ arg_buffer_list k args [Suc n..<num_args k]"
    using upt_split [of 0 n "num_args k"] upt_conv_Cons [OF n] n by (simp add: arg_buffer_list_append [symmetric])
  have args: "n < length args" "n < length is_local" "\<not> is_local ! n" "n < length (arg_is_pointer k)"
    "arg_is_pointer k ! n \<Longrightarrow> arg_value (args ! n) \<noteq> Arg_null \<Longrightarrow> \<exists>p m. device_slot index (arg_value (args ! n)) s = Ret (p, m)"
    using assms(1,3) n plain_slot [OF assms(1) n] by (auto simp: plain_args_def)
  have "retain_arg k is_local args n (?bs, s\<lparr>mems := retained ?bs (mems s)\<rparr>) =
      Ret (?bs @ arg_buffer_list k args [n], s\<lparr>mems := retained (?bs @ arg_buffer_list k args [n]) (mems s)\<rparr>)"
  proof (cases "arg_is_pointer k ! n \<and> arg_value (args ! n) \<noteq> Arg_null")
    case True
    then obtain bs where bs: "arg_value (args ! n) = Arg_bytes bs" "8 \<le> length bs"
      using args(5) by (cases "arg_value (args ! n)") (auto simp: device_slot_def buffer_of_def c_take_def split: if_splits)
    let ?p = "unat (le_word (take 8 bs))"
    have one: "arg_buffer_list k args [n] = [?p]" using bs True by (simp add: arg_buffer_list_def)
    have "length (?bs @ [?p]) \<le> length (arg_buffer_list k args [0..<num_args k])" unfolding split one by simp
    moreover have "?p \<in> set (arg_buffer_list k args [0..<num_args k])" unfolding split one by simp
    ultimately obtain m where m: "mems s ?p = Some m" "0 < m_refcount m" "?p \<noteq> NULL"
        "m_refcount m + int (length (?bs @ [?p])) < 2 ^ 31"
      using assms(2) by (force simp: all_live_def split: option.splits)
    then show ?thesis
      using retain_one [where st = "mems s" and bufs = ?bs, OF m(1,4,2,3), of s] True args bs one
      by (simp add: retain_arg_def is_buffer_arg_def c_nth_def buffer_of_def c_take_def)
  next
    case False
    then have none: "arg_buffer_list k args [n] = []" by (auto simp: arg_buffer_list_def split: arg_mem.splits)
    show ?thesis unfolding none using False args(1-4) by (simp add: retain_arg_def is_buffer_arg_def c_nth_def)
  qed
  moreover have "arg_buffer_list k args [0..<Suc n] = ?bs @ arg_buffer_list k args [n]" by (simp add: arg_buffer_list_def)
  ultimately show ?case using Suc.IH n by (simp add: oiter_append)
qed (simp add: arg_buffer_list_def)

text \<open>An argument whose block has the size of its value, and a size the allocator serves.\<close>

definition arg_wf :: "pocl_argument \<Rightarrow> bool" where
  "arg_wf a \<longleftrightarrow> (case arg_value a of Arg_null \<Rightarrow> True | Arg_freed \<Rightarrow> False
     | Arg_bytes bs \<Rightarrow> length bs = unat (arg_size a) \<and> arg_alloc_size (arg_size a) AND (arg_alignment (arg_size a) - 1) = 0)"

lemma arg_block_runs:
  assumes "all_malloc env" "arg_alloc_size sz AND (arg_alignment sz - 1) = 0"
  shows "arg_block env sz s = (True, next_tick s)"
  using assms by (simp add: arg_block_def pocl_aligned_malloc_posix_def all_malloc_def)

lemma copy_args_plain:
  assumes "all_malloc env" "\<forall>a \<in> set args. arg_wf a"
  shows "\<exists>t \<ge> tick s. copy_args env args s = Ret (args, s\<lparr>tick := t\<rparr>)"
  using assms(2)
proof (induction args arbitrary: s)
  case (Cons a args)
  have "\<exists>t \<ge> tick s. copy_arg env a s = Ret (a, s\<lparr>tick := t\<rparr>)"
  proof (cases "arg_value a")
    case Arg_null
    then show ?thesis by (intro exI [of _ "tick s"]) (simp add: copy_arg_def)
  next
    case (Arg_bytes bs)
    then show ?thesis
      using Cons.prems arg_block_runs [OF assms(1), of "arg_size a" s]
      by (intro exI [of _ "Suc (tick s)"]) (simp add: copy_arg_def arg_wf_def c_take_def next_tick_def)
  qed (use Cons.prems in \<open>simp add: arg_wf_def\<close>)
  then obtain t where t: "t \<ge> tick s" "copy_arg env a s = Ret (a, s\<lparr>tick := t\<rparr>)" by blast
  obtain t' where "t' \<ge> t" "copy_args env args (s\<lparr>tick := t\<rparr>) = Ret (args, s\<lparr>tick := t'\<rparr>)"
    using Cons.IH [of "s\<lparr>tick := t\<rparr>"] Cons.prems by auto
  then show ?case using t by (intro exI [of _ t']) simp
qed (auto intro: exI [of _ "tick s"])

text \<open>\<open>s'\<close> is \<open>s\<close> after the command was appended with a reference to the queue, the kernel and the
  buffers.\<close>

definition launched :: "ptr \<Rightarrow> cl_command_queue \<Rightarrow> ptr \<Rightarrow> cl_kernel \<Rightarrow> command_node \<Rightarrow> ptr list \<Rightarrow> rt \<Rightarrow> rt \<Rightarrow> bool" where
  "launched q Q kern k node bufs s s' \<longleftrightarrow> tick s \<le> tick s' \<and> ram s' = ram s \<and> mems s' = retained bufs (mems s) \<and>
     kernels s' = (kernels s)(kern \<mapsto> k\<lparr>k_refcount := k_refcount k + 1\<rparr>) \<and>
     queues s' = (queues s)(q \<mapsto> Q\<lparr>q_refcount := q_refcount Q + 1, root := root Q @ [node]\<rparr>) \<and>
     contexts s' = contexts s \<and> devices s' = devices s \<and> programs s' = programs s \<and> maps s' = maps s \<and> events s' = events s"

lemma append_launch_plain:
  assumes "queues s q = Some Q" "q_refcount Q < 2 ^ 31 - 1" "q \<noteq> NULL" "kernels s kern = Some k" "k_refcount k < 2 ^ 31 - 1" "kern \<noteq> NULL"
    and "dyn_arguments k = Some args" "length args = num_args k" "\<forall>a \<in> set args. arg_wf a"
    and "plain_args index k args s" "all_live (arg_buffer_list k args [0..<num_args k]) (mems s)"
    and "div3 glob loc = Ret groups" "all_malloc env" "0 < tick s"
  shows "\<exists>s'. append_launch env q kern wdim off glob loc dir False s = Ret (CL_SUCCESS, NULL, s') \<and>
    launched q Q kern k \<lparr>cmd = Cmd_run \<lparr>tmp_dir = dir, run_kernel = kern, arg_buffers = arg_buffer_list k args [0..<num_args k],
        pc = launch_pc env wdim off glob loc groups, run_arguments = args\<rparr>, node_event = NULL\<rparr>
      (arg_buffer_list k args [0..<num_args k]) s s'"
proof -
  let ?bs = "arg_buffer_list k args [0..<num_args k]"
  have n: "num_args k + num_locals k = num_args k" using assms(10) by (simp add: plain_args_def)
  obtain t where t: "t \<ge> Suc (tick s)" "copy_args env args (next_tick s) = Ret (args, s\<lparr>tick := t\<rparr>)"
    using copy_args_plain [OF assms(13,9), of "next_tick s"] by (auto simp: next_tick_def)
  let ?s1 = "s\<lparr>tick := t, queues := (queues s)(q \<mapsto> Q\<lparr>q_refcount := q_refcount Q + 1\<rparr>)\<rparr>"
  have q: "clRetainCommandQueue q (s\<lparr>tick := t\<rparr>) = Ret (CL_SUCCESS, ?s1)"
    using assms(1,2,3) by (simp add: clRetainCommandQueue_def retain_queue_def POCL_RETAIN_OBJECT_def incr_def)
  let ?s2 = "?s1\<lparr>kernels := (kernels s)(kern \<mapsto> k\<lparr>k_refcount := k_refcount k + 1\<rparr>)\<rparr>"
  have kr: "clRetainKernel kern ?s1 = Ret (CL_SUCCESS, ?s2)"
    using assms(4,5,6) by (simp add: clRetainKernel_def retain_kernel_def POCL_RETAIN_OBJECT_def incr_def)
  let ?s3 = "(next_tick ?s2)\<lparr>mems := retained ?bs (mems s)\<rparr>"
  have r: "retain_args env k args ?s2 = Ret (?bs, ?s3)"
  proof -
    obtain is_local where l: "arg_is_local k = Some is_local" using assms(10) by (auto simp: plain_args_def split: option.splits)
    have same: "plain_args index k args (next_tick ?s2)" "mems (next_tick ?s2) = mems s"
      using assms(10) plain_cong(1) [of "next_tick ?s2" s] by (simp_all add: next_tick_def)
    have "oiter (retain_arg k is_local args) [0..<num_args k] ([], next_tick ?s2) = Ret (?bs, ?s3)"
      using retain_args_plain [OF same(1) _ l, of "num_args k"] assms(11) same(2) by simp
    moreover have "num_args k = 0 \<Longrightarrow> ?bs = []" by (simp add: arg_buffer_list_def)
    moreover have "tick ?s2 \<noteq> 0" using t(1) by simp
    ultimately show ?thesis
      using l assms(13) by (auto simp: retain_args_def new_obj_runs same(2) [symmetric])
  qed
  have locals: "num_locals k = 0" using n by simp
  have none: "t = Suc (tick s)" if "args = []"
    using t(2) that by (auto simp: next_tick_def dest: arg_cong [of _ _ tick])
  show ?thesis
    unfolding append_launch_def event_for_def
    using assms(4,7,8,12,13,14) t q kr r none
    by (cases args) (auto simp: locals new_obj_runs Let_def append_command_def launched_def next_tick_def)
qed

section \<open>Finishing a launch\<close>

lemma retained_cong:
  assumes "mems s' = retained bufs (mems s)"
  shows "plain_args index k args s' = plain_args index k args s" "plain_arg index k args s' = plain_arg index k args s"
    "plain_groups w c index k args s' = plain_groups w c index k args s"
proof -
  have slot: "device_slot index v s' = obind (device_slot index v s) (\<lambda>(p, m). Ret (p, the (mems s' (unat (le_word (take 8 (case v of Arg_bytes bs \<Rightarrow> bs | _ \<Rightarrow> [])))))))" for v
  proof (cases "buffer_of v")
    case (Ret buf)
    then obtain bs where v: "v = Arg_bytes bs" "buf = unat (le_word (take 8 bs))"
      by (cases v) (auto simp: buffer_of_def c_take_def split: if_splits)
    show ?thesis
      using Ret v assms
      by (cases "mems s buf"; cases index) (auto simp: device_slot_def retained_def c_nth_def)
  qed (simp_all add: device_slot_def)
  have slot_arg: "(case device_slot index v s' of Ret (p, m) \<Rightarrow> f p | _ \<Rightarrow> b) = (case device_slot index v s of Ret (p, m) \<Rightarrow> f p | _ \<Rightarrow> b)"
    for v b and f :: "size_t \<Rightarrow> wg_arg"
    unfolding slot by (cases "device_slot index v s") auto
  have slot_bool: "(case device_slot index v s' of Ret (p, m) \<Rightarrow> f p | _ \<Rightarrow> b) = (case device_slot index v s of Ret (p, m) \<Rightarrow> f p | _ \<Rightarrow> b)"
    for v b and f :: "size_t \<Rightarrow> bool"
    unfolding slot by (cases "device_slot index v s") auto
  show "plain_args index k args s' = plain_args index k args s" unfolding plain_args_def slot_bool ..
  show arg: "plain_arg index k args s' = plain_arg index k args s" unfolding plain_arg_def slot_arg fun_eq_iff by simp
  show "plain_groups w c index k args s' = plain_groups w c index k args s" by (simp add: plain_groups_def arg)
qed

lemma plain_refcount:
  "plain_args index (k\<lparr>k_refcount := n\<rparr>) args s = plain_args index k args s"
  "plain_groups w c index (k\<lparr>k_refcount := n\<rparr>) args s = plain_groups w c index k args s"
  "workgroup_string (k\<lparr>k_refcount := n\<rparr>) = workgroup_string k"
proof -
  have "plain_arg index (k\<lparr>k_refcount := n\<rparr>) args s = plain_arg index k args s" by (rule ext) (simp add: plain_arg_def)
  then show "plain_groups w c index (k\<lparr>k_refcount := n\<rparr>) args s = plain_groups w c index k args s" by (simp add: plain_groups_def)
qed (simp_all add: plain_args_def workgroup_string_def split: option.splits)

text \<open>The environment in which the devices are driven by the basic driver.\<close>

definition with_basic_run :: "env \<Rightarrow> c_library \<Rightarrow> (string \<Rightarrow> string \<Rightarrow> workgroup option) \<Rightarrow> env" where
  "with_basic_run env lib dlsym = env\<lparr>run := (\<lambda>d node s. case cmd node of
     Cmd_run c \<Rightarrow> obind (deref (devices s d)) (\<lambda>dev. pocl_basic_run env lib dlsym (dev_data dev) c s) | _ \<Rightarrow> Undef)\<rparr>"

lemma finish_launch:
  assumes "launched q Q kern k \<lparr>cmd = Cmd_run c, node_event = NULL\<rparr> bufs s s'" "root Q = []" "kern = run_kernel c" "bufs = arg_buffers c"
    and "\<not> has (q_properties Q) CL_QUEUE_OUT_OF_ORDER_EXEC_MODE_ENABLE"
    and "devices s (q_device Q) = Some dev" "\<not> has (dev_type dev) CL_DEVICE_TYPE_GPU" "dev_data dev \<noteq> 0"
    and "kernels s kern = Some k" "0 < k_refcount k" "k_refcount k < 2 ^ 31 - 1" "contexts s (k_context k) = Some ctx"
    and "find_data (devices s) (dev_data dev) (ctx_devices ctx) 0 = Ret (Some (index, d))"
    and "plain_args (Some index) k (run_arguments c) s" "all_live bufs (mems s)" "all_malloc env" "0 < tick s"
    and "open_module env (tmp_dir c) s' = Ret (md, s1)" "dlsym md (workgroup_string k) = Some w"
  shows "\<exists>f. clFinish (with_basic_run env lib dlsym) q s' =
      obind (oiter (plain_groups w (pc c) (Some index) k (run_arguments c) s) (group_ids (num_groups (pc c))) (ram s))
        (\<lambda>m. Ret (CL_SUCCESS, f m)) \<and>
    (\<forall>m. ram (f m) = m \<and> mems (f m) = mems s \<and> kernels (f m) = kernels s \<and> events (f m) = events s \<and>
       queues (f m) = (queues s)(q \<mapsto> Q\<lparr>q_refcount := q_refcount Q + 1\<rparr>))"
proof -
  let ?k = "k\<lparr>k_refcount := k_refcount k + 1\<rparr>" and ?args = "run_arguments c"
  let ?Q = "Q\<lparr>q_refcount := q_refcount Q + 1, root := root Q @ [\<lparr>cmd = Cmd_run c, node_event = NULL\<rparr>]\<rparr>"
  note L = assms(1) [unfolded launched_def]
  have k: "plain_args (Some index) ?k ?args s'" "plain_groups w (pc c) (Some index) ?k ?args s' = plain_groups w (pc c) (Some index) k ?args s"
    "workgroup_string ?k = workgroup_string k"
    using assms(14) retained_cong [where s' = s' and s = s and bufs = bufs] L by (simp_all add: plain_refcount)
  obtain T where T: "pocl_basic_run env lib dlsym (dev_data dev) c s' =
      obind (oiter (plain_groups w (pc c) (Some index) k ?args s) (group_ids (num_groups (pc c))) (ram s)) (\<lambda>m. Ret (with_ram s' m T))"
    using basic_run_plain [of s' c ?k env md s1 ctx "dev_data dev" index d dlsym w lib] assms(3,8,12,13,16-19) k L by auto
  have len: "num_args k \<le> length ?args" "num_locals k = 0" using assms(14) by (auto simp: plain_args_def)
  have rel: "release_run (with_basic_run env lib dlsym) False c (with_ram s' m T) =
      Ret ((with_ram s' m T)\<lparr>mems := mems s, kernels := kernels s\<rparr>)" for m
  proof -
    have same: "(with_ram s' m T)\<lparr>mems := retained bufs (mems s)\<rparr> = with_ram s' m T"
      using L by (intro rt.equality) (simp_all add: with_ram_def)
    have "oiter (\<lambda>buf s. if buf = NULL then Ret s else release_buffer (with_basic_run env lib dlsym) buf s) (arg_buffers c) (with_ram s' m T) =
        Ret ((with_ram s' m T)\<lparr>mems := mems s\<rparr>)"
      using release_all [OF assms(15), of "with_basic_run env lib dlsym" "with_ram s' m T"] unfolding same by (simp only: assms(4))
    moreover have "(kernels s)(kern \<mapsto> k) = kernels s" using assms(9) by auto
    ultimately show ?thesis
      using len assms(3,10,11) L
      by (simp add: release_run_def with_ram_def clReleaseKernel_def release_kernel_def POCL_RELEASE_OBJECT_def decr_def)
  qed
  let ?f = "\<lambda>m. (with_ram s' m T)\<lparr>mems := mems s, kernels := kernels s, queues := (queues s)(q \<mapsto> Q\<lparr>q_refcount := q_refcount Q + 1\<rparr>)\<rparr>"
  have empty: "Q\<lparr>q_refcount := n, root := []\<rparr> = Q\<lparr>q_refcount := n\<rparr>" for n
    using assms(2) by (intro cl_command_queue.equality) simp_all
  have upd: "POCL_UPDATE_EVENT_SUBMITTED e q NULL s = Ret s" "POCL_UPDATE_EVENT_RUNNING e q NULL s = Ret s"
    "POCL_UPDATE_EVENT_COMPLETE e q NULL s = Ret s" for e s
    by (simp_all add: POCL_UPDATE_EVENT_SUBMITTED_def POCL_UPDATE_EVENT_RUNNING_def POCL_UPDATE_EVENT_COMPLETE_def update_event_def)
  have "exec_command (with_basic_run env lib dlsym) q \<lparr>cmd = Cmd_run c, node_event = NULL\<rparr> s' =
      obind (oiter (plain_groups w (pc c) (Some index) k ?args s) (group_ids (num_groups (pc c))) (ram s))
        (\<lambda>m. Ret ((with_ram s' m T)\<lparr>mems := mems s, kernels := kernels s\<rparr>))"
    using L assms(6,7) T rel
    by (cases "oiter (plain_groups w (pc c) (Some index) k ?args s) (group_ids (num_groups (pc c))) (ram s)")
      (simp_all add: exec_command_def upd with_basic_run_def)
  then have "clFinish (with_basic_run env lib dlsym) q s' =
      obind (oiter (plain_groups w (pc c) (Some index) k ?args s) (group_ids (num_groups (pc c))) (ram s)) (\<lambda>m. Ret (CL_SUCCESS, ?f m))"
    using L assms(2,5)
    by (cases "oiter (plain_groups w (pc c) (Some index) k ?args s) (group_ids (num_groups (pc c))) (ram s)")
      (simp_all add: clFinish_def with_ram_def empty)
  moreover have "events s' = events s" using L by simp
  ultimately show ?thesis by (intro exI [of _ ?f]) (simp add: with_ram_def)
qed

section \<open>Launching\<close>

lemma prepare_code_only: "prepare_code env dev k loc off s = Ret (r, s') \<Longrightarrow> only_ticks s s'"
proof -
  have kfile: "write_kernel_file env p s = Ret (code, s') \<Longrightarrow> only_ticks s s'" for p s code s'
    by (auto simp: write_kernel_file_def os_call_def outcome_simps split: if_splits
        intro: next_tick_only only_ticks_trans [OF next_tick_only] only_ticks_trans [OF next_tick_only only_ticks_trans [OF next_tick_only next_tick_only]])
  have script: "run_work_group_script env s = Ret (code, s') \<Longrightarrow> only_ticks s s'" for s code s'
    by (auto simp: run_work_group_script_def os_call_def outcome_simps split: if_splits
        intro: only_ticks_trans [OF next_tick_only] next_tick_only)
  assume "prepare_code env dev k loc off s = Ret (r, s')"
  then have "s' = next_tick s \<or> s' = next_tick (next_tick s) \<or>
      (\<exists>p code s1. write_kernel_file env p (next_tick (next_tick s)) = Ret (code, s1) \<and>
         (s' = s1 \<or> (\<exists>code. run_work_group_script env s1 = Ret (code, s'))))"
    by (auto simp: prepare_code_def os_call_def Let_def outcome_simps split: if_splits)
  moreover have two: "only_ticks s (next_tick (next_tick s))" by (rule only_ticks_trans [OF next_tick_only next_tick_only])
  ultimately show ?thesis
    by (elim disjE exE conjE) (auto intro: next_tick_only only_ticks_trans [OF two] only_ticks_trans [OF kfile script] kfile)
qed

lemma plain_only: "only_ticks s s' \<Longrightarrow> plain_args index k args s' = plain_args index k args s"
  by (rule plain_cong) (auto simp: only_ticks_def)

lemma enqueue_launch:
  assumes "queues s q = Some Q" "q_refcount Q < 2 ^ 31 - 1" "q \<noteq> NULL" "kernels s kern = Some k" "k_refcount k < 2 ^ 31 - 1" "kern \<noteq> NULL"
    and "dyn_arguments k = Some args" "length args = num_args k" "\<forall>a \<in> set args. arg_wf a"
    and "plain_args index k args s" "all_live (arg_buffer_list k args [0..<num_args k]) (mems s)"
    and "all_malloc env" "0 < tick s" "q_context Q = k_context k" "devices s (q_device Q) = Some dev" "has (dev_type dev) CL_DEVICE_TYPE_CPU"
    and "1 \<le> wdim" "wdim \<le> max_work_item_dimensions (dev_info dev)" "max_work_item_dimensions (dev_info dev) \<le> 3"
    and "read_dims wdim gs = Ret glob" "fst glob \<noteq> 0" "fst (snd glob) \<noteq> 0" "snd (snd glob) \<noteq> 0" "read_dims wdim ls = Ret loc"
    and "group_checks dev wdim glob loc 0 None = Ret CL_SUCCESS" "div3 glob loc = Ret groups"
    and "prepare_code env dev k loc (0, 0, 0) (next_tick s) = Ret ((CL_SUCCESS, dir), s1)"
  shows "\<exists>s'. clEnqueueNDRangeKernel env q kern wdim None (Some gs) (Some ls) 0 None False s = Ret (CL_SUCCESS, NULL, s') \<and>
    launched q Q kern k \<lparr>cmd = Cmd_run \<lparr>tmp_dir = dir, run_kernel = kern, arg_buffers = arg_buffer_list k args [0..<num_args k],
        pc = launch_pc env wdim (0, 0, 0) glob loc groups, run_arguments = args\<rparr>, node_event = NULL\<rparr>
      (arg_buffer_list k args [0..<num_args k]) s s'"
proof -
  have only: "only_ticks s s1" using prepare_code_only [OF assms(27)] next_tick_only only_ticks_trans by blast
  then obtain t where s1: "s1 = s\<lparr>tick := t\<rparr>" "tick s \<le> t" by (auto simp: only_ticks_def)
  have checks: "launch_checks q kern wdim s = Ret CL_SUCCESS"
    using assms(1,3,4,6,14,15,17-19) by (simp add: launch_checks_def word_less_nat_alt word_le_nat_alt not_less)
  have "\<exists>s'. append_launch env q kern wdim (0, 0, 0) glob loc dir False s1 = Ret (CL_SUCCESS, NULL, s') \<and>
    launched q Q kern k \<lparr>cmd = Cmd_run \<lparr>tmp_dir = dir, run_kernel = kern, arg_buffers = arg_buffer_list k args [0..<num_args k],
        pc = launch_pc env wdim (0, 0, 0) glob loc groups, run_arguments = args\<rparr>, node_event = NULL\<rparr>
      (arg_buffer_list k args [0..<num_args k]) s1 s'"
    using assms(1-13,26) plain_only [OF only] s1 by (intro append_launch_plain) auto
  then obtain s' where s': "append_launch env q kern wdim (0, 0, 0) glob loc dir False s1 = Ret (CL_SUCCESS, NULL, s')"
    "launched q Q kern k \<lparr>cmd = Cmd_run \<lparr>tmp_dir = dir, run_kernel = kern, arg_buffers = arg_buffer_list k args [0..<num_args k],
        pc = launch_pc env wdim (0, 0, 0) glob loc groups, run_arguments = args\<rparr>, node_event = NULL\<rparr>
      (arg_buffer_list k args [0..<num_args k]) s s'"
    using s1 by (auto simp: launched_def)
  have "clEnqueueNDRangeKernel env q kern wdim None (Some gs) (Some ls) 0 None False s = Ret (CL_SUCCESS, NULL, s')"
    unfolding clEnqueueNDRangeKernel_def
    using checks assms(1,4,12,13,15,16,20-25,27) s'(1) by (simp add: new_obj_runs) (simp add: next_tick_def)
  with s'(2) show ?thesis by blast
qed

lemma with_basic_run_env:
  "malloc_fails (with_basic_run env lib dlsym) = malloc_fails env" "os (with_basic_run env lib dlsym) = os env"
  "unset_size (with_basic_run env lib dlsym) = unset_size env" "all_malloc (with_basic_run env lib dlsym) = all_malloc env"
  "launch_pc (with_basic_run env lib dlsym) = launch_pc env"
  by (simp_all add: with_basic_run_def all_malloc_def launch_pc_def fun_eq_iff)

section \<open>Setting arguments\<close>

text \<open>Every operation keeps a kernel well-typed.\<close>

lemma kernel_typed_update:
  assumes "kernel_typed k" "dyn_arguments k = Some args" "arg_typed a"
  shows "kernel_typed (k\<lparr>dyn_arguments := Some (args[i := a])\<rparr>)"
proof -
  have "\<forall>b \<in> set (args[i := a]). arg_typed b"
    using assms set_update_subset_insert [of args i a] by (auto simp: kernel_typed_def)
  then show ?thesis using assms(1,2) by (simp add: kernel_typed_def split: option.splits)
qed

lemma mark_local_typed:
  assumes "mark_local k i s = Ret k'" "kernel_typed k"
  shows "kernel_typed k' \<and> dyn_arguments k' = dyn_arguments k \<and> num_args k' = num_args k"
proof -
  have "k' = k \<or> (\<exists>ls. arg_is_local k = Some ls \<and> k' = k\<lparr>arg_is_pointer := (arg_is_pointer k)[i := True], arg_is_local := Some (ls[i := True])\<rparr>)"
    using assms(1) by (auto simp: mark_local_def outcome_simps c_set_def split: if_splits)
  then show ?thesis using assms(2) by (auto simp: kernel_typed_def split: option.splits)
qed

text \<open>What makes \<open>clSetKernelArg\<close> store NULL: no value, or a pointer argument whose first four bytes are zero.\<close>

definition null_given :: "cl_kernel \<Rightarrow> nat \<Rightarrow> byte list option \<Rightarrow> bool" where
  "null_given k i value \<longleftrightarrow> (case value of None \<Rightarrow> True | Some bs \<Rightarrow> arg_is_pointer k ! i \<and> take 4 bs = [0, 0, 0, 0])"

text \<open>The caller's value has as many bytes as the call says, and a pointer the four that are looked at.\<close>

definition value_readable :: "cl_kernel \<Rightarrow> nat \<Rightarrow> size_t \<Rightarrow> byte list option \<Rightarrow> bool" where
  "value_readable k i sz value \<longleftrightarrow>
     (case value of None \<Rightarrow> True | Some bs \<Rightarrow> unat sz \<le> length bs \<and> (arg_is_pointer k ! i \<longrightarrow> 4 \<le> length bs))"

definition none_dangling :: "pocl_argument list \<Rightarrow> bool" where
  "none_dangling args \<longleftrightarrow> (\<forall>a \<in> set args. arg_value a \<noteq> Arg_freed)"

lemma arg_given_null:
  "i < length (arg_is_pointer k) \<Longrightarrow> value_readable k i sz value \<Longrightarrow> arg_given k i value = Ret (\<not> null_given k i value)"
  by (auto simp: arg_given_def null_given_def value_readable_def c_nth_def c_take_def split: option.splits)

lemma free_value_ok: "v \<noteq> Arg_freed \<Longrightarrow> free_value v = Ret (if v = Arg_null then Arg_null else Arg_freed)"
  by (cases v) auto

lemma mark_local_total:
  assumes "programs s (k_program k) = Some p" "kernel_typed k" "i < num_args k" "arg_is_local k \<noteq> None"
  shows "\<exists>k'. mark_local k i s = Ret k'"
  using assms by (auto simp: mark_local_def c_set_def kernel_typed_def)

text \<open>One end of \<open>clSetKernelArg\<close>: the kernel with a new cell for the argument.\<close>

lemma set_arg_end:
  assumes "res = Ret (code, put_kernel kern (k'\<lparr>dyn_arguments := Some (args[i := a])\<rparr>) (s\<lparr>tick := t\<rparr>))"
    and "kernel_typed k'" "dyn_arguments k' = Some args" "num_args k' = num_args k" "arg_typed a" "i < length args"
    and "P code (args[i := a])"
  shows "\<exists>code s' k' args'. res = Ret (code, s') \<and>
       kernels s' = (kernels s)(kern \<mapsto> k') \<and> dyn_arguments k' = Some args' \<and>
       kernel_typed k' \<and> num_args k' = num_args k \<and>
       length args' = length args \<and> (\<forall>j. j \<noteq> i \<longrightarrow> args' ! j = args ! j) \<and>
       ram s' = ram s \<and> mems s' = mems s \<and> queues s' = queues s \<and> P code args'"
  using assms kernel_typed_update [OF assms(2,3,5), of i] unfolding put_kernel_def
  by (intro exI [of _ code] exI [of _ "s\<lparr>tick := t, kernels := (kernels s)(kern \<mapsto> k'\<lparr>dyn_arguments := Some (args[i := a])\<rparr>)\<rparr>"]
      exI [of _ "k'\<lparr>dyn_arguments := Some (args[i := a])\<rparr>"] exI [of _ "args[i := a]"]) auto

section \<open>Properties\<close>


definition demo_program :: cl_program where
  "demo_program = \<lparr>p_refcount = 2, p_context = 2, p_devices = [Some 1], prog_source = Some [], compiler_options = None,
     binaries = Some [Some [1]], temp_dir = ''/tmp'', p_kernels = [7], brigModule = None\<rparr>"

definition demo_launch_rt :: rt where
  "demo_launch_rt = demo_run_rt\<lparr>queues := [3 \<mapsto> demo_queue\<lparr>root := []\<rparr>], programs := [6 \<mapsto> demo_program]\<rparr>"

definition demo_launch_env :: env where
  "demo_launch_env = demo_env\<lparr>os := (\<lambda>n. if n = 14 \<or> n = 23 then 1 else 0)\<rparr>"

definition demo_dir :: string where
  "demo_dir = work_group_dir demo_program ''basic'' demo_kernel (4, 1, 1) (0, 0, 0)"

abbreviation demo_device_9 :: device where "demo_device_9 \<equiv> demo_device\<lparr>dev_data := 9\<rparr>"

lemma demo_launch_objects:
  "queues demo_launch_rt 3 = Some (demo_queue\<lparr>root := []\<rparr>)" "kernels demo_launch_rt 7 = Some demo_kernel"
  "devices demo_launch_rt 1 = Some demo_device_9" "mems demo_launch_rt = mems demo_run_rt" "tick demo_launch_rt = 10"
  "contexts demo_launch_rt 2 = Some \<lparr>ctx_refcount = 2, ctx_devices = [Some 1], ctx_properties = None, valid = True\<rparr>"
  "programs demo_launch_rt 6 = Some demo_program" "dyn_arguments demo_kernel = Some (run_arguments demo_run)"
  by (simp_all add: demo_launch_rt_def demo_run_rt_def demo_rt_def demo_kernel_def demo_run_def)

lemma demo_prepare:
  "prepare_code (with_basic_run demo_launch_env lib dlsym) demo_device_9 demo_kernel (4, 1, 1) (0, 0, 0) (next_tick demo_launch_rt) =
     Ret ((CL_SUCCESS, demo_dir), demo_launch_rt\<lparr>tick := 17\<rparr>)"
  using demo_launch_objects(5,7)
  by (simp add: prepare_code_def write_kernel_file_def run_work_group_script_def os_call_def with_basic_run_env next_tick_def
      demo_launch_env_def demo_kernel_def [THEN arg_cong [of _ _ k_program]] demo_device_def basic_info_def demo_dir_def)

lemma demo_wf: "a \<in> set (run_arguments demo_run) \<Longrightarrow> arg_wf a"
  by (simp add: demo_run_def arg_wf_def arg_alloc_size_def arg_alignment_def pocl_size_ceil2_def MAX_EXTENDED_ALIGNMENT_def)

lemma demo_plain_launch: "plain_args (Some 0) demo_kernel (run_arguments demo_run) demo_launch_rt"
  using demo_plain(1) plain_cong(1) [OF demo_launch_objects(4)] by blast

lemma demo_args_live: "all_live (arg_buffer_list demo_kernel (run_arguments demo_run) [0..<num_args demo_kernel]) (mems demo_launch_rt)"
  by (simp add: all_live_def arg_buffer_list_def demo_kernel_def demo_run_def le_word_def demo_launch_rt_def demo_run_rt_def demo_rt_def demo_buffer_def)

lemma demo_group_checks:
  "group_checks demo_device_9 1 (20, 1, 1) (4, 1, 1) 0 None = Ret CL_SUCCESS" "div3 (20, 1, 1) (4, 1, 1) = Ret (5, 1, 1)"
  "read_dims 1 [20] = Ret (20, 1, 1)" "read_dims 1 [4] = Ret (4, 1, 1)"
  by (simp_all add: group_checks_def div3_def read_dims_def c_nth_def demo_device_def)

lemma demo_enqueue_tick:
  "obind (clEnqueueNDRangeKernel (with_basic_run demo_launch_env lib dlsym) 3 7 1 None (Some [20]) (Some [4]) 0 None False demo_launch_rt)
     (\<lambda>(_, _, s2). Ret (tick s2)) = Ret 20"
proof -
  let ?env = "with_basic_run demo_launch_env lib dlsym"
  have checks: "launch_checks 3 7 1 demo_launch_rt = Ret CL_SUCCESS"
    using demo_launch_objects by (simp add: launch_checks_def demo_queue_def demo_kernel_def demo_device_def basic_info_def)
  have am: "all_malloc ?env" by (simp add: with_basic_run_env all_malloc_def demo_launch_env_def demo_env_def)
  have dev: "has (dev_type demo_device_9) CL_DEVICE_TYPE_CPU" by (simp add: demo_device_def has_def CL_DEVICE_TYPE_CPU_def)
  have "obind (append_launch ?env 3 7 1 (0, 0, 0) (20, 1, 1) (4, 1, 1) demo_dir False (demo_launch_rt\<lparr>tick := 17\<rparr>)) (\<lambda>(_, _, s2). Ret (tick s2)) = Ret 20"
    using am demo_launch_objects arg_block_runs [OF am, of 8]
    by (simp add: append_launch_def event_for_def demo_group_checks new_obj_runs Let_def)
       (simp add: demo_kernel_def copy_arg_def c_take_def clRetainCommandQueue_def retain_queue_def clRetainKernel_def retain_kernel_def
        POCL_RETAIN_OBJECT_def incr_def demo_queue_def next_tick_def retain_args_def new_obj_runs retain_arg_def is_buffer_arg_def
        c_nth_def buffer_of_def le_word_def clRetainMemObject_def retain_mem_def demo_run_def demo_run_rt_def demo_rt_def demo_buffer_def
        append_command_def arg_alloc_size_def arg_alignment_def pocl_size_ceil2_def MAX_EXTENDED_ALIGNMENT_def)
  then show ?thesis
    using checks am demo_launch_objects demo_group_checks demo_prepare [of lib dlsym] dev
    by (simp add: clEnqueueNDRangeKernel_def new_obj_runs next_tick_def demo_queue_def del: One_nat_def)
qed

lemma demo_fill_plain:
  "plain_groups demo_fill c (Some 0) demo_kernel (run_arguments demo_run) demo_launch_rt (x, y, z) m =
     Ret (m\<lparr>bytes := (bytes m)(0x1010 + x \<mapsto> ucast x)\<rparr>)"
  using plain_cong(2) [OF demo_launch_objects(4)]
  by (simp add: plain_groups_def plain_arg_def demo_slot demo_kernel_def demo_run_def run_group_def demo_fill_def)

lemma demo_fill_all:
  "\<exists>m'. oiter (plain_groups demo_fill c (Some 0) demo_kernel (run_arguments demo_run) demo_launch_rt) (group_ids (5, 1, 1)) m = Ret m' \<and>
     bytes m' 0x1014 = Some 4"
  by (simp add: group_ids_def upt_rec demo_fill_plain)




text \<open>An index equal to the number of arguments is not refused: with a NULL value it overwrites the
  size of the kernel's first automatic local buffer and reports success, with any other value
  the parameter flags are read past their end.\<close>

theorem set_arg_past_end:
  assumes "kernels s kern = Some k" "kern \<noteq> NULL" "kernel_typed k" "dyn_arguments k = Some args" "unat idx = num_args k" "0 < num_locals k"
    and "programs s (k_program k) = Some p" "prog_source p \<noteq> None" "arg_value (args ! num_args k) = Arg_null"
  shows "clSetKernelArg env kern idx sz None s =
      Ret (CL_SUCCESS, put_kernel kern (k\<lparr>dyn_arguments := Some (args[num_args k := \<lparr>arg_size = sz, arg_value = Arg_null\<rparr>])\<rparr>) s) \<and>
    clSetKernelArg env kern idx sz (Some bs) s = Undef"
  using assms by (auto simp: clSetKernelArg_def arg_given_def mark_local_def c_nth_def Let_def kernel_typed_def)

definition demo_local_kernel :: cl_kernel where
  "demo_local_kernel = demo_kernel\<lparr>num_locals := 1, dyn_arguments := Some [\<lparr>arg_size = 8, arg_value = Arg_bytes [4, 0, 0, 0, 0, 0, 0, 0]\<rparr>,
     \<lparr>arg_size = 64, arg_value = Arg_null\<rparr>]\<rparr>"

theorem set_arg_past_end_witness:
  "clSetKernelArg demo_env 7 1 4 None (demo_launch_rt\<lparr>kernels := [7 \<mapsto> demo_local_kernel]\<rparr>) =
     Ret (CL_SUCCESS, put_kernel 7 (demo_local_kernel\<lparr>dyn_arguments := Some [\<lparr>arg_size = 8, arg_value = Arg_bytes [4, 0, 0, 0, 0, 0, 0, 0]\<rparr>,
       \<lparr>arg_size = 4, arg_value = Arg_null\<rparr>]\<rparr>) (demo_launch_rt\<lparr>kernels := [7 \<mapsto> demo_local_kernel]\<rparr>))"
  using set_arg_past_end [of "demo_launch_rt\<lparr>kernels := [7 \<mapsto> demo_local_kernel]\<rparr>" 7 demo_local_kernel
      "[\<lparr>arg_size = 8, arg_value = Arg_bytes [4, 0, 0, 0, 0, 0, 0, 0]\<rparr>, \<lparr>arg_size = 64, arg_value = Arg_null\<rparr>]" 1 demo_program demo_env 4]
    demo_launch_objects(7)
  by (simp add: demo_local_kernel_def demo_kernel_def kernel_typed_def arg_typed_def demo_program_def)

text \<open>The limit on the size of a work-group is tested on a product that wraps around: on the basic device
  a work-group of 2 to the 64 work-items is accepted.\<close>

theorem group_size_check_wraps:
  "group_checks (POCL_DEVICES_BASIC cfg) 3 (2 ^ 22, 2 ^ 21, 2 ^ 21) (2 ^ 22, 2 ^ 21, 2 ^ 21) 0 None = Ret CL_SUCCESS \<and>
   unat (2 ^ 22 :: size_t) * unat (2 ^ 21 :: size_t) * unat (2 ^ 21 :: size_t) = 2 ^ 64 \<and>
   max_work_group_size (POCL_DEVICES_BASIC cfg) = 1024"
  by (simp add: group_checks_def POCL_DEVICES_BASIC_def CL_INT_MAX_def)

end
