(* ===== verification/Rects.thy ===== *)
theory Rects
  imports Queue
begin

text \<open>
  The rectangular buffer commands: \<open>clEnqueueReadBufferRect\<close>, \<open>clEnqueueWriteBufferRect\<close> and
  \<open>clEnqueueCopyBufferRect\<close>. They run at once, after everything queued before.
\<close>

section \<open>Argument checks\<close>

text \<open>The last byte of the box is outside of the buffer, in \<open>size\_t\<close> arithmetic.\<close>

fun rect_outside :: "size3 \<Rightarrow> size3 \<Rightarrow> size_t \<Rightarrow> size_t \<Rightarrow> size_t \<Rightarrow> bool" where
  "rect_outside (ox, oy, oz) (w, h, d) row_pitch slice_pitch sz \<longleftrightarrow>
     w * h * d > 0 \<and> ox + w - 1 + row_pitch * (oy + h - 1) + slice_pitch * (oz + d - 1) \<ge> sz"

text \<open>The loop that looks for the device of the queue in the context, and the assertion after it.\<close>

definition device_in_context :: "cl_command_queue \<Rightarrow> rt \<Rightarrow> unit outcome" where
  "device_in_context command_queue s =
     obind (deref (contexts s (q_context command_queue))) (\<lambda>c.
     c_assert (device_index c (q_device command_queue) < length (ctx_devices c)))"

section \<open>Reading and writing\<close>

definition clEnqueueReadBufferRect ::
  "env \<Rightarrow> ptr \<Rightarrow> ptr \<Rightarrow> size3 option \<Rightarrow> size3 option \<Rightarrow> size3 option \<Rightarrow> size_t \<Rightarrow> size_t \<Rightarrow> size_t \<Rightarrow> size_t \<Rightarrow>
     size_t \<Rightarrow> bool \<Rightarrow> rt \<Rightarrow> (cl_int \<times> ptr \<times> rt) outcome" where
  "clEnqueueReadBufferRect env q buffer buffer_origin host_origin region
       buffer_row_pitch buffer_slice_pitch host_row_pitch host_slice_pitch ptr want s =
     (if q = NULL then Ret (CL_INVALID_COMMAND_QUEUE, NULL, s)
      else if buffer = NULL then Ret (CL_INVALID_MEM_OBJECT, NULL, s)
      else obind (deref (queues s q)) (\<lambda>command_queue.
           obind (deref (mems s buffer)) (\<lambda>m.
           if q_context command_queue \<noteq> m_context m then Ret (CL_INVALID_CONTEXT, NULL, s)
           else if ptr = 0 then Ret (CL_INVALID_VALUE, NULL, s)
           else case (buffer_origin, host_origin, region) of
             (Some bo, Some ho, Some r) \<Rightarrow>
               if rect_outside bo r buffer_row_pitch buffer_slice_pitch (m_size m) then Ret (CL_INVALID_VALUE, NULL, s)
               else obind (device_in_context command_queue s) (\<lambda>_.
                    obind (event_for env q CL_COMMAND_READ_BUFFER want s) (\<lambda>(ev, s).
                    case ev of Inl _ \<Rightarrow> Ret (CL_OUT_OF_HOST_MEMORY, NULL, s)
                    | Inr event \<Rightarrow>
                        obind (transfer_now env q buffer 0 event
                          (\<lambda>ops dptr mem. op_read_rect ops mem ptr dptr bo ho r buffer_row_pitch buffer_slice_pitch
                             host_row_pitch host_slice_pitch) s) (\<lambda>s.
                        Ret (CL_SUCCESS, event, s))))
           | _ \<Rightarrow> Ret (CL_INVALID_VALUE, NULL, s))))"

text \<open>
  The write makes no event: \<open>event\<close> is what the caller left in \<open>*event\<close>, NULL if the pointer is NULL.
  A box that is not inside of the buffer ends the process.
\<close>

definition clEnqueueWriteBufferRect ::
  "env \<Rightarrow> ptr \<Rightarrow> ptr \<Rightarrow> size3 option \<Rightarrow> size3 option \<Rightarrow> size3 option \<Rightarrow> size_t \<Rightarrow> size_t \<Rightarrow> size_t \<Rightarrow> size_t \<Rightarrow>
     size_t \<Rightarrow> ptr \<Rightarrow> rt \<Rightarrow> (cl_int \<times> rt) outcome" where
  "clEnqueueWriteBufferRect env q buffer buffer_origin host_origin region
       buffer_row_pitch buffer_slice_pitch host_row_pitch host_slice_pitch ptr event s =
     (if q = NULL then Ret (CL_INVALID_COMMAND_QUEUE, s)
      else if buffer = NULL then Ret (CL_INVALID_MEM_OBJECT, s)
      else obind (deref (queues s q)) (\<lambda>command_queue.
           obind (deref (mems s buffer)) (\<lambda>m.
           if q_context command_queue \<noteq> m_context m then Ret (CL_INVALID_CONTEXT, s)
           else if ptr = 0 then Ret (CL_INVALID_VALUE, s)
           else case (buffer_origin, host_origin, region) of
             (Some bo, Some ho, Some r) \<Rightarrow>
               if rect_outside bo r buffer_row_pitch buffer_slice_pitch (m_size m) then Abort
               else obind (device_in_context command_queue s) (\<lambda>_.
                    obind (transfer_now env q buffer 0 event
                      (\<lambda>ops dptr mem. op_write_rect ops mem ptr dptr bo ho r buffer_row_pitch buffer_slice_pitch
                         host_row_pitch host_slice_pitch) s) (\<lambda>s.
                    Ret (CL_SUCCESS, s)))
           | _ \<Rightarrow> Ret (CL_INVALID_VALUE, s))))"

section \<open>Copying\<close>

text \<open>The part of the copy after the checks.\<close>

definition copy_rect_now ::
  "env \<Rightarrow> ptr \<Rightarrow> ptr \<Rightarrow> ptr \<Rightarrow> ptr \<Rightarrow> (driver_ops \<Rightarrow> size_t \<Rightarrow> size_t \<Rightarrow> memory \<Rightarrow> memory outcome) \<Rightarrow> rt \<Rightarrow> rt outcome" where
  "copy_rect_now env q src_buffer dst_buffer event f s =
     obind (deref (queues s q)) (\<lambda>command_queue.
     if has (q_properties command_queue) CL_QUEUE_OUT_OF_ORDER_EXEC_MODE_ENABLE then Abort
     else obind (clRetainMemObject src_buffer s) (\<lambda>(_, s).
          obind (clRetainMemObject dst_buffer s) (\<lambda>(_, s).
          obind (clFinish env q s) (\<lambda>(_, s).
          obind (POCL_UPDATE_EVENT_SUBMITTED env q event s) (\<lambda>s.
          obind (POCL_UPDATE_EVENT_RUNNING env q event s) (\<lambda>s.
          obind (deref (devices s (q_device command_queue))) (\<lambda>dev.
          obind (deref (mems s src_buffer)) (\<lambda>sm.
          obind (c_nth (device_ptrs sm) (dev_id dev)) (\<lambda>sp.
          obind (deref (mems s dst_buffer)) (\<lambda>dm.
          obind (c_nth (device_ptrs dm) (dev_id dev)) (\<lambda>dp.
          obind (on_ram (f (driver env (q_device command_queue)) sp dp) s) (\<lambda>s.
          obind (POCL_UPDATE_EVENT_COMPLETE env q event s) (\<lambda>s.
          obind (release_buffer env src_buffer s) (release_buffer env dst_buffer))))))))))))))"

definition clEnqueueCopyBufferRect ::
  "env \<Rightarrow> ptr \<Rightarrow> ptr \<Rightarrow> ptr \<Rightarrow> size3 option \<Rightarrow> size3 option \<Rightarrow> size3 option \<Rightarrow> size_t \<Rightarrow> size_t \<Rightarrow> size_t \<Rightarrow> size_t \<Rightarrow>
     bool \<Rightarrow> rt \<Rightarrow> (cl_int \<times> ptr \<times> rt) outcome" where
  "clEnqueueCopyBufferRect env q src_buffer dst_buffer src_origin dst_origin region
       src_row_pitch src_slice_pitch dst_row_pitch dst_slice_pitch want s =
     (if q = NULL then Ret (CL_INVALID_COMMAND_QUEUE, NULL, s)
      else if src_buffer = NULL \<or> dst_buffer = NULL then Ret (CL_INVALID_MEM_OBJECT, NULL, s)
      else obind (deref (queues s q)) (\<lambda>command_queue.
           obind (deref (mems s src_buffer)) (\<lambda>sm.
           obind (deref (mems s dst_buffer)) (\<lambda>dm.
           if q_context command_queue \<noteq> m_context sm \<or> q_context command_queue \<noteq> m_context dm
           then Ret (CL_INVALID_CONTEXT, NULL, s)
           else case (src_origin, dst_origin, region) of
             (Some so, Some d_o, Some r) \<Rightarrow>
               if rect_outside so r src_row_pitch src_slice_pitch (m_size sm) then Ret (CL_INVALID_VALUE, NULL, s)
               else if rect_outside d_o r dst_row_pitch dst_slice_pitch (m_size dm) then Ret (CL_INVALID_VALUE, NULL, s)
               else obind (device_in_context command_queue s) (\<lambda>_.
                    obind (event_for env q CL_COMMAND_COPY_BUFFER want s) (\<lambda>(ev, s).
                    case ev of Inl _ \<Rightarrow> Ret (CL_OUT_OF_HOST_MEMORY, NULL, s)
                    | Inr event \<Rightarrow>
                        obind (copy_rect_now env q src_buffer dst_buffer event
                          (\<lambda>ops sp dp mem. op_copy_rect ops mem sp dp so d_o r src_row_pitch src_slice_pitch
                             dst_row_pitch dst_slice_pitch) s) (\<lambda>s.
                        Ret (CL_SUCCESS, event, s))))
           | _ \<Rightarrow> Ret (CL_INVALID_VALUE, NULL, s)))))"

end
