(* ===== verification/Rect_Claims.thy ===== *)
theory Rect_Claims
  imports Rects Queue_Claims
begin

text \<open>
  Properties of the rectangular buffer commands: a box written by the host is read back, an accepted
  box without an origin in z lies inside of the buffer, and one with such an origin may not.
\<close>

section \<open>Running a rectangular command\<close>

text \<open>A queue whose commands can run and a live buffer of its context on a driver with rectangular
  transfers.\<close>

definition rect_ready :: "env \<Rightarrow> ptr \<Rightarrow> ptr \<Rightarrow> cl_command_queue \<Rightarrow> device \<Rightarrow> cl_mem \<Rightarrow> rt \<Rightarrow> bool" where
  "rect_ready env q b cq dev m s \<longleftrightarrow>
     drainable env q s \<and> rect_driver (driver env (q_device cq)) \<and> q \<noteq> NULL \<and> b \<noteq> NULL \<and>
     queues s q = Some cq \<and> devices s (q_device cq) = Some dev \<and> mems s b = Some m \<and> m_context m = q_context cq \<and>
     0 < m_refcount m \<and> m_refcount m < 2 ^ 31 - 1 \<and> dev_id dev < length (device_ptrs m) \<and> device_in_context cq s = Ret ()"

text \<open>Two boxes of the same extent that can be copied row by row.\<close>

fun copyable :: "memory \<Rightarrow> size_t \<Rightarrow> size_t \<Rightarrow> size_t \<Rightarrow> size_t \<Rightarrow> size_t \<Rightarrow> size_t \<Rightarrow> size3 \<Rightarrow> bool" where
  "copyable m dst dr ds src sr ss (w, h, d) \<longleftrightarrow>
     box_ok dst dr ds (w, h, d) \<and> box_ok src sr ss (w, h, d) \<and> 0 < unat w \<and>
     mapped m dst (unat ds * unat d) \<and> mapped m src (unat ss * unat d) \<and>
     apart dst (unat ds * unat d) src (unat ss * unat d)"

lemma copyable_cong: "(\<And>p k. mapped r p k = mapped m p k) \<Longrightarrow> copyable r dst dr ds src sr ss reg = copyable m dst dr ds src sr ss reg"
  by (cases reg) simp

lemma copyable_runs:
  assumes "copyable m dst dr ds src sr ss (w, h, d)"
  shows "\<exists>m'. copy_rows w (rect_rows (w, h, d) dst dr ds src sr ss) m = Ret m' \<and>
    (\<forall>k < unat d. \<forall>j < unat h. \<forall>i < unat w.
       bytes m' (row_at dst dr ds j k + of_nat i) = bytes m (row_at src sr ss j k + of_nat i)) \<and>
    (\<forall>p k. mapped m' p k = mapped m p k)"
proof -
  have "box_ok dst dr ds (w, h, d)" "box_ok src sr ss (w, h, d)" "0 < unat w" "mapped m dst (unat ds * unat d)"
    "mapped m src (unat ss * unat d)" "apart dst (unat ds * unat d) src (unat ss * unat d)"
    using assms by auto
  from rect_copy_spec [OF this] obtain m' where m': "copy_rows w (rect_rows (w, h, d) dst dr ds src sr ss) m = Ret m'"
    "\<forall>k < unat d. \<forall>j < unat h. \<forall>i < unat w.
       bytes m' (row_at dst dr ds j k + of_nat i) = bytes m (row_at src sr ss j k + of_nat i)"
    by blast
  have "mapped m' p k = mapped m p k" for p k
    by (rule mapped_cong) (use copy_rows_shape [OF m'(1)] in blast)
  with m' show ?thesis by blast
qed

lemma rect_call:
  assumes rdy: "rect_ready env q b cq dev m s"
    and f: "\<And>r. (\<And>p k. mapped r p k = mapped (ram s) p k) \<Longrightarrow>
        \<exists>r'. f (driver env (q_device cq)) (device_ptrs m ! dev_id dev) r = Ret r'"
  shows "\<exists>s'. transfer_now env q b 0 NULL f s = Ret s' \<and>
    transferred (driver env (q_device cq)) (f (driver env (q_device cq)) (device_ptrs m ! dev_id dev)) q cq NULL s s'"
proof -
  have "event_live NULL s" by (simp add: event_live_def)
  moreover have "drainable env q s" "queues s q = Some cq" "devices s (q_device cq) = Some dev" "mems s b = Some m"
    "b \<noteq> NULL" "0 < m_refcount m" "m_refcount m < 2 ^ 31 - 1" "dev_id dev < length (device_ptrs m)"
    using rdy by (auto simp: rect_ready_def)
  ultimately show ?thesis using transfer_now_runs [of env q s cq dev b m NULL f 0] f by simp
qed

text \<open>The queue is idle after a command, and its buffer has kept the reference of the caller.\<close>

lemma rect_ready_again:
  assumes rdy: "rect_ready env q b cq dev m s" and tr: "transferred (driver env (q_device cq)) f q cq NULL s s'"
  shows "\<exists>m'. rect_ready env q b (cq\<lparr>root := []\<rparr>) dev m' s' \<and> m_size m' = m_size m \<and> device_ptrs m' = device_ptrs m"
proof -
  let ?cs = "map cmd (root cq)"
  let ?m = "m\<lparr>m_refcount := m_refcount m - int (refs ?cs b), map_count := map_count m + of_nat (maps_of ?cs b)\<rparr>"
  have o: "drainable env q s" "queues s q = Some cq" "mems s b = Some m" "0 < m_refcount m"
    using rdy by (auto simp: rect_ready_def)
  have "int (refs ?cs b) < m_refcount m" by (rule refs_below [OF o])
  moreover have s': "queues s' q = Some (cq\<lparr>root := []\<rparr>)" "devices s' = devices s" "contexts s' = contexts s" "mems s' b = Some ?m"
    using tr settle_Some [where st = "mems s", OF o(3)] by (simp_all add: transferred_def)
  moreover have "drainable env q s'" using o s' by (auto simp: drainable_def refs_kept_def)
  ultimately have "rect_ready env q b (cq\<lparr>root := []\<rparr>) dev ?m s'"
    using rdy by (auto simp: rect_ready_def device_in_context_def)
  then show ?thesis by (intro exI [of _ ?m]) simp
qed

lemma write_rect_runs:
  assumes rdy: "rect_ready env q b cq dev m s" and h: "h \<noteq> 0" and ins: "\<not> rect_outside bo (w, ht, d) br bs (m_size m)"
    and box: "copyable (ram s) (adjusted_ptr (device_ptrs m ! dev_id dev) bo br bs) br bs (adjusted_ptr h ho hr hs) hr hs (w, ht, d)"
  shows "\<exists>s'. clEnqueueWriteBufferRect env q b (Some bo) (Some ho) (Some (w, ht, d)) br bs hr hs h NULL s = Ret (CL_SUCCESS, s') \<and>
    transferred (driver env (q_device cq))
      (copy_rows w (rect_rows (w, ht, d) (adjusted_ptr (device_ptrs m ! dev_id dev) bo br bs) br bs (adjusted_ptr h ho hr hs) hr hs))
      q cq NULL s s'"
proof -
  have d: "rect_driver (driver env (q_device cq))" using rdy by (simp add: rect_ready_def)
  note law = rect_driver.write_rect_law [OF d, where region = "(w, ht, d)", unfolded fst_conv]
  let ?f = "\<lambda>ops dptr mem. op_write_rect ops mem h dptr bo ho (w, ht, d) br bs hr hs"
  have "\<exists>r'. ?f (driver env (q_device cq)) (device_ptrs m ! dev_id dev) r = Ret r'"
    if "\<And>p k. mapped r p k = mapped (ram s) p k" for r
    using copyable_runs [OF box [folded copyable_cong [OF that]]] unfolding law by blast
  from rect_call [where f = ?f, OF rdy this] obtain s' where s': "transfer_now env q b 0 NULL ?f s = Ret s'"
    "transferred (driver env (q_device cq)) (?f (driver env (q_device cq)) (device_ptrs m ! dev_id dev)) q cq NULL s s'"
    by blast
  have "clEnqueueWriteBufferRect env q b (Some bo) (Some ho) (Some (w, ht, d)) br bs hr hs h NULL s = Ret (CL_SUCCESS, s')"
    using rdy h ins s'(1) by (simp add: clEnqueueWriteBufferRect_def rect_ready_def del: rect_outside.simps)
  then show ?thesis using s'(2) unfolding law by blast
qed

lemma read_rect_runs:
  assumes rdy: "rect_ready env q b cq dev m s" and h: "h \<noteq> 0" and ins: "\<not> rect_outside bo (w, ht, d) br bs (m_size m)"
    and box: "copyable (ram s) (adjusted_ptr h ho hr hs) hr hs (adjusted_ptr (device_ptrs m ! dev_id dev) bo br bs) br bs (w, ht, d)"
  shows "\<exists>s'. clEnqueueReadBufferRect env q b (Some bo) (Some ho) (Some (w, ht, d)) br bs hr hs h False s = Ret (CL_SUCCESS, NULL, s') \<and>
    transferred (driver env (q_device cq))
      (copy_rows w (rect_rows (w, ht, d) (adjusted_ptr h ho hr hs) hr hs (adjusted_ptr (device_ptrs m ! dev_id dev) bo br bs) br bs))
      q cq NULL s s'"
proof -
  have d: "rect_driver (driver env (q_device cq))" using rdy by (simp add: rect_ready_def)
  note law = rect_driver.read_rect_law [OF d, where region = "(w, ht, d)", unfolded fst_conv]
  let ?f = "\<lambda>ops dptr mem. op_read_rect ops mem h dptr bo ho (w, ht, d) br bs hr hs"
  have "\<exists>r'. ?f (driver env (q_device cq)) (device_ptrs m ! dev_id dev) r = Ret r'"
    if "\<And>p k. mapped r p k = mapped (ram s) p k" for r
    using copyable_runs [OF box [folded copyable_cong [OF that]]] unfolding law by blast
  from rect_call [where f = ?f, OF rdy this] obtain s' where s': "transfer_now env q b 0 NULL ?f s = Ret s'"
    "transferred (driver env (q_device cq)) (?f (driver env (q_device cq)) (device_ptrs m ! dev_id dev)) q cq NULL s s'"
    by blast
  have "clEnqueueReadBufferRect env q b (Some bo) (Some ho) (Some (w, ht, d)) br bs hr hs h False s = Ret (CL_SUCCESS, NULL, s')"
    using rdy h ins s'(1) by (simp add: clEnqueueReadBufferRect_def rect_ready_def event_for_def del: rect_outside.simps)
  then show ?thesis using s'(2) unfolding law by blast
qed

section \<open>Where an accepted box is\<close>

lemma unat_sum_of: "x = of_nat n \<Longrightarrow> n < 2 ^ 64 \<Longrightarrow> unat (x :: size_t) = n"
  by (simp add: unat_of_nat take_bit_nat_eq_self)

text \<open>The last byte of a box, when nothing wraps around.\<close>

lemma last_byte:
  fixes ox oy oz w h d row sl :: size_t
  assumes "0 < unat w" "0 < unat h" "0 < unat d"
    and "unat ox + unat w + unat row * (unat oy + unat h) + unat sl * (unat oz + unat d) < 2 ^ 64"
  shows "unat (ox + w - 1 + row * (oy + h - 1) + sl * (oz + d - 1)) =
    unat ox + unat w - 1 + unat row * (unat oy + unat h - 1) + unat sl * (unat oz + unat d - 1)"
proof (rule unat_sum_of)
  show "ox + w - 1 + row * (oy + h - 1) + sl * (oz + d - 1) =
    of_nat (unat ox + unat w - 1 + unat row * (unat oy + unat h - 1) + unat sl * (unat oz + unat d - 1))"
    using assms(1-3) by (simp add: of_nat_diff)
  have "unat row * (unat oy + unat h - 1) \<le> unat row * (unat oy + unat h)"
    "unat sl * (unat oz + unat d - 1) \<le> unat sl * (unat oz + unat d)" by (simp_all add: mult_le_mono2)
  then show "unat ox + unat w - 1 + unat row * (unat oy + unat h - 1) + unat sl * (unat oz + unat d - 1) < 2 ^ 64"
    using assms(4) by linarith
qed

lemma accepted_size:
  fixes ox oy oz w h d row sl :: size_t
  assumes acc: "\<not> rect_outside (ox, oy, oz) (w, h, d) row sl sz"
    and pos: "0 < unat w" "0 < unat h" "0 < unat d" and vol: "unat w * unat h * unat d < 2 ^ 64"
    and fit: "unat ox + unat w + unat row * (unat oy + unat h) + unat sl * (unat oz + unat d) < 2 ^ 64"
  shows "unat ox + unat w + unat row * (unat oy + unat h - 1) + unat sl * (unat oz + unat d - 1) \<le> unat sz"
proof -
  have "unat (w * h * d) = unat w * unat h * unat d" using vol by (intro unat_sum_of) simp_all
  moreover have "0 < unat w * unat h * unat d" using pos by simp
  ultimately have "0 < w * h * d" by (simp only: word_less_nat_alt unat_0)
  then have "ox + w - 1 + row * (oy + h - 1) + sl * (oz + d - 1) < sz" using acc by (simp add: not_le)
  then have "unat ox + unat w - 1 + unat row * (unat oy + unat h - 1) + unat sl * (unat oz + unat d - 1) < unat sz"
    unfolding word_less_nat_alt last_byte [OF pos fit] .
  then show ?thesis using pos by linarith
qed

section \<open>Properties\<close>

text \<open>C32. The rows of an accepted box lie inside of the buffer: when the origin has no z component and no
  product or sum of the request wraps around, every row the driver transfers for a request that passes
  the check of the runtime starts and ends between the first and the last byte of the buffer.\<close>

theorem accepted_rect_in_buffer:
  fixes ox oy w h d row sl sz p :: size_t
  assumes acc: "\<not> rect_outside (ox, oy, 0) (w, h, d) row sl sz"
    and pos: "0 < unat w" "0 < unat h" "0 < unat d" and vol: "unat w * unat h * unat d < 2 ^ 64"
    and fit: "unat ox + unat w + unat row * (unat oy + unat h) + unat sl * unat d < 2 ^ 64"
    and buf: "unat p + unat sz \<le> 2 ^ 64"
    and r: "(host_row, buffer_row) \<in> set (rect_rows (w, h, d) host hr hs (adjusted_ptr p (ox, oy, 0) row sl) row sl)"
  shows "unat p \<le> unat buffer_row \<and> unat buffer_row + unat w \<le> unat p + unat sz"
proof -
  obtain j k where jk: "j < unat h" "k < unat d" "buffer_row = row_at (adjusted_ptr p (ox, oy, 0) row sl) row sl j k"
    using r unfolding rect_rows_product by auto
  have sz: "unat ox + unat w + unat row * (unat oy + unat h - 1) + unat sl * (unat d - 1) \<le> unat sz"
    using accepted_size [OF acc pos vol] fit by simp
  have "unat row * (unat oy + j) \<le> unat row * (unat oy + unat h - 1)" "unat sl * k \<le> unat sl * (unat d - 1)"
    using jk(1,2) by (auto intro!: mult_le_mono2)
  then have le: "unat ox + unat row * (unat oy + j) + unat sl * k + unat w \<le> unat sz" using sz by linarith
  have "buffer_row = of_nat (unat p + (unat ox + unat row * (unat oy + j) + unat sl * k))"
    by (simp add: jk(3) row_at_def algebra_simps)
  then have "unat buffer_row = unat p + (unat ox + unat row * (unat oy + j) + unat sl * k)"
    by (rule unat_sum_of) (use le pos buf in linarith)
  then show ?thesis using le by linarith
qed

theorem accepted_rect_in_buffer_witness:
  "\<not> rect_outside (1, 1, 0) (2, 2, 1) 4 8 16 \<and> unat (0x1019 :: size_t) + unat (2 :: size_t) \<le> unat (0x1010 :: size_t) + unat (16 :: size_t)"
  using accepted_rect_in_buffer [where ox = 1 and oy = 1 and w = 2 and h = 2 and d = 1 and row = 4 and sl = 8 and sz = 16
      and p = "0x1010" and host_row = "0x1004" and buffer_row = "0x1019" and host = "0x1000" and hr = 4 and hs = 8]
  by (simp add: upt_rec)

text \<open>C30. A box the host writes with \<open>clEnqueueWriteBufferRect\<close> is what \<open>clEnqueueReadBufferRect\<close> reads back, when the rows
  of the boxes do not overlap: every row pitch is at least the width of the box and every slice pitch at least the
  row pitch times its height, and the host boxes are mapped and apart from the buffer. Both calls return success, and
  every row of the second host box holds the bytes the row of the first one held when the commands queued before had run.
  The pitches of the two host boxes may differ.\<close>

theorem rect_write_read:
  assumes rdy: "rect_ready env q b cq dev m s" and h: "h \<noteq> 0" "h' \<noteq> 0"
    and ins: "\<not> rect_outside bo (w, ht, d) br bs (m_size m)"
    and dst: "dst = adjusted_ptr (device_ptrs m ! dev_id dev) bo br bs"
    and box: "copyable (ram s) dst br bs (adjusted_ptr h ho hr hs) hr hs (w, ht, d)"
      "copyable (ram s) (adjusted_ptr h' ho' hr' hs') hr' hs' dst br bs (w, ht, d)"
  shows "\<exists>s1 s2 r.
    clEnqueueWriteBufferRect env q b (Some bo) (Some ho) (Some (w, ht, d)) br bs hr hs h NULL s = Ret (CL_SUCCESS, s1) \<and>
    clEnqueueReadBufferRect env q b (Some bo) (Some ho') (Some (w, ht, d)) br bs hr' hs' h' False s1 = Ret (CL_SUCCESS, NULL, s2) \<and>
    exec_mem (driver env (q_device cq)) (map cmd (root cq)) (ram s) = Ret r \<and>
    (\<forall>k < unat d. \<forall>j < unat ht. \<forall>i < unat w.
       bytes (ram s2) (row_at (adjusted_ptr h' ho' hr' hs') hr' hs' j k + of_nat i) =
       bytes r (row_at (adjusted_ptr h ho hr hs) hr hs j k + of_nat i))"
proof -
  let ?src = "adjusted_ptr h ho hr hs" and ?dst' = "adjusted_ptr h' ho' hr' hs'" and ?ops = "driver env (q_device cq)"
  obtain s1 where s1: "clEnqueueWriteBufferRect env q b (Some bo) (Some ho) (Some (w, ht, d)) br bs hr hs h NULL s = Ret (CL_SUCCESS, s1)"
    "transferred ?ops (copy_rows w (rect_rows (w, ht, d) dst br bs ?src hr hs)) q cq NULL s s1"
    using write_rect_runs [OF rdy h(1) ins, where ho = ho and hr = hr and hs = hs] box(1) dst by blast
  have o: "drainable env q s" "queues s q = Some cq" using rdy by (auto simp: rect_ready_def)
  obtain t where "all_executed ?ops (root cq) s t" using clFinish_drains [OF o] by blast
  then have r: "exec_mem ?ops (map cmd (root cq)) (ram s) = Ret (ram t)" "\<And>p k. mapped (ram t) p k = mapped (ram s) p k"
    by (simp_all add: all_executed_def)
  have c1: "copy_rows w (rect_rows (w, ht, d) dst br bs ?src hr hs) (ram t) = Ret (ram s1)"
    using s1(2) r(1) by (auto simp: transferred_def)
  with copyable_runs [OF box(1) [folded copyable_cong [OF r(2)]]]
  have b1: "\<forall>k < unat d. \<forall>j < unat ht. \<forall>i < unat w.
      bytes (ram s1) (row_at dst br bs j k + of_nat i) = bytes (ram t) (row_at ?src hr hs j k + of_nat i)"
    and m1: "\<And>p k. mapped (ram s1) p k = mapped (ram s) p k"
    using r(2) by auto
  obtain m' where m': "rect_ready env q b (cq\<lparr>root := []\<rparr>) dev m' s1" "m_size m' = m_size m" "device_ptrs m' = device_ptrs m"
    using rect_ready_again [OF rdy s1(2)] by blast
  note box2 = box(2) [folded copyable_cong [OF m1]]
  obtain s2 where s2: "clEnqueueReadBufferRect env q b (Some bo) (Some ho') (Some (w, ht, d)) br bs hr' hs' h' False s1 = Ret (CL_SUCCESS, NULL, s2)"
    "transferred ?ops (copy_rows w (rect_rows (w, ht, d) ?dst' hr' hs' dst br bs)) q (cq\<lparr>root := []\<rparr>) NULL s1 s2"
    using read_rect_runs [OF m'(1) h(2), where bo = bo and w = w and ht = ht and d = d and br = br and bs = bs and ho = ho' and hr = hr' and hs = hs']
      ins box2
    by (simp add: m'(2,3) dst del: copyable.simps rect_outside.simps rect_rows.simps) blast
  have "copy_rows w (rect_rows (w, ht, d) ?dst' hr' hs' dst br bs) (ram s1) = Ret (ram s2)"
    using s2(2) by (auto simp: transferred_def)
  with copyable_runs [OF box2] b1 have "\<forall>k < unat d. \<forall>j < unat ht. \<forall>i < unat w.
      bytes (ram s2) (row_at ?dst' hr' hs' j k + of_nat i) = bytes (ram t) (row_at ?src hr hs j k + of_nat i)"
    by auto
  with s1(1) s2(1) r(1) show ?thesis by blast
qed

lemma demo_rect_ready: "rect_ready demo_env 3 4 demo_queue demo_device demo_buffer demo_rt"
  using demo_drainable demo_objects basic_rect.rect_driver_axioms
  by (simp add: rect_ready_def device_in_context_def) (simp add: demo_rt_def demo_queue_def demo_buffer_def device_index_def)

lemma demo_copyable:
  "copyable demo_memory 0x1010 4 8 0x1000 4 8 (2, 2, 1)" "copyable demo_memory 0x1020 8 16 0x1010 4 8 (2, 2, 1)"
  by (auto simp: mapped_def demo_memory_def in_range_def upt_rec intro!: apart_linear_code)

theorem rect_write_read_witness:
  "\<exists>s1 s2. clEnqueueWriteBufferRect demo_env 3 4 (Some (0, 0, 0)) (Some (0, 0, 0)) (Some (2, 2, 1)) 4 8 4 8 0x1000 NULL demo_rt = Ret (CL_SUCCESS, s1) \<and>
     clEnqueueReadBufferRect demo_env 3 4 (Some (0, 0, 0)) (Some (0, 0, 0)) (Some (2, 2, 1)) 4 8 8 16 0x1020 False s1 = Ret (CL_SUCCESS, NULL, s2) \<and>
     bytes (ram s2) 0x1029 = Some 5"
proof -
  have mem: "bytes r 0x1005 = Some 5" if "exec_mem (basic_ops demo_library) (map cmd (root demo_queue)) demo_memory = Ret r" for r
    using that by (auto simp: demo_queue_def basic_ops_def pocl_basic_write_def memcpy_Ret_iff outcome_simps copy_bytes_def
        demo_memory_def in_range_def)
  have ins: "\<not> rect_outside (0, 0, 0) (2, 2, 1) 4 8 (m_size demo_buffer)" by (simp add: demo_buffer_def)
  obtain s1 s2 r where s: "clEnqueueWriteBufferRect demo_env 3 4 (Some (0, 0, 0)) (Some (0, 0, 0)) (Some (2, 2, 1)) 4 8 4 8 0x1000 NULL demo_rt = Ret (CL_SUCCESS, s1)"
     "clEnqueueReadBufferRect demo_env 3 4 (Some (0, 0, 0)) (Some (0, 0, 0)) (Some (2, 2, 1)) 4 8 8 16 0x1020 False s1 = Ret (CL_SUCCESS, NULL, s2)"
     "exec_mem (driver demo_env (q_device demo_queue)) (map cmd (root demo_queue)) (ram demo_rt) = Ret r"
     "\<forall>k < unat (1 :: size_t). \<forall>j < unat (2 :: size_t). \<forall>i < unat (2 :: size_t).
       bytes (ram s2) (row_at (adjusted_ptr 0x1020 (0, 0, 0) 8 16) 8 16 j k + of_nat i) =
       bytes r (row_at (adjusted_ptr 0x1000 (0, 0, 0) 4 8) 4 8 j k + of_nat i)"
    using rect_write_read [OF demo_rect_ready _ _ ins refl, where h = "0x1000" and h' = "0x1020" and ho = "(0, 0, 0)" and ho' = "(0, 0, 0)"
        and hr = 4 and hs = 8 and hr' = 8 and hs' = 16] demo_copyable
    by (auto simp: demo_objects simp del: copyable.simps)
  from s(4) [rule_format, of 0 1 1] have "bytes (ram s2) 0x1029 = bytes r 0x1005" by (simp add: row_at_def)
  then show ?thesis using s(1-3) mem by (simp add: demo_objects)
qed

text \<open>An origin in z leaves the buffer: the check of the runtime counts a slice as the slice pitch, the
  drivers count it as the slice pitch times the row pitch. A read of one byte at the second slice of
  a buffer of 16 bytes with pitches of 8 bytes passes the check, and the driver reads 64 bytes behind the
  start of the buffer, where nothing is mapped.\<close>

theorem rect_slice_origin_escapes:
  "\<not> rect_outside (0, 0, 1) (1, 1, 1) 8 8 (m_size demo_buffer) \<and>
   rect_rows (1, 1, 1) 0x1000 1 1 (adjusted_ptr 0x1010 (0, 0, 1) 8 8) 8 8 = [(0x1000, 0x1010 + 64)] \<and>
   clEnqueueReadBufferRect demo_env 3 4 (Some (0, 0, 1)) (Some (0, 0, 0)) (Some (1, 1, 1)) 8 8 1 1 0x1000 False demo_idle = Undef"
proof -
  have ins: "\<not> rect_outside (0, 0, 1) (1, 1, 1) 8 8 (m_size demo_buffer)" by (simp add: demo_buffer_def)
  have rows: "rect_rows (1, 1, 1) 0x1000 1 1 (adjusted_ptr 0x1010 (0, 0, 1) 8 8) 8 8 = [(0x1000, 0x1010 + 64)]" by (simp add: upt_rec)
  have "clEnqueueReadBufferRect demo_env 3 4 (Some (0, 0, 1)) (Some (0, 0, 0)) (Some (1, 1, 1)) 8 8 1 1 0x1000 False demo_idle = Undef"
    by (simp add: clEnqueueReadBufferRect_def device_in_context_def device_index_def event_for_def transfer_now_def clRetainMemObject_def
        retain_mem_def POCL_RETAIN_OBJECT_def incr_def clFinish_def has_def POCL_UPDATE_EVENT_SUBMITTED_def POCL_UPDATE_EVENT_RUNNING_def
        update_event_def on_ram_def c_nth_def demo_defs basic_ops_def pocl_basic_read_rect_def copy_rows_def memcpy_def mapped_def
        demo_memory_def in_range_def upt_rec)
  with ins rows show ?thesis by blast
qed

end
