(* ===== verification/Images.thy ===== *)
theory Images
  imports Creation Rects
begin

text \<open>
  Images and samplers: the formats a context supports (\<open>clGetSupportedImageFormats\<close>), the helpers of
  \<open>pocl\_image\_util.c\<close>, \<open>clCreateImage\<close> and \<open>clCreateImage2D\<close>, \<open>clEnqueueReadImage\<close>, \<open>clEnqueueWriteImage\<close>,
  \<open>clEnqueueCopyBufferToImage\<close> and the samplers. What the HSA library does with an image of its own is a
  parameter.
\<close>

section \<open>Supported formats\<close>

fun pocl_find_img_format :: "cl_image_format \<Rightarrow> cl_image_format list \<Rightarrow> bool" where
  "pocl_find_img_format toFind [] = False"
| "pocl_find_img_format toFind (f # fs) =
     (if fmt_order toFind = fmt_order f \<and> fmt_type toFind = fmt_type f then True
      else pocl_find_img_format toFind fs)"

text \<open>The loop over the devices: the tables of all of them, or the result of the early exit and what it
  stores as the number of formats.\<close>

fun device_formats ::
  "env \<Rightarrow> cl_bitfield \<Rightarrow> cl_image_format list list \<Rightarrow> ptr option list \<Rightarrow> rt \<Rightarrow>
     ((cl_int \<times> nat option) + cl_image_format list list) outcome" where
  "device_formats env flags tables [] s = Ret (Inr tables)"
| "device_formats env flags tables (d # ds) s =
     obind (deref d) (\<lambda>device.
     obind (deref (devices s device)) (\<lambda>dev.
     case op_get_supported_image_formats (driver env device) flags of (errcode, fs) \<Rightarrow>
     if errcode \<noteq> CL_SUCCESS then Ret (Inl (errcode, None))
     else if fs = [] then Ret (Inl (errcode, Some 0))
     else device_formats env flags (tables @ [fs]) ds s))"

text \<open>The loop over the other devices, which ends at the first that does not have the format.\<close>

fun in_all_tables :: "cl_image_format \<Rightarrow> cl_image_format list list \<Rightarrow> bool" where
  "in_all_tables reff [] = True"
| "in_all_tables reff (fs # tables) = (if pocl_find_img_format reff fs then in_all_tables reff tables else False)"

text \<open>
  The loop over the formats of the first device. The caller's array is \<open>None\<close> if the pointer is NULL; an
  entry that is not set is \<open>None\<close>. An entry is stored while \<open>formatCount <= num\_entries\<close>.
\<close>

fun store_formats ::
  "nat \<Rightarrow> cl_image_format list list \<Rightarrow> cl_image_format list \<Rightarrow> nat \<Rightarrow> cl_image_format option list option \<Rightarrow>
     (nat \<times> cl_image_format option list option) outcome" where
  "store_formats num_entries others [] formatCount image_formats = Ret (formatCount, image_formats)"
| "store_formats num_entries others (reff # fs) formatCount image_formats =
     (if in_all_tables reff others
      then (case image_formats of
              Some arr \<Rightarrow>
                if formatCount \<le> num_entries
                then if formatCount < length arr
                     then store_formats num_entries others fs (Suc formatCount) (Some (arr[formatCount := Some reff]))
                     else Undef
                else store_formats num_entries others fs (Suc formatCount) image_formats
            | None \<Rightarrow> store_formats num_entries others fs (Suc formatCount) None)
      else store_formats num_entries others fs formatCount image_formats)"

text \<open>The result is the error code, the array, what is stored as the number of formats and the state.\<close>

definition clGetSupportedImageFormats ::
  "env \<Rightarrow> ptr \<Rightarrow> cl_bitfield \<Rightarrow> cl_uint \<Rightarrow> nat \<Rightarrow> cl_image_format option list option \<Rightarrow> rt \<Rightarrow>
     (cl_int \<times> cl_image_format option list option \<times> nat option \<times> rt) outcome" where
  "clGetSupportedImageFormats env context flags image_type num_entries image_formats s =
     (if context = NULL then Ret (CL_INVALID_CONTEXT, image_formats, None, s)
      else obind (deref (contexts s context)) (\<lambda>c.
      if ctx_devices c = [] then Ret (CL_INVALID_CONTEXT, image_formats, None, s)
      else if num_entries = 0 \<and> image_formats \<noteq> None then Ret (CL_INVALID_VALUE, image_formats, None, s)
      else case new_obj env s of (dev_image_formats, s) \<Rightarrow>
      case new_obj env s of (dev_num_image_formats, s) \<Rightarrow>
      if dev_image_formats = NULL \<or> dev_num_image_formats = NULL
      then Ret (CL_OUT_OF_HOST_MEMORY, image_formats, None, s)
      else obind (device_formats env flags [] (ctx_devices c) s) (\<lambda>res.
      case res of
        Inl (errcode, n) \<Rightarrow> Ret (errcode, image_formats, n, s)
      | Inr tables \<Rightarrow>
          obind (store_formats num_entries (tl tables) (hd tables) 0 image_formats) (\<lambda>(formatCount, arr).
          Ret (CL_SUCCESS, arr, Some formatCount, s)))))"

section \<open>Image utilities\<close>

definition CL_MEM_OBJECT_IMAGE2D :: cl_uint where "CL_MEM_OBJECT_IMAGE2D = 0x10F1"
definition CL_MEM_OBJECT_IMAGE3D :: cl_uint where "CL_MEM_OBJECT_IMAGE3D = 0x10F2"
definition CL_MEM_OBJECT_IMAGE2D_ARRAY :: cl_uint where "CL_MEM_OBJECT_IMAGE2D_ARRAY = 0x10F3"
definition CL_MEM_OBJECT_IMAGE1D :: cl_uint where "CL_MEM_OBJECT_IMAGE1D = 0x10F4"
definition CL_MEM_OBJECT_IMAGE1D_ARRAY :: cl_uint where "CL_MEM_OBJECT_IMAGE1D_ARRAY = 0x10F5"
definition CL_MEM_OBJECT_IMAGE1D_BUFFER :: cl_uint where "CL_MEM_OBJECT_IMAGE1D_BUFFER = 0x10F6"

lemmas image_type_defs = CL_MEM_OBJECT_IMAGE2D_def CL_MEM_OBJECT_IMAGE3D_def CL_MEM_OBJECT_IMAGE2D_ARRAY_def
  CL_MEM_OBJECT_IMAGE1D_def CL_MEM_OBJECT_IMAGE1D_ARRAY_def CL_MEM_OBJECT_IMAGE1D_BUFFER_def

definition pocl_check_image_origin_region :: "ptr \<Rightarrow> size3 option \<Rightarrow> size3 option \<Rightarrow> rt \<Rightarrow> cl_int outcome" where
  "pocl_check_image_origin_region img origin region s =
     (if img = NULL then Ret CL_INVALID_MEM_OBJECT
      else case origin of None \<Rightarrow> Ret CL_INVALID_VALUE
      | Some (ox, oy, oz) \<Rightarrow>
          (case region of None \<Rightarrow> Ret CL_INVALID_VALUE
           | Some (w, h, d) \<Rightarrow>
               obind (deref (mems s img)) (\<lambda>m.
               if ox + w > image_row_pitch m \<or> (image_height m > 0 \<and> oy + h > image_height m) \<or>
                  (image_depth m > 0 \<and> oz + d > image_depth m)
               then Ret CL_INVALID_VALUE
               else Ret CL_SUCCESS)))"

text \<open>The image is larger than the device allows.\<close>

definition image_too_large :: "cl_mem \<Rightarrow> device_info \<Rightarrow> bool" where
  "image_too_large m di \<longleftrightarrow>
     ((m_type m = CL_MEM_OBJECT_IMAGE1D \<or> m_type m = CL_MEM_OBJECT_IMAGE1D_ARRAY) \<and> image_width m > image2d_max_width di) \<or>
     ((m_type m = CL_MEM_OBJECT_IMAGE2D \<or> m_type m = CL_MEM_OBJECT_IMAGE2D_ARRAY) \<and>
       (image_width m > image2d_max_width di \<or> image_height m > image2d_max_height di)) \<or>
     (m_type m = CL_MEM_OBJECT_IMAGE3D \<and>
       (image_width m > image3d_max_width di \<or> image_height m > image3d_max_height di \<or> image_depth m > image3d_max_depth di))"

text \<open>
  The loop of \<open>pocl\_check\_device\_supports\_image\<close>: its \<open>goto\<close> is not part of the \<open>if\<close>, so that it leaves in the first
  round with the error code it came with.
\<close>

fun scan_supported :: "cl_int \<Rightarrow> cl_mem \<Rightarrow> cl_image_format option list \<Rightarrow> cl_int outcome" where
  "scan_supported errcode m [] = Ret CL_INVALID_IMAGE_FORMAT_DESCRIPTOR"
| "scan_supported errcode m (f # fs) =
     obind (deref f) (\<lambda>fmt.
     Ret (if fmt_order fmt = image_channel_order m \<and> fmt_type fmt = image_channel_data_type m then CL_SUCCESS else errcode))"

text \<open>Without supported formats the error code of the call that succeeded is returned. An error code that
  leaves the number unset would have it read before it is set; the calls set it whenever they succeed.\<close>

definition pocl_check_device_supports_image :: "env \<Rightarrow> ptr \<Rightarrow> ptr \<Rightarrow> rt \<Rightarrow> (cl_int \<times> rt) outcome" where
  "pocl_check_device_supports_image env img q s =
     obind (deref (queues s q)) (\<lambda>command_queue.
     obind (deref (devices s (q_device command_queue))) (\<lambda>dev.
     if image_support (dev_info dev) = 0 then Ret (CL_INVALID_OPERATION, s)
     else obind (deref (mems s img)) (\<lambda>m.
     if image_too_large m (dev_info dev) then Ret (CL_INVALID_IMAGE_SIZE, s)
     else obind (clGetSupportedImageFormats env (q_context command_queue) 0 (m_type m) 0 None s) (\<lambda>(errcode, _, n, s).
     if errcode \<noteq> CL_SUCCESS then Ret (errcode, s)
     else obind (deref n) (\<lambda>num_entries.
     if num_entries = 0 then Ret (errcode, s)
     else case new_obj env s of (arr, s) \<Rightarrow>
     if arr = NULL then Ret (CL_OUT_OF_HOST_MEMORY, s)
     else obind (clGetSupportedImageFormats env (q_context command_queue) 0 (m_type m) num_entries
                   (Some (replicate num_entries None)) s) (\<lambda>(errcode, supported, _, s).
     if errcode \<noteq> CL_SUCCESS then Ret (errcode, s)
     else obind (deref supported) (\<lambda>fs.
          obind (scan_supported errcode m (take num_entries fs)) (\<lambda>code. Ret (code, s)))))))))"

text \<open>The number of channels and the size of one in bytes; the size is not stored for an unknown type.\<close>

definition pocl_get_image_information :: "cl_channel_order \<Rightarrow> cl_channel_type \<Rightarrow> c_int \<times> c_int option" where
  "pocl_get_image_information ch_order ch_type =
     ((if ch_order = CL_RGB \<or> ch_order = CL_RGBx \<or> ch_order = CL_R \<or> ch_order = CL_Rx \<or> ch_order = CL_A then 1 else 4),
      (if ch_type = CL_SNORM_INT8 \<or> ch_type = CL_UNORM_INT8 \<or> ch_type = CL_SIGNED_INT8 \<or> ch_type = CL_UNSIGNED_INT8
       then Some 1
       else if ch_type = CL_UNSIGNED_INT32 \<or> ch_type = CL_SIGNED_INT32 \<or> ch_type = CL_FLOAT \<or> ch_type = CL_UNORM_INT_101010
       then Some 4
       else if ch_type = CL_SNORM_INT16 \<or> ch_type = CL_UNORM_INT16 \<or> ch_type = CL_SIGNED_INT16 \<or> ch_type = CL_UNSIGNED_INT16 \<or>
               ch_type = CL_UNORM_SHORT_555 \<or> ch_type = CL_UNORM_SHORT_565 \<or> ch_type = CL_HALF_FLOAT
       then Some 2
       else None))"

text \<open>Every pixel is written as four floats, whatever the format of the image.\<close>

definition pocl_write_image ::
  "env \<Rightarrow> ptr \<Rightarrow> ptr \<Rightarrow> size3 option \<Rightarrow> size3 option \<Rightarrow> size_t \<Rightarrow> rt \<Rightarrow> (cl_int \<times> rt) outcome" where
  "pocl_write_image env img device origin region ptr s =
     (if img = NULL then Ret (CL_INVALID_MEM_OBJECT, s)
      else if ptr = 0 then Ret (CL_INVALID_VALUE, s)
      else case (origin, region) of
        (Some (ox, oy, oz), Some (w, h, d)) \<Rightarrow>
          obind (deref (mems s img)) (\<lambda>m.
          let tuned_origin = (ox * 4 * 4, oy, oz);
              tuned_region = (w * 4 * 4, h, d) in
          if w * 4 * 4 * h * d > 0 \<and>
             w * 4 * 4 - 1 + image_row_pitch m * (h - 1) + 0 * (d - 1) \<ge> m_size m
          then Ret (CL_INVALID_VALUE, s)
          else obind (deref (devices s device)) (\<lambda>dev.
               obind (c_nth (device_ptrs m) (dev_id dev)) (\<lambda>dptr.
               obind (on_ram (\<lambda>r. op_write_rect (driver env device) r ptr dptr tuned_origin tuned_origin tuned_region
                                    (image_row_pitch m) 0 (image_row_pitch m) 0) s) (\<lambda>s.
               Ret (CL_SUCCESS, s)))))
      | _ \<Rightarrow> Ret (CL_INVALID_VALUE, s))"

text \<open>A product of two \<open>int\<close> values; overflow is undefined.\<close>

definition int_mult :: "c_int \<Rightarrow> c_int \<Rightarrow> c_int outcome" where
  "int_mult a b = (if - (2 ^ 31) \<le> sint a * sint b \<and> sint a * sint b < 2 ^ 31 then Ret (a * b) else Undef)"

definition pocl_read_image ::
  "env \<Rightarrow> ptr \<Rightarrow> ptr \<Rightarrow> size3 option \<Rightarrow> size3 option \<Rightarrow> size_t \<Rightarrow> rt \<Rightarrow> (cl_int \<times> rt) outcome" where
  "pocl_read_image env img device origin region ptr s =
     (if img = NULL then Ret (CL_INVALID_MEM_OBJECT, s)
      else if ptr = 0 then Ret (CL_INVALID_VALUE, s)
      else case (origin, region) of
        (Some (ox, oy, oz), Some (w, h, d)) \<Rightarrow>
          obind (deref (mems s img)) (\<lambda>m.
          let width = (ucast (image_width m) :: c_int); height = (ucast (image_height m) :: c_int);
              dev_elem_size = (ucast (image_elem_size m) :: c_int); dev_channels = (ucast (image_channels m) :: c_int);
              tx = ox * scast dev_elem_size * scast dev_channels; tw = w * scast dev_elem_size * scast dev_channels in
          obind (int_mult width dev_elem_size) (\<lambda>n.
          obind (int_mult n dev_channels) (\<lambda>n.
          let image_row_pitch = (scast n :: size_t); image_slice_pitch = scast height * image_row_pitch in
          if tx + tw > image_row_pitch \<or> oy + h > scast height then Ret (CL_INVALID_VALUE, s)
          else if m_type m = CL_MEM_OBJECT_IMAGE3D \<and> oz + d > image_depth m then Ret (CL_INVALID_VALUE, s)
          else if m_type m \<noteq> CL_MEM_OBJECT_IMAGE3D \<and> d \<noteq> 1 then Ret (CL_INVALID_VALUE, s)
          else obind (deref (devices s device)) (\<lambda>dev.
               obind (c_nth (device_ptrs m) (dev_id dev)) (\<lambda>dptr.
               obind (on_ram (\<lambda>r. op_read_rect (driver env device) r ptr dptr (tx, oy, oz) (tx, oy, oz) (tw, h, d)
                                    image_row_pitch image_slice_pitch image_row_pitch image_slice_pitch) s) (\<lambda>s.
               Ret (CL_SUCCESS, s)))))))
      | _ \<Rightarrow> Ret (CL_INVALID_VALUE, s))"

section \<open>HSA images\<close>

datatype hsa_ext_image_geometry =
    HSA_EXT_IMAGE_GEOMETRY_1D | HSA_EXT_IMAGE_GEOMETRY_1DA | HSA_EXT_IMAGE_GEOMETRY_2D | HSA_EXT_IMAGE_GEOMETRY_2DA
  | HSA_EXT_IMAGE_GEOMETRY_3D

datatype hsa_ext_image_channel_type =
    HSA_EXT_IMAGE_CHANNEL_TYPE_SNORM_INT8 | HSA_EXT_IMAGE_CHANNEL_TYPE_SNORM_INT16 | HSA_EXT_IMAGE_CHANNEL_TYPE_UNORM_INT8
  | HSA_EXT_IMAGE_CHANNEL_TYPE_UNORM_INT16 | HSA_EXT_IMAGE_CHANNEL_TYPE_UNORM_SHORT_565
  | HSA_EXT_IMAGE_CHANNEL_TYPE_UNORM_SHORT_555 | HSA_EXT_IMAGE_CHANNEL_TYPE_UNORM_SHORT_101010
  | HSA_EXT_IMAGE_CHANNEL_TYPE_SIGNED_INT8 | HSA_EXT_IMAGE_CHANNEL_TYPE_SIGNED_INT16 | HSA_EXT_IMAGE_CHANNEL_TYPE_SIGNED_INT32
  | HSA_EXT_IMAGE_CHANNEL_TYPE_UNSIGNED_INT8 | HSA_EXT_IMAGE_CHANNEL_TYPE_UNSIGNED_INT16
  | HSA_EXT_IMAGE_CHANNEL_TYPE_UNSIGNED_INT32 | HSA_EXT_IMAGE_CHANNEL_TYPE_HALF_FLOAT | HSA_EXT_IMAGE_CHANNEL_TYPE_FLOAT

datatype hsa_ext_image_channel_order =
    HSA_EXT_IMAGE_CHANNEL_ORDER_R | HSA_EXT_IMAGE_CHANNEL_ORDER_RX | HSA_EXT_IMAGE_CHANNEL_ORDER_A
  | HSA_EXT_IMAGE_CHANNEL_ORDER_INTENSITY | HSA_EXT_IMAGE_CHANNEL_ORDER_LUMINANCE | HSA_EXT_IMAGE_CHANNEL_ORDER_RG
  | HSA_EXT_IMAGE_CHANNEL_ORDER_RGX | HSA_EXT_IMAGE_CHANNEL_ORDER_RA | HSA_EXT_IMAGE_CHANNEL_ORDER_RGB
  | HSA_EXT_IMAGE_CHANNEL_ORDER_RGBX | HSA_EXT_IMAGE_CHANNEL_ORDER_RGBA | HSA_EXT_IMAGE_CHANNEL_ORDER_ARGB
  | HSA_EXT_IMAGE_CHANNEL_ORDER_BGRA

datatype hsa_ext_image_access_permission =
    HSA_EXT_IMAGE_ACCESS_PERMISSION_READ_ONLY | HSA_EXT_IMAGE_ACCESS_PERMISSION_WRITE_ONLY
  | HSA_EXT_IMAGE_ACCESS_PERMISSION_READ_WRITE

text \<open>A field of the descriptor no case of its switch sets is \<open>None\<close>.\<close>

record hsa_ext_image_descriptor =
  geometry :: "hsa_ext_image_geometry option"
  desc_size :: size3
  desc_array_size :: size_t
  channel_type :: "hsa_ext_image_channel_type option"
  channel_order :: "hsa_ext_image_channel_order option"

record cl_image_desc =
  desc_type :: cl_uint
  desc_width :: size_t
  desc_height :: size_t
  desc_depth :: size_t
  desc_array :: size_t
  desc_row_pitch :: size_t
  desc_slice_pitch :: size_t
  desc_mip_levels :: cl_uint
  desc_samples :: cl_uint
  desc_buffer :: ptr

text \<open>A switch: the value of the first case with the label.\<close>

definition hsa_channel_types :: "(cl_channel_type \<times> hsa_ext_image_channel_type) list" where
  "hsa_channel_types =
    [(CL_SNORM_INT8, HSA_EXT_IMAGE_CHANNEL_TYPE_SNORM_INT8), (CL_SNORM_INT16, HSA_EXT_IMAGE_CHANNEL_TYPE_SNORM_INT16),
     (CL_UNORM_INT8, HSA_EXT_IMAGE_CHANNEL_TYPE_UNORM_INT8), (CL_UNORM_INT16, HSA_EXT_IMAGE_CHANNEL_TYPE_UNORM_INT16),
     (CL_UNORM_SHORT_565, HSA_EXT_IMAGE_CHANNEL_TYPE_UNORM_SHORT_565), (CL_UNORM_SHORT_555, HSA_EXT_IMAGE_CHANNEL_TYPE_UNORM_SHORT_555),
     (CL_UNORM_INT_101010, HSA_EXT_IMAGE_CHANNEL_TYPE_UNORM_SHORT_101010), (CL_SIGNED_INT8, HSA_EXT_IMAGE_CHANNEL_TYPE_SIGNED_INT8),
     (CL_SIGNED_INT16, HSA_EXT_IMAGE_CHANNEL_TYPE_SIGNED_INT16), (CL_SIGNED_INT32, HSA_EXT_IMAGE_CHANNEL_TYPE_SIGNED_INT32),
     (CL_UNSIGNED_INT8, HSA_EXT_IMAGE_CHANNEL_TYPE_UNSIGNED_INT8), (CL_UNSIGNED_INT16, HSA_EXT_IMAGE_CHANNEL_TYPE_UNSIGNED_INT16),
     (CL_UNSIGNED_INT32, HSA_EXT_IMAGE_CHANNEL_TYPE_UNSIGNED_INT32), (CL_HALF_FLOAT, HSA_EXT_IMAGE_CHANNEL_TYPE_HALF_FLOAT),
     (CL_FLOAT, HSA_EXT_IMAGE_CHANNEL_TYPE_FLOAT)]"

definition hsa_channel_orders :: "(cl_channel_order \<times> hsa_ext_image_channel_order) list" where
  "hsa_channel_orders =
    [(CL_R, HSA_EXT_IMAGE_CHANNEL_ORDER_R), (CL_Rx, HSA_EXT_IMAGE_CHANNEL_ORDER_RX), (CL_A, HSA_EXT_IMAGE_CHANNEL_ORDER_A),
     (CL_INTENSITY, HSA_EXT_IMAGE_CHANNEL_ORDER_INTENSITY), (CL_LUMINANCE, HSA_EXT_IMAGE_CHANNEL_ORDER_LUMINANCE),
     (CL_RG, HSA_EXT_IMAGE_CHANNEL_ORDER_RG), (CL_RGx, HSA_EXT_IMAGE_CHANNEL_ORDER_RGX), (CL_RA, HSA_EXT_IMAGE_CHANNEL_ORDER_RA),
     (CL_RGB, HSA_EXT_IMAGE_CHANNEL_ORDER_RGB), (CL_RGBx, HSA_EXT_IMAGE_CHANNEL_ORDER_RGBX),
     (CL_RGBA, HSA_EXT_IMAGE_CHANNEL_ORDER_RGBA), (CL_ARGB, HSA_EXT_IMAGE_CHANNEL_ORDER_ARGB),
     (CL_BGRA, HSA_EXT_IMAGE_CHANNEL_ORDER_BGRA)]"

definition hsa_geometries :: "(cl_uint \<times> hsa_ext_image_geometry) list" where
  "hsa_geometries =
    [(CL_MEM_OBJECT_IMAGE1D, HSA_EXT_IMAGE_GEOMETRY_1D), (CL_MEM_OBJECT_IMAGE1D_ARRAY, HSA_EXT_IMAGE_GEOMETRY_1DA),
     (CL_MEM_OBJECT_IMAGE2D, HSA_EXT_IMAGE_GEOMETRY_2D), (CL_MEM_OBJECT_IMAGE2D_ARRAY, HSA_EXT_IMAGE_GEOMETRY_2DA),
     (CL_MEM_OBJECT_IMAGE3D, HSA_EXT_IMAGE_GEOMETRY_3D)]"

text \<open>The case of image buffers calls a function that does not exist, which ends the process.\<close>

definition imageTypeMapping :: "cl_image_format \<Rightarrow> cl_image_desc \<Rightarrow> hsa_ext_image_descriptor outcome" where
  "imageTypeMapping image_format image_desc =
     (if desc_type image_desc = CL_MEM_OBJECT_IMAGE1D_BUFFER then Abort
      else Ret \<lparr>geometry = map_of hsa_geometries (desc_type image_desc),
             desc_size = (desc_width image_desc, desc_height image_desc, desc_depth image_desc),
             desc_array_size = desc_array image_desc,
             channel_type = map_of hsa_channel_types (fmt_type image_format),
             channel_order = map_of hsa_channel_orders (fmt_order image_format)\<rparr>)"

definition image_permission :: "cl_bitfield \<Rightarrow> hsa_ext_image_access_permission" where
  "image_permission flags =
     (if has flags CL_MEM_READ_WRITE then HSA_EXT_IMAGE_ACCESS_PERMISSION_READ_WRITE
      else if has flags CL_MEM_READ_ONLY \<or> has flags CL_MEM_HOST_READ_ONLY then HSA_EXT_IMAGE_ACCESS_PERMISSION_READ_ONLY
      else if has flags CL_MEM_WRITE_ONLY \<or> has flags CL_MEM_HOST_WRITE_ONLY then HSA_EXT_IMAGE_ACCESS_PERMISSION_WRITE_ONLY
      else HSA_EXT_IMAGE_ACCESS_PERMISSION_READ_WRITE)"

text \<open>
  The image functions of the HSA library, by the agent: the alignment and size of an image, the handle
  for an image at an address, and the transfers between an image and host memory.
\<close>

record hsa_images =
  image_info :: "nat \<Rightarrow> hsa_ext_image_descriptor \<Rightarrow> hsa_ext_image_access_permission \<Rightarrow> size_t \<times> size_t"
  create_handle :: "nat \<Rightarrow> hsa_ext_image_descriptor \<Rightarrow> size_t \<Rightarrow> hsa_ext_image_access_permission \<Rightarrow> 64 word"
  image_import :: "nat \<Rightarrow> size_t \<Rightarrow> size_t \<Rightarrow> size_t \<Rightarrow> 64 word \<Rightarrow> size3 \<Rightarrow> size3 \<Rightarrow> memory \<Rightarrow> memory outcome"
  image_export :: "nat \<Rightarrow> 64 word \<Rightarrow> size_t \<Rightarrow> size_t \<Rightarrow> size_t \<Rightarrow> size3 \<Rightarrow> size3 \<Rightarrow> memory \<Rightarrow> memory outcome"

text \<open>\<open>malloc\<close> of a record that is written without a test.\<close>

definition unchecked_malloc :: "env \<Rightarrow> rt \<Rightarrow> rt outcome" where
  "unchecked_malloc env s = (case new_obj env s of (p, s) \<Rightarrow> if p = NULL then Undef else Ret s)"

text \<open>The body of the loop over the devices of the context, for a GPU device; False when there is no
  memory for the image.\<close>

definition create_hsa_image ::
  "hsa_images \<Rightarrow> c_library \<Rightarrow> env \<Rightarrow> ptr \<Rightarrow> device \<Rightarrow> cl_bitfield \<Rightarrow> cl_image_format \<Rightarrow> cl_image_desc \<Rightarrow> size_t \<Rightarrow> size_t \<Rightarrow> size_t \<Rightarrow>
     rt \<Rightarrow> (bool \<times> rt) outcome" where
  "create_hsa_image hsa lib env mem dev flags fmt desc row_pitch slice_pitch host_ptr s =
     obind (unchecked_malloc env s) (\<lambda>s.
     obind (imageTypeMapping fmt desc) (\<lambda>descriptor.
     obind (hsa_call env s) (\<lambda>s.
     case image_info hsa (agent_id dev) descriptor (image_permission flags) of (algn, sz) \<Rightarrow>
     case posix_memalign lib (ram s) algn sz of
       None \<Rightarrow> Ret (False, s)
     | Some (p, r) \<Rightarrow>
         obind (hsa_call env (s\<lparr>ram := r\<rparr>)) (\<lambda>s.
         obind (deref (mems s mem)) (\<lambda>m.
         let h = create_handle hsa (agent_id dev) descriptor p (image_permission flags);
             s = s\<lparr>mems := (mems s)(mem \<mapsto> m\<lparr>image_handle := h\<rparr>)\<rparr> in
         if host_ptr = 0 then Ret (True, s)
         else obind (unchecked_malloc env s) (\<lambda>s.
              obind (hsa_call env s) (\<lambda>s.
              obind (on_ram (image_import hsa (agent_id dev) host_ptr row_pitch slice_pitch h (0, 0, 0)
                       (desc_width desc, desc_height desc, desc_depth desc)) s) (\<lambda>s.
              Ret (True, s)))))))))"

fun create_hsa_images ::
  "hsa_images \<Rightarrow> c_library \<Rightarrow> env \<Rightarrow> ptr \<Rightarrow> ptr option list \<Rightarrow> cl_bitfield \<Rightarrow> cl_image_format \<Rightarrow> cl_image_desc \<Rightarrow> size_t \<Rightarrow> size_t \<Rightarrow>
     size_t \<Rightarrow> rt \<Rightarrow> (bool \<times> rt) outcome" where
  "create_hsa_images hsa lib env mem [] flags fmt desc row_pitch slice_pitch host_ptr s = Ret (True, s)"
| "create_hsa_images hsa lib env mem (d # ds) flags fmt desc row_pitch slice_pitch host_ptr s =
     obind (deref d) (\<lambda>device.
     obind (deref (devices s device)) (\<lambda>dev.
     if has (dev_type dev) CL_DEVICE_TYPE_GPU
     then obind (create_hsa_image hsa lib env mem dev flags fmt desc row_pitch slice_pitch host_ptr s) (\<lambda>(ok, s).
          if ok then create_hsa_images hsa lib env mem ds flags fmt desc row_pitch slice_pitch host_ptr s else Ret (False, s))
     else create_hsa_images hsa lib env mem ds flags fmt desc row_pitch slice_pitch host_ptr s))"

section \<open>Creating images\<close>

text \<open>A \<open>size\_t\<close> stored in an \<open>int\<close> and used as a \<open>size\_t\<close> again.\<close>

definition through_int :: "size_t \<Rightarrow> size_t" where
  "through_int x = scast (ucast x :: c_int)"

text \<open>The pitches and the size of the buffer behind an image; the depth is not part of the size.\<close>

definition image_row_pitch_of :: "cl_image_desc \<Rightarrow> c_int \<Rightarrow> c_int \<Rightarrow> size_t" where
  "image_row_pitch_of desc elem_size channels =
     (if through_int (desc_row_pitch desc) = 0
      then through_int (desc_width desc * scast elem_size * scast channels)
      else through_int (desc_row_pitch desc))"

definition image_slice_pitch_of :: "cl_image_desc \<Rightarrow> size_t \<Rightarrow> size_t" where
  "image_slice_pitch_of desc row_pitch =
     (if through_int (desc_slice_pitch desc) \<noteq> 0 then through_int (desc_slice_pitch desc)
      else if desc_type desc = CL_MEM_OBJECT_IMAGE3D \<or> desc_type desc = CL_MEM_OBJECT_IMAGE2D_ARRAY
      then through_int (row_pitch * desc_height desc)
      else if desc_type desc = CL_MEM_OBJECT_IMAGE1D_ARRAY then row_pitch
      else 0)"

definition image_size_of :: "cl_image_desc \<Rightarrow> c_int \<Rightarrow> c_int \<Rightarrow> size_t" where
  "image_size_of desc elem_size channels =
     through_int (desc_width desc * desc_height desc * scast elem_size * scast channels)"

text \<open>The fields of the new buffer that make it an image.\<close>

definition make_image :: "cl_image_format \<Rightarrow> cl_image_desc \<Rightarrow> c_int \<Rightarrow> c_int \<Rightarrow> size_t \<Rightarrow> size_t \<Rightarrow> cl_mem \<Rightarrow> cl_mem" where
  "make_image fmt desc elem_size channels row_pitch slice_pitch m =
     m\<lparr>m_type := desc_type desc, is_image := True, image_width := desc_width desc, image_height := desc_height desc,
       image_depth := desc_depth desc, image_array_size := desc_array desc, image_row_pitch := row_pitch,
       image_slice_pitch := slice_pitch, image_channel_data_type := fmt_type fmt, image_channel_order := fmt_order fmt,
       num_mip_levels := desc_mip_levels desc, num_samples := desc_samples desc, m_buffer := desc_buffer desc,
       image_channels := scast channels, image_elem_size := scast elem_size\<rparr>"

fun format_listed :: "cl_image_format \<Rightarrow> cl_image_format option list \<Rightarrow> bool outcome" where
  "format_listed fmt [] = Ret False"
| "format_listed fmt (f # fs) =
     obind (deref f) (\<lambda>g.
     if fmt_order g = fmt_order fmt \<and> fmt_type g = fmt_type fmt then Ret True else format_listed fmt fs)"

definition clCreateImage ::
  "hsa_images \<Rightarrow> c_library \<Rightarrow> env \<Rightarrow> ptr \<Rightarrow> cl_bitfield \<Rightarrow> cl_image_format option \<Rightarrow> cl_image_desc option \<Rightarrow> size_t \<Rightarrow> rt \<Rightarrow>
     (cl_int \<times> ptr \<times> rt) outcome" where
  "clCreateImage hsa lib env context flags image_format image_desc host_ptr s =
     (if context = NULL then Ret (CL_INVALID_CONTEXT, NULL, s)
      else case image_format of None \<Rightarrow> Ret (CL_INVALID_IMAGE_FORMAT_DESCRIPTOR, NULL, s)
      | Some fmt \<Rightarrow>
      (case image_desc of None \<Rightarrow> Ret (CL_INVALID_IMAGE_DESCRIPTOR, NULL, s)
      | Some desc \<Rightarrow>
      if desc_mip_levels desc \<noteq> 0 \<or> desc_samples desc \<noteq> 0 then Abort
      else obind (clGetSupportedImageFormats env context flags (desc_type desc) 0 None s) (\<lambda>(errcode, _, n, s).
      case n of None \<Rightarrow> Ret (CL_INVALID_VALUE, NULL, s)
      | Some num_entries \<Rightarrow>
      if errcode \<noteq> CL_SUCCESS \<or> num_entries = 0 then Ret (CL_INVALID_VALUE, NULL, s)
      else case new_obj env s of (arr, s) \<Rightarrow>
      if arr = NULL then Ret (CL_OUT_OF_HOST_MEMORY, NULL, s)
      else obind (clGetSupportedImageFormats env context flags (desc_type desc) num_entries
                    (Some (replicate num_entries None)) s) (\<lambda>(errcode, supported, _, s).
      if errcode \<noteq> CL_SUCCESS then Ret (errcode, NULL, s)
      else obind (deref supported) (\<lambda>fs.
      obind (format_listed fmt fs) (\<lambda>listed.
      if \<not> listed then Ret (CL_IMAGE_FORMAT_NOT_SUPPORTED, NULL, s)
      else case pocl_get_image_information (fmt_order fmt) (fmt_type fmt) of (channels, sz) \<Rightarrow>
      obind (deref sz) (\<lambda>elem_size.
      let row_pitch = image_row_pitch_of desc elem_size channels;
          slice_pitch = image_slice_pitch_of desc row_pitch in
      obind (clCreateBuffer env context flags (image_size_of desc elem_size channels) host_ptr s) (\<lambda>(errcode, mem, s).
      if mem = NULL then Ret (CL_OUT_OF_HOST_MEMORY, NULL, s)
      else obind (deref (mems s mem)) (\<lambda>m.
           obind (deref (contexts s context)) (\<lambda>c.
           obind (create_hsa_images hsa lib env mem (ctx_devices c) flags fmt desc row_pitch slice_pitch host_ptr
                    (s\<lparr>mems := (mems s)(mem \<mapsto> make_image fmt desc elem_size channels row_pitch slice_pitch m)\<rparr>)) (\<lambda>(ok, s).
           if ok then Ret (CL_SUCCESS, mem, s) else Ret (CL_INVALID_VALUE, NULL, s))))))))))))"

text \<open>
  \<open>clCreateImage2D\<close> keeps one device pointer per device of the context, at the position in the context. The
  array is not initialised: \<open>device\_ptrs\<close> holds the entries set so far. Every pixel has four floats. Neither the
  size of an element nor the number of channels is stored in the object.
\<close>

definition init_image2d :: "env \<Rightarrow> ptr \<Rightarrow> cl_bitfield \<Rightarrow> cl_image_format \<Rightarrow> size_t \<Rightarrow> size_t \<Rightarrow> size_t \<Rightarrow> cl_mem" where
  "init_image2d env context flags fmt width height sz =
     (raw_mem env)\<lparr>m_refcount := 1, m_parent := NULL, map_count := 0, mappings := [], m_type := CL_MEM_OBJECT_IMAGE2D,
       m_flags := flags, is_image := True, device_ptrs := [], m_size := sz, m_context := context, image_width := width,
       image_height := height, image_row_pitch := width, image_channel_data_type := fmt_type fmt,
       image_channel_order := fmt_order fmt\<rparr>"

text \<open>The loop over the devices. \<open>prev\<close> are the devices before the current one; False when an
  allocation failed.\<close>

fun alloc_image2d ::
  "env \<Rightarrow> ptr \<Rightarrow> cl_bitfield \<Rightarrow> size_t \<Rightarrow> size_t \<Rightarrow> size_t \<Rightarrow> size_t \<Rightarrow> ptr list \<Rightarrow> ptr option list \<Rightarrow> rt \<Rightarrow>
     (bool \<times> ptr list \<times> rt) outcome" where
  "alloc_image2d env mem flags width height sz host_ptr prev [] s = Ret (True, prev, s)"
| "alloc_image2d env mem flags width height sz host_ptr prev (d # ds) s =
     obind (if prev = [] then Ret s else obind (clRetainMemObject mem s) (\<lambda>(_, s). Ret s)) (\<lambda>s.
     obind (deref d) (\<lambda>device.
     obind (deref (devices s device)) (\<lambda>dev.
     obind (op_malloc (driver env device) (ram s) (dev_data dev) 0 sz 0) (\<lambda>(device_ptr, r).
     let s = s\<lparr>ram := r\<rparr> in
     if device_ptr = 0 then Ret (False, prev, s)
     else obind (deref (mems s mem)) (\<lambda>m.
          let s = s\<lparr>mems := (mems s)(mem \<mapsto> m\<lparr>device_ptrs := device_ptrs m @ [device_ptr]\<rparr>)\<rparr> in
          if has flags CL_MEM_ALLOC_HOST_PTR \<or> has flags CL_MEM_USE_HOST_PTR then Abort
          else obind (if has flags CL_MEM_COPY_HOST_PTR
                      then obind (pocl_write_image env mem device (Some (0, 0, 0)) (Some (width, height, 1)) host_ptr s) (\<lambda>(_, s). Ret s)
                      else Ret s) (\<lambda>s.
               alloc_image2d env mem flags width height sz host_ptr (prev @ [device]) ds s))))))"

definition clCreateImage2D ::
  "env \<Rightarrow> ptr \<Rightarrow> cl_bitfield \<Rightarrow> cl_image_format option \<Rightarrow> size_t \<Rightarrow> size_t \<Rightarrow> size_t \<Rightarrow> size_t \<Rightarrow> rt \<Rightarrow> (cl_int \<times> ptr \<times> rt) outcome" where
  "clCreateImage2D env context flags image_format width height row_pitch host_ptr s =
     (if context = NULL then Ret (CL_INVALID_CONTEXT, NULL, s)
      else case new_obj env s of (mem, s) \<Rightarrow>
      if mem = NULL then Ret (CL_OUT_OF_HOST_MEMORY, NULL, s)
      else obind (deref image_format) (\<lambda>fmt.
      if row_pitch \<noteq> 0 \<and> row_pitch \<noteq> width then Abort
      else let sz = through_int (width * height * 4 * 4) in
      obind (deref (contexts s context)) (\<lambda>c.
      case new_obj env s of (arr, s) \<Rightarrow>
      if arr = NULL then Ret (CL_OUT_OF_HOST_MEMORY, NULL, s)
      else if fmt_order fmt \<noteq> CL_RGBA \<and> fmt_order fmt \<noteq> CL_R then Abort
      else obind (alloc_image2d env mem flags width height sz host_ptr [] (ctx_devices c)
                    (s\<lparr>mems := (mems s)(mem \<mapsto> init_image2d env context flags fmt width height sz)\<rparr>)) (\<lambda>(ok, prev, s).
           if ok
           then obind (retain_context context s) (\<lambda>s. Ret (CL_SUCCESS, mem, s))
           else obind (deref (mems s mem)) (\<lambda>m.
                obind (oiter (\<lambda>(device, p) s.
                         obind (deref (devices s device)) (\<lambda>dev.
                         on_ram (\<lambda>r. op_free (driver env device) r (dev_data dev) 0 p) s)) (zip prev (device_ptrs m)) s) (\<lambda>s.
                Ret (CL_MEM_OBJECT_ALLOCATION_FAILURE, NULL, s\<lparr>mems := (mems s)(mem := None)\<rparr>)))))))"

definition clCreateImage3D :: "rt \<Rightarrow> (cl_int \<times> ptr \<times> rt) outcome" where
  "clCreateImage3D s = Abort"

section \<open>Image commands\<close>

text \<open>The event of a read does not retain the queue.\<close>

definition image_event :: "env \<Rightarrow> ptr \<Rightarrow> bool \<Rightarrow> rt \<Rightarrow> ((unit + ptr) \<times> rt) outcome" where
  "image_event env q want s =
     (if \<not> want then Ret (Inr NULL, s)
      else case new_obj env s of (p, s) \<Rightarrow>
      if p = NULL then Ret (Inl (), s)
      else obind (POCL_UPDATE_EVENT_QUEUED env q p
              (s\<lparr>events := (events s)(p \<mapsto> (raw_event env)\<lparr>e_refcount := 1, e_queue := q, e_type := CL_COMMAND_READ_IMAGE\<rparr>)\<rparr>)) (\<lambda>s.
           Ret (Inr p, s)))"

text \<open>The transfer of a blocking read. The slice pitch given to HSA is the row pitch.\<close>

definition read_image_now ::
  "hsa_images \<Rightarrow> env \<Rightarrow> cl_command_queue \<Rightarrow> ptr \<Rightarrow> size3 option \<Rightarrow> size3 option \<Rightarrow> size_t \<Rightarrow> size_t \<Rightarrow> rt \<Rightarrow> (cl_int \<times> rt) outcome" where
  "read_image_now hsa env command_queue img origin region host_row_pitch ptr s =
     obind (deref (devices s (q_device command_queue))) (\<lambda>dev.
     if has (dev_type dev) CL_DEVICE_TYPE_GPU
     then obind (deref origin) (\<lambda>o3. obind (deref region) (\<lambda>r3.
          obind (deref (mems s img)) (\<lambda>m.
          obind (hsa_call env s) (\<lambda>s.
          obind (on_ram (image_export hsa (agent_id dev) (image_handle m) ptr host_row_pitch host_row_pitch o3 r3) s) (\<lambda>s.
          Ret (CL_SUCCESS, s))))))
     else pocl_read_image env img (q_device command_queue) origin region ptr s)"

text \<open>
  The node of a queued read has the type of a buffer read, so that \<open>clFinish\<close> takes the fields of the image
  command for those of a buffer command: the device pointer for the host pointer and the three coordinates of the
  origin for the device pointer, the size and the buffer. The status of such a call is not
  initialised, which \<open>None\<close> stands for.
\<close>

definition clEnqueueReadImage ::
  "hsa_images \<Rightarrow> env \<Rightarrow> ptr \<Rightarrow> ptr \<Rightarrow> bool \<Rightarrow> size3 option \<Rightarrow> size3 option \<Rightarrow> size_t \<Rightarrow> size_t \<Rightarrow> bool \<Rightarrow> rt \<Rightarrow>
     (cl_int option \<times> ptr \<times> rt) outcome" where
  "clEnqueueReadImage hsa env q img blocking_read origin region host_row_pitch ptr want s =
     obind (deref (queues s q)) (\<lambda>command_queue.
     obind (image_event env q want s) (\<lambda>(ev, s).
     case ev of Inl _ \<Rightarrow> Ret (Some CL_OUT_OF_HOST_MEMORY, NULL, s)
     | Inr event \<Rightarrow>
         if blocking_read
         then obind (POCL_UPDATE_EVENT_SUBMITTED env q event s) (\<lambda>s.
              obind (POCL_UPDATE_EVENT_RUNNING env q event s) (\<lambda>s.
              obind (read_image_now hsa env command_queue img origin region host_row_pitch ptr s) (\<lambda>(status, s).
              obind (POCL_UPDATE_EVENT_COMPLETE env q event s) (\<lambda>s.
              obind (if want then obind (clReleaseCommandQueue env q s) (\<lambda>(_, s). Ret s) else Ret s) (\<lambda>s.
              Ret (Some status, event, s))))))
         else case new_obj env s of (node, s) \<Rightarrow>
              if node = NULL then Ret (Some CL_OUT_OF_HOST_MEMORY, event, s)
              else obind (deref (devices s (q_device command_queue))) (\<lambda>dev.
                   obind (deref (mems s img)) (\<lambda>m.
                   obind (c_nth (device_ptrs m) (dev_id dev)) (\<lambda>dptr.
                   obind (deref origin) (\<lambda>(ox, oy, oz). obind (deref region) (\<lambda>_.
                   obind (clRetainMemObject img s) (\<lambda>(_, s).
                   obind (append_command q \<lparr>cmd = Cmd_read dptr ox oy (unat oz), node_event = event\<rparr> s) (\<lambda>s.
                   Ret (None, event, s))))))))))"

text \<open>A write runs at once, before the commands in the queue, blocking or not.\<close>

definition clEnqueueWriteImage ::
  "env \<Rightarrow> ptr \<Rightarrow> ptr \<Rightarrow> size3 option \<Rightarrow> size3 option \<Rightarrow> size_t \<Rightarrow> bool \<Rightarrow> rt \<Rightarrow> (cl_int \<times> ptr \<times> rt) outcome" where
  "clEnqueueWriteImage env q img origin region ptr want s =
     obind (event_for env q CL_COMMAND_READ_BUFFER want s) (\<lambda>(ev, s).
     case ev of Inl _ \<Rightarrow> Ret (CL_OUT_OF_HOST_MEMORY, NULL, s)
     | Inr event \<Rightarrow>
         obind (POCL_UPDATE_EVENT_SUBMITTED env q event s) (\<lambda>s.
         obind (POCL_UPDATE_EVENT_RUNNING env q event s) (\<lambda>s.
         obind (deref (queues s q)) (\<lambda>command_queue.
         obind (pocl_write_image env img (q_device command_queue) origin region ptr s) (\<lambda>(status, s).
         obind (POCL_UPDATE_EVENT_COMPLETE env q event s) (\<lambda>s.
         Ret (status, event, s)))))))"

text \<open>\<open>malloc\<close> of a block of bytes.\<close>

definition malloc_bytes :: "c_library \<Rightarrow> size_t \<Rightarrow> rt \<Rightarrow> size_t \<times> rt" where
  "malloc_bytes lib sz s =
     (case posix_memalign lib (ram s) 16 sz of None \<Rightarrow> (0, s) | Some (p, r) \<Rightarrow> (p, s\<lparr>ram := r\<rparr>))"

text \<open>The copy reads the image itself, not the buffer. \<open>event\<close> is what the caller left in \<open>*event\<close>.\<close>

definition clEnqueueCopyBufferToImage ::
  "c_library \<Rightarrow> env \<Rightarrow> ptr \<Rightarrow> ptr \<Rightarrow> ptr \<Rightarrow> size_t \<Rightarrow> size3 option \<Rightarrow> size3 option \<Rightarrow> nat \<Rightarrow> ptr list option \<Rightarrow> ptr \<Rightarrow> rt \<Rightarrow>
     (cl_int \<times> rt) outcome" where
  "clEnqueueCopyBufferToImage lib env q buffer img src_offset dst_origin region n_wait wait event s =
     (if q = NULL then Ret (CL_INVALID_COMMAND_QUEUE, s)
      else obind (deref (queues s q)) (\<lambda>command_queue.
      obind (deref (devices s (q_device command_queue))) (\<lambda>dev.
      if image_support (dev_info dev) = 0 then Ret (CL_INVALID_OPERATION, s)
      else if buffer = NULL then Ret (CL_INVALID_MEM_OBJECT, s)
      else obind (deref (mems s buffer)) (\<lambda>b.
      if m_type b \<noteq> CL_MEM_OBJECT_BUFFER then Ret (CL_INVALID_MEM_OBJECT, s)
      else if img = NULL then Ret (CL_INVALID_MEM_OBJECT, s)
      else obind (deref (mems s img)) (\<lambda>m.
      if \<not> is_image m then Ret (CL_INVALID_MEM_OBJECT, s)
      else case region of None \<Rightarrow> Ret (CL_INVALID_MEM_OBJECT, s)
      | Some (w, h, d) \<Rightarrow>
      if d \<noteq> 1 then Abort
      else if m_context b \<noteq> m_context m \<or> m_context b \<noteq> q_context command_queue then Ret (CL_INVALID_CONTEXT, s)
      else if wait = None \<and> n_wait > 0 then Ret (CL_INVALID_EVENT_WAIT_LIST, s)
      else if wait \<noteq> None \<and> n_wait = 0 then Ret (CL_INVALID_EVENT_WAIT_LIST, s)
      else obind (pocl_check_device_supports_image env img q s) (\<lambda>(errcode, s).
      if errcode \<noteq> CL_SUCCESS then Ret (errcode, s)
      else case malloc_bytes lib (m_size m) s of (temp, s) \<Rightarrow>
           obind (c_nth (device_ptrs m) (dev_id dev)) (\<lambda>dptr.
           obind (on_ram (\<lambda>r. op_read (driver env (q_device command_queue)) r temp dptr (m_size m)) s) (\<lambda>s.
           obind (pocl_write_image env img (q_device command_queue) dst_origin region (temp + src_offset) s) (\<lambda>(ret_code, s).
           obind (on_ram (\<lambda>r. c_free r temp) s) (\<lambda>s.
           obind (POCL_UPDATE_EVENT_COMPLETE env q event s) (\<lambda>s.
           Ret (ret_code, s))))))))))))"

text \<open>The image functions that only report that they are not implemented.\<close>

definition clGetImageInfo :: "rt \<Rightarrow> (cl_int \<times> rt) outcome" where "clGetImageInfo s = Abort"
definition clEnqueueMapImage :: "rt \<Rightarrow> (cl_int \<times> rt) outcome" where "clEnqueueMapImage s = Abort"
definition clEnqueueCopyImage :: "rt \<Rightarrow> (cl_int \<times> rt) outcome" where "clEnqueueCopyImage s = Abort"
definition clEnqueueCopyImageToBuffer :: "rt \<Rightarrow> (cl_int \<times> rt) outcome" where "clEnqueueCopyImageToBuffer s = Abort"

section \<open>Samplers\<close>

definition CL_ADDRESS_CLAMP_TO_EDGE :: cl_uint where "CL_ADDRESS_CLAMP_TO_EDGE = 0x1131"
definition CL_FILTER_NEAREST :: cl_uint where "CL_FILTER_NEAREST = 0x1140"

text \<open>The error code is \<open>None\<close> when \<open>*errcode\_ret\<close> is not written, which is the case of success.\<close>

definition clCreateSampler :: "env \<Rightarrow> ptr \<Rightarrow> cl_uint \<Rightarrow> cl_uint \<Rightarrow> cl_uint \<Rightarrow> rt \<Rightarrow> (cl_int option \<times> ptr \<times> rt) outcome" where
  "clCreateSampler env context normalized addressing filtering s =
     (if context = NULL then Ret (Some CL_INVALID_CONTEXT, NULL, s)
      else case new_obj env s of (sampler, s) \<Rightarrow>
      if sampler = NULL then Ret (Some CL_OUT_OF_HOST_MEMORY, NULL, s)
      else if normalized = 1 \<or> addressing \<noteq> CL_ADDRESS_CLAMP_TO_EDGE \<or> filtering \<noteq> CL_FILTER_NEAREST then Abort
      else Ret (None, sampler, s\<lparr>samplers := (samplers s)(sampler \<mapsto>
             \<lparr>normalized_coords = normalized, addressing_mode = addressing, filter_mode = filtering\<rparr>)\<rparr>))"

text \<open>The same body under the name of OpenCL 2.0, with the arguments of the old function.\<close>

definition clCreateSamplerWithProperties :: "env \<Rightarrow> ptr \<Rightarrow> cl_uint \<Rightarrow> cl_uint \<Rightarrow> cl_uint \<Rightarrow> rt \<Rightarrow> (cl_int option \<times> ptr \<times> rt) outcome" where
  "clCreateSamplerWithProperties = clCreateSampler"

definition clReleaseSampler :: "ptr \<Rightarrow> rt \<Rightarrow> (cl_int \<times> rt) outcome" where
  "clReleaseSampler sampler s = Ret (CL_SUCCESS, s)"

definition clRetainSampler :: "ptr \<Rightarrow> rt \<Rightarrow> (cl_int \<times> rt) outcome" where
  "clRetainSampler sampler s = Abort"

definition clGetSamplerInfo :: "ptr \<Rightarrow> rt \<Rightarrow> (cl_int \<times> rt) outcome" where
  "clGetSamplerInfo sampler s = Abort"

end
