(* ===== verification/Image_Claims.thy ===== *)
theory Image_Claims
  imports Images Rect_Claims
begin

text \<open>
  Properties of images: which formats a context supports, what a written image reads back, and where the
  image functions do not do what they are meant to.
\<close>

section \<open>Formats\<close>

lemma pocl_find_img_format_iff [simp]: "pocl_find_img_format f fs \<longleftrightarrow> f \<in> set fs"
  by (induction fs) (auto intro: cl_image_format.equality)

lemma in_all_tables_iff [simp]: "in_all_tables f ts \<longleftrightarrow> (\<forall>t \<in> set ts. f \<in> set t)"
  by (induction ts) auto

text \<open>What a context with these tables supports.\<close>

definition common_formats :: "cl_image_format list list \<Rightarrow> cl_image_format list" where
  "common_formats ts = (case ts of [] \<Rightarrow> [] | t # ts \<Rightarrow> filter (\<lambda>f. \<forall>u \<in> set ts. f \<in> set u) t)"

lemma store_formats_None:
  "store_formats n ts fs k None = Ret (k + length (filter (\<lambda>f. \<forall>u \<in> set ts. f \<in> set u) fs), None)"
  by (induction fs arbitrary: k) auto

lemma store_formats_Some:
  assumes "length pre = k" "length post = length (filter (\<lambda>f. \<forall>u \<in> set ts. f \<in> set u) fs)" "k + length post \<le> n"
  shows "store_formats n ts fs k (Some (pre @ post)) =
    Ret (k + length post, Some (pre @ map Some (filter (\<lambda>f. \<forall>u \<in> set ts. f \<in> set u) fs)))"
  using assms
proof (induction fs arbitrary: k pre post)
  case (Cons f fs)
  show ?case
  proof (cases "\<forall>u \<in> set ts. f \<in> set u")
    case True
    then obtain x xs where post: "post = x # xs" using Cons.prems(2) by (cases post) auto
    have "store_formats n ts fs (Suc k) (Some ((pre @ [Some f]) @ xs)) =
        Ret (Suc k + length xs, Some ((pre @ [Some f]) @ map Some (filter (\<lambda>f. \<forall>u \<in> set ts. f \<in> set u) fs)))"
      using Cons.prems True post by (intro Cons.IH) auto
    then show ?thesis using Cons.prems True post by (simp add: list_update_append)
  next
    case False
    then have "store_formats n ts (f # fs) k (Some (pre @ post)) = store_formats n ts fs k (Some (pre @ post))" by auto
    then show ?thesis using Cons.IH [of pre k post] Cons.prems False by auto
  qed
qed simp

text \<open>Devices that are live and whose drivers report a table with formats.\<close>

definition tables_of :: "env \<Rightarrow> cl_bitfield \<Rightarrow> ptr option list \<Rightarrow> cl_image_format list list" where
  "tables_of env flags ds = map (\<lambda>d. snd (op_get_supported_image_formats (driver env (the d)) flags)) ds"

definition formats_ready :: "env \<Rightarrow> cl_bitfield \<Rightarrow> ptr option list \<Rightarrow> rt \<Rightarrow> bool" where
  "formats_ready env flags ds s \<longleftrightarrow>
     (\<forall>d \<in> set ds. case d of None \<Rightarrow> False | Some p \<Rightarrow> devices s p \<noteq> None \<and>
        fst (op_get_supported_image_formats (driver env p) flags) = CL_SUCCESS \<and>
        snd (op_get_supported_image_formats (driver env p) flags) \<noteq> [])"

lemma device_formats_ready:
  "formats_ready env flags ds s \<Longrightarrow> device_formats env flags ts ds s = Ret (Inr (ts @ tables_of env flags ds))"
proof (induction ds arbitrary: ts)
  case (Cons d ds)
  obtain p where p: "d = Some p" "devices s p \<noteq> None" "fst (op_get_supported_image_formats (driver env p) flags) = CL_SUCCESS"
    "snd (op_get_supported_image_formats (driver env p) flags) \<noteq> []"
    using Cons.prems by (auto simp: formats_ready_def split: option.splits)
  have "formats_ready env flags ds s" using Cons.prems by (simp add: formats_ready_def)
  with Cons.IH p show ?case by (auto simp: tables_of_def split: prod.splits)
qed (simp add: tables_of_def)

lemma formats_ready_tick [simp]: "formats_ready env flags ds (s\<lparr>tick := t\<rparr>) = formats_ready env flags ds s"
  by (auto simp: formats_ready_def split: option.splits)

text \<open>The part of the call before the formats are stored.\<close>

lemma formats_call:
  assumes "cx \<noteq> NULL" "contexts s cx = Some c" "ctx_devices c \<noteq> []" "formats_ready env flags (ctx_devices c) s"
    and "\<not> malloc_fails env (tick s)" "\<not> malloc_fails env (Suc (tick s))" "tick s \<noteq> 0" and "0 < n \<or> arr = None"
  shows "clGetSupportedImageFormats env cx flags ty n arr s =
    obind (store_formats n (tl (tables_of env flags (ctx_devices c))) (hd (tables_of env flags (ctx_devices c))) 0 arr) (\<lambda>(k, arr).
    Ret (CL_SUCCESS, arr, Some k, next_tick (next_tick s)))"
proof -
  have "device_formats env flags [] (ctx_devices c) (s\<lparr>tick := Suc (Suc (tick s))\<rparr>) = Ret (Inr (tables_of env flags (ctx_devices c)))"
    using assms(4) by (simp add: device_formats_ready)
  then show ?thesis using assms by (auto simp: clGetSupportedImageFormats_def new_obj_def next_tick_def)
qed

lemma common_formats_hd: "ts \<noteq> [] \<Longrightarrow> common_formats ts = filter (\<lambda>f. \<forall>u \<in> set (tl ts). f \<in> set u) (hd ts)"
  by (cases ts) (auto simp: common_formats_def)

lemma tables_of_Nil [simp]: "tables_of env flags ds = [] \<longleftrightarrow> ds = []"
  by (simp add: tables_of_def)

lemma formats_two_calls:
  assumes ctx: "cx \<noteq> NULL" "contexts s cx = Some c" "ctx_devices c \<noteq> []" "formats_ready env flags (ctx_devices c) s"
    and mem: "\<And>i. \<not> malloc_fails env i" "tick s \<noteq> 0"
    and n: "n = length (common_formats (tables_of env flags (ctx_devices c)))" "0 < n" "length arr = n"
  shows "clGetSupportedImageFormats env cx flags ty 0 None s = Ret (CL_SUCCESS, None, Some n, next_tick (next_tick s))"
    "clGetSupportedImageFormats env cx flags ty n (Some arr) s =
      Ret (CL_SUCCESS, Some (map Some (common_formats (tables_of env flags (ctx_devices c)))), Some n, next_tick (next_tick s))"
proof -
  let ?ts = "tables_of env flags (ctx_devices c)"
  have cf: "common_formats ?ts = filter (\<lambda>f. \<forall>u \<in> set (tl ?ts). f \<in> set u) (hd ?ts)"
    using ctx(3) by (simp add: common_formats_hd)
  show "clGetSupportedImageFormats env cx flags ty 0 None s = Ret (CL_SUCCESS, None, Some n, next_tick (next_tick s))"
    using formats_call [OF ctx mem(1) mem(1) mem(2), of 0 None ty] n(1) cf by (simp add: store_formats_None)
  have "store_formats n (tl ?ts) (hd ?ts) 0 (Some ([] @ arr)) = Ret (n, Some ([] @ map Some (common_formats ?ts)))"
    using n cf store_formats_Some [of "[]" 0 arr "tl ?ts" "hd ?ts" n] by simp
  then show "clGetSupportedImageFormats env cx flags ty n (Some arr) s =
      Ret (CL_SUCCESS, Some (map Some (common_formats ?ts)), Some n, next_tick (next_tick s))"
    using formats_call [OF ctx mem(1) mem(1) mem(2), of n "Some arr" ty] n(2) by simp
qed

section \<open>Pixels of four floats\<close>

lemma uint_below: "unat (x :: size_t) < 2 ^ n \<Longrightarrow> uint x < 2 ^ n"
  using of_nat_less_iff [of "unat x" "2 ^ n", where ?'a = int] by (simp only: of_nat_unat of_nat_power of_nat_numeral)

lemma sint_small: "unat (x :: size_t) < 2 ^ 31 \<Longrightarrow> sint (ucast x :: c_int) = int (unat x)"
proof -
  assume "unat x < 2 ^ 31"
  then have x: "uint x < 2 ^ 31" by (rule uint_below)
  have pos: "0 \<le> uint x" by simp
  have "sint (ucast x :: c_int) = signed_take_bit 31 (uint (ucast x :: c_int))" by (simp add: sint_uint)
  also have "uint (ucast x :: c_int) = uint x" using x pos by (simp add: unsigned_ucast_eq take_bit_int_eq_self)
  also have "signed_take_bit 31 (uint x) = uint x" using x pos by (intro signed_take_bit_int_eq_self) (simp_all add: order_trans [of _ 0])
  finally show ?thesis by simp
qed

lemma through_int_small: "unat (x :: size_t) < 2 ^ 31 \<Longrightarrow> scast (ucast x :: c_int) = x"
  by (simp add: scast_eq sint_small)

lemma int_mult_four:
  assumes "unat (x :: size_t) * 4 < 2 ^ 31"
  shows "int_mult (ucast x) 4 = Ret (ucast (x * 4))" "unat (x * 4) = unat x * 4"
proof -
  show u: "unat (x * 4) = unat x * 4" by (rule unat_sum_of) (use assms in simp_all)
  have "sint (ucast x :: c_int) * sint (4 :: c_int) = int (unat x) * 4" using assms by (simp add: sint_small)
  moreover have "(ucast x :: c_int) * 4 = ucast (x * 4)"
    using of_nat_unat [of "x * 4", where ?'a = "32 word"] of_nat_unat [of x, where ?'a = "32 word"] u by simp
  moreover have "uint x < 2 ^ 29" by (rule uint_below) (use assms in simp)
  ultimately show "int_mult (ucast x) 4 = Ret (ucast (x * 4))" by (simp add: int_mult_def order_trans [of _ 0])
qed

text \<open>A two-dimensional image of four floats per pixel with its rows one after the other.\<close>

definition float_image :: "cl_mem \<Rightarrow> bool" where
  "float_image m \<longleftrightarrow> m_type m = CL_MEM_OBJECT_IMAGE2D \<and> image_elem_size m = 4 \<and> image_channels m = 4 \<and>
     image_row_pitch m = image_width m * 4 * 4 \<and> unat (image_width m) * 16 < 2 ^ 31 \<and> unat (image_height m) < 2 ^ 31"

lemma rect_rows_one_slice: "rect_rows (w, h, 1) dst dr ds src sr ss = rect_rows (w, h, 1) dst dr ds' src sr ss'"
  by (simp add: upt_rec)

text \<open>Where the pixel at \<open>(ox, oy)\<close> is, in the image and in the host's array alike.\<close>

definition pixel_offset :: "cl_mem \<Rightarrow> size_t \<Rightarrow> size_t \<Rightarrow> size_t" where
  "pixel_offset m ox oy = ox * 4 * 4 + image_row_pitch m * oy"

text \<open>Both transfers of a region of a float image are copies of its rows.\<close>

lemma write_float_image:
  assumes img: "img \<noteq> NULL" "ptr \<noteq> 0" "mems s img = Some m" "devices s d = Some dev" "dev_id dev < length (device_ptrs m)"
    and drv: "rect_driver (driver env d)"
    and fits: "\<not> (w * 4 * 4 * h > 0 \<and> w * 4 * 4 - 1 + image_row_pitch m * (h - 1) \<ge> m_size m)"
  shows "pocl_write_image env img d (Some (ox, oy, 0)) (Some (w, h, 1)) ptr s =
    obind (on_ram (copy_rows (w * 4 * 4) (rect_rows (w * 4 * 4, h, 1)
      (device_ptrs m ! dev_id dev + pixel_offset m ox oy) (image_row_pitch m) sl
      (ptr + pixel_offset m ox oy) (image_row_pitch m) sl)) s) (\<lambda>s. Ret (CL_SUCCESS, s))"
proof -
  have "pocl_write_image env img d (Some (ox, oy, 0)) (Some (w, h, 1)) ptr s =
    obind (on_ram (copy_rows (w * 4 * 4) (rect_rows (w * 4 * 4, h, 1)
      (device_ptrs m ! dev_id dev + pixel_offset m ox oy) (image_row_pitch m) 0
      (ptr + pixel_offset m ox oy) (image_row_pitch m) 0)) s) (\<lambda>s. Ret (CL_SUCCESS, s))"
    using img fits
    by (auto simp: pocl_write_image_def Let_def c_nth_def pixel_offset_def add.assoc rect_driver.write_rect_law [OF drv]
        simp del: rect_rows.simps)
  then show ?thesis by (subst (asm) rect_rows_one_slice [where ds' = sl and ss' = sl])
qed

lemma read_float_image:
  assumes img: "img \<noteq> NULL" "ptr \<noteq> 0" "mems s img = Some m" "devices s d = Some dev" "dev_id dev < length (device_ptrs m)"
    and drv: "rect_driver (driver env d)" and fl: "float_image m"
    and fits: "ox * 4 * 4 + w * 4 * 4 \<le> image_row_pitch m" "oy + h \<le> image_height m"
  shows "pocl_read_image env img d (Some (ox, oy, 0)) (Some (w, h, 1)) ptr s =
    obind (on_ram (copy_rows (w * 4 * 4) (rect_rows (w * 4 * 4, h, 1)
      (ptr + pixel_offset m ox oy) (image_row_pitch m) sl
      (device_ptrs m ! dev_id dev + pixel_offset m ox oy) (image_row_pitch m) sl)) s) (\<lambda>s. Ret (CL_SUCCESS, s))"
proof -
  let ?sl = "image_height m * image_row_pitch m"
  have f: "m_type m \<noteq> CL_MEM_OBJECT_IMAGE3D" "image_elem_size m = 4" "image_channels m = 4" "image_row_pitch m = image_width m * 4 * 4"
    "unat (image_width m) * 4 < 2 ^ 31" "unat (image_width m * 4) * 4 < 2 ^ 31" "unat (image_width m * 4 * 4) < 2 ^ 31"
    using fl int_mult_four(2) [of "image_width m"] int_mult_four(2) [of "image_width m * 4"]
    by (auto simp: float_image_def image_type_defs)
  have rp: "scast (ucast (image_width m * 4 * 4) :: c_int) = image_row_pitch m" using through_int_small [OF f(7)] f(4) by simp
  have hgt: "scast (ucast (image_height m) :: c_int) = image_height m" using fl by (intro through_int_small) (simp add: float_image_def)
  have "pocl_read_image env img d (Some (ox, oy, 0)) (Some (w, h, 1)) ptr s =
    obind (on_ram (copy_rows (w * 4 * 4) (rect_rows (w * 4 * 4, h, 1)
      (ptr + pixel_offset m ox oy) (image_row_pitch m) ?sl
      (device_ptrs m ! dev_id dev + pixel_offset m ox oy) (image_row_pitch m) ?sl)) s) (\<lambda>s. Ret (CL_SUCCESS, s))"
    using img fits f(1) rp
    by (auto dest: leD simp: pocl_read_image_def f(2,3) int_mult_four(1) [OF f(5)] int_mult_four(1) [OF f(6)] rect_driver.read_rect_law [OF drv]
        hgt c_nth_def pixel_offset_def add.assoc Let_def simp del: rect_rows.simps)
  then show ?thesis by (subst (asm) rect_rows_one_slice [where ds' = sl and ss' = sl])
qed

text \<open>The rows of a region of a float image, with the pitch of the image.\<close>

definition region_copyable :: "memory \<Rightarrow> cl_mem \<Rightarrow> size_t \<Rightarrow> size_t \<Rightarrow> size_t \<Rightarrow> size_t \<Rightarrow> bool" where
  "region_copyable r m dst src w h \<longleftrightarrow>
     copyable r dst (image_row_pitch m) (image_row_pitch m * h) src (image_row_pitch m) (image_row_pitch m * h) (w * 4 * 4, h, 1)"

lemma region_copy:
  assumes "region_copyable (ram s) m dst src w h"
  shows "\<exists>r. on_ram (copy_rows (w * 4 * 4) (rect_rows (w * 4 * 4, h, 1) dst (image_row_pitch m) (image_row_pitch m * h)
      src (image_row_pitch m) (image_row_pitch m * h))) s = Ret (s\<lparr>ram := r\<rparr>) \<and>
    (\<forall>j < unat h. \<forall>i < unat (w * 4 * 4). bytes r (dst + image_row_pitch m * of_nat j + of_nat i) =
        bytes (ram s) (src + image_row_pitch m * of_nat j + of_nat i)) \<and>
    (\<forall>p k. mapped r p k = mapped (ram s) p k)"
proof -
  from copyable_runs [OF assms [unfolded region_copyable_def]] obtain r where
    "copy_rows (w * 4 * 4) (rect_rows (w * 4 * 4, h, 1) dst (image_row_pitch m) (image_row_pitch m * h)
      src (image_row_pitch m) (image_row_pitch m * h)) (ram s) = Ret r"
    "\<forall>k < unat (1 :: size_t). \<forall>j < unat h. \<forall>i < unat (w * 4 * 4).
       bytes r (row_at dst (image_row_pitch m) (image_row_pitch m * h) j k + of_nat i) =
       bytes (ram s) (row_at src (image_row_pitch m) (image_row_pitch m * h) j k + of_nat i)"
    "\<forall>p k. mapped r p k = mapped (ram s) p k" by blast
  then show ?thesis by (intro exI [of _ r]) (simp add: on_ram_def row_at_def del: rect_rows.simps)
qed

section \<open>Properties\<close>

text \<open>C31. The two calls an application makes to find out the image formats of a context: the first, without an
  array, returns the number of formats every device of the context supports; the second, with an
  array of that length, fills it with exactly these formats, in the order of the first device.\<close>

theorem supported_formats_two_calls:
  assumes ctx: "cx \<noteq> NULL" "contexts s cx = Some c" "ctx_devices c \<noteq> []" "formats_ready env flags (ctx_devices c) s"
    and mem: "\<And>i. \<not> malloc_fails env i" "tick s \<noteq> 0"
    and n: "n = length (common_formats (tables_of env flags (ctx_devices c)))" "0 < n" "length arr = n"
  shows "\<exists>s1 s2. clGetSupportedImageFormats env cx flags ty 0 None s = Ret (CL_SUCCESS, None, Some n, s1) \<and>
    clGetSupportedImageFormats env cx flags ty n (Some arr) s1 =
      Ret (CL_SUCCESS, Some (map Some (common_formats (tables_of env flags (ctx_devices c)))), Some n, s2)"
proof -
  let ?s1 = "next_tick (next_tick s)"
  have "contexts ?s1 cx = Some c" "formats_ready env flags (ctx_devices c) ?s1" "tick ?s1 \<noteq> 0"
    using ctx by (simp_all add: next_tick_def)
  from formats_two_calls(2) [OF ctx(1) this(1) ctx(3) this(2) mem(1) this(3) n, of ty]
    formats_two_calls(1) [OF ctx mem n, of ty]
  show ?thesis by blast
qed

definition two_formats :: "cl_image_format list" where
  "two_formats = formats CL_RGBA [CL_FLOAT, CL_UNORM_INT8]"

definition format_env :: env where
  "format_env = demo_env\<lparr>driver := (\<lambda>d. (basic_ops demo_library)
     \<lparr>op_get_supported_image_formats := (\<lambda>_. (CL_SUCCESS, if d = 1 then supported_image_formats else two_formats))\<rparr>)\<rparr>"

definition format_context :: cl_context where
  "format_context = \<lparr>ctx_refcount = 2, ctx_devices = [Some 6, Some 1], ctx_properties = None, valid = True\<rparr>"

definition format_rt :: rt where
  "format_rt = demo_rt\<lparr>devices := [1 \<mapsto> demo_device, 6 \<mapsto> demo_device], contexts := [2 \<mapsto> format_context]\<rparr>"

lemma format_ready: "formats_ready format_env 0 (ctx_devices format_context) format_rt"
  by (simp add: formats_ready_def format_env_def format_rt_def format_context_def two_formats_def formats_def
      supported_image_formats_def all_channel_types_def)

lemma format_common: "common_formats (tables_of format_env 0 (ctx_devices format_context)) = two_formats"
proof -
  have "tables_of format_env 0 (ctx_devices format_context) = [two_formats, supported_image_formats]"
    by (simp add: tables_of_def format_env_def format_context_def)
  moreover have "set two_formats \<subseteq> set supported_image_formats"
    by (simp add: two_formats_def formats_def supported_image_formats_def all_channel_types_def)
  ultimately show ?thesis by (simp add: common_formats_def subset_iff)
qed

lemma format_objects:
  "contexts format_rt 2 = Some format_context" "ctx_devices format_context \<noteq> []" "\<not> malloc_fails format_env i" "tick format_rt \<noteq> 0"
  "length two_formats = 2"
  by (simp_all add: format_rt_def demo_rt_def format_context_def format_env_def demo_env_def two_formats_def formats_def)

theorem supported_formats_two_calls_witness:
  "\<exists>s1 s2. clGetSupportedImageFormats format_env 2 0 0x10F1 0 None format_rt = Ret (CL_SUCCESS, None, Some 2, s1) \<and>
     clGetSupportedImageFormats format_env 2 0 0x10F1 2 (Some [None, None]) s1 = Ret (CL_SUCCESS, Some (map Some two_formats), Some 2, s2)"
proof -
  have "(2 :: nat) \<noteq> NULL" "2 = length (common_formats (tables_of format_env 0 (ctx_devices format_context)))" "0 < (2 :: nat)"
    "length [None, None :: cl_image_format option] = 2"
    by (simp_all add: format_common format_objects(5))
  from supported_formats_two_calls [OF this(1) format_objects(1,2) format_ready format_objects(3,4) this(2-4), of "0x10F1"]
  show ?thesis unfolding format_common .
qed

text \<open>An array shorter than the list of formats is overrun: the test \<open>formatCount <= num\_entries\<close> lets one
  entry too many through. Whenever a context supports more formats than the array has entries, the call
  writes behind the end of the array.\<close>

theorem supported_formats_overrun:
  assumes ctx: "cx \<noteq> NULL" "contexts s cx = Some c" "ctx_devices c \<noteq> []" "formats_ready env flags (ctx_devices c) s"
    and mem: "\<And>i. \<not> malloc_fails env i" "tick s \<noteq> 0"
    and n: "n < length (common_formats (tables_of env flags (ctx_devices c)))" "0 < n" "length arr = n"
  shows "clGetSupportedImageFormats env cx flags ty n (Some arr) s = Undef"
proof -
  let ?ts = "tables_of env flags (ctx_devices c)"
  have run: "store_formats n ts fs k (Some a) = Undef"
    if "k \<le> n" "length a = n" "n < k + length (filter (\<lambda>f. \<forall>u \<in> set ts. f \<in> set u) fs)" for ts fs k a
    using that by (induction fs arbitrary: k a) (auto split: if_splits)
  have "common_formats ?ts = filter (\<lambda>f. \<forall>u \<in> set (tl ?ts). f \<in> set u) (hd ?ts)"
    using ctx(3) by (simp add: common_formats_hd)
  then have "store_formats n (tl ?ts) (hd ?ts) 0 (Some arr) = Undef" using n by (intro run) simp_all
  then show ?thesis using formats_call [OF ctx mem(1) mem(1) mem(2), of n "Some arr" ty] n(2) by simp
qed

theorem supported_formats_overrun_witness:
  "clGetSupportedImageFormats format_env 2 0 0x10F1 1 (Some [None]) format_rt = Undef"
  by (rule supported_formats_overrun [OF _ format_objects(1,2) format_ready format_objects(3,4)])
    (simp_all add: format_common format_objects(5))


definition demo_image :: cl_mem where
  "demo_image = demo_buffer\<lparr>m_type := CL_MEM_OBJECT_IMAGE2D, is_image := True, image_width := 1, image_height := 1,
     image_row_pitch := 16, image_elem_size := 4, image_channels := 4, image_channel_order := CL_RGBA,
     image_channel_data_type := CL_FLOAT\<rparr>"

definition image_rt :: rt where
  "image_rt = demo_idle\<lparr>mems := [4 \<mapsto> demo_image]\<rparr>"

definition no_hsa :: hsa_images where
  "no_hsa = \<lparr>image_info = (\<lambda>_ _ _. (16, 0)), create_handle = (\<lambda>_ _ _ _. 0), image_import = (\<lambda>_ _ _ _ _ _ _ m. Ret m),
     image_export = (\<lambda>_ _ _ _ _ _ _ m. Ret m)\<rparr>"

lemmas image_demo_defs = demo_image_def image_rt_def demo_defs

lemma demo_float_image: "float_image demo_image"
  by (simp add: float_image_def demo_image_def)

lemma demo_region: "region_copyable demo_memory demo_image 0x1010 0x1000 1 1" "region_copyable demo_memory demo_image 0x1020 0x1010 1 1"
  by (auto simp: region_copyable_def demo_image_def mapped_def demo_memory_def in_range_def upt_rec intro!: apart_linear_code)


text \<open>A queued read of an image reads nothing: its node has the type of a buffer read, and the fields that
  \<open>clFinish\<close> takes for the size and the buffer hold the origin. With the origin at 0 the call leaves a command that transfers no byte,
  so that after \<open>clFinish\<close> the memory is what it was, and the reference the call took on the image is not
  returned.\<close>

theorem queued_image_read_lost:
  assumes q: "queues s q = Some cq" "root cq = []" "\<not> has (q_properties cq) CL_QUEUE_OUT_OF_ORDER_EXEC_MODE_ENABLE"
    and dev: "devices s (q_device cq) = Some dev" "device_driver (driver env (q_device cq))"
    and img: "img \<noteq> NULL" "mems s img = Some m" "dev_id dev < length (device_ptrs m)" "m_refcount m < 2 ^ 31 - 1"
    and mem: "\<not> malloc_fails env (tick s)" "tick s \<noteq> 0"
  shows "\<exists>s1 s2. clEnqueueReadImage hsa env q img False (Some (0, 0, 0)) (Some region) pitch p False s = Ret (None, NULL, s1) \<and>
    clFinish env q s1 = Ret (CL_SUCCESS, s2) \<and> ram s2 = ram s \<and> mems s2 img = Some (m\<lparr>m_refcount := m_refcount m + 1\<rparr>)"
proof -
  let ?d = "device_ptrs m ! dev_id dev" and ?m = "m\<lparr>m_refcount := m_refcount m + 1\<rparr>"
  let ?node = "\<lparr>cmd = Cmd_read ?d 0 0 0, node_event = NULL\<rparr>"
  let ?s1 = "(next_tick s)\<lparr>mems := (mems s)(img \<mapsto> ?m), queues := (queues s)(q \<mapsto> cq\<lparr>root := [?node]\<rparr>)\<rparr>"
  have one: "clEnqueueReadImage hsa env q img False (Some (0, 0, 0)) (Some region) pitch p False s = Ret (None, NULL, ?s1)"
    using q dev img mem by (simp add: clEnqueueReadImage_def image_event_def new_obj_def next_tick_def c_nth_def clRetainMemObject_def
        retain_mem_def POCL_RETAIN_OBJECT_def incr_def append_command_def)
  have "movable (ram s) ?d 0 (unat (0 :: size_t))" by (simp add: movable_def mapped_def apart_def in_range_def)
  from device_driver.read_law [OF dev(2) this] obtain r where r: "op_read (driver env (q_device cq)) (ram s) ?d 0 0 = Ret r"
    "moved (ram s) ?d 0 (unat (0 :: size_t)) r" by blast
  have "r = ram s" using r(2) by (intro memory.equality) (auto simp: moved_def in_range_def)
  then have "clFinish env q ?s1 = Ret (CL_SUCCESS, ?s1\<lparr>queues := (queues s)(q \<mapsto> cq\<lparr>root := []\<rparr>)\<rparr>)"
    using q dev r(1) by (simp add: clFinish_def exec_command_def POCL_UPDATE_EVENT_SUBMITTED_def POCL_UPDATE_EVENT_RUNNING_def
        POCL_UPDATE_EVENT_COMPLETE_def update_event_def device_op_def on_ram_def release_buffer_def clReleaseMemObject_def next_tick_def)
  with one show ?thesis
    by (intro exI [of _ ?s1] exI [of _ "?s1\<lparr>queues := (queues s)(q \<mapsto> cq\<lparr>root := []\<rparr>)\<rparr>"] conjI) (simp_all add: next_tick_def)
qed

theorem queued_image_read_lost_witness:
  "\<exists>s1 s2. clEnqueueReadImage no_hsa demo_env 3 4 False (Some (0, 0, 0)) (Some (1, 1, 1)) 0 0x1020 False image_rt = Ret (None, NULL, s1) \<and>
     clFinish demo_env 3 s1 = Ret (CL_SUCCESS, s2) \<and> ram s2 = ram image_rt \<and> mems s2 4 = Some (demo_image\<lparr>m_refcount := 3\<rparr>)"
proof -
  have o: "queues image_rt 3 = Some (demo_queue\<lparr>root := []\<rparr>)" "root (demo_queue\<lparr>root := []\<rparr>) = []"
    "\<not> has (q_properties (demo_queue\<lparr>root := []\<rparr>)) CL_QUEUE_OUT_OF_ORDER_EXEC_MODE_ENABLE"
    "devices image_rt (q_device (demo_queue\<lparr>root := []\<rparr>)) = Some demo_device"
    "device_driver (driver demo_env (q_device (demo_queue\<lparr>root := []\<rparr>)))" "(4 :: nat) \<noteq> NULL" "mems image_rt 4 = Some demo_image"
    "dev_id demo_device < length (device_ptrs demo_image)" "m_refcount demo_image < 2 ^ 31 - 1" "\<not> malloc_fails demo_env (tick image_rt)"
    "tick image_rt \<noteq> 0" "m_refcount demo_image + 1 = 3"
    using basic.device_driver_axioms demo_objects
    by (simp_all add: image_rt_def demo_idle_def demo_image_def)
      (simp_all add: demo_rt_def demo_device_def demo_buffer_def demo_queue_def demo_env_def has_def)
  from queued_image_read_lost [OF o(1-11), of no_hsa "(1, 1, 1)" 0 "0x1020"] show ?thesis unfolding o(12) .
qed

lemma update_event_queues: "update_event stamp st env q e s = Ret s' \<Longrightarrow> queues s' = queues s \<and> devices s' = devices s"
  by (auto simp: update_event_def outcome_simps next_tick_def Let_def split: if_splits)

lemma pocl_read_image_queues: "pocl_read_image env img d origin region p s = Ret (code, s') \<Longrightarrow> queues s' = queues s \<and> devices s' = devices s"
  by (auto simp: pocl_read_image_def outcome_simps on_ram_def Let_def split: if_splits option.splits prod.splits)

text \<open>A blocking read of an image with an event gives back a reference to the queue that it never took: whatever the
  call returns, an idle queue has one reference less afterwards, and a queue whose only reference is the
  caller's is gone.\<close>

theorem image_read_drops_queue_reference:
  assumes run: "clEnqueueReadImage hsa env q img True origin region pitch p True s = Ret (code, event, s')" and e: "event \<noteq> NULL"
    and q: "queues s q = Some cq" "root cq = []" "devices s (q_device cq) = Some dev" "\<not> has (dev_type dev) CL_DEVICE_TYPE_GPU"
  shows "queues s' q = (if q_refcount cq = 1 then None else Some (cq\<lparr>q_refcount := q_refcount cq - 1\<rparr>))"
proof -
  note upd = POCL_UPDATE_EVENT_QUEUED_def POCL_UPDATE_EVENT_SUBMITTED_def POCL_UPDATE_EVENT_RUNNING_def POCL_UPDATE_EVENT_COMPLETE_def
  obtain ev s1 where s1: "image_event env q True s = Ret (ev, s1)" using run q(1) by (auto simp: clEnqueueReadImage_def outcome_simps)
  have q1: "queues s1 = queues s \<and> devices s1 = devices s"
    using s1 by (auto simp: image_event_def outcome_simps upd new_obj_def next_tick_def split: if_splits dest!: update_event_queues)
  obtain e1 where ev: "ev = Inr e1" using run e q(1) s1 by (cases ev) (auto simp: clEnqueueReadImage_def)
  obtain s2 s3 st s4 s5 where steps: "POCL_UPDATE_EVENT_SUBMITTED env q e1 s1 = Ret s2" "POCL_UPDATE_EVENT_RUNNING env q e1 s2 = Ret s3"
    "read_image_now hsa env cq img origin region pitch p s3 = Ret (st, s4)" "POCL_UPDATE_EVENT_COMPLETE env q e1 s4 = Ret s5"
    "\<exists>x. clReleaseCommandQueue env q s5 = Ret (x, s')"
    using run q(1) s1 ev by (auto simp: clEnqueueReadImage_def outcome_simps)
  have q3: "queues s3 = queues s \<and> devices s3 = devices s" using steps(1,2) q1 by (auto simp: upd dest!: update_event_queues)
  then have "pocl_read_image env img (q_device cq) origin region p s3 = Ret (st, s4)" using steps(3) q by (auto simp: read_image_now_def)
  then have q5: "queues s5 = queues s" "devices s5 = devices s"
    using q3 steps(4) by (auto simp: upd dest!: update_event_queues pocl_read_image_queues)
  from steps(5) show ?thesis
    using q q5 by (auto simp: clReleaseCommandQueue_def clFlush_def clFinish_def outcome_simps release_queue_def POCL_RELEASE_OBJECT_def decr_def
        split: if_splits)
qed

definition last_queue :: cl_command_queue where
  "last_queue = demo_queue\<lparr>root := [], q_refcount := 1\<rparr>"

definition last_rt :: rt where
  "last_rt = image_rt\<lparr>queues := [3 \<mapsto> last_queue]\<rparr>"

theorem image_read_drops_queue_reference_witness:
  "\<exists>s'. clEnqueueReadImage no_hsa demo_env 3 4 True (Some (0, 0, 0)) (Some (1, 1, 1)) 0 0x1020 True last_rt = Ret (Some CL_SUCCESS, 10, s') \<and>
     queues s' 3 = None"
proof -
  let ?call = "clEnqueueReadImage no_hsa demo_env 3 4 True (Some (0, 0, 0)) (Some (1, 1, 1)) 0 0x1020 True last_rt"
  have "\<exists>s'. ?call = Ret (Some CL_SUCCESS, 10, s')"
    by (simp add: clEnqueueReadImage_def image_event_def new_obj_def next_tick_def POCL_UPDATE_EVENT_QUEUED_def POCL_UPDATE_EVENT_SUBMITTED_def
        POCL_UPDATE_EVENT_RUNNING_def POCL_UPDATE_EVENT_COMPLETE_def update_event_def read_image_now_def has_def pocl_read_image_def
        int_mult_def on_ram_def c_nth_def clReleaseCommandQueue_def clFlush_def clFinish_def release_queue_def POCL_RELEASE_OBJECT_def decr_def
        last_rt_def last_queue_def image_demo_defs basic_ops_def pocl_basic_read_rect_def copy_rows_def memcpy_def mapped_def overlap_def
        demo_memory_def in_range_def upt_rec image_type_defs CL_DEVICE_TYPE_CPU_def CL_DEVICE_TYPE_GPU_def)
  then obtain s' where s': "?call = Ret (Some CL_SUCCESS, 10, s')" by blast
  have o: "(10 :: nat) \<noteq> NULL" "queues last_rt 3 = Some last_queue" "root last_queue = []" "devices last_rt (q_device last_queue) = Some demo_device"
    "\<not> has (dev_type demo_device) CL_DEVICE_TYPE_GPU" "q_refcount last_queue = 1"
    by (simp_all add: last_rt_def last_queue_def image_demo_defs has_def CL_DEVICE_TYPE_CPU_def CL_DEVICE_TYPE_GPU_def)
  show ?thesis using s' image_read_drops_queue_reference [OF s' o(1-5)] o(6) by auto
qed

text \<open>The check whether a device supports the format of an image accepts every format: the \<open>goto\<close> that was meant
  for the branch of a match leaves the loop in its first round. On a device with images, for an image that
  is not too large, the check succeeds whatever channel order and type the image has.\<close>

theorem device_supports_every_format:
  assumes q: "queues s q = Some cq" "devices s (q_device cq) = Some dev" "image_support (dev_info dev) \<noteq> 0"
    and img: "mems s img = Some m" "\<not> image_too_large m (dev_info dev)"
    and ctx: "q_context cq \<noteq> NULL" "contexts s (q_context cq) = Some c" "ctx_devices c \<noteq> []" "formats_ready env 0 (ctx_devices c) s"
    and mem: "\<And>i. \<not> malloc_fails env i" "tick s \<noteq> 0"
    and some: "common_formats (tables_of env 0 (ctx_devices c)) \<noteq> []"
  shows "\<exists>s'. pocl_check_device_supports_image env img q s = Ret (CL_SUCCESS, s')"
proof -
  let ?fs = "common_formats (tables_of env 0 (ctx_devices c))" and ?s1 = "next_tick (next_tick s)"
  let ?s2 = "next_tick ?s1"
  obtain f fs where fs: "?fs = f # fs" using some by (cases ?fs) auto
  have one: "clGetSupportedImageFormats env (q_context cq) 0 (m_type m) 0 None s = Ret (CL_SUCCESS, None, Some (length ?fs), ?s1)"
    by (rule formats_two_calls(1) [OF ctx mem refl, where arr = "replicate (length ?fs) None"]) (use some in simp_all)
  have two: "clGetSupportedImageFormats env (q_context cq) 0 (m_type m) (length ?fs) (Some (replicate (length ?fs) None)) ?s2 =
      Ret (CL_SUCCESS, Some (map Some ?fs), Some (length ?fs), next_tick (next_tick ?s2))"
    by (rule formats_two_calls(2) [where c = c]) (use ctx mem some in \<open>simp_all add: next_tick_def\<close>)
  have new: "new_obj env ?s1 = (tick ?s1, ?s2)" "tick ?s1 \<noteq> 0" using mem by (simp_all add: new_obj_def next_tick_def)
  show ?thesis
    using q img one two new fs by (auto simp: pocl_check_device_supports_image_def)
qed

definition image_device :: device where
  "image_device = demo_device\<lparr>dev_info := (basic_info demo_config)\<lparr>image_support := 1\<rparr>\<rparr>"

definition odd_image :: cl_mem where
  "odd_image = demo_buffer\<lparr>m_type := 0x10F0, image_channel_order := 0, image_channel_data_type := 0\<rparr>"

definition odd_rt :: rt where
  "odd_rt = format_rt\<lparr>devices := [1 \<mapsto> image_device, 6 \<mapsto> image_device], mems := [4 \<mapsto> odd_image]\<rparr>"

theorem device_supports_every_format_witness:
  "\<lparr>fmt_order = image_channel_order odd_image, fmt_type = image_channel_data_type odd_image\<rparr> \<notin> set supported_image_formats \<and>
   (\<exists>s'. pocl_check_device_supports_image format_env 4 3 odd_rt = Ret (CL_SUCCESS, s'))"
proof -
  have o: "queues odd_rt 3 = Some demo_queue" "devices odd_rt (q_device demo_queue) = Some image_device"
    "image_support (dev_info image_device) \<noteq> 0" "mems odd_rt 4 = Some odd_image" "\<not> image_too_large odd_image (dev_info image_device)"
    "q_context demo_queue \<noteq> NULL" "contexts odd_rt (q_context demo_queue) = Some format_context" "tick odd_rt \<noteq> 0"
    by (simp_all add: odd_rt_def format_rt_def demo_rt_def demo_queue_def image_device_def odd_image_def image_too_large_def image_type_defs)
  have r: "formats_ready format_env 0 (ctx_devices format_context) odd_rt"
    using format_ready by (auto simp: formats_ready_def odd_rt_def format_rt_def format_context_def)
  have s: "common_formats (tables_of format_env 0 (ctx_devices format_context)) \<noteq> []"
    by (simp add: format_common two_formats_def formats_def)
  have "\<lparr>fmt_order = image_channel_order odd_image, fmt_type = image_channel_data_type odd_image\<rparr> \<notin> set supported_image_formats"
    by (simp add: odd_image_def supported_image_formats_def formats_def channel_order_defs image_iff)
  with device_supports_every_format [OF o(1-7) format_objects(2) r format_objects(3) o(8) s] show ?thesis by blast
qed

lemma map_of_snd_inj: "distinct (map snd xs) \<Longrightarrow> map_of xs a = Some v \<Longrightarrow> map_of xs b = Some v \<Longrightarrow> a = b"
  by (auto simp: distinct_map dest!: map_of_SomeD dest: inj_onD [of snd _ "(a, v)" "(b, v)"])

text \<open>The translation of image formats to HSA is complete and loses nothing: every format of the table of
  the drivers has an HSA channel type and an HSA channel order, and two formats of the table with the same
  descriptor are the same format.\<close>

theorem imageTypeMapping_faithful:
  assumes "f \<in> set supported_image_formats" "g \<in> set supported_image_formats" "desc_type desc \<noteq> CL_MEM_OBJECT_IMAGE1D_BUFFER"
  shows "\<exists>d. imageTypeMapping f desc = Ret d \<and> channel_type d \<noteq> None \<and> channel_order d \<noteq> None \<and>
    (imageTypeMapping g desc = Ret d \<longrightarrow> f = g)"
proof -
  have types: "fmt_type h \<in> dom (map_of hsa_channel_types)" and orders: "fmt_order h \<in> dom (map_of hsa_channel_orders)"
    if "h \<in> set supported_image_formats" for h
    using that by (auto simp: supported_image_formats_def formats_def all_channel_types_def hsa_channel_types_def hsa_channel_orders_def
        channel_type_defs channel_order_defs)
  have "distinct (map snd hsa_channel_types)" "distinct (map snd hsa_channel_orders)"
    by (simp_all add: hsa_channel_types_def hsa_channel_orders_def)
  note inj = map_of_snd_inj [OF this(1)] map_of_snd_inj [OF this(2)]
  have eq: "map_of hsa_channel_types (fmt_type g) = map_of hsa_channel_types (fmt_type f) \<Longrightarrow> fmt_type g = fmt_type f"
    "map_of hsa_channel_orders (fmt_order g) = map_of hsa_channel_orders (fmt_order f) \<Longrightarrow> fmt_order g = fmt_order f"
    using types [OF assms(1)] orders [OF assms(1)] inj by auto
  show ?thesis
    using types [OF assms(1)] orders [OF assms(1)] assms(3) eq
    by (auto simp: imageTypeMapping_def intro: cl_image_format.equality)
qed

theorem imageTypeMapping_faithful_witness:
  "\<exists>d. imageTypeMapping \<lparr>fmt_order = CL_RGBA, fmt_type = CL_FLOAT\<rparr>
       \<lparr>desc_type = CL_MEM_OBJECT_IMAGE2D, desc_width = 1, desc_height = 1, desc_depth = 1, desc_array = 0, desc_row_pitch = 0,
        desc_slice_pitch = 0, desc_mip_levels = 0, desc_samples = 0, desc_buffer = NULL\<rparr> = Ret d \<and> channel_type d \<noteq> None"
proof -
  have f: "\<lparr>fmt_order = CL_RGBA, fmt_type = CL_FLOAT\<rparr> \<in> set supported_image_formats"
    by (simp add: supported_image_formats_def formats_def all_channel_types_def)
  show ?thesis
    using imageTypeMapping_faithful [OF f f, where desc = "\<lparr>desc_type = CL_MEM_OBJECT_IMAGE2D, desc_width = 1, desc_height = 1, desc_depth = 1,
        desc_array = 0, desc_row_pitch = 0, desc_slice_pitch = 0, desc_mip_levels = 0, desc_samples = 0, desc_buffer = NULL\<rparr>"]
    by (auto simp: image_type_defs)
qed

definition byte_env :: env where
  "byte_env = demo_env\<lparr>driver := (\<lambda>_. (basic_ops demo_library)
     \<lparr>op_get_supported_image_formats := (\<lambda>_. (CL_SUCCESS, [\<lparr>fmt_order = CL_R, fmt_type = CL_UNORM_INT8\<rparr>]))\<rparr>)\<rparr>"

definition two_slices :: cl_image_desc where
  "two_slices = \<lparr>desc_type = CL_MEM_OBJECT_IMAGE3D, desc_width = 1, desc_height = 1, desc_depth = 2, desc_array = 0, desc_row_pitch = 0,
     desc_slice_pitch = 0, desc_mip_levels = 0, desc_samples = 0, desc_buffer = NULL\<rparr>"

lemma volume_run:
  "obind (clCreateImage no_hsa demo_library byte_env 2 CL_MEM_READ_WRITE (Some \<lparr>fmt_order = CL_R, fmt_type = CL_UNORM_INT8\<rparr>) (Some two_slices) 0 demo_idle)
     (\<lambda>(code, mem, s). obind (deref (mems s mem)) (\<lambda>m.
      Ret (code, m_size m, image_depth m, pocl_read_image byte_env mem 1 (Some (0, 0, 1)) (Some (1, 1, 1)) 0x1000 s))) = Ret (CL_SUCCESS, 1, 2, Undef)"
  by (simp add: clCreateImage_def clGetSupportedImageFormats_def new_obj_def next_tick_def byte_env_def two_slices_def demo_defs
      pocl_get_image_information_def image_size_of_def through_int_def image_row_pitch_of_def image_slice_pitch_of_def channel_type_defs
      channel_order_defs clCreateBuffer_def flags_conflict_def host_ptr_mismatch_def has_def mem_flag_defs basic_ops_def pocl_basic_malloc_def
      posix_memalign_def demo_library_def MAX_EXTENDED_ALIGNMENT_def demo_memory_def in_range_def mapped_def c_nth_def init_buffer_def
      retain_context_def POCL_RETAIN_OBJECT_def incr_def CL_DEVICE_TYPE_CPU_def CL_DEVICE_TYPE_GPU_def make_image_def pocl_read_image_def
      int_mult_def on_ram_def pocl_basic_read_rect_def copy_rows_def memcpy_def image_type_defs upt_rec Let_def)

text \<open>The memory behind a three-dimensional image holds one slice: the size \<open>clCreateImage\<close> asks for leaves the depth
  out, while reading is allowed up to the depth. An image of 1 by 1 by 2 pixels of one byte is created with success and
  a size of one byte, and reading its second slice, which passes all the checks, reads behind the end of
  that memory, where nothing is mapped.\<close>

theorem volume_holds_one_slice:
  "\<exists>mem s m. clCreateImage no_hsa demo_library byte_env 2 CL_MEM_READ_WRITE (Some \<lparr>fmt_order = CL_R, fmt_type = CL_UNORM_INT8\<rparr>)
       (Some two_slices) 0 demo_idle = Ret (CL_SUCCESS, mem, s) \<and>
     mems s mem = Some m \<and> m_size m = 1 \<and> image_depth m = 2 \<and>
     pocl_read_image byte_env mem 1 (Some (0, 0, 1)) (Some (1, 1, 1)) 0x1000 s = Undef"
  using volume_run by (auto simp: obind_Ret_iff deref_Ret_iff)

end
