(* ===== verification/Host.thy ===== *)
theory Host
  imports Kernels "HOL-Library.Sublist"
begin

text \<open>
  What the creation of programs and kernels uses of the host: strings of the C library, the
  environment variables, files and directories, the shell, and the loaders of ELF files and
  shared objects. The file system is explicit; the answers of the operating system are numbered by \<open>tick\<close> as elsewhere,
  a negative one being a failure. Paths are kept in the spelling the code gives them.
\<close>

section \<open>C strings\<close>

abbreviation NUL :: char where "NUL \<equiv> CHR 0x00"

text \<open>The text in an array of characters: an array without a terminator is read past its end.\<close>

definition c_str :: "string \<Rightarrow> string outcome" where
  "c_str buf = (if NUL \<in> set buf then Ret (takeWhile (\<lambda>c. c \<noteq> NUL) buf) else Undef)"

definition c_strlen :: "string \<Rightarrow> size_t outcome" where
  "c_strlen buf = obind (c_str buf) (\<lambda>t. Ret (of_nat (length t)))"

text \<open>\<open>strcpy\<close> of a terminated text into an array of \<open>n\<close> characters.\<close>

definition c_strcpy :: "nat \<Rightarrow> string \<Rightarrow> string outcome" where
  "c_strcpy n t = (let u = takeWhile (\<lambda>c. c \<noteq> NUL) t in if length u < n then Ret u else Undef)"

definition snprintf :: "nat \<Rightarrow> string \<Rightarrow> string" where
  "snprintf n t = take (n - 1) t"

text \<open>\<open>sprintf\<close> does not look at the size of the array.\<close>

definition sprintf :: "nat \<Rightarrow> string \<Rightarrow> string outcome" where
  "sprintf n t = (if length t < n then Ret t else Undef)"

text \<open>\<open>strstr\<close>: the rest of the text from the first occurrence on.\<close>

fun strstr :: "string \<Rightarrow> string \<Rightarrow> string option" where
  "strstr [] pat = (if pat = [] then Some [] else None)"
| "strstr (c # cs) pat = (if prefix pat (c # cs) then Some (c # cs) else strstr cs pat)"

text \<open>\<open>strtok\<close> for one delimiter: the next token and what is left; \<open>None\<close> is NULL.\<close>

definition strtok :: "char \<Rightarrow> string \<Rightarrow> string option \<times> string" where
  "strtok d t =
     (let u = dropWhile (\<lambda>c. c = d) t in
      if u = [] then (None, [])
      else (Some (takeWhile (\<lambda>c. c \<noteq> d) u), drop 1 (dropWhile (\<lambda>c. c \<noteq> d) u)))"

lemma strstr_Some:
  "strstr t pat = Some u \<Longrightarrow> \<exists>pre post. t = pre @ pat @ post \<and> u = pat @ post"
proof (induction t)
  case (Cons c cs)
  then show ?case
  proof (cases "prefix pat (c # cs)")
    case True
    then show ?thesis using Cons.prems by (auto simp: prefix_def intro: exI [of _ "[]"])
  next
    case False
    then obtain pre post where "cs = pre @ pat @ post" "u = pat @ post" using Cons by auto
    then show ?thesis by (intro exI [of _ "c # pre"] exI [of _ post]) simp
  qed
qed (auto split: if_splits)

lemma strstr_None: "strstr t pat = None \<longleftrightarrow> \<not> sublist pat t"
  by (induction t) (auto simp: sublist_Cons_right)

lemma strstr_prefix: "prefix pat t \<Longrightarrow> strstr t pat = Some t"
  by (cases t) auto

section \<open>Files\<close>

datatype node = File "byte list" | Dir

type_synonym fsys = "string \<Rightarrow> node option"

text \<open>A section of an ELF file: its name when its header can be read, and its data when libelf can get at them.\<close>

type_synonym elf_section = "string option \<times> byte list option"

text \<open>What libelf finds in a file: the kind, whether the headers can be read, the sections.\<close>

record elf =
  is_elf :: bool
  has_headers :: bool
  sections :: "elf_section list"

text \<open>The symbols of the shared object that describes a kernel.\<close>

record kernel_descriptor =
  desc_num_args :: nat
  desc_reqd_wg_size :: "int list option"
  desc_arg_is_pointer :: "bool list"
  desc_arg_is_local :: "bool list option"
  desc_arg_is_image :: "bool list"
  desc_arg_is_sampler :: "bool list"
  desc_num_locals :: nat
  desc_local_sizes :: "cl_uint list"

text \<open>
  The host: environment variables, what \<open>mkdtemp\<close> answers (whether it made the directory, and its name),
  the shell, the \<open>build\_program\<close> entry of a device's driver, the install paths, libelf, \<open>lt\_dlopen\<close>, the descriptor the HSA finalizer makes for the kernel at an offset of a module, and what is in the memory
  of a new kernel record.
\<close>

record host =
  getenv :: "string \<Rightarrow> string option"
  mkdtemp :: "nat \<Rightarrow> bool \<times> string"
  system :: "string \<Rightarrow> fsys \<Rightarrow> int \<times> fsys"
  build_program :: "ptr \<Rightarrow> (string \<Rightarrow> string \<Rightarrow> string \<Rightarrow> string \<Rightarrow> fsys \<Rightarrow> int \<times> fsys) option"
  builddir :: string
  pkgdatadir :: string
  elf_version_ok :: bool
  elf_begin :: "byte list \<Rightarrow> elf option"
  lt_dlopen :: "byte list \<Rightarrow> kernel_descriptor option"
  code_descriptor :: "brig_module \<Rightarrow> nat \<Rightarrow> hsa_code_descriptor"
  raw_kernel :: cl_kernel

definition os_ok :: "env \<Rightarrow> rt \<Rightarrow> bool \<times> rt" where
  "os_ok env s = (0 \<le> os env (tick s), next_tick s)"

text \<open>How many of \<open>n\<close> bytes \<open>fread\<close> or \<open>fwrite\<close> moves.\<close>

definition os_count :: "env \<Rightarrow> nat \<Rightarrow> rt \<Rightarrow> nat \<times> rt" where
  "os_count env n s = (if 0 \<le> os env (tick s) then n else min n (nat (- os env (tick s) - 1)), next_tick s)"

definition mkdir :: "env \<Rightarrow> string \<Rightarrow> rt \<times> fsys \<Rightarrow> bool \<times> rt \<times> fsys" where
  "mkdir env path = (\<lambda>(s, fs).
     case os_ok env s of (ok, s) \<Rightarrow>
     if ok \<and> fs path = None then (True, s, fs(path \<mapsto> Dir)) else (False, s, fs))"

text \<open>\<open>fopen\<close> for writing makes an empty file.\<close>

definition fopen_w :: "env \<Rightarrow> string \<Rightarrow> rt \<times> fsys \<Rightarrow> bool \<times> rt \<times> fsys" where
  "fopen_w env path = (\<lambda>(s, fs).
     case os_ok env s of (ok, s) \<Rightarrow>
     if ok \<and> fs path \<noteq> Some Dir then (True, s, fs(path \<mapsto> File [])) else (False, s, fs))"

definition fwrite :: "env \<Rightarrow> string \<Rightarrow> byte list \<Rightarrow> rt \<times> fsys \<Rightarrow> nat \<times> rt \<times> fsys" where
  "fwrite env path bs = (\<lambda>(s, fs).
     case os_count env (length bs) s of (n, s) \<Rightarrow> (n, s, fs(path \<mapsto> File (take n bs))))"

text \<open>\<open>fopen\<close> for reading: the contents, or NULL.\<close>

definition fopen_r :: "env \<Rightarrow> string \<Rightarrow> rt \<times> fsys \<Rightarrow> byte list option \<times> rt" where
  "fopen_r env path = (\<lambda>(s, fs).
     case os_ok env s of (ok, s) \<Rightarrow>
     (if ok then case fs path of Some (File bs) \<Rightarrow> Some bs | _ \<Rightarrow> None else None, s))"

text \<open>A host whose operating system and allocator never fail.\<close>

definition no_faults :: "env \<Rightarrow> bool" where
  "no_faults env \<longleftrightarrow> (\<forall>t. 0 \<le> os env t \<and> \<not> malloc_fails env t)"

named_theorems host_simps "what the host does when nothing fails"

lemma os_ok_no_faults [host_simps]: "no_faults env \<Longrightarrow> os_ok env s = (True, next_tick s)"
  by (simp add: os_ok_def no_faults_def)

lemma os_count_no_faults [host_simps]: "no_faults env \<Longrightarrow> os_count env n s = (n, next_tick s)"
  by (simp add: os_count_def no_faults_def)

lemma new_obj_no_faults [host_simps]: "no_faults env \<Longrightarrow> new_obj env s = (tick s, next_tick s)"
  by (simp add: new_obj_def no_faults_def)

lemma mkdir_no_faults [host_simps]:
  "no_faults env \<Longrightarrow> mkdir env path (s, fs) =
     (if fs path = None then (True, next_tick s, fs(path \<mapsto> Dir)) else (False, next_tick s, fs))"
  by (simp add: mkdir_def host_simps)

lemma fopen_w_no_faults [host_simps]:
  "no_faults env \<Longrightarrow> fopen_w env path (s, fs) =
     (if fs path \<noteq> Some Dir then (True, next_tick s, fs(path \<mapsto> File [])) else (False, next_tick s, fs))"
  by (simp add: fopen_w_def host_simps)

lemma fwrite_no_faults [host_simps]:
  "no_faults env \<Longrightarrow> fwrite env path bs (s, fs) = (length bs, next_tick s, fs(path \<mapsto> File bs))"
  by (simp add: fwrite_def host_simps)

lemma fopen_r_no_faults [host_simps]:
  "no_faults env \<Longrightarrow> fopen_r env path (s, fs) = (case fs path of Some (File bs) \<Rightarrow> Some bs | _ \<Rightarrow> None, next_tick s)"
  by (simp add: fopen_r_def host_simps)

text \<open>\<open>chars\<close> are the bytes of a text.\<close>

definition chars :: "string \<Rightarrow> byte list" where
  "chars t = map of_char t"

lemma length_chars [simp]: "length (chars t) = length t"
  by (simp add: chars_def)

section \<open>The temporary directory of a program\<close>

text \<open>The block for the name is not checked before it is written.\<close>

definition pocl_create_temp_dir :: "env \<Rightarrow> host \<Rightarrow> rt \<times> fsys \<Rightarrow> (string \<times> rt \<times> fsys) outcome" where
  "pocl_create_temp_dir env h = (\<lambda>(s, fs).
     let given = (case getenv h ''POCL_TEMP_DIR'' of None \<Rightarrow> None | Some d \<Rightarrow> if fs d \<noteq> None then Some d else None) in
     case new_obj env s of (path_name, s) \<Rightarrow>
     if path_name = NULL then Undef
     else case given of
       Some d \<Rightarrow> Ret (d, s, fs)
     | None \<Rightarrow> (case mkdtemp h (tick s) of (ok, d) \<Rightarrow>
                Ret (d, next_tick s, if ok then fs(d \<mapsto> Dir) else fs)))"

end
