(* ===== verification/Brig.thy ===== *)
theory Brig
  imports Host
begin

text \<open>
  BRIG modules: \<open>include/elf\_utils.c\<close>, which takes the three sections of a module out of an ELF
  file, and \<open>find\_symbol\_offset\<close> of \<open>clCreateKernel.c\<close>, which looks a kernel up in the bytes of the
  code section. libelf is the parameter \<open>elf\_begin\<close> of the host.
\<close>

section \<open>Loading a module\<close>

datatype status_t =
    STATUS_SUCCESS | STATUS_KERNEL_INVALID_SECTION_HEADER | STATUS_KERNEL_ELF_INITIALIZATION_FAILED
  | STATUS_KERNEL_INVALID_ELF_CONTAINER | STATUS_KERNEL_MISSING_DATA_SECTION
  | STATUS_KERNEL_MISSING_CODE_SECTION | STATUS_KERNEL_MISSING_OPERAND_SECTION | STATUS_UNKNOWN

datatype section_id = SECTION_HSA_DATA | SECTION_HSA_CODE | SECTION_HSA_OPERAND

text \<open>The name of a section in BRIG and in BIF.\<close>

fun get_section_desc :: "section_id \<Rightarrow> string \<times> string" where
  "get_section_desc SECTION_HSA_DATA = (''hsa_data'', ''.brig_hsa_data'')"
| "get_section_desc SECTION_HSA_CODE = (''hsa_code'', ''.brig_hsa_code'')"
| "get_section_desc SECTION_HSA_OPERAND = (''hsa_operand'', ''.brig_hsa_operand'')"

fun extract_elf_section :: "elf_section list \<Rightarrow> string \<times> string \<Rightarrow> elf_section option" where
  "extract_elf_section [] desc = None"
| "extract_elf_section ((None, _) # scns) desc = None"
| "extract_elf_section ((Some n, d) # scns) desc =
     (if n = fst desc \<or> n = snd desc then Some (Some n, d) else extract_elf_section scns desc)"

text \<open>The bytes of a section; the copy goes to a block that is not checked.\<close>

definition extract_section_and_copy ::
  "env \<Rightarrow> elf_section list \<Rightarrow> section_id \<Rightarrow> rt \<Rightarrow> (byte list option \<times> rt) outcome" where
  "extract_section_and_copy env scns i s =
     (case extract_elf_section scns (get_section_desc i) of
        None \<Rightarrow> Ret (None, s)
      | Some (_, None) \<Rightarrow> Ret (None, s)
      | Some (_, Some bs) \<Rightarrow>
          if bs = [] then Ret (None, s)
          else case new_obj env s of (address, s) \<Rightarrow> if address = NULL then Undef else Ret (Some bs, s))"

definition read_binary ::
  "env \<Rightarrow> host \<Rightarrow> byte list \<Rightarrow> rt \<Rightarrow> ((status_t \<times> brig_module option) \<times> rt) outcome" where
  "read_binary env h binary s =
     (case new_obj env s of (brig_module, s) \<Rightarrow>
      if brig_module = NULL then Undef
      else if \<not> elf_version_ok h then Ret ((STATUS_KERNEL_ELF_INITIALIZATION_FAILED, None), s)
      else case elf_begin h binary of
        None \<Rightarrow> Ret ((STATUS_KERNEL_INVALID_ELF_CONTAINER, None), s)
      | Some elfP \<Rightarrow>
          if \<not> is_elf elfP then Ret ((STATUS_KERNEL_INVALID_ELF_CONTAINER, None), s)
          else if \<not> has_headers elfP then Ret ((STATUS_KERNEL_INVALID_SECTION_HEADER, None), s)
          else obind (extract_section_and_copy env (sections elfP) SECTION_HSA_DATA s) (\<lambda>(data, s).
               case data of None \<Rightarrow> Ret ((STATUS_KERNEL_MISSING_DATA_SECTION, None), s)
               | Some data \<Rightarrow>
               obind (extract_section_and_copy env (sections elfP) SECTION_HSA_CODE s) (\<lambda>(code, s).
               case code of None \<Rightarrow> Ret ((STATUS_KERNEL_MISSING_CODE_SECTION, None), s)
               | Some code \<Rightarrow>
               obind (extract_section_and_copy env (sections elfP) SECTION_HSA_OPERAND s) (\<lambda>(operand, s).
               case operand of None \<Rightarrow> Ret ((STATUS_KERNEL_MISSING_OPERAND_SECTION, None), s)
               | Some operand \<Rightarrow>
                   Ret ((STATUS_SUCCESS,
                     Some \<lparr>data_section = data, code_section = code, operand_section = operand\<rparr>), s)))))"

text \<open>A file that cannot be opened is passed on to \<open>fileno\<close>.\<close>

definition create_brig_module_from_brig_file ::
  "env \<Rightarrow> host \<Rightarrow> string \<Rightarrow> rt \<times> fsys \<Rightarrow> ((status_t \<times> brig_module option) \<times> rt \<times> fsys) outcome" where
  "create_brig_module_from_brig_file env h file_name = (\<lambda>(s, fs).
     case fopen_r env file_name (s, fs) of (fp, s) \<Rightarrow>
     obind (deref fp) (\<lambda>binary.
     obind (read_binary env h binary s) (\<lambda>(r, s). Ret (r, s, fs))))"

section \<open>Looking up a kernel\<close>

text \<open>Little-endian fields in the bytes of a section.\<close>

fun le_nat :: "byte list \<Rightarrow> nat" where
  "le_nat [] = 0"
| "le_nat (b # bs) = unat b + 256 * le_nat bs"

definition field :: "nat \<Rightarrow> byte list \<Rightarrow> nat \<Rightarrow> nat outcome" where
  "field n bs off = (if off + n \<le> length bs then Ret (le_nat (take n (drop off bs))) else Undef)"

definition BRIG_KIND_DIRECTIVE_KERNEL :: nat where "BRIG_KIND_DIRECTIVE_KERNEL = 0x1008"

text \<open>\<open>strncmp (symbol, bytes, strlen (symbol)) == 0\<close>, which stops at the first difference.\<close>

fun strncmp_eq :: "byte list \<Rightarrow> byte list \<Rightarrow> bool outcome" where
  "strncmp_eq [] bs = Ret True"
| "strncmp_eq (c # cs) [] = Undef"
| "strncmp_eq (c # cs) (b # bs) = (if c = b then strncmp_eq cs bs else Ret False)"

datatype entry = Found nat | Next nat

text \<open>The body of the loop: an entry begins with its size and its kind; a kernel has the offset of its name at 4,
  the numbers of output and input arguments at 8 and 10. The offset is 32 bits wide.\<close>

definition code_entry :: "brig_module \<Rightarrow> byte list \<Rightarrow> nat \<Rightarrow> entry outcome" where
  "code_entry m symbol_name off =
     obind (field 2 (code_section m) (off + 2)) (\<lambda>kind.
     obind (if kind = BRIG_KIND_DIRECTIVE_KERNEL
            then obind (field 4 (code_section m) (off + 4)) (\<lambda>data_name_offset.
                 strncmp_eq symbol_name (drop (data_name_offset + 4) (data_section m)))
            else Ret False) (\<lambda>found.
     if found then obind (field 2 (code_section m) (off + 10)) (\<lambda>n. Ret (Found n))
     else obind (field 2 (code_section m) off) (\<lambda>byteCount. Ret (Next ((off + byteCount) mod 2 ^ 32)))))"

text \<open>The loop may run forever, which is \<open>None\<close>.\<close>

partial_function (option) search_code ::
  "brig_module \<Rightarrow> byte list \<Rightarrow> nat \<Rightarrow> nat \<Rightarrow> (nat \<times> nat) option outcome option" where
  "search_code m symbol_name byte_count off =
     (if off = byte_count then Some (Ret None)
      else case code_entry m symbol_name off of
        Undef \<Rightarrow> Some Undef
      | Abort \<Rightarrow> Some Abort
      | Ret e \<Rightarrow> (case e of Found n \<Rightarrow> Some (Ret (Some (off, n)))
                | Next off \<Rightarrow> search_code m symbol_name byte_count off))"

declare search_code.simps [code]

definition find_symbol_offset :: "brig_module \<Rightarrow> string \<Rightarrow> (nat \<times> nat) option outcome" where
  "find_symbol_offset m symbol_name =
     obind (field 4 (code_section m) 4) (\<lambda>header_byte_count.
     obind (field 4 (code_section m) 0) (\<lambda>byte_count.
     case search_code m (chars symbol_name) byte_count header_byte_count of None \<Rightarrow> Abort | Some r \<Rightarrow> r))"

end
