(* ===== verification/Programs.thy ===== *)
theory Programs
  imports Brig
begin

text \<open>
  Programs: \<open>clCreateProgramWithSource\<close>, \<open>clCreateProgramWithBinary\<close> and \<open>clBuildProgram\<close>, for a build with the
  HSA runtime. The arrays of the caller are lists of what can be read; \<open>None\<close> stands for NULL.
\<close>

section \<open>Removing comments\<close>

datatype comment_state = Read_char | Slash | Line_comment | Block_comment | Block_star

text \<open>One step of the automaton: the next state and the characters that are stored.\<close>

fun comment_step :: "comment_state \<Rightarrow> char \<Rightarrow> comment_state \<times> string" where
  "comment_step Read_char c = (if c = CHR ''/'' then (Slash, []) else (Read_char, [c]))"
| "comment_step Slash c =
     (if c = CHR ''/'' then (Line_comment, [])
      else if c = CHR ''*'' then (Block_comment, [])
      else (Read_char, [CHR ''/'', c]))"
| "comment_step Line_comment c =
     (if c = CHR 0x0A then (Read_char, [CHR 0x0A]) else (Line_comment, []))"
| "comment_step Block_comment c = (if c = CHR ''*'' then (Block_star, []) else (Block_comment, []))"
| "comment_step Block_star c =
     (if c = CHR ''/'' then (Read_char, [])
      else if c = CHR ''*'' then (Block_star, []) else (Block_comment, []))"

fun remove_comments :: "comment_state \<Rightarrow> string \<Rightarrow> string" where
  "remove_comments q [] = []"
| "remove_comments q (c # cs) = (case comment_step q c of (q, out) \<Rightarrow> out @ remove_comments q cs)"

section \<open>clCreateProgramWithSource\<close>

text \<open>The length of the \<open>i\<close>-th string: an entry 0 of \<open>lengths\<close> means that it is terminated.\<close>

definition piece_length :: "string \<Rightarrow> size_t list option \<Rightarrow> nat \<Rightarrow> size_t outcome" where
  "piece_length buf lengths i =
     (case lengths of
        None \<Rightarrow> c_strlen buf
      | Some ls \<Rightarrow> obind (c_nth ls i) (\<lambda>n. if n = 0 then c_strlen buf else Ret n))"

text \<open>The first loop adds up an \<open>unsigned\<close>; it stops with \<open>None\<close> at a NULL string.\<close>

fun source_length :: "string option list \<Rightarrow> size_t list option \<Rightarrow> nat list \<Rightarrow> cl_uint \<Rightarrow> cl_uint option outcome" where
  "source_length strings lengths [] sz = Ret (Some sz)"
| "source_length strings lengths (i # is) sz =
     obind (c_nth strings i) (\<lambda>st.
     case st of None \<Rightarrow> Ret None
     | Some buf \<Rightarrow> obind (piece_length buf lengths i) (\<lambda>n. source_length strings lengths is (sz + ucast n)))"

text \<open>The second loop copies the pieces.\<close>

fun copy_pieces :: "string option list \<Rightarrow> size_t list option \<Rightarrow> nat list \<Rightarrow> string outcome" where
  "copy_pieces strings lengths [] = Ret []"
| "copy_pieces strings lengths (i # is) =
     obind (c_nth strings i) (\<lambda>st. obind (deref st) (\<lambda>buf.
     obind (piece_length buf lengths i) (\<lambda>n.
     obind (c_take (unat n) buf) (\<lambda>piece.
     obind (copy_pieces strings lengths is) (\<lambda>rest. Ret (piece @ rest))))))"

text \<open>The text without its comments. It is copied to an array of 65536 characters first, and the block for the
  result is as large as the one for the text; its allocation is not checked.\<close>

definition comment_free_source :: "env \<Rightarrow> cl_uint \<Rightarrow> string \<Rightarrow> rt \<Rightarrow> (string \<times> rt) outcome" where
  "comment_free_source env sz source s =
     (case new_obj env s of (block, s) \<Rightarrow>
      obind (c_strcpy 65536 source) (\<lambda>source_copy.
      let text = remove_comments Read_char source_copy in
      if block = NULL \<or> unat (sz + 1) < length text + 1 then Undef else Ret (text, s)))"

definition clCreateProgramWithSource ::
  "env \<Rightarrow> host \<Rightarrow> ptr \<Rightarrow> cl_uint \<Rightarrow> string option list \<Rightarrow> size_t list option \<Rightarrow> rt \<times> fsys \<Rightarrow>
     (cl_int \<times> ptr \<times> rt \<times> fsys) outcome" where
  "clCreateProgramWithSource env h context cnt strings lengths = (\<lambda>(s, fs).
     if cnt = 0 then Ret (CL_INVALID_VALUE, NULL, s, fs)
     else case new_obj env s of (program, s) \<Rightarrow>
     if program = NULL then Ret (CL_OUT_OF_HOST_MEMORY, NULL, s, fs)
     else obind (source_length strings lengths [0..<unat cnt] 0) (\<lambda>sz.
     case sz of None \<Rightarrow> Ret (CL_INVALID_VALUE, NULL, s, fs)
     | Some sz \<Rightarrow>
     case new_obj env s of (block, s) \<Rightarrow>
     if block = NULL then Ret (CL_OUT_OF_HOST_MEMORY, NULL, s, fs)
     else obind (copy_pieces strings lengths [0..<unat cnt]) (\<lambda>source.
     if unat (sz + 1) < length source + 1 then Undef
     else obind (comment_free_source env sz source s) (\<lambda>(text, s).
     obind (deref (contexts s context)) (\<lambda>c.
     obind (pocl_create_temp_dir env h (s, fs)) (\<lambda>(dir, s, fs).
     obind (retain_context context s) (\<lambda>s.
     Ret (CL_SUCCESS, program,
       s\<lparr>programs := (programs s)(program \<mapsto>
           \<lparr>p_refcount = 1, p_context = context, p_devices = ctx_devices c, prog_source = Some text,
            compiler_options = None, binaries = None, temp_dir = dir, p_kernels = [], brigModule = None\<rparr>)\<rparr>, fs))))))))"

section \<open>clCreateProgramWithBinary\<close>

fun total_binary_size :: "size_t list \<Rightarrow> byte list option list option \<Rightarrow> nat list \<Rightarrow> cl_uint \<Rightarrow> cl_uint option outcome" where
  "total_binary_size lengths bins [] sz = Ret (Some sz)"
| "total_binary_size lengths bins (i # is) sz =
     obind (c_nth lengths i) (\<lambda>n.
     if n = 0 then Ret None
     else obind (deref bins) (\<lambda>bs. obind (c_nth bs i) (\<lambda>b.
          if b = None then Ret None else total_binary_size lengths bins is (sz + ucast n))))"

text \<open>The check of the devices compares equal positions of the two arrays, once for every device of the context.\<close>

definition device_found :: "ptr option list \<Rightarrow> ptr list \<Rightarrow> nat \<Rightarrow> bool outcome" where
  "device_found devs devlist i =
     (if devs = [] then Ret False
      else obind (c_nth devs i) (\<lambda>d. obind (deref d) (\<lambda>d. obind (c_nth devlist i) (\<lambda>d'. Ret (d = d')))))"

fun all_found :: "ptr option list \<Rightarrow> ptr list \<Rightarrow> nat list \<Rightarrow> bool outcome" where
  "all_found devs devlist [] = Ret True"
| "all_found devs devlist (i # is) =
     obind (device_found devs devlist i) (\<lambda>found. if \<not> found then Ret False else all_found devs devlist is)"

fun no_duplicates :: "ptr option list \<Rightarrow> ptr list \<Rightarrow> bool outcome" where
  "no_duplicates [] devlist = Ret True"
| "no_duplicates (d # ds) devlist =
     obind (deref d) (\<lambda>d. if count_list devlist d > 1 then Ret False else no_duplicates ds devlist)"

fun copy_program_binaries :: "size_t list \<Rightarrow> byte list option list \<Rightarrow> nat list \<Rightarrow> byte list option list outcome" where
  "copy_program_binaries lengths bins [] = Ret []"
| "copy_program_binaries lengths bins (i # is) =
     obind (c_nth lengths i) (\<lambda>n. obind (c_nth bins i) (\<lambda>b. obind (deref b) (\<lambda>b.
     obind (c_take (unat n) b) (\<lambda>b.
     obind (copy_program_binaries lengths bins is) (\<lambda>bs. Ret (Some b # bs))))))"

definition total_length :: "byte list option list \<Rightarrow> nat" where
  "total_length bs = sum_list (map (\<lambda>b. case b of None \<Rightarrow> 0 | Some b \<Rightarrow> length b) bs)"

text \<open>The three blocks of the program: when one of the first two cannot be had, the clean-up reads through the NULL
  pointer.\<close>

definition binary_blocks :: "env \<Rightarrow> rt \<Rightarrow> (bool \<times> rt) outcome" where
  "binary_blocks env s =
     (case new_obj env s of (sizes, s) \<Rightarrow>
      if sizes = NULL then Undef
      else case new_obj env s of (bins, s) \<Rightarrow>
      if bins = NULL then Undef
      else case new_obj env s of (first, s) \<Rightarrow> Ret (first \<noteq> NULL, s))"

definition binary_checks ::
  "ptr \<Rightarrow> nat \<Rightarrow> ptr list option \<Rightarrow> size_t list option \<Rightarrow> byte list option list option \<Rightarrow> rt \<Rightarrow> (cl_int \<times> cl_uint) outcome" where
  "binary_checks context n devlist lengths bins s =
     (if devlist = None \<or> n = 0 \<or> lengths = None then Ret (CL_INVALID_VALUE, 0)
      else if context = NULL then Ret (CL_INVALID_CONTEXT, 0)
      else obind (total_binary_size (the lengths) bins [0..<n] 0) (\<lambda>sz.
           case sz of None \<Rightarrow> Ret (CL_INVALID_VALUE, 0)
           | Some sz \<Rightarrow>
           obind (deref (contexts s context)) (\<lambda>c.
           obind (all_found (ctx_devices c) (the devlist) [0..<n]) (\<lambda>found.
           if \<not> found then Ret (CL_INVALID_DEVICE, 0)
           else obind (no_duplicates (ctx_devices c) (take n (the devlist))) (\<lambda>ok.
           if \<not> ok then Ret (CL_INVALID_DEVICE, 0) else Ret (CL_SUCCESS, sz))))))"

text \<open>Besides the program, the result has what is stored through \<open>binary\_status\<close>.\<close>

definition clCreateProgramWithBinary ::
  "env \<Rightarrow> host \<Rightarrow> ptr \<Rightarrow> cl_uint \<Rightarrow> ptr list option \<Rightarrow> size_t list option \<Rightarrow> byte list option list option \<Rightarrow> rt \<times> fsys \<Rightarrow>
     (cl_int \<times> ptr \<times> cl_int list \<times> rt \<times> fsys) outcome" where
  "clCreateProgramWithBinary env h context num_devices devlist lengths bins = (\<lambda>(s, fs).
     let n = unat num_devices in
     obind (binary_checks context n devlist lengths bins s) (\<lambda>(errcode, sz).
     if errcode \<noteq> CL_SUCCESS then Ret (errcode, NULL, [], s, fs)
     else case new_obj env s of (program, s) \<Rightarrow>
     if program = NULL then Ret (CL_OUT_OF_HOST_MEMORY, NULL, [], s, fs)
     else obind (binary_blocks env s) (\<lambda>(ok, s).
     if \<not> ok then Ret (CL_OUT_OF_HOST_MEMORY, NULL, [], s, fs)
     else case new_obj env s of (devs, s) \<Rightarrow>
     obind (pocl_create_temp_dir env h (s, fs)) (\<lambda>(dir, s, fs).
     if devs = NULL then Undef
     else obind (copy_program_binaries (the lengths) (the bins) [0..<n]) (\<lambda>bs.
     if unat sz < total_length bs then Undef
     else obind (retain_context context s) (\<lambda>s.
     Ret (CL_SUCCESS, program, replicate n CL_SUCCESS,
       s\<lparr>programs := (programs s)(program \<mapsto>
           \<lparr>p_refcount = 1, p_context = context, p_devices = map Some (take n (the devlist)), prog_source = None,
            compiler_options = None, binaries = Some bs, temp_dir = dir, p_kernels = [], brigModule = None\<rparr>)\<rparr>, fs)))))))"

section \<open>clBuildProgram\<close>

text \<open>Reading a compiled file into memory: its size, a block, and all of its bytes.\<close>

definition read_file :: "env \<Rightarrow> byte list \<Rightarrow> rt \<Rightarrow> byte list option \<times> rt" where
  "read_file env bs s =
     (case new_obj env s of (binary, s) \<Rightarrow>
      if binary = NULL then (None, s)
      else case os_count env (length bs) s of (n, s) \<Rightarrow>
      if n < length bs then (None, s) else (Some bs, s))"

definition build_script :: "env \<Rightarrow> host \<Rightarrow> rt \<Rightarrow> string \<times> rt" where
  "build_script env h s =
     (if getenv h ''POCL_BUILDING'' \<noteq> None then (builddir h @ ''/scripts/pocl-build'', s)
      else case os_ok env s of (ok, s) \<Rightarrow>
      (if ok then pkgdatadir h @ ''/pocl-build'' else ''pocl-build'', s))"

text \<open>The command of the build script, cut to 4096 characters.\<close>

definition build_command :: "string \<Rightarrow> string \<Rightarrow> string option \<Rightarrow> string \<Rightarrow> string \<Rightarrow> string" where
  "build_command user_options script triplet binary_file_name source_file_name =
     snprintf 4096 (''USER_OPTIONS=\"'' @ user_options @ ''\" '' @ script @
       (case triplet of None \<Rightarrow> [] | Some t \<Rightarrow> '' -t '' @ t) @
       '' -o '' @ binary_file_name @ '' '' @ source_file_name)"

text \<open>The load of a BRIG module, and a program and module of HSA: every failure ends the process.\<close>

definition load_brig :: "env \<Rightarrow> host \<Rightarrow> string \<Rightarrow> rt \<times> fsys \<Rightarrow> (brig_module \<times> rt \<times> fsys) outcome" where
  "load_brig env h binary_file_name st =
     obind (create_brig_module_from_brig_file env h binary_file_name st) (\<lambda>((status, m), s, fs).
     case m of None \<Rightarrow> Abort | Some m \<Rightarrow> Ret (m, s, fs))"

definition add_to_hsa :: "env \<Rightarrow> rt \<times> fsys \<Rightarrow> (rt \<times> fsys) outcome" where
  "add_to_hsa env = (\<lambda>(s, fs). obind (hsa_call env s) (\<lambda>s. obind (hsa_call env s) (\<lambda>s. Ret (s, fs))))"

text \<open>The command that compiles for the GPU.\<close>

definition cloc_command :: "host \<Rightarrow> string option \<Rightarrow> string \<Rightarrow> string" where
  "cloc_command h options source_file_name =
     (case getenv h ''HSA_OPENCL2BRIG_COMMAND'' of
        Some command \<Rightarrow> command @ '' '' @ source_file_name
      | None \<Rightarrow> (case options of
          Some opts \<Rightarrow> ''cloc.sh -q -clopts \"'' @ opts @ ''\" '' @ source_file_name
        | None \<Rightarrow> ''cloc.sh -q '' @ source_file_name))"

text \<open>The loop over the devices of the program that compiles for the GPUs among them. What is left in \<open>binary\_file\_name\<close>
  is used later.\<close>

definition compile_gpu ::
  "env \<Rightarrow> host \<Rightarrow> string option \<Rightarrow> string \<Rightarrow> string \<Rightarrow> ptr option \<Rightarrow>
     (string \<times> brig_module option) \<times> rt \<times> fsys \<Rightarrow> ((string \<times> brig_module option) \<times> rt \<times> fsys) outcome" where
  "compile_gpu env h options tmpdir source_file_name d = (\<lambda>((binary_file_name, brig), s, fs).
     obind (deref d) (\<lambda>d. obind (deref (devices s d)) (\<lambda>dev.
     if \<not> has (dev_type dev) CL_DEVICE_TYPE_GPU then Ret ((binary_file_name, brig), s, fs)
     else obind (sprintf 65535 (cloc_command h options source_file_name)) (\<lambda>command.
          case system h command fs of (_, fs) \<Rightarrow>
          obind (sprintf POCL_FILENAME_LENGTH (tmpdir @ ''/program.brig'')) (\<lambda>binary_file_name.
          obind (load_brig env h binary_file_name (s, fs)) (\<lambda>(m, st).
          obind (add_to_hsa env st) (\<lambda>st. Ret ((binary_file_name, Some m), st))))))))"

text \<open>The results of one device: an error code, or its binary with the name of the file it came from.\<close>

definition build_on_gpu :: "env \<Rightarrow> string \<Rightarrow> rt \<times> fsys \<Rightarrow> ((cl_int + byte list) \<times> rt \<times> fsys) outcome" where
  "build_on_gpu env binary_file_name = (\<lambda>(s, fs).
     case fopen_r env binary_file_name (s, fs) of (f, s) \<Rightarrow>
     obind (deref f) (\<lambda>bs.
     case read_file env bs s of (binary, s) \<Rightarrow>
     Ret (case binary of None \<Rightarrow> Inl CL_OUT_OF_HOST_MEMORY | Some b \<Rightarrow> Inr b, s, fs)))"

definition build_on_cpu ::
  "env \<Rightarrow> host \<Rightarrow> string \<Rightarrow> string \<Rightarrow> string \<Rightarrow> string \<Rightarrow> ptr \<Rightarrow> device \<Rightarrow> rt \<times> fsys \<Rightarrow>
     ((cl_int + byte list) \<times> string \<times> rt \<times> fsys) outcome" where
  "build_on_cpu env h dir user_options script source_file_name d dev = (\<lambda>(s, fs).
     obind (deref (dev_name (dev_info dev))) (\<lambda>name.
     let device_tmpdir = filename (dir @ ''/'' @ name);
         binary_file_name = filename (device_tmpdir @ ''/program.bc'');
         command = build_command user_options script (llvm_target_triplet (dev_info dev)) binary_file_name source_file_name in
     case mkdir env device_tmpdir (s, fs) of (_, s, fs) \<Rightarrow>
     case os_ok env s of (ok, s) \<Rightarrow>
     if \<not> ok then Ret (Inl CL_OUT_OF_HOST_MEMORY, binary_file_name, s, fs)
     else case (case build_program h d of
                  Some build \<Rightarrow> build source_file_name binary_file_name command device_tmpdir fs
                | None \<Rightarrow> system h command fs) of (error, fs) \<Rightarrow>
     if error \<noteq> 0 then Ret (Inl CL_BUILD_PROGRAM_FAILURE, binary_file_name, s, fs)
     else case fopen_r env binary_file_name (s, fs) of (f, s) \<Rightarrow>
     case f of None \<Rightarrow> Ret (Inl CL_OUT_OF_HOST_MEMORY, binary_file_name, s, fs)
     | Some bs \<Rightarrow> (case read_file env bs s of (binary, s) \<Rightarrow>
         Ret (case binary of None \<Rightarrow> Inl CL_OUT_OF_HOST_MEMORY | Some b \<Rightarrow> Inr b, binary_file_name, s, fs))))"

fun build_devices ::
  "env \<Rightarrow> host \<Rightarrow> string \<Rightarrow> string \<Rightarrow> string \<Rightarrow> string \<Rightarrow> ptr option list \<Rightarrow> string \<Rightarrow> rt \<times> fsys \<Rightarrow>
     ((cl_int + byte list option list) \<times> rt \<times> fsys) outcome" where
  "build_devices env h dir user_options script source_file_name [] binary_file_name st = Ret (Inr [], st)"
| "build_devices env h dir user_options script source_file_name (d # ds) binary_file_name (s, fs) =
     obind (deref d) (\<lambda>d. obind (deref (devices s d)) (\<lambda>dev.
     obind (if has (dev_type dev) CL_DEVICE_TYPE_GPU
            then obind (build_on_gpu env binary_file_name (s, fs)) (\<lambda>(r, st). Ret (r, binary_file_name, st))
            else build_on_cpu env h dir user_options script source_file_name d dev (s, fs)) (\<lambda>(r, binary_file_name, st).
     case r of Inl errcode \<Rightarrow> Ret (Inl errcode, st)
     | Inr b \<Rightarrow> obind (build_devices env h dir user_options script source_file_name ds binary_file_name st) (\<lambda>(r, st).
         Ret (case r of Inl errcode \<Rightarrow> Inl errcode | Inr bs \<Rightarrow> Inr (Some b # bs), st)))))"

text \<open>The branch for a program with source: the binaries or an error code, and the loaded module.\<close>

definition build_from_source ::
  "env \<Rightarrow> host \<Rightarrow> cl_program \<Rightarrow> string \<Rightarrow> ptr option list \<Rightarrow> rt \<times> fsys \<Rightarrow>
     (((cl_int + byte list option list) \<times> brig_module option) \<times> rt \<times> fsys) outcome" where
  "build_from_source env h p user_options devs = (\<lambda>(s, fs).
     let tmpdir = filename (temp_dir p @ ''/'');
         source_file_name = filename (tmpdir @ ''/program.cl'') in
     case mkdir env tmpdir (s, fs) of (_, s, fs) \<Rightarrow>
     case new_obj env s of (sizes, s) \<Rightarrow>
     if sizes = NULL then Ret ((Inl CL_OUT_OF_HOST_MEMORY, brigModule p), s, fs)
     else case new_obj env s of (bins, s) \<Rightarrow>
     if bins = NULL then Ret ((Inl CL_OUT_OF_HOST_MEMORY, brigModule p), s, fs)
     else case fopen_w env source_file_name (s, fs) of (ok, s, fs) \<Rightarrow>
     if \<not> ok then Ret ((Inl CL_OUT_OF_HOST_MEMORY, brigModule p), s, fs)
     else obind (deref (prog_source p)) (\<lambda>source.
     case fwrite env source_file_name (chars source) (s, fs) of (n, s, fs) \<Rightarrow>
     obind (oiter (compile_gpu env h (compiler_options p) tmpdir source_file_name) (p_devices p)
              ((unset_string env, brigModule p), s, fs)) (\<lambda>((binary_file_name, brig), s, fs).
     if n < length source then Ret ((Inl CL_OUT_OF_HOST_MEMORY, brig), s, fs)
     else case build_script env h s of (script, s) \<Rightarrow>
     obind (build_devices env h (temp_dir p) user_options script source_file_name devs binary_file_name (s, fs)) (\<lambda>(r, st).
     Ret ((r, brig), st)))))"

text \<open>The branch for a program with binaries: they are written to the files of the devices. The third result is the loaded module.\<close>

definition dump_on_gpu ::
  "env \<Rightarrow> host \<Rightarrow> string \<Rightarrow> byte list \<Rightarrow> rt \<times> fsys \<Rightarrow> (brig_module \<times> rt \<times> fsys) outcome" where
  "dump_on_gpu env h dir binary st =
     (let binary_file_name = filename (dir @ ''/program.brig'') in
      case fopen_w env binary_file_name st of (ok, st) \<Rightarrow>
      if \<not> ok then Undef
      else case fwrite env binary_file_name binary st of (_, st) \<Rightarrow>
      obind (create_brig_module_from_brig_file env h binary_file_name st) (\<lambda>((status, m), s, fs).
      case system h (''hsailasm -disassemble '' @ binary_file_name) fs of (_, fs) \<Rightarrow>
      case m of None \<Rightarrow> Abort
      | Some m \<Rightarrow> obind (add_to_hsa env (s, fs)) (\<lambda>st. Ret (m, st))))"

definition dump_on_cpu ::
  "env \<Rightarrow> string \<Rightarrow> device \<Rightarrow> byte list option outcome \<Rightarrow> rt \<times> fsys \<Rightarrow> (bool \<times> rt \<times> fsys) outcome" where
  "dump_on_cpu env dir dev binary st =
     obind (deref (dev_name (dev_info dev))) (\<lambda>name.
     let device_tmpdir = dir @ ''/'' @ name;
         binary_file_name = device_tmpdir @ ''/program.bc'' in
     if length device_tmpdir \<ge> POCL_FILENAME_LENGTH then Ret (False, st)
     else case mkdir env device_tmpdir st of (ok, st) \<Rightarrow>
     if \<not> ok then Ret (False, st)
     else if length binary_file_name \<ge> POCL_FILENAME_LENGTH then Ret (False, st)
     else case fopen_w env binary_file_name st of (ok, st) \<Rightarrow>
     if \<not> ok then Ret (False, st)
     else obind binary (\<lambda>b. obind (deref b) (\<lambda>b.
          case fwrite env binary_file_name b st of (_, st) \<Rightarrow> Ret (True, st))))"

fun dump_devices ::
  "env \<Rightarrow> host \<Rightarrow> cl_program \<Rightarrow> ptr option list \<Rightarrow> nat \<Rightarrow> brig_module option \<Rightarrow> rt \<times> fsys \<Rightarrow>
     ((bool \<times> brig_module option) \<times> rt \<times> fsys) outcome" where
  "dump_devices env h p [] i brig st = Ret ((True, brig), st)"
| "dump_devices env h p (d # ds) i brig (s, fs) =
     obind (deref d) (\<lambda>d. obind (deref (devices s d)) (\<lambda>dev.
     if has (dev_type dev) CL_DEVICE_TYPE_GPU
     then obind (c_nth (binary_list p) i) (\<lambda>b. obind (deref b) (\<lambda>b.
          obind (dump_on_gpu env h (temp_dir p) b (s, fs)) (\<lambda>(m, st). dump_devices env h p ds (Suc i) (Some m) st)))
     else obind (dump_on_cpu env (temp_dir p) dev (c_nth (binary_list p) i) (s, fs)) (\<lambda>(ok, st).
          if \<not> ok then Ret ((False, brig), st) else dump_devices env h p ds (Suc i) brig st)))"

definition put_program :: "ptr \<Rightarrow> cl_program \<Rightarrow> rt \<Rightarrow> rt" where
  "put_program program p s = s\<lparr>programs := (programs s)(program \<mapsto> p)\<rparr>"

text \<open>A list of devices that is shorter than the caller says is read past its end. The options are kept as a copy, which may fail.\<close>

definition keep_options :: "env \<Rightarrow> string option \<Rightarrow> rt \<Rightarrow> string option \<times> rt" where
  "keep_options env options s =
     (case options of None \<Rightarrow> (None, s)
      | Some opts \<Rightarrow> (case new_obj env s of (copy, s) \<Rightarrow> (if copy = NULL then None else Some opts, s)))"

definition clBuildProgram ::
  "env \<Rightarrow> host \<Rightarrow> ptr \<Rightarrow> cl_uint \<Rightarrow> ptr list option \<Rightarrow> string option \<Rightarrow> bool \<Rightarrow> bool \<Rightarrow> rt \<times> fsys \<Rightarrow>
     (cl_int \<times> rt \<times> fsys) outcome" where
  "clBuildProgram env h program num_devices devlist options notify user_data = (\<lambda>(s, fs).
     if program = NULL then Ret (CL_INVALID_PROGRAM, s, fs)
     else if \<not> notify \<and> user_data then Ret (CL_INVALID_VALUE, s, fs)
     else obind (deref (programs s program)) (\<lambda>p0.
     if p_kernels p0 \<noteq> [] then Ret (CL_INVALID_OPERATION, s, fs)
     else case keep_options env options s of (kept, s) \<Rightarrow>
     let p = p0\<lparr>compiler_options := kept\<rparr>;
         s = put_program program p s;
         user_options = (case options of None \<Rightarrow> [] | Some opts \<Rightarrow> opts) in
     if prog_source p = None \<and> binaries p = None then Ret (CL_INVALID_PROGRAM, s, fs)
     else if (num_devices > 0 \<and> devlist = None) \<or> (num_devices = 0 \<and> devlist \<noteq> None) then Ret (CL_INVALID_VALUE, s, fs)
     else let n = unat num_devices;
              devs = (if num_devices = 0 then p_devices p else take n (map Some (the devlist) @ replicate n None)) in
     case binaries p of
       None \<Rightarrow> obind (build_from_source env h p user_options devs (s, fs)) (\<lambda>((r, brig), s, fs).
         case r of
           Inl errcode \<Rightarrow> Ret (errcode, put_program program (p\<lparr>binaries := None, brigModule := brig\<rparr>) s, fs)
         | Inr bs \<Rightarrow> Ret (CL_SUCCESS, put_program program (p\<lparr>binaries := Some bs, brigModule := brig\<rparr>) s, fs))
     | Some _ \<Rightarrow> obind (dump_devices env h p devs 0 (brigModule p) (s, fs)) (\<lambda>((ok, brig), s, fs).
         if ok then Ret (CL_SUCCESS, put_program program (p\<lparr>brigModule := brig\<rparr>) s, fs)
         else Ret (CL_OUT_OF_HOST_MEMORY, put_program program (p\<lparr>binaries := None, brigModule := brig\<rparr>) s, fs))))"

end
