(* ===== verification/Program_Claims.thy ===== *)
theory Program_Claims
  imports Programs Creation_Claims
begin

text \<open>
  Properties of programs: what the removal of comments does to a text, the creation of programs from
  source and from binaries, and their building.
\<close>

section \<open>Comments\<close>

text \<open>A text as a sequence of code, comments to the end of the line, and comments in brackets.\<close>

datatype segment = Code string | Line string | Block string

fun code_ok :: "string \<Rightarrow> bool" where
  "code_ok [] \<longleftrightarrow> True"
| "code_ok [c] \<longleftrightarrow> c \<noteq> CHR ''/''"
| "code_ok (c # d # cs) \<longleftrightarrow> \<not> (c = CHR ''/'' \<and> (d = CHR ''/'' \<or> d = CHR ''*'')) \<and> code_ok (d # cs)"

fun block_ok :: "string \<Rightarrow> bool" where
  "block_ok (c # d # cs) \<longleftrightarrow> \<not> (c = CHR ''*'' \<and> d = CHR ''/'') \<and> block_ok (d # cs)"
| "block_ok _ \<longleftrightarrow> True"

fun segment_ok :: "segment \<Rightarrow> bool" where
  "segment_ok (Code t) \<longleftrightarrow> code_ok t"
| "segment_ok (Line t) \<longleftrightarrow> CHR 0x0A \<notin> set t"
| "segment_ok (Block t) \<longleftrightarrow> block_ok t"

fun segment_text :: "segment \<Rightarrow> string" where
  "segment_text (Code t) = t"
| "segment_text (Line t) = ''//'' @ t @ [CHR 0x0A]"
| "segment_text (Block t) = ''/*'' @ t @ ''*/''"

fun segment_code :: "segment \<Rightarrow> string" where
  "segment_code (Code t) = t"
| "segment_code (Line t) = [CHR 0x0A]"
| "segment_code (Block t) = []"

abbreviation texts :: "segment list \<Rightarrow> string" where "texts segs \<equiv> concat (map segment_text segs)"
abbreviation codes :: "segment list \<Rightarrow> string" where "codes segs \<equiv> concat (map segment_code segs)"

lemma remove_comments_code: "code_ok t \<Longrightarrow> remove_comments Read_char (t @ rest) = t @ remove_comments Read_char rest"
  by (induction t rule: code_ok.induct) auto

lemma remove_comments_line:
  "CHR 0x0A \<notin> set t \<Longrightarrow> remove_comments Line_comment (t @ CHR 0x0A # rest) = CHR 0x0A # remove_comments Read_char rest"
  by (induction t) auto

lemma remove_comments_block:
  "block_ok t \<Longrightarrow> remove_comments Block_comment (t @ ''*/'' @ rest) = remove_comments Read_char rest"
  "block_ok (CHR ''*'' # t) \<Longrightarrow> remove_comments Block_star (t @ ''*/'' @ rest) = remove_comments Read_char rest"
proof (induction t)
  case (Cons c t)
  {
    case 1
    then show ?case using Cons by (cases t) (auto split: if_splits)
  next
    case 2
    then show ?case using Cons by (cases t) (auto split: if_splits)
  }
qed auto

lemma remove_comments_segment:
  "segment_ok g \<Longrightarrow> remove_comments Read_char (segment_text g @ rest) = segment_code g @ remove_comments Read_char rest"
  by (cases g) (simp_all add: remove_comments_code remove_comments_line remove_comments_block [simplified])

lemma remove_comments_segments:
  "list_all segment_ok segs \<Longrightarrow> remove_comments Read_char (texts segs) = codes segs"
  by (induction segs) (simp_all add: remove_comments_segment)

lemma remove_comments_length: "length (remove_comments q t) \<le> length t + (if q = Slash then 1 else 0)"
proof (induction q t rule: remove_comments.induct)
  case (2 q c cs)
  then show ?case by (cases q) (auto split: if_splits)
qed auto

text \<open>A CPU device with its name.\<close>

definition cpu_named :: "rt \<Rightarrow> ptr \<Rightarrow> string \<Rightarrow> bool" where
  "cpu_named s d name \<longleftrightarrow> (\<exists>dev. devices s d = Some dev \<and> \<not> has (dev_type dev) CL_DEVICE_TYPE_GPU \<and>
     dev_name (dev_info dev) = Some name)"

section \<open>A small host\<close>

text \<open>A host with a compiler that puts one byte before the text.\<close>

definition demo_raw_kernel :: cl_kernel where
  "demo_raw_kernel = \<lparr>k_refcount = 0, function_name = [], k_name = [], num_args = 0, k_context = NULL, k_program = NULL,
     arg_is_pointer = [], arg_is_local = None, arg_is_image = [], arg_is_sampler = [], arg_is_struct = [], num_locals = 0,
     reqd_wg_size = None, hsaCodeDescriptor = None, hsaArgCount = 0, dyn_arguments = None\<rparr>"

definition demo_compile :: "string option \<Rightarrow> string \<Rightarrow> byte list \<Rightarrow> byte list option" where
  "demo_compile triplet opts text = (if text = [] then None else Some (1 # text))"

definition demo_host :: host where
  "demo_host = \<lparr>getenv = Map.empty, mkdtemp = (\<lambda>_. (True, ''/tmp/poclABCDEF'')),
     system = (\<lambda>_ fs. case fs ''/tmp/poclABCDEF//program.cl'' of
        Some (File text) \<Rightarrow> (case demo_compile None [] text of
            Some code \<Rightarrow> (0, fs(''/tmp/poclABCDEF/basic/program.bc.i'' \<mapsto> File text, ''/tmp/poclABCDEF/basic/program.bc'' \<mapsto> File code))
          | None \<Rightarrow> (1, fs))
      | _ \<Rightarrow> (1, fs)),
     build_program = Map.empty, builddir = ''/build'', pkgdatadir = ''/usr/share/pocl'', elf_version_ok = True,
     elf_begin = Map.empty, lt_dlopen = Map.empty,
     code_descriptor = (\<lambda>_ _. \<lparr>workgroup_group_segment_byte_size = 0, kernarg_segment_byte_size = 64,
       workitem_private_segment_byte_size = 0, code_handle = 0x4000\<rparr>), raw_kernel = demo_raw_kernel\<rparr>"

definition demo_program_rec :: cl_program where
  "demo_program_rec = \<lparr>p_refcount = 1, p_context = 2, p_devices = [Some 1], prog_source = Some ''x'', compiler_options = None,
     binaries = None, temp_dir = ''/tmp/poclABCDEF'', p_kernels = [], brigModule = None\<rparr>"

lemma demo_no_faults: "no_faults demo_env"
  by (simp add: no_faults_def demo_env_def)

lemma demo_cpu: "cpu_named demo_rt 1 ''basic''"
  by (simp add: cpu_named_def demo_rt_def demo_device_def basic_info_def has_def CL_DEVICE_TYPE_CPU_def CL_DEVICE_TYPE_GPU_def)

lemma demo_context:
  "contexts demo_rt 2 = Some \<lparr>ctx_refcount = 2, ctx_devices = map Some [1], ctx_properties = None, valid = True\<rparr>"
  by (simp add: demo_rt_def)

section \<open>Programs from source\<close>

text \<open>The \<open>i\<close>-th piece of the source is \<open>t\<close>: a terminated string, or one whose length is given.\<close>

definition piece_given :: "string option list \<Rightarrow> size_t list option \<Rightarrow> nat \<Rightarrow> string \<Rightarrow> bool" where
  "piece_given strings lengths i t \<longleftrightarrow>
     i < length strings \<and> NUL \<notin> set t \<and>
     (case lengths of
        None \<Rightarrow> (\<exists>rest. strings ! i = Some (t @ NUL # rest))
      | Some ls \<Rightarrow> i < length ls \<and>
          (ls ! i = 0 \<and> (\<exists>rest. strings ! i = Some (t @ NUL # rest)) \<or>
           ls ! i = of_nat (length t) \<and> t \<noteq> [] \<and> (\<exists>rest. strings ! i = Some (t @ rest))))"

lemma takeWhile_terminated: "NUL \<notin> set t \<Longrightarrow> takeWhile (\<lambda>c. c \<noteq> NUL) (t @ NUL # rest) = t"
  by (induction t) auto

lemma c_strlen_terminated: "NUL \<notin> set t \<Longrightarrow> c_strlen (t @ NUL # rest) = Ret (of_nat (length t))"
  by (simp add: c_strlen_def c_str_def takeWhile_terminated)

lemma piece_given_length:
  assumes "piece_given strings lengths i t" "length t < 2 ^ 32"
  shows "\<exists>buf. c_nth strings i = Ret (Some buf) \<and> piece_length buf lengths i = Ret (of_nat (length t)) \<and>
     c_take (length t) buf = Ret t"
proof -
  have i: "i < length strings" "NUL \<notin> set t" using assms(1) by (simp_all add: piece_given_def)
  have nz: "of_nat (length t) \<noteq> (0 :: size_t)" if "t \<noteq> []"
    using that assms(2) by (simp add: word_of_nat_eq_0_iff nat_dvd_not_less)
  consider (terminated) rest where "strings ! i = Some (t @ NUL # rest)"
      "lengths = None \<or> (\<exists>ls. lengths = Some ls \<and> i < length ls \<and> ls ! i = 0)"
    | (counted) rest ls where "strings ! i = Some (t @ rest)" "t \<noteq> []" "lengths = Some ls" "i < length ls"
      "ls ! i = of_nat (length t)"
    using assms(1) unfolding piece_given_def by (cases lengths) (simp, blast, simp, blast)
  then show ?thesis
  proof cases
    case terminated
    then show ?thesis using i
      by (intro exI [of _ "t @ NUL # rest"]) (auto simp: c_nth_def c_take_def piece_length_def c_strlen_terminated)
  next
    case counted
    then show ?thesis using i nz by (intro exI [of _ "t @ rest"]) (simp add: c_nth_def c_take_def piece_length_def)
  qed
qed

lemma pieces_size:
  assumes "\<forall>i \<in> set is. piece_given strings lengths i (ts ! i) \<and> length (ts ! i) < 2 ^ 32"
  shows "source_length strings lengths is sz = Ret (Some (sz + of_nat (length (concat (map ((!) ts) is)))))"
  using assms
proof (induction "is" arbitrary: sz)
  case (Cons i "is")
  obtain buf where "c_nth strings i = Ret (Some buf)" "piece_length buf lengths i = Ret (of_nat (length (ts ! i)))"
    using piece_given_length [of strings lengths i "ts ! i"] Cons.prems by auto
  moreover have "ucast (of_nat (length (ts ! i)) :: size_t) = (of_nat (length (ts ! i)) :: cl_uint)"
    using Cons.prems by (simp add: unsigned_of_nat take_bit_nat_eq_self)
  ultimately show ?case using Cons by simp
qed simp

lemma pieces_copied:
  assumes "\<forall>i \<in> set is. piece_given strings lengths i (ts ! i) \<and> length (ts ! i) < 2 ^ 32"
  shows "copy_pieces strings lengths is = Ret (concat (map ((!) ts) is))"
  using assms
proof (induction "is")
  case (Cons i "is")
  obtain buf where "c_nth strings i = Ret (Some buf)" "piece_length buf lengths i = Ret (of_nat (length (ts ! i)))"
    "c_take (length (ts ! i)) buf = Ret (ts ! i)"
    using piece_given_length [of strings lengths i "ts ! i"] Cons.prems by auto
  moreover have "unat (of_nat (length (ts ! i)) :: size_t) = length (ts ! i)"
    using Cons.prems by (simp add: unat_of_nat)
  ultimately show ?case using Cons by simp
qed simp

lemma unat_of_nat_plus_1: "n + 1 < 2 ^ 32 \<Longrightarrow> unat (of_nat n + 1 :: cl_uint) = n + 1"
proof -
  assume "n + 1 < 2 ^ 32"
  then have "unat (of_nat (Suc n) :: cl_uint) = Suc n" by (simp add: unat_of_nat del: of_nat_Suc)
  then show ?thesis by (simp add: add.commute)
qed

lemma retain_context_step:
  assumes "contexts s context = Some c" "ctx_refcount c < 2 ^ 31 - 1"
  shows "retain_context context s = Ret (s\<lparr>contexts := (contexts s)(context \<mapsto> c\<lparr>ctx_refcount := ctx_refcount c + 1\<rparr>)\<rparr>)"
  using assms by (simp add: retain_context_def POCL_RETAIN_OBJECT_def incr_def)

lemma create_temp_dir_no_faults:
  assumes "no_faults env" "tick s \<noteq> NULL"
  shows "\<exists>dir T fs'. pocl_create_temp_dir env h (s, fs) = Ret (dir, s\<lparr>tick := T\<rparr>, fs')"
proof (cases "mkdtemp h (Suc (tick s))")
  case (Pair ok d)
  then show ?thesis using assms
    by (cases "getenv h ''POCL_TEMP_DIR''") (auto simp: pocl_create_temp_dir_def host_simps next_tick_def)
qed

lemma pieces_of:
  assumes "\<forall>i < length ts. piece_given strings lengths i (ts ! i)" "length (concat ts) < 2 ^ 32"
  shows "source_length strings lengths [0..<length ts] 0 = Ret (Some (of_nat (length (concat ts))))"
    and "copy_pieces strings lengths [0..<length ts] = Ret (concat ts)"
    and "takeWhile (\<lambda>c. c \<noteq> NUL) (concat ts) = concat ts"
proof -
  have "length t \<le> length (concat ts)" if "t \<in> set ts" for t
    using that by (induction ts) auto
  then have *: "\<forall>i \<in> set [0..<length ts]. piece_given strings lengths i (ts ! i) \<and> length (ts ! i) < 2 ^ 32"
    using assms by (metis atLeastLessThan_iff atLeastLessThan_upt le_less_trans nth_mem)
  have ts: "map ((!) ts) [0..<length ts] = ts" by (simp add: map_nth)
  show "source_length strings lengths [0..<length ts] 0 = Ret (Some (of_nat (length (concat ts))))"
    using pieces_size [OF *, of 0] unfolding ts by simp
  show "copy_pieces strings lengths [0..<length ts] = Ret (concat ts)"
    using pieces_copied [OF *] unfolding ts .
  have "NUL \<notin> set t" if "t \<in> set ts" for t
    using that assms(1) by (auto simp: piece_given_def in_set_conv_nth)
  then show "takeWhile (\<lambda>c. c \<noteq> NUL) (concat ts) = concat ts" by (auto simp: takeWhile_eq_all_conv)
qed

text \<open>C13. Whatever way the caller hands over the pieces of a source, terminated or with their lengths, a program is
  created whose source is the concatenation of the pieces with exactly the comments taken out, provided that the text is shorter
  than 65536 characters and no call of the operating system or the allocator fails. Unlike in C, nothing is put in the
  place of a block comment, and a comment mark inside of a string literal begins a comment as well; of a comment to the end
  of the line the line break stays. The program has the devices of the context, which gets one more reference.\<close>

theorem source_program_created:
  assumes "no_faults env" "tick s \<noteq> NULL" "contexts s context = Some c" "ctx_refcount c < 2 ^ 31 - 1"
    and "ts \<noteq> []" "length ts < 2 ^ 32" "\<forall>i < length ts. piece_given strings lengths i (ts ! i)"
    and "concat ts = texts segs" "list_all segment_ok segs" "length (concat ts) < 65536"
  shows "\<exists>s' fs' p. clCreateProgramWithSource env h context (of_nat (length ts)) strings lengths (s, fs) =
       Ret (CL_SUCCESS, tick s, s', fs') \<and> programs s' = (programs s)(tick s \<mapsto> p) \<and>
     prog_source p = Some (codes segs) \<and> p_refcount p = 1 \<and> p_context p = context \<and> p_devices p = ctx_devices c \<and>
     binaries p = None \<and> contexts s' = (contexts s)(context \<mapsto> c\<lparr>ctx_refcount := ctx_refcount c + 1\<rparr>)"
proof -
  have n: "unat (of_nat (length ts) :: cl_uint) = length ts" "(of_nat (length ts) :: cl_uint) \<noteq> 0"
    using assms(5,6) by (simp_all add: unat_of_nat word_of_nat_eq_0_iff nat_dvd_not_less)
  have sz: "unat (of_nat (length (concat ts)) + 1 :: cl_uint) = length (concat ts) + 1"
    using assms(10) by (intro unat_of_nat_plus_1) simp
  have "length (concat ts) < 2 ^ 32" using assms(10) by simp
  note ps = pieces_of [OF assms(7) this]
  have rc: "remove_comments Read_char (concat ts) = codes segs" "length (codes segs) \<le> length (concat ts)"
    using remove_comments_segments [OF assms(9)] remove_comments_length [of Read_char "concat ts"] assms(8) by simp_all
  let ?s = "s\<lparr>tick := Suc (Suc (Suc (tick s)))\<rparr>"
  obtain dir T fs' where d: "pocl_create_temp_dir env h (?s, fs) = Ret (dir, ?s\<lparr>tick := T\<rparr>, fs')"
    using create_temp_dir_no_faults [OF assms(1), of ?s h fs] by auto
  have cp: "c_strcpy 65536 (concat ts) = Ret (concat ts)"
    using assms(10) unfolding c_strcpy_def Let_def ps(3) by simp
  have "clCreateProgramWithSource env h context (of_nat (length ts)) strings lengths (s, fs) =
    Ret (CL_SUCCESS, tick s, s\<lparr>contexts := (contexts s)(context \<mapsto> c\<lparr>ctx_refcount := ctx_refcount c + 1\<rparr>), tick := T,
       programs := (programs s)(tick s \<mapsto> \<lparr>p_refcount = 1, p_context = context, p_devices = ctx_devices c,
         prog_source = Some (codes segs), compiler_options = None, binaries = None, temp_dir = dir, p_kernels = [],
         brigModule = None\<rparr>)\<rparr>, fs')"
    unfolding clCreateProgramWithSource_def comment_free_source_def
    using assms(1-4,10) n sz ps(1,2) rc cp d retain_context_step [of "?s\<lparr>tick := T\<rparr>" "context" c]
    by (simp add: host_simps next_tick_def)
  then show ?thesis by auto
qed

theorem source_program_created_witness:
  "\<exists>s' fs' p. clCreateProgramWithSource demo_env demo_host 2 2 [Some (''a/*b*/'' @ [NUL]), Some (''//c'' @ [CHR 0x0A] @ ''d'')] (Some [0, 5]) (demo_rt, Map.empty) =
     Ret (CL_SUCCESS, 10, s', fs') \<and> programs s' 10 = Some p \<and> prog_source p = Some (''a'' @ [CHR 0x0A] @ ''d'')"
proof -
  have pieces: "\<forall>i < length [''a/*b*/'', ''//c'' @ [CHR 0x0A] @ ''d'']. piece_given [Some (''a/*b*/'' @ [NUL]), Some (''//c'' @ [CHR 0x0A] @ ''d'')] (Some [0, 5]) i
      ([''a/*b*/'', ''//c'' @ [CHR 0x0A] @ ''d''] ! i)"
    by (auto simp: piece_given_def less_Suc_eq_0_disj)
  have segs: "concat [''a/*b*/'', ''//c'' @ [CHR 0x0A] @ ''d''] = texts [Code ''a'', Block ''b'', Line ''c'', Code ''d'']" by simp
  show ?thesis
    using source_program_created [OF demo_no_faults _ demo_context _ _ _ pieces segs, of demo_host Map.empty]
    by (auto simp: demo_rt_def)
qed

text \<open>A source of 65536 characters or more overruns the array its comments are removed from.\<close>

lemma long_source_overruns:
  assumes "no_faults env" "tick s \<noteq> NULL" "ts \<noteq> []" "length ts < 2 ^ 32"
    and "\<forall>i < length ts. piece_given strings lengths i (ts ! i)"
    and "65536 \<le> length (concat ts)" "length (concat ts) < 2 ^ 32 - 1"
  shows "clCreateProgramWithSource env h context (of_nat (length ts)) strings lengths (s, fs) = Undef"
proof -
  have n: "unat (of_nat (length ts) :: cl_uint) = length ts" "(of_nat (length ts) :: cl_uint) \<noteq> 0"
    using assms(3,4) by (simp_all add: unat_of_nat word_of_nat_eq_0_iff nat_dvd_not_less)
  have sz: "unat (of_nat (length (concat ts)) + 1 :: cl_uint) = length (concat ts) + 1"
    using assms(7) by (intro unat_of_nat_plus_1) simp
  have "length (concat ts) < 2 ^ 32" using assms(7) by simp
  note ps = pieces_of [OF assms(5) this]
  have cp: "c_strcpy 65536 (concat ts) = Undef"
    using assms(6) unfolding c_strcpy_def Let_def ps(3) by simp
  show ?thesis
    unfolding clCreateProgramWithSource_def comment_free_source_def
    using assms(1,2) n sz ps(1,2) cp by (simp add: host_simps next_tick_def)
qed

section \<open>Programs from binaries\<close>

text \<open>The arguments for the binaries \<open>bins\<close>.\<close>

abbreviation lengths_of :: "byte list list \<Rightarrow> size_t list option" where
  "lengths_of bins \<equiv> Some (map (\<lambda>b. of_nat (length b)) bins)"

lemma binary_size:
  assumes "\<forall>i \<in> set is. i < length bins \<and> bins ! i \<noteq> [] \<and> length (bins ! i) < 2 ^ 32"
  shows "total_binary_size (map (\<lambda>b. of_nat (length b)) bins) (Some (map Some bins)) is sz =
     Ret (Some (sz + of_nat (sum_list (map (\<lambda>i. length (bins ! i)) is))))"
  using assms
proof (induction "is" arbitrary: sz)
  case (Cons i "is")
  have "of_nat (length (bins ! i)) \<noteq> (0 :: size_t)"
    using Cons.prems by (simp add: word_of_nat_eq_0_iff nat_dvd_not_less)
  moreover have "ucast (of_nat (length (bins ! i)) :: size_t) = (of_nat (length (bins ! i)) :: cl_uint)"
    using Cons.prems by (simp add: unsigned_of_nat take_bit_nat_eq_self)
  ultimately show ?case using Cons by (simp add: c_nth_def)
qed simp

lemma binaries_copied:
  assumes "\<forall>i \<in> set is. i < length bins \<and> length (bins ! i) < 2 ^ 32"
  shows "copy_program_binaries (map (\<lambda>b. of_nat (length b)) bins) (map Some bins) is = Ret (map (\<lambda>i. Some (bins ! i)) is)"
  using assms
proof (induction "is")
  case (Cons i "is")
  have "unat (of_nat (length (bins ! i)) :: size_t) = length (bins ! i)"
    using Cons.prems by (simp add: unat_of_nat)
  then show ?case using Cons by (simp add: c_nth_def c_take_def)
qed simp

lemma all_found_prefix:
  assumes "\<forall>i \<in> set is. i < n" "n \<le> length cds"
  shows "all_found (map Some cds) (take n cds) is = Ret True"
  using assms by (induction "is") (auto simp: device_found_def c_nth_def)

lemma no_duplicates_distinct: "distinct ds \<Longrightarrow> no_duplicates (map Some cds) ds = Ret True"
proof (induction cds)
  case (Cons d cds)
  have "count_list ds d \<le> 1" using \<open>distinct ds\<close> by (induction ds) (auto simp: count_list_0_iff)
  then show ?case using Cons by simp
qed simp

text \<open>The outcome of the checks on a prefix of the devices of the context.\<close>

lemma binary_checks_pass:
  assumes "context \<noteq> NULL" "contexts s context = Some c" "ctx_devices c = map Some cds" "distinct cds"
    and "n \<le> length cds" "0 < n" "length bins = n" "[] \<notin> set bins" "length (concat bins) < 2 ^ 32"
  shows "binary_checks context n (Some (take n cds)) (lengths_of bins) (Some (map Some bins)) s =
     Ret (CL_SUCCESS, of_nat (length (concat bins)))"
proof -
  have le: "length b \<le> length (concat bins)" if "b \<in> set bins" for b
    using that by (induction bins) auto
  have *: "\<forall>i \<in> set [0..<n]. i < length bins \<and> bins ! i \<noteq> [] \<and> length (bins ! i) < 2 ^ 32"
  proof
    fix i assume "i \<in> set [0..<n]"
    then have "i < length bins" "bins ! i \<in> set bins" using assms(7) by simp_all
    then show "i < length bins \<and> bins ! i \<noteq> [] \<and> length (bins ! i) < 2 ^ 32"
      using assms(8,9) le [of "bins ! i"] by (cases "bins ! i = []") (metis, linarith)
  qed
  have "sum_list (map (\<lambda>i. length (bins ! i)) [0..<n]) = length (concat bins)"
  proof -
    have "map (\<lambda>i. length (bins ! i)) [0..<n] = map length bins" using assms(7) by (auto intro!: nth_equalityI)
    then show ?thesis by (simp add: length_concat)
  qed
  then show ?thesis
    using assms binary_size [OF *, of 0] all_found_prefix [of "[0..<n]" n cds]
      no_duplicates_distinct [of "take n cds" cds]
    by (simp add: binary_checks_def)
qed

lemma binary_program:
  assumes "no_faults env" "tick s \<noteq> NULL" "context \<noteq> NULL" "contexts s context = Some c" "ctx_refcount c < 2 ^ 31 - 1"
    and "ctx_devices c = map Some cds" "distinct cds" "n \<le> length cds" "0 < n" "n < 2 ^ 32" "length bins = n"
    and "[] \<notin> set bins" "length (concat bins) < 2 ^ 32"
  shows "\<exists>dir T fs'. clCreateProgramWithBinary env h context (of_nat n) (Some (take n cds)) (lengths_of bins)
       (Some (map Some bins)) (s, fs) =
     Ret (CL_SUCCESS, tick s, replicate n CL_SUCCESS,
       s\<lparr>contexts := (contexts s)(context \<mapsto> c\<lparr>ctx_refcount := ctx_refcount c + 1\<rparr>), tick := T,
         programs := (programs s)(tick s \<mapsto> \<lparr>p_refcount = 1, p_context = context, p_devices = map Some (take n cds),
           prog_source = None, compiler_options = None, binaries = Some (map Some bins), temp_dir = dir,
           p_kernels = [], brigModule = None\<rparr>)\<rparr>, fs') \<and>
     pocl_create_temp_dir env h (s\<lparr>tick := Suc (Suc (Suc (Suc (Suc (tick s)))))\<rparr>, fs) = Ret (dir, s\<lparr>tick := T\<rparr>, fs')"
proof -
  have le: "length b \<le> length (concat bins)" if "b \<in> set bins" for b
    using that by (induction bins) auto
  have *: "\<forall>i \<in> set [0..<n]. i < length bins \<and> length (bins ! i) < 2 ^ 32"
  proof
    fix i assume "i \<in> set [0..<n]"
    then have "i < length bins" "bins ! i \<in> set bins" using assms(11) by simp_all
    then show "i < length bins \<and> length (bins ! i) < 2 ^ 32" using le [of "bins ! i"] assms(13) by linarith
  qed
  have bs: "map (\<lambda>i. Some (bins ! i)) [0..<n] = map Some bins"
    using assms(11) by (auto intro: nth_equalityI)
  have n: "unat (of_nat n :: cl_uint) = n" using assms(10) by (simp add: unat_of_nat)
  have sz: "unat (of_nat (length (concat bins)) :: cl_uint) = total_length (map Some bins)"
    using assms(13) by (simp add: unat_of_nat total_length_def length_concat comp_def)
  let ?s = "s\<lparr>tick := Suc (Suc (Suc (Suc (Suc (tick s)))))\<rparr>"
  obtain dir T fs' where d: "pocl_create_temp_dir env h (?s, fs) = Ret (dir, ?s\<lparr>tick := T\<rparr>, fs')"
    using create_temp_dir_no_faults [OF assms(1), of ?s h fs] by auto
  show ?thesis
    unfolding clCreateProgramWithBinary_def
    using assms(1-5) n sz binary_checks_pass [OF assms(3,4,6-9,11-13)] binaries_copied [OF *] d
      retain_context_step [of "?s\<lparr>tick := T\<rparr>" "context" c]
    by (intro exI [of _ dir] exI [of _ T] exI [of _ fs'])
       (simp add: host_simps next_tick_def binary_blocks_def bs)
qed

lemma all_found_position:
  assumes "\<forall>i \<in> set is. i < length cds \<and> i < length ds" "cds \<noteq> []"
  shows "all_found (map Some cds) ds is = Ret (\<forall>i \<in> set is. cds ! i = ds ! i)"
  using assms by (induction "is") (auto simp: device_found_def c_nth_def)

text \<open>The devices of a binary are compared with those of the context by position: a list of devices
  of the context that is not the beginning of its array is rejected.\<close>

lemma binary_devices_by_position:
  assumes "context \<noteq> NULL" "contexts s context = Some c" "ctx_devices c = map Some cds"
    and "ds \<noteq> []" "length ds \<le> length cds" "length ds < 2 ^ 32" "length bins = length ds" "[] \<notin> set bins"
    and "length (concat bins) < 2 ^ 32" "ds \<noteq> take (length ds) cds"
  shows "clCreateProgramWithBinary env h context (of_nat (length ds)) (Some ds) (lengths_of bins) (Some (map Some bins)) (s, fs) =
     Ret (CL_INVALID_DEVICE, NULL, [], s, fs)"
proof -
  have le: "length b \<le> length (concat bins)" if "b \<in> set bins" for b
    using that by (induction bins) auto
  have *: "\<forall>i \<in> set [0..<length ds]. i < length bins \<and> bins ! i \<noteq> [] \<and> length (bins ! i) < 2 ^ 32"
  proof
    fix i assume "i \<in> set [0..<length ds]"
    then have "i < length bins" "bins ! i \<in> set bins" using assms(7) by simp_all
    then show "i < length bins \<and> bins ! i \<noteq> [] \<and> length (bins ! i) < 2 ^ 32"
      using assms(8,9) le [of "bins ! i"] by (cases "bins ! i = []") (metis, linarith)
  qed
  have n: "unat (of_nat (length ds) :: cl_uint) = length ds" using assms(6) by (simp add: unat_of_nat)
  have "\<not> (\<forall>i \<in> set [0..<length ds]. cds ! i = ds ! i)"
  proof
    assume "\<forall>i \<in> set [0..<length ds]. cds ! i = ds ! i"
    then have "ds = take (length ds) cds" using assms(5) by (intro nth_equalityI) simp_all
    then show False using assms(10) by simp
  qed
  then have "all_found (map Some cds) ds [0..<length ds] = Ret False"
    using all_found_position [of "[0..<length ds]" cds ds] assms(4,5) by (cases "cds = []") simp_all
  then show ?thesis
    using assms(1-4) n binary_size [OF *, of 0] unfolding clCreateProgramWithBinary_def binary_checks_def by simp
qed

section \<open>Building from binaries\<close>

abbreviation device_dir :: "string \<Rightarrow> string \<Rightarrow> string" where
  "device_dir dir name \<equiv> dir @ ''/'' @ name"

abbreviation bc_file :: "string \<Rightarrow> string \<Rightarrow> string" where
  "bc_file dir name \<equiv> dir @ ''/'' @ name @ ''/program.bc''"

lemma cpu_named_tick [simp]: "cpu_named (s\<lparr>tick := T\<rparr>) d name = cpu_named s d name"
  by (simp add: cpu_named_def)

lemma drop_eq_Cons: "drop k xs = y # ys \<Longrightarrow> c_nth xs k = Ret y \<and> drop (Suc k) xs = ys"
proof -
  assume *: "drop k xs = y # ys"
  then have "k < length xs" by (metis drop_all list.distinct(1) not_le_imp_less)
  then show ?thesis using * Cons_nth_drop_Suc [of k xs] by (simp add: c_nth_def)
qed

lemma dump_cpus:
  assumes "no_faults env" "list_all2 (cpu_named s) ds names" "distinct names"
    and "\<forall>name \<in> set names. CHR ''/'' \<notin> set name \<and> length (bc_file dir name) < POCL_FILENAME_LENGTH \<and>
       fs (device_dir dir name) = None \<and> fs (bc_file dir name) \<noteq> Some Dir"
    and "drop k (binary_list p) = map Some bins" "length bins = length ds" "temp_dir p = dir"
  shows "\<exists>T fs'. dump_devices env h p (map Some ds) k brig (s, fs) = Ret ((True, brig), s\<lparr>tick := T\<rparr>, fs') \<and>
     (\<forall>i < length ds. fs' (bc_file dir (names ! i)) = Some (File (bins ! i))) \<and>
     (\<forall>f. f \<notin> device_dir dir ` set names \<union> bc_file dir ` set names \<longrightarrow> fs' f = fs f)"
  using assms(2-6)
proof (induction ds arbitrary: names k bins s fs)
  case Nil
  show ?case using Nil by (intro exI [of _ "tick s"] exI [of _ fs]) simp
next
  case (Cons d ds)
  then obtain name names' b bins' where nb: "names = name # names'" "bins = b # bins'"
    by (metis Suc_length_conv list_all2_lengthD)
  obtain dev where dev: "devices s d = Some dev" "\<not> has (dev_type dev) CL_DEVICE_TYPE_GPU" "dev_name (dev_info dev) = Some name"
    using Cons.prems(1) unfolding nb by (auto simp: cpu_named_def)
  have k: "c_nth (binary_list p) k = Ret (Some b)" "drop (Suc k) (binary_list p) = map Some bins'"
    using drop_eq_Cons [of k "binary_list p" "Some b"] Cons.prems(4) unfolding nb by simp_all
  let ?fs = "fs(device_dir dir name \<mapsto> Dir, bc_file dir name \<mapsto> File b)"
  let ?s = "s\<lparr>tick := Suc (Suc (Suc (tick s)))\<rparr>"
  have dump: "dump_on_cpu env dir dev (c_nth (binary_list p) k) (s, fs) = Ret (True, ?s, ?fs)"
    using assms(1) dev(3) k(1) Cons.prems(3) unfolding nb
    by (auto simp: dump_on_cpu_def host_simps next_tick_def)
  have other: "name \<noteq> name'" "device_dir dir name' \<noteq> bc_file dir name" "bc_file dir name' \<noteq> device_dir dir name"
    "bc_file dir name' \<noteq> bc_file dir name" if "name' \<in> set names'" for name'
    using that Cons.prems(2,3) unfolding nb by auto
  have "\<exists>T fs'. dump_devices env h p (map Some ds) (Suc k) brig (?s, ?fs) = Ret ((True, brig), ?s\<lparr>tick := T\<rparr>, fs') \<and>
     (\<forall>i < length ds. fs' (bc_file dir (names' ! i)) = Some (File (bins' ! i))) \<and>
     (\<forall>f. f \<notin> device_dir dir ` set names' \<union> bc_file dir ` set names' \<longrightarrow> fs' f = ?fs f)"
    by (rule Cons.IH) (use Cons.prems k(2) other nb in auto)
  then obtain T fs' where IH: "dump_devices env h p (map Some ds) (Suc k) brig (?s, ?fs) = Ret ((True, brig), ?s\<lparr>tick := T\<rparr>, fs')"
    "\<forall>i < length ds. fs' (bc_file dir (names' ! i)) = Some (File (bins' ! i))"
    "\<forall>f. f \<notin> device_dir dir ` set names' \<union> bc_file dir ` set names' \<longrightarrow> fs' f = ?fs f"
    by blast
  have "bc_file dir name \<notin> device_dir dir ` set names' \<union> bc_file dir ` set names'" using other by auto
  then have b: "fs' (bc_file dir name) = Some (File b)" using IH(3) by simp
  have "dump_devices env h p (map Some (d # ds)) k brig (s, fs) = Ret ((True, brig), s\<lparr>tick := T\<rparr>, fs')"
    using IH(1) dev dump assms(7) by simp
  moreover have "\<forall>i < length (d # ds). fs' (bc_file dir (names ! i)) = Some (File (bins ! i))"
    using b IH(2) unfolding nb by (auto simp: less_Suc_eq_0_disj)
  moreover have "\<forall>f. f \<notin> device_dir dir ` set names \<union> bc_file dir ` set names \<longrightarrow> fs' f = fs f"
    using IH(3) unfolding nb by simp
  ultimately show ?case by blast
qed

text \<open>What \<open>mkdtemp\<close> documents: it makes a new directory, with the six characters of its template filled in.\<close>

definition fresh_temp_dirs :: "host \<Rightarrow> fsys \<Rightarrow> bool" where
  "fresh_temp_dirs h fs \<longleftrightarrow> getenv h ''POCL_TEMP_DIR'' = None \<and>
     (\<forall>t. \<exists>dir. mkdtemp h t = (True, dir) \<and> length dir = 15 \<and> (\<forall>f. prefix dir f \<longrightarrow> fs f = None))"

lemma fresh_temp_dir:
  assumes "fresh_temp_dirs h fs" "pocl_create_temp_dir env h (s, fs) = Ret (dir, s', fs')"
  shows "fs' = fs(dir \<mapsto> Dir)" "length dir = 15" "prefix dir f \<Longrightarrow> fs f = None"
proof -
  obtain d where d: "mkdtemp h (Suc (tick s)) = (True, d)" "length d = 15" "\<forall>f. prefix d f \<longrightarrow> fs f = None"
    using assms(1) unfolding fresh_temp_dirs_def by blast
  have "dir = d \<and> fs' = fs(d \<mapsto> Dir)"
    using assms d(1) by (auto simp: fresh_temp_dirs_def pocl_create_temp_dir_def new_obj_def next_tick_def split: if_splits)
  then show "fs' = fs(dir \<mapsto> Dir)" "length dir = 15" "prefix dir f \<Longrightarrow> fs f = None" using d by auto
qed

text \<open>Building a program that has its binaries.\<close>

lemma build_with_binaries:
  assumes "no_faults env" "program \<noteq> NULL" "programs s program = Some p" "p_kernels p = []"
    and "binaries p = Some (map Some bins)" "p_devices p = map Some ds" "length bins = length ds"
    and "list_all2 (cpu_named s) ds names" "distinct names"
    and "\<forall>name \<in> set names. CHR ''/'' \<notin> set name \<and> length (bc_file (temp_dir p) name) < POCL_FILENAME_LENGTH \<and>
       fs (device_dir (temp_dir p) name) = None \<and> fs (bc_file (temp_dir p) name) \<noteq> Some Dir"
  shows "\<exists>s' fs'. clBuildProgram env h program 0 None None notify False (s, fs) = Ret (CL_SUCCESS, s', fs') \<and>
     programs s' = (programs s)(program \<mapsto> p\<lparr>compiler_options := None\<rparr>) \<and>
     (\<forall>i < length ds. fs' (bc_file (temp_dir p) (names ! i)) = Some (File (bins ! i)))"
proof -
  let ?p = "p\<lparr>compiler_options := None\<rparr>"
  let ?s = "put_program program ?p s"
  have cpus: "list_all2 (cpu_named ?s) ds names"
    using assms(8) by (auto simp: cpu_named_def put_program_def elim: list_all2_mono)
  obtain T fs' where d: "dump_devices env h ?p (map Some ds) 0 (brigModule p) (?s, fs) = Ret ((True, brigModule p), ?s\<lparr>tick := T\<rparr>, fs')"
    "\<forall>i < length ds. fs' (bc_file (temp_dir p) (names ! i)) = Some (File (bins ! i))"
    using dump_cpus [OF assms(1) cpus assms(9), of "temp_dir p" fs 0 ?p bins h "brigModule p"] assms(5,7,10)
    by (auto simp: binary_list_def)
  have "clBuildProgram env h program 0 None None notify False (s, fs) =
     Ret (CL_SUCCESS, put_program program (?p\<lparr>brigModule := brigModule p\<rparr>) (?s\<lparr>tick := T\<rparr>), fs')"
    using assms(2-6) d(1) by (simp add: clBuildProgram_def keep_options_def Let_def)
  then show ?thesis using d(2) by (simp add: put_program_def)
qed

text \<open>C16. A program that is created from binaries for the first devices of its context, all of them CPUs with
  different names, keeps exactly these binaries, reports success for each of them, and building it
  writes each binary unchanged into the file of its device.\<close>

theorem binary_program_built:
  assumes "no_faults env" "tick s \<noteq> NULL" "context \<noteq> NULL" "contexts s context = Some c" "ctx_refcount c < 2 ^ 31 - 1"
    and "ctx_devices c = map Some cds" "distinct cds" "n \<le> length cds" "0 < n" "n < 2 ^ 32" "length bins = n"
    and "[] \<notin> set bins" "length (concat bins) < 2 ^ 32"
    and "list_all2 (cpu_named s) (take n cds) names" "distinct names" "\<forall>name \<in> set names. CHR ''/'' \<notin> set name \<and> length name < 900"
    and "fresh_temp_dirs h fs"
  shows "\<exists>s1 fs1 s2 fs2 p. clCreateProgramWithBinary env h context (of_nat n) (Some (take n cds)) (lengths_of bins)
       (Some (map Some bins)) (s, fs) = Ret (CL_SUCCESS, tick s, replicate n CL_SUCCESS, s1, fs1) \<and>
     clBuildProgram env h (tick s) 0 None None notify False (s1, fs1) = Ret (CL_SUCCESS, s2, fs2) \<and>
     programs s2 (tick s) = Some p \<and> binaries p = Some (map Some bins) \<and> p_devices p = map Some (take n cds) \<and>
     (\<forall>i < n. fs2 (bc_file (temp_dir p) (names ! i)) = Some (File (bins ! i)))"
proof -
  obtain dir T fs1 where c: "clCreateProgramWithBinary env h context (of_nat n) (Some (take n cds)) (lengths_of bins)
       (Some (map Some bins)) (s, fs) =
     Ret (CL_SUCCESS, tick s, replicate n CL_SUCCESS,
       s\<lparr>contexts := (contexts s)(context \<mapsto> c\<lparr>ctx_refcount := ctx_refcount c + 1\<rparr>), tick := T,
         programs := (programs s)(tick s \<mapsto> \<lparr>p_refcount = 1, p_context = context, p_devices = map Some (take n cds),
           prog_source = None, compiler_options = None, binaries = Some (map Some bins), temp_dir = dir,
           p_kernels = [], brigModule = None\<rparr>)\<rparr>, fs1)" (is "_ = Ret (_, _, _, ?s1, _)")
    and d: "pocl_create_temp_dir env h (s\<lparr>tick := Suc (Suc (Suc (Suc (Suc (tick s)))))\<rparr>, fs) = Ret (dir, s\<lparr>tick := T\<rparr>, fs1)"
    using binary_program [OF assms(1-13), of h fs] by blast
  note fresh = fresh_temp_dir [OF assms(17) d]
  let ?p = "\<lparr>p_refcount = 1, p_context = context, p_devices = map Some (take n cds), prog_source = None, compiler_options = None,
    binaries = Some (map Some bins), temp_dir = dir, p_kernels = [], brigModule = None\<rparr>"
  have cpus: "list_all2 (cpu_named ?s1) (take n cds) names"
    using assms(14) by (auto simp: cpu_named_def elim: list_all2_mono)
  have free: "\<forall>name \<in> set names. CHR ''/'' \<notin> set name \<and> length (bc_file dir name) < POCL_FILENAME_LENGTH \<and>
       fs1 (device_dir dir name) = None \<and> fs1 (bc_file dir name) \<noteq> Some Dir"
    using assms(16) fresh(1,2) fresh(3) [of "device_dir dir _"] fresh(3) [of "bc_file dir _"]
    by (auto simp: POCL_FILENAME_LENGTH_def)
  obtain s2 fs2 where "clBuildProgram env h (tick s) 0 None None notify False (?s1, fs1) = Ret (CL_SUCCESS, s2, fs2)"
    "programs s2 = (programs ?s1)(tick s \<mapsto> ?p\<lparr>compiler_options := None\<rparr>)"
    "\<forall>i < n. fs2 (bc_file dir (names ! i)) = Some (File (bins ! i))"
    using build_with_binaries [OF assms(1,2), of ?s1 ?p bins "take n cds" names fs1 h notify] cpus assms(8,11,15) free by auto
  then show ?thesis using c by auto
qed

theorem binary_program_built_witness:
  "\<exists>s1 fs1 s2 fs2 p. clCreateProgramWithBinary demo_env demo_host 2 1 (Some [1]) (Some [3]) (Some [Some [7, 8, 9]]) (demo_rt, Map.empty) =
       Ret (CL_SUCCESS, 10, [CL_SUCCESS], s1, fs1) \<and>
     clBuildProgram demo_env demo_host 10 0 None None False False (s1, fs1) = Ret (CL_SUCCESS, s2, fs2) \<and>
     programs s2 10 = Some p \<and> fs2 (bc_file (temp_dir p) ''basic'') = Some (File [7, 8, 9])"
proof -
  have fresh: "fresh_temp_dirs demo_host Map.empty" by (simp add: fresh_temp_dirs_def demo_host_def)
  have cpus: "list_all2 (cpu_named demo_rt) (take 1 [1]) [''basic'']" using demo_cpu by simp
  show ?thesis
    using binary_program_built [OF demo_no_faults _ _ demo_context, where n = 1 and cds = "[1]" and bins = "[[7, 8, 9]]" and names = "[''basic'']"
        and h = demo_host and fs = Map.empty and notify = False] fresh cpus
    by (auto simp: demo_rt_def)
qed

section \<open>Building from source\<close>

lemma filename_short: "length f < POCL_FILENAME_LENGTH \<Longrightarrow> filename f = f"
  by (simp add: filename_def)

text \<open>
  The call of the build script, as its usage text gives it: the options of the user in the environment, the
  target if there is one, the output file and the source file.
\<close>

definition script_call :: "string \<Rightarrow> string \<Rightarrow> string option \<Rightarrow> string \<Rightarrow> string \<Rightarrow> string" where
  "script_call opts script triplet out src =
     concat ([''USER_OPTIONS='', [CHR 0x22], opts, [CHR 0x22], '' '', script] @
       (case triplet of None \<Rightarrow> [] | Some t \<Rightarrow> ['' -t '', t]) @ ['' -o '', out, '' '', src])"

lemma build_command_call:
  "length (script_call opts script triplet out src) < 4096 \<Longrightarrow> build_command opts script triplet out src = script_call opts script triplet out src"
  by (cases triplet) (simp_all add: build_command_def script_call_def snprintf_def)

text \<open>
  What the build script is relied on for: called on a source file with this text, it reports success and leaves the code
  in its output file when the compiler can compile the text, it reports a failure otherwise, and it changes
  no other file than its output file and the file of the preprocessed text beside it.
\<close>

definition compiles ::
  "host \<Rightarrow> (string option \<Rightarrow> string \<Rightarrow> byte list \<Rightarrow> byte list option) \<Rightarrow> string \<Rightarrow> byte list \<Rightarrow> string \<Rightarrow> string \<Rightarrow> string \<Rightarrow> string option \<Rightarrow> bool" where
  "compiles h compile opts text script out src triplet \<longleftrightarrow>
     (\<forall>fs. fs src = Some (File text) \<longrightarrow> (\<exists>status fs'. system h (script_call opts script triplet out src) fs = (status, fs') \<and>
        (case compile triplet opts text of Some code \<Rightarrow> status = 0 \<and> fs' out = Some (File code) | None \<Rightarrow> status \<noteq> 0) \<and>
        (\<forall>f. f \<noteq> out \<and> f \<noteq> out @ ''.i'' \<longrightarrow> fs' f = fs f)))"

text \<open>A CPU device with its name and target, built with the script.\<close>

definition cpu_target :: "rt \<Rightarrow> host \<Rightarrow> ptr \<Rightarrow> string \<Rightarrow> string option \<Rightarrow> bool" where
  "cpu_target s h d name triplet \<longleftrightarrow> build_program h d = None \<and>
     (\<exists>dev. devices s d = Some dev \<and> \<not> has (dev_type dev) CL_DEVICE_TYPE_GPU \<and>
        dev_name (dev_info dev) = Some name \<and> llvm_target_triplet (dev_info dev) = triplet)"

lemma cpu_target_tick [simp]: "cpu_target (s\<lparr>tick := T\<rparr>) h d name triplet = cpu_target s h d name triplet"
  by (simp add: cpu_target_def)

text \<open>The result of a build for one device: the code, or the error code.\<close>

definition build_result :: "byte list option \<Rightarrow> cl_int + byte list" where
  "build_result code = (case code of None \<Rightarrow> Inl CL_BUILD_PROGRAM_FAILURE | Some c \<Rightarrow> Inr c)"

lemma build_on_cpu_step:
  assumes "no_faults env" "devices s d = Some dev" "dev_name (dev_info dev) = Some name"
    and "llvm_target_triplet (dev_info dev) = triplet" "build_program h d = None" "tick s \<noteq> NULL"
    and "length (bc_file dir name) < POCL_FILENAME_LENGTH" "compiles h compile opts text script (bc_file dir name) src triplet"
    and "length (script_call opts script triplet (bc_file dir name) src) < 4096" "fs src = Some (File text)"
  shows "\<exists>T fs'. T \<noteq> NULL \<and> build_on_cpu env h dir opts script src d dev (s, fs) =
       Ret (build_result (compile triplet opts text), bc_file dir name, s\<lparr>tick := T\<rparr>, fs') \<and>
     fs' (device_dir dir name) \<noteq> None \<and>
     (compile triplet opts text \<noteq> None \<longrightarrow> fs' (bc_file dir name) = Some (File (the (compile triplet opts text)))) \<and>
     (\<forall>f. f \<noteq> bc_file dir name \<and> f \<noteq> bc_file dir name @ ''.i'' \<and> fs f \<noteq> None \<longrightarrow> fs' f = fs f)"
proof -
  let ?out = "bc_file dir name"
  let ?fs = "if fs (device_dir dir name) = None then fs(device_dir dir name \<mapsto> Dir) else fs"
  have names: "filename (device_dir dir name) = device_dir dir name" "filename ?out = ?out"
    using assms(7) by (simp_all add: filename_short)
  have "?fs src = Some (File text)" using assms(10) by auto
  then obtain status fs' where run: "system h (build_command opts script triplet ?out src) ?fs = (status, fs')"
    and ended: "case compile triplet opts text of Some code \<Rightarrow> status = 0 \<and> fs' ?out = Some (File code) | None \<Rightarrow> status \<noteq> 0"
    and keep: "\<forall>f. f \<noteq> ?out \<and> f \<noteq> ?out @ ''.i'' \<longrightarrow> fs' f = ?fs f"
    using assms(8) unfolding compiles_def build_command_call [OF assms(9)] by blast
  have made: "fs' (device_dir dir name) \<noteq> None" using keep by simp
  have kept: "\<forall>f. f \<noteq> ?out \<and> f \<noteq> ?out @ ''.i'' \<and> fs f \<noteq> None \<longrightarrow> fs' f = fs f" using keep by simp
  have code: "compile triplet opts text \<noteq> None \<longrightarrow> fs' ?out = Some (File (the (compile triplet opts text)))"
    using ended by (cases "compile triplet opts text") simp_all
  have "\<exists>T. T \<noteq> NULL \<and> build_on_cpu env h dir opts script src d dev (s, fs) =
      Ret (build_result (compile triplet opts text), ?out, s\<lparr>tick := T\<rparr>, fs')"
  proof (cases "compile triplet opts text")
    case None
    then show ?thesis using assms(1-6) names run ended
      by (intro exI [of _ "Suc (Suc (tick s))"], cases "fs (device_dir dir name)")
         (simp_all add: build_on_cpu_def host_simps next_tick_def build_result_def Let_def)
  next
    case (Some code)
    then show ?thesis using assms(1-6) names run ended
      by (intro exI [of _ "Suc (Suc (Suc (Suc (Suc (tick s)))))"], cases "fs (device_dir dir name)")
         (simp_all add: build_on_cpu_def host_simps next_tick_def read_file_def build_result_def Let_def)
  qed
  then obtain T where "T \<noteq> NULL" "build_on_cpu env h dir opts script src d dev (s, fs) =
      Ret (build_result (compile triplet opts text), ?out, s\<lparr>tick := T\<rparr>, fs')" by (elim exE conjE)
  then show ?thesis using made code kept by (intro exI conjI)
qed

text \<open>A build for a list of devices, each with its name and target.\<close>

type_synonym target = "ptr \<times> string \<times> string option"

definition target_ok ::
  "rt \<Rightarrow> host \<Rightarrow> (string option \<Rightarrow> string \<Rightarrow> byte list \<Rightarrow> byte list option) \<Rightarrow> string \<Rightarrow> byte list \<Rightarrow> string \<Rightarrow> string \<Rightarrow> string \<Rightarrow> target \<Rightarrow> bool" where
  "target_ok s h compile opts text script dir src = (\<lambda>(d, name, triplet).
     cpu_target s h d name triplet \<and> CHR ''/'' \<notin> set name \<and> length (bc_file dir name) < POCL_FILENAME_LENGTH \<and>
     length (script_call opts script triplet (bc_file dir name) src) < 4096 \<and>
     compiles h compile opts text script (bc_file dir name) src triplet)"

definition compiled_for :: "(string option \<Rightarrow> string \<Rightarrow> byte list \<Rightarrow> byte list option) \<Rightarrow> string \<Rightarrow> byte list \<Rightarrow> target \<Rightarrow> byte list option" where
  "compiled_for compile opts text = (\<lambda>(d, name, triplet). compile triplet opts text)"

definition all_compile :: "(string option \<Rightarrow> string \<Rightarrow> byte list \<Rightarrow> byte list option) \<Rightarrow> string \<Rightarrow> byte list \<Rightarrow> target list \<Rightarrow> bool" where
  "all_compile compile opts text ts \<longleftrightarrow> (\<forall>t \<in> set ts. compiled_for compile opts text t \<noteq> None)"

lemma target_ok_tick [simp]:
  "target_ok (s\<lparr>tick := T\<rparr>) h compile opts text script dir src t = target_ok s h compile opts text script dir src t"
  by (cases t) (simp add: target_ok_def)

lemma component_not_file:
  assumes "CHR ''/'' \<notin> set name'"
  shows "device_dir dir name' \<noteq> bc_file dir name" "device_dir dir name' \<noteq> bc_file dir name @ ''.i''"
proof -
  have "CHR ''/'' \<in> set (name @ ''/program.bc'')" "CHR ''/'' \<in> set (name @ ''/program.bc'' @ ''.i'')" by simp_all
  then have "name' \<noteq> name @ ''/program.bc''" "name' \<noteq> name @ ''/program.bc'' @ ''.i''" using assms by metis+
  then show "device_dir dir name' \<noteq> bc_file dir name" "device_dir dir name' \<noteq> bc_file dir name @ ''.i''" by simp_all
qed

lemma build_cpus:
  assumes "no_faults env" "tick s \<noteq> NULL" "\<forall>t \<in> set ts. target_ok s h compile opts text script dir src t"
    and "\<forall>name. src \<noteq> bc_file dir name \<and> src \<noteq> bc_file dir name @ ''.i''" "fs src = Some (File text)"
  shows "\<exists>T fs'. build_devices env h dir opts script src (map (Some \<circ> fst) ts) f (s, fs) =
       Ret (if all_compile compile opts text ts then Inr (map (compiled_for compile opts text) ts) else Inl CL_BUILD_PROGRAM_FAILURE,
         s\<lparr>tick := T\<rparr>, fs') \<and>
     fs' src = Some (File text) \<and>
     (\<forall>name. CHR ''/'' \<notin> set name \<and> fs (device_dir dir name) \<noteq> None \<longrightarrow> fs' (device_dir dir name) \<noteq> None) \<and>
     (all_compile compile opts text ts \<longrightarrow> (\<forall>(d, name, triplet) \<in> set ts. fs' (device_dir dir name) \<noteq> None))"
  using assms(2,3,5)
proof (induction ts arbitrary: s fs f)
  case Nil
  then show ?case by (intro exI [of _ "tick s"] exI [of _ fs]) (simp add: all_compile_def)
next
  case (Cons t ts)
  obtain d name triplet where t: "t = (d, name, triplet)" by (cases t)
  then obtain dev where dev: "devices s d = Some dev" "\<not> has (dev_type dev) CL_DEVICE_TYPE_GPU"
      "dev_name (dev_info dev) = Some name" "llvm_target_triplet (dev_info dev) = triplet" "build_program h d = None"
    and ok: "length (bc_file dir name) < POCL_FILENAME_LENGTH" "compiles h compile opts text script (bc_file dir name) src triplet"
      "length (script_call opts script triplet (bc_file dir name) src) < 4096"
    and noslash: "CHR ''/'' \<notin> set name"
    using Cons.prems(2) by (auto simp: target_ok_def cpu_target_def)
  obtain T fs1 where T: "T \<noteq> NULL" "build_on_cpu env h dir opts script src d dev (s, fs) =
      Ret (build_result (compile triplet opts text), bc_file dir name, s\<lparr>tick := T\<rparr>, fs1)"
    and fs1: "fs1 (device_dir dir name) \<noteq> None"
      "\<forall>f. f \<noteq> bc_file dir name \<and> f \<noteq> bc_file dir name @ ''.i'' \<and> fs f \<noteq> None \<longrightarrow> fs1 f = fs f"
    using build_on_cpu_step [where fs = fs, OF assms(1) dev(1,3,4,5) Cons.prems(1) ok Cons.prems(3)] by (elim exE conjE)
  have src: "fs1 src = Some (File text)" using fs1(2) Cons.prems(3) assms(4) by auto
  have dirs: "fs1 (device_dir dir n) \<noteq> None" if "CHR ''/'' \<notin> set n" "fs (device_dir dir n) \<noteq> None" for n
    using fs1(2) that(2) component_not_file [OF that(1), of dir name] by simp
  show ?case
  proof (cases "compile triplet opts text")
    case None
    then have "\<not> all_compile compile opts text (t # ts)" by (simp add: all_compile_def compiled_for_def t)
    moreover have "build_devices env h dir opts script src (map (Some \<circ> fst) (t # ts)) f (s, fs) =
        Ret (Inl CL_BUILD_PROGRAM_FAILURE, s\<lparr>tick := T\<rparr>, fs1)"
      using None T(2) dev(1,2) by (simp add: t build_result_def)
    ultimately show ?thesis using src dirs
      by (intro exI [of _ T] exI [of _ fs1]) (simp add: comp_def del: build_devices.simps list.map)
  next
    case (Some code)
    have all: "all_compile compile opts text (t # ts) = all_compile compile opts text ts"
      using Some by (simp add: all_compile_def compiled_for_def t)
    have "\<exists>T' fs'. build_devices env h dir opts script src (map (Some \<circ> fst) ts) (bc_file dir name) (s\<lparr>tick := T\<rparr>, fs1) =
         Ret (if all_compile compile opts text ts then Inr (map (compiled_for compile opts text) ts) else Inl CL_BUILD_PROGRAM_FAILURE,
           s\<lparr>tick := T\<rparr>\<lparr>tick := T'\<rparr>, fs') \<and>
       fs' src = Some (File text) \<and>
       (\<forall>name. CHR ''/'' \<notin> set name \<and> fs1 (device_dir dir name) \<noteq> None \<longrightarrow> fs' (device_dir dir name) \<noteq> None) \<and>
       (all_compile compile opts text ts \<longrightarrow> (\<forall>(d, name, triplet) \<in> set ts. fs' (device_dir dir name) \<noteq> None))"
      by (rule Cons.IH) (use T(1) Cons.prems(2) src in simp_all)
    then obtain T' fs' where IH: "build_devices env h dir opts script src (map (Some \<circ> fst) ts) (bc_file dir name) (s\<lparr>tick := T\<rparr>, fs1) =
         Ret (if all_compile compile opts text ts then Inr (map (compiled_for compile opts text) ts) else Inl CL_BUILD_PROGRAM_FAILURE,
           s\<lparr>tick := T\<rparr>\<lparr>tick := T'\<rparr>, fs')"
      "fs' src = Some (File text)"
      "\<forall>name. CHR ''/'' \<notin> set name \<and> fs1 (device_dir dir name) \<noteq> None \<longrightarrow> fs' (device_dir dir name) \<noteq> None"
      "all_compile compile opts text ts \<longrightarrow> (\<forall>(d, name, triplet) \<in> set ts. fs' (device_dir dir name) \<noteq> None)"
      by blast
    have run: "build_devices env h dir opts script src (map (Some \<circ> fst) (t # ts)) f (s, fs) =
        Ret (if all_compile compile opts text (t # ts) then Inr (map (compiled_for compile opts text) (t # ts)) else Inl CL_BUILD_PROGRAM_FAILURE,
          s\<lparr>tick := T'\<rparr>, fs')"
      using IH(1) dev(1,2) T(2) Some unfolding all by (simp add: t compiled_for_def build_result_def)
    have "\<forall>(d, name, triplet) \<in> set (t # ts). fs' (device_dir dir name) \<noteq> None" if "all_compile compile opts text ts"
      using IH(3,4) noslash fs1(1) that by (auto simp: t)
    then have "all_compile compile opts text ts \<longrightarrow> (\<forall>(d, name, triplet) \<in> set (t # ts). fs' (device_dir dir name) \<noteq> None)" by (rule impI)
    moreover have "\<forall>name. CHR ''/'' \<notin> set name \<and> fs (device_dir dir name) \<noteq> None \<longrightarrow> fs' (device_dir dir name) \<noteq> None"
      using IH(3) dirs by auto
    ultimately show ?thesis using run IH(2) unfolding all by (intro exI [of _ T'] exI [of _ fs'] conjI)
  qed
qed

text \<open>The file of the source of a program, and the script that compiles it when nothing fails.\<close>

abbreviation cl_file :: "string \<Rightarrow> string" where
  "cl_file dir \<equiv> dir @ ''//program.cl''"

definition installed_script :: "host \<Rightarrow> string" where
  "installed_script h = (if getenv h ''POCL_BUILDING'' \<noteq> None then builddir h @ ''/scripts/pocl-build'' else pkgdatadir h @ ''/pocl-build'')"

lemma build_script_installed:
  "no_faults env \<Longrightarrow> \<exists>T. build_script env h s = (installed_script h, s\<lparr>tick := T\<rparr>) \<and> tick s \<le> T"
  by (cases "getenv h ''POCL_BUILDING''") (auto simp: build_script_def installed_script_def host_simps next_tick_def intro: exI [of _ "tick s"])

lemma compile_gpu_cpus:
  assumes "\<forall>t \<in> set ts. target_ok s h compile opts text script dir src t"
  shows "oiter (compile_gpu env h options tmpdir source_file_name) (map (Some \<circ> fst) ts) (x, s, fs) = Ret (x, s, fs)"
  using assms
proof (induction ts)
  case (Cons t ts)
  then show ?case by (cases x, cases t) (auto simp: compile_gpu_def target_ok_def cpu_target_def)
qed simp

lemma source_file_apart: "cl_file dir \<noteq> bc_file dir name \<and> cl_file dir \<noteq> bc_file dir name @ ''.i''"
proof (intro conjI notI)
  assume "cl_file dir = bc_file dir name"
  from arg_cong [where f = last, OF this] show False by simp
next
  assume "cl_file dir = bc_file dir name @ ''.i''"
  from arg_cong [where f = last, OF this] show False by simp
qed

lemma source_build:
  assumes "no_faults env" "tick s \<noteq> NULL" "prog_source p = Some text" "p_devices p = map (Some \<circ> fst) ts"
    and "length (temp_dir p) < 900" "fs (cl_file (temp_dir p)) \<noteq> Some Dir"
    and "\<forall>t \<in> set ts. target_ok s h compile opts (chars text) (installed_script h) (temp_dir p) (cl_file (temp_dir p)) t"
  shows "\<exists>T fs'. build_from_source env h p opts (map (Some \<circ> fst) ts) (s, fs) =
       Ret ((if all_compile compile opts (chars text) ts then Inr (map (compiled_for compile opts (chars text)) ts)
             else Inl CL_BUILD_PROGRAM_FAILURE, brigModule p), s\<lparr>tick := T\<rparr>, fs') \<and>
     fs' (cl_file (temp_dir p)) = Some (File (chars text)) \<and>
     (all_compile compile opts (chars text) ts \<longrightarrow> (\<forall>(d, name, triplet) \<in> set ts. fs' (device_dir (temp_dir p) name) \<noteq> None))"
proof -
  let ?dir = "temp_dir p" and ?src = "cl_file (temp_dir p)"
  let ?fs = "(if fs (?dir @ ''/'') = None then fs(?dir @ ''/'' \<mapsto> Dir) else fs)(?src \<mapsto> File (chars text))"
  let ?s = "s\<lparr>tick := Suc (Suc (Suc (Suc (Suc (tick s)))))\<rparr>"
  let ?r = "if all_compile compile opts (chars text) ts then Inr (map (compiled_for compile opts (chars text)) ts)
    else Inl CL_BUILD_PROGRAM_FAILURE"
  have names: "filename (?dir @ ''/'') = ?dir @ ''/''" "filename ?src = ?src"
    using assms(5) by (simp_all add: filename_short POCL_FILENAME_LENGTH_def)
  have ok: "\<forall>t \<in> set ts. target_ok ?s h compile opts (chars text) (installed_script h) ?dir ?src t" using assms(7) by simp
  obtain T where T: "build_script env h ?s = (installed_script h, ?s\<lparr>tick := T\<rparr>)" "T \<noteq> NULL"
    using build_script_installed [OF assms(1), of h ?s] by auto
  obtain T' fs' where b: "build_devices env h ?dir opts (installed_script h) ?src (map (Some \<circ> fst) ts) (unset_string env) (?s\<lparr>tick := T\<rparr>, ?fs) =
       Ret (?r, ?s\<lparr>tick := T\<rparr>\<lparr>tick := T'\<rparr>, fs')"
    "fs' ?src = Some (File (chars text))"
    "all_compile compile opts (chars text) ts \<longrightarrow> (\<forall>(d, name, triplet) \<in> set ts. fs' (device_dir ?dir name) \<noteq> None)"
    using build_cpus [OF assms(1), of "?s\<lparr>tick := T\<rparr>" ts h compile opts "chars text" "installed_script h" ?dir ?src ?fs "unset_string env"]
      T(2) ok source_file_apart by auto
  have "build_from_source env h p opts (map (Some \<circ> fst) ts) (s, fs) = Ret ((?r, brigModule p), s\<lparr>tick := T'\<rparr>, fs')"
    using assms(1-4,6) names compile_gpu_cpus [OF ok] T(1) b(1)
    by (cases "fs (?dir @ ''/'')") (simp_all add: build_from_source_def host_simps next_tick_def Let_def)
  then show ?thesis using b(2,3) by blast
qed

lemma put_program_simps [simp]:
  "tick (put_program program p s) = tick s" "devices (put_program program p s) = devices s"
  "programs (put_program program p s) = (programs s)(program \<mapsto> p)"
  by (simp_all add: put_program_def)

lemma target_ok_put [simp]:
  "target_ok (put_program program p s) h compile opts text script dir src t = target_ok s h compile opts text script dir src t"
  by (cases t) (simp add: target_ok_def cpu_target_def put_program_def)

text \<open>A program with source that can be built for its devices, all of them CPUs.\<close>

definition source_ready ::
  "rt \<Rightarrow> host \<Rightarrow> (string option \<Rightarrow> string \<Rightarrow> byte list \<Rightarrow> byte list option) \<Rightarrow> string \<Rightarrow> fsys \<Rightarrow> cl_program \<Rightarrow> string \<Rightarrow> target list \<Rightarrow> bool" where
  "source_ready s h compile opts fs p text ts \<longleftrightarrow>
     prog_source p = Some text \<and> binaries p = None \<and> p_kernels p = [] \<and> p_devices p = map (Some \<circ> fst) ts \<and>
     length (temp_dir p) < 900 \<and> fs (cl_file (temp_dir p)) \<noteq> Some Dir \<and>
     (\<forall>t \<in> set ts. target_ok s h compile opts (chars text) (installed_script h) (temp_dir p) (cl_file (temp_dir p)) t)"

lemma build_program_run:
  assumes "no_faults env" "tick s \<noteq> NULL" "program \<noteq> NULL" "programs s program = Some p"
    and "opts = (case options of None \<Rightarrow> [] | Some x \<Rightarrow> x)" "source_ready s h compile opts fs p text ts"
  shows "\<exists>T fs'. clBuildProgram env h program 0 None options notify False (s, fs) =
       Ret (if all_compile compile opts (chars text) ts then CL_SUCCESS else CL_BUILD_PROGRAM_FAILURE,
         s\<lparr>tick := T, programs := (programs s)(program \<mapsto> p\<lparr>compiler_options := options,
           binaries := if all_compile compile opts (chars text) ts then Some (map (compiled_for compile opts (chars text)) ts) else None\<rparr>)\<rparr>, fs') \<and>
     fs' (cl_file (temp_dir p)) = Some (File (chars text)) \<and>
     (all_compile compile opts (chars text) ts \<longrightarrow> (\<forall>(d, name, triplet) \<in> set ts. fs' (device_dir (temp_dir p) name) \<noteq> None))"
proof -
  let ?p = "p\<lparr>compiler_options := options\<rparr>"
  let ?r = "if all_compile compile opts (chars text) ts then Inr (map (compiled_for compile opts (chars text)) ts)
    else Inl CL_BUILD_PROGRAM_FAILURE"
  note rd = assms(6) [unfolded source_ready_def]
  have "keep_options env options s = (options, s\<lparr>tick := if options = None then tick s else Suc (tick s)\<rparr>)"
    using assms(1,2) by (cases options) (simp_all add: keep_options_def host_simps next_tick_def)
  then obtain T where T: "keep_options env options s = (options, s\<lparr>tick := T\<rparr>)" "T \<noteq> NULL"
    using assms(2) by (metis nat.distinct(1))
  let ?s = "put_program program ?p (s\<lparr>tick := T\<rparr>)"
  have "\<exists>T' fs'. build_from_source env h ?p opts (map (Some \<circ> fst) ts) (?s, fs) = Ret ((?r, brigModule ?p), ?s\<lparr>tick := T'\<rparr>, fs') \<and>
     fs' (cl_file (temp_dir ?p)) = Some (File (chars text)) \<and>
     (all_compile compile opts (chars text) ts \<longrightarrow> (\<forall>(d, name, triplet) \<in> set ts. fs' (device_dir (temp_dir ?p) name) \<noteq> None))"
    by (rule source_build) (use assms(1) rd T(2) in simp_all)
  then obtain T' fs' where b: "build_from_source env h ?p opts (map (Some \<circ> fst) ts) (?s, fs) = Ret ((?r, brigModule p), ?s\<lparr>tick := T'\<rparr>, fs')"
    "fs' (cl_file (temp_dir p)) = Some (File (chars text))"
    "all_compile compile opts (chars text) ts \<longrightarrow> (\<forall>(d, name, triplet) \<in> set ts. fs' (device_dir (temp_dir p) name) \<noteq> None)"
    by auto
  have "clBuildProgram env h program 0 None options notify False (s, fs) =
     Ret (if all_compile compile opts (chars text) ts then CL_SUCCESS else CL_BUILD_PROGRAM_FAILURE,
       s\<lparr>tick := T', programs := (programs s)(program \<mapsto> p\<lparr>compiler_options := options,
         binaries := if all_compile compile opts (chars text) ts then Some (map (compiled_for compile opts (chars text)) ts) else None\<rparr>)\<rparr>, fs')"
    using assms(3-5) rd T(1) b(1) by (simp add: clBuildProgram_def put_program_def Let_def)
  then show ?thesis using b(2,3) by blast
qed


lemma demo_ready:
  "source_ready (demo_rt\<lparr>programs := [6 \<mapsto> demo_program_rec]\<rparr>) demo_host demo_compile [] Map.empty demo_program_rec ''x'' [(1, ''basic'', Some ''x86_64'')]"
  by (simp add: source_ready_def target_ok_def cpu_target_def compiles_def script_call_def installed_script_def demo_host_def demo_compile_def demo_rt_def demo_device_def
      basic_info_def demo_program_rec_def demo_config_def has_def CL_DEVICE_TYPE_CPU_def CL_DEVICE_TYPE_GPU_def POCL_FILENAME_LENGTH_def chars_def)


lemma rebuild_fails:
  assumes "program \<noteq> NULL" "programs s program = Some p" "binaries p = Some bs" "p_kernels p = []"
    and "p_devices p = Some d # ds" "cpu_named s d name" "length (device_dir (temp_dir p) name) < POCL_FILENAME_LENGTH"
    and "fs (device_dir (temp_dir p) name) \<noteq> None"
  shows "\<exists>s'. clBuildProgram env h program 0 None None notify False (s, fs) = Ret (CL_OUT_OF_HOST_MEMORY, s', fs) \<and>
     programs s' = (programs s)(program \<mapsto> p\<lparr>compiler_options := None, binaries := None\<rparr>)"
proof -
  let ?p = "p\<lparr>compiler_options := None\<rparr>"
  let ?s = "put_program program ?p s"
  obtain dev where dev: "devices s d = Some dev" "\<not> has (dev_type dev) CL_DEVICE_TYPE_GPU" "dev_name (dev_info dev) = Some name"
    using assms(6) by (auto simp: cpu_named_def)
  obtain node where "fs (device_dir (temp_dir p) name) = Some node" using assms(8) by blast
  then have "dump_devices env h ?p (p_devices p) 0 (brigModule p) (?s, fs) = Ret ((False, brigModule p), next_tick ?s, fs)"
    using assms(5,7) dev by (simp add: dump_on_cpu_def mkdir_def os_ok_def put_program_def)
  then have "clBuildProgram env h program 0 None None notify False (s, fs) =
     Ret (CL_OUT_OF_HOST_MEMORY, put_program program (?p\<lparr>binaries := None, brigModule := brigModule p\<rparr>) (next_tick ?s), fs)"
    using assms(1-4) by (simp add: clBuildProgram_def keep_options_def Let_def)
  then show ?thesis by (simp add: put_program_def next_tick_def)
qed

text \<open>C39. A program with source, whose devices are all CPUs built with the script, is built, with success, and built again before
  a kernel is created: the second build fails with \<open>CL_OUT_OF_HOST_MEMORY\<close>, because the directory the first build has
  made for the first device exists already, and it drops the binaries of the first build; the source is kept.\<close>

theorem rebuild_drops_binaries:
  assumes "no_faults env" "tick s \<noteq> NULL" "program \<noteq> NULL" "programs s program = Some p"
    and "source_ready s h compile [] fs p text ts" "all_compile compile [] (chars text) ts" "ts \<noteq> []"
  shows "\<exists>s1 fs1 s2 bs. clBuildProgram env h program 0 None None notify False (s, fs) = Ret (CL_SUCCESS, s1, fs1) \<and>
     programs s1 program = Some (p\<lparr>compiler_options := None, binaries := Some bs\<rparr>) \<and> length bs = length ts \<and> None \<notin> set bs \<and>
     clBuildProgram env h program 0 None None notify False (s1, fs1) = Ret (CL_OUT_OF_HOST_MEMORY, s2, fs1) \<and>
     programs s2 = (programs s)(program \<mapsto> p\<lparr>compiler_options := None, binaries := None\<rparr>)"
proof -
  let ?bs = "map (compiled_for compile [] (chars text)) ts"
  let ?p = "p\<lparr>compiler_options := None, binaries := Some ?bs\<rparr>"
  obtain T fs1 where b: "clBuildProgram env h program 0 None None notify False (s, fs) =
      Ret (CL_SUCCESS, s\<lparr>tick := T, programs := (programs s)(program \<mapsto> ?p)\<rparr>, fs1)"
    "\<forall>(d, name, triplet) \<in> set ts. fs1 (device_dir (temp_dir p) name) \<noteq> None"
    using build_program_run [OF assms(1-4) _ assms(5), of None notify] assms(6) by auto
  obtain d name triplet ts' where t: "ts = (d, name, triplet) # ts'" using assms(7) by (metis list.exhaust prod_cases3)
  let ?s1 = "s\<lparr>tick := T, programs := (programs s)(program \<mapsto> ?p)\<rparr>"
  have ready: "p_kernels p = []" "p_devices p = Some d # map (Some \<circ> fst) ts'" "cpu_target s h d name triplet"
      "length (bc_file (temp_dir p) name) < POCL_FILENAME_LENGTH"
    using assms(5) by (auto simp: source_ready_def target_ok_def t)
  have "\<exists>s'. clBuildProgram env h program 0 None None notify False (?s1, fs1) = Ret (CL_OUT_OF_HOST_MEMORY, s', fs1) \<and>
     programs s' = (programs ?s1)(program \<mapsto> ?p\<lparr>compiler_options := None, binaries := None\<rparr>)"
    by (rule rebuild_fails [where d = d and name = name]) (use assms(3) ready b(2) in \<open>auto simp: cpu_named_def cpu_target_def t\<close>)
  then obtain s2 where s2: "clBuildProgram env h program 0 None None notify False (?s1, fs1) = Ret (CL_OUT_OF_HOST_MEMORY, s2, fs1)"
    "programs s2 = (programs s)(program \<mapsto> p\<lparr>compiler_options := None, binaries := None\<rparr>)" by auto
  have "None \<notin> set ?bs" using assms(6) by (auto simp: all_compile_def)
  then show ?thesis using b(1) s2 by (intro exI [of _ ?s1] exI [of _ fs1] exI [of _ s2] exI [of _ ?bs]) simp
qed

theorem rebuild_drops_binaries_witness:
  "\<exists>s1 fs1 s2. clBuildProgram demo_env demo_host 6 0 None None False False (demo_rt\<lparr>programs := [6 \<mapsto> demo_program_rec]\<rparr>, Map.empty) =
       Ret (CL_SUCCESS, s1, fs1) \<and>
     clBuildProgram demo_env demo_host 6 0 None None False False (s1, fs1) = Ret (CL_OUT_OF_HOST_MEMORY, s2, fs1)"
proof -
  have "all_compile demo_compile [] (chars ''x'') [(1, ''basic'', Some ''x86_64'')]"
    by (simp add: all_compile_def compiled_for_def demo_compile_def chars_def)
  then show ?thesis
    using rebuild_drops_binaries [OF demo_no_faults _ _ _ demo_ready, of 6 False] by (fastforce simp: demo_rt_def)
qed

text \<open>A program without source cannot be built again after that.\<close>

lemma lost_binaries_stay_lost:
  assumes "program \<noteq> NULL" "programs s program = Some p" "binaries p = None" "prog_source p = None" "p_kernels p = []"
  shows "\<exists>s'. clBuildProgram env h program num devs None notify False (s, fs) = Ret (CL_INVALID_PROGRAM, s', fs)"
  using assms by (simp add: clBuildProgram_def keep_options_def Let_def)

text \<open>The binary of a GPU that comes after a CPU is read from the file of the CPU.\<close>

lemma gpu_gets_bitcode:
  assumes "no_faults env" "tick s \<noteq> NULL" "target_ok s h compile opts text script dir src (d, name, triplet)"
    and "fs src = Some (File text)" "compile triplet opts text = Some code"
    and "devices s g = Some gpu" "has (dev_type gpu) CL_DEVICE_TYPE_GPU"
  shows "\<exists>st. build_devices env h dir opts script src [Some d, Some g] f (s, fs) = Ret (Inr [Some code, Some code], st)"
proof -
  obtain dev where dev: "devices s d = Some dev" "\<not> has (dev_type dev) CL_DEVICE_TYPE_GPU"
      "dev_name (dev_info dev) = Some name" "llvm_target_triplet (dev_info dev) = triplet" "build_program h d = None"
    and ok: "length (bc_file dir name) < POCL_FILENAME_LENGTH" "compiles h compile opts text script (bc_file dir name) src triplet"
      "length (script_call opts script triplet (bc_file dir name) src) < 4096"
    using assms(3) by (auto simp: target_ok_def cpu_target_def)
  obtain T fs' where "T \<noteq> NULL" "build_on_cpu env h dir opts script src d dev (s, fs) =
      Ret (Inr code, bc_file dir name, s\<lparr>tick := T\<rparr>, fs')" "fs' (bc_file dir name) = Some (File code)"
    using build_on_cpu_step [where fs = fs, OF assms(1) dev(1,3,4,5) assms(2) ok assms(4)] assms(5)
    by (auto simp: build_result_def)
  then show ?thesis using dev(1,2) assms(1,6,7)
    by (simp add: build_on_gpu_def host_simps read_file_def next_tick_def)
qed

end
