(* ===== verification/Brig_Claims.thy ===== *)
theory Brig_Claims
  imports Brig
begin

text \<open>
  Properties of BRIG modules: looking up a kernel in the bytes of a module agrees with looking it up in
  the list of its directives.
\<close>

section \<open>Directives and their bytes\<close>

text \<open>A directive of the code section: a kernel with the offset of its name, its numbers of arguments and
  the rest of its fields, or something of another kind.\<close>

datatype directive = Kernel nat nat nat "byte list" | Other nat "byte list"

fun nat_le :: "nat \<Rightarrow> nat \<Rightarrow> byte list" where
  "nat_le 0 v = []"
| "nat_le (Suc n) v = of_nat v # nat_le n (v div 256)"

fun directive_size :: "directive \<Rightarrow> nat" where
  "directive_size (Kernel name_offset outs ins rest) = 12 + length rest"
| "directive_size (Other kind rest) = 4 + length rest"

fun directive_bytes :: "directive \<Rightarrow> byte list" where
  "directive_bytes (Kernel name_offset outs ins rest) =
     nat_le 2 (12 + length rest) @ nat_le 2 BRIG_KIND_DIRECTIVE_KERNEL @ nat_le 4 name_offset @ nat_le 2 outs @ nat_le 2 ins @ rest"
| "directive_bytes (Other kind rest) = nat_le 2 (4 + length rest) @ nat_le 2 kind @ rest"

text \<open>The fields fit their widths, and the name of a kernel is a terminated text in the data section.\<close>

fun directive_ok :: "byte list \<Rightarrow> directive \<Rightarrow> bool" where
  "directive_ok data (Kernel name_offset outs ins rest) \<longleftrightarrow>
     12 + length rest < 2 ^ 16 \<and> name_offset < 2 ^ 32 \<and> ins < 2 ^ 16 \<and> 0 \<in> set (drop (name_offset + 4) data)"
| "directive_ok data (Other kind rest) \<longleftrightarrow> 4 + length rest < 2 ^ 16 \<and> kind < 2 ^ 16 \<and> kind \<noteq> BRIG_KIND_DIRECTIVE_KERNEL"

definition name_at :: "byte list \<Rightarrow> nat \<Rightarrow> byte list" where
  "name_at data off = takeWhile (\<lambda>b. b \<noteq> 0) (drop (off + 4) data)"

text \<open>The reference: the first kernel whose name passes a test.\<close>

fun lookup_kernel :: "byte list \<Rightarrow> (byte list \<Rightarrow> bool) \<Rightarrow> nat \<Rightarrow> directive list \<Rightarrow> (nat \<times> nat) option" where
  "lookup_kernel data test off [] = None"
| "lookup_kernel data test off (Kernel name_offset outs ins rest # ds) =
     (if test (name_at data name_offset) then Some (off, ins)
      else lookup_kernel data test (off + 12 + length rest) ds)"
| "lookup_kernel data test off (Other kind rest # ds) = lookup_kernel data test (off + 4 + length rest) ds"

fun kernel_names :: "byte list \<Rightarrow> directive list \<Rightarrow> byte list set" where
  "kernel_names data [] = {}"
| "kernel_names data (Kernel name_offset outs ins rest # ds) = insert (name_at data name_offset) (kernel_names data ds)"
| "kernel_names data (Other kind rest # ds) = kernel_names data ds"

lemma lookup_kernel_cong:
  "(\<And>n. n \<in> kernel_names data ds \<Longrightarrow> test n = test' n) \<Longrightarrow> lookup_kernel data test off ds = lookup_kernel data test' off ds"
  by (induction data test off ds rule: lookup_kernel.induct) auto

lemma length_nat_le [simp]: "length (nat_le n v) = n"
  by (induction n arbitrary: v) auto

lemma nat_le_numeral [simp]: "nat_le (numeral k) v = of_nat v # nat_le (pred_numeral k) (v div 256)"
  by (simp only: numeral_eq_Suc nat_le.simps)

lemma le_nat_nat_le: "le_nat (nat_le n v) = v mod 256 ^ n"
proof (induction n arbitrary: v)
  case (Suc n)
  have "unat (of_nat v :: byte) = v mod 256" by (simp add: unat_of_nat)
  then show ?case using Suc mod_mult2_eq [of v 256 "256 ^ n"] by simp
qed simp

lemma length_directive_bytes [simp]: "length (directive_bytes d) = directive_size d"
  by (cases d) simp_all

lemma field_nat_le:
  assumes "bs = pre @ nat_le n v @ post" "length pre = off" "v < 256 ^ n"
  shows "field n bs off = Ret v"
  using assms by (simp add: field_def le_nat_nat_le)

lemma strncmp_eq_prefix:
  assumes "0 \<notin> set symbol" "0 \<in> set bs"
  shows "strncmp_eq symbol bs = Ret (prefix symbol (takeWhile (\<lambda>b. b \<noteq> 0) bs))"
  using assms by (induction symbol bs rule: strncmp_eq.induct) auto

section \<open>The search\<close>

lemma code_entry_other:
  assumes "code_section m = pre @ directive_bytes (Other kind rest) @ post" "directive_ok (data_section m) (Other kind rest)"
    and "length pre + 4 + length rest < 2 ^ 32"
  shows "code_entry m symbol (length pre) = Ret (Next (length pre + 4 + length rest))"
proof -
  have "field 2 (code_section m) (length pre + 2) = Ret kind"
    by (rule field_nat_le [where pre = "pre @ nat_le 2 (4 + length rest)" and post = "rest @ post"]) (use assms in simp_all)
  moreover have "field 2 (code_section m) (length pre) = Ret (4 + length rest)"
    by (rule field_nat_le [where pre = pre and post = "nat_le 2 kind @ rest @ post"]) (use assms in simp_all)
  ultimately show ?thesis using assms(2,3) by (simp add: code_entry_def)
qed

lemma code_entry_kernel:
  assumes "code_section m = pre @ directive_bytes (Kernel name_offset outs ins rest) @ post"
    and "directive_ok (data_section m) (Kernel name_offset outs ins rest)"
    and "length pre + 12 + length rest < 2 ^ 32" "0 \<notin> set symbol"
  shows "code_entry m symbol (length pre) =
     Ret (if prefix symbol (name_at (data_section m) name_offset) then Found ins else Next (length pre + 12 + length rest))"
proof -
  let ?k = "nat_le 2 BRIG_KIND_DIRECTIVE_KERNEL" and ?n = "nat_le 4 name_offset" and ?o = "nat_le 2 outs" and ?i = "nat_le 2 ins"
  have "field 2 (code_section m) (length pre + 2) = Ret BRIG_KIND_DIRECTIVE_KERNEL"
    by (rule field_nat_le [where pre = "pre @ nat_le 2 (12 + length rest)" and post = "?n @ ?o @ ?i @ rest @ post"])
       (use assms in \<open>simp_all add: BRIG_KIND_DIRECTIVE_KERNEL_def\<close>)
  moreover have "field 4 (code_section m) (length pre + 4) = Ret name_offset"
    by (rule field_nat_le [where pre = "pre @ nat_le 2 (12 + length rest) @ ?k" and post = "?o @ ?i @ rest @ post"]) (use assms in simp_all)
  moreover have "field 2 (code_section m) (length pre + 10) = Ret ins"
    by (rule field_nat_le [where pre = "pre @ nat_le 2 (12 + length rest) @ ?k @ ?n @ ?o" and post = "rest @ post"]) (use assms in simp_all)
  moreover have "field 2 (code_section m) (length pre) = Ret (12 + length rest)"
    by (rule field_nat_le [where pre = pre and post = "?k @ ?n @ ?o @ ?i @ rest @ post"]) (use assms in simp_all)
  moreover have "strncmp_eq symbol (drop (name_offset + 4) (data_section m)) = Ret (prefix symbol (name_at (data_section m) name_offset))"
    unfolding name_at_def by (rule strncmp_eq_prefix) (use assms in simp_all)
  ultimately show ?thesis using assms(3) by (simp add: code_entry_def)
qed

lemma search_code_directives:
  assumes "code_section m = pre @ concat (map directive_bytes ds)" "\<forall>d \<in> set ds. directive_ok (data_section m) d"
    and "length (code_section m) < 2 ^ 32" "0 \<notin> set symbol"
  shows "search_code m symbol (length (code_section m)) (length pre) = Some (Ret (lookup_kernel (data_section m) (prefix symbol) (length pre) ds))"
  using assms(1,2)
proof (induction ds arbitrary: pre)
  case Nil
  then show ?case by (subst search_code.simps) simp
next
  case (Cons d ds)
  have IH: "search_code m symbol (length (code_section m)) (length pre + directive_size d) =
      Some (Ret (lookup_kernel (data_section m) (prefix symbol) (length pre + directive_size d) ds))"
    using Cons.IH [of "pre @ directive_bytes d"] Cons.prems by simp
  have less: "length pre + directive_size d < 2 ^ 32" and ne: "length pre \<noteq> length (code_section m)"
    using assms(3) Cons.prems(1) by (auto, cases d) auto
  show ?case
  proof (cases d)
    case (Kernel name_offset outs ins rest)
    then have "code_entry m symbol (length pre) =
      Ret (if prefix symbol (name_at (data_section m) name_offset) then Found ins else Next (length pre + 12 + length rest))"
      using code_entry_kernel [of m pre name_offset outs ins rest "concat (map directive_bytes ds)" symbol] Cons.prems less assms(4)
      by simp
    then show ?thesis using IH ne Kernel by (subst search_code.simps) (simp add: add.assoc)
  next
    case (Other kind rest)
    then have "code_entry m symbol (length pre) = Ret (Next (length pre + 4 + length rest))"
      using code_entry_other [of m pre kind rest "concat (map directive_bytes ds)" symbol] Cons.prems less by simp
    then show ?thesis using IH ne Other by (subst search_code.simps) (simp add: add.assoc)
  qed
qed

text \<open>A code section: a header that begins with the size of the section and its own size, then the directives.\<close>

definition code_bytes :: "byte list \<Rightarrow> directive list \<Rightarrow> byte list" where
  "code_bytes header ds =
     (let body = concat (map directive_bytes ds); n = 8 + length header in
      nat_le 4 (n + length body) @ nat_le 4 n @ header @ body)"

lemma code_bytes_fields:
  assumes "length (code_bytes header ds) < 2 ^ 32"
  shows "field 4 (code_bytes header ds) 0 = Ret (length (code_bytes header ds))"
    and "field 4 (code_bytes header ds) 4 = Ret (8 + length header)"
proof -
  let ?body = "concat (map directive_bytes ds)"
  have len: "length (code_bytes header ds) = 8 + length header + length ?body"
    by (simp add: code_bytes_def Let_def)
  show "field 4 (code_bytes header ds) 0 = Ret (length (code_bytes header ds))"
    by (rule field_nat_le [where pre = "[]" and post = "nat_le 4 (8 + length header) @ header @ ?body"])
       (use assms len in \<open>simp_all add: code_bytes_def Let_def add.assoc\<close>)
  show "field 4 (code_bytes header ds) 4 = Ret (8 + length header)"
    by (rule field_nat_le [where pre = "nat_le 4 (8 + length header + length ?body)" and post = "header @ ?body"])
       (use assms len in \<open>simp_all add: code_bytes_def Let_def\<close>)
qed

lemma byte_of_char_0: "(of_char c :: byte) = 0 \<longleftrightarrow> c = NUL"
proof
  assume *: "(of_char c :: byte) = 0"
  have "unat (of_nat (of_char c) :: byte) = of_char c" by (simp add: unat_of_nat)
  then have "(of_char c :: nat) = of_char NUL" using * by (simp add: of_nat_of_char)
  then show "c = NUL" by (simp only: of_char_eq_iff)
qed simp

lemma chars_no_NUL: "NUL \<notin> set t \<Longrightarrow> 0 \<notin> set (chars t)"
  by (auto simp: chars_def byte_of_char_0 dest: sym)

lemma find_symbol_offset_prefix:
  assumes "code_section m = code_bytes header ds" "length (code_section m) < 2 ^ 32" "NUL \<notin> set symbol"
    and "\<forall>d \<in> set ds. directive_ok (data_section m) d"
  shows "find_symbol_offset m symbol = Ret (lookup_kernel (data_section m) (prefix (chars symbol)) (8 + length header) ds)"
proof -
  let ?body = "concat (map directive_bytes ds)"
  let ?pre = "nat_le 4 (8 + length header + length ?body) @ nat_le 4 (8 + length header) @ header"
  have code: "code_section m = ?pre @ ?body" using assms(1) by (simp add: code_bytes_def Let_def)
  have pre: "length ?pre = 8 + length header" by simp
  show ?thesis
    using code_bytes_fields [of header ds] search_code_directives [OF code assms(4,2) chars_no_NUL [OF assms(3)]]
      assms(1,2) unfolding find_symbol_offset_def pre by simp
qed

text \<open>C15. Looking up a kernel in the bytes of a well-formed module of less than 4 GiB. When the name of no kernel of the
  module is a longer name that begins with the symbol, the result is the offset and the number of arguments of the kernel with
  exactly the name of the symbol, or an error when there is none. Otherwise the search does not do what its comment says: in
  every case the result is that of the first kernel whose name only begins with the symbol.\<close>

theorem find_symbol_offset_correct:
  assumes "code_section m = code_bytes header ds" "length (code_section m) < 2 ^ 32" "NUL \<notin> set symbol"
    and "\<forall>d \<in> set ds. directive_ok (data_section m) d"
  shows "((\<forall>n \<in> kernel_names (data_section m) ds. \<not> strict_prefix (chars symbol) n) \<longrightarrow>
       find_symbol_offset m symbol = Ret (lookup_kernel (data_section m) (\<lambda>n. n = chars symbol) (8 + length header) ds)) \<and>
    find_symbol_offset m symbol = Ret (lookup_kernel (data_section m) (prefix (chars symbol)) (8 + length header) ds)"
proof (intro conjI impI)
  show found: "find_symbol_offset m symbol = Ret (lookup_kernel (data_section m) (prefix (chars symbol)) (8 + length header) ds)"
    by (rule find_symbol_offset_prefix [OF assms])
  assume "\<forall>n \<in> kernel_names (data_section m) ds. \<not> strict_prefix (chars symbol) n"
  then have "lookup_kernel (data_section m) (prefix (chars symbol)) off ds =
      lookup_kernel (data_section m) (\<lambda>n. n = chars symbol) off ds" for off
    by (intro lookup_kernel_cong) (auto simp: strict_prefix_def)
  with found show "find_symbol_offset m symbol =
      Ret (lookup_kernel (data_section m) (\<lambda>n. n = chars symbol) (8 + length header) ds)" by simp
qed

definition demo_brig :: brig_module where
  "demo_brig = \<lparr>data_section = nat_le 4 4 @ chars ''&add2'' @ [0] @ nat_le 4 3 @ chars ''&add'' @ [0],
     code_section = code_bytes [0, 0, 0, 0] [Other 0x1000 [], Kernel 0 0 3 [], Kernel 10 0 2 [1]], operand_section = []\<rparr>"

theorem find_symbol_offset_correct_witness:
  "find_symbol_offset demo_brig ''&add2'' = Ret (Some (16, 3)) \<and> find_symbol_offset demo_brig ''&mul'' = Ret None \<and>
   find_symbol_offset demo_brig ''&add'' = Ret (Some (16, 3)) \<and>
   lookup_kernel (data_section demo_brig) (\<lambda>n. n = chars ''&add'') 12 [Other 0x1000 [], Kernel 0 0 3 [], Kernel 10 0 2 [1]] = Some (28, 2)"
proof -
  have code: "code_section demo_brig = code_bytes [0, 0, 0, 0] [Other 0x1000 [], Kernel 0 0 3 [], Kernel 10 0 2 [1]]"
    by (simp add: demo_brig_def)
  have ok: "\<forall>d \<in> set [Other 0x1000 [], Kernel 0 0 3 [], Kernel 10 0 2 [1]]. directive_ok (data_section demo_brig) d"
    by (simp add: demo_brig_def BRIG_KIND_DIRECTIVE_KERNEL_def chars_def)
  have len: "length (code_section demo_brig) < 2 ^ 32" by (simp add: demo_brig_def code_bytes_def)
  note found = find_symbol_offset_correct [OF code len _ ok]
  have "\<forall>n \<in> kernel_names (data_section demo_brig) [Other 0x1000 [], Kernel 0 0 3 [], Kernel 10 0 2 [1]].
      \<not> strict_prefix (chars ''&add2'') n \<and> \<not> strict_prefix (chars ''&mul'') n"
    by (simp add: name_at_def demo_brig_def chars_def strict_prefix_def)
  with found [of "''&add2''"] found [of "''&mul''"] found [of "''&add''"] show ?thesis
    by (simp add: name_at_def demo_brig_def chars_def)
qed

text \<open>The search never ends when it comes to an entry of size 0.\<close>

lemma search_code_returns:
  assumes "search_code m symbol byte_count off = Some r"
  shows "code_entry m symbol off = Ret (Next off) \<longrightarrow> off = byte_count"
  by (rule search_code.raw_induct [where P = "\<lambda>m symbol byte_count off r. code_entry m symbol off = Ret (Next off) \<longrightarrow> off = byte_count", OF _ assms])
     (auto split: if_splits)

lemma empty_entry_hangs:
  assumes "field 4 (code_section m) 4 = Ret off" "field 4 (code_section m) 0 = Ret byte_count" "off \<noteq> byte_count"
    and "code_entry m (chars symbol) off = Ret (Next off)"
  shows "find_symbol_offset m symbol = Abort"
proof -
  have "search_code m (chars symbol) byte_count off = None"
    using search_code_returns assms(3,4) by fastforce
  then show ?thesis using assms(1,2) by (simp add: find_symbol_offset_def)
qed

end
