(* ===== verification/Kernel_Creation.thy ===== *)
theory Kernel_Creation
  imports Programs
begin

text \<open>
  \<open>clCreateKernel\<close>. For a CPU the arguments of the kernel are described by a shared object the kernel
  script makes; for a GPU they are found by searching the source of the program, or the disassembly of its
  binary, for the text of the parameter list.
\<close>

section \<open>Parameter lists\<close>

definition name_ends :: "string \<Rightarrow> bool" where
  "name_ends tx \<longleftrightarrow> (case tx of [] \<Rightarrow> False | c # _ \<Rightarrow> c \<in> {CHR ''('', CHR 0x0A, CHR 0x09, CHR '' ''})"

text \<open>From behind an occurrence of the name to behind the next one, until a character follows that ends the name.
  The comparison of the pointer with an empty string never ends the loop.\<close>

function skip_prefixed :: "string \<Rightarrow> string \<Rightarrow> string outcome" where
  "skip_prefixed name tx =
     (if name_ends tx then Ret tx
      else if name = [] then Abort
      else case strstr tx name of None \<Rightarrow> Undef | Some u \<Rightarrow> skip_prefixed name (drop (length name) u))"
  by pat_completeness auto

termination skip_prefixed
proof (relation "measure (\<lambda>(name, tx). length tx)")
  fix name tx u :: string
  assume "\<not> name_ends tx" "name \<noteq> []" "strstr tx name = Some u"
  then show "((name, drop (length name) u), (name, tx)) \<in> measure (\<lambda>(name, tx). length tx)"
    using strstr_Some [of tx name u] by auto
qed simp

declare skip_prefixed.simps [simp del]

text \<open>The text up to the opening brace. Without a brace the search leaves the array.\<close>

definition up_to_brace :: "string \<Rightarrow> string outcome" where
  "up_to_brace tx = (if CHR ''{'' \<in> set tx then Ret (takeWhile (\<lambda>c. c \<noteq> CHR ''{'') tx) else Undef)"

definition count_args :: "string \<Rightarrow> nat" where
  "count_args str_arg = 1 + count_list str_arg (CHR '','')"

text \<open>The first \<open>n\<close> tokens; a missing one is NULL and is searched all the same. The second call of
  \<open>strtok\<close> on the last token, for a brace, finds none.\<close>

fun arg_names :: "nat \<Rightarrow> string \<Rightarrow> string list outcome" where
  "arg_names 0 t = Ret []"
| "arg_names (Suc n) t =
     (case strtok (CHR '','') t of
        (None, _) \<Rightarrow> Undef
      | (Some argName, rest) \<Rightarrow> obind (arg_names n rest) (\<lambda>names. Ret (argName # names)))"

text \<open>What is taken from the text of one parameter (with \<open>OPENCV\_SUPPORT\<close>, which is always defined here).\<close>

definition is_pointer_param :: "string \<Rightarrow> bool" where
  "is_pointer_param argName \<longleftrightarrow> CHR ''*'' \<in> set argName \<or> CHR ''['' \<in> set argName \<or> strstr argName ''IMAGE'' \<noteq> None"

definition is_local_param :: "string \<Rightarrow> bool" where
  "is_local_param argName \<longleftrightarrow> strstr argName ''local'' \<noteq> None"

definition is_image_param :: "string \<Rightarrow> bool" where
  "is_image_param argName \<longleftrightarrow> strstr argName ''image'' \<noteq> None"

definition is_sampler_param :: "string \<Rightarrow> bool" where
  "is_sampler_param argName \<longleftrightarrow> strstr argName ''sampler_t'' \<noteq> None"

definition is_struct_param :: "string \<Rightarrow> bool" where
  "is_struct_param argName \<longleftrightarrow> strstr argName ''struct'' \<noteq> None"

text \<open>From the source: \<open>None\<close> is an empty parameter list, for which the number of arguments is not set.\<close>

definition source_params :: "string \<Rightarrow> string \<Rightarrow> string list option outcome" where
  "source_params source kernel_name =
     obind (c_strcpy 65536 source) (\<lambda>program_start.
     obind (deref (strstr program_start ''kernel'')) (\<lambda>tx.
     obind (deref (strstr tx ''void'')) (\<lambda>tx.
     obind (deref (strstr tx kernel_name)) (\<lambda>tx.
     obind (skip_prefixed kernel_name (drop (length kernel_name) tx)) (\<lambda>arg_start.
     obind (up_to_brace arg_start) (\<lambda>str_arg.
     if str_arg \<in> {''()'', [CHR ''('', CHR 0x0A, CHR '')''], ''( )''} then Ret None
     else obind (arg_names (count_args str_arg) str_arg) (\<lambda>names. Ret (Some names))))))))"

text \<open>From the disassembly of a binary. The text is not terminated in the block it is read into.\<close>

definition hsa_name :: "string \<Rightarrow> string" where
  "hsa_name kernel_name = ''&__OpenCL_'' @ kernel_name @ ''_kernel''"

definition hsail_params :: "string \<Rightarrow> string \<Rightarrow> string list outcome" where
  "hsail_params hsail_str kernel_name =
     obind (c_str hsail_str) (\<lambda>text.
     obind (deref (strstr text ''kernel'')) (\<lambda>tx.
     obind (sprintf 128 (hsa_name kernel_name)) (\<lambda>hsa_kernel_name.
     obind (deref (strstr tx hsa_kernel_name)) (\<lambda>tx.
     obind (skip_prefixed hsa_kernel_name (drop (length hsa_kernel_name) tx)) (\<lambda>tx.
     let tx = (case strstr tx ''aqlwrap_pointer,'' of None \<Rightarrow> tx | Some u \<Rightarrow> drop (length ''aqlwrap_pointer,'') u) in
     obind (up_to_brace tx) (\<lambda>str_arg.
     if length str_arg \<ge> 512 then Undef else arg_names (count_args str_arg) str_arg))))))"

section \<open>The arguments of a new kernel\<close>

text \<open>For a GPU. The samplers are not set for a program from a binary.\<close>

definition gpu_arguments :: "env \<Rightarrow> host \<Rightarrow> cl_program \<Rightarrow> string \<Rightarrow> cl_kernel \<Rightarrow> rt \<times> fsys \<Rightarrow> (cl_kernel \<times> rt \<times> fsys) outcome" where
  "gpu_arguments env h p kernel_name k = (\<lambda>(s, fs).
     case new_obj env s of (wg, s) \<Rightarrow>
     if wg = NULL then Undef
     else let k = k\<lparr>num_locals := 0, reqd_wg_size := Some [0, 0, 0]\<rparr> in
     case prog_source p of
       Some source \<Rightarrow>
         obind (source_params source kernel_name) (\<lambda>params.
         case params of None \<Rightarrow> Ret (k, s, fs)
         | Some names \<Rightarrow> Ret (k\<lparr>num_args := length names, arg_is_pointer := map is_pointer_param names,
             arg_is_local := Some (map is_local_param names), arg_is_image := map is_image_param names,
             arg_is_sampler := map is_sampler_param names, arg_is_struct := map is_struct_param names\<rparr>, s, fs))
     | None \<Rightarrow>
         (case fopen_r env (filename (temp_dir p @ ''/program.hsail'')) (s, fs) of (f, s) \<Rightarrow>
          obind (deref f) (\<lambda>bs.
          case new_obj env s of (block, s) \<Rightarrow>
          if block = NULL then Undef
          else obind (hsail_params (map (\<lambda>b. char_of (unat b)) bs) kernel_name) (\<lambda>names.
               Ret (k\<lparr>num_args := length names, arg_is_pointer := map (\<lambda>a. strstr a ''kernarg_u64'' \<noteq> None) names,
                 arg_is_local := Some (replicate (length names) False), arg_is_image := replicate (length names) False,
                 arg_is_sampler := [], arg_is_struct := replicate (length names) False\<rparr>, s, fs)))))"

text \<open>For a CPU: the symbols of the descriptor.\<close>

definition cpu_arguments :: "kernel_descriptor option \<Rightarrow> cl_kernel \<Rightarrow> cl_kernel outcome" where
  "cpu_arguments dlhandle k =
     obind (deref dlhandle) (\<lambda>desc.
     Ret (k\<lparr>num_args := desc_num_args desc, reqd_wg_size := desc_reqd_wg_size desc, arg_is_pointer := desc_arg_is_pointer desc,
       arg_is_local := desc_arg_is_local desc, arg_is_image := desc_arg_is_image desc,
       arg_is_sampler := desc_arg_is_sampler desc, num_locals := desc_num_locals desc\<rparr>))"

definition local_sizes :: "kernel_descriptor option \<Rightarrow> nat \<Rightarrow> pocl_argument list outcome" where
  "local_sizes dlhandle n =
     (if n = 0 then Ret []
      else obind (deref dlhandle) (\<lambda>desc.
           obind (c_take n (desc_local_sizes desc)) (\<lambda>szs.
           Ret (map (\<lambda>sz. \<lparr>arg_size = ucast sz, arg_value = Arg_null\<rparr>) szs))))"

section \<open>clCreateKernel\<close>

definition kernel_script :: "env \<Rightarrow> host \<Rightarrow> rt \<Rightarrow> string \<times> rt" where
  "kernel_script env h s =
     (if getenv h ''POCL_BUILDING'' \<noteq> None then (builddir h @ ''/scripts/pocl-kernel'', s)
      else case os_ok env s of (ok, s) \<Rightarrow>
      (if ok then pkgdatadir h @ ''/pocl-kernel'' else ''pocl-kernel'', s))"

text \<open>The part of the loop for a GPU.\<close>

definition finalize_on_gpu :: "env \<Rightarrow> host \<Rightarrow> cl_program \<Rightarrow> string \<Rightarrow> cl_kernel \<Rightarrow> rt \<Rightarrow> (cl_kernel \<times> rt) outcome" where
  "finalize_on_gpu env h p kernel_name k s =
     obind (sprintf 128 (hsa_name kernel_name)) (\<lambda>hsa_kernel_name.
     obind (deref (brigModule p)) (\<lambda>m.
     obind (find_symbol_offset m hsa_kernel_name) (\<lambda>found.
     case found of None \<Rightarrow> Abort
     | Some (symbol, n) \<Rightarrow>
         obind (hsa_call env s) (\<lambda>s. obind (hsa_call env s) (\<lambda>s.
         Ret (k\<lparr>hsaArgCount := n, hsaCodeDescriptor := Some (code_descriptor h m symbol)\<rparr>, s))))))"

text \<open>The part for a CPU: the descriptor of the kernel is made for every device the program was built for, and the first
  one is loaded.\<close>

definition describe_on_cpu ::
  "env \<Rightarrow> host \<Rightarrow> cl_program \<Rightarrow> string \<Rightarrow> string \<Rightarrow> device \<Rightarrow> byte list option outcome \<Rightarrow> kernel_descriptor option \<Rightarrow> rt \<times> fsys \<Rightarrow>
     ((cl_int + kernel_descriptor option) \<times> rt \<times> fsys) outcome" where
  "describe_on_cpu env h p kernel_name script dev binary dlhandle = (\<lambda>(s, fs).
     obind (deref (dev_name (dev_info dev))) (\<lambda>name.
     let device_tmpdir = filename (temp_dir p @ ''/'' @ name);
         tmpdir = filename (device_tmpdir @ ''/'' @ kernel_name);
         binary_filename = filename (tmpdir @ ''/kernel.bc'');
         descriptor_filename = filename (device_tmpdir @ ''/'' @ kernel_name @ ''/descriptor.so'') in
     if fs device_tmpdir = None then Ret (Inr dlhandle, s, fs)
     else case mkdir env tmpdir (s, fs) of (_, s, fs) \<Rightarrow>
     case os_ok env s of (ok, s) \<Rightarrow>
     if \<not> ok then Ret (Inl CL_OUT_OF_HOST_MEMORY, s, fs)
     else case fopen_w env binary_filename (s, fs) of (ok, s, fs) \<Rightarrow>
     if \<not> ok then Ret (Inl CL_OUT_OF_HOST_MEMORY, s, fs)
     else obind binary (\<lambda>b. obind (deref b) (\<lambda>b.
     case fwrite env binary_filename b (s, fs) of (n, s, fs) \<Rightarrow>
     if n < length b then Ret (Inl CL_OUT_OF_HOST_MEMORY, s, fs)
     else obind (deref (llvm_target_triplet (dev_info dev))) (\<lambda>triplet.
     let command = snprintf 1024 (script @ '' -k '' @ kernel_name @ '' -t '' @ triplet @ '' -o '' @ descriptor_filename @ '' '' @ binary_filename) in
     case os_ok env s of (ok, s) \<Rightarrow>
     if \<not> ok then Ret (Inl CL_OUT_OF_HOST_MEMORY, s, fs)
     else case system h command fs of (error, fs) \<Rightarrow>
     if error \<noteq> 0 then Ret (Inl CL_INVALID_KERNEL_NAME, s, fs)
     else if dlhandle \<noteq> None then Ret (Inr dlhandle, s, fs)
     else case fopen_r env descriptor_filename (s, fs) of (so, s) \<Rightarrow>
     case so of None \<Rightarrow> Abort
     | Some so \<Rightarrow> (case lt_dlopen h so of
         None \<Rightarrow> Ret (Inl CL_OUT_OF_HOST_MEMORY, s, fs)
       | Some desc \<Rightarrow> Ret (Inr (Some desc), s, fs)))))))"

text \<open>The loop over the devices of the program; the kernel is retained once for every device after the first.\<close>

fun kernel_on_devices ::
  "env \<Rightarrow> host \<Rightarrow> cl_program \<Rightarrow> string \<Rightarrow> string \<Rightarrow> ptr option list \<Rightarrow> nat \<Rightarrow> kernel_descriptor option \<Rightarrow> cl_kernel \<Rightarrow> rt \<times> fsys \<Rightarrow>
     ((cl_int + kernel_descriptor option) \<times> cl_kernel \<times> rt \<times> fsys) outcome" where
  "kernel_on_devices env h p kernel_name script [] i dlhandle k st = Ret (Inr dlhandle, k, st)"
| "kernel_on_devices env h p kernel_name script (d # ds) i dlhandle k (s, fs) =
     obind (if i > 0 then incr (k_refcount k) else Ret (k_refcount k)) (\<lambda>refs.
     let k = k\<lparr>k_refcount := refs\<rparr> in
     obind (deref d) (\<lambda>d. obind (deref (devices s d)) (\<lambda>dev.
     if has (dev_type dev) CL_DEVICE_TYPE_GPU
     then obind (finalize_on_gpu env h p kernel_name k s) (\<lambda>(k, s).
          kernel_on_devices env h p kernel_name script ds (Suc i) dlhandle k (s, fs))
     else obind (describe_on_cpu env h p kernel_name script dev (c_nth (binary_list p) i) dlhandle (s, fs)) (\<lambda>(r, st).
          case r of Inl errcode \<Rightarrow> Ret (Inl errcode, k, st)
          | Inr dlhandle \<Rightarrow> kernel_on_devices env h p kernel_name script ds (Suc i) dlhandle k st))))"

definition first_is_gpu :: "cl_program \<Rightarrow> rt \<Rightarrow> bool outcome" where
  "first_is_gpu p s =
     obind (c_nth (p_devices p) 0) (\<lambda>d. obind (deref d) (\<lambda>d. obind (deref (devices s d)) (\<lambda>dev.
     Ret (has (dev_type dev) CL_DEVICE_TYPE_GPU))))"

text \<open>The names of the kernel are copied without a check.\<close>

definition copy_names :: "env \<Rightarrow> string \<Rightarrow> cl_kernel \<Rightarrow> rt \<Rightarrow> (cl_kernel \<times> rt) outcome" where
  "copy_names env kernel_name k s =
     (case new_obj env s of (a, s) \<Rightarrow> case new_obj env s of (b, s) \<Rightarrow>
      if a = NULL \<or> b = NULL then Undef else Ret (k\<lparr>function_name := kernel_name, k_name := kernel_name\<rparr>, s))"

text \<open>The arguments that \<open>clSetKernelArg\<close> fills in: none is set, the automatic local ones have their sizes.\<close>

definition dynamic_arguments :: "env \<Rightarrow> kernel_descriptor option \<Rightarrow> cl_kernel \<Rightarrow> rt \<Rightarrow> (cl_kernel \<times> rt) outcome" where
  "dynamic_arguments env dlhandle k s =
     (case new_obj env s of (block, s) \<Rightarrow>
      if block = NULL \<and> num_args k + num_locals k > 0 then Undef
      else obind (local_sizes dlhandle (num_locals k)) (\<lambda>locals.
           Ret (k\<lparr>dyn_arguments := (if block = NULL then None
                  else Some (replicate (num_args k) \<lparr>arg_size = 0, arg_value = Arg_null\<rparr> @ locals))\<rparr>, s)))"

definition clCreateKernel ::
  "env \<Rightarrow> host \<Rightarrow> ptr \<Rightarrow> string \<Rightarrow> rt \<times> fsys \<Rightarrow> (cl_int \<times> ptr \<times> rt \<times> fsys) outcome" where
  "clCreateKernel env h program kernel_name = (\<lambda>(s, fs).
     if program = NULL then Ret (CL_INVALID_PROGRAM, NULL, s, fs)
     else obind (deref (programs s program)) (\<lambda>p.
     if p_devices p = [] then Ret (CL_INVALID_PROGRAM, NULL, s, fs)
     else if binaries p = None then Ret (CL_INVALID_PROGRAM_EXECUTABLE, NULL, s, fs)
     else case new_obj env s of (kern, s) \<Rightarrow>
     if kern = NULL then Ret (CL_OUT_OF_HOST_MEMORY, NULL, s, fs)
     else case kernel_script env h s of (script, s) \<Rightarrow>
     obind (kernel_on_devices env h p kernel_name script (p_devices p) 0 None ((raw_kernel h)\<lparr>k_refcount := 1\<rparr>) (s, fs)) (\<lambda>(r, k, s, fs).
     case r of Inl errcode \<Rightarrow> Ret (errcode, NULL, s, fs)
     | Inr dlhandle \<Rightarrow>
     obind (copy_names env kernel_name k s) (\<lambda>(k, s).
     obind (first_is_gpu p s) (\<lambda>gpu.
     obind (if gpu then gpu_arguments env h p kernel_name k (s, fs)
            else obind (cpu_arguments dlhandle k) (\<lambda>k. Ret (k, s, fs))) (\<lambda>(k, s, fs).
     obind (dynamic_arguments env dlhandle k s) (\<lambda>(k, s).
     let s = s\<lparr>programs := (programs s)(program \<mapsto> p\<lparr>p_kernels := kern # p_kernels p\<rparr>),
               kernels := (kernels s)(kern \<mapsto> k\<lparr>k_context := p_context p, k_program := program\<rparr>)\<rparr> in
     obind (retain_program program s) (\<lambda>s. Ret (CL_SUCCESS, kern, s, fs)))))))))"

end
