(* ===== verification/Kernel_Creation_Claims.thy ===== *)
theory Kernel_Creation_Claims
  imports Kernel_Creation Program_Claims
begin

text \<open>
  Properties of \<open>clCreateKernel\<close>: what is found in the parameter list of a kernel, and the kernels that are
  created for CPU devices.
\<close>

section \<open>Texts between commas\<close>

fun join :: "string list \<Rightarrow> string" where
  "join [] = []"
| "join [p] = p"
| "join (p # q # ps) = p @ CHR '','' # join (q # ps)"

text \<open>A list of texts with something put behind the last one.\<close>

fun add_last :: "string list \<Rightarrow> string \<Rightarrow> string list" where
  "add_last [] tail = []"
| "add_last [p] tail = [p @ tail]"
| "add_last (p # q # ps) tail = p # add_last (q # ps) tail"

lemma join_add_last: "ps \<noteq> [] \<Longrightarrow> join (add_last ps tail) = join ps @ tail"
proof (induction ps tail rule: add_last.induct)
  case (3 p q ps tail)
  then show ?case by (cases ps) simp_all
qed simp_all

lemma join_Cons: "join ((h @ p) # ps) = h @ join (p # ps)"
  by (cases ps) simp_all

lemma count_args_join:
  "ps \<noteq> [] \<Longrightarrow> \<forall>p \<in> set ps. CHR '','' \<notin> set p \<Longrightarrow> count_args (join ps) = length ps"
proof (induction ps rule: join.induct)
  case (3 p q ps)
  then show ?case by (simp add: count_args_def count_list_0_iff)
qed (simp_all add: count_args_def count_list_0_iff)

lemma strtok_first:
  assumes "p \<noteq> []" "CHR '','' \<notin> set p"
  shows "strtok (CHR '','') (p @ CHR '','' # rest) = (Some p, rest)" "strtok (CHR '','') p = (Some p, [])"
proof -
  have *: "dropWhile (\<lambda>c. c = CHR '','') (p @ r) = p @ r" for r using assms by (cases p) auto
  have "takeWhile (\<lambda>c. c \<noteq> CHR '','') (p @ CHR '','' # rest) = p" "dropWhile (\<lambda>c. c \<noteq> CHR '','') (p @ CHR '','' # rest) = CHR '','' # rest"
    using assms(2) by (induction p) auto
  then show "strtok (CHR '','') (p @ CHR '','' # rest) = (Some p, rest)"
    using assms(1) by (simp add: strtok_def * Let_def)
  have "takeWhile (\<lambda>c. c \<noteq> CHR '','') p = p" and drop: "dropWhile (\<lambda>c. c \<noteq> CHR '','') p = []"
    using assms(2) by (induction p) auto
  then show "strtok (CHR '','') p = (Some p, [])"
    using assms(1) * [of "[]"] unfolding strtok_def Let_def append_Nil2 by (simp del: dropWhile_eq_Nil_conv add: drop)
qed

lemma arg_names_join:
  "ps \<noteq> [] \<Longrightarrow> \<forall>p \<in> set ps. p \<noteq> [] \<and> CHR '','' \<notin> set p \<Longrightarrow> arg_names (length ps) (join ps) = Ret ps"
proof (induction ps rule: join.induct)
  case (2 p)
  then show ?case by (simp add: strtok_first)
next
  case (3 p q ps)
  then show ?case by (simp add: strtok_first)
qed simp

section \<open>Words in a parameter\<close>

lemma sublist_skip:
  assumes "pat \<noteq> []" "x \<notin> set pat"
  shows "sublist pat (x # t) \<longleftrightarrow> sublist pat t"
  using assms by (cases pat) (auto simp: sublist_Cons_right)

lemma sublist_cut:
  assumes "pat \<noteq> []" "set tail \<inter> set pat = {}"
  shows "sublist pat (t @ tail) \<longleftrightarrow> sublist pat t"
proof
  assume "sublist pat (t @ tail)"
  then consider "sublist pat t" | "sublist pat tail" | a b where "pat = a @ b" "suffix a t" "prefix b tail"
    by (auto simp: sublist_append)
  then show "sublist pat t"
  proof cases
    case 2
    then have "set pat \<subseteq> set tail" by (auto simp: sublist_def)
    then show ?thesis using assms by (cases pat) auto
  next
    case 3
    then have "set b \<subseteq> set tail \<inter> set pat" by (auto dest: set_mono_prefix)
    then have "b = []" using assms(2) by simp
    then show ?thesis using 3 by auto
  qed simp
qed (auto simp: sublist_append)

text \<open>The white space between a parameter list and the body.\<close>

definition blank :: "string \<Rightarrow> bool" where
  "blank t \<longleftrightarrow> set t \<subseteq> {CHR '' '', CHR 0x0A, CHR 0x09}"

lemmas param_flags = is_pointer_param_def is_local_param_def is_image_param_def is_sampler_param_def is_struct_param_def

lemma flags_opened:
  "is_pointer_param (CHR ''('' # p) = is_pointer_param p" "is_local_param (CHR ''('' # p) = is_local_param p"
  "is_image_param (CHR ''('' # p) = is_image_param p" "is_sampler_param (CHR ''('' # p) = is_sampler_param p"
  "is_struct_param (CHR ''('' # p) = is_struct_param p"
  by (simp_all add: param_flags strstr_None sublist_skip del: strstr.simps not_None_eq)

lemma flags_closed:
  assumes "blank t"
  shows "is_pointer_param (p @ CHR '')'' # t) = is_pointer_param p" "is_local_param (p @ CHR '')'' # t) = is_local_param p"
  "is_image_param (p @ CHR '')'' # t) = is_image_param p" "is_sampler_param (p @ CHR '')'' # t) = is_sampler_param p"
  "is_struct_param (p @ CHR '')'' # t) = is_struct_param p"
proof -
  have *: "sublist pat (p @ CHR '')'' # t) = sublist pat p" if "pat \<noteq> []" "set pat \<inter> {CHR '' '', CHR 0x0A, CHR 0x09, CHR '')''} = {}" for pat
    by (rule sublist_cut) (use that assms in \<open>auto simp: blank_def\<close>)
  have "CHR ''*'' \<notin> set t" "CHR ''['' \<notin> set t" using assms by (auto simp: blank_def)
  then show "is_pointer_param (p @ CHR '')'' # t) = is_pointer_param p" "is_local_param (p @ CHR '')'' # t) = is_local_param p"
    "is_image_param (p @ CHR '')'' # t) = is_image_param p" "is_sampler_param (p @ CHR '')'' # t) = is_sampler_param p"
    "is_struct_param (p @ CHR '')'' # t) = is_struct_param p"
    by (simp_all add: param_flags strstr_None * del: not_None_eq)
qed

lemma map_add_last: "(\<And>p. f (p @ tail) = f p) \<Longrightarrow> map f (add_last ps tail) = map f ps"
  by (induction ps tail rule: add_last.induct) simp_all

lemma set_add_last: "set (add_last ps tail) \<subseteq> set ps \<union> (\<lambda>p. p @ tail) ` set ps"
  by (induction ps tail rule: add_last.induct) auto

lemma add_last_eq_Nil [simp]: "add_last ps tail = [] \<longleftrightarrow> ps = []"
  by (induction ps tail rule: add_last.induct) auto

text \<open>
  A text behind which a pattern occurs for the first time, and the texts around the mentions of a name in front of
  its declaration: every mention is followed by a character that does not end a name, because it is the beginning of
  a longer one.
\<close>

definition first_behind :: "string \<Rightarrow> string \<Rightarrow> bool" where
  "first_behind pat t \<longleftrightarrow> \<not> sublist pat (t @ butlast pat)"

definition mentions :: "string \<Rightarrow> string list \<Rightarrow> string" where
  "mentions name ws = concat (map (\<lambda>w. w @ name) ws)"

definition longer_names :: "string \<Rightarrow> string list \<Rightarrow> bool" where
  "longer_names name ws \<longleftrightarrow> (\<forall>w \<in> set ws. w \<noteq> [] \<and> hd w \<notin> set [CHR ''('', CHR 0x0A, CHR 0x09, CHR '' ''] \<and> first_behind name w)"

lemma strstr_first:
  assumes "pat \<noteq> []" "first_behind pat t"
  shows "strstr (t @ pat @ x) pat = Some (pat @ x)"
  using assms(2)
proof (induction t)
  case Nil
  then show ?case by (simp add: strstr_prefix)
next
  case (Cons c t)
  have "\<not> prefix pat (c # t @ pat @ x)"
  proof
    assume "prefix pat (c # t @ pat @ x)"
    moreover have "prefix ((c # t) @ butlast pat) (c # t @ pat @ x)"
      using assms(1) append_butlast_last_id [of pat] by (metis append.assoc append_Cons prefix_def)
    moreover have "length pat \<le> length ((c # t) @ butlast pat)" using assms(1) by simp
    ultimately have "prefix pat ((c # t) @ butlast pat)" by (rule prefix_length_prefix)
    then show False using Cons.prems by (auto simp: first_behind_def)
  qed
  moreover have "first_behind pat t" using Cons.prems by (auto simp: first_behind_def sublist_Cons_right)
  ultimately show ?case using Cons.IH by simp
qed

text \<open>The loop passes over the longer names.\<close>

lemma skip_mentions:
  assumes "name \<noteq> []" "longer_names name ws" "name_ends tx"
  shows "skip_prefixed name (mentions name ws @ tx) = Ret tx"
  using assms(2)
proof (induction ws)
  case Nil
  then show ?case using assms(3) by (simp add: mentions_def skip_prefixed.simps)
next
  case (Cons w ws)
  have w: "w \<noteq> []" "hd w \<notin> set [CHR ''('', CHR 0x0A, CHR 0x09, CHR '' '']" "first_behind name w"
    using Cons.prems by (simp_all add: longer_names_def)
  have split: "mentions name (w # ws) @ tx = w @ name @ mentions name ws @ tx" by (simp add: mentions_def)
  have "\<not> name_ends (w @ name @ mentions name ws @ tx)" using w(1,2) by (cases w) (auto simp: name_ends_def)
  then show ?case
    using Cons strstr_first [OF assms(1) w(3), of "mentions name ws @ tx"] assms(1)
    unfolding split by (subst skip_prefixed.simps) (simp add: longer_names_def)
qed

text \<open>
  The parameter list of a kernel in the source: somewhere behind the first \<open>kernel\<close> and the next \<open>void\<close>, behind any number of
  longer names that contain its name, the name of the kernel stands for itself and the parameters follow in parentheses.
\<close>

definition declared :: "string \<Rightarrow> string \<Rightarrow> string list \<Rightarrow> bool" where
  "declared source name params \<longleftrightarrow>
     NUL \<notin> set source \<and> length source < 65536 \<and> name \<noteq> [] \<and>
     (\<exists>a b c d ws w0 gap rest. source = a @ ''kernel'' @ b \<and> first_behind ''kernel'' a \<and>
        ''kernel'' @ b = c @ ''void'' @ d \<and> first_behind ''void'' c \<and>
        ''void'' @ d = w0 @ name @ mentions name ws @ ''('' @ join params @ '')'' @ gap @ ''{'' @ rest \<and>
        first_behind name w0 \<and> longer_names name ws \<and> blank gap) \<and>
     params \<noteq> [] \<and> (\<forall>p \<in> set params. p \<noteq> [] \<and> \<not> blank p \<and> CHR '','' \<notin> set p \<and> CHR ''{'' \<notin> set p)"

lemma join_no_brace: "\<forall>p \<in> set ps. CHR ''{'' \<notin> set p \<Longrightarrow> CHR ''{'' \<notin> set (join ps)"
  by (induction ps rule: join.induct) auto

lemma join_not_blank: "ps \<noteq> [] \<Longrightarrow> \<forall>p \<in> set ps. \<not> blank p \<Longrightarrow> \<not> blank (join ps)"
  by (induction ps rule: join.induct) (auto simp: blank_def)

lemma takeWhile_stop: "x \<notin> set t \<Longrightarrow> takeWhile (\<lambda>c. c \<noteq> x) (t @ x # rest) = t"
  by (induction t) auto

text \<open>The pieces the parameter list is cut into are the parameters, up to the parentheses and what follows them.\<close>

lemma source_params_pieces:
  assumes "declared source name params"
  shows "\<exists>p ps gap. params = p # ps \<and> blank gap \<and>
     source_params source name = Ret (Some (case add_last params (CHR '')'' # gap) of q # qs \<Rightarrow> (CHR ''('' # q) # qs))"
proof -
  obtain a b c d ws w0 gap rest where src: "source = a @ ''kernel'' @ b" "first_behind ''kernel'' a"
      "''kernel'' @ b = c @ ''void'' @ d" "first_behind ''void'' c"
      "''void'' @ d = w0 @ name @ mentions name ws @ ''('' @ join params @ '')'' @ gap @ ''{'' @ rest"
      "first_behind name w0" "longer_names name ws" and gap: "blank gap"
    and len: "NUL \<notin> set source" "length source < 65536" "name \<noteq> []"
    and ps: "params \<noteq> []" "\<forall>p \<in> set params. p \<noteq> [] \<and> \<not> blank p \<and> CHR '','' \<notin> set p \<and> CHR ''{'' \<notin> set p"
    using assms unfolding declared_def by (elim conjE exE)
  have uv: "strstr source ''kernel'' = Some (''kernel'' @ b)"
    unfolding src(1) by (rule strstr_first) (use src(2) in simp_all)
  have void: "strstr (''kernel'' @ b) ''void'' = Some (''void'' @ d)"
    unfolding src(3) by (rule strstr_first) (use src(4) in simp_all)
  have nm: "strstr (''void'' @ d) name = Some (name @ mentions name ws @ ''('' @ join params @ '')'' @ gap @ ''{'' @ rest)"
    unfolding src(5) by (rule strstr_first [OF len(3) src(6)])
  let ?tail = "CHR '')'' # gap"
  obtain q qs where q: "add_last params ?tail = q # qs" using ps(1) by (cases "add_last params ?tail") auto
  let ?names = "(CHR ''('' # q) # qs"
  have gap': "CHR ''{'' \<notin> set gap" "CHR '','' \<notin> set gap" using gap by (auto simp: blank_def)
  have arg: "join ?names = ''('' @ join params @ ?tail"
    using join_Cons [of "''(''" q qs] join_add_last [OF ps(1), of ?tail] q by simp
  have names: "\<forall>n \<in> set ?names. n \<noteq> [] \<and> CHR '','' \<notin> set n"
    using ps(2) gap' set_add_last [of params ?tail] unfolding q by auto
  have copy: "c_strcpy 65536 source = Ret source"
  proof -
    have "takeWhile (\<lambda>c. c \<noteq> NUL) source = source" using len(1) by (induction source) auto
    then show ?thesis using len(2) unfolding c_strcpy_def Let_def by (simp only: if_True)
  qed
  have skip: "skip_prefixed name (mentions name ws @ ''('' @ join params @ ?tail @ ''{'' @ rest) = Ret (''('' @ join params @ ?tail @ ''{'' @ rest)"
    by (rule skip_mentions [OF len(3) src(7)]) (simp add: name_ends_def)
  have "CHR ''{'' \<notin> set (''('' @ join params @ ?tail)" using join_no_brace ps(2) gap' by auto
  then have brace: "up_to_brace (''('' @ join params @ ?tail @ ''{'' @ rest) = Ret (join ?names)"
    using takeWhile_stop [of "CHR ''{''" "''('' @ join params @ ?tail" rest] unfolding arg by (simp add: up_to_brace_def)
  have "\<not> blank (join params)" using join_not_blank ps by blast
  then have empty: "join ?names \<notin> {''()'', [CHR ''('', CHR 0x0A, CHR '')''], ''( )''}"
    unfolding arg by (auto simp: blank_def Cons_eq_append_conv append_eq_Cons_conv)
  have cnt: "count_args (join ?names) = length ?names" "arg_names (length ?names) (join ?names) = Ret ?names"
    using count_args_join [of ?names] arg_names_join [of ?names] names by simp_all
  have "source_params source name = Ret (Some ?names)"
    unfolding source_params_def copy obind.simps uv deref.simps void nm
    using skip brace empty cnt by (simp del: strstr.simps arg_names.simps)
  then show ?thesis using ps(1) q gap by (cases params) auto
qed

text \<open>
  Parameters as OpenCL declares them: an address space, a type, a pointer when there are stars, and a name, with white space in
  front. The names of types, structures and parameters are plain when none of the words and characters the
  search looks for is in them.
\<close>

datatype param_space = Private_Space | Global_Space | Local_Space | Constant_Space

datatype param_type = Value_Type string | Image2D | Image3D | Sampler | Structure string

record param =
  lead :: string
  par_space :: param_space
  par_type :: param_type
  stars :: nat
  par_name :: string

fun space_text :: "param_space \<Rightarrow> string" where
  "space_text Private_Space = []"
| "space_text Global_Space = ''__global ''"
| "space_text Local_Space = ''__local ''"
| "space_text Constant_Space = ''__constant ''"

fun type_text :: "param_type \<Rightarrow> string" where
  "type_text (Value_Type t) = t"
| "type_text Image2D = ''image2d_t''"
| "type_text Image3D = ''image3d_t''"
| "type_text Sampler = ''sampler_t''"
| "type_text (Structure t) = ''struct '' @ t"

definition param_text :: "param \<Rightarrow> string" where
  "param_text p = lead p @ space_text (par_space p) @ type_text (par_type p) @ '' '' @ replicate (stars p) (CHR ''*'') @ par_name p"

definition plain :: "string \<Rightarrow> bool" where
  "plain t \<longleftrightarrow> set t \<inter> {CHR '','', CHR ''*'', CHR ''['', CHR ''{''} = {} \<and>
     (\<forall>pat \<in> {''local'', ''image'', ''IMAGE'', ''sampler_t'', ''struct''}. \<not> sublist pat t)"

definition param_ok :: "param \<Rightarrow> bool" where
  "param_ok p \<longleftrightarrow> blank (lead p) \<and> plain (par_name p) \<and> \<not> blank (par_name p) \<and>
     (case par_type p of Value_Type t \<Rightarrow> plain t | Structure t \<Rightarrow> plain t | _ \<Rightarrow> True)"

text \<open>A word without white space and stars is found in one of the parts of a parameter or not at all.\<close>

definition solid :: "string \<Rightarrow> bool" where
  "solid pat \<longleftrightarrow> pat \<noteq> [] \<and> set pat \<inter> {CHR '' '', CHR 0x0A, CHR 0x09, CHR ''*''} = {}"

lemma sublist_sep:
  assumes "pat \<noteq> []" "c \<notin> set pat"
  shows "sublist pat (x @ c # y) \<longleftrightarrow> sublist pat x \<or> sublist pat y"
proof
  assume "sublist pat (x @ c # y)"
  then consider "sublist pat x" | "sublist pat (c # y)" | a b where "pat = a @ b" "suffix a x" "prefix b (c # y)"
    by (auto simp: sublist_append)
  then show "sublist pat x \<or> sublist pat y"
  proof cases
    case 2
    then show ?thesis using sublist_skip [OF assms] by simp
  next
    case 3
    then have "b = []" using assms(2) by (cases b) auto
    then show ?thesis using 3 by auto
  qed simp
next
  assume "sublist pat x \<or> sublist pat y"
  then show "sublist pat (x @ c # y)" using sublist_skip [OF assms] by (auto simp: sublist_append)
qed

lemma sublist_skip_all:
  assumes "pat \<noteq> []" "set x \<inter> set pat = {}"
  shows "sublist pat (x @ t) \<longleftrightarrow> sublist pat t"
  using assms(2)
proof (induction x)
  case (Cons c x)
  then show ?case using sublist_skip [OF assms(1), of c "x @ t"] by simp
qed simp

lemma word_in_param:
  assumes "solid pat" "blank (lead p)"
  shows "sublist pat (param_text p) \<longleftrightarrow>
    sublist pat (space_text (par_space p)) \<or> sublist pat (type_text (par_type p)) \<or> sublist pat (par_name p)"
proof -
  have pat: "pat \<noteq> []" "CHR '' '' \<notin> set pat" "set (lead p) \<inter> set pat = {}"
    "set (replicate n (CHR ''*'')) \<inter> set pat = {}" for n
    using assms by (auto simp: solid_def blank_def set_replicate_conv_if)
  let ?t = "type_text (par_type p) @ '' '' @ replicate (stars p) (CHR ''*'') @ par_name p"
  have "sublist pat ?t \<longleftrightarrow> sublist pat (type_text (par_type p)) \<or> sublist pat (par_name p)"
    using sublist_sep [OF pat(1,2), of "type_text (par_type p)"] sublist_skip_all [OF pat(1) pat(4)] by simp
  moreover have "sublist pat (space_text (par_space p) @ ?t) \<longleftrightarrow> sublist pat (space_text (par_space p)) \<or> sublist pat ?t"
  proof (cases "par_space p")
    case Global_Space
    then show ?thesis using sublist_sep [OF pat(1,2), of "''__global''" ?t] sublist_sep [OF pat(1,2), of "''__global''" "[]"] pat(1) by simp
  next
    case Local_Space
    then show ?thesis using sublist_sep [OF pat(1,2), of "''__local''" ?t] sublist_sep [OF pat(1,2), of "''__local''" "[]"] pat(1) by simp
  next
    case Constant_Space
    then show ?thesis using sublist_sep [OF pat(1,2), of "''__constant''" ?t] sublist_sep [OF pat(1,2), of "''__constant''" "[]"] pat(1) by simp
  qed (use pat(1) in simp)
  ultimately show ?thesis using sublist_skip_all [OF pat(1,3)] by (simp add: param_text_def)
qed

lemma struct_text: "solid pat \<Longrightarrow> sublist pat (''struct '' @ t) \<longleftrightarrow> sublist pat ''struct'' \<or> sublist pat t"
  using sublist_sep [of pat "CHR '' ''" "''struct''" t] by (simp add: solid_def)

text \<open>The kinds the search gives a parameter are those of its declaration.\<close>

lemma param_kinds:
  assumes "param_ok p"
  shows "is_pointer_param (param_text p) \<longleftrightarrow> 0 < stars p" "is_local_param (param_text p) \<longleftrightarrow> par_space p = Local_Space"
    "is_image_param (param_text p) \<longleftrightarrow> par_type p \<in> {Image2D, Image3D}" "is_sampler_param (param_text p) \<longleftrightarrow> par_type p = Sampler"
    "is_struct_param (param_text p) \<longleftrightarrow> (\<exists>t. par_type p = Structure t)"
proof -
  have ok: "blank (lead p)" "plain (par_name p)" "\<And>t. par_type p = Value_Type t \<Longrightarrow> plain t" "\<And>t. par_type p = Structure t \<Longrightarrow> plain t"
    using assms by (auto simp: param_ok_def)
  have solids: "solid ''local''" "solid ''image''" "solid ''IMAGE''" "solid ''sampler_t''" "solid ''struct''" by (simp_all add: solid_def)
  note words = solids [THEN word_in_param, OF ok(1)] solids [THEN struct_text]
  have names: "\<not> sublist ''local'' (par_name p)" "\<not> sublist ''image'' (par_name p)" "\<not> sublist ''IMAGE'' (par_name p)"
    "\<not> sublist ''sampler_t'' (par_name p)" "\<not> sublist ''struct'' (par_name p)" using ok(2) by (simp_all add: plain_def)
  have spaces: "sublist ''local'' (space_text sp) \<longleftrightarrow> sp = Local_Space" "\<not> sublist ''image'' (space_text sp)" "\<not> sublist ''IMAGE'' (space_text sp)"
    "\<not> sublist ''sampler_t'' (space_text sp)" "\<not> sublist ''struct'' (space_text sp)" for sp
    by (cases sp; simp add: sublist_Cons_right)+
  have types: "\<not> sublist ''local'' (type_text (par_type p))" "\<not> sublist ''IMAGE'' (type_text (par_type p))"
    "sublist ''image'' (type_text (par_type p)) \<longleftrightarrow> par_type p \<in> {Image2D, Image3D}"
    "sublist ''sampler_t'' (type_text (par_type p)) \<longleftrightarrow> par_type p = Sampler"
    "sublist ''struct'' (type_text (par_type p)) \<longleftrightarrow> (\<exists>t. par_type p = Structure t)"
    using ok(3,4) words(6-10) by (cases "par_type p"; simp add: plain_def sublist_Cons_right)+
  have "CHR ''*'' \<notin> set (lead p)" "CHR ''['' \<notin> set (lead p)" using ok(1) by (auto simp: blank_def)
  moreover have "CHR ''*'' \<notin> set (type_text (par_type p))" "CHR ''['' \<notin> set (type_text (par_type p))"
    using ok(3,4) by (cases "par_type p"; simp add: plain_def)+
  moreover have "CHR ''*'' \<notin> set (space_text sp)" "CHR ''['' \<notin> set (space_text sp)" for sp by (cases sp; simp)+
  ultimately have "CHR ''*'' \<in> set (param_text p) \<longleftrightarrow> 0 < stars p" "CHR ''['' \<notin> set (param_text p)"
    using ok(2) by (auto simp: param_text_def plain_def set_replicate_conv_if)
  then show "is_pointer_param (param_text p) \<longleftrightarrow> 0 < stars p" using words(3) names spaces types
    by (simp add: is_pointer_param_def strstr_None del: not_None_eq)
  show "is_local_param (param_text p) \<longleftrightarrow> par_space p = Local_Space" "is_image_param (param_text p) \<longleftrightarrow> par_type p \<in> {Image2D, Image3D}"
    "is_sampler_param (param_text p) \<longleftrightarrow> par_type p = Sampler" "is_struct_param (param_text p) \<longleftrightarrow> (\<exists>t. par_type p = Structure t)"
    using words names spaces types
    by (simp_all add: is_local_param_def is_image_param_def is_sampler_param_def is_struct_param_def strstr_None del: not_None_eq)
qed

lemma found_kinds:
  assumes "declared source name params"
  shows "\<exists>names. source_params source name = Ret (Some names) \<and> length names = length params \<and>
     map is_pointer_param names = map is_pointer_param params \<and> map is_local_param names = map is_local_param params \<and>
     map is_image_param names = map is_image_param params \<and> map is_sampler_param names = map is_sampler_param params \<and>
     map is_struct_param names = map is_struct_param params"
proof -
  obtain p ps gap where gap: "params = p # ps" "blank gap"
    and found: "source_params source name = Ret (Some (case add_last params (CHR '')'' # gap) of q # qs \<Rightarrow> (CHR ''('' # q) # qs))"
    using source_params_pieces [OF assms] by blast
  obtain q qs where q: "add_last params (CHR '')'' # gap) = q # qs" using gap(1) by (cases "add_last params (CHR '')'' # gap)") auto
  have same: "map f ((CHR ''('' # q) # qs) = map f params"
    if "\<And>p. f (CHR ''('' # p) = f p" "\<And>p. f (p @ CHR '')'' # gap) = f p" for f :: "string \<Rightarrow> bool"
    using that map_add_last [of f "CHR '')'' # gap" params] unfolding q by simp
  note flags = same [of is_pointer_param] same [of is_local_param] same [of is_image_param] same [of is_sampler_param] same [of is_struct_param]
  show ?thesis
    using found flags flags_opened flags_closed [OF gap(2)] map_eq_imp_length_eq [OF flags(1)] unfolding q by simp
qed


definition demo_params :: "param list" where
  "demo_params = [\<lparr>lead = [], par_space = Global_Space, par_type = Value_Type ''int'', stars = 1, par_name = ''a''\<rparr>,
     \<lparr>lead = '' '', par_space = Local_Space, par_type = Value_Type ''float'', stars = 1, par_name = ''b''\<rparr>,
     \<lparr>lead = '' '', par_space = Private_Space, par_type = Value_Type ''int'', stars = 0, par_name = ''n''\<rparr>]"

definition demo_source :: string where
  "demo_source = ''__kernel void add2(int x) {} __kernel void add(__global int *a, __local float *b, int n) {}''"

lemma demo_declared: "declared demo_source ''add'' (map param_text demo_params)"
proof -
  let ?b = "'' void add2(int x) {} __kernel void add(__global int *a, __local float *b, int n) {}''"
    and ?d = "'' add2(int x) {} __kernel void add(__global int *a, __local float *b, int n) {}''"
  have "demo_source = ''__'' @ ''kernel'' @ ?b" "''kernel'' @ ?b = ''kernel '' @ ''void'' @ ?d"
    "''void'' @ ?d = ''void '' @ ''add'' @ mentions ''add'' [''2(int x) {} __kernel void ''] @ ''('' @ join (map param_text demo_params) @ '')'' @ '' '' @ ''{'' @ ''}''"
    by (simp_all add: demo_source_def mentions_def demo_params_def param_text_def)
  moreover have "first_behind ''kernel'' ''__''" "first_behind ''void'' ''kernel ''" "first_behind ''add'' ''void ''"
    "longer_names ''add'' [''2(int x) {} __kernel void '']" "blank '' ''"
    by (simp_all add: first_behind_def longer_names_def blank_def sublist_Cons_right)
  moreover have "NUL \<notin> set demo_source" "length demo_source < 65536" by (simp_all add: demo_source_def)
  moreover have "\<forall>p \<in> set (map param_text demo_params). p \<noteq> [] \<and> \<not> blank p \<and> CHR '','' \<notin> set p \<and> CHR ''{'' \<notin> set p"
    by (simp add: demo_params_def param_text_def blank_def)
  ultimately show ?thesis unfolding declared_def by (intro conjI exI) (assumption | simp add: demo_params_def)+
qed


text \<open>A kernel without parameters leaves the number of its arguments as it was in memory.\<close>

lemma empty_list_sets_nothing:
  assumes "prog_source p = Some source" "source_params source name = Ret None" "gpu_arguments env h p name k (s, fs) = Ret (k', st)"
  shows "num_args k' = num_args k"
  using assms by (cases "new_obj env s") (auto simp: gpu_arguments_def Let_def split: if_splits)

text \<open>A parameter whose name contains the word is taken for local memory.\<close>

lemma name_taken_for_local: "is_local_param ''int local_width''"
  by (simp add: is_local_param_def)

section \<open>Kernels for CPU devices\<close>

abbreviation kernel_dir :: "string \<Rightarrow> string \<Rightarrow> string \<Rightarrow> string" where
  "kernel_dir dir name kname \<equiv> dir @ ''/'' @ name @ ''/'' @ kname"

abbreviation kernel_bc :: "string \<Rightarrow> string \<Rightarrow> string \<Rightarrow> string" where
  "kernel_bc dir name kname \<equiv> dir @ ''/'' @ name @ ''/'' @ kname @ ''/kernel.bc''"

abbreviation kernel_so :: "string \<Rightarrow> string \<Rightarrow> string \<Rightarrow> string" where
  "kernel_so dir name kname \<equiv> dir @ ''/'' @ name @ ''/'' @ kname @ ''/descriptor.so''"

text \<open>The call of the kernel script, as its usage text gives it.\<close>

definition kernel_call :: "string \<Rightarrow> string \<Rightarrow> string \<Rightarrow> string \<Rightarrow> string \<Rightarrow> string" where
  "kernel_call script dir name kname triplet =
     concat [script, '' -k '', kname, '' -t '', triplet, '' -o '', kernel_so dir name kname, '' '', kernel_bc dir name kname]"

text \<open>
  What the kernel script is relied on for: called on the code of the program, it succeeds and leaves the descriptor of the
  kernel; it keeps the code and changes nothing outside of the directory of the kernel.
\<close>

definition describes :: "host \<Rightarrow> byte list list \<Rightarrow> byte list \<Rightarrow> string \<Rightarrow> string \<Rightarrow> string \<Rightarrow> string \<Rightarrow> string \<Rightarrow> bool" where
  "describes h bins so script dir name kname triplet \<longleftrightarrow>
     (\<forall>fs b. b \<in> set bins \<and> fs (kernel_bc dir name kname) = Some (File b) \<longrightarrow>
        (\<exists>fs'. system h (kernel_call script dir name kname triplet) fs = (0, fs') \<and>
           fs' (kernel_so dir name kname) = Some (File so) \<and> fs' (kernel_bc dir name kname) = Some (File b) \<and>
           (\<forall>f. \<not> prefix (kernel_dir dir name kname) f \<longrightarrow> fs' f = fs f)))"

type_synonym kernel_target = "ptr \<times> string \<times> string"

definition kernel_target_ok ::
  "rt \<Rightarrow> host \<Rightarrow> byte list list \<Rightarrow> (string \<Rightarrow> byte list) \<Rightarrow> string \<Rightarrow> string \<Rightarrow> string \<Rightarrow> kernel_target \<Rightarrow> bool" where
  "kernel_target_ok s h bins so script dir kname = (\<lambda>(d, name, triplet).
     (\<exists>dev. devices s d = Some dev \<and> \<not> has (dev_type dev) CL_DEVICE_TYPE_GPU \<and>
        dev_name (dev_info dev) = Some name \<and> llvm_target_triplet (dev_info dev) = Some triplet) \<and>
     CHR ''/'' \<notin> set name \<and> length (kernel_so dir name kname) < POCL_FILENAME_LENGTH \<and>
     length (kernel_call script dir name kname triplet) < 1024 \<and> describes h bins (so name) script dir name kname triplet)"

lemma kernel_target_ok_tick [simp]:
  "kernel_target_ok (s\<lparr>tick := T\<rparr>) h bins so script dir kname t = kernel_target_ok s h bins so script dir kname t"
  by (cases t) (simp add: kernel_target_ok_def)

lemma component_eq: "CHR ''/'' \<notin> set a \<Longrightarrow> CHR ''/'' \<notin> set b \<Longrightarrow> a @ CHR ''/'' # x = b @ CHR ''/'' # y \<longleftrightarrow> a = b \<and> x = y"
proof (induction a arbitrary: b)
  case Nil
  then show ?case by (cases b) auto
next
  case (Cons c a)
  then show ?case by (cases b) auto
qed

lemma describe_step:
  assumes "no_faults env" "devices s d = Some dev" "dev_name (dev_info dev) = Some name" "llvm_target_triplet (dev_info dev) = Some triplet"
    and "length (kernel_so (temp_dir p) name kname) < POCL_FILENAME_LENGTH" "describes h bins so script (temp_dir p) name kname triplet"
    and "length (kernel_call script (temp_dir p) name kname triplet) < 1024" "b \<in> set bins"
    and "fs (device_dir (temp_dir p) name) \<noteq> None" "fs (kernel_bc (temp_dir p) name kname) \<noteq> Some Dir"
    and "dl = None \<longrightarrow> lt_dlopen h so = Some desc"
  shows "\<exists>T fs'. tick s \<le> T \<and> describe_on_cpu env h p kname script dev (Ret (Some b)) dl (s, fs) =
     Ret (Inr (Some (case dl of None \<Rightarrow> desc | Some x \<Rightarrow> x)), s\<lparr>tick := T\<rparr>, fs') \<and>
     fs' (kernel_bc (temp_dir p) name kname) = Some (File b) \<and>
     (\<forall>f. \<not> prefix (kernel_dir (temp_dir p) name kname) f \<longrightarrow> fs' f = fs f)"
proof -
  let ?dir = "temp_dir p"
  let ?fs = "(if fs (kernel_dir ?dir name kname) = None then fs(kernel_dir ?dir name kname \<mapsto> Dir) else fs)(kernel_bc ?dir name kname \<mapsto> File b)"
  have names: "filename (device_dir ?dir name) = device_dir ?dir name" "filename (kernel_dir ?dir name kname) = kernel_dir ?dir name kname"
    "filename (kernel_bc ?dir name kname) = kernel_bc ?dir name kname" "filename (kernel_so ?dir name kname) = kernel_so ?dir name kname"
    using assms(5) by (simp_all add: filename_short)
  have "b \<in> set bins \<and> ?fs (kernel_bc ?dir name kname) = Some (File b)" using assms(8) by simp
  from assms(6) [unfolded describes_def, THEN spec [of _ ?fs], THEN spec [of _ b], THEN mp, OF this]
  obtain fs' where run: "system h (kernel_call script ?dir name kname triplet) ?fs = (0, fs')"
    and so: "fs' (kernel_so ?dir name kname) = Some (File so)" and kept: "fs' (kernel_bc ?dir name kname) = Some (File b)"
    and rest: "\<forall>f. \<not> prefix (kernel_dir ?dir name kname) f \<longrightarrow> fs' f = ?fs f" by (elim exE conjE)
  have call: "snprintf 1024 (script @ '' -k '' @ kname @ '' -t '' @ triplet @ '' -o '' @ kernel_so ?dir name kname @ '' '' @ kernel_bc ?dir name kname) =
      kernel_call script ?dir name kname triplet"
    using assms(7) by (simp add: snprintf_def kernel_call_def)
  obtain n where n: "fs (device_dir ?dir name) = Some n" using assms(9) by blast
  have bc: "(if fs (kernel_dir ?dir name kname) = None then fs(kernel_dir ?dir name kname \<mapsto> Dir) else fs) (kernel_bc ?dir name kname) \<noteq> Some Dir"
    using assms(10) by simp
  have same: "fs' f = fs f" if "\<not> prefix (kernel_dir ?dir name kname) f" for f
  proof -
    have "prefix (kernel_dir ?dir name kname) x" if "x = kernel_dir ?dir name kname \<or> x = kernel_bc ?dir name kname" for x
      using that by (elim disjE) simp_all
    with that have "f \<noteq> kernel_dir ?dir name kname \<and> f \<noteq> kernel_bc ?dir name kname" by blast
    then show ?thesis using rest that by simp
  qed
  note facts = assms(1-4,11) names call run n bc so
  have "\<exists>T. tick s \<le> T \<and> describe_on_cpu env h p kname script dev (Ret (Some b)) dl (s, fs) =
     Ret (Inr (Some (case dl of None \<Rightarrow> desc | Some x \<Rightarrow> x)), s\<lparr>tick := T\<rparr>, fs')"
  proof (cases dl)
    case None
    then show ?thesis using facts
      by (intro exI [of _ "Suc (Suc (Suc (Suc (Suc (Suc (tick s))))))"], cases "fs (kernel_dir ?dir name kname)")
         (simp_all add: describe_on_cpu_def host_simps next_tick_def Let_def)
  next
    case (Some x)
    then show ?thesis using facts
      by (intro exI [of _ "Suc (Suc (Suc (Suc (Suc (tick s)))))"], cases "fs (kernel_dir ?dir name kname)")
         (simp_all add: describe_on_cpu_def host_simps next_tick_def Let_def)
  qed
  then obtain T where "tick s \<le> T" "describe_on_cpu env h p kname script dev (Ret (Some b)) dl (s, fs) =
     Ret (Inr (Some (case dl of None \<Rightarrow> desc | Some x \<Rightarrow> x)), s\<lparr>tick := T\<rparr>, fs')" by (elim exE conjE)
  then show ?thesis using kept same by (intro exI conjI allI impI)
qed

lemma describe_keeps:
  assumes "CHR ''/'' \<notin> set name" "CHR ''/'' \<notin> set name'"
    and "fs' (kernel_bc dir name kname) = Some (File b)" "\<forall>f. \<not> prefix (kernel_dir dir name kname) f \<longrightarrow> fs' f = fs f"
  shows "fs (device_dir dir name') \<noteq> None \<Longrightarrow> fs' (device_dir dir name') \<noteq> None"
    and "fs (kernel_bc dir name' kname) \<noteq> Some Dir \<Longrightarrow> fs' (kernel_bc dir name' kname) \<noteq> Some Dir"
proof -
  have "\<not> prefix (kernel_dir dir name kname) (device_dir dir name')"
  proof
    assume "prefix (kernel_dir dir name kname) (device_dir dir name')"
    then obtain r where "name' = name @ CHR ''/'' # kname @ r" by (auto simp: prefix_def)
    then show False using assms(2) by simp
  qed
  then show "fs (device_dir dir name') \<noteq> None \<Longrightarrow> fs' (device_dir dir name') \<noteq> None" using assms(4) by simp
  show "fs' (kernel_bc dir name' kname) \<noteq> Some Dir" if "fs (kernel_bc dir name' kname) \<noteq> Some Dir"
  proof (cases "name' = name")
    case True
    then show ?thesis using assms(3) by simp
  next
    case False
    have "\<not> prefix (kernel_dir dir name kname) (kernel_bc dir name' kname)"
    proof
      assume "prefix (kernel_dir dir name kname) (kernel_bc dir name' kname)"
      then obtain r where "name' @ CHR ''/'' # kname @ ''/kernel.bc'' = name @ CHR ''/'' # kname @ r" by (auto simp: prefix_def)
      then show False using component_eq [OF assms(2,1)] False by blast
    qed
    then show ?thesis using assms(4) that by simp
  qed
qed

lemma kernel_on_cpus:
  assumes "no_faults env" "\<forall>t \<in> set ts. kernel_target_ok s h code so script (temp_dir p) kname t"
    and "\<forall>(d, name, triplet) \<in> set ts. fs (device_dir (temp_dir p) name) \<noteq> None \<and> fs (kernel_bc (temp_dir p) name kname) \<noteq> Some Dir"
    and "drop i (binary_list p) = map Some bins" "length bins = length ts" "set bins \<subseteq> set code"
    and "dl = None \<longrightarrow> ts \<noteq> [] \<and> lt_dlopen h (so (fst (snd (hd ts)))) = Some desc" "dl = None \<or> dl = Some desc"
    and "k_refcount k + int (length ts) < 2 ^ 31"
  shows "\<exists>T fs'. tick s \<le> T \<and> kernel_on_devices env h p kname script (map (Some \<circ> fst) ts) i dl k (s, fs) =
     Ret (Inr (Some desc), k\<lparr>k_refcount := k_refcount k + int (length ts) - (if i = 0 \<and> ts \<noteq> [] then 1 else 0)\<rparr>, s\<lparr>tick := T\<rparr>, fs')"
  using assms(2-9)
proof (induction ts arbitrary: s fs i bins dl k)
  case Nil
  then show ?case by (intro exI [of _ "tick s"]) auto
next
  case (Cons t ts)
  obtain d name triplet where t: "t = (d, name, triplet)" by (cases t)
  obtain b bins' where bins: "bins = b # bins'" using Cons.prems(4) by (cases bins) auto
  have i: "c_nth (binary_list p) i = Ret (Some b)" "drop (Suc i) (binary_list p) = map Some bins'"
    using drop_eq_Cons [of i "binary_list p" "Some b"] Cons.prems(3) unfolding bins by simp_all
  obtain dev where dev: "devices s d = Some dev" "\<not> has (dev_type dev) CL_DEVICE_TYPE_GPU" "dev_name (dev_info dev) = Some name"
      "llvm_target_triplet (dev_info dev) = Some triplet"
    and ok: "CHR ''/'' \<notin> set name" "length (kernel_so (temp_dir p) name kname) < POCL_FILENAME_LENGTH"
      "describes h code (so name) script (temp_dir p) name kname triplet" "length (kernel_call script (temp_dir p) name kname triplet) < 1024"
    using Cons.prems(1) by (auto simp: kernel_target_ok_def t)
  have files: "fs (device_dir (temp_dir p) name) \<noteq> None" "fs (kernel_bc (temp_dir p) name kname) \<noteq> Some Dir"
    using Cons.prems(2) by (auto simp: t)
  let ?refs = "if i > 0 then k_refcount k + 1 else k_refcount k"
  have load: "dl = None \<longrightarrow> lt_dlopen h (so name) = Some desc" using Cons.prems(6) by (simp add: t)
  have "b \<in> set code" using Cons.prems(5) by (simp add: bins)
  note step = describe_step [OF assms(1) dev(1,3,4) ok(2,3,4) this files load]
  have dl: "(case dl of None \<Rightarrow> desc | Some x \<Rightarrow> x) = desc" using Cons.prems(7) by (auto split: option.splits)
  obtain T fs2 where T: "tick s \<le> T" "describe_on_cpu env h p kname script dev (Ret (Some b)) dl (s, fs) = Ret (Inr (Some desc), s\<lparr>tick := T\<rparr>, fs2)"
    and kept: "fs2 (kernel_bc (temp_dir p) name kname) = Some (File b)"
      "\<forall>f. \<not> prefix (kernel_dir (temp_dir p) name kname) f \<longrightarrow> fs2 f = fs f"
    using step unfolding dl by (elim exE conjE)
  have refs: "(if i > 0 then incr (k_refcount k) else Ret (k_refcount k)) = Ret ?refs"
    using Cons.prems(8) by (simp add: incr_def)
  have "\<forall>(d, name', triplet) \<in> set ts. fs2 (device_dir (temp_dir p) name') \<noteq> None \<and> fs2 (kernel_bc (temp_dir p) name' kname) \<noteq> Some Dir"
  proof (clarify, intro conjI)
    fix d' name' triplet'
    assume *: "(d', name', triplet') \<in> set ts"
    then have name': "CHR ''/'' \<notin> set name'" using Cons.prems(1) by (auto simp: kernel_target_ok_def)
    have "fs (device_dir (temp_dir p) name') \<noteq> None" "fs (kernel_bc (temp_dir p) name' kname) \<noteq> Some Dir" using Cons.prems(2) * by auto
    then show "fs2 (device_dir (temp_dir p) name') \<noteq> None" "fs2 (kernel_bc (temp_dir p) name' kname) \<noteq> Some Dir"
      using describe_keeps [OF ok(1) name' kept] by blast+
  qed
  then have "\<exists>T' fs'. tick (s\<lparr>tick := T\<rparr>) \<le> T' \<and>
     kernel_on_devices env h p kname script (map (Some \<circ> fst) ts) (Suc i) (Some desc) (k\<lparr>k_refcount := ?refs\<rparr>) (s\<lparr>tick := T\<rparr>, fs2) =
     Ret (Inr (Some desc), (k\<lparr>k_refcount := ?refs\<rparr>)\<lparr>k_refcount := k_refcount (k\<lparr>k_refcount := ?refs\<rparr>) + int (length ts) - (if Suc i = 0 \<and> ts \<noteq> [] then 1 else 0)\<rparr>,
       s\<lparr>tick := T\<rparr>\<lparr>tick := T'\<rparr>, fs')"
    by (intro Cons.IH [where bins = bins']) (use Cons.prems i(2) bins in auto)
  then obtain T' fs' where "T \<le> T'" "kernel_on_devices env h p kname script (map (Some \<circ> fst) ts) (Suc i) (Some desc) (k\<lparr>k_refcount := ?refs\<rparr>) (s\<lparr>tick := T\<rparr>, fs2) =
     Ret (Inr (Some desc), k\<lparr>k_refcount := ?refs + int (length ts)\<rparr>, s\<lparr>tick := T'\<rparr>, fs')"
    by auto
  then have "kernel_on_devices env h p kname script (map (Some \<circ> fst) (t # ts)) i dl k (s, fs) =
     Ret (Inr (Some desc), k\<lparr>k_refcount := ?refs + int (length ts)\<rparr>, s\<lparr>tick := T'\<rparr>, fs')"
    using T(2) refs dev(1,2) i(1) by (simp add: t Let_def)
  moreover have "?refs + int (length ts) = k_refcount k + int (length (t # ts)) - (if i = 0 \<and> t # ts \<noteq> [] then 1 else 0)" by simp
  moreover have "tick s \<le> T'" using T(1) \<open>T \<le> T'\<close> by simp
  ultimately show ?case by metis
qed

text \<open>The script that describes a kernel when nothing fails.\<close>

definition installed_kernel_script :: "host \<Rightarrow> string" where
  "installed_kernel_script h = (if getenv h ''POCL_BUILDING'' \<noteq> None then builddir h @ ''/scripts/pocl-kernel'' else pkgdatadir h @ ''/pocl-kernel'')"

lemma kernel_script_installed:
  "no_faults env \<Longrightarrow> \<exists>T. kernel_script env h s = (installed_kernel_script h, s\<lparr>tick := T\<rparr>) \<and> tick s \<le> T"
  by (cases "getenv h ''POCL_BUILDING''") (auto simp: kernel_script_def installed_kernel_script_def host_simps next_tick_def intro: exI [of _ "tick s"])

text \<open>A descriptor whose tables have the sizes it says.\<close>

definition descriptor_ok :: "kernel_descriptor \<Rightarrow> bool" where
  "descriptor_ok desc \<longleftrightarrow> length (desc_arg_is_pointer desc) = desc_num_args desc \<and>
     (case desc_arg_is_local desc of None \<Rightarrow> True | Some ls \<Rightarrow> length ls = desc_num_args desc) \<and>
     length (desc_local_sizes desc) = desc_num_locals desc"

definition described_kernel :: "host \<Rightarrow> kernel_descriptor \<Rightarrow> string \<Rightarrow> ptr \<Rightarrow> ptr \<Rightarrow> int \<Rightarrow> cl_kernel" where
  "described_kernel h desc kname ctx program n = (raw_kernel h)\<lparr>k_refcount := n, function_name := kname, k_name := kname,
     num_args := desc_num_args desc, reqd_wg_size := desc_reqd_wg_size desc, arg_is_pointer := desc_arg_is_pointer desc,
     arg_is_local := desc_arg_is_local desc, arg_is_image := desc_arg_is_image desc, arg_is_sampler := desc_arg_is_sampler desc,
     num_locals := desc_num_locals desc,
     dyn_arguments := Some (replicate (desc_num_args desc) \<lparr>arg_size = 0, arg_value = Arg_null\<rparr> @
       map (\<lambda>sz. \<lparr>arg_size = ucast sz, arg_value = Arg_null\<rparr>) (desc_local_sizes desc)),
     k_context := ctx, k_program := program\<rparr>"

lemma described_kernel_typed: "descriptor_ok desc \<Longrightarrow> kernel_typed (described_kernel h desc kname ctx program n)"
  by (cases "desc_arg_is_local desc") (auto simp: descriptor_ok_def described_kernel_def kernel_typed_def arg_typed_def)

lemma local_sizes_all:
  "length (desc_local_sizes desc) = n \<Longrightarrow>
   local_sizes (Some desc) n = Ret (map (\<lambda>sz. \<lparr>arg_size = ucast sz, arg_value = Arg_null\<rparr>) (desc_local_sizes desc))"
  by (auto simp: local_sizes_def c_take_def)

text \<open>A program that is built for one or two devices, and a host whose script describes its kernels.\<close>

definition demo_descriptor :: kernel_descriptor where
  "demo_descriptor = \<lparr>desc_num_args = 2, desc_reqd_wg_size = None, desc_arg_is_pointer = [True, False], desc_arg_is_local = Some [False, False],
     desc_arg_is_image = [False, False], desc_arg_is_sampler = [False, False], desc_num_locals = 1, desc_local_sizes = [64]\<rparr>"

definition demo_kernel_host :: host where
  "demo_kernel_host = demo_host\<lparr>system := (\<lambda>cmd fs. (0, fs(kernel_dir ''/tmp/p'' ''basic'' ''f'' @ ''/kernel_header.h'' \<mapsto> File [],
       kernel_so ''/tmp/p'' ''basic'' ''f'' \<mapsto> File [9]))),
     lt_dlopen := [[9] \<mapsto> demo_descriptor]\<rparr>"

definition demo_built :: "ptr option list \<Rightarrow> cl_program" where
  "demo_built ds = demo_program_rec\<lparr>p_devices := ds, binaries := Some (map (\<lambda>_. Some [1]) ds), temp_dir := ''/tmp/p''\<rparr>"

definition demo_fs :: fsys where
  "demo_fs = [''/tmp/p/basic'' \<mapsto> Dir]"

lemma demo_kernel_target:
  "kernel_target_ok (demo_rt\<lparr>programs := X\<rparr>) demo_kernel_host bins (\<lambda>_. [9]) (installed_kernel_script demo_kernel_host) ''/tmp/p'' ''f'' (1, ''basic'', ''x86_64'')"
  by (auto simp: kernel_target_ok_def describes_def kernel_call_def installed_kernel_script_def demo_host_def demo_kernel_host_def demo_rt_def demo_device_def basic_info_def
      demo_config_def has_def CL_DEVICE_TYPE_CPU_def CL_DEVICE_TYPE_GPU_def POCL_FILENAME_LENGTH_def)

lemma demo_kernel_facts:
  "descriptor_ok demo_descriptor" "lt_dlopen demo_kernel_host [9] = Some demo_descriptor" "temp_dir (demo_built ds) = ''/tmp/p''"
  "p_devices (demo_built ds) = ds" "binaries (demo_built ds) = Some (map (\<lambda>_. Some [1]) ds)" "p_refcount (demo_built ds) = 1"
  "tick demo_rt = 10"
  by (simp_all add: descriptor_ok_def demo_descriptor_def demo_kernel_host_def demo_built_def demo_program_rec_def demo_rt_def)

lemma cpu_kernel:
  assumes "no_faults env" "tick s \<noteq> NULL" "program \<noteq> NULL" "programs s program = Some p" "p_refcount p < 2 ^ 31 - 1"
    and "p_devices p = map (Some \<circ> fst) ts" "ts \<noteq> []" "length ts < 2 ^ 31 - 1"
    and "binaries p = Some (map Some bins)" "length bins = length ts"
    and "\<forall>t \<in> set ts. kernel_target_ok s h bins so (installed_kernel_script h) (temp_dir p) kname t"
    and "\<forall>(d, name, triplet) \<in> set ts. fs (device_dir (temp_dir p) name) \<noteq> None \<and> fs (kernel_bc (temp_dir p) name kname) \<noteq> Some Dir"
    and "lt_dlopen h (so (fst (snd (hd ts)))) = Some desc" "descriptor_ok desc"
  shows "\<exists>T fs'. clCreateKernel env h program kname (s, fs) = Ret (CL_SUCCESS, tick s,
     s\<lparr>tick := T, kernels := (kernels s)(tick s \<mapsto> described_kernel h desc kname (p_context p) program (int (length ts))),
       programs := (programs s)(program \<mapsto> p\<lparr>p_kernels := tick s # p_kernels p, p_refcount := p_refcount p + 1\<rparr>)\<rparr>, fs')"
proof -
  let ?s1 = "s\<lparr>tick := Suc (tick s)\<rparr>" and ?k = "(raw_kernel h)\<lparr>k_refcount := 1\<rparr>"
  obtain T where T: "kernel_script env h ?s1 = (installed_kernel_script h, ?s1\<lparr>tick := T\<rparr>)" "Suc (tick s) \<le> T"
    using kernel_script_installed [OF assms(1), of h ?s1] by auto
  let ?s2 = "s\<lparr>tick := T\<rparr>"
  obtain T' fs' where k: "T \<le> T'" "kernel_on_devices env h p kname (installed_kernel_script h) (map (Some \<circ> fst) ts) 0 None ?k (?s2, fs) =
      Ret (Inr (Some desc), ?k\<lparr>k_refcount := int (length ts)\<rparr>, s\<lparr>tick := T'\<rparr>, fs')"
    using kernel_on_cpus [OF assms(1), of ts ?s2 h bins so "installed_kernel_script h" p kname fs 0 bins None desc ?k] assms(7-13)
    by (auto simp: binary_list_def)
  obtain d name triplet where t: "hd ts = (d, name, triplet)" by (cases "hd ts")
  then obtain dev where "devices s d = Some dev" "\<not> has (dev_type dev) CL_DEVICE_TYPE_GPU"
    using assms(7,11) hd_in_set [of ts] by (fastforce simp: kernel_target_ok_def)
  then have gpu: "first_is_gpu p (s\<lparr>tick := X\<rparr>) = Ret False" for X
    using assms(6,7) t by (cases ts) (simp_all add: first_is_gpu_def c_nth_def)
  show ?thesis
    using assms(1-7,9) T k gpu local_sizes_all [of desc "desc_num_locals desc"] assms(14)
    by (intro exI [of _ "Suc (Suc (Suc T'))"] exI [of _ fs'])
       (simp add: clCreateKernel_def host_simps next_tick_def copy_names_def cpu_arguments_def dynamic_arguments_def Let_def
        retain_program_def POCL_RETAIN_OBJECT_def incr_def descriptor_ok_def described_kernel_def)
qed

text \<open>C10. A kernel of a program that was built for its devices, all of them CPUs, when no call of the operating system or the
  allocator fails, the kernel script succeeds on the code of the program and names and command lines fit their arrays: the
  kernel has exactly what the descriptor of the first device says, that is the numbers of arguments and of
  automatic local buffers, the flags for pointers, local memory, images and samplers, and the required work-group size.
  None of its arguments is set, and behind them the local buffers have the sizes of the descriptor. It is well-typed, has one
  reference for every device, and is the first kernel of the program, which gets one more reference.\<close>

theorem cpu_kernel_created:
  assumes "no_faults env" "tick s \<noteq> NULL" "program \<noteq> NULL" "programs s program = Some p" "p_refcount p < 2 ^ 31 - 1"
    and "p_devices p = map (Some \<circ> fst) ts" "ts \<noteq> []" "length ts < 2 ^ 31 - 1"
    and "binaries p = Some (map Some bins)" "length bins = length ts"
    and "\<forall>t \<in> set ts. kernel_target_ok s h bins so (installed_kernel_script h) (temp_dir p) kname t"
    and "\<forall>(d, name, triplet) \<in> set ts. fs (device_dir (temp_dir p) name) \<noteq> None \<and> fs (kernel_bc (temp_dir p) name kname) \<noteq> Some Dir"
    and "lt_dlopen h (so (fst (snd (hd ts)))) = Some desc" "descriptor_ok desc"
  shows "\<exists>s' fs' k. clCreateKernel env h program kname (s, fs) = Ret (CL_SUCCESS, tick s, s', fs') \<and>
     kernels s' = (kernels s)(tick s \<mapsto> k) \<and> kernel_typed k \<and> k_name k = kname \<and> function_name k = kname \<and>
     k_context k = p_context p \<and> k_program k = program \<and> k_refcount k = int (length ts) \<and>
     num_args k = desc_num_args desc \<and> num_locals k = desc_num_locals desc \<and> reqd_wg_size k = desc_reqd_wg_size desc \<and>
     arg_is_pointer k = desc_arg_is_pointer desc \<and> arg_is_local k = desc_arg_is_local desc \<and>
     arg_is_image k = desc_arg_is_image desc \<and> arg_is_sampler k = desc_arg_is_sampler desc \<and>
     dyn_arguments k = Some (replicate (desc_num_args desc) \<lparr>arg_size = 0, arg_value = Arg_null\<rparr> @
       map (\<lambda>sz. \<lparr>arg_size = ucast sz, arg_value = Arg_null\<rparr>) (desc_local_sizes desc)) \<and>
     programs s' = (programs s)(program \<mapsto> p\<lparr>p_kernels := tick s # p_kernels p, p_refcount := p_refcount p + 1\<rparr>)"
proof -
  obtain T fs' where "clCreateKernel env h program kname (s, fs) = Ret (CL_SUCCESS, tick s,
     s\<lparr>tick := T, kernels := (kernels s)(tick s \<mapsto> described_kernel h desc kname (p_context p) program (int (length ts))),
       programs := (programs s)(program \<mapsto> p\<lparr>p_kernels := tick s # p_kernels p, p_refcount := p_refcount p + 1\<rparr>)\<rparr>, fs')"
    using cpu_kernel [OF assms] by blast
  then show ?thesis using described_kernel_typed [OF assms(14), of h kname "p_context p" program "int (length ts)"]
    by (auto simp: described_kernel_def)
qed

theorem cpu_kernel_created_witness:
  "\<exists>s' fs' k. clCreateKernel demo_env demo_kernel_host 6 ''f'' (demo_rt\<lparr>programs := [6 \<mapsto> demo_built [Some 1]]\<rparr>, demo_fs) =
     Ret (CL_SUCCESS, 10, s', fs') \<and> kernels s' 10 = Some k \<and> kernel_typed k \<and> num_args k = 2 \<and> arg_is_pointer k = [True, False] \<and>
     dyn_arguments k = Some [\<lparr>arg_size = 0, arg_value = Arg_null\<rparr>, \<lparr>arg_size = 0, arg_value = Arg_null\<rparr>, \<lparr>arg_size = 64, arg_value = Arg_null\<rparr>]"
proof -
  let ?s = "demo_rt\<lparr>programs := [6 \<mapsto> demo_built [Some 1]]\<rparr>"
  have "\<exists>s' fs' k. clCreateKernel demo_env demo_kernel_host 6 ''f'' (?s, demo_fs) = Ret (CL_SUCCESS, tick ?s, s', fs') \<and>
     kernels s' = (kernels ?s)(tick ?s \<mapsto> k) \<and> kernel_typed k \<and> k_name k = ''f'' \<and> function_name k = ''f'' \<and>
     k_context k = p_context (demo_built [Some 1]) \<and> k_program k = 6 \<and> k_refcount k = int (length [(1 :: ptr, ''basic'', ''x86_64'')]) \<and>
     num_args k = desc_num_args demo_descriptor \<and> num_locals k = desc_num_locals demo_descriptor \<and> reqd_wg_size k = desc_reqd_wg_size demo_descriptor \<and>
     arg_is_pointer k = desc_arg_is_pointer demo_descriptor \<and> arg_is_local k = desc_arg_is_local demo_descriptor \<and>
     arg_is_image k = desc_arg_is_image demo_descriptor \<and> arg_is_sampler k = desc_arg_is_sampler demo_descriptor \<and>
     dyn_arguments k = Some (replicate (desc_num_args demo_descriptor) \<lparr>arg_size = 0, arg_value = Arg_null\<rparr> @
       map (\<lambda>sz. \<lparr>arg_size = ucast sz, arg_value = Arg_null\<rparr>) (desc_local_sizes demo_descriptor)) \<and>
     programs s' = (programs ?s)(6 \<mapsto> (demo_built [Some 1])\<lparr>p_kernels := tick ?s # p_kernels (demo_built [Some 1]), p_refcount := p_refcount (demo_built [Some 1]) + 1\<rparr>)"
    by (rule cpu_kernel_created [OF demo_no_faults, where bins = "[[1]]" and so = "\<lambda>_. [9]"])
       (use demo_kernel_target demo_kernel_facts in \<open>simp_all add: demo_fs_def\<close>)
  then obtain s' fs' k where "clCreateKernel demo_env demo_kernel_host 6 ''f'' (?s, demo_fs) = Ret (CL_SUCCESS, tick ?s, s', fs')"
    and k: "kernels s' = (kernels ?s)(tick ?s \<mapsto> k)" "kernel_typed k" "num_args k = desc_num_args demo_descriptor"
      "arg_is_pointer k = desc_arg_is_pointer demo_descriptor"
      "dyn_arguments k = Some (replicate (desc_num_args demo_descriptor) \<lparr>arg_size = 0, arg_value = Arg_null\<rparr> @
         map (\<lambda>sz. \<lparr>arg_size = ucast sz, arg_value = Arg_null\<rparr>) (desc_local_sizes demo_descriptor))"
    by (elim exE conjE)
  moreover have "replicate 2 x = [x, x]" for x :: pocl_argument by (simp add: numeral_2_eq_2)
  ultimately show ?thesis
    by (intro exI [of _ s'] exI [of _ fs'] exI [of _ k]) (simp add: demo_kernel_facts demo_descriptor_def)
qed

text \<open>C23. Creating a kernel and releasing it once undoes the creation when the program has one device. When it
  has several, the kernel stays, with its reference to the program: it was created with too many references.\<close>

theorem create_release_kernel:
  assumes "no_faults env" "tick s \<noteq> NULL" "program \<noteq> NULL" "programs s program = Some p" "p_refcount p < 2 ^ 31 - 1"
    and "p_devices p = map (Some \<circ> fst) ts" "ts \<noteq> []" "length ts < 2 ^ 31 - 1"
    and "binaries p = Some (map Some bins)" "length bins = length ts"
    and "\<forall>t \<in> set ts. kernel_target_ok s h bins so (installed_kernel_script h) (temp_dir p) kname t"
    and "\<forall>(d, name, triplet) \<in> set ts. fs (device_dir (temp_dir p) name) \<noteq> None \<and> fs (kernel_bc (temp_dir p) name kname) \<noteq> Some Dir"
    and "lt_dlopen h (so (fst (snd (hd ts)))) = Some desc" "descriptor_ok desc"
    and "0 < p_refcount p"
  shows "\<exists>s1 fs1 s2. clCreateKernel env h program kname (s, fs) = Ret (CL_SUCCESS, tick s, s1, fs1) \<and>
     clReleaseKernel env (tick s) s1 = Ret (CL_SUCCESS, s2) \<and>
     (if length ts = 1 then kernels s2 = (kernels s)(tick s := None) \<and> programs s2 = programs s
      else (\<exists>k. kernels s2 (tick s) = Some k \<and> k_refcount k = int (length ts) - 1) \<and>
           programs s2 program = Some (p\<lparr>p_kernels := tick s # p_kernels p, p_refcount := p_refcount p + 1\<rparr>))"
proof -
  let ?k = "described_kernel h desc kname (p_context p) program (int (length ts))"
  let ?p = "p\<lparr>p_kernels := tick s # p_kernels p, p_refcount := p_refcount p + 1\<rparr>"
  obtain T fs' where c: "clCreateKernel env h program kname (s, fs) = Ret (CL_SUCCESS, tick s,
     s\<lparr>tick := T, kernels := (kernels s)(tick s \<mapsto> ?k), programs := (programs s)(program \<mapsto> ?p)\<rparr>, fs')" (is "_ = Ret (_, _, ?s1, _)")
    using cpu_kernel [OF assms(1-14)] by blast
  show ?thesis
  proof (cases "length ts = 1")
    case True
    have "(programs s)(program \<mapsto> p) = programs s" using assms(4) by auto
    then have "clReleaseKernel env (tick s) ?s1 = Ret (CL_SUCCESS, s\<lparr>tick := T, kernels := (kernels s)(tick s := None)\<rparr>)"
      using assms(3,15) True
      by (simp add: clReleaseKernel_def release_kernel_def POCL_RELEASE_OBJECT_def decr_def described_kernel_def
          clReleaseProgram_def release_program_def)
    then show ?thesis using c True by simp
  next
    case False
    then have "int (length ts) > 1" using assms(7) by (cases ts) auto
    then have "clReleaseKernel env (tick s) ?s1 = Ret (CL_SUCCESS,
        ?s1\<lparr>kernels := (kernels ?s1)(tick s \<mapsto> ?k\<lparr>k_refcount := int (length ts) - 1\<rparr>)\<rparr>)"
      by (simp add: clReleaseKernel_def release_kernel_def POCL_RELEASE_OBJECT_def decr_def described_kernel_def)
    then show ?thesis using c False by simp
  qed
qed

theorem create_release_kernel_witness:
  "\<exists>s1 fs1 s2. clCreateKernel demo_env demo_kernel_host 6 ''f'' (demo_rt\<lparr>programs := [6 \<mapsto> demo_built [Some 1, Some 1]]\<rparr>, demo_fs) =
       Ret (CL_SUCCESS, 10, s1, fs1) \<and>
     clReleaseKernel demo_env 10 s1 = Ret (CL_SUCCESS, s2) \<and> kernels s2 10 \<noteq> None"
proof -
  let ?s = "demo_rt\<lparr>programs := [6 \<mapsto> demo_built [Some 1, Some 1]]\<rparr>" and ?t = "(1, ''basic'', ''x86_64'')"
  obtain s1 fs1 s2 k where "clCreateKernel demo_env demo_kernel_host 6 ''f'' (?s, demo_fs) = Ret (CL_SUCCESS, tick ?s, s1, fs1)"
    "clReleaseKernel demo_env (tick ?s) s1 = Ret (CL_SUCCESS, s2)" "kernels s2 (tick ?s) = Some k"
    using create_release_kernel [OF demo_no_faults, of ?s 6 "demo_built [Some 1, Some 1]" "[?t, ?t]" "[[1], [1]]" demo_kernel_host
        "\<lambda>_. [9]" "''f''" demo_fs demo_descriptor] demo_kernel_target demo_kernel_facts
    by (auto simp: demo_fs_def)
  then show ?thesis by (auto simp: demo_kernel_facts)
qed

text \<open>A program that was built only for a later one of its devices has fewer binaries than devices: creating a
  kernel of it reads past the end of the array of binaries.\<close>

theorem partial_build_overruns:
  assumes "no_faults env" "tick s \<noteq> NULL" "program \<noteq> NULL" "programs s program = Some p"
    and "p_devices p = [Some d0, Some d1]" "binaries p = Some [Some b]" "cpu_named s d0 name0" "cpu_named s d1 name1"
    and "length (device_dir (temp_dir p) name0) < POCL_FILENAME_LENGTH" "length (kernel_bc (temp_dir p) name1 kname) < POCL_FILENAME_LENGTH"
    and "fs (device_dir (temp_dir p) name0) = None" "fs (device_dir (temp_dir p) name1) = Some Dir"
    and "fs (kernel_bc (temp_dir p) name1 kname) \<noteq> Some Dir"
  shows "clCreateKernel env h program kname (s, fs) = Undef"
proof -
  let ?dir = "temp_dir p"
  obtain dev0 dev1 where dev: "devices s d0 = Some dev0" "\<not> has (dev_type dev0) CL_DEVICE_TYPE_GPU" "dev_name (dev_info dev0) = Some name0"
    "devices s d1 = Some dev1" "\<not> has (dev_type dev1) CL_DEVICE_TYPE_GPU" "dev_name (dev_info dev1) = Some name1"
    using assms(7,8) by (auto simp: cpu_named_def)
  have names: "filename (device_dir ?dir name0) = device_dir ?dir name0" "filename (device_dir ?dir name1) = device_dir ?dir name1"
    "filename (kernel_dir ?dir name1 kname) = kernel_dir ?dir name1 kname" "filename (kernel_bc ?dir name1 kname) = kernel_bc ?dir name1 kname"
    using assms(9,10) by (simp_all add: filename_short)
  have second: "describe_on_cpu env h p kname script dev1 Undef None (s\<lparr>tick := X\<rparr>, fs) = Undef" for script X
    using dev(6) names assms(1,12,13)
    by (cases "fs (kernel_dir ?dir name1 kname)") (simp_all add: describe_on_cpu_def host_simps next_tick_def Let_def)
  obtain T where T: "kernel_script env h (s\<lparr>tick := Suc (tick s)\<rparr>) = (installed_kernel_script h, s\<lparr>tick := T\<rparr>)"
    using kernel_script_installed [OF assms(1), of h "s\<lparr>tick := Suc (tick s)\<rparr>"] by auto
  show ?thesis
    using assms(1-6,11) dev(1-5) names(1) second T
    by (simp add: clCreateKernel_def host_simps next_tick_def Let_def describe_on_cpu_def [of env h p kname _ dev0] incr_def
        binary_list_def c_nth_def)
qed

theorem partial_build_overruns_witness:
  "clCreateKernel demo_env demo_host 6 ''f'' (demo_rt\<lparr>devices := [1 \<mapsto> demo_device\<lparr>dev_info := (basic_info demo_config)\<lparr>dev_name := Some ''other''\<rparr>\<rparr>,
      2 \<mapsto> demo_device], programs := [6 \<mapsto> (demo_built [Some 1, Some 2])\<lparr>binaries := Some [Some [1]]\<rparr>]\<rparr>, demo_fs) = Undef"
  by (rule partial_build_overruns [OF demo_no_faults, where p = "(demo_built [Some 1, Some 2])\<lparr>binaries := Some [Some [1]]\<rparr>"
        and ?name0.0 = "''other''" and ?name1.0 = "''basic''" and ?d0.0 = 1 and ?d1.0 = 2 and b = "[1]"])
     (simp_all add: demo_kernel_facts cpu_named_def demo_device_def basic_info_def has_def CL_DEVICE_TYPE_CPU_def CL_DEVICE_TYPE_GPU_def
        POCL_FILENAME_LENGTH_def demo_fs_def)

end
