(* ===== verification/Hsa.thy ===== *)
theory Hsa
  imports Kernels
begin

text \<open>
  The HSA driver, \<open>lib/CL/devices/hsa/hsa.c\<close>: its memory operations, and \<open>pocl\_hsa\_run\<close>, which
  packs the arguments of a launch into the argument buffer of the GPU and dispatches a packet. The GPU itself is a
  parameter, as are the addresses of the blocks that hold argument values. Registering memory with HSA changes
  nothing in the model and its result is ignored by the code.
\<close>

section \<open>Memory\<close>

text \<open>\<open>memset\<close> to 0.\<close>

definition clear :: "memory \<Rightarrow> size_t \<Rightarrow> nat \<Rightarrow> memory outcome" where
  "clear m p n = store m p (replicate n 0)"

definition pocl_hsa_malloc ::
  "c_library \<Rightarrow> memory \<Rightarrow> nat \<Rightarrow> cl_bitfield \<Rightarrow> size_t \<Rightarrow> size_t \<Rightarrow> (size_t \<times> memory) outcome" where
  "pocl_hsa_malloc lib m device_data flags sz host_ptr =
     (if has flags CL_MEM_COPY_HOST_PTR then
        case posix_memalign lib m MAX_EXTENDED_ALIGNMENT sz of
          Some (b, m') \<Rightarrow> obind (memcpy m' b host_ptr sz) (\<lambda>m''. Ret (b, m''))
        | None \<Rightarrow> Ret (0, m)
      else if has flags CL_MEM_USE_HOST_PTR \<and> host_ptr \<noteq> 0 then Ret (host_ptr, m)
      else case posix_memalign lib m MAX_EXTENDED_ALIGNMENT sz of
             Some (b, m') \<Rightarrow> obind (clear m' b (unat sz)) (\<lambda>m''. Ret (b, m''))
           | None \<Rightarrow> Ret (0, m))"

text \<open>Copies a block of zeros over the range of the sub-buffer; the block is not checked before it is cleared.\<close>

definition pocl_hsa_create_sub_buffer ::
  "c_library \<Rightarrow> memory \<Rightarrow> size_t \<Rightarrow> size_t \<Rightarrow> size_t \<Rightarrow> (size_t \<times> memory) outcome" where
  "pocl_hsa_create_sub_buffer lib m ptr origin sz =
     (case posix_memalign lib m 16 sz of
        None \<Rightarrow> if sz = 0 then Ret (ptr + origin, m) else Undef
      | Some (b, m) \<Rightarrow>
          obind (clear m b (unat sz)) (\<lambda>m.
          obind (memcpy m (ptr + origin) b sz) (\<lambda>m.
          obind (c_free m b) (\<lambda>m. Ret (ptr + origin, m)))))"

definition pocl_hsa_free :: "memory \<Rightarrow> nat \<Rightarrow> cl_bitfield \<Rightarrow> size_t \<Rightarrow> memory outcome" where
  "pocl_hsa_free m data flags ptr =
     (if has flags CL_MEM_USE_HOST_PTR then Ret m else c_free m ptr)"

definition pocl_hsa_read :: "memory \<Rightarrow> size_t \<Rightarrow> size_t \<Rightarrow> size_t \<Rightarrow> memory outcome" where
  "pocl_hsa_read m host_ptr device_ptr cb =
     (if host_ptr = device_ptr then Ret m else memcpy m host_ptr device_ptr cb)"

definition pocl_hsa_write :: "memory \<Rightarrow> size_t \<Rightarrow> size_t \<Rightarrow> size_t \<Rightarrow> memory outcome" where
  "pocl_hsa_write m host_ptr device_ptr cb =
     (if host_ptr = device_ptr then Ret m else memcpy m device_ptr host_ptr cb)"

definition pocl_hsa_copy :: "memory \<Rightarrow> size_t \<Rightarrow> size_t \<Rightarrow> size_t \<Rightarrow> memory outcome" where
  "pocl_hsa_copy m src_ptr dst_ptr cb =
     (if src_ptr = dst_ptr then Ret m else memcpy m dst_ptr src_ptr cb)"

text \<open>The loop of \<open>pocl\_hsa\_fill\<close> counts with an \<open>int\<close>, whose overflow is undefined.\<close>

fun fill_loop :: "nat \<Rightarrow> byte list \<Rightarrow> size_t \<Rightarrow> memory \<Rightarrow> memory outcome" where
  "fill_loop 0 pattern pointer m = Ret m"
| "fill_loop (Suc n) pattern pointer m =
     obind (store m pointer pattern) (fill_loop n pattern (pointer + of_nat (length pattern)))"

definition pocl_hsa_fill :: "memory \<Rightarrow> byte list \<Rightarrow> size_t \<Rightarrow> size_t \<Rightarrow> memory outcome" where
  "pocl_hsa_fill m pattern device_ptr cb =
     (if pattern = [] then Undef
      else let n = unat cb div length pattern in
      if n \<ge> 2 ^ 31 then Undef else fill_loop n pattern device_ptr m)"

definition pocl_hsa_copy_rect :: rect_op where
  "pocl_hsa_copy_rect m src_ptr dst_ptr src_origin dst_origin region
       src_row_pitch src_slice_pitch dst_row_pitch dst_slice_pitch =
     (let adjusted_src_ptr = adjusted_ptr src_ptr src_origin src_row_pitch src_slice_pitch;
          adjusted_dst_ptr = adjusted_ptr dst_ptr dst_origin dst_row_pitch dst_slice_pitch
      in copy_rows (fst region)
           (rect_rows region adjusted_dst_ptr dst_row_pitch dst_slice_pitch
              adjusted_src_ptr src_row_pitch src_slice_pitch) m)"

definition pocl_hsa_write_rect :: rect_op where
  "pocl_hsa_write_rect m host_ptr device_ptr buffer_origin host_origin region
       buffer_row_pitch buffer_slice_pitch host_row_pitch host_slice_pitch =
     (let adjusted_device_ptr = adjusted_ptr device_ptr buffer_origin buffer_row_pitch buffer_slice_pitch;
          adjusted_host_ptr = adjusted_ptr host_ptr host_origin host_row_pitch host_slice_pitch
      in copy_rows (fst region)
           (rect_rows region adjusted_device_ptr buffer_row_pitch buffer_slice_pitch
              adjusted_host_ptr host_row_pitch host_slice_pitch) m)"

definition pocl_hsa_read_rect :: rect_op where
  "pocl_hsa_read_rect m host_ptr device_ptr buffer_origin host_origin region
       buffer_row_pitch buffer_slice_pitch host_row_pitch host_slice_pitch =
     (let adjusted_device_ptr = adjusted_ptr device_ptr buffer_origin buffer_row_pitch buffer_slice_pitch;
          adjusted_host_ptr = adjusted_ptr host_ptr host_origin host_row_pitch host_slice_pitch
      in copy_rows (fst region)
           (rect_rows region adjusted_host_ptr host_row_pitch host_slice_pitch
              adjusted_device_ptr buffer_row_pitch buffer_slice_pitch) m)"

definition pocl_hsa_map_mem ::
  "memory \<Rightarrow> size_t \<Rightarrow> size_t \<Rightarrow> size_t \<Rightarrow> size_t \<Rightarrow> (size_t \<times> memory) outcome" where
  "pocl_hsa_map_mem m buf_ptr offset sz host_ptr =
     Ret (if host_ptr \<noteq> 0 then host_ptr else buf_ptr + offset, m)"

text \<open>The table of \<open>hsa.c\<close>, grouped by channel order.\<close>

definition hsa_supported_image_formats :: "cl_image_format list" where
  "hsa_supported_image_formats =
     formats CL_R all_channel_types @
     formats CL_Rx all_channel_types @
     formats CL_A all_channel_types @
     formats CL_RG all_channel_types @
     formats CL_RGx all_channel_types @
     formats CL_RA all_channel_types @
     formats CL_RGBA all_channel_types @
     formats CL_INTENSITY [CL_UNORM_INT8, CL_UNORM_INT16, CL_SNORM_INT8, CL_SNORM_INT16, CL_HALF_FLOAT, CL_FLOAT] @
     formats CL_LUMINANCE [CL_UNORM_INT8, CL_UNORM_INT16, CL_SNORM_INT8, CL_SNORM_INT16, CL_HALF_FLOAT, CL_FLOAT] @
     formats CL_RGB [CL_UNORM_SHORT_565, CL_UNORM_SHORT_555, CL_UNORM_INT_101010] @
     formats CL_RGBx [CL_UNORM_SHORT_565, CL_UNORM_SHORT_555, CL_UNORM_INT_101010] @
     formats CL_ARGB [CL_SNORM_INT8, CL_UNORM_INT8, CL_SIGNED_INT8, CL_UNSIGNED_INT8] @
     formats CL_BGRA [CL_SNORM_INT8, CL_UNORM_INT8, CL_SIGNED_INT8, CL_UNSIGNED_INT8]"

definition pocl_hsa_get_supported_image_formats :: "cl_bitfield \<Rightarrow> cl_int \<times> cl_image_format list" where
  "pocl_hsa_get_supported_image_formats flags = (CL_SUCCESS, hsa_supported_image_formats)"

definition hsa_ops :: "c_library \<Rightarrow> driver_ops" where
  "hsa_ops lib = \<lparr>
     op_malloc = pocl_hsa_malloc lib,
     op_free = pocl_hsa_free,
     op_read = pocl_hsa_read,
     op_read_rect = pocl_hsa_read_rect,
     op_write = pocl_hsa_write,
     op_write_rect = pocl_hsa_write_rect,
     op_copy = pocl_hsa_copy,
     op_copy_rect = pocl_hsa_copy_rect,
     op_fill = Some pocl_hsa_fill,
     op_map_mem = pocl_hsa_map_mem,
     op_unmap_mem = None,
     op_get_supported_image_formats = pocl_hsa_get_supported_image_formats\<rparr>"

lemmas hsa_op_defs = hsa_ops_def pocl_hsa_read_def pocl_hsa_write_def pocl_hsa_copy_def pocl_hsa_map_mem_def
  pocl_hsa_read_rect_def pocl_hsa_write_rect_def pocl_hsa_copy_rect_def

text \<open>The HSA driver keeps the contract of a driver, rectangular transfers included.\<close>

interpretation hsa: rect_driver "hsa_ops lib" for lib
  by unfold_locales (auto simp: hsa_op_defs intro: memcpy_moved moved_self)

section \<open>The argument buffer\<close>

text \<open>The buffer of the kernel's arguments while it is filled: its bytes, where the next one goes, the next free
  address of local memory, and the size of the group segment.\<close>

record arg_buffer =
  args :: "byte list"
  args_pointer :: nat
  local_pointer :: size_t
  group_segment_size :: "32 word"

text \<open>\<open>memcpy\<close> into the buffer, which is not checked for room.\<close>

definition put_args :: "byte list \<Rightarrow> arg_buffer \<Rightarrow> arg_buffer outcome" where
  "put_args bs b =
     (let off = args_pointer b in
      if off + length bs \<le> length (args b)
      then Ret (b\<lparr>args := take off (args b) @ bs @ drop (off + length bs) (args b), args_pointer := off + length bs\<rparr>)
      else Undef)"

definition align_args :: "arg_buffer \<Rightarrow> arg_buffer" where
  "align_args b =
     (let off = args_pointer b in if off mod 8 \<noteq> 0 then b\<lparr>args_pointer := off + (8 - off mod 8)\<rparr> else b)"

definition put_pointer :: "size_t \<Rightarrow> arg_buffer \<Rightarrow> arg_buffer outcome" where
  "put_pointer p b = put_args (le_bytes 8 p) (align_args b)"

text \<open>\<open>(*(cl\_mem *) value)\<close> and its address on the device with that number.\<close>

definition mem_of :: "arg_mem \<Rightarrow> rt \<Rightarrow> cl_mem outcome" where
  "mem_of v s = obind (buffer_of v) (\<lambda>p. deref (mems s p))"

definition device_address :: "arg_mem \<Rightarrow> nat \<Rightarrow> rt \<Rightarrow> size_t outcome" where
  "device_address v mem_index s = obind (mem_of v s) (\<lambda>m. c_nth (device_ptrs m) mem_index)"

text \<open>A scalar is copied where the buffer stands, without alignment.\<close>

definition put_scalar :: "pocl_argument \<Rightarrow> arg_buffer \<Rightarrow> arg_buffer outcome" where
  "put_scalar ag b =
     (case arg_value ag of
        Arg_bytes bs \<Rightarrow> obind (c_take (unat (arg_size ag)) bs) (\<lambda>bs. put_args bs b)
      | Arg_null \<Rightarrow> if arg_size ag = 0 then Ret b else Undef
      | Arg_freed \<Rightarrow> Undef)"

text \<open>One turn of the loop over the arguments. \<open>addr\<close> is the address of the block of an argument's value.\<close>

definition marshal_arg ::
  "cl_kernel \<Rightarrow> pocl_argument list \<Rightarrow> (nat \<Rightarrow> size_t) \<Rightarrow> nat \<Rightarrow> rt \<Rightarrow> nat \<Rightarrow> arg_buffer \<Rightarrow> arg_buffer outcome" where
  "marshal_arg k arguments addr mem_index s i b =
     obind (c_nth arguments i) (\<lambda>ag.
     obind (deref (arg_is_local k)) (\<lambda>is_local.
     obind (c_nth is_local i) (\<lambda>loc.
     if loc then
       obind (put_pointer (local_pointer b) b) (\<lambda>b.
       obind (deref (dyn_arguments k)) (\<lambda>dyn. obind (c_nth dyn i) (\<lambda>d.
       Ret (b\<lparr>local_pointer := local_pointer b + arg_size ag,
              group_segment_size := group_segment_size b + ucast (arg_size d)\<rparr>))))
     else obind (c_nth (arg_is_pointer k) i) (\<lambda>is_pointer.
     if is_pointer then
       (if arg_value ag = Arg_null then put_pointer 0 b
        else obind (device_address (arg_value ag) mem_index s) (\<lambda>p. put_pointer p b))
     else obind (c_nth (arg_is_image k) i) (\<lambda>is_img.
     if is_img then obind (mem_of (arg_value ag) s) (\<lambda>m. put_pointer (image_handle m) b)
     else obind (c_nth (arg_is_struct k) i) (\<lambda>is_struct.
     if is_struct then put_pointer (addr i) b
     else put_scalar ag b))))))"

text \<open>The variant for one kernel of a benchmark, whose first argument is a structure the search of the source does not
  see. It works on the arguments of the kernel, not on those of the launch, and all local arrays get addresses eight bytes apart.\<close>

definition marshal_vega ::
  "cl_kernel \<Rightarrow> (nat \<Rightarrow> size_t) \<Rightarrow> nat \<Rightarrow> rt \<Rightarrow> nat \<Rightarrow> arg_buffer \<Rightarrow> arg_buffer outcome" where
  "marshal_vega k addr mem_index s i b =
     obind (c_nth (arg_is_pointer k) i) (\<lambda>is_pointer.
     obind (deref (dyn_arguments k)) (\<lambda>dyn. obind (c_nth dyn i) (\<lambda>ag.
     if is_pointer then
       (if arg_value ag = Arg_null
        then obind (put_pointer (local_pointer b) b) (\<lambda>b.
             Ret (b\<lparr>local_pointer := local_pointer b + 8, group_segment_size := group_segment_size b + ucast (arg_size ag)\<rparr>))
        else obind (device_address (arg_value ag) mem_index s) (\<lambda>p. put_pointer p b))
     else obind (c_nth (arg_is_struct k) i) (\<lambda>is_struct.
     if is_struct then put_args (le_bytes 8 (addr i)) b else put_scalar ag b))))"

text \<open>The space for the arguments the compiler has put before those of the source is the difference of two \<open>unsigned\<close>.\<close>

definition marshal_args ::
  "cl_kernel \<Rightarrow> hsa_code_descriptor \<Rightarrow> pocl_argument list \<Rightarrow> (nat \<Rightarrow> size_t) \<Rightarrow> (nat \<Rightarrow> size_t) \<Rightarrow> nat \<Rightarrow> rt \<Rightarrow> arg_buffer outcome" where
  "marshal_args k desc arguments addr dyn_addr mem_index s =
     (let b = \<lparr>args = replicate (unat (kernarg_segment_byte_size desc)) 0,
               args_pointer = 8 * unat (of_nat (hsaArgCount k) - of_nat (num_args k) :: 32 word),
               local_pointer = ucast (workgroup_group_segment_byte_size desc),
               group_segment_size = workgroup_group_segment_byte_size desc\<rparr> in
      if num_args k = 0 then Ret b
      else if k_name k = ''calPriceVega''
      then obind (put_args (le_bytes 8 (dyn_addr 0)) b) (oiter (marshal_vega k dyn_addr mem_index s) [1..<num_args k])
      else oiter (marshal_arg k arguments addr mem_index s) [0..<num_args k] b)"

section \<open>The dispatch\<close>

record hsa_dispatch_packet =
  dimensions :: "2 word"
  workgroup_size :: "16 word \<times> 16 word \<times> 16 word"
  grid_size :: "32 word \<times> 32 word \<times> 32 word"
  packet_private_segment_size :: "32 word"
  packet_group_segment_size :: "32 word"
  kernel_object_address :: "64 word"
  kernarg :: "byte list"

text \<open>The sizes of the grid are cut to 16 bits before they are stored in 32.\<close>

definition dispatch_packet :: "pocl_context \<Rightarrow> hsa_code_descriptor \<Rightarrow> arg_buffer \<Rightarrow> hsa_dispatch_packet" where
  "dispatch_packet c desc b =
     (let u16 = (\<lambda>x. ucast x :: 16 word) in
      \<lparr>dimensions = of_nat (work_dim c),
       workgroup_size = (u16 (fst3 (local_size c)), u16 (snd3 (local_size c)), u16 (thd3 (local_size c))),
       grid_size = (ucast (u16 (fst3 (global_size c))), ucast (u16 (snd3 (global_size c))), ucast (u16 (thd3 (global_size c)))),
       packet_private_segment_size = workitem_private_segment_byte_size desc,
       packet_group_segment_size = group_segment_size b,
       kernel_object_address = code_handle desc,
       kernarg = args b\<rparr>)"

text \<open>The first GPU of the context; without one the index stays unset.\<close>

fun gpu_index :: "ptr option list \<Rightarrow> rt \<Rightarrow> nat outcome" where
  "gpu_index [] s = Undef"
| "gpu_index (d # ds) s =
     obind (deref d) (\<lambda>d. obind (deref (devices s d)) (\<lambda>dev.
     if has (dev_type dev) CL_DEVICE_TYPE_GPU then Ret (dev_id dev) else gpu_index ds s))"

text \<open>The GPU: whether the execution of a packet ends without a failure, and the memory it leaves, which a kernel that
  fails may have written to as well. After a failure the runtime of HSA is shut down and the call returns.\<close>

type_synonym gpu = "hsa_dispatch_packet \<Rightarrow> memory \<Rightarrow> bool \<times> memory"

text \<open>The region for the arguments, its allocation and registration, the dispatch, and the end of the buffer.\<close>

definition run_packet :: "env \<Rightarrow> gpu \<Rightarrow> hsa_dispatch_packet \<Rightarrow> rt \<Rightarrow> rt outcome" where
  "run_packet env gpu aql s =
     obind (hsa_call env s) (\<lambda>s. obind (hsa_call env s) (\<lambda>s. obind (hsa_call env s) (\<lambda>s.
     case gpu aql (ram s) of
       (False, m) \<Rightarrow> Ret (s\<lparr>ram := m\<rparr>)
     | (True, m) \<Rightarrow> hsa_call env (s\<lparr>ram := m\<rparr>))))"

definition pocl_hsa_run ::
  "env \<Rightarrow> gpu \<Rightarrow> (nat \<Rightarrow> size_t) \<Rightarrow> (nat \<Rightarrow> size_t) \<Rightarrow> nat \<Rightarrow> command_run \<Rightarrow> rt \<Rightarrow> rt outcome" where
  "pocl_hsa_run env gpu addr dyn_addr data c s =
     obind (deref (kernels s (run_kernel c))) (\<lambda>k.
     obind (c_assert (data \<noteq> 0)) (\<lambda>_.
     obind (deref (contexts s (k_context k))) (\<lambda>ctx.
     obind (gpu_index (ctx_devices ctx) s) (\<lambda>mem_index.
     obind (hsa_call env s) (\<lambda>s.
     obind (deref (hsaCodeDescriptor k)) (\<lambda>desc.
     case new_obj env s of (block, s) \<Rightarrow>
     if block = NULL \<and> kernarg_segment_byte_size desc > 0 then Undef
     else obind (marshal_args k desc (run_arguments c) addr dyn_addr mem_index s) (\<lambda>b.
     run_packet env gpu (dispatch_packet (pc c) desc b) s)))))))"

end
