(* ===== verification/Hsa_Claims.thy ===== *)
theory Hsa_Claims
  imports Hsa Queue_Claims
begin

text \<open>
  Properties of the HSA driver: filling memory, the layout of the argument buffer, the areas of local
  memory, and the dispatch packet.
\<close>

section \<open>Filling\<close>

lemma store_spec:
  assumes "mapped m p (length bs)" "length bs \<le> 2 ^ 64"
  shows "\<exists>m'. store m p bs = Ret m' \<and> (\<forall>i < length bs. bytes m' (p + of_nat i) = Some (bs ! i)) \<and>
    (\<forall>a. \<not> in_range p (length bs) a \<longrightarrow> bytes m' a = bytes m a) \<and>
    (\<forall>a. bytes m a \<noteq> None \<longrightarrow> bytes m' a \<noteq> None) \<and> blocks m' = blocks m \<and> regions m' = regions m"
proof -
  have "unat (of_nat i :: size_t) = i" if "i < length bs" for i
    using that assms(2) by (simp add: unat_of_nat take_bit_nat_eq_self)
  then show ?thesis using assms by (auto simp: store_def in_range_offset)
qed

lemma beyond_range:
  assumes "i < n" "n + k \<le> 2 ^ 64"
  shows "\<not> in_range (p + of_nat n) k (p + of_nat i)"
proof (cases "k = 0")
  case False
  have "(p + of_nat i) - (p + of_nat n) = (of_nat (2 ^ 64 - (n - i)) :: size_t)"
  proof -
    have "(of_nat (2 ^ 64 - (n - i)) :: size_t) = of_nat (2 ^ 64) - of_nat (n - i)"
      using assms by (intro of_nat_diff) simp
    also have "\<dots> = - (of_nat n - of_nat i)" using assms(1) by (simp add: of_nat_diff)
    finally show ?thesis by simp
  qed
  moreover have "2 ^ 64 - (n - i) < 2 ^ 64" using assms by simp
  ultimately have "unat ((p + of_nat i) - (p + of_nat n)) = 2 ^ 64 - (n - i)"
    by (simp only: unat_of_nat) (simp add: take_bit_nat_eq_self)
  then show ?thesis using assms by (simp add: in_range_def)
qed (simp add: in_range_def)

lemma fill_loop_spec:
  assumes "mapped m p (n * length pat)" "n * length pat \<le> 2 ^ 64" "pat \<noteq> []"
  shows "\<exists>m'. fill_loop n pat p m = Ret m' \<and>
    (\<forall>i < n * length pat. bytes m' (p + of_nat i) = Some (pat ! (i mod length pat))) \<and>
    (\<forall>a. \<not> in_range p (n * length pat) a \<longrightarrow> bytes m' a = bytes m a) \<and> blocks m' = blocks m \<and> regions m' = regions m"
  using assms(1,2)
proof (induction n arbitrary: p m)
  case (Suc n)
  let ?k = "length pat"
  have le: "?k + n * ?k \<le> 2 ^ 64" "?k \<le> 2 ^ 64" using Suc.prems(2) by simp_all
  have "mapped m p ?k" using Suc.prems(1) by (simp add: mapped_iff)
  then obtain m1 where m1: "store m p pat = Ret m1" "\<forall>i < ?k. bytes m1 (p + of_nat i) = Some (pat ! i)"
    "\<forall>a. \<not> in_range p ?k a \<longrightarrow> bytes m1 a = bytes m a" "\<forall>a. bytes m a \<noteq> None \<longrightarrow> bytes m1 a \<noteq> None"
    "blocks m1 = blocks m" "regions m1 = regions m"
    using store_spec [of m p pat] le(2) by blast
  let ?q = "p + of_nat ?k"
  have q: "?q + of_nat i = p + of_nat (?k + i)" for i by simp
  have "bytes m1 (?q + of_nat i) \<noteq> None" if "i < n * ?k" for i
  proof -
    have "?k + i < Suc n * ?k" using that by simp
    then have "bytes m (p + of_nat (?k + i)) \<noteq> None" using Suc.prems(1) unfolding mapped_iff by blast
    then show ?thesis unfolding q using m1(4) by blast
  qed
  then have "mapped m1 ?q (n * ?k)" unfolding mapped_iff by blast
  then obtain m2 where m2: "fill_loop n pat ?q m1 = Ret m2"
    "\<forall>i < n * ?k. bytes m2 (?q + of_nat i) = Some (pat ! (i mod ?k))"
    "\<forall>a. \<not> in_range ?q (n * ?k) a \<longrightarrow> bytes m2 a = bytes m1 a" "blocks m2 = blocks m1" "regions m2 = regions m1"
    using Suc.IH [of m1 ?q] le(1) by auto
  have "bytes m2 (p + of_nat i) = Some (pat ! (i mod ?k))" if "i < Suc n * ?k" for i
  proof (cases "i < ?k")
    case True
    then show ?thesis using m1(2) m2(3) beyond_range [OF True le(1)] by simp
  next
    case False
    then have "i - ?k < n * ?k" using that by simp
    then have "bytes m2 (p + of_nat (?k + (i - ?k))) = Some (pat ! ((i - ?k) mod ?k))" using m2(2) unfolding q by blast
    moreover have "?k + (i - ?k) = i" using False by simp
    ultimately show ?thesis using False by (simp only: le_mod_geq not_less)
  qed
  moreover have "bytes m2 a = bytes m a" if "\<not> in_range p (Suc n * ?k) a" for a
  proof -
    have "\<not> in_range p ?k a" using that by (simp add: in_range_def)
    moreover have "\<not> in_range ?q (n * ?k) a"
    proof
      assume r: "in_range ?q (n * ?k) a"
      have "a - p = (a - ?q) + of_nat ?k" by simp
      then have "unat (a - p) \<le> unat (a - ?q) + unat (of_nat ?k :: size_t)"
        by (simp only: unat_word_ariths(1) mod_less_eq_dividend)
      also have "\<dots> \<le> unat (a - ?q) + ?k" by (simp add: unat_of_nat take_bit_nat_less_eq_self)
      finally have "unat (a - p) \<le> unat (a - ?q) + ?k" .
      then show False using that r by (simp add: in_range_def)
    qed
    ultimately show ?thesis using m1(3) m2(3) by simp
  qed
  ultimately show ?case using m1 m2 by simp
qed simp

text \<open>Filling memory on an HSA device repeats the pattern over the whole patterns that fit in the range, and changes
  nothing else.\<close>

theorem hsa_fill_correct:
  assumes "pat \<noteq> []" "unat cb div length pat < 2 ^ 31" "mapped m p (unat cb)"
  shows "\<exists>m'. pocl_hsa_fill m pat p cb = Ret m' \<and>
    (\<forall>i < unat cb div length pat * length pat. bytes m' (p + of_nat i) = Some (pat ! (i mod length pat))) \<and>
    (\<forall>a. \<not> in_range p (unat cb div length pat * length pat) a \<longrightarrow> bytes m' a = bytes m a)"
proof -
  let ?n = "unat cb div length pat"
  have le: "?n * length pat \<le> unat cb" by simp
  then have "mapped m p (?n * length pat)" using assms(3) unfolding mapped_iff by (meson less_le_trans)
  moreover have "?n * length pat \<le> 2 ^ 64" using le unat_le_64 [of cb] by linarith
  ultimately show ?thesis using fill_loop_spec [of m p ?n pat] assms(1,2) by (auto simp: pocl_hsa_fill_def)
qed

theorem hsa_fill_correct_witness:
  "\<exists>m'. pocl_hsa_fill demo_memory [1, 2] 0x1000 7 = Ret m' \<and> bytes m' 0x1003 = Some 2 \<and> bytes m' 0x1006 = Some 6"
proof -
  have "mapped demo_memory 0x1000 (unat (7 :: size_t))"
    by (simp add: mapped_def demo_memory_def in_range_def upt_rec)
  moreover have n: "length [1, 2 :: byte] = 2" "unat (7 :: size_t) div 2 = 3" by simp_all
  ultimately obtain m' where m': "pocl_hsa_fill demo_memory [1, 2] 0x1000 7 = Ret m'"
      "\<forall>i < 6. bytes m' (0x1000 + of_nat i) = Some ([1, 2] ! (i mod 2))"
      "\<forall>a. \<not> in_range 0x1000 6 a \<longrightarrow> bytes m' a = bytes demo_memory a"
    using hsa_fill_correct [where pat = "[1, 2]" and cb = 7 and m = demo_memory and p = "0x1000"]
    unfolding n by auto
  have "bytes m' (0x1000 + of_nat 3) = Some 2" using m'(2) [rule_format, of 3] by simp
  moreover have "bytes m' 0x1006 = Some 6" using m'(3) by (simp add: in_range_def demo_memory_def)
  ultimately show ?thesis using m'(1) by simp
qed

section \<open>The layout of the argument buffer\<close>

text \<open>What one argument adds to the buffer: bytes at the next multiple of eight, or at the next byte.\<close>

datatype slot = Aligned "byte list" | Packed "byte list"

fun slot_bytes :: "slot \<Rightarrow> byte list" where
  "slot_bytes (Aligned bs) = bs"
| "slot_bytes (Packed bs) = bs"

fun slot_place :: "slot \<Rightarrow> nat \<Rightarrow> nat" where
  "slot_place (Aligned bs) off = (off + 7) div 8 * 8"
| "slot_place (Packed bs) off = off"

fun extent :: "nat \<Rightarrow> slot list \<Rightarrow> nat" where
  "extent off [] = off"
| "extent off (sl # ss) = extent (slot_place sl off + length (slot_bytes sl)) ss"

definition arg_place :: "nat \<Rightarrow> slot list \<Rightarrow> nat \<Rightarrow> nat" where
  "arg_place off slots i = slot_place (slots ! i) (extent off (take i slots))"

text \<open>The address in local memory for an argument: after the kernel's own variables and the arrays of the earlier
  arguments.\<close>

definition local_place :: "size_t \<Rightarrow> bool list \<Rightarrow> pocl_argument list \<Rightarrow> nat \<Rightarrow> size_t" where
  "local_place base ls arguments i = base + sum_list (map (\<lambda>j. if ls ! j then arg_size (arguments ! j) else 0) [0..<i])"

text \<open>What an argument is for the GPU: the address of its array in local memory, the device's address of its buffer, the
  handle of its image, the address of its structure, or its bytes.\<close>

definition arg_slot ::
  "cl_kernel \<Rightarrow> pocl_argument list \<Rightarrow> (nat \<Rightarrow> size_t) \<Rightarrow> nat \<Rightarrow> rt \<Rightarrow> size_t \<Rightarrow> bool list \<Rightarrow> nat \<Rightarrow> slot outcome" where
  "arg_slot k arguments addr mem_index s base ls i =
     (let ag = arguments ! i; pointer = (\<lambda>p. Ret (Aligned (le_bytes 8 p))) in
      if ls ! i then pointer (local_place base ls arguments i)
      else if arg_is_pointer k ! i then
        (if arg_value ag = Arg_null then pointer 0 else obind (device_address (arg_value ag) mem_index s) pointer)
      else if arg_is_image k ! i then obind (mem_of (arg_value ag) s) (\<lambda>m. pointer (image_handle m))
      else if arg_is_struct k ! i then pointer (addr i)
      else case arg_value ag of
             Arg_bytes bs \<Rightarrow> obind (c_take (unat (arg_size ag)) bs) (\<lambda>bs. Ret (Packed bs))
           | Arg_null \<Rightarrow> if arg_size ag = 0 then Ret (Packed []) else Undef
           | Arg_freed \<Rightarrow> Undef)"

definition put_slot :: "slot \<Rightarrow> arg_buffer \<Rightarrow> arg_buffer" where
  "put_slot sl b =
     (let p = slot_place sl (args_pointer b); bs = slot_bytes sl in
      b\<lparr>args := take p (args b) @ bs @ drop (p + length bs) (args b), args_pointer := p + length bs\<rparr>)"

lemma slot_place_ge: "off \<le> slot_place sl off"
proof (cases sl)
  case (Aligned bs)
  have "off \<le> (off + 7) div 8 * 8" by presburger
  then show ?thesis using Aligned by simp
qed simp

lemma extent_ge: "off \<le> extent off ss"
proof (induction ss arbitrary: off)
  case (Cons sl ss)
  then show ?case using slot_place_ge [of off sl] by (metis add_leD1 extent.simps(2) le_trans)
qed simp

lemma extent_append: "extent off (ss @ ts) = extent (extent off ss) ts"
  by (induction ss arbitrary: off) simp_all

lemma extent_Suc:
  "i < length slots \<Longrightarrow> extent off (take (Suc i) slots) = arg_place off slots i + length (slot_bytes (slots ! i))"
  by (simp add: take_Suc_conv_app_nth extent_append arg_place_def)

lemma extent_mono: "i \<le> j \<Longrightarrow> extent off (take i slots) \<le> extent off (take j slots)"
  by (metis extent_append extent_ge take_add le_Suc_ex)

lemma arg_place_apart:
  assumes "i < j" "j < length slots"
  shows "arg_place off slots i + length (slot_bytes (slots ! i)) \<le> arg_place off slots j"
proof -
  have "arg_place off slots i + length (slot_bytes (slots ! i)) = extent off (take (Suc i) slots)" using assms by (simp add: extent_Suc)
  also have "\<dots> \<le> extent off (take j slots)" using assms(1) by (intro extent_mono) simp
  also have "\<dots> \<le> arg_place off slots j" by (simp add: arg_place_def slot_place_ge)
  finally show ?thesis .
qed

lemma put_args_slot:
  assumes "slot_place sl (args_pointer b) + length (slot_bytes sl) \<le> length (args b)"
  shows "put_args (slot_bytes sl) (b\<lparr>args_pointer := slot_place sl (args_pointer b)\<rparr>) = Ret (put_slot sl b)"
  using assms by (simp add: put_args_def put_slot_def Let_def)

lemma put_slot_empty: "put_slot (Packed []) b = b"
  by (simp add: put_slot_def)

lemma align_args_place: "align_args b = b\<lparr>args_pointer := (args_pointer b + 7) div 8 * 8\<rparr>"
proof -
  have "n mod 8 \<noteq> 0 \<Longrightarrow> n + (8 - n mod 8) = (n + 7) div 8 * 8" "n mod 8 = 0 \<Longrightarrow> (n + 7) div 8 * 8 = n" for n :: nat
    by presburger+
  then show ?thesis by (simp add: align_args_def Let_def)
qed

lemma put_pointer_slot:
  assumes "slot_place (Aligned (le_bytes 8 p)) (args_pointer b) + 8 \<le> length (args b)"
  shows "put_pointer p b = Ret (put_slot (Aligned (le_bytes 8 p)) b)"
  using put_args_slot [of "Aligned (le_bytes 8 p)" b] assms by (simp add: put_pointer_def align_args_place)

text \<open>The tables of a kernel for a GPU have an entry for every parameter, and the launch a value.\<close>

definition gpu_kernel :: "cl_kernel \<Rightarrow> pocl_argument list \<Rightarrow> bool list \<Rightarrow> pocl_argument list \<Rightarrow> bool" where
  "gpu_kernel k arguments ls dyn \<longleftrightarrow> arg_is_local k = Some ls \<and> dyn_arguments k = Some dyn \<and>
     length ls = num_args k \<and> num_args k \<le> length dyn \<and> num_args k \<le> length arguments \<and>
     length (arg_is_pointer k) = num_args k \<and> length (arg_is_image k) = num_args k \<and> length (arg_is_struct k) = num_args k"

definition group_size :: "32 word \<Rightarrow> bool list \<Rightarrow> pocl_argument list \<Rightarrow> nat \<Rightarrow> 32 word" where
  "group_size base ls dyn i = base + sum_list (map (\<lambda>j. if ls ! j then ucast (arg_size (dyn ! j)) else 0) [0..<i])"

lemma local_place_Suc:
  "local_place base ls arguments (Suc i) = local_place base ls arguments i + (if ls ! i then arg_size (arguments ! i) else 0)"
  by (simp add: local_place_def)

lemma group_size_Suc: "group_size base ls dyn (Suc i) = group_size base ls dyn i + (if ls ! i then ucast (arg_size (dyn ! i)) else 0)"
  by (simp add: group_size_def)

lemma marshal_arg_slot:
  assumes "gpu_kernel k arguments ls dyn" "i < num_args k" "arg_slot k arguments addr mem_index s base ls i = Ret sl"
    and "local_pointer b = local_place base ls arguments i"
    and "slot_place sl (args_pointer b) + length (slot_bytes sl) \<le> length (args b)"
  shows "marshal_arg k arguments addr mem_index s i b = Ret (let b' = put_slot sl b in
    if ls ! i then b'\<lparr>local_pointer := local_pointer b + arg_size (arguments ! i),
                      group_segment_size := group_segment_size b + ucast (arg_size (dyn ! i))\<rparr> else b')"
proof -
  have keeps: "local_pointer (put_slot sl b) = local_pointer b" "group_segment_size (put_slot sl b) = group_segment_size b"
    by (simp_all add: put_slot_def Let_def)
  have packed: "put_args (slot_bytes sl) b = Ret (put_slot sl b)" if "sl = Packed bs" for bs
    using put_args_slot [OF assms(5)] that by simp
  have pointer: "put_pointer p b = Ret (put_slot sl b)" if "sl = Aligned (le_bytes 8 p)" for p
    using put_pointer_slot [of p b] assms(5) that by simp
  have tables: "c_nth arguments i = Ret (arguments ! i)" "arg_is_local k = Some ls" "c_nth ls i = Ret (ls ! i)"
    "dyn_arguments k = Some dyn" "c_nth dyn i = Ret (dyn ! i)" "c_nth (arg_is_pointer k) i = Ret (arg_is_pointer k ! i)"
    "c_nth (arg_is_image k) i = Ret (arg_is_image k ! i)" "c_nth (arg_is_struct k) i = Ret (arg_is_struct k ! i)"
    using assms(1,2) by (simp_all add: gpu_kernel_def c_nth_def)
  show ?thesis
    using assms(3,4) pointer packed unfolding marshal_arg_def arg_slot_def tables
    by (auto simp: tables keeps Let_def put_scalar_def put_slot_empty obind_Ret_iff split: if_splits arg_mem.splits)
qed

text \<open>The buffer after the first arguments.\<close>

definition filled ::
  "nat \<Rightarrow> slot list \<Rightarrow> size_t \<Rightarrow> 32 word \<Rightarrow> bool list \<Rightarrow> pocl_argument list \<Rightarrow> pocl_argument list \<Rightarrow> nat \<Rightarrow> nat \<Rightarrow> arg_buffer \<Rightarrow> bool" where
  "filled off slots base g ls arguments dyn n i b \<longleftrightarrow>
     length (args b) = n \<and> args_pointer b = extent off (take i slots) \<and>
     local_pointer b = local_place base ls arguments i \<and> group_segment_size b = group_size g ls dyn i \<and>
     (\<forall>j < i. take (length (slot_bytes (slots ! j))) (drop (arg_place off slots j) (args b)) = slot_bytes (slots ! j)) \<and>
     (\<forall>x < off. args b ! x = 0)"

lemma take_drop_before:
  assumes "p + l \<le> q" "q \<le> length xs"
  shows "take l (drop p (take q xs @ ys)) = take l (drop p xs)"
  using assms by (simp add: drop_take)

lemma filled_step:
  assumes "filled off slots base g ls arguments dyn n i b" "gpu_kernel k arguments ls dyn" "i < num_args k"
    and "length slots = num_args k" "arg_slot k arguments addr mem_index s base ls i = Ret (slots ! i)" "extent off slots \<le> n"
  shows "\<exists>b'. marshal_arg k arguments addr mem_index s i b = Ret b' \<and> filled off slots base g ls arguments dyn n (Suc i) b'"
proof -
  let ?sl = "slots ! i" and ?p = "arg_place off slots i"
  have i: "i < length slots" using assms(3,4) by simp
  have f: "length (args b) = n" "local_pointer b = local_place base ls arguments i" "group_segment_size b = group_size g ls dyn i"
    "\<forall>j < i. take (length (slot_bytes (slots ! j))) (drop (arg_place off slots j) (args b)) = slot_bytes (slots ! j)"
    "\<forall>x < off. args b ! x = 0" and p: "slot_place ?sl (args_pointer b) = ?p"
    using assms(1) by (simp_all add: filled_def arg_place_def)
  have put: "put_slot ?sl b = b\<lparr>args := take ?p (args b) @ slot_bytes ?sl @ drop (?p + length (slot_bytes ?sl)) (args b),
      args_pointer := ?p + length (slot_bytes ?sl)\<rparr>"
    by (simp add: put_slot_def Let_def p)
  have "extent off (take (Suc i) slots) \<le> extent off (take (length slots) slots)" using i by (intro extent_mono) simp
  then have room: "?p + length (slot_bytes ?sl) \<le> n" using assms(6) by (simp add: extent_Suc [OF i])
  have "off \<le> ?p" using extent_ge [of off "take i slots"] slot_place_ge le_trans unfolding arg_place_def by blast
  moreover have "take (length (slot_bytes (slots ! j))) (drop (arg_place off slots j) (args (put_slot ?sl b))) = slot_bytes (slots ! j)"
    if "j < Suc i" for j
  proof (cases "j = i")
    case True
    then show ?thesis using room f(1) by (simp add: put)
  next
    case False
    then have "j < i" using that by simp
    then have "take (length (slot_bytes (slots ! j))) (drop (arg_place off slots j) (args (put_slot ?sl b))) =
        take (length (slot_bytes (slots ! j))) (drop (arg_place off slots j) (args b))"
      using take_drop_before [of "arg_place off slots j" _ ?p "args b"] arg_place_apart [OF _ i, of j off] room f(1)
      by (simp add: put)
    then show ?thesis using f(4) \<open>j < i\<close> by simp
  qed
  ultimately have "filled off slots base g ls arguments dyn n (Suc i) (let b' = put_slot ?sl b in
    if ls ! i then b'\<lparr>local_pointer := local_pointer b + arg_size (arguments ! i),
                      group_segment_size := group_segment_size b + ucast (arg_size (dyn ! i))\<rparr> else b')"
    using f room unfolding filled_def extent_Suc [OF i] local_place_Suc group_size_Suc put
    by (simp add: Let_def nth_append)
  then show ?thesis using marshal_arg_slot [OF assms(2,3,5), of b] f(1,2) room p by auto
qed

lemma filled_all:
  assumes "filled off slots base g ls arguments dyn n 0 b" "gpu_kernel k arguments ls dyn" "length slots = num_args k"
    and "\<forall>i < num_args k. arg_slot k arguments addr mem_index s base ls i = Ret (slots ! i)" "extent off slots \<le> n" "l \<le> num_args k"
  shows "\<exists>b'. oiter (marshal_arg k arguments addr mem_index s) [0..<l] b = Ret b' \<and> filled off slots base g ls arguments dyn n l b'"
  using assms(6)
proof (induction l)
  case 0
  then show ?case using assms(1) by simp
next
  case (Suc l)
  then obtain b' where b': "oiter (marshal_arg k arguments addr mem_index s) [0..<l] b = Ret b'" "filled off slots base g ls arguments dyn n l b'"
    by auto
  have "l < num_args k" using Suc.prems by simp
  then obtain b2 where "marshal_arg k arguments addr mem_index s l b' = Ret b2" "filled off slots base g ls arguments dyn n (Suc l) b2"
    using filled_step [OF b'(2) assms(2) _ assms(3) _ assms(5)] assms(4) by blast
  then show ?case using b'(1) by (simp add: oiter_append)
qed

text \<open>The bytes in front are for the arguments the compiler has added.\<close>

definition hidden_bytes :: "cl_kernel \<Rightarrow> nat" where
  "hidden_bytes k = 8 * (hsaArgCount k - num_args k)"

definition launchable ::
  "cl_kernel \<Rightarrow> hsa_code_descriptor \<Rightarrow> pocl_argument list \<Rightarrow> (nat \<Rightarrow> size_t) \<Rightarrow> nat \<Rightarrow> rt \<Rightarrow>
   bool list \<Rightarrow> pocl_argument list \<Rightarrow> slot list \<Rightarrow> bool" where
  "launchable k desc arguments addr mem_index s ls dyn slots \<longleftrightarrow>
     k_name k \<noteq> ''calPriceVega'' \<and> gpu_kernel k arguments ls dyn \<and>
     num_args k \<le> hsaArgCount k \<and> hsaArgCount k < 2 ^ 32 \<and> length slots = num_args k \<and>
     (\<forall>i < num_args k. arg_slot k arguments addr mem_index s (ucast (workgroup_group_segment_byte_size desc)) ls i = Ret (slots ! i)) \<and>
     extent (hidden_bytes k) slots \<le> unat (kernarg_segment_byte_size desc)"

lemma marshal_args_filled:
  assumes "launchable k desc arguments addr mem_index s ls dyn slots"
  shows "\<exists>b. marshal_args k desc arguments addr dyn_addr mem_index s = Ret b \<and>
    filled (hidden_bytes k) slots (ucast (workgroup_group_segment_byte_size desc)) (workgroup_group_segment_byte_size desc)
      ls arguments dyn (unat (kernarg_segment_byte_size desc)) (num_args k) b"
proof -
  let ?n = "unat (kernarg_segment_byte_size desc)" and ?g = "workgroup_group_segment_byte_size desc" and ?off = "hidden_bytes k"
  let ?b = "\<lparr>args = replicate ?n 0, args_pointer = ?off, local_pointer = ucast ?g, group_segment_size = ?g\<rparr>"
  have k: "num_args k \<le> hsaArgCount k" "hsaArgCount k < 2 ^ 32" "k_name k \<noteq> ''calPriceVega''" "gpu_kernel k arguments ls dyn"
    "length slots = num_args k" "extent ?off slots \<le> ?n"
    "\<forall>i < num_args k. arg_slot k arguments addr mem_index s (ucast ?g) ls i = Ret (slots ! i)"
    using assms by (simp_all add: launchable_def)
  have "of_nat (hsaArgCount k) - of_nat (num_args k) = (of_nat (hsaArgCount k - num_args k) :: 32 word)"
    using k(1) by (simp add: of_nat_diff)
  moreover have "unat (of_nat (hsaArgCount k - num_args k) :: 32 word) = hsaArgCount k - num_args k"
    using k(2) by (simp add: unat_of_nat take_bit_nat_eq_self)
  ultimately have off: "8 * unat (of_nat (hsaArgCount k) - of_nat (num_args k) :: 32 word) = ?off"
    by (simp add: hidden_bytes_def)
  have "?off \<le> ?n" using extent_ge [of ?off slots] k(6) by linarith
  then have "filled ?off slots (ucast ?g) ?g ls arguments dyn ?n 0 ?b" by (simp add: filled_def local_place_def group_size_def)
  then show ?thesis
    using filled_all [OF _ k(4,5,7,6) order.refl] k(3) unfolding marshal_args_def off by (auto simp: Let_def)
qed

text \<open>C12. When every argument of a launch can be read and the argument segment the finalizer reports has room for
  them, \<open>pocl\_hsa\_run\<close> packs them all: the bytes in front, for the arguments the compiler has added,
  are zero, every argument's bytes are whole at its place, pointers, images and structures at multiples of eight, and
  no two places overlap.\<close>

theorem hsa_argument_layout:
  assumes "launchable k desc arguments addr mem_index s ls dyn slots"
  shows "\<exists>b. marshal_args k desc arguments addr dyn_addr mem_index s = Ret b \<and>
    length (args b) = unat (kernarg_segment_byte_size desc) \<and> (\<forall>x < hidden_bytes k. args b ! x = 0) \<and>
    (\<forall>i < num_args k. let p = arg_place (hidden_bytes k) slots i; bs = slot_bytes (slots ! i) in
       take (length bs) (drop p (args b)) = bs \<and> hidden_bytes k \<le> p \<and> p + length bs \<le> length (args b) \<and>
       (slots ! i = Aligned bs \<longrightarrow> 8 dvd p) \<and>
       (\<forall>j < i. arg_place (hidden_bytes k) slots j + length (slot_bytes (slots ! j)) \<le> p))"
proof -
  let ?off = "hidden_bytes k"
  obtain b where b: "marshal_args k desc arguments addr dyn_addr mem_index s = Ret b"
      "filled ?off slots (ucast (workgroup_group_segment_byte_size desc)) (workgroup_group_segment_byte_size desc)
        ls arguments dyn (unat (kernarg_segment_byte_size desc)) (num_args k) b"
    using marshal_args_filled [OF assms] by blast
  have len: "length slots = num_args k" "extent ?off slots \<le> length (args b)" using assms b(2) by (simp_all add: launchable_def filled_def)
  have "arg_place ?off slots i + length (slot_bytes (slots ! i)) \<le> length (args b)" if "i < num_args k" for i
    using extent_mono [of "Suc i" "length slots" ?off slots] extent_Suc [of i slots ?off] that len by simp
  moreover have "?off \<le> arg_place ?off slots i" for i
    using extent_ge [of ?off "take i slots"] slot_place_ge le_trans unfolding arg_place_def by blast
  moreover have "8 dvd arg_place ?off slots i" if "slots ! i = Aligned bs" for i bs
    using that by (simp add: arg_place_def)
  ultimately show ?thesis using b arg_place_apart [of _ _ slots ?off] len(1) by (auto simp: filled_def Let_def)
qed

text \<open>The areas of local memory.\<close>

lemma sum_list_mono_upt:
  fixes f :: "nat \<Rightarrow> nat"
  assumes "i \<le> j"
  shows "sum_list (map f [0..<i]) \<le> sum_list (map f [0..<j])"
  using assms by (metis le_add1 map_append sum_list.append upt_add_eq_append le0 le_Suc_ex)

lemma unat_sum_upt:
  fixes base :: "'a::len word"
  assumes "unat base + sum_list (map (\<lambda>j. unat (f j)) [0..<i]) < 2 ^ LENGTH('a)"
  shows "unat (base + sum_list (map f [0..<i])) = unat base + sum_list (map (\<lambda>j. unat (f j)) [0..<i])"
  using assms
proof (induction i)
  case (Suc i)
  then show ?case by (simp add: add.assoc [symmetric] unat_word_ariths(1))
qed simp

text \<open>How many bytes of local memory the first arguments take.\<close>

definition local_total :: "bool list \<Rightarrow> pocl_argument list \<Rightarrow> nat \<Rightarrow> nat" where
  "local_total ls arguments i = sum_list (map (\<lambda>j. if ls ! j then unat (arg_size (arguments ! j)) else 0) [0..<i])"

lemma local_total_mono: "i \<le> j \<Longrightarrow> local_total ls arguments i \<le> local_total ls arguments j"
  unfolding local_total_def by (rule sum_list_mono_upt)

lemma local_total_Suc: "ls ! i \<Longrightarrow> local_total ls arguments (Suc i) = local_total ls arguments i + unat (arg_size (arguments ! i))"
  by (simp add: local_total_def)

lemma unat_local_place:
  assumes "unat g + local_total ls arguments n < 2 ^ 32" "i \<le> n"
  shows "unat (local_place (ucast (g :: 32 word)) ls arguments i) = unat g + local_total ls arguments i"
proof -
  have "unat (ucast g :: size_t) = unat g"
    using unsigned_less [of g, where ?'a = nat] by (simp add: unsigned_ucast_eq take_bit_nat_eq_self)
  moreover have "unat g + local_total ls arguments i < 2 ^ 64" using local_total_mono [OF assms(2), of ls arguments] assms(1) by simp
  ultimately show ?thesis
    using unat_sum_upt [of "ucast g :: size_t" "\<lambda>j. if ls ! j then arg_size (arguments ! j) else 0" i]
    by (simp add: local_place_def local_total_def if_distrib cong: if_cong)
qed

lemma unat_group_size:
  assumes "unat g + local_total ls arguments n < 2 ^ 32" "\<forall>i < n. ls ! i \<longrightarrow> arg_size (dyn ! i) = arg_size (arguments ! i)"
  shows "unat (group_size g ls dyn n) = unat g + local_total ls arguments n"
proof -
  let ?f = "\<lambda>j. if ls ! j then ucast (arg_size (dyn ! j)) else 0 :: 32 word"
  have "unat (?f j) = (if ls ! j then unat (arg_size (arguments ! j)) else 0)" if "j < n" for j
  proof -
    have "local_total ls arguments (Suc j) \<le> local_total ls arguments n" using that by (intro local_total_mono) simp
    then have "ls ! j \<Longrightarrow> unat (arg_size (arguments ! j)) < 2 ^ 32" using assms(1) by (simp add: local_total_Suc)
    then show ?thesis using assms(2) that by (simp add: unsigned_ucast_eq take_bit_nat_eq_self)
  qed
  then have "sum_list (map (\<lambda>j. unat (?f j)) [0..<n]) = local_total ls arguments n"
    unfolding local_total_def by (intro arg_cong [of _ _ sum_list] map_cong) auto
  then show ?thesis using unat_sum_upt [of g ?f n] assms(1) by (simp add: group_size_def)
qed

text \<open>C24. The local arrays of a launch that can be packed are apart: when the sizes set on the kernel are still those of the launch and all
  fit in 32 bits, every array lies behind the kernel's own local variables and behind the arrays of the earlier
  arguments, and inside the group segment the packet asks for.\<close>

theorem hsa_local_areas:
  assumes "launchable k desc arguments addr mem_index s ls dyn slots"
    and "\<forall>i < num_args k. ls ! i \<longrightarrow> arg_size (dyn ! i) = arg_size (arguments ! i)"
    and "unat (workgroup_group_segment_byte_size desc) + local_total ls arguments (num_args k) < 2 ^ 32"
  shows "\<exists>b area. marshal_args k desc arguments addr dyn_addr mem_index s = Ret b \<and>
    (\<forall>i < num_args k. ls ! i \<longrightarrow> slots ! i = Aligned (le_bytes 8 (area i :: size_t)) \<and>
       unat (workgroup_group_segment_byte_size desc) \<le> unat (area i) \<and>
       unat (area i) + unat (arg_size (arguments ! i)) \<le> unat (packet_group_segment_size (dispatch_packet c desc b)) \<and>
       (\<forall>j < i. ls ! j \<longrightarrow> unat (area j) + unat (arg_size (arguments ! j)) \<le> unat (area i)))"
proof -
  let ?g = "workgroup_group_segment_byte_size desc" and ?lp = "local_place (ucast (workgroup_group_segment_byte_size desc)) ls arguments"
  obtain b where b: "marshal_args k desc arguments addr dyn_addr mem_index s = Ret b" "group_segment_size b = group_size ?g ls dyn (num_args k)"
    using marshal_args_filled [OF assms(1)] unfolding filled_def by blast
  have at: "slots ! i = Aligned (le_bytes 8 (?lp i))" "unat (?lp i) = unat ?g + local_total ls arguments i" if "i < num_args k" "ls ! i" for i
    using assms(1) that unat_local_place [OF assms(3), of i] by (auto simp: launchable_def arg_slot_def Let_def)
  have before: "local_total ls arguments i + unat (arg_size (arguments ! i)) \<le> local_total ls arguments j" if "ls ! i" "i < j" for i j
    using local_total_mono [of "Suc i" j ls arguments] that by (simp add: local_total_Suc)
  have "unat (packet_group_segment_size (dispatch_packet c desc b)) = unat ?g + local_total ls arguments (num_args k)"
    using unat_group_size [OF assms(3,2)] b(2) by (simp add: dispatch_packet_def Let_def)
  then show ?thesis using b(1) at before by (intro exI [of _ b] exI [of _ ?lp]) simp
qed

section \<open>The dispatch\<close>

lemma mem_of_tick: "mem_of v (s\<lparr>tick := t\<rparr>) = mem_of v s"
  by (simp add: mem_of_def)

lemma device_address_tick: "device_address v i (s\<lparr>tick := t\<rparr>) = device_address v i s"
  by (simp add: device_address_def mem_of_tick)

lemma marshal_args_tick: "marshal_args k desc arguments addr dyn_addr mem_index (s\<lparr>tick := t\<rparr>) = marshal_args k desc arguments addr dyn_addr mem_index s"
proof -
  have "marshal_arg k arguments addr mem_index (s\<lparr>tick := t\<rparr>) = marshal_arg k arguments addr mem_index s"
    "marshal_vega k dyn_addr mem_index (s\<lparr>tick := t\<rparr>) = marshal_vega k dyn_addr mem_index s"
    unfolding marshal_arg_def [abs_def] marshal_vega_def [abs_def] mem_of_tick device_address_tick by (rule refl)+
  then show ?thesis unfolding marshal_args_def by (simp only:)
qed

lemma u16_exact: "unat x < 2 ^ 16 \<Longrightarrow> unat (ucast (x :: size_t) :: 16 word) = unat x"
  by (simp add: unsigned_ucast_eq take_bit_nat_eq_self)

lemma u16_u32: "unat (ucast (y :: 16 word) :: 32 word) = unat y"
  using unsigned_less [of y, where ?'a = nat] by (simp add: unsigned_ucast_eq take_bit_nat_eq_self)

definition unat3 :: "'a::len word \<times> 'a word \<times> 'a word \<Rightarrow> nat \<times> nat \<times> nat" where
  "unat3 x = (unat (fst x), unat (fst (snd x)), unat (snd (snd x)))"

definition small3 :: "size3 \<Rightarrow> bool" where
  "small3 x \<longleftrightarrow> unat (fst3 x) < 2 ^ 16 \<and> unat (snd3 x) < 2 ^ 16 \<and> unat (thd3 x) < 2 ^ 16"

text \<open>C18. A launch on the GPU whose sizes are all below 65536 and whose arguments can be packed, when no call of HSA and no
  allocation fails: there is one packet such that the run, whatever the GPU does with a packet, leaves the memory as the
  GPU leaves it after this packet and every object as it was. The packet has the dimensions and sizes of the launch, the
  code of the kernel, the private memory its descriptor asks for and the packed arguments.\<close>

theorem hsa_run_dispatches:
  assumes "kernels s (run_kernel c) = Some k" "data \<noteq> 0" "contexts s (k_context k) = Some ctx"
    and "gpu_index (ctx_devices ctx) s = Ret mem_index" "hsaCodeDescriptor k = Some desc"
    and "\<forall>n. \<not> hsa_fails env n \<and> \<not> malloc_fails env n" "0 < tick s"
    and "launchable k desc (run_arguments c) addr mem_index s ls dyn slots"
    and "small3 (global_size (pc c))" "small3 (local_size (pc c))" "work_dim (pc c) < 4"
  shows "\<exists>p t. (\<forall>gpu. pocl_hsa_run env gpu addr dyn_addr data c s =
      (case gpu p (ram s) of (finished, m) \<Rightarrow> Ret (s\<lparr>ram := m, tick := if finished then Suc t else t\<rparr>))) \<and>
    unat3 (grid_size p) = unat3 (global_size (pc c)) \<and> unat3 (workgroup_size p) = unat3 (local_size (pc c)) \<and>
    unat (dimensions p) = work_dim (pc c) \<and> kernel_object_address p = code_handle desc \<and>
    packet_private_segment_size p = workitem_private_segment_byte_size desc \<and>
    length (kernarg p) = unat (kernarg_segment_byte_size desc) \<and>
    (\<forall>i < num_args k. take (length (slot_bytes (slots ! i))) (drop (arg_place (hidden_bytes k) slots i) (kernarg p)) = slot_bytes (slots ! i))"
proof -
  obtain b where b: "marshal_args k desc (run_arguments c) addr dyn_addr mem_index s = Ret b"
      "\<forall>i < num_args k. take (length (slot_bytes (slots ! i))) (drop (arg_place (hidden_bytes k) slots i) (args b)) = slot_bytes (slots ! i)"
      "length (args b) = unat (kernarg_segment_byte_size desc)"
    using marshal_args_filled [OF assms(8)] unfolding filled_def by blast
  let ?p = "dispatch_packet (pc c) desc b" and ?t = "tick s + 5"
  have m: "marshal_args k desc (run_arguments c) addr dyn_addr mem_index (s\<lparr>tick := t\<rparr>) = Ret b" for t
    using b(1) by (simp add: marshal_args_tick)
  have "pocl_hsa_run env gpu addr dyn_addr data c s =
      (case gpu ?p (ram s) of (finished, m) \<Rightarrow> Ret (s\<lparr>ram := m, tick := if finished then Suc ?t else ?t\<rparr>))" for gpu
    using assms(1-7) m
    by (simp add: pocl_hsa_run_def run_packet_def c_assert_def hsa_call_def new_obj_def next_tick_def numeral_eq_Suc split: prod.split bool.split)
  moreover have "unat (dimensions ?p) = work_dim (pc c)" using assms(11) by (simp add: dispatch_packet_def Let_def unat_of_nat take_bit_nat_eq_self)
  ultimately show ?thesis using assms(9,10) b(2,3)
    by (intro exI [of _ ?p] exI [of _ ?t]) (simp add: dispatch_packet_def Let_def small3_def unat3_def u16_exact u16_u32 fst3_def snd3_def thd3_def)
qed

text \<open>A launch of 65536 work-items asks the GPU for none.\<close>

lemma large_grid_is_empty:
  "global_size (pc c) = (65536, 1, 1) \<Longrightarrow> grid_size (dispatch_packet (pc c) desc b) = (0, 1, 1)"
  by (simp add: dispatch_packet_def Let_def)

text \<open>A kernel with a scalar, a buffer and a local array, for which the compiler has added one argument.\<close>

definition demo_gpu :: device where
  "demo_gpu = demo_device\<lparr>dev_type := CL_DEVICE_TYPE_GPU\<rparr>"

definition demo_gpu_args :: "pocl_argument list" where
  "demo_gpu_args = [\<lparr>arg_size = 4, arg_value = Arg_bytes [1, 2, 3, 4]\<rparr>, \<lparr>arg_size = 8, arg_value = Arg_bytes [4, 0, 0, 0, 0, 0, 0, 0]\<rparr>,
     \<lparr>arg_size = 16, arg_value = Arg_null\<rparr>]"

definition demo_descriptor :: hsa_code_descriptor where
  "demo_descriptor = \<lparr>workgroup_group_segment_byte_size = 32, kernarg_segment_byte_size = 32,
     workitem_private_segment_byte_size = 0, code_handle = 77\<rparr>"

definition demo_gpu_kernel :: cl_kernel where
  "demo_gpu_kernel = \<lparr>k_refcount = 1, function_name = ''scale'', k_name = ''scale'', num_args = 3, k_context = 2, k_program = 6,
     arg_is_pointer = [False, True, True], arg_is_local = Some [False, False, True], arg_is_image = [False, False, False],
     arg_is_sampler = [False, False, False], arg_is_struct = [False, False, False], num_locals = 0,
     reqd_wg_size = None, hsaCodeDescriptor = Some demo_descriptor, hsaArgCount = 4, dyn_arguments = Some demo_gpu_args\<rparr>"

definition demo_gpu_rt :: rt where
  "demo_gpu_rt = demo_rt\<lparr>devices := [1 \<mapsto> demo_gpu], kernels := [7 \<mapsto> demo_gpu_kernel]\<rparr>"

definition demo_slots :: "slot list" where
  "demo_slots = [Packed [1, 2, 3, 4], Aligned (le_bytes 8 (0x1010 :: size_t)), Aligned (le_bytes 8 (32 :: size_t))]"

definition demo_gpu_run :: command_run where
  "demo_gpu_run = \<lparr>tmp_dir = ''/tmp'', run_kernel = 7, arg_buffers = [4],
     pc = \<lparr>work_dim = 1, num_groups = (4, 1, 1), group_id = (0, 0, 0), global_offset = (0, 0, 0), global_size = (256, 1, 1),
           local_size = (64, 1, 1)\<rparr>, run_arguments = demo_gpu_args\<rparr>"

lemma demo_launchable:
  "launchable demo_gpu_kernel demo_descriptor demo_gpu_args (\<lambda>_. 0) 0 demo_gpu_rt [False, False, True] demo_gpu_args demo_slots"
proof -
  have "arg_slot demo_gpu_kernel demo_gpu_args (\<lambda>_. 0) 0 demo_gpu_rt (ucast (workgroup_group_segment_byte_size demo_descriptor))
      [False, False, True] i = Ret (demo_slots ! i)" if "i < 3" for i
  proof -
    have "i = 0 \<or> i = 1 \<or> i = 2" using that by auto
    then show ?thesis
      by (elim disjE; simp add: arg_slot_def demo_gpu_args_def demo_gpu_kernel_def demo_slots_def c_take_def device_address_def mem_of_def
          buffer_of_def le_word_def demo_gpu_rt_def demo_objects demo_buffer_def c_nth_def local_place_def demo_descriptor_def upt_rec)
  qed
  then show ?thesis
    by (simp add: launchable_def gpu_kernel_def demo_gpu_kernel_def demo_gpu_args_def demo_slots_def demo_descriptor_def hidden_bytes_def)
qed

lemma demo_places:
  "num_args demo_gpu_kernel = 3" "hidden_bytes demo_gpu_kernel = 8" "arg_place 8 demo_slots 0 = 8" "arg_place 8 demo_slots 1 = 16"
  "arg_place 8 demo_slots 2 = 24"
  by (simp_all add: demo_gpu_kernel_def hidden_bytes_def arg_place_def demo_slots_def take_Cons')

theorem hsa_argument_layout_witness:
  "\<exists>b. marshal_args demo_gpu_kernel demo_descriptor demo_gpu_args (\<lambda>_. 0) (\<lambda>_. 0) 0 demo_gpu_rt = Ret b \<and>
     take 4 (drop 8 (args b)) = [1, 2, 3, 4] \<and> take 8 (drop 24 (args b)) = le_bytes 8 (32 :: size_t)"
proof -
  obtain b where b: "marshal_args demo_gpu_kernel demo_descriptor demo_gpu_args (\<lambda>_. 0) (\<lambda>_. 0) 0 demo_gpu_rt = Ret b"
      "\<forall>i < 3. take (length (slot_bytes (demo_slots ! i))) (drop (arg_place 8 demo_slots i) (args b)) = slot_bytes (demo_slots ! i)"
    using hsa_argument_layout [OF demo_launchable, where dyn_addr = "\<lambda>_. 0"] unfolding demo_places Let_def by blast
  have "take 4 (drop 8 (args b)) = [1, 2, 3, 4]" "take 8 (drop 24 (args b)) = le_bytes 8 (32 :: size_t)"
    using b(2) [rule_format, of 0] b(2) [rule_format, of 2] demo_places by (simp_all add: demo_slots_def numeral_eq_Suc)
  then show ?thesis using b(1) by blast
qed

theorem hsa_local_areas_witness:
  "\<exists>b area. marshal_args demo_gpu_kernel demo_descriptor demo_gpu_args (\<lambda>_. 0) (\<lambda>_. 0) 0 demo_gpu_rt = Ret b \<and>
     demo_slots ! 2 = Aligned (le_bytes 8 (area :: size_t)) \<and>
     unat area + 16 \<le> unat (packet_group_segment_size (dispatch_packet (pc demo_gpu_run) demo_descriptor b))"
proof -
  have "unat (workgroup_group_segment_byte_size demo_descriptor) + local_total [False, False, True] demo_gpu_args (num_args demo_gpu_kernel) < 2 ^ 32"
    by (simp add: demo_descriptor_def local_total_def demo_gpu_args_def demo_places upt_rec)
  from hsa_local_areas [OF demo_launchable _ this, where dyn_addr = "\<lambda>_. 0" and c = "pc demo_gpu_run"]
  obtain b area where b: "marshal_args demo_gpu_kernel demo_descriptor demo_gpu_args (\<lambda>_. 0) (\<lambda>_. 0) 0 demo_gpu_rt = Ret b"
    "\<forall>i < 3. [False, False, True] ! i \<longrightarrow> demo_slots ! i = Aligned (le_bytes 8 (area i :: size_t)) \<and>
       unat (area i) + unat (arg_size (demo_gpu_args ! i)) \<le> unat (packet_group_segment_size (dispatch_packet (pc demo_gpu_run) demo_descriptor b))"
    unfolding demo_places by blast
  show ?thesis using b(1) b(2) [rule_format, of 2] by (auto simp: demo_gpu_args_def)
qed

theorem hsa_run_dispatches_witness:
  "\<exists>p t. (\<forall>gpu. pocl_hsa_run demo_env gpu (\<lambda>_. 0) (\<lambda>_. 0) 9 demo_gpu_run demo_gpu_rt =
       (case gpu p (ram demo_gpu_rt) of (finished, m) \<Rightarrow> Ret (demo_gpu_rt\<lparr>ram := m, tick := if finished then Suc t else t\<rparr>))) \<and>
     unat3 (grid_size p) = (256, 1, 1) \<and> unat3 (workgroup_size p) = (64, 1, 1) \<and> kernel_object_address p = 77"
proof -
  have s: "kernels demo_gpu_rt (run_kernel demo_gpu_run) = Some demo_gpu_kernel"
    "gpu_index (ctx_devices \<lparr>ctx_refcount = 2, ctx_devices = [Some 1], ctx_properties = None, valid = True\<rparr>) demo_gpu_rt = Ret 0"
    "hsaCodeDescriptor demo_gpu_kernel = Some demo_descriptor" "0 < tick demo_gpu_rt" "run_arguments demo_gpu_run = demo_gpu_args"
    "contexts demo_gpu_rt (k_context demo_gpu_kernel) = Some \<lparr>ctx_refcount = 2, ctx_devices = [Some 1], ctx_properties = None, valid = True\<rparr>"
    "ram demo_gpu_rt = demo_memory" "demo_gpu_rt\<lparr>ram := demo_memory\<rparr> = demo_gpu_rt"
    by (simp_all add: demo_gpu_rt_def demo_gpu_run_def demo_rt_def demo_gpu_kernel_def demo_gpu_def demo_device_def has_def CL_DEVICE_TYPE_GPU_def)
  have sizes: "small3 (global_size (pc demo_gpu_run))" "small3 (local_size (pc demo_gpu_run))" "work_dim (pc demo_gpu_run) < 4"
    "unat3 (global_size (pc demo_gpu_run)) = (256, 1, 1)"
    by (simp_all add: demo_gpu_run_def small3_def unat3_def fst3_def snd3_def thd3_def)
  have ok: "\<forall>n. \<not> hsa_fails demo_env n \<and> \<not> malloc_fails demo_env n" by (simp add: demo_env_def)
  have nine: "9 \<noteq> (0 :: nat)" by simp
  have loc: "unat3 (local_size (pc demo_gpu_run)) = (64, 1, 1)" "code_handle demo_descriptor = 77"
    by (simp_all add: demo_gpu_run_def unat3_def demo_descriptor_def)
  show ?thesis
    using hsa_run_dispatches [where data = 9 and dyn_addr = "\<lambda>_. 0",
        OF s(1) nine s(6,2,3) ok s(4) demo_launchable [folded s(5)] sizes(1-3)]
    unfolding sizes(4) loc by blast
qed

end
