(* ===== verification/Kernel_Lib.thy ===== *)
theory Kernel_Lib
  imports Pocl_Prelude
begin

unbundle bit_operations_syntax

text \<open>
  The integer functions of the kernel library, \<open>lib/kernel/*.cl\<close>, with the templates of \<open>lib/kernel/templates.h\<close> that
  make them for every type. An element is a word with the sign of its type; arithmetic wraps around at the width of the
  type, comparison and the shift to the right depend on the sign. A vector is the list of its elements, and an
  expression on vectors works on every element by itself. The expressions of the source are kept, with their
  test \<open>(sgtype)-1 < (sgtype)0\<close> for the sign of the type. C computes with scalars narrower than \<open>int\<close> as \<open>int\<close> and
  converts the results back; the differences the functions compare do not leave the type, so that this gives the
  same as arithmetic at the width of the type. The limits of a signed type are computed by \<open>(sgtype)1 << (bits-1)\<close> and
  \<open>min - (sgtype)1\<close>, which overflow: the C standard leaves them open, for \<open>int\<close> and wider types, and so
  leaves open what \<open>add_sat\<close>, \<open>sub_sat\<close> and \<open>mad_sat\<close> do; the model follows the wrap-around of the machines.
\<close>

section \<open>Types\<close>

datatype signedness = Signed | Unsigned

definition val :: "signedness \<Rightarrow> 'a::len word \<Rightarrow> int" where
  "val sg w = (case sg of Signed \<Rightarrow> sint w | Unsigned \<Rightarrow> uint w)"

text \<open>\<open>a < b\<close> and \<open>a >> n\<close>.\<close>

definition lt :: "signedness \<Rightarrow> 'a::len word \<Rightarrow> 'a word \<Rightarrow> bool" where
  "lt sg a b \<longleftrightarrow> val sg a < val sg b"

definition shr :: "signedness \<Rightarrow> nat \<Rightarrow> 'a::len word \<Rightarrow> 'a word" where
  "shr sg n w = (case sg of Signed \<Rightarrow> signed_drop_bit n w | Unsigned \<Rightarrow> drop_bit n w)"

text \<open>The smallest value of a type.\<close>

definition low :: "signedness \<Rightarrow> 'a::len itself \<Rightarrow> int" where
  "low sg t = (case sg of Signed \<Rightarrow> - (2 ^ (LENGTH('a) - 1)) | Unsigned \<Rightarrow> 0)"

section \<open>Saturating arithmetic\<close>

definition type_min :: "'a::len word" where
  "type_min = push_bit (LENGTH('a) - 1) 1"

definition add_sat :: "signedness \<Rightarrow> 'a::len word \<Rightarrow> 'a word \<Rightarrow> 'a word" where
  "add_sat sg a b =
     (if lt sg (- 1 :: 'a word) 0
      then let mn = type_min; mx = mn - 1 in
           if lt sg (a XOR b) 0 then a + b
           else if \<not> lt sg a 0 then (if lt sg (mx - b) a then mx else a + b)
           else (if lt sg a (mn - b) then mn else a + b)
      else let mx = NOT 0 in
           if lt sg (mx - b) a then mx else a + b)"

definition sub_sat :: "signedness \<Rightarrow> 'a::len word \<Rightarrow> 'a word \<Rightarrow> 'a word" where
  "sub_sat sg a b =
     (if lt sg (- 1 :: 'a word) 0
      then let mn = type_min; mx = mn - 1 in
           if \<not> lt sg (a XOR b) 0 then a - b
           else if \<not> lt sg a 0 then (if lt sg (mx + b) a then mx else a - b)
           else (if lt sg a (mn + b) then mn else a - b)
      else let mn = 0 in
           if lt sg a (mn + b) then mn else a - b)"

section \<open>Halves and products\<close>

definition hadd :: "signedness \<Rightarrow> 'a::len word \<Rightarrow> 'a word \<Rightarrow> 'a word" where
  "hadd sg a b = shr sg 1 a + shr sg 1 b + (a AND b AND 1)"

definition rhadd :: "signedness \<Rightarrow> 'a::len word \<Rightarrow> 'a word \<Rightarrow> 'a word" where
  "rhadd sg a b = shr sg 1 a + shr sg 1 b + ((a OR b) AND 1)"

text \<open>The macros \<open>SLO\<close> and \<open>ULO\<close>, \<open>SHI\<close> and \<open>UHI\<close>, \<open>SHI1\<close> and \<open>UHI1\<close>, \<open>SUHI\<close> (a shift of the unsigned type), and
  \<open>SCOMBINE\<close> and \<open>UCOMBINE\<close>.\<close>

definition LO :: "'a::len word \<Rightarrow> 'a word" where
  "LO x = x AND (push_bit (LENGTH('a) div 2) 1 - 1)"

definition HI :: "signedness \<Rightarrow> 'a::len word \<Rightarrow> 'a word" where
  "HI sg x = shr sg (LENGTH('a) div 2) x"

definition HI1 :: "signedness \<Rightarrow> 'a::len word \<Rightarrow> 'a word" where
  "HI1 sg x = shr sg (LENGTH('a) div 2 - 1) x"

definition UHI :: "'a::len word \<Rightarrow> 'a word" where
  "UHI x = drop_bit (LENGTH('a) div 2) x"

definition COMBINE :: "'a::len word \<Rightarrow> 'a word \<Rightarrow> 'a word" where
  "COMBINE hi lo = push_bit (LENGTH('a) div 2) hi + lo"

text \<open>The two branches of \<open>mul\_hi\<close> and of \<open>mad\_sat\<close> have the same products; \<open>S2U\<close> and \<open>U2S\<close> keep the bits.\<close>

definition mul_hi :: "signedness \<Rightarrow> 'a::len word \<Rightarrow> 'a word \<Rightarrow> 'a word" where
  "mul_hi sg a b =
     (let ah = HI sg a; al = LO a; bh = HI sg b; bl = LO b;
          ahbh = ah * bh; ahbl = ah * bl; albh = al * bh; albl = al * bl
      in ahbh + HI1 sg (hadd sg ahbl (albh + UHI albl)))"

definition mad_hi :: "signedness \<Rightarrow> 'a::len word \<Rightarrow> 'a word \<Rightarrow> 'a word \<Rightarrow> 'a word" where
  "mad_hi sg a b c = mul_hi sg a b + c"

definition mad_sat :: "signedness \<Rightarrow> 'a::len word \<Rightarrow> 'a word \<Rightarrow> 'a word \<Rightarrow> 'a word" where
  "mad_sat sg a b c =
     (let ah = HI sg a; al = LO a; bh = HI sg b; bl = LO b; ch = HI sg c; cl = LO c;
          ahbh = ah * bh; ahbl = ah * bl; albh = al * bh; albl = al * bl;
          abcl = COMBINE (ahbl + albh + ch) (albl + cl);
          abch = ahbh + HI1 sg (hadd sg (ahbl + ch) (albh + UHI (albl + cl)))
      in if lt sg (- 1 :: 'a word) 0
         then let mn = type_min; mx = mn - 1 in
              if (abch = 0 \<and> \<not> lt sg abcl 0) \<or> (abch = - 1 \<and> lt sg abcl 0) then abcl
              else if \<not> lt sg abch 0 then mx else mn
         else let mx = - 1 in if abch = 0 then abcl else mx)"

section \<open>Other functions\<close>

definition min_i :: "signedness \<Rightarrow> 'a::len word \<Rightarrow> 'a word \<Rightarrow> 'a word" where
  "min_i sg a b = (if \<not> lt sg b a then a else b)"

definition max_i :: "signedness \<Rightarrow> 'a::len word \<Rightarrow> 'a word \<Rightarrow> 'a word" where
  "max_i sg a b = (if \<not> lt sg a b then a else b)"

definition clamp_int :: "signedness \<Rightarrow> 'a::len word \<Rightarrow> 'a word \<Rightarrow> 'a word \<Rightarrow> 'a word" where
  "clamp_int sg a b c = min_i sg (max_i sg a b) c"

definition abs_i :: "signedness \<Rightarrow> 'a::len word \<Rightarrow> 'a word" where
  "abs_i sg a = (case sg of Signed \<Rightarrow> (if \<not> lt sg a 0 then a else - a) | Unsigned \<Rightarrow> a)"

definition abs_diff :: "signedness \<Rightarrow> 'a::len word \<Rightarrow> 'a word \<Rightarrow> 'a word" where
  "abs_diff sg a b =
     (if lt sg (- 1 :: 'a word) 0
      then if \<not> lt sg (a XOR b) 0 then abs_i sg (a - b) else abs_i sg a + abs_i sg b
      else abs_i sg (if lt sg b a then a - b else b - a))"

text \<open>The number of places is cut to the bits below the width.\<close>

definition rotate_i :: "'a::len word \<Rightarrow> 'a word \<Rightarrow> 'a word" where
  "rotate_i a b =
     (let count_mask = of_nat (LENGTH('a) - 1);
          left = push_bit (unat (b AND count_mask)) a;
          right = drop_bit (unat (- b AND count_mask)) a
      in left OR right)"

definition bitselect :: "'a::len word \<Rightarrow> 'a word \<Rightarrow> 'a word \<Rightarrow> 'a word" where
  "bitselect a b c = (NOT c AND a) OR (c AND b)"

text \<open>The conversions extend the high part with its sign, and the low part, which is unsigned, with zeros.\<close>

definition upsample :: "signedness \<Rightarrow> 'a::len word \<Rightarrow> 'a word \<Rightarrow> 'b::len word" where
  "upsample sg a b = push_bit LENGTH('a) (case sg of Signed \<Rightarrow> scast a | Unsigned \<Rightarrow> ucast a) OR ucast b"

section \<open>Vectors\<close>

text \<open>The templates that split a vector: \<open>lo\<close> and \<open>hi\<close> are the halves; a vector of three elements has \<open>lo\<close> with two
  elements and \<open>s2\<close>. The first argument is the function on one element, the second joins the results.\<close>

function by_halves :: "('a \<Rightarrow> 'b) \<Rightarrow> ('b \<Rightarrow> 'b \<Rightarrow> 'b) \<Rightarrow> 'a list \<Rightarrow> 'b option" where
  "by_halves f join [] = None"
| "by_halves f join [x] = Some (f x)"
| "by_halves f join (x # y # zs) =
     (let a = x # y # zs; n = (length a + 1) div 2 in
      case (by_halves f join (take n a), by_halves f join (drop n a)) of
        (Some l, Some h) \<Rightarrow> Some (join l h)
      | _ \<Rightarrow> None)"
  by pat_completeness auto

termination by_halves
  by (relation "measure (\<lambda>(f, join, a). length a)") auto

definition IMPLEMENT_BUILTIN_G_G :: "('a::len word \<Rightarrow> 'b) \<Rightarrow> 'a word list \<Rightarrow> 'b list option" where
  "IMPLEMENT_BUILTIN_G_G f a = by_halves (\<lambda>x. [f x]) (@) a"

definition any_v :: "'a::len word list \<Rightarrow> bool option" where
  "any_v a = by_halves (\<lambda>x. lt Signed x 0) (\<or>) a"

definition all_v :: "'a::len word list \<Rightarrow> bool option" where
  "all_v a = by_halves (\<lambda>x. lt Signed x 0) (\<and>) a"

text \<open>An expression on vectors.\<close>

definition IMPLEMENT_EXPR_G_GG ::
  "('a::len word \<Rightarrow> 'a word \<Rightarrow> 'a word) \<Rightarrow> 'a word list \<Rightarrow> 'a word list \<Rightarrow> 'a word list" where
  "IMPLEMENT_EXPR_G_GG f a b = map2 f a b"

definition IMPLEMENT_EXPR_G_GGG ::
  "('a::len word \<Rightarrow> 'a word \<Rightarrow> 'a word \<Rightarrow> 'a word) \<Rightarrow> 'a word list \<Rightarrow> 'a word list \<Rightarrow> 'a word list \<Rightarrow> 'a word list" where
  "IMPLEMENT_EXPR_G_GGG f a b c = map2 (\<lambda>(x, y) z. f x y z) (zip a b) c"

text \<open>A scalar is selected by a condition that is not zero, an element by the highest bit of the condition.\<close>

definition select_scalar :: "'g \<Rightarrow> 'g \<Rightarrow> 'a::len word \<Rightarrow> 'g" where
  "select_scalar a b c = (if c \<noteq> 0 then b else a)"

definition select_vector :: "'g list \<Rightarrow> 'g list \<Rightarrow> 'a::len word list \<Rightarrow> 'g list" where
  "select_vector a b c = map2 (\<lambda>(x, y) z. if lt Signed z 0 then y else x) (zip a b) c"

end
