(* ===== verification/Kernel_Lib_Claims.thy ===== *)
theory Kernel_Lib_Claims
  imports Kernel_Lib
begin

unbundle bit_operations_syntax

text \<open>
  Properties of the integer functions. The locale \<open>int_type\<close> is what they rely on in an integer type: that values stand
  for words, fill a range as wide as the words, and that the shift to the right divides. It is interpreted for both
  signs; the functions are proved once inside of it.
\<close>

section \<open>Products of halves\<close>

lemma int_div_less:
  fixes x c d :: int
  assumes "0 < c" "x < d * c"
  shows "x div c < d"
proof (rule ccontr)
  assume "\<not> x div c < d"
  then have "d * c \<le> (x div c) * c" using assms(1) by (intro mult_right_mono) auto
  also have "\<dots> \<le> x" using div_mult_mod_eq [of x c] pos_mod_sign [of c x] assms(1) by linarith
  finally show False using assms(2) by simp
qed

lemma int_div_ge:
  fixes x c d :: int
  assumes "0 < c" "d * c \<le> x"
  shows "d \<le> x div c"
  using zdiv_mono1 [OF assms(2,1)] assms(1) by simp

lemma product_of_halves:
  fixes A B D C :: int
  assumes "0 < C"
  shows "(A * B + D) div (C * C) =
    (A div C) * (B div C) + ((A div C) * (B mod C) + D div C + (A mod C) * (B div C) + ((A mod C) * (B mod C) + D mod C) div C) div C"
proof -
  define ah al bh bl dh dl where d: "ah = A div C" "al = A mod C" "bh = B div C" "bl = B mod C" "dh = D div C" "dl = D mod C"
  have "A = ah * C + al" "B = bh * C + bl" "D = dh * C + dl" by (simp_all add: d)
  then have "A * B + D = (al * bl + dl) + (ah * bh * C + (ah * bl + dh + al * bh)) * C" by (simp add: algebra_simps)
  then have "(A * B + D) div C = (ah * bh * C + (ah * bl + dh + al * bh)) + (al * bl + dl) div C"
    using assms by (simp add: div_mult_self1)
  also have "\<dots> = (ah * bl + dh + al * bh + (al * bl + dl) div C) + ah * bh * C" by simp
  finally have "(A * B + D) div C div C = ah * bh + (ah * bl + dh + al * bh + (al * bl + dl) div C) div C"
    using assms by (simp add: div_mult_self1)
  then show ?thesis using assms by (simp add: d zdiv_zmult2_eq)
qed

text \<open>Halves that are at least \<open>l\<close> and at most \<open>l + C - 1\<close>: the sums of the middle products stay in the type.\<close>

lemma middle_bounds:
  fixes l C h x e :: int
  assumes "- C < 2 * l + 1" "l \<le> 0" "1 < C" "l \<le> h" "h < l + C" "0 \<le> x" "x < C"
  shows "l * (C - 1) \<le> h * x" "h * x \<le> (l + C - 1) * (C - 1)"
proof -
  have "l * (C - 1) \<le> l * x" using assms by (intro mult_left_mono_neg) auto
  also have "\<dots> \<le> h * x" using assms by (intro mult_right_mono) auto
  finally show "l * (C - 1) \<le> h * x" .
  have "h * x \<le> (l + C - 1) * x" using assms by (intro mult_right_mono) auto
  also have "\<dots> \<le> (l + C - 1) * (C - 1)" using assms by (intro mult_left_mono) auto
  finally show "h * x \<le> (l + C - 1) * (C - 1)" .
qed

lemma middle_sum:
  fixes l C h x e :: int
  assumes "- C < 2 * l + 1" "l \<le> 0" "1 < C" "l \<le> h" "h < l + C" "0 \<le> x" "x < C" "l \<le> e" "e < C"
  shows "l * C \<le> h * x + e" "h * x + e < l * C + C * C"
proof -
  have "l * C = l * (C - 1) + l" by (simp add: algebra_simps)
  then show "l * C \<le> h * x + e" using middle_bounds(1) [OF assms(1-7)] assms(8) by linarith
  have "(l + C - 1) * (C - 1) + (C - 1) = l * C + C * C - l - C" by (simp add: algebra_simps)
  then show "h * x + e < l * C + C * C" using middle_bounds(2) [OF assms(1-7)] assms by linarith
qed

section \<open>Integer types\<close>

lemma uint_drop_bit: "uint (drop_bit n w) = uint w div 2 ^ n"
  by (simp add: unsigned_drop_bit_eq drop_bit_eq_div [where 'a = int] bintr_uint)

locale int_type =
  fixes val_of :: "'a::len word \<Rightarrow> int" and shift :: "nat \<Rightarrow> 'a word \<Rightarrow> 'a word" and bottom :: int
  assumes word_val: "word_of_int (val_of w) = w"
    and val_ge: "bottom \<le> val_of w"
    and val_less: "val_of w < bottom + 2 ^ LENGTH('a)"
    and val_shift: "val_of (shift n w) = val_of w div 2 ^ n"
    and bottom_cases: "bottom = 0 \<or> bottom = - (2 ^ (LENGTH('a) - 1))"
begin

lemma val_eq:
  assumes "bottom \<le> v" "v < bottom + 2 ^ LENGTH('a)"
  shows "val_of (word_of_int v) = v"
proof -
  have "take_bit LENGTH('a) (val_of (word_of_int v)) = take_bit LENGTH('a) v"
    using word_val [of "word_of_int v"] by (simp add: word_of_int_eq_iff)
  then have "2 ^ LENGTH('a) dvd val_of (word_of_int v) - v"
    unfolding take_bit_eq_mod by (rule mod_eq_dvd_iff [THEN iffD1])
  then obtain d where d: "val_of (word_of_int v) - v = 2 ^ LENGTH('a) * d" by (elim dvdE)
  have "\<bar>val_of (word_of_int v) - v\<bar> < 2 ^ LENGTH('a)"
    using assms val_ge [of "word_of_int v"] val_less [of "word_of_int v"] by linarith
  then have "\<bar>2 ^ LENGTH('a) * d\<bar> < 2 ^ LENGTH('a) * 1" using d by simp
  then have "d = 0" by (simp only: abs_mult mult_less_cancel_left) auto
  then show ?thesis using d by simp
qed

lemma val_eqI: "w = word_of_int v \<Longrightarrow> bottom \<le> v \<Longrightarrow> v < bottom + 2 ^ LENGTH('a) \<Longrightarrow> val_of w = v"
  using val_eq by blast

lemma val_0 [simp]: "val_of 0 = 0"
  using val_eq [of 0] bottom_cases by auto

lemma val_mod: "n \<le> LENGTH('a) \<Longrightarrow> val_of w mod 2 ^ n = uint (take_bit n w)"
proof -
  assume "n \<le> LENGTH('a)"
  moreover have "uint w = take_bit LENGTH('a) (val_of w)" using word_val [of w] by (metis uint_word_of_int take_bit_eq_mod)
  ultimately have "uint w mod 2 ^ n = val_of w mod 2 ^ n"
    by (simp add: take_bit_eq_mod mod_mod_cancel le_imp_power_dvd)
  then show ?thesis by (metis unsigned_take_bit_eq take_bit_eq_mod)
qed

text \<open>Averages do not overflow.\<close>

lemma shift_word: "shift n w = word_of_int (val_of w div 2 ^ n)"
  using word_val [of "shift n w"] by (simp add: val_shift)

lemma average: "val_of (shift 1 a + shift 1 b + (a AND b AND 1)) = (val_of a + val_of b) div 2"
proof -
  let ?A = "val_of a" and ?B = "val_of b"
  have "a AND b AND 1 = word_of_int (?A AND ?B AND 1)" using word_val [of a] word_val [of b] by (simp add: of_int_and_eq)
  then have "shift 1 a + shift 1 b + (a AND b AND 1) = word_of_int (?A div 2 + ?B div 2 + (?A AND ?B AND 1))"
    by (simp add: shift_word)
  also have "?A div 2 + ?B div 2 + (?A AND ?B AND 1) = (?A + ?B) div 2"
    by (simp add: and_one_eq mod_2_eq_odd even_and_iff) presburger
  finally show ?thesis using val_ge [of a] val_ge [of b] val_less [of a] val_less [of b] by (simp add: val_eq)
qed

lemma average_up: "val_of (shift 1 a + shift 1 b + ((a OR b) AND 1)) = (val_of a + val_of b + 1) div 2"
proof -
  let ?A = "val_of a" and ?B = "val_of b"
  have "(a OR b) AND 1 = word_of_int ((?A OR ?B) AND 1)" using word_val [of a] word_val [of b] by (simp add: of_int_and_eq of_int_or_eq)
  then have "shift 1 a + shift 1 b + ((a OR b) AND 1) = word_of_int (?A div 2 + ?B div 2 + ((?A OR ?B) AND 1))"
    by (simp add: shift_word)
  also have "?A div 2 + ?B div 2 + ((?A OR ?B) AND 1) = (?A + ?B + 1) div 2"
    by (simp add: and_one_eq mod_2_eq_odd even_or_iff) presburger
  finally show ?thesis using val_ge [of a] val_ge [of b] val_less [of a] val_less [of b] by (simp add: val_eq)
qed

text \<open>The high word of a product with a summand, from the products of the halves.\<close>

lemma half_range:
  assumes "LENGTH('a) = 2 * h" "0 < h"
  shows "\<exists>l. bottom = l * 2 ^ h \<and> - (2 ^ h) < 2 * l + 1 \<and> l \<le> 0 \<and> (\<forall>w. l \<le> val_of w div 2 ^ h \<and> val_of w div 2 ^ h < l + 2 ^ h)"
proof -
  have C: "(2 :: int) ^ LENGTH('a) = 2 ^ h * 2 ^ h" "(2 :: int) ^ (LENGTH('a) - 1) = 2 ^ (h - 1) * 2 ^ h"
    using assms by (simp_all add: power_add [symmetric] mult_2)
  have "(2 :: int) * 2 ^ (h - 1) = 2 ^ h" using assms(2) by (simp add: power_eq_if)
  then have "\<exists>l. bottom = l * 2 ^ h \<and> - (2 ^ h) < 2 * l + 1 \<and> l \<le> 0"
    using bottom_cases unfolding C by (auto intro: exI [of _ 0] exI [of _ "- (2 ^ (h - 1))"])
  then obtain l where l: "bottom = l * 2 ^ h" "- (2 ^ h) < 2 * l + 1" "l \<le> 0" by blast
  have "l \<le> val_of w div 2 ^ h \<and> val_of w div 2 ^ h < l + 2 ^ h" for w
    using val_ge [of w] val_less [of w] unfolding C l(1) by (auto intro!: int_div_less int_div_ge simp: distrib_right)
  with l show ?thesis by blast
qed

lemma low_part:
  assumes "h < LENGTH('a)"
  shows "take_bit h w = word_of_int (val_of w mod 2 ^ h)" "val_of (take_bit h w) = val_of w mod 2 ^ h"
proof -
  show w: "take_bit h w = word_of_int (val_of w mod 2 ^ h)" using assms by (simp add: val_mod)
  have "(2 :: int) ^ h \<le> 2 ^ (LENGTH('a) - 1)" using assms by (intro power_increasing) auto
  moreover have "(2 :: int) ^ LENGTH('a) = 2 * 2 ^ (LENGTH('a) - 1)" by (simp add: power_eq_if)
  moreover have "0 \<le> val_of w mod 2 ^ h" "val_of w mod 2 ^ h < 2 ^ h" by simp_all
  ultimately have "bottom \<le> val_of w mod 2 ^ h" "val_of w mod 2 ^ h < bottom + 2 ^ LENGTH('a)"
    using bottom_cases by linarith+
  then show "val_of (take_bit h w) = val_of w mod 2 ^ h" by (rule val_eqI [OF w])
qed

lemma low_product:
  fixes x y z :: int
  assumes "LENGTH('a) = 2 * h" "0 \<le> x" "x < 2 ^ h" "0 \<le> y" "y < 2 ^ h" "0 \<le> z" "z < 2 ^ h"
  shows "drop_bit h (word_of_int x * word_of_int y + word_of_int z :: 'a word) = word_of_int ((x * y + z) div 2 ^ h)"
    "0 \<le> (x * y + z) div 2 ^ h" "(x * y + z) div 2 ^ h < 2 ^ h"
proof -
  have "x * y \<le> (2 ^ h - 1) * (2 ^ h - 1)" using assms by (intro mult_mono) auto
  then have *: "0 \<le> x * y + z" "x * y + z < 2 ^ h * 2 ^ h" using assms by (simp_all add: algebra_simps)
  then show "0 \<le> (x * y + z) div 2 ^ h" "(x * y + z) div 2 ^ h < 2 ^ h"
    by (simp_all add: pos_imp_zdiv_nonneg_iff int_div_less)
  have "uint (word_of_int (x * y + z) :: 'a word) = x * y + z"
    using * assms(1) unfolding uint_word_of_int by (simp add: power_add [symmetric] mult_2)
  then have "uint (drop_bit h (word_of_int (x * y + z) :: 'a word)) = (x * y + z) div 2 ^ h"
    by (simp only: uint_drop_bit)
  from arg_cong [OF this, of "word_of_int :: int \<Rightarrow> 'a word"]
  show "drop_bit h (word_of_int x * word_of_int y + word_of_int z :: 'a word) = word_of_int ((x * y + z) div 2 ^ h)"
    by simp
qed

lemma high_part:
  fixes a b d :: "'a word"
  assumes "LENGTH('a) = 2 * h" "0 < h"
    and "x = shift h a * take_bit h b + shift h d"
    and "y = take_bit h a * shift h b + drop_bit h (take_bit h a * take_bit h b + take_bit h d)"
    and "val_of avg = (val_of x + val_of y) div 2"
    and "bottom \<le> (val_of a * val_of b + val_of d) div 2 ^ LENGTH('a)"
    and "(val_of a * val_of b + val_of d) div 2 ^ LENGTH('a) < bottom + 2 ^ LENGTH('a)"
  shows "val_of (shift h a * shift h b + shift (h - 1) avg) = (val_of a * val_of b + val_of d) div 2 ^ LENGTH('a)"
proof -
  let ?C = "(2 :: int) ^ h"
  define ah al bh bl dh dl where defs: "ah = val_of a div ?C" "al = val_of a mod ?C" "bh = val_of b div ?C" "bl = val_of b mod ?C"
    "dh = val_of d div ?C" "dl = val_of d mod ?C"
  define m where "m = (al * bl + dl) div ?C"
  have C: "1 < ?C" "(2 :: int) ^ LENGTH('a) = ?C * ?C" using assms(1,2) by (simp_all add: power_add [symmetric] mult_2)
  have words: "shift h a = word_of_int ah" "shift h b = word_of_int bh" "shift h d = word_of_int dh"
    "take_bit h a = word_of_int al" "take_bit h b = word_of_int bl" "take_bit h d = word_of_int dl"
    using assms(1,2) by (simp_all add: shift_word low_part(1) defs)
  have lows: "0 \<le> al" "al < ?C" "0 \<le> bl" "bl < ?C" "0 \<le> dl" "dl < ?C" by (simp_all add: defs)
  have m: "drop_bit h (take_bit h a * take_bit h b + take_bit h d) = word_of_int m" "0 \<le> m" "m < ?C"
    unfolding words m_def using low_product [OF assms(1) lows] by simp_all
  obtain l where l: "bottom = l * ?C" "- ?C < 2 * l + 1" "l \<le> 0" "\<forall>w. l \<le> val_of w div ?C \<and> val_of w div ?C < l + ?C"
    using half_range [OF assms(1,2)] by blast
  have x: "val_of x = ah * bl + dh"
  proof -
    have "x = word_of_int (ah * bl + dh)" by (simp add: assms(3) words)
    moreover have "dh < ?C" using l(3,4) by (metis defs(5) add.commute add_le_same_cancel2 less_le_trans)
    ultimately show ?thesis
      using middle_sum [OF l(2,3) C(1), of ah bl dh] l(4) lows by (intro val_eqI) (simp_all add: l(1) C(2) defs(1,3,5))
  qed
  have y: "val_of y = al * bh + m"
  proof -
    have "y = word_of_int (bh * al + m)" unfolding assms(4) m(1) by (simp add: words)
    then have "val_of y = bh * al + m"
      using middle_sum [OF l(2,3) C(1), of bh al m] l(3,4) lows m by (intro val_eqI) (simp_all add: l(1) C(2) defs(1,3))
    then show ?thesis by (simp add: mult.commute)
  qed
  have "2 * 2 ^ (h - 1) = ?C" using assms(2) by (simp add: power_eq_if)
  then have "val_of avg div 2 ^ (h - 1) = (val_of x + val_of y) div ?C"
    unfolding assms(5) by (metis zdiv_zmult2_eq zero_le_numeral zero_le_power)
  then have "shift (h - 1) avg = word_of_int ((val_of x + val_of y) div ?C)" by (simp only: shift_word)
  then have "shift h a * shift h b + shift (h - 1) avg = word_of_int (ah * bh + (ah * bl + dh + al * bh + m) div ?C)"
    by (simp add: words x y algebra_simps)
  moreover have "ah * bh + (ah * bl + dh + al * bh + m) div ?C = (val_of a * val_of b + val_of d) div 2 ^ LENGTH('a)"
    unfolding C(2) using product_of_halves [of ?C "val_of a" "val_of b" "val_of d"] C(1) by (simp add: defs m_def)
  ultimately show ?thesis using assms(6,7) by (intro val_eqI) simp_all
qed

end

interpretation signed_type: int_type "sint :: 'a::len word \<Rightarrow> int" signed_drop_bit "- (2 ^ (LENGTH('a) - 1))"
  using sint_ge sint_lt
  by unfold_locales (auto simp: sint_signed_drop_bit_eq drop_bit_eq_div power_eq_if [of 2 "LENGTH('a)"])

interpretation unsigned_type: int_type "uint :: 'a::len word \<Rightarrow> int" drop_bit 0
  by unfold_locales (auto simp: uint_drop_bit)

interpretation typed: int_type "val sg :: 'a::len word \<Rightarrow> int" "shr sg" "low sg TYPE('a)" for sg
proof (cases sg)
  case Signed
  have "val Signed = (sint :: 'a word \<Rightarrow> int)" "shr Signed = (signed_drop_bit :: nat \<Rightarrow> 'a word \<Rightarrow> 'a word)"
    by (simp_all add: fun_eq_iff val_def shr_def)
  then show "int_type (val sg :: 'a word \<Rightarrow> int) (shr sg) (low sg TYPE('a))"
    using signed_type.int_type_axioms by (simp add: Signed low_def)
next
  case Unsigned
  have "val Unsigned = (uint :: 'a word \<Rightarrow> int)" "shr Unsigned = (drop_bit :: nat \<Rightarrow> 'a word \<Rightarrow> 'a word)"
    by (simp_all add: fun_eq_iff val_def shr_def)
  then show "int_type (val sg :: 'a word \<Rightarrow> int) (shr sg) (low sg TYPE('a))"
    using unsigned_type.int_type_axioms by (simp add: Unsigned low_def)
qed

section \<open>Products\<close>

lemmas typed_facts = typed.val_ge typed.val_less typed.val_eqI

lemma LO_take_bit: "LO (x :: 'a::len word) = take_bit (LENGTH('a) div 2) x"
  by (simp add: LO_def mask_eq_exp_minus_1 [symmetric] take_bit_eq_mask)

lemma hadd_val: "val sg (hadd sg a b) = (val sg a + val sg b) div 2"
  unfolding hadd_def by (rule typed.average)

lemma rhadd_val: "val sg (rhadd sg a b) = (val sg a + val sg b + 1) div 2"
  unfolding rhadd_def by (rule typed.average_up)

text \<open>Where the values of a type lie.\<close>

lemma product_range:
  fixes a b c :: "'a::len word"
  assumes "2 \<le> LENGTH('a)"
  shows "low sg TYPE('a) \<le> (val sg a * val sg b + val sg c) div 2 ^ LENGTH('a)"
    "(val sg a * val sg b + val sg c) div 2 ^ LENGTH('a) < low sg TYPE('a) + 2 ^ LENGTH('a)"
proof -
  let ?A = "val sg a" and ?B = "val sg b" and ?D = "val sg c" and ?M = "(2 :: int) ^ LENGTH('a)"
  have b: "low sg TYPE('a) \<le> ?A" "?A < low sg TYPE('a) + ?M" "low sg TYPE('a) \<le> ?B" "?B < low sg TYPE('a) + ?M"
    "low sg TYPE('a) \<le> ?D" "?D < low sg TYPE('a) + ?M"
    by (rule typed_facts)+
  have M: "?M = 2 * 2 ^ (LENGTH('a) - 1)" "(2 :: int) \<le> 2 ^ (LENGTH('a) - 1)"
    using assms power_increasing [of 1 "LENGTH('a) - 1" "2 :: int"] by (simp_all add: power_eq_if)
  define K where "K = (2 :: int) ^ (LENGTH('a) - 1)"
  have "low sg TYPE('a) * ?M \<le> ?A * ?B + ?D \<and> ?A * ?B + ?D < (low sg TYPE('a) + ?M) * ?M"
  proof (cases sg)
    case Unsigned
    have "?A * ?B \<le> (?M - 1) * (?M - 1)" using b Unsigned by (intro mult_mono) (auto simp: low_def)
    then show ?thesis using b Unsigned by (auto simp: low_def algebra_simps)
  next
    case Signed
    have "\<bar>?A\<bar> \<le> K" "\<bar>?B\<bar> \<le> K" "\<bar>?D\<bar> \<le> K" using b Signed M(1) unfolding K_def [symmetric] low_def by simp_all
    then have "\<bar>?A * ?B\<bar> \<le> K * K" unfolding abs_mult by (intro mult_mono) auto
    moreover have "2 * K \<le> K * K" using M(2) unfolding K_def [symmetric] by (intro mult_right_mono) auto
    moreover have "low sg TYPE('a) * ?M = - (2 * (K * K))" "(low sg TYPE('a) + ?M) * ?M = 2 * (K * K)"
      using Signed M(1) unfolding low_def K_def [symmetric] by (simp_all add: algebra_simps)
    ultimately show ?thesis using \<open>\<bar>?D\<bar> \<le> K\<close> M(2) unfolding K_def [symmetric] by linarith
  qed
  then show "low sg TYPE('a) \<le> (?A * ?B + ?D) div ?M" "(?A * ?B + ?D) div ?M < low sg TYPE('a) + ?M"
    by (auto intro!: int_div_ge int_div_less)
qed

lemma even_length:
  assumes "even LENGTH('a::len)"
  shows "LENGTH('a) = 2 * (LENGTH('a) div 2)" "0 < LENGTH('a) div 2" "2 \<le> LENGTH('a)"
proof -
  have "LENGTH('a) \<noteq> 0" by simp
  with assms show "LENGTH('a) = 2 * (LENGTH('a) div 2)" "0 < LENGTH('a) div 2" "2 \<le> LENGTH('a)" by presburger+
qed

lemma high_word:
  fixes a b c :: "'a::len word"
  assumes "even LENGTH('a)"
  shows "val sg (HI sg a * HI sg b + HI1 sg (hadd sg (HI sg a * LO b + HI sg c) (LO a * HI sg b + UHI (LO a * LO b + LO c)))) =
    (val sg a * val sg b + val sg c) div 2 ^ LENGTH('a)"
  unfolding HI_def HI1_def UHI_def LO_take_bit
  by (rule typed.high_part [OF even_length(1,2) [OF assms] refl refl hadd_val])
     (rule product_range [OF even_length(3) [OF assms]])+

lemma type_min_val: "type_min = (word_of_int (- (2 ^ (LENGTH('a) - 1))) :: 'a::len word)"
proof -
  have "(2 :: 'a word) ^ LENGTH('a) = 0" by simp
  then have "(2 :: 'a word) ^ (LENGTH('a) - 1) + 2 ^ (LENGTH('a) - 1) = 0" by (metis mult_2 power_Suc Suc_pred' len_gt_0)
  then show ?thesis by (simp add: type_min_def eq_neg_iff_add_eq_0)
qed

text \<open>The nearest value of a type.\<close>

definition saturate :: "signedness \<Rightarrow> int \<Rightarrow> 'a::len word" where
  "saturate sg v = word_of_int (max (low sg TYPE('a)) (min v (low sg TYPE('a) + 2 ^ LENGTH('a) - 1)))"

text \<open>C19. \<open>mul_hi\<close> is the high word of the exact product, for signed and unsigned types of even width.\<close>

theorem mul_hi_correct:
  assumes "even LENGTH('a::len)"
  shows "val sg (mul_hi sg (a :: 'a word) b) = (val sg a * val sg b) div 2 ^ LENGTH('a)"
proof -
  have "HI sg (0 :: 'a word) = 0" "LO (0 :: 'a word) = 0" by (cases sg; simp add: HI_def shr_def LO_def)+
  then show ?thesis using high_word [OF assms, where c = 0 and a = a and b = b and sg = sg] by (simp add: mul_hi_def Let_def)
qed

theorem mul_hi_correct_witness: "val Signed (mul_hi Signed (- 128 :: 8 word) 127) = - 64"
  using mul_hi_correct [where 'a = 8, of Signed "- 128" 127] by (simp add: val_def)

lemma combine_word:
  fixes a b c :: "'a::len word"
  assumes "even LENGTH('a)"
  shows "COMBINE (HI sg a * LO b + LO a * HI sg b + HI sg c) (LO a * LO b + LO c) = word_of_int (val sg a * val sg b + val sg c)"
proof -
  let ?h = "LENGTH('a) div 2" and ?C = "(2 :: 'a word) ^ (LENGTH('a) div 2)"
  have split: "w = HI sg w * ?C + LO w" for w :: "'a word"
  proof -
    have "HI sg w * ?C + LO w = word_of_int (val sg w div 2 ^ ?h * 2 ^ ?h + val sg w mod 2 ^ ?h)"
      using typed.low_part(1) [where h = ?h and w = w and sg = sg] even_length [OF assms] by (simp add: HI_def LO_take_bit typed.shift_word)
    then show ?thesis by (simp only: div_mult_mod_eq typed.word_val)
  qed
  have zero: "?C * ?C = 0" using even_length(1) [OF assms] by (metis exp_eq_zero_iff mult_2 order.refl power_add)
  have "a * b + c = (HI sg a * ?C + LO a) * (HI sg b * ?C + LO b) + (HI sg c * ?C + LO c)" by (metis split)
  also have "\<dots> = HI sg a * HI sg b * (?C * ?C) + (HI sg a * LO b + LO a * HI sg b + HI sg c) * ?C + (LO a * LO b + LO c)"
    by (simp add: algebra_simps)
  finally show ?thesis by (simp add: COMBINE_def zero push_bit_eq_mult typed.word_val)
qed

lemma val_Signed_eqI:
  assumes "- (2 ^ (LENGTH('a) - 1)) \<le> v" "v < 2 ^ (LENGTH('a) - 1)"
  shows "val Signed (word_of_int v :: 'a::len word) = v"
  using assms by (intro typed.val_eqI) (auto simp: low_def power_eq_if [of 2 "LENGTH('a)"])

lemma val_zero_iff: "val sg w = 0 \<longleftrightarrow> w = 0"
  using typed.word_val [of sg w] by auto

lemma signed_test: "lt sg (- 1 :: 'a::len word) 0 \<longleftrightarrow> sg = Signed"
  by (cases sg) (simp_all add: lt_def val_def)

lemma val_inject: "val sg v = val sg w \<longleftrightarrow> v = w"
  by (metis typed.word_val)

lemma mad_sat_signed:
  fixes l :: "'a::len word" and V :: int
  assumes "l = word_of_int V" "val Signed hw = V div 2 ^ LENGTH('a)"
  shows "(if (hw = 0 \<and> \<not> lt Signed l 0) \<or> (hw = - 1 \<and> lt Signed l 0) then l
     else if \<not> lt Signed hw 0 then type_min - 1 else type_min) = saturate Signed V"
proof -
  define K where "K = (2 :: int) ^ (LENGTH('a) - 1)"
  have M: "(2 :: int) ^ LENGTH('a) = 2 * K" "0 < K" by (simp_all add: K_def power_eq_if [of 2 "LENGTH('a)"])
  have l: "val Signed l = V - 2 ^ LENGTH('a) * n" if "- K \<le> V - 2 ^ LENGTH('a) * n" "V - 2 ^ LENGTH('a) * n < K" for n
  proof -
    have "l = word_of_int (V - 2 ^ LENGTH('a) * n)" by (simp add: assms(1))
    then show ?thesis using val_Signed_eqI that unfolding K_def by blast
  qed
  have "(V + 2 * K) div (2 * K) = V div (2 * K) + 1" using M(2) by (intro div_add_self2) simp
  then have "V div (2 * K) = - 1 \<longleftrightarrow> (V + 2 * K) div (2 * K) = 0" by linarith
  also have "\<dots> \<longleftrightarrow> - 2 * K \<le> V \<and> V < 0" using M(2) by (simp add: zdiv_eq_0_iff) linarith
  finally have "hw = - 1 \<longleftrightarrow> - 2 * K \<le> V \<and> V < 0"
    using assms(2) val_inject [of Signed hw "- 1"] M(1) by (simp add: val_def)
  moreover have "hw = 0 \<longleftrightarrow> 0 \<le> V \<and> V < 2 * K"
    using assms(2) val_zero_iff [of Signed hw] M by (auto simp: zdiv_eq_0_iff)
  moreover have "lt Signed hw 0 \<longleftrightarrow> V < 0" using assms(2) M by (simp add: lt_def pos_imp_zdiv_neg_iff)
  moreover have "lt Signed l 0 \<longleftrightarrow> V < 0" if "- K \<le> V" "V < K" using l [of 0] that by (simp add: lt_def)
  moreover have "lt Signed l 0" if "K \<le> V" "V < 2 * K" using l [of 1] that M(1) by (simp add: lt_def)
  moreover have "\<not> lt Signed l 0" if "- 2 * K \<le> V" "V < - K" using l [of "- 1"] that M(1) by (simp add: lt_def)
  ultimately have c: "(hw = 0 \<and> \<not> lt Signed l 0) \<or> (hw = - 1 \<and> lt Signed l 0) \<longleftrightarrow> - K \<le> V \<and> V < K"
      "lt Signed hw 0 \<longleftrightarrow> V < 0"
    by (smt (verit))+
  have "word_of_int (2 * K) = (0 :: 'a word)" unfolding M(1) [symmetric] by simp
  then have "2 * word_of_int K = (0 :: 'a word)" by simp
  then show ?thesis unfolding c saturate_def low_def signedness.case M(1) K_def [symmetric] type_min_val
    using assms(1) M(2) by (auto simp: max_def min_def)
qed

text \<open>C20. \<open>mad_sat\<close> is the exact value of \<open>a * b + c\<close>, or the end of the type it lies beyond, for signed and unsigned types of even
  width.\<close>

theorem mad_sat_correct:
  assumes "even LENGTH('a::len)"
  shows "mad_sat sg (a :: 'a word) b c = saturate sg (val sg a * val sg b + val sg c)"
proof (cases sg)
  case Signed
  then show ?thesis
    using mad_sat_signed [OF combine_word [OF assms, of Signed a b c] high_word [OF assms, of Signed a b c]]
    by (simp add: mad_sat_def signed_test Let_def)
next
  case Unsigned
  let ?V = "val sg a * val sg b + val sg c"
  have V: "0 \<le> ?V" by (simp add: Unsigned val_def)
  have "?V div 2 ^ LENGTH('a) = 0 \<longleftrightarrow> ?V < 2 ^ LENGTH('a)" using V by (auto simp: zdiv_eq_0_iff)
  then show ?thesis
    using V unfolding mad_sat_def Let_def signed_test combine_word [OF assms] val_zero_iff [of sg, symmetric] high_word [OF assms]
    by (auto simp: Unsigned saturate_def low_def max_def min_def)
qed

theorem mad_sat_correct_witness: "mad_sat Signed (100 :: 8 word) 3 (- 7) = 127 \<and> mad_sat Unsigned (16 :: 8 word) 15 15 = 255"
  using mad_sat_correct [where 'a = 8, of Signed 100 3 "- 7"] mad_sat_correct [where 'a = 8, of Unsigned 16 15 15]
  by (simp add: val_def saturate_def low_def)

section \<open>Sums and differences\<close>

lemma sign_xor: "lt Signed (a XOR b) 0 \<longleftrightarrow> lt Signed a 0 \<noteq> lt Signed b 0"
  by (simp add: lt_def val_def bit_last_iff [symmetric] bit_xor_iff)

lemma saturate_in: "low sg TYPE('a) \<le> v \<Longrightarrow> v < low sg TYPE('a) + 2 ^ LENGTH('a) \<Longrightarrow> saturate sg v = (word_of_int v :: 'a::len word)"
  by (simp add: saturate_def max_def min_def)


lemma signed_ends:
  "- (2 ^ (LENGTH('a) - 1)) \<le> val Signed (w :: 'a::len word)" "val Signed w < 2 ^ (LENGTH('a) - 1)"
  using sint_ge [of w] sint_lt [of w] by (simp_all add: val_def)

lemma Signed_word: "word_of_int (val Signed w) = w"
  by (rule typed.word_val)

lemma type_min_power: "type_min = (word_of_int (2 ^ (LENGTH('a) - 1)) :: 'a::len word)"
  by (simp add: type_min_def)

lemma add_sat_signed: "add_sat Signed (a :: 'a::len word) b = saturate Signed (val Signed a + val Signed b)"
proof -
  define K where "K = (2 :: int) ^ (LENGTH('a) - 1)"
  let ?A = "val Signed a" and ?B = "val Signed b"
  have M: "(2 :: int) ^ LENGTH('a) = 2 * K" by (simp add: K_def power_eq_if [of 2 "LENGTH('a)"])
  have r: "- K \<le> ?A" "?A < K" "- K \<le> ?B" "?B < K" unfolding K_def by (rule signed_ends)+
  have w: "type_min - 1 = (word_of_int (K - 1) :: 'a word)" "type_min = (word_of_int (- K) :: 'a word)"
    "word_of_int (K - 1) - b = word_of_int (K - 1 - ?B)" "word_of_int (- K) - b = word_of_int (- K - ?B)" "a + b = word_of_int (?A + ?B)"
  proof -
    show "type_min - 1 = (word_of_int (K - 1) :: 'a word)" by (simp add: type_min_power K_def)
    show "type_min = (word_of_int (- K) :: 'a word)" by (simp add: type_min_val K_def)
  qed (simp_all add: Signed_word)
  have mx: "val Signed (word_of_int (K - 1 - ?B) :: 'a word) = K - 1 - ?B" if "0 \<le> ?B"
    using r that unfolding K_def by (intro val_Signed_eqI) linarith+
  have mn: "val Signed (word_of_int (- K - ?B) :: 'a word) = - K - ?B" if "?B < 0"
    using r that unfolding K_def by (intro val_Signed_eqI) linarith+
  show ?thesis
    unfolding add_sat_def signed_test Let_def sign_xor saturate_def low_def signedness.case M K_def [symmetric] w(1)
    unfolding w(2) unfolding w(3-5)
    using r mx mn by (auto simp: lt_def max_def min_def simp del: of_int_add of_int_diff of_int_minus)
qed

lemma sub_sat_signed: "sub_sat Signed (a :: 'a::len word) b = saturate Signed (val Signed a - val Signed b)"
proof -
  define K where "K = (2 :: int) ^ (LENGTH('a) - 1)"
  let ?A = "val Signed a" and ?B = "val Signed b"
  have M: "(2 :: int) ^ LENGTH('a) = 2 * K" by (simp add: K_def power_eq_if [of 2 "LENGTH('a)"])
  have r: "- K \<le> ?A" "?A < K" "- K \<le> ?B" "?B < K" unfolding K_def by (rule signed_ends)+
  have w: "type_min - 1 = (word_of_int (K - 1) :: 'a word)" "type_min = (word_of_int (- K) :: 'a word)"
    "word_of_int (K - 1) + b = word_of_int (K - 1 + ?B)" "word_of_int (- K) + b = word_of_int (- K + ?B)" "a - b = word_of_int (?A - ?B)"
  proof -
    show "type_min - 1 = (word_of_int (K - 1) :: 'a word)" by (simp add: type_min_power K_def)
    show "type_min = (word_of_int (- K) :: 'a word)" by (simp add: type_min_val K_def)
  qed (simp_all add: Signed_word)
  have mx: "val Signed (word_of_int (K - 1 + ?B) :: 'a word) = K - 1 + ?B" if "?B < 0"
    using r that unfolding K_def by (intro val_Signed_eqI) linarith+
  have mn: "val Signed (word_of_int (- K + ?B) :: 'a word) = - K + ?B" if "0 \<le> ?B"
    using r that unfolding K_def by (intro val_Signed_eqI) linarith+
  show ?thesis
    unfolding sub_sat_def signed_test Let_def sign_xor saturate_def low_def signedness.case M K_def [symmetric] w(1)
    unfolding w(2) unfolding w(3-5)
    using r mx mn by (auto simp: lt_def max_def min_def simp del: of_int_add of_int_diff of_int_minus)
qed

lemma unsigned_sat:
  "add_sat Unsigned (a :: 'a::len word) b = saturate Unsigned (uint a + uint b)" "sub_sat Unsigned a b = saturate Unsigned (uint a - uint b)"
proof -
  have r: "0 \<le> uint a" "uint a < 2 ^ LENGTH('a)" "0 \<le> uint b" "uint b < 2 ^ LENGTH('a)" by simp_all
  have "- 1 - b = word_of_int (2 ^ LENGTH('a) - 1 - uint b)" by simp
  from unsigned_type.val_eqI [OF this] have mx: "uint (- 1 - b) = 2 ^ LENGTH('a) - 1 - uint b" using r(3,4) by linarith
  have w: "a + b = word_of_int (uint a + uint b)" "a - b = word_of_int (uint a - uint b)"
    "- 1 = (word_of_int (2 ^ LENGTH('a) - 1) :: 'a word)"
    by simp_all
  show "add_sat Unsigned a b = saturate Unsigned (uint a + uint b)"
    using r mx by (simp add: add_sat_def signed_test saturate_def low_def Let_def lt_def val_def max_def min_def)
  show "sub_sat Unsigned a b = saturate Unsigned (uint a - uint b)"
    using r by (simp add: sub_sat_def signed_test saturate_def low_def Let_def lt_def val_def max_def min_def)
qed

text \<open>C25. \<open>add_sat\<close> and \<open>sub_sat\<close> are the exact sum and difference, or the end of the type they lie beyond, for signed and
  unsigned types of every width.\<close>

theorem saturating_sum_difference:
  "add_sat sg a b = saturate sg (val sg a + val sg b) \<and> sub_sat sg a b = saturate sg (val sg a - val sg b)"
proof (cases sg)
  case Signed
  then show ?thesis by (simp add: add_sat_signed sub_sat_signed)
next
  case Unsigned
  then show ?thesis by (simp add: unsigned_sat val_def)
qed

section \<open>Other functions\<close>

lemma min_max_val:
  "val sg (min_i sg a b) = min (val sg a) (val sg b)" "val sg (max_i sg a b) = max (val sg a) (val sg b)"
  by (simp_all add: min_i_def max_i_def lt_def min_def max_def)

lemma double_power: "(2 :: int) ^ LENGTH('a::len) = 2 * 2 ^ (LENGTH('a) - 1)" "(0 :: int) < 2 ^ (LENGTH('a) - 1)"
  by (simp_all add: power_eq_if [of 2 "LENGTH('a)"])

lemma abs_i_val: "uint (abs_i sg a) = \<bar>val sg a\<bar>"
proof (cases "sg = Signed \<and> lt sg a 0")
  case True
  then have "- a = word_of_int (- sint a)" "sint a < 0" by (auto simp: lt_def val_def)
  moreover have "- sint a < 2 ^ LENGTH('a)"
    using sint_ge [of a] double_power [where 'a = 'a] by linarith
  ultimately have "uint (- a) = - sint a" by (intro unsigned_type.val_eqI) simp_all
  then show ?thesis using True by (auto simp: abs_i_def lt_def val_def)
next
  case False
  have "uint a = sint a" if "\<not> sint a < 0"
    using that sint_lt [of a] double_power [where 'a = 'a] by (intro unsigned_type.val_eqI) simp_all
  then show ?thesis using False by (cases sg) (auto simp: abs_i_def lt_def val_def)
qed

lemma abs_diff_val: "uint (abs_diff sg (a :: 'a::len word) b) = \<bar>val sg a - val sg b\<bar>"
proof (cases sg)
  case Signed
  have r: "- (2 ^ (LENGTH('a) - 1)) \<le> val Signed a" "val Signed a < 2 ^ (LENGTH('a) - 1)"
    "- (2 ^ (LENGTH('a) - 1)) \<le> val Signed b" "val Signed b < 2 ^ (LENGTH('a) - 1)"
    by (rule signed_ends)+
  have M: "(2 :: int) ^ LENGTH('a) = 2 * 2 ^ (LENGTH('a) - 1)" by (simp add: power_eq_if [of 2 "LENGTH('a)"])
  show ?thesis
  proof (cases "lt Signed (a XOR b) 0")
    case True
    let ?s = "\<bar>val Signed a\<bar> + \<bar>val Signed b\<bar>"
    have s: "?s = \<bar>val Signed a - val Signed b\<bar>" using True [unfolded sign_xor] unfolding lt_def by auto
    have "abs_i Signed a + abs_i Signed b = word_of_int ?s" by (simp add: abs_i_val [symmetric])
    moreover have "?s < 2 ^ LENGTH('a)"
      using True [unfolded sign_xor] r unfolding lt_def M by (cases "val Signed a < 0") simp_all
    ultimately have "uint (abs_i Signed a + abs_i Signed b) = ?s" by (intro unsigned_type.val_eqI) simp_all
    then show ?thesis using True s by (simp add: abs_diff_def signed_test Signed)
  next
    case False
    have "a - b = word_of_int (val Signed a - val Signed b)" by (simp add: Signed_word)
    moreover have "- (2 ^ (LENGTH('a) - 1)) \<le> val Signed a - val Signed b \<and> val Signed a - val Signed b < 2 ^ (LENGTH('a) - 1)"
      using False [unfolded sign_xor] r unfolding lt_def by auto
    ultimately have "val Signed (a - b) = val Signed a - val Signed b" using val_Signed_eqI by metis
    then show ?thesis using False by (simp add: abs_diff_def signed_test Signed abs_i_val)
  qed
next
  case Unsigned
  have "uint (if uint b < uint a then a - b else b - a) = \<bar>uint a - uint b\<bar>"
    by (auto simp: uint_sub_if')
  then show ?thesis by (simp add: abs_diff_def signed_test Unsigned abs_i_def lt_def val_def)
qed

text \<open>\<open>hadd\<close>, \<open>rhadd\<close>, \<open>abs_diff\<close> and \<open>clamp\<close> give the exact averages, rounded down and up, the exact distance and the exact
  middle value, for every type: no intermediate result overflows.\<close>

theorem averages_and_distances_exact:
  "val sg (hadd sg a b) = (val sg a + val sg b) div 2 \<and>
   val sg (rhadd sg a b) = (val sg a + val sg b + 1) div 2 \<and>
   uint (abs_diff sg a b) = \<bar>val sg a - val sg b\<bar> \<and>
   val sg (clamp_int sg a b c) = min (max (val sg a) (val sg b)) (val sg c)"
  by (simp add: hadd_val rhadd_val abs_diff_val clamp_int_def min_max_val)

lemma upsample_val:
  assumes "LENGTH('b::len) = 2 * LENGTH('a::len)"
  shows "val sg (upsample sg (a :: 'a word) b :: 'b word) = val sg a * 2 ^ LENGTH('a) + uint b"
proof -
  let ?N = "LENGTH('a)"
  define x :: "'b word" where "x = (case sg of Signed \<Rightarrow> scast a | Unsigned \<Rightarrow> ucast a)"
  have x: "x = word_of_int (val sg a)" by (cases sg) (simp_all add: x_def val_def)
  have "upsample sg a b = push_bit ?N x OR (ucast b :: 'b word)" by (simp add: upsample_def x_def)
  also have "\<dots> = push_bit ?N x + ucast b"
    by (rule disjunctive_add [symmetric]) (auto simp: bit_simps dest: bit_imp_le_length)
  also have "\<dots> = word_of_int (val sg a * 2 ^ ?N + uint b)" by (simp add: x push_bit_eq_mult)
  finally have w: "upsample sg a b = (word_of_int (val sg a * 2 ^ ?N + uint b) :: 'b word)" .
  have M: "(2 :: int) ^ LENGTH('b) = 2 ^ ?N * 2 ^ ?N" "(2 :: int) ^ (LENGTH('b) - 1) = 2 ^ (?N - 1) * 2 ^ ?N"
    using assms by (simp_all add: power_add [symmetric] mult_2)
  have l: "low sg TYPE('b) = low sg TYPE('a) * 2 ^ ?N" using M by (cases sg) (simp_all add: low_def)
  have "low sg TYPE('a) * 2 ^ ?N \<le> val sg a * 2 ^ ?N" "val sg a * 2 ^ ?N \<le> (low sg TYPE('a) + 2 ^ ?N - 1) * 2 ^ ?N"
    using typed.val_ge [of sg a] typed.val_less [of sg a] by (intro mult_right_mono; simp)+
  moreover have "(low sg TYPE('a) + 2 ^ ?N - 1) * 2 ^ ?N + 2 ^ ?N = low sg TYPE('b) + 2 ^ LENGTH('b)"
    by (simp add: l M(1) algebra_simps)
  moreover have "0 \<le> uint b" "uint b < 2 ^ ?N" by simp_all
  ultimately have "low sg TYPE('b) \<le> val sg a * 2 ^ ?N + uint b" "val sg a * 2 ^ ?N + uint b < low sg TYPE('b) + 2 ^ LENGTH('b)"
    unfolding l by linarith+
  then show ?thesis unfolding w by (rule typed.val_eq)
qed

text \<open>For a width that is a power of two, as all widths of OpenCL are.\<close>

lemma and_count_mask:
  assumes "LENGTH('a::len) = 2 ^ k"
  shows "unat ((w :: 'a word) AND of_nat (LENGTH('a) - 1)) = unat w mod LENGTH('a)"
proof -
  have mask: "of_nat (LENGTH('a) - 1) = (mask k :: 'a word)" by (simp add: assms mask_eq_exp_minus_1 of_nat_diff)
  have "unat (take_bit k w) = take_bit k (unat w)" by (rule unsigned_take_bit_eq)
  then show ?thesis using mask by (simp only: take_bit_eq_mask [symmetric]) (simp add: take_bit_eq_mod [where 'a = nat] assms)
qed

lemma counts_of_both_sides:
  fixes b :: "'a::len word"
  assumes "LENGTH('a) = 2 ^ k"
  defines "c \<equiv> unat b mod LENGTH('a)" and "d \<equiv> unat (- b) mod LENGTH('a)"
  shows "(c = 0 \<and> d = 0) \<or> c + d = LENGTH('a)"
proof -
  let ?N = "LENGTH('a)"
  have k: "k < ?N" unfolding assms by (rule less_exp)
  have "(unat b + unat (- b)) mod 2 ^ ?N = 0" using unat_word_ariths(1) [of b "- b"] by simp
  moreover have "?N dvd 2 ^ ?N" unfolding assms by (rule le_imp_power_dvd) (use k assms in simp)
  ultimately have "?N dvd unat b + unat (- b)" by (meson dvd_trans mod_0_imp_dvd)
  then have "?N dvd c + d" by (simp add: c_def d_def mod_add_eq dvd_eq_mod_eq_0)
  then obtain q where q: "c + d = ?N * q" by (elim dvdE)
  have cd: "c < ?N" "d < ?N" by (simp_all add: c_def d_def)
  have "q < 2"
  proof (rule ccontr)
    assume "\<not> q < 2"
    then have "?N * 2 \<le> ?N * q" by simp
    then show False using q cd by linarith
  qed
  then have "q = 0 \<or> q = 1" by auto
  then show ?thesis using q cd by auto
qed

lemma rotated_index:
  fixes c n N :: nat
  assumes "c < N" "n < N"
  shows "(n + (N - c)) mod N = (if c \<le> n then n - c else n + (N - c))"
proof (cases "c \<le> n")
  case True
  then have "n + (N - c) = (n - c) + N" using assms by simp
  then have "(n + (N - c)) mod N = (n - c) mod N" by (simp only: mod_add_self2)
  then show ?thesis using True assms by simp
next
  case False
  then show ?thesis using assms by simp
qed

lemma rotate_is_rotl:
  assumes "LENGTH('a::len) = 2 ^ k"
  shows "rotate_i (a :: 'a word) b = word_rotl (unat b) a"
proof (rule bit_word_eqI)
  let ?N = "LENGTH('a)"
  define c d where "c = unat b mod ?N" and "d = unat (- b) mod ?N"
  have cd: "c < ?N" "(c = 0 \<and> d = 0) \<or> c + d = ?N"
    using counts_of_both_sides [OF assms, of b] by (simp_all add: c_def d_def)
  fix n assume n: "n < ?N"
  have "bit (rotate_i a b) n \<longleftrightarrow> (c \<le> n \<and> bit a (n - c)) \<or> bit a (n + d)"
    using n unfolding rotate_i_def Let_def and_count_mask [OF assms] c_def [symmetric] d_def [symmetric]
    by (auto simp: bit_simps add.commute)
  also have "\<dots> \<longleftrightarrow> bit a ((n + (?N - c)) mod ?N)"
    unfolding rotated_index [OF cd(1) n] using cd(2)
  proof
    assume "c + d = ?N"
    then have "?N - c = d" by simp
    then show "(c \<le> n \<and> bit a (n - c) \<or> bit a (n + d)) = bit a (if c \<le> n then n - c else n + (?N - c))"
      using \<open>c + d = ?N\<close> by (auto dest: bit_imp_le_length)
  qed simp
  finally show "bit (rotate_i a b) n = bit (word_rotl (unat b) a) n"
    using n by (simp add: bit_word_rotl_iff c_def)
qed

text \<open>The templates that split vectors do to every element what they do to one.\<close>

lemma by_halves_join:
  assumes "a \<noteq> []" "\<And>xs ys. xs \<noteq> [] \<Longrightarrow> ys \<noteq> [] \<Longrightarrow> g (xs @ ys) = join (g xs) (g ys)" "\<And>x. g [x] = f x"
  shows "by_halves f join a = Some (g a)"
  using assms(1)
proof (induction a rule: length_induct)
  case (1 a)
  show ?case
  proof (cases "length a < 2")
    case True
    then obtain x where "a = [x]" using 1 by (cases a) auto
    then show ?thesis using assms(3) by simp
  next
    case False
    let ?n = "(length a + 1) div 2"
    obtain x y zs where a: "a = x # y # zs" using False by (cases a; cases "tl a") auto
    have ne: "take ?n a \<noteq> []" "drop ?n a \<noteq> []" "length (take ?n a) < length a" "length (drop ?n a) < length a"
      using False by auto
    then have "by_halves f join (take ?n a) = Some (g (take ?n a))" "by_halves f join (drop ?n a) = Some (g (drop ?n a))"
      using 1 by blast+
    then have "by_halves f join a = Some (join (g (take ?n a)) (g (drop ?n a)))" unfolding a by (simp add: Let_def)
    then show ?thesis using assms(2) [OF ne(1,2)] by simp
  qed
qed

lemma vector_templates:
  assumes "a \<noteq> []"
  shows "IMPLEMENT_BUILTIN_G_G f a = Some (map f a)" "any_v a = Some (\<exists>x \<in> set a. lt Signed x 0)"
    "all_v a = Some (\<forall>x \<in> set a. lt Signed x 0)"
  unfolding IMPLEMENT_BUILTIN_G_G_def any_v_def all_v_def
  by (rule by_halves_join [OF assms]; auto)+

end
