(* ===== verification/Regions.thy ===== *)
theory Regions
  imports Pocl_Prelude
begin

text \<open>
  The parallel regions of a kernel (\<open>lib/llvmopencl/Kernel.cc\<close>, \<open>ParallelRegion.cc\<close>): the parts of its control flow graph
  between barriers, which the passes for work-items replicate or put into loops. A graph is a record of what the search
  reads of the function: its blocks in order, the successors of a block, its predecessors in the order of the
  iterator of LLVM, whether it is a barrier block, whether it holds a call of the barrier function, and its loop.
  The two searches have fuel; \<open>None\<close> means that it has run out.
\<close>

section \<open>Graphs and regions\<close>

type_synonym block = nat

record cfg =
  cfg_blocks :: "block list"
  succs :: "block \<Rightarrow> block list"
  preds :: "block \<Rightarrow> block list"
  barrier_block :: "block \<Rightarrow> bool"
  hasBarrier :: "block \<Rightarrow> bool"
  getLoopFor :: "block \<Rightarrow> nat option"

record region =
  reg_blocks :: "block list"
  entryIndex :: nat
  exitIndex :: nat

definition entryBB :: "region \<Rightarrow> block" where
  "entryBB R = reg_blocks R ! entryIndex R"

definition exitBB :: "region \<Rightarrow> block" where
  "exitBB R = reg_blocks R ! exitIndex R"

section \<open>The search\<close>

text \<open>\<open>add_predecessors\<close>: the blocks pushed on \<open>v\<close>.\<close>

fun add_predecessors :: "nat \<Rightarrow> cfg \<Rightarrow> block list \<Rightarrow> block \<Rightarrow> block list option" where
  "add_predecessors 0 g v b = None"
| "add_predecessors (Suc fuel) g v b =
     foldl (\<lambda>v i. Option.bind v (\<lambda>v.
       if barrier_block g i \<and> barrier_block g b then add_predecessors fuel g v i else Some (v @ [i])))
     (Some v) (preds g b)"

text \<open>The loop of \<open>createParallelRegionBefore\<close>.\<close>

fun pending_loop :: "nat \<Rightarrow> nat \<Rightarrow> cfg \<Rightarrow> block list \<Rightarrow> block list \<Rightarrow> block option \<Rightarrow> (block list \<times> block option) outcome option" where
  "pending_loop 0 depth g pending_blocks blocks_in_region region_entry_barrier = None"
| "pending_loop (Suc fuel) depth g pending_blocks blocks_in_region region_entry_barrier =
     (if pending_blocks = [] then Some (Ret (blocks_in_region, region_entry_barrier))
      else let current = last pending_blocks; pending_blocks = butlast pending_blocks in
      if current \<in> set blocks_in_region
      then pending_loop fuel depth g pending_blocks blocks_in_region region_entry_barrier
      else if barrier_block g current
      then pending_loop fuel depth g pending_blocks blocks_in_region
             (if region_entry_barrier = None then Some current else region_entry_barrier)
      else if hasBarrier g current then Some Abort
      else Option.bind (add_predecessors depth g pending_blocks current) (\<lambda>pending_blocks.
           pending_loop fuel depth g pending_blocks (blocks_in_region @ [current]) region_entry_barrier))"

definition getSinglePredecessor :: "cfg \<Rightarrow> block \<Rightarrow> block option" where
  "getSinglePredecessor g b = (case preds g b of [p] \<Rightarrow> Some p | _ \<Rightarrow> None)"

text \<open>The position of a block.\<close>

fun block_index :: "block list \<Rightarrow> block \<Rightarrow> nat" where
  "block_index [] b = 0"
| "block_index (a # bs) b = (if a = b then 0 else Suc (block_index bs b))"

text \<open>\<open>ParallelRegion::Verify\<close>.\<close>

definition verify_region :: "cfg \<Rightarrow> region \<Rightarrow> bool" where
  "verify_region g R \<longleftrightarrow> list_all (\<lambda>b.
     list_all (\<lambda>p. p \<in> set (reg_blocks R) \<or> b = entryBB R \<and> hasBarrier g p) (preds g b) \<and>
     length (succs g (exitBB R)) = 1 \<and> \<not> hasBarrier g b) (reg_blocks R)"

text \<open>\<open>ParallelRegion::Create\<close>, with the assertions of \<open>Verify\<close> enabled. The exit is not noted when it is the entry too.
  \<open>LocalizeIDLoads\<close>, which replaces operands of instructions by loads in the entry block and changes no edge of the graph, is left
  out.\<close>

definition create_region :: "cfg \<Rightarrow> block list \<Rightarrow> block \<Rightarrow> block option \<Rightarrow> region outcome" where
  "create_region g bbs entry exit =
     (case exit of None \<Rightarrow> Abort
      | Some exit \<Rightarrow>
          let bs = filter (\<lambda>b. b \<in> set bbs) (cfg_blocks g);
              R = \<lparr>reg_blocks = bs, entryIndex = block_index bs entry,
                   exitIndex = (if exit = entry \<or> exit \<notin> set bs then 0 else block_index bs exit)\<rparr>
          in if verify_region g R then Ret R else Abort)"

definition createParallelRegionBefore :: "nat \<Rightarrow> nat \<Rightarrow> cfg \<Rightarrow> block \<Rightarrow> region option outcome option" where
  "createParallelRegionBefore fuel depth g B =
     (let exit = getSinglePredecessor g B in
      Option.bind (add_predecessors depth g [] B) (\<lambda>pending_blocks.
      map_option (\<lambda>r. obind r (\<lambda>(blocks_in_region, region_entry_barrier).
        if blocks_in_region = [] then Ret None
        else case region_entry_barrier of None \<Rightarrow> Abort
        | Some barrier \<Rightarrow>
            case find (\<lambda>s. s \<in> set blocks_in_region) (succs g barrier) of None \<Rightarrow> Abort
            | Some entry \<Rightarrow> obind (create_region g blocks_in_region entry exit) (\<lambda>R. Ret (Some R))))
        (pending_loop fuel depth g pending_blocks [] None)))"

text \<open>\<open>getExitBlocks\<close>: the blocks without successors, cast to barrier blocks.\<close>

definition getExitBlocks :: "cfg \<Rightarrow> block list outcome" where
  "getExitBlocks g = (let bs = filter (\<lambda>b. succs g b = []) (cfg_blocks g) in
     if list_all (barrier_block g) bs then Ret bs else Abort)"

text \<open>The loop of \<open>getParallelRegions\<close> over the predecessors of an entry: the exit blocks kept for later, the next exit, the
  barrier inside the loop, and the number of barriers not processed yet.\<close>

fun scan_predecessors ::
  "cfg \<Rightarrow> block list \<Rightarrow> block \<Rightarrow> block list \<Rightarrow> block list \<times> block option \<times> block option \<times> nat \<Rightarrow>
   (block list \<times> block option \<times> block option \<times> nat) outcome" where
  "scan_predecessors g found_barriers entry [] st = Ret st"
| "scan_predecessors g found_barriers entry (barrier # is) (exit_blocks, exit, loop_barrier, found_predecessors) =
     (if \<not> barrier_block g barrier then Abort
      else scan_predecessors g found_barriers entry is
        (if barrier \<in> set found_barriers then (exit_blocks, exit, loop_barrier, found_predecessors)
         else if getLoopFor g barrier \<noteq> None \<and> getLoopFor g entry = getLoopFor g barrier
         then (case loop_barrier of None \<Rightarrow> exit_blocks | Some b \<Rightarrow> exit_blocks @ [b], exit, Some barrier, Suc found_predecessors)
         else (exit_blocks, Some barrier, loop_barrier, Suc found_predecessors)))"

text \<open>What the loop does with a region: \<open>None\<close> for the next exit means that the inner loop is left.\<close>

definition after_region ::
  "cfg \<Rightarrow> block list \<Rightarrow> block list \<Rightarrow> region \<Rightarrow> (block list \<times> block option) outcome" where
  "after_region g found_barriers exit_blocks R =
     obind (scan_predecessors g found_barriers (entryBB R) (preds g (entryBB R)) (exit_blocks, None, None, 0))
       (\<lambda>(exit_blocks, exit, loop_barrier, found_predecessors).
     let (exit_blocks, exit) =
           (case loop_barrier of None \<Rightarrow> (exit_blocks, exit)
            | Some b \<Rightarrow> (case exit of None \<Rightarrow> exit_blocks | Some e \<Rightarrow> exit_blocks @ [e],
                         if b \<notin> set found_barriers then Some b else exit))
     in if found_predecessors = 0 then Ret (exit_blocks, None)
        else if exit = None then Abort else Ret (exit_blocks, exit))"

text \<open>The two loops of \<open>getParallelRegions\<close>; with no exit at hand the next one is popped.\<close>

fun regions_loop ::
  "nat \<Rightarrow> (block \<Rightarrow> region option outcome option) \<Rightarrow> cfg \<Rightarrow> block list \<Rightarrow> block list \<Rightarrow> region list \<Rightarrow> block option \<Rightarrow>
   region list outcome option" where
  "regions_loop 0 search g exit_blocks found_barriers parallel_regions exit = None"
| "regions_loop (Suc fuel) search g exit_blocks found_barriers parallel_regions None =
     (if exit_blocks = [] then Some (Ret parallel_regions)
      else regions_loop fuel search g (butlast exit_blocks) found_barriers parallel_regions (Some (last exit_blocks)))"
| "regions_loop (Suc fuel) search g exit_blocks found_barriers parallel_regions (Some exit) =
     Option.bind (search exit) (\<lambda>r.
     case r of Abort \<Rightarrow> Some Abort | Undef \<Rightarrow> Some Undef
     | Ret None \<Rightarrow> regions_loop fuel search g exit_blocks found_barriers parallel_regions None
     | Ret (Some R) \<Rightarrow>
         (case after_region g (exit # found_barriers) exit_blocks R of Abort \<Rightarrow> Some Abort | Undef \<Rightarrow> Some Undef
          | Ret (exit_blocks, next_exit) \<Rightarrow>
              regions_loop fuel search g exit_blocks (exit # found_barriers) (parallel_regions @ [R]) next_exit))"

definition getParallelRegions :: "nat \<Rightarrow> nat \<Rightarrow> cfg \<Rightarrow> region list outcome option" where
  "getParallelRegions fuel depth g =
     (case getExitBlocks g of Abort \<Rightarrow> Some Abort | Undef \<Rightarrow> Some Undef
      | Ret exit_blocks \<Rightarrow> regions_loop fuel (createParallelRegionBefore fuel depth g) g exit_blocks [] [] None)"

section \<open>What a region is\<close>

text \<open>\<open>feeds g p b\<close>: \<open>p\<close> comes before \<open>b\<close>, where edges from barrier to barrier do not count.\<close>

inductive feeds :: "cfg \<Rightarrow> block \<Rightarrow> block \<Rightarrow> bool" for g where
  edge: "p \<in> set (preds g b) \<Longrightarrow> \<not> (barrier_block g p \<and> barrier_block g b) \<Longrightarrow> feeds g p b"
| over: "q \<in> set (preds g b) \<Longrightarrow> barrier_block g q \<Longrightarrow> barrier_block g b \<Longrightarrow> feeds g p q \<Longrightarrow> feeds g p b"

text \<open>\<open>before g B b\<close>: control gets from \<open>b\<close> to the barrier \<open>B\<close> without passing a barrier.\<close>

inductive before :: "cfg \<Rightarrow> block \<Rightarrow> block \<Rightarrow> bool" for g B where
  last_block: "feeds g b B \<Longrightarrow> \<not> barrier_block g b \<Longrightarrow> before g B b"
| earlier_block: "before g B c \<Longrightarrow> b \<in> set (preds g c) \<Longrightarrow> \<not> barrier_block g b \<Longrightarrow> before g B b"

lemma before_no_barrier: "before g B b \<Longrightarrow> \<not> barrier_block g b"
  by (cases rule: before.cases) auto

lemma feeds_plain: "\<not> barrier_block g b \<Longrightarrow> feeds g p b \<longleftrightarrow> p \<in> set (preds g b)"
  by (subst feeds.simps) auto

text \<open>What the search relies on: edges seen from both ends, no cycle of barriers (with \<open>depth\<close> more than the
  longest chain of them), barriers only in blocks of their own, and every block reachable from a barrier, as the
  passes before it leave the function.\<close>

definition wf_cfg :: "cfg \<Rightarrow> bool" where
  "wf_cfg g \<longleftrightarrow> (\<forall>b \<in> set (cfg_blocks g). set (preds g b) \<subseteq> set (cfg_blocks g) \<and>
     (\<forall>p \<in> set (preds g b). b \<in> set (succs g p)) \<and> (hasBarrier g b \<longrightarrow> barrier_block g b))"

inductive chain_depth :: "cfg \<Rightarrow> block \<Rightarrow> nat \<Rightarrow> bool" for g where
  "(\<And>p. p \<in> set (preds g b) \<Longrightarrow> barrier_block g p \<Longrightarrow> barrier_block g b \<Longrightarrow> chain_depth g p n) \<Longrightarrow> chain_depth g b (Suc n)"

inductive guarded :: "cfg \<Rightarrow> block \<Rightarrow> bool" for g where
  "p \<in> set (preds g b) \<Longrightarrow> barrier_block g p \<Longrightarrow> guarded g b"
| "p \<in> set (preds g b) \<Longrightarrow> guarded g p \<Longrightarrow> guarded g b"

section \<open>The search finds the region\<close>

lemma add_predecessors_feeds:
  "chain_depth g b depth \<Longrightarrow> \<exists>v'. add_predecessors depth g v b = Some (v @ v') \<and> set v' = {p. feeds g p b}"
proof (induction b depth arbitrary: v rule: chain_depth.induct)
  case (1 b n)
  let ?step = "\<lambda>v i. Option.bind v (\<lambda>v. if barrier_block g i \<and> barrier_block g b then add_predecessors n g v i else Some (v @ [i]))"
  have "\<exists>v'. foldl ?step (Some v) ps = Some (v @ v') \<and>
      set v' = {p. \<exists>i \<in> set ps. if barrier_block g i \<and> barrier_block g b then feeds g p i else p = i}"
    if "set ps \<subseteq> set (preds g b)" for v ps
    using that
  proof (induction ps arbitrary: v)
    case (Cons i ps)
    have "\<exists>w. ?step (Some v) i = Some (v @ w) \<and>
        set w = {p. if barrier_block g i \<and> barrier_block g b then feeds g p i else p = i}"
      using 1(2) [of i v] Cons.prems by auto
    then obtain w where w: "?step (Some v) i = Some (v @ w)"
      "set w = {p. if barrier_block g i \<and> barrier_block g b then feeds g p i else p = i}" by blast
    obtain w' where "foldl ?step (Some (v @ w)) ps = Some ((v @ w) @ w')"
      "set w' = {p. \<exists>i \<in> set ps. if barrier_block g i \<and> barrier_block g b then feeds g p i else p = i}"
      using Cons.IH [of "v @ w"] Cons.prems by auto
    then show ?case using w by (intro exI [of _ "w @ w'"]) auto
  qed simp
  from this [of "preds g b" v] obtain v' where v': "foldl ?step (Some v) (preds g b) = Some (v @ v')"
    "set v' = {p. \<exists>i \<in> set (preds g b). if barrier_block g i \<and> barrier_block g b then feeds g p i else p = i}"
    by auto
  have "feeds g p b \<longleftrightarrow> (\<exists>i \<in> set (preds g b). if barrier_block g i \<and> barrier_block g b then feeds g p i else p = i)" for p
    by (subst feeds.simps) auto
  with v' show ?case by auto
qed

text \<open>The invariant of the loop: the region and what is pending belong to the region of \<open>B\<close> or are barriers in front of
  it, and nothing of it is lost.\<close>

definition search_inv :: "cfg \<Rightarrow> block \<Rightarrow> block list \<Rightarrow> block list \<Rightarrow> block option \<Rightarrow> bool" where
  "search_inv g B pending rg eb \<longleftrightarrow>
     (\<forall>b \<in> set rg. before g B b) \<and>
     (\<forall>b \<in> set pending. before g B b \<or> barrier_block g b \<and> (\<exists>c. before g B c \<and> b \<in> set (preds g c))) \<and>
     (\<forall>b. feeds g b B \<or> (\<exists>c \<in> set rg. b \<in> set (preds g c)) \<longrightarrow> b \<in> set rg \<union> set pending \<or> barrier_block g b \<and> eb \<noteq> None) \<and>
     (\<forall>p. eb = Some p \<longrightarrow> barrier_block g p \<and> (\<exists>c. before g B c \<and> p \<in> set (preds g c)))"

lemma search_inv_done:
  assumes "search_inv g B [] rg eb"
  shows "set rg = {b. before g B b}"
proof -
  have "b \<in> set rg" if "before g B b" for b
    using that by induction (use assms in \<open>auto simp: search_inv_def\<close>)
  then show ?thesis using assms by (auto simp: search_inv_def)
qed

lemma before_in_blocks:
  assumes "wf_cfg g" "B \<in> set (cfg_blocks g)" "before g B b"
  shows "b \<in> set (cfg_blocks g)"
proof -
  have "feeds g p c \<Longrightarrow> c \<in> set (cfg_blocks g) \<Longrightarrow> p \<in> set (cfg_blocks g)" for p c
    by (induction rule: feeds.induct) (use assms(1) in \<open>auto simp: wf_cfg_def\<close>)
  from assms(3) show ?thesis
    by induction (use assms(1,2) \<open>\<And>p c. feeds g p c \<Longrightarrow> _ \<Longrightarrow> _\<close> in \<open>auto simp: wf_cfg_def\<close>)
qed

lemma search_step:
  assumes inv: "search_inv g B (pending @ [b]) rg eb"
  shows "b \<in> set rg \<Longrightarrow> search_inv g B pending rg eb"
    and "barrier_block g b \<Longrightarrow> search_inv g B pending rg (if eb = None then Some b else eb)"
    and "\<not> barrier_block g b \<Longrightarrow> set v = {p. feeds g p b} \<Longrightarrow> search_inv g B (pending @ v) (rg @ [b]) eb"
proof -
  show "b \<in> set rg \<Longrightarrow> search_inv g B pending rg eb"
    using inv unfolding search_inv_def by auto
  show "search_inv g B pending rg (if eb = None then Some b else eb)" if "barrier_block g b"
  proof -
    have "\<exists>c. before g B c \<and> b \<in> set (preds g c)"
      using inv that before_no_barrier unfolding search_inv_def by (metis in_set_conv_decomp)
    then show ?thesis using inv that unfolding search_inv_def by auto
  qed
  assume b: "\<not> barrier_block g b" and v: "set v = {p. feeds g p b}"
  then have v: "set v = set (preds g b)" and before: "before g B b"
    using feeds_plain [OF b] inv unfolding search_inv_def by auto
  then show "search_inv g B (pending @ v) (rg @ [b]) eb"
    using inv earlier_block [OF before] unfolding search_inv_def by auto
qed

lemma pending_loop_ends:
  assumes wf: "wf_cfg g" and B: "B \<in> set (cfg_blocks g)" and depth: "\<And>b. b \<in> set (cfg_blocks g) \<Longrightarrow> chain_depth g b depth"
    and "search_inv g B pending rg eb"
  shows "\<exists>rg' eb' n. search_inv g B [] rg' eb' \<and> (\<forall>f \<ge> n. pending_loop f depth g pending rg eb = Some (Ret (rg', eb')))"
  using assms(4)
proof (induction "(card (set (cfg_blocks g) - set rg), length pending)" arbitrary: pending rg eb rule: wf_induct_rule [OF wf_lex_prod [OF wf_less_than wf_less_than]])
  case 1
  show ?case
  proof (cases pending rule: rev_cases)
    case Nil
    have "pending_loop f depth g pending rg eb = Some (Ret (rg, eb))" if "f \<ge> 1" for f
      using that Nil by (cases f) simp_all
    then show ?thesis using 1(2) Nil by blast
  next
    case (snoc p b)
    note step = search_step [OF 1(2) [unfolded snoc]]
    have go_on: ?thesis
      if inv: "search_inv g B p' rg' eb'"
        and less: "((card (set (cfg_blocks g) - set rg'), length p'), (card (set (cfg_blocks g) - set rg), length pending)) \<in> less_than <*lex*> less_than"
        and run: "\<And>f. pending_loop (Suc f) depth g pending rg eb = pending_loop f depth g p' rg' eb'" for p' rg' eb'
    proof -
      obtain rg2 eb2 n where "search_inv g B [] rg2 eb2" "\<forall>f \<ge> n. pending_loop f depth g p' rg' eb' = Some (Ret (rg2, eb2))"
        using 1(1) [OF less inv] by blast
      then show ?thesis
        using run by (intro exI [of _ rg2] exI [of _ eb2] exI [of _ "Suc n"]) (metis Suc_le_D Suc_le_mono)
    qed
    consider "b \<in> set rg" | "b \<notin> set rg" "barrier_block g b" | "b \<notin> set rg" "\<not> barrier_block g b" by blast
    then show ?thesis
    proof cases
      case 1
      then show ?thesis using go_on [OF step(1)] by (simp add: snoc)
    next
      case 2
      then show ?thesis using go_on [OF step(2)] by (simp add: snoc)
    next
      case 3
      have "before g B b" using 1(2) 3(2) snoc unfolding search_inv_def by auto
      then have bl: "b \<in> set (cfg_blocks g)" using before_in_blocks [OF wf B] by blast
      then have nb: "\<not> hasBarrier g b" using wf 3(2) unfolding wf_cfg_def by blast
      obtain v where v: "add_predecessors depth g p b = Some (p @ v)" "set v = {x. feeds g x b}"
        using add_predecessors_feeds [OF depth [OF bl]] by blast
      have "set (cfg_blocks g) - set (rg @ [b]) \<subset> set (cfg_blocks g) - set rg" using bl 3(1) by auto
      then have "card (set (cfg_blocks g) - set (rg @ [b])) < card (set (cfg_blocks g) - set rg)"
        by (intro psubset_card_mono) simp_all
      then show ?thesis using go_on [OF step(3) [OF 3(2) v(2)]] 3 nb v(1) by (simp add: snoc)
    qed
  qed
qed

text \<open>A region in front of a barrier that can be entered has an entry barrier.\<close>

lemma entry_barrier_exists:
  assumes "search_inv g B [] rg eb" "b \<in> set rg" "guarded g b"
  shows "eb \<noteq> None"
  using assms(3,2)
proof (induction rule: guarded.induct)
  case (1 p b)
  then have "p \<in> set rg \<or> eb \<noteq> None" using assms(1) unfolding search_inv_def by auto
  then show ?case using 1(2) assms(1) before_no_barrier unfolding search_inv_def by blast
next
  case (2 p b)
  then have "p \<in> set rg \<or> eb \<noteq> None" using assms(1) unfolding search_inv_def by auto
  then show ?case using 2 by blast
qed

definition region_result :: "cfg \<Rightarrow> block \<Rightarrow> region option outcome \<Rightarrow> bool" where
  "region_result g B r \<longleftrightarrow>
     (if \<forall>b. \<not> before g B b then r = Ret None
      else \<exists>rg entry p. set rg = {b. before g B b} \<and> before g B entry \<and> barrier_block g p \<and> entry \<in> set (succs g p) \<and>
        r = obind (create_region g rg entry (getSinglePredecessor g B)) (\<lambda>R. Ret (Some R)))"

definition searchable :: "cfg \<Rightarrow> nat \<Rightarrow> bool" where
  "searchable g depth \<longleftrightarrow> wf_cfg g \<and>
     (\<forall>b \<in> set (cfg_blocks g). chain_depth g b depth \<and> (barrier_block g b \<or> guarded g b))"

lemma region_search:
  assumes "searchable g depth" "B \<in> set (cfg_blocks g)" "barrier_block g B"
  shows "\<exists>n r. region_result g B r \<and> (\<forall>fuel \<ge> n. createParallelRegionBefore fuel depth g B = Some r)"
proof -
  have wf: "wf_cfg g" and blocks: "\<forall>b \<in> set (cfg_blocks g). chain_depth g b depth \<and> (barrier_block g b \<or> guarded g b)"
    using assms(1) by (simp_all add: searchable_def)
  obtain v where v: "add_predecessors depth g [] B = Some v" "set v = {p. feeds g p B}"
    using add_predecessors_feeds [of g B depth "[]"] assms(2) blocks by auto
  have "\<not> barrier_block g p" if "feeds g p B" for p
    using that assms(3) by induction auto
  then have "search_inv g B v [] None"
    using v(2) last_block unfolding search_inv_def by auto
  then obtain rg eb n where inv: "search_inv g B [] rg eb"
    and run: "\<forall>f \<ge> n. pending_loop f depth g v [] None = Some (Ret (rg, eb))"
    using pending_loop_ends [OF wf assms(2)] blocks by blast
  have rg: "set rg = {b. before g B b}" by (rule search_inv_done [OF inv])
  show ?thesis
  proof (cases "rg = []")
    case True
    then show ?thesis
      using rg run v(1) by (intro exI [of _ n] exI [of _ "Ret None"]) (simp add: createParallelRegionBefore_def region_result_def)
  next
    case False
    then obtain b where b: "b \<in> set rg" by (cases rg) auto
    then have "guarded g b" using blocks before_in_blocks [OF wf assms(2)] rg before_no_barrier by blast
    then obtain p where p: "eb = Some p" using entry_barrier_exists [OF inv b] by blast
    then obtain c where c: "barrier_block g p" "before g B c" "p \<in> set (preds g c)"
      using inv unfolding search_inv_def by blast
    then have "c \<in> set (succs g p)" using wf before_in_blocks [OF wf assms(2)] unfolding wf_cfg_def by blast
    then obtain e where e: "find (\<lambda>s. s \<in> set rg) (succs g p) = Some e" "e \<in> set (succs g p)" "e \<in> set rg"
      using c(2) rg by (metis (no_types, lifting) find_None_iff find_Some_iff mem_Collect_eq nth_mem option.exhaust)
    have "createParallelRegionBefore f depth g B =
        Some (obind (create_region g rg e (getSinglePredecessor g B)) (\<lambda>R. Ret (Some R)))" if "f \<ge> n" for f
      using run that v(1) p e(1) False by (simp add: createParallelRegionBefore_def)
    then show ?thesis
      using rg e(2,3) c(1) b
      by (intro exI [of _ n] exI [of _ "obind (create_region g rg e (getSinglePredecessor g B)) (\<lambda>R. Ret (Some R))"]) (auto simp: region_result_def)
  qed
qed

section \<open>All regions\<close>

lemma block_index_nth: "b \<in> set bs \<Longrightarrow> bs ! block_index bs b = b \<and> block_index bs b < length bs"
  by (induction bs) auto

text \<open>A region that the passes can use: verified, and entered by a block of the function.\<close>

definition usable :: "cfg \<Rightarrow> region \<Rightarrow> bool" where
  "usable g R \<longleftrightarrow> verify_region g R \<and> entryBB R \<in> set (reg_blocks R) \<and> set (reg_blocks R) \<subseteq> set (cfg_blocks g)"

lemma Ret_Some_obind: "Ret (Some R) = obind m (\<lambda>R. Ret (Some R)) \<longleftrightarrow> m = Ret R"
  by (cases m) auto

lemma region_result_usable:
  assumes "wf_cfg g" "B \<in> set (cfg_blocks g)" "region_result g B (Ret (Some R))"
  shows "usable g R \<and> set (reg_blocks R) = {b. before g B b}"
proof -
  obtain rg entry where rg: "set rg = {b. before g B b}" "before g B entry"
    and R: "create_region g rg entry (getSinglePredecessor g B) = Ret R"
    using assms(3) unfolding region_result_def by (auto simp: Ret_Some_obind split: if_splits)
  have bs: "reg_blocks R = filter (\<lambda>b. b \<in> set rg) (cfg_blocks g)" "verify_region g R"
    "entryIndex R = block_index (reg_blocks R) entry"
    using R by (auto simp: create_region_def Let_def split: option.splits if_splits)
  have "entry \<in> set (reg_blocks R)" using before_in_blocks [OF assms(1,2)] rg bs(1) by auto
  moreover have "{b. before g B b} \<subseteq> set (cfg_blocks g)" using before_in_blocks [OF assms(1,2)] by auto
  ultimately show ?thesis
    using bs rg(1) block_index_nth [of entry "reg_blocks R"] by (auto simp: usable_def entryBB_def)
qed

text \<open>What a scan leaves: only barriers that were not processed yet.\<close>

lemma scan_predecessors_new:
  assumes "scan_predecessors g fb e is st = Ret (xs', ex', lb', n')" "st = (xs, ex, lb, n)"
  defines "U \<equiv> {b \<in> set is. barrier_block g b \<and> b \<notin> set fb}"
  shows "\<exists>new. xs' = xs @ new \<and> set new \<subseteq> U \<union> set_option lb \<and> set_option ex' \<subseteq> U \<union> set_option ex \<and>
    set_option lb' \<subseteq> U \<union> set_option lb \<and> n \<le> n' \<and> (n' = n \<longrightarrow> xs' = xs \<and> ex' = ex \<and> lb' = lb)"
  using assms(1,2) unfolding U_def
proof (induction "is" arbitrary: st xs ex lb n)
  case (Cons b "is")
  obtain xs1 ex1 lb1 n1 where st1: "(if b \<in> set fb then (xs, ex, lb, n)
      else if getLoopFor g b \<noteq> None \<and> getLoopFor g e = getLoopFor g b
      then (case lb of None \<Rightarrow> xs | Some b \<Rightarrow> xs @ [b], ex, Some b, Suc n)
      else (xs, Some b, lb, Suc n)) = (xs1, ex1, lb1, n1)" by (metis prod_cases4)
  have b: "barrier_block g b" and rest: "scan_predecessors g fb e is (xs1, ex1, lb1, n1) = Ret (xs', ex', lb', n')"
    using Cons.prems st1 by (auto split: if_splits)
  from Cons.IH [OF rest refl] obtain new where new: "xs' = xs1 @ new"
    "set new \<subseteq> {b \<in> set is. barrier_block g b \<and> b \<notin> set fb} \<union> set_option lb1"
    "set_option ex' \<subseteq> {b \<in> set is. barrier_block g b \<and> b \<notin> set fb} \<union> set_option ex1"
    "set_option lb' \<subseteq> {b \<in> set is. barrier_block g b \<and> b \<notin> set fb} \<union> set_option lb1"
    "n1 \<le> n'" "n' = n1 \<longrightarrow> xs' = xs1 \<and> ex' = ex1 \<and> lb' = lb1" by blast
  obtain k where k: "xs1 = xs @ k" "set k \<subseteq> set_option lb"
    using st1 by (auto split: if_splits option.splits)
  have "n \<le> n1" "n1 = n \<longrightarrow> xs1 = xs \<and> ex1 = ex \<and> lb1 = lb"
    "set_option ex1 \<subseteq> {b} \<union> set_option ex" "set_option lb1 \<subseteq> {b} \<union> set_option lb"
    "b \<in> set fb \<longrightarrow> ex1 = ex \<and> lb1 = lb"
    using st1 by (auto split: if_splits)
  then show ?case
    using new k b by (intro exI [of _ "k @ new"]) auto
qed auto

lemma after_region_new:
  assumes "after_region g fb xs R = Ret (xs', ex')"
  defines "U \<equiv> {b \<in> set (preds g (entryBB R)). barrier_block g b \<and> b \<notin> set fb}"
  shows "\<exists>new. xs' = xs @ new \<and> set new \<subseteq> U \<and> set_option ex' \<subseteq> U \<and> (ex' = None \<longrightarrow> new = [])"
proof -
  obtain xs1 ex1 lb1 n where scan: "scan_predecessors g fb (entryBB R) (preds g (entryBB R)) (xs, None, None, 0) = Ret (xs1, ex1, lb1, n)"
    using assms(1) by (auto simp: after_region_def obind_Ret_iff)
  from scan_predecessors_new [OF this refl] obtain new where new: "xs1 = xs @ new" "set new \<subseteq> U" "set_option ex1 \<subseteq> U"
    "set_option lb1 \<subseteq> U" "n = 0 \<longrightarrow> xs1 = xs \<and> ex1 = None \<and> lb1 = None" by (auto simp: U_def)
  show ?thesis
    using assms(1) new scan
    by (auto simp: after_region_def U_def split: option.splits if_splits)
qed

text \<open>The loops end: a processed barrier is never pushed again.\<close>

definition loop_measure :: "cfg \<Rightarrow> block list \<Rightarrow> block list \<Rightarrow> block option \<Rightarrow> nat \<times> nat \<times> nat" where
  "loop_measure g xs fb ex =
     (card ({b \<in> set (cfg_blocks g). barrier_block g b} - set fb),
      length (filter (\<lambda>b. b \<in> set fb) (xs @ (case ex of None \<Rightarrow> [] | Some e \<Rightarrow> [e]))),
      2 * length xs + (case ex of None \<Rightarrow> 0 | Some _ \<Rightarrow> 1))"

lemma loop_measure_less:
  assumes "e \<in> set (cfg_blocks g)" "barrier_block g e" "xs' = xs @ new"
    and "\<forall>b \<in> set new \<union> set_option ex'. b \<notin> set (e # fb)"
  shows "(loop_measure g xs' (e # fb) ex', loop_measure g xs fb (Some e)) \<in> less_than <*lex*> less_than <*lex*> less_than"
proof (cases "e \<in> set fb")
  case True
  then have same: "set (e # fb) = set fb" by auto
  have "filter (\<lambda>b. b \<in> set fb) new = []" "filter (\<lambda>b. b \<in> set fb) (case ex' of None \<Rightarrow> [] | Some e \<Rightarrow> [e]) = []"
    using assms(4) by (auto simp: filter_empty_conv split: option.splits)
  then show ?thesis unfolding loop_measure_def same using True assms(3) by simp
next
  case False
  let ?bars = "{b \<in> set (cfg_blocks g). barrier_block g b}"
  have "?bars - set (e # fb) \<subset> ?bars - set fb" using False assms(1,2) by auto
  then have "card (?bars - set (e # fb)) < card (?bars - set fb)" by (intro psubset_card_mono) simp_all
  then show ?thesis by (simp add: loop_measure_def)
qed

definition loop_ends ::
  "(nat \<Rightarrow> block \<Rightarrow> region option outcome option) \<Rightarrow> nat \<Rightarrow> cfg \<Rightarrow> block list \<Rightarrow> block list \<Rightarrow> region list \<Rightarrow> block option \<Rightarrow> bool" where
  "loop_ends search N g xs fb rs ex \<longleftrightarrow>
     (\<exists>n r. (\<forall>f F. n \<le> f \<and> N \<le> F \<longrightarrow> regions_loop f (search F) g xs fb rs ex = Some r) \<and>
       (\<forall>Rs. r = Ret Rs \<longrightarrow> (\<forall>R \<in> set Rs. usable g R)))"

lemma loop_ends_step:
  assumes "loop_ends search N g xs' fb' rs' ex'"
    and run: "\<And>f F. N \<le> F \<Longrightarrow> regions_loop (Suc f) (search F) g xs fb rs ex = regions_loop f (search F) g xs' fb' rs' ex'"
  shows "loop_ends search N g xs fb rs ex"
proof -
  obtain n r where r: "\<forall>f F. n \<le> f \<and> N \<le> F \<longrightarrow> regions_loop f (search F) g xs' fb' rs' ex' = Some r"
    "\<forall>Rs. r = Ret Rs \<longrightarrow> (\<forall>R \<in> set Rs. usable g R)"
    using assms(1) unfolding loop_ends_def by blast
  have "regions_loop f (search F) g xs fb rs ex = Some r" if "Suc n \<le> f" "N \<le> F" for f F
    using that r(1) run by (cases f) auto
  then show ?thesis unfolding loop_ends_def using r(2) by (intro exI [of _ "Suc n"] exI [of _ r]) auto
qed

lemma loop_ends_stop:
  assumes run: "\<And>f F. N \<le> F \<Longrightarrow> regions_loop (Suc f) (search F) g xs fb rs ex = Some r"
    and "\<And>Rs. r = Ret Rs \<Longrightarrow> Rs = rs" "\<forall>R \<in> set rs. usable g R"
  shows "loop_ends search N g xs fb rs ex"
proof -
  have "regions_loop f (search F) g xs fb rs ex = Some r" if "1 \<le> f" "N \<le> F" for f F
    using that run by (cases f) auto
  then show ?thesis unfolding loop_ends_def using assms(2,3) by (intro exI [of _ 1] exI [of _ r]) auto
qed

text \<open>A step that finds a region makes the measure smaller.\<close>

lemma region_step_less:
  assumes "wf_cfg g" "e \<in> set (cfg_blocks g)" "barrier_block g e" "usable g R"
    and "after_region g (e # fb) xs R = Ret (xs', ex')"
    and "set xs \<subseteq> {b \<in> set (cfg_blocks g). barrier_block g b}"
  shows "(loop_measure g xs' (e # fb) ex', loop_measure g xs fb (Some e)) \<in> less_than <*lex*> less_than <*lex*> less_than"
    and "set (xs' @ (case ex' of None \<Rightarrow> [] | Some e \<Rightarrow> [e])) \<subseteq> {b \<in> set (cfg_blocks g). barrier_block g b}"
proof -
  from after_region_new [OF assms(5)] obtain new where new: "xs' = xs @ new"
    "set new \<subseteq> {b \<in> set (preds g (entryBB R)). barrier_block g b \<and> b \<notin> set (e # fb)}"
    "set_option ex' \<subseteq> {b \<in> set (preds g (entryBB R)). barrier_block g b \<and> b \<notin> set (e # fb)}" by blast
  have "entryBB R \<in> set (cfg_blocks g)" using assms(4) by (auto simp: usable_def)
  then have "set (preds g (entryBB R)) \<subseteq> set (cfg_blocks g)" using assms(1) by (simp add: wf_cfg_def)
  then show "set (xs' @ (case ex' of None \<Rightarrow> [] | Some e \<Rightarrow> [e])) \<subseteq> {b \<in> set (cfg_blocks g). barrier_block g b}"
    using new assms(6) by (auto split: option.splits)
  show "(loop_measure g xs' (e # fb) ex', loop_measure g xs fb (Some e)) \<in> less_than <*lex*> less_than <*lex*> less_than"
    using loop_measure_less [OF assms(2,3) new(1)] new(2,3) by auto
qed

lemma regions_loop_ends:
  assumes wf: "wf_cfg g"
    and search: "\<And>b F. b \<in> set (cfg_blocks g) \<Longrightarrow> barrier_block g b \<Longrightarrow> N \<le> F \<Longrightarrow> search F b = Some (S b)"
    and found: "\<And>b R. b \<in> set (cfg_blocks g) \<Longrightarrow> barrier_block g b \<Longrightarrow> S b = Ret (Some R) \<Longrightarrow> usable g R"
    and "set (xs @ (case ex of None \<Rightarrow> [] | Some e \<Rightarrow> [e])) \<subseteq> {b \<in> set (cfg_blocks g). barrier_block g b}"
    and "\<forall>R \<in> set rs. usable g R"
  shows "loop_ends search N g xs fb rs ex"
  using assms(4,5)
proof (induction "loop_measure g xs fb ex" arbitrary: xs fb rs ex
    rule: wf_induct_rule [OF wf_lex_prod [OF wf_less_than wf_lex_prod [OF wf_less_than wf_less_than]]])
  case 1
  note go_on = loop_ends_step [OF 1(1)] and stop = loop_ends_stop [OF _ _ 1(3)]
  show ?case
  proof (cases ex)
    case None
    show ?thesis
    proof (cases xs rule: rev_cases)
      case Nil
      then show ?thesis using None by (intro stop [where r = "Ret rs"]) simp_all
    next
      case (snoc ys y)
      then show ?thesis
        using None 1(2,3) by (intro go_on [where xs' = ys and fb' = fb and ex' = "Some y" and rs' = rs]) (auto simp: loop_measure_def)
    qed
  next
    case (Some e)
    then have e: "e \<in> set (cfg_blocks g)" "barrier_block g e" using 1(2) by auto
    consider (aborts) "S e = Abort" | (undefined) "S e = Undef" | (none) "S e = Ret None" | (one) R where "S e = Ret (Some R)"
      by (cases "S e") (auto intro: option.exhaust)
    then show ?thesis
    proof cases
      case aborts
      then show ?thesis using Some search [OF e] by (intro stop [where r = Abort]) simp_all
    next
      case undefined
      then show ?thesis using Some search [OF e] by (intro stop [where r = Undef]) simp_all
    next
      case none
      then show ?thesis
        using Some 1(2,3) search [OF e] by (intro go_on [where xs' = xs and fb' = fb and ex' = None and rs' = rs]) (auto simp: loop_measure_def)
    next
      case one
      then have R: "usable g R" by (rule found [OF e])
      show ?thesis
      proof (cases "after_region g (e # fb) xs R")
        case (Ret a)
        obtain xs' ex' where a: "a = (xs', ex')" by fastforce
        have "set xs \<subseteq> {b \<in> set (cfg_blocks g). barrier_block g b}" using 1(2) by simp
        note less = region_step_less [OF wf e R Ret [unfolded a] this]
        show ?thesis
          using R 1(3) less one Ret a Some search [OF e] by (intro go_on [where xs' = xs' and fb' = "e # fb" and ex' = ex' and rs' = "rs @ [R]"]) simp_all
      next
        case Abort
        then show ?thesis using one Some search [OF e] by (intro stop [where r = Abort]) simp_all
      next
        case Undef
        then show ?thesis using one Some search [OF e] by (intro stop [where r = Undef]) simp_all
      qed
    qed
  qed
qed

section \<open>Properties\<close>

text \<open>
  C11. For every barrier of a function the passes before have put in order, the search for the parallel region in
  front of it ends, and no assertion on its entry fails. The region has exactly the blocks from which control gets to the
  barrier without passing another one, and it is entered from a barrier; when there are none, there is no region.
\<close>

theorem region_in_front_of_barrier:
  assumes "searchable g depth" "B \<in> set (cfg_blocks g)" "barrier_block g B"
  shows "\<exists>n r. region_result g B r \<and> (\<forall>fuel \<ge> n. createParallelRegionBefore fuel depth g B = Some r) \<and>
    (\<forall>R. r = Ret (Some R) \<longrightarrow> set (reg_blocks R) = {b. before g B b} \<and> before g B (entryBB R))"
proof -
  have "wf_cfg g" using assms(1) by (simp add: searchable_def)
  then have "set (reg_blocks R) = {b. before g B b} \<and> before g B (entryBB R)" if "region_result g B (Ret (Some R))" for R
    using region_result_usable [OF _ assms(2) that] by (auto simp: usable_def)
  then show ?thesis using region_search [OF assms] by blast
qed

text \<open>
  C14. \<open>getParallelRegions\<close> ends on every such function, and every region it returns can be used by the passes: it has no
  barrier inside, its blocks are entered from outside only through its entry block and there only from barriers, and its
  exit has one successor.
\<close>

theorem parallel_regions_usable:
  assumes "searchable g depth"
  shows "\<exists>n r. (\<forall>fuel \<ge> n. getParallelRegions fuel depth g = Some r) \<and>
    (\<forall>Rs. r = Ret Rs \<longrightarrow> (\<forall>R \<in> set Rs. set (reg_blocks R) \<subseteq> set (cfg_blocks g) \<and> length (succs g (exitBB R)) = 1 \<and>
      (\<forall>b \<in> set (reg_blocks R). \<not> hasBarrier g b \<and>
        (\<forall>p \<in> set (preds g b). p \<in> set (reg_blocks R) \<or> b = entryBB R \<and> hasBarrier g p))))"
proof -
  let ?bars = "{b \<in> set (cfg_blocks g). barrier_block g b}"
  have wf: "wf_cfg g" using assms by (simp add: searchable_def)
  obtain n S where nS: "\<forall>b \<in> ?bars. region_result g b (S b) \<and> (\<forall>f \<ge> n b. createParallelRegionBefore f depth g b = Some (S b))"
    using region_search [OF assms] by (metis (mono_tags, lifting) mem_Collect_eq)
  define N where "N = Max (n ` ?bars)"
  have search: "createParallelRegionBefore F depth g b = Some (S b)" if "b \<in> set (cfg_blocks g)" "barrier_block g b" "N \<le> F" for b F
  proof -
    have "n b \<le> N" unfolding N_def using that by (intro Max_ge) auto
    then show ?thesis using nS that by auto
  qed
  have found: "usable g R" if "b \<in> set (cfg_blocks g)" "barrier_block g b" "S b = Ret (Some R)" for b R
    using region_result_usable [OF wf, of b R] nS that by force
  have spec: "usable g R \<Longrightarrow> set (reg_blocks R) \<subseteq> set (cfg_blocks g) \<and> length (succs g (exitBB R)) = 1 \<and>
      (\<forall>b \<in> set (reg_blocks R). \<not> hasBarrier g b \<and>
        (\<forall>p \<in> set (preds g b). p \<in> set (reg_blocks R) \<or> b = entryBB R \<and> hasBarrier g p))" for R
    unfolding usable_def verify_region_def list_all_iff by blast
  show ?thesis
  proof (cases "getExitBlocks g")
    case (Ret xs)
    then have "set xs \<subseteq> ?bars" by (auto simp: getExitBlocks_def Let_def list_all_iff split: if_splits)
    then have "loop_ends (\<lambda>F. createParallelRegionBefore F depth g) N g xs [] [] None"
      by (intro regions_loop_ends [OF wf, where S = S]) (use search found in simp_all)
    then obtain m r where "\<forall>f F. m \<le> f \<and> N \<le> F \<longrightarrow> regions_loop f (createParallelRegionBefore F depth g) g xs [] [] None = Some r"
      "\<forall>Rs. r = Ret Rs \<longrightarrow> (\<forall>R \<in> set Rs. usable g R)" unfolding loop_ends_def by blast
    then have "\<forall>fuel \<ge> max m N. getParallelRegions fuel depth g = Some r" "\<forall>Rs. r = Ret Rs \<longrightarrow> (\<forall>R \<in> set Rs. usable g R)"
      using Ret by (simp_all add: getParallelRegions_def)
    then show ?thesis using spec by blast
  qed (auto simp: getParallelRegions_def)
qed

text \<open>A function with a loop between two barriers.\<close>

definition demo_cfg :: cfg where
  "demo_cfg = \<lparr>cfg_blocks = [0, 5, 1, 2, 4, 3],
     succs = (\<lambda>b. if b = 0 then [5] else if b = 5 then [1] else if b = 1 then [2] else if b = 2 then [1, 4] else if b = 4 then [3] else []),
     preds = (\<lambda>b. if b = 5 then [0] else if b = 1 then [5, 2] else if b = 2 then [1] else if b = 4 then [2] else if b = 3 then [4] else []),
     barrier_block = (\<lambda>b. b = 0 \<or> b = 3), hasBarrier = (\<lambda>b. b = 0 \<or> b = 3),
     getLoopFor = (\<lambda>b. if b = 1 \<or> b = 2 then Some 7 else None)\<rparr>"

lemma demo_searchable: "searchable demo_cfg 1"
proof -
  have "chain_depth demo_cfg b (Suc 0)" for b by (rule chain_depth.intros) (auto simp: demo_cfg_def split: if_splits)
  moreover have "guarded demo_cfg 5" by (rule guarded.intros(1) [of 0]) (simp_all add: demo_cfg_def)
  moreover from this have "guarded demo_cfg 1" by (rule guarded.intros(2) [rotated]) (simp add: demo_cfg_def)
  moreover from this have "guarded demo_cfg 2" by (rule guarded.intros(2) [rotated]) (simp add: demo_cfg_def)
  moreover from this have "guarded demo_cfg 4" by (rule guarded.intros(2) [rotated]) (simp add: demo_cfg_def)
  ultimately show ?thesis by (auto simp: searchable_def wf_cfg_def demo_cfg_def)
qed

theorem region_in_front_of_barrier_witness:
  "{b. before demo_cfg 3 b} = {5, 1, 2, 4} \<and>
   (\<exists>n. \<forall>fuel \<ge> n. createParallelRegionBefore fuel 1 demo_cfg 3 = Some (Ret (Some \<lparr>reg_blocks = [5, 1, 2, 4], entryIndex = 0, exitIndex = 3\<rparr>)))"
proof -
  obtain n r where r: "\<forall>fuel \<ge> n. createParallelRegionBefore fuel 1 demo_cfg 3 = Some r"
    "\<forall>R. r = Ret (Some R) \<longrightarrow> set (reg_blocks R) = {b. before demo_cfg 3 b} \<and> before demo_cfg 3 (entryBB R)"
    using region_in_front_of_barrier [OF demo_searchable, of 3] by (auto simp: demo_cfg_def)
  have "createParallelRegionBefore (n + 8) 1 demo_cfg 3 = Some (Ret (Some \<lparr>reg_blocks = [5, 1, 2, 4], entryIndex = 0, exitIndex = 3\<rparr>))"
    by (simp add: demo_cfg_def createParallelRegionBefore_def eval_nat_numeral Let_def create_region_def getSinglePredecessor_def
        verify_region_def entryBB_def exitBB_def)
  then have "r = Ret (Some \<lparr>reg_blocks = [5, 1, 2, 4], entryIndex = 0, exitIndex = 3\<rparr>)" using r(1) by simp
  then show ?thesis using r by auto
qed

theorem parallel_regions_usable_witness:
  "\<exists>n. \<forall>fuel \<ge> n. getParallelRegions fuel 1 demo_cfg = Some (Ret [\<lparr>reg_blocks = [5, 1, 2, 4], entryIndex = 0, exitIndex = 3\<rparr>])"
proof -
  obtain n r where r: "\<forall>fuel \<ge> n. getParallelRegions fuel 1 demo_cfg = Some r"
    using parallel_regions_usable [OF demo_searchable] by blast
  have "getParallelRegions (n + 10) 1 demo_cfg = Some (Ret [\<lparr>reg_blocks = [5, 1, 2, 4], entryIndex = 0, exitIndex = 3\<rparr>])"
    by (simp add: demo_cfg_def getParallelRegions_def getExitBlocks_def createParallelRegionBefore_def eval_nat_numeral Let_def
        create_region_def getSinglePredecessor_def verify_region_def entryBB_def exitBB_def after_region_def)
  then show ?thesis using r by (intro exI [of _ n]) simp
qed

end
