(* ===== verification/Work_Items.thy ===== *)
theory Work_Items
  imports Execution
begin

text \<open>
  From a work-group to its work-items. A kernel runs a whole work-group at a time: the passes of
  \<open>lib/llvmopencl\<close> find the regions of its code between barriers and make each of them run for every work-item of the
  group, by replicating the region (\<open>WorkitemReplication.cc\<close>) or by loops around it (\<open>WorkitemLoops.cc\<close>). The theory has the
  code these passes emit around a region, its meaning, and the work-item functions of the kernel library
  (\<open>lib/kernel/get_*.c\<close>) the code of a region calls.

  The functions read global variables of the kernel's module: the launcher stores the index space of the
  invocation there (\<open>createLauncher\<close>, \<open>Workgroup.cc\<close>), the size of a work-group is a constant of the generated
  code (\<open>addLocalSizeInitCode\<close>, \<open>Kernel.cc\<close>), and the number of the work-item is set by the emitted code. The regions
  and the blocks they begin with are what \<open>getParallelRegions\<close> found; the instructions inside a region are not modelled:
  running it is recorded with the variables it sees.
\<close>

section \<open>The variables of a work-item\<close>

text \<open>One triple for the variables ending in \<open>_x\<close>, \<open>_y\<close> and \<open>_z\<close>.\<close>

record work_item =
  wi_work_dim :: cl_uint
  wi_local_size :: size3
  wi_group_id :: size3
  wi_num_groups :: size3
  wi_global_offset :: size3
  wi_local_id :: size3

text \<open>\<open>createLauncher\<close>: the loads from the context and the stores to the variables that it emits.\<close>

definition store_context :: "pocl_context \<Rightarrow> work_item \<Rightarrow> work_item" where
  "store_context c w = w\<lparr>wi_work_dim := of_nat (work_dim c), wi_group_id := group_id c,
     wi_num_groups := num_groups c, wi_global_offset := global_offset c\<rparr>"

text \<open>\<open>addLocalSizeInitCode\<close>: the stores of the three constants.\<close>

definition init_local_size :: "size3 \<Rightarrow> work_item \<Rightarrow> work_item" where
  "init_local_size loc w = w\<lparr>wi_local_size := loc\<rparr>"

section \<open>The work-item functions\<close>

text \<open>A \<open>switch\<close> on the number of the dimension, with 0 as its default.\<close>

definition by_dim :: "cl_uint \<Rightarrow> size_t \<Rightarrow> size_t \<Rightarrow> size_t \<Rightarrow> size_t" where
  "by_dim dimindx x y z = (if dimindx = 0 then x else if dimindx = 1 then y else if dimindx = 2 then z else 0)"

definition get_work_dim :: "work_item \<Rightarrow> cl_uint" where
  "get_work_dim w = wi_work_dim w"

definition get_global_size :: "work_item \<Rightarrow> cl_uint \<Rightarrow> size_t" where
  "get_global_size w dimindx =
     (let l = wi_local_size w; n = wi_num_groups w in
      by_dim dimindx (fst3 l * fst3 n) (snd3 l * snd3 n) (thd3 l * thd3 n))"

definition get_global_id :: "work_item \<Rightarrow> cl_uint \<Rightarrow> size_t" where
  "get_global_id w dimindx =
     (let off = wi_global_offset w; l = wi_local_size w; g = wi_group_id w; i = wi_local_id w in
      by_dim dimindx (fst3 off + fst3 l * fst3 g + fst3 i) (snd3 off + snd3 l * snd3 g + snd3 i)
        (thd3 off + thd3 l * thd3 g + thd3 i))"

definition get_local_size :: "work_item \<Rightarrow> cl_uint \<Rightarrow> size_t" where
  "get_local_size w dimindx = (let l = wi_local_size w in by_dim dimindx (fst3 l) (snd3 l) (thd3 l))"

definition get_local_id :: "work_item \<Rightarrow> cl_uint \<Rightarrow> size_t" where
  "get_local_id w dimindx = (let i = wi_local_id w in by_dim dimindx (fst3 i) (snd3 i) (thd3 i))"

definition get_num_groups :: "work_item \<Rightarrow> cl_uint \<Rightarrow> size_t" where
  "get_num_groups w dimindx = (let n = wi_num_groups w in by_dim dimindx (fst3 n) (snd3 n) (thd3 n))"

definition get_group_id :: "work_item \<Rightarrow> cl_uint \<Rightarrow> size_t" where
  "get_group_id w dimindx = (let g = wi_group_id w in by_dim dimindx (fst3 g) (snd3 g) (thd3 g))"

definition get_global_offset :: "work_item \<Rightarrow> cl_uint \<Rightarrow> size_t" where
  "get_global_offset w dimindx = (let off = wi_global_offset w in by_dim dimindx (fst3 off) (snd3 off) (thd3 off))"

section \<open>The code around a region\<close>

datatype dim = Dim_X | Dim_Y | Dim_Z

fun get_dim :: "dim \<Rightarrow> size3 \<Rightarrow> size_t" where
  "get_dim Dim_X (x, y, z) = x"
| "get_dim Dim_Y (x, y, z) = y"
| "get_dim Dim_Z (x, y, z) = z"

fun set_dim :: "dim \<Rightarrow> size_t \<Rightarrow> size3 \<Rightarrow> size3" where
  "set_dim Dim_X v (x, y, z) = (v, y, z)"
| "set_dim Dim_Y v (x, y, z) = (x, v, z)"
| "set_dim Dim_Z v (x, y, z) = (x, y, v)"

text \<open>What the passes emit: a copy of region number \<open>r\<close>; stores to the local id and to \<open>.pocl.local_id_x_init\<close>; the
  increment block; a loop whose condition block comes after its body.\<close>

datatype wi_code =
    Skip
  | Region nat
  | Store_local_size size3
  | Store_local_id dim size_t
  | Store_x_init size_t
  | Load_x_init dim
  | Inc_local_id dim
  | Seq wi_code wi_code
  | Do_while wi_code dim size_t

record wi_state =
  item :: work_item
  x_init :: size_t
  runs :: "(nat \<times> work_item) list"

definition local_id :: "wi_state \<Rightarrow> size3" where
  "local_id s = wi_local_id (item s)"

definition store_local_id :: "size3 \<Rightarrow> wi_state \<Rightarrow> wi_state" where
  "store_local_id i s = s\<lparr>item := (item s)\<lparr>wi_local_id := i\<rparr>\<rparr>"

text \<open>Running the code; \<open>None\<close> when a loop has not ended after \<open>fuel\<close> rounds.\<close>

fun do_loop :: "nat \<Rightarrow> ('s \<Rightarrow> 's option) \<Rightarrow> ('s \<Rightarrow> bool) \<Rightarrow> 's \<Rightarrow> 's option" where
  "do_loop 0 body again s = None"
| "do_loop (Suc fuel) body again s =
     (case body s of None \<Rightarrow> None | Some s' \<Rightarrow> if again s' then do_loop fuel body again s' else Some s')"

primrec exec :: "nat \<Rightarrow> wi_code \<Rightarrow> wi_state \<Rightarrow> wi_state option" where
  "exec fuel Skip s = Some s"
| "exec fuel (Region r) s = Some (s\<lparr>runs := runs s @ [(r, item s)]\<rparr>)"
| "exec fuel (Store_local_size l) s = Some (s\<lparr>item := init_local_size l (item s)\<rparr>)"
| "exec fuel (Store_local_id d v) s = Some (store_local_id (set_dim d v (local_id s)) s)"
| "exec fuel (Store_x_init v) s = Some (s\<lparr>x_init := v\<rparr>)"
| "exec fuel (Load_x_init d) s = Some (store_local_id (set_dim d (x_init s) (local_id s)) s)"
| "exec fuel (Inc_local_id d) s = Some (store_local_id (set_dim d (get_dim d (local_id s) + 1) (local_id s)) s)"
| "exec fuel (Seq c1 c2) s = Option.bind (exec fuel c1 s) (exec fuel c2)"
| "exec fuel (Do_while c d n) s = do_loop fuel (exec fuel c) (\<lambda>s. get_dim d (local_id s) < n) s"

text \<open>\<open>ParallelRegion::insertLocalIdInit\<close>, also as \<open>insertPrologue\<close>.\<close>

definition insertLocalIdInit :: "size_t \<Rightarrow> size_t \<Rightarrow> size_t \<Rightarrow> wi_code" where
  "insertLocalIdInit x y z = Seq (Store_local_id Dim_X x) (Seq (Store_local_id Dim_Y y) (Store_local_id Dim_Z z))"

definition AppendIncBlock :: "wi_code \<Rightarrow> dim \<Rightarrow> wi_code" where
  "AppendIncBlock c d = Seq c (Inc_local_id d)"

definition CreateLoopAround :: "wi_code \<Rightarrow> bool \<Rightarrow> dim \<Rightarrow> int \<Rightarrow> bool \<Rightarrow> wi_code" where
  "CreateLoopAround c peeledFirst localIdVar LocalSizeForDim addIncBlock =
     Seq (if peeledFirst then Seq (Load_x_init localIdVar) (Store_x_init 0) else Store_local_id localIdVar 0)
       (Do_while (if addIncBlock then AppendIncBlock c localIdVar else c) localIdVar (word_of_int LocalSizeForDim))"

section \<open>The sizes and the choice of the pass\<close>

type_synonym int3 = "int \<times> int \<times> int"

text \<open>\<open>WorkitemHandler::Initialize\<close>: the \<open>-local-size\<close> option, unless the metadata of the module has sizes for the kernel.\<close>

fun Initialize :: "int3 \<Rightarrow> (string \<times> 32 word \<times> 32 word \<times> 32 word) list \<Rightarrow> string \<Rightarrow> int3" where
  "Initialize sizes [] k = sizes"
| "Initialize sizes ((k', x, y, z) # size_info) k =
     Initialize (if k' = k then (sint x, sint y, sint z) else sizes) size_info k"

text \<open>The product of three \<open>int\<close>s.\<close>

definition item_count :: "int3 \<Rightarrow> int outcome" where
  "item_count l = (case l of (x, y, z) \<Rightarrow>
     if abs (x * y) < 2 ^ 31 \<and> abs (x * y * z) < 2 ^ 31 then Ret (x * y * z) else Undef)"

text \<open>The environment variables the passes read.\<close>

record pass_env =
  POCL_WORK_GROUP_METHOD :: "string option"
  POCL_FULL_REPLICATION_THRESHOLD :: "string option"
  POCL_WILOOPS_MAX_UNROLL_COUNT :: "string option"

datatype handler = POCL_WIH_FULL_REPLICATION | POCL_WIH_LOOPS

definition auto_handler :: "pass_env \<Rightarrow> int3 \<Rightarrow> handler outcome" where
  "auto_handler e l =
     obind (case POCL_FULL_REPLICATION_THRESHOLD e of None \<Rightarrow> Ret 2 | Some st \<Rightarrow> obind (atoi st) (\<lambda>v. Ret (word_of_int v)))
       (\<lambda>ReplThreshold. obind (item_count l) (\<lambda>n.
     Ret (if (word_of_int n :: size_t) \<le> ReplThreshold then POCL_WIH_FULL_REPLICATION else POCL_WIH_LOOPS)))"

definition chosenHandler :: "pass_env \<Rightarrow> int3 \<Rightarrow> handler outcome" where
  "chosenHandler e l =
     (case POCL_WORK_GROUP_METHOD e of
        None \<Rightarrow> auto_handler e l
      | Some method \<Rightarrow>
          if method = ''repl'' \<or> method = ''workitemrepl'' then Ret POCL_WIH_FULL_REPLICATION
          else if method = ''loops'' \<or> method = ''workitemloops'' then Ret POCL_WIH_LOOPS
          else auto_handler e l)"

section \<open>The two passes\<close>

text \<open>The code at the entry of the function, and the code each region has become.\<close>

record kernel_code =
  entry_code :: wi_code
  region_codes :: "wi_code list"

text \<open>\<open>WorkitemLoops::ProcessFunction\<close>. The unroll count is halved until it divides the size.\<close>

function unroll_count :: "int \<Rightarrow> int \<Rightarrow> int" where
  "unroll_count LocalSizeX unrollCount =
     (if unrollCount < 1 then unrollCount
      else if LocalSizeX mod unrollCount = 0 \<and> unrollCount \<le> LocalSizeX then unrollCount
      else unroll_count LocalSizeX (unrollCount div 2))"
  by auto

termination unroll_count
  by (relation "measure (\<lambda>(_, u). nat u)") auto

declare unroll_count.simps [simp del]

text \<open>\<open>n\<close> copies of a region, each chained after the one before.\<close>

primrec chain :: "nat \<Rightarrow> wi_code \<Rightarrow> wi_code" where
  "chain 0 c = Skip"
| "chain (Suc n) c = Seq (chain n c) c"

text \<open>One region. A peeled region runs once, for the first work-item, before its replica in the loops.\<close>

definition wi_loops :: "int3 \<Rightarrow> int \<Rightarrow> bool \<Rightarrow> nat \<Rightarrow> wi_code" where
  "wi_loops l max_unroll peelFirst r =
     (case l of (LocalSizeX, LocalSizeY, LocalSizeZ) \<Rightarrow>
      let unrollCount = unroll_count LocalSizeX max_unroll;
          unrolled = (\<not> peelFirst \<and> unrollCount > 1);
          c = (if unrolled then chain (nat unrollCount) (AppendIncBlock (Region r) Dim_X) else Region r);
          c = (if LocalSizeX > 1 then CreateLoopAround c peelFirst Dim_X LocalSizeX (\<not> unrolled) else c);
          c = (if LocalSizeY > 1 then CreateLoopAround c False Dim_Y LocalSizeY True else c);
          c = (if LocalSizeZ > 1 then CreateLoopAround c False Dim_Z LocalSizeZ True else c)
      in if peelFirst then Seq (Seq (Store_x_init 1) (Seq (insertLocalIdInit 0 0 0) (Region r))) c else c)"

fun size3_of :: "int3 \<Rightarrow> size3" where
  "size3_of (x, y, z) = (word_of_int x, word_of_int y, word_of_int z)"

text \<open>\<open>entries\<close> has, for each region of \<open>getParallelRegions\<close>, the block it begins with (\<open>entryBB\<close>); two regions with the same entry diverge at a conditional barrier.\<close>

definition WorkitemLoops :: "pass_env \<Rightarrow> int3 \<Rightarrow> nat list \<Rightarrow> kernel_code outcome" where
  "WorkitemLoops e l entries =
     obind (item_count l) (\<lambda>workItemCount.
     let init = Seq (insertLocalIdInit 0 0 0) (Store_local_size (size3_of l)) in
     if workItemCount = 1
     then Ret \<lparr>entry_code = init, region_codes = map Region [0..<length entries]\<rparr>
     else obind (case POCL_WILOOPS_MAX_UNROLL_COUNT e of Some st \<Rightarrow> atoi st | None \<Rightarrow> Ret 1) (\<lambda>max_unroll.
          Ret \<lparr>entry_code = init,
            region_codes = map (\<lambda>r. wi_loops l max_unroll (count_list entries (entries ! r) > 1) r) [0..<length entries]\<rparr>))"

text \<open>\<open>WorkitemReplication::ProcessFunction\<close>: a copy of every region for each work-item, with its ids stored at the entry
  of the copy, chained in the order of the index \<open>LocalSizeY * LocalSizeX * z + LocalSizeX * y + x\<close>.\<close>

definition replica_ids :: "int3 \<Rightarrow> int3 list" where
  "replica_ids l = (case l of (LocalSizeX, LocalSizeY, LocalSizeZ) \<Rightarrow>
     concat (map (\<lambda>z. concat (map (\<lambda>y. map (\<lambda>x. (x, y, z)) [0..LocalSizeX - 1]) [0..LocalSizeY - 1])) [0..LocalSizeZ - 1]))"

fun replica :: "nat \<Rightarrow> int3 \<Rightarrow> wi_code" where
  "replica r (x, y, z) = Seq (insertLocalIdInit (word_of_int x) (word_of_int y) (word_of_int z)) (Region r)"

definition WorkitemReplication :: "int3 \<Rightarrow> nat list \<Rightarrow> kernel_code outcome" where
  "WorkitemReplication l entries =
     obind (item_count l) (\<lambda>workitem_count.
     if workitem_count < 1 then Undef
     else Ret \<lparr>entry_code = Store_local_size (size3_of l),
       region_codes = map (\<lambda>r. foldl (\<lambda>c i. Seq c (replica r i)) Skip (replica_ids l)) [0..<length entries]\<rparr>)"

definition work_group_code :: "pass_env \<Rightarrow> int3 \<Rightarrow> nat list \<Rightarrow> kernel_code outcome" where
  "work_group_code e l entries =
     obind (chosenHandler e l) (\<lambda>h.
     case h of POCL_WIH_LOOPS \<Rightarrow> WorkitemLoops e l entries | POCL_WIH_FULL_REPLICATION \<Rightarrow> WorkitemReplication l entries)"

text \<open>Running a work-group: the launcher, the entry, then the regions in the order the kernel's control flow takes.\<close>

fun exec_path :: "nat \<Rightarrow> wi_code list \<Rightarrow> nat list \<Rightarrow> wi_state \<Rightarrow> wi_state option" where
  "exec_path fuel codes [] s = Some s"
| "exec_path fuel codes (r # path) s =
     (if r < length codes then Option.bind (exec fuel (codes ! r) s) (exec_path fuel codes path) else None)"

definition run_work_group :: "nat \<Rightarrow> kernel_code \<Rightarrow> nat list \<Rightarrow> pocl_context \<Rightarrow> work_item \<Rightarrow> size_t \<Rightarrow> (nat \<times> work_item) list option" where
  "run_work_group fuel k path c w x =
     map_option runs (Option.bind (exec fuel (entry_code k) \<lparr>item = store_context c w, x_init = x, runs = []\<rparr>)
       (exec_path fuel (region_codes k) path))"

end
