(* ===== verification/Work_Item_Claims.thy ===== *)
theory Work_Item_Claims
  imports Work_Items Kernel_Claims
begin

text \<open>
  The code around the regions of a kernel runs every region for each work-item once, in the same order
  for loops, unrolled loops, peeled loops and replication; the ids the kernel library computes for the work-items of
  a launch cover its index space exactly once.
\<close>

section \<open>Runs\<close>

text \<open>The state after the regions in \<open>R\<close> have run, with local id \<open>i\<close>.\<close>

definition after_items :: "wi_state \<Rightarrow> size3 \<Rightarrow> size_t \<Rightarrow> nat \<Rightarrow> size3 list \<Rightarrow> wi_state" where
  "after_items s i x r R = s\<lparr>item := (item s)\<lparr>wi_local_id := i\<rparr>, x_init := x,
     runs := runs s @ map (\<lambda>t. (r, (item s)\<lparr>wi_local_id := t\<rparr>)) R\<rparr>"

lemma after_items_simps [simp]:
  "local_id (after_items s i x r R) = i"
  "x_init (after_items s i x r R) = x"
  "after_items (after_items s i x r R) j y r R' = after_items s j y r (R @ R')"
  "after_items s (local_id s) (x_init s) r [] = s"
  "store_local_id j (after_items s i x r R) = after_items s j x r R"
  by (simp_all add: after_items_def local_id_def store_local_id_def)

lemma store_local_id_after: "store_local_id i s = after_items s i (x_init s) r []"
  by (simp add: after_items_def store_local_id_def)

lemma region_after: "exec f (Region r) s = Some (after_items s (local_id s) (x_init s) r [local_id s])"
  by (simp add: after_items_def local_id_def)

lemma set_get_dim [simp]:
  "set_dim d (get_dim d i) i = i"
  "get_dim d (set_dim d v i) = v"
  "set_dim d v (set_dim d w i) = set_dim d v i"
  by (cases i; cases d; simp)+

lemma get_set_other [simp]: "e \<noteq> d \<Longrightarrow> get_dim e (set_dim d v i) = get_dim e i"
  by (cases i; cases d; cases e; simp)

lemma all_dims: "(\<forall>d. P d) \<longleftrightarrow> P Dim_X \<and> P Dim_Y \<and> P Dim_Z"
  by (metis dim.exhaust)

lemma size3_eq_iff: "i = j \<longleftrightarrow> (\<forall>d. get_dim d i = get_dim d j)"
  by (cases i; cases j) (metis get_dim.simps)

lemma of_nat_less_size:
  assumes "0 < n" "n < 2 ^ 31" "i \<le> nat n"
  shows "(of_nat i :: size_t) < word_of_int n \<longleftrightarrow> i < nat n"
proof -
  have "unat (of_nat i :: size_t) = i"
    using assms by (simp add: unat_of_nat take_bit_nat_eq_self)
  moreover have "unat (word_of_int n :: size_t) = nat n"
    using assms by (simp add: unat_eq_nat_uint uint_word_of_int take_bit_int_eq_self)
  ultimately show ?thesis by (simp add: word_less_nat_alt)
qed

lemma word_of_int_size_eq_1:
  assumes "0 < n" "n < 2 ^ 31"
  shows "(word_of_int n :: size_t) = 1 \<longleftrightarrow> n = 1"
proof
  assume "(word_of_int n :: size_t) = 1"
  then have "uint (word_of_int n :: size_t) = 1" by simp
  then show "n = 1" using assms by (simp add: uint_word_of_int take_bit_int_eq_self)
qed simp

section \<open>Loops over x\<close>

lemma exec_chain:
  "exec f (chain m (AppendIncBlock (Region r) d)) s =
     Some (after_items s (set_dim d (get_dim d (local_id s) + of_nat m) (local_id s)) (x_init s) r
       (map (\<lambda>v. set_dim d (get_dim d (local_id s) + of_nat v) (local_id s)) [0..<m]))"
  by (induction m) (simp_all add: AppendIncBlock_def region_after algebra_simps del: exec.simps(2))

lemma x_loop:
  assumes "0 < n" "n < 2 ^ 31" "0 < m" "m dvd nat n - j" "j < nat n" "nat n - j \<le> f'"
    and body: "\<And>s. exec f c s = exec f (chain m (AppendIncBlock (Region r) d)) s"
    and "get_dim d (local_id s) = of_nat j"
  shows "do_loop f' (exec f c) (\<lambda>s. get_dim d (local_id s) < word_of_int n) s =
    Some (after_items s (set_dim d (of_nat (nat n)) (local_id s)) (x_init s) r
      (map (\<lambda>v. set_dim d (of_nat v) (local_id s)) [j..<nat n]))"
  using assms(4-6, 8)
proof (induction f' arbitrary: j s)
  case (Suc f')
  let ?i = "local_id s"
  let ?s = "after_items s (set_dim d (of_nat (j + m)) ?i) (x_init s) r (map (\<lambda>v. set_dim d (of_nat v) ?i) [j..<j + m])"
  have m: "m \<le> nat n - j" using Suc.prems(1,2) by (simp add: dvd_imp_le)
  have shift: "map (\<lambda>v. set_dim d (of_nat j + of_nat v) ?i) [0..<m] = map (\<lambda>v. set_dim d (of_nat v) ?i) [j..<j + m]"
    by (rule nth_equalityI) simp_all
  have step: "exec f c s = Some ?s"
    unfolding body exec_chain using Suc.prems(4) shift by simp
  have again: "(of_nat (j + m) :: size_t) < word_of_int n \<longleftrightarrow> j + m < nat n"
    using assms(1,2) m Suc.prems(2) by (intro of_nat_less_size) simp_all
  show ?case
  proof (cases "j + m < nat n")
    case True
    have "[j..<nat n] = [j..<j + m] @ [j + m..<nat n]"
      using True upt_add_eq_append [of j "j + m" "nat n - (j + m)"] by simp
    moreover have "m dvd nat n - (j + m)"
      using Suc.prems(1) m by (metis diff_diff_left dvd_diff_nat dvd_refl)
    ultimately show ?thesis
      using Suc.IH [of "j + m" ?s] Suc.prems(3) True assms(3) step again by simp
  next
    case False
    then have "j + m = nat n" using m Suc.prems(2) by simp
    then show ?thesis using step again False by simp
  qed
qed simp

section \<open>Levels of loops\<close>

text \<open>A dimension of size 1 has no loop; its id stays 0.\<close>

definition flat :: "int3 \<Rightarrow> size3 \<Rightarrow> bool" where
  "flat l i \<longleftrightarrow> (\<forall>d. get_dim d (size3_of l) = 1 \<longrightarrow> get_dim d i = 0)"

lemma flat_set_dim: "flat l i \<Longrightarrow> get_dim d (size3_of l) \<noteq> 1 \<Longrightarrow> flat l (set_dim d v i)"
  unfolding flat_def by (metis get_set_other)

text \<open>Code with loops over the dimensions \<open>E\<close> runs the region for the ids \<open>T i\<close> where \<open>i\<close> has the ids of the other
  dimensions; after a peeled region without the first id, the first time.\<close>

definition skipped :: "bool \<Rightarrow> wi_state \<Rightarrow> nat" where
  "skipped peel s = (if peel then unat (x_init s) else 0)"

definition visits :: "nat \<Rightarrow> bool \<Rightarrow> int3 \<Rightarrow> nat \<Rightarrow> dim set \<Rightarrow> (size3 \<Rightarrow> size3 list) \<Rightarrow> wi_code \<Rightarrow> bool" where
  "visits f peel l r E T c \<longleftrightarrow>
     (\<forall>i j. (\<forall>d. d \<notin> E \<longrightarrow> get_dim d i = get_dim d j) \<longrightarrow> T i = T j) \<and> (\<forall>i. T i \<noteq> []) \<and>
     (\<forall>s. flat l (local_id s) \<and> skipped peel s \<le> 1 \<longrightarrow>
       (\<exists>i. exec f c s = Some (after_items s i (if peel then 0 else x_init s) r (drop (skipped peel s) (T (local_id s)))) \<and>
         flat l i \<and> (\<forall>d. d \<notin> E \<longrightarrow> get_dim d i = get_dim d (local_id s))))"

lemma visitsE:
  assumes "visits f peel l r E T c" "flat l (local_id s)" "skipped peel s \<le> 1"
  obtains i where "exec f c s = Some (after_items s i (if peel then 0 else x_init s) r (drop (skipped peel s) (T (local_id s))))"
    "flat l i" "\<And>d. d \<notin> E \<Longrightarrow> get_dim d i = get_dim d (local_id s)"
  using assms unfolding visits_def by blast

lemma visitsI:
  assumes "\<And>i j. \<forall>d. d \<notin> E \<longrightarrow> get_dim d i = get_dim d j \<Longrightarrow> T i = T j" "\<And>i. T i \<noteq> []"
    and "\<And>s. flat l (local_id s) \<Longrightarrow> skipped peel s \<le> 1 \<Longrightarrow>
      \<exists>i. exec f c s = Some (after_items s i (if peel then 0 else x_init s) r (drop (skipped peel s) (T (local_id s)))) \<and>
        flat l i \<and> (\<forall>d. d \<notin> E \<longrightarrow> get_dim d i = get_dim d (local_id s))"
  shows "visits f peel l r E T c"
  using assms unfolding visits_def by blast

lemma visits_cong: "visits f peel l r E T c \<Longrightarrow> (\<And>d. d \<notin> E \<Longrightarrow> get_dim d i = get_dim d j) \<Longrightarrow> T i = T j"
  unfolding visits_def by blast

lemma visits_nonempty: "visits f peel l r E T c \<Longrightarrow> 1 \<le> length (T i)"
  unfolding visits_def using Suc_leI [of 0 "length (T i)"] by (metis One_nat_def length_greater_0_conv)

lemma outer_loop:
  assumes v: "visits f peel l r E T c" and d: "d \<notin> E" "get_dim d (size3_of l) \<noteq> 1"
    and n: "0 < n" "n < 2 ^ 31"
    and "flat l (local_id s)" "skipped peel s \<le> 1" "get_dim d (local_id s) = of_nat j" "j < nat n" "nat n - j \<le> f'"
  shows "\<exists>i. do_loop f' (exec f (AppendIncBlock c d)) (\<lambda>s. get_dim d (local_id s) < word_of_int n) s =
      Some (after_items s i (if peel then 0 else x_init s) r
        (drop (skipped peel s) (concat (map (\<lambda>v. T (set_dim d (of_nat v) (local_id s))) [j..<nat n])))) \<and>
    flat l i \<and> (\<forall>e. e \<notin> insert d E \<longrightarrow> get_dim e i = get_dim e (local_id s))"
  using assms(6-)
proof (induction f' arbitrary: s j)
  case (Suc f')
  let ?x = "if peel then 0 else x_init s" and ?T = "\<lambda>s v. T (set_dim d (of_nat v) (local_id s))"
  obtain i where run: "exec f c s = Some (after_items s i ?x r (drop (skipped peel s) (T (local_id s))))"
    and i: "flat l i" "\<And>e. e \<notin> E \<Longrightarrow> get_dim e i = get_dim e (local_id s)"
    using visitsE [OF v Suc.prems(1,2)] by blast
  define s1 where "s1 = after_items s (set_dim d (of_nat (Suc j)) i) ?x r (drop (skipped peel s) (T (local_id s)))"
  have id: "get_dim d i = of_nat j" using i(2) d(1) Suc.prems(3) by simp
  have step: "exec f (AppendIncBlock c d) s = Some s1"
    using id by (simp add: AppendIncBlock_def run s1_def algebra_simps)
  have here: "?T s j = T (local_id s)" using Suc.prems(3) by (metis set_get_dim(1))
  have agree: "get_dim e (set_dim d (of_nat v) i) = get_dim e (set_dim d (of_nat v) (local_id s))" if "e \<notin> E" for v e
    using i(2) that by (cases "e = d") simp_all
  then have rest: "?T s1 v = ?T s v" for v
    unfolding s1_def after_items_simps set_get_dim by (rule visits_cong [OF v])
  have s1: "flat l (local_id s1)" "skipped peel s1 = 0" "get_dim d (local_id s1) = of_nat (Suc j)" "x_init s1 = ?x"
    by (simp_all only: s1_def after_items_simps skipped_def set_get_dim flat_set_dim [OF i(1) d(2)]) simp
  have len: "skipped peel s \<le> length (T (local_id s))"
    using Suc.prems(2) visits_nonempty [OF v, of "local_id s"] by linarith
  have again: "(of_nat (Suc j) :: size_t) < word_of_int n \<longleftrightarrow> Suc j < nat n"
    using n Suc.prems(4) by (intro of_nat_less_size) simp_all
  show ?case
  proof (cases "Suc j < nat n")
    case True
    have fuel: "skipped peel s1 \<le> 1" "nat n - Suc j \<le> f'" using Suc.prems(5) s1(2) by simp_all
    obtain k where k: "do_loop f' (exec f (AppendIncBlock c d)) (\<lambda>s. get_dim d (local_id s) < word_of_int n) s1 =
        Some (after_items s1 k ?x r (concat (map (?T s1) [Suc j..<nat n])))"
      "flat l k" "\<forall>e. e \<notin> insert d E \<longrightarrow> get_dim e k = get_dim e (local_id s1)"
      using Suc.IH [OF s1(1) fuel(1) s1(3) True fuel(2)] unfolding s1(2,4) drop_0 if_cancel by (auto split: if_splits)
    have "[j..<nat n] = j # [Suc j..<nat n]" using Suc.prems(4) by (simp add: upt_conv_Cons)
    then have "drop (skipped peel s) (concat (map (?T s) [j..<nat n])) =
      drop (skipped peel s) (T (local_id s)) @ concat (map (?T s1) [Suc j..<nat n])"
      using len here by (simp add: rest)
    then show ?thesis
      using k step again True s1(3,4) i(2) by (intro exI [of _ k]) (simp add: s1_def)
  next
    case False
    then have "[j..<nat n] = [j]" using Suc.prems(4) by (simp add: upt_conv_Cons)
    then show ?thesis
      using step again False here flat_set_dim [OF i(1) d(2)] i(2) s1(3)
      by (intro exI [of _ "local_id s1"]) (simp add: s1_def)
  qed
qed simp

lemma visits_outer:
  assumes v: "visits f peel l r E T c" and d: "d \<notin> E" "get_dim d (size3_of l) = word_of_int n"
    and n: "0 < n" "n < 2 ^ 31" "nat n \<le> f"
  shows "visits f peel l r (insert d E) (\<lambda>i. concat (map (\<lambda>v. T (set_dim d (of_nat v) i)) [0..<nat n]))
    (if n > 1 then CreateLoopAround c False d n True else c)"
    (is "visits _ _ _ _ _ ?U _")
proof -
  have cong: "?U i = ?U j" if "\<forall>e. e \<notin> insert d E \<longrightarrow> get_dim e i = get_dim e j" for i j
  proof -
    have "T (set_dim d (of_nat v) i) = T (set_dim d (of_nat v) j)" for v
      using that by (intro visits_cong [OF v]) (metis get_set_other insert_iff set_get_dim(2))
    then show ?thesis by simp
  qed
  have ne: "?U i \<noteq> []" for i
    using n(1) visits_nonempty [OF v, of "set_dim d 0 i"] by (auto simp: upt_conv_Cons)
  have "\<exists>i. exec f (if n > 1 then CreateLoopAround c False d n True else c) s =
      Some (after_items s i (if peel then 0 else x_init s) r (drop (skipped peel s) (?U (local_id s)))) \<and>
      flat l i \<and> (\<forall>e. e \<notin> insert d E \<longrightarrow> get_dim e i = get_dim e (local_id s))"
    if s: "flat l (local_id s)" "skipped peel s \<le> 1" for s
  proof (cases "n > 1")
    case True
    then have ne1: "get_dim d (size3_of l) \<noteq> 1" using d(2) n word_of_int_size_eq_1 by simp
    define s0 where "s0 = store_local_id (set_dim d 0 (local_id s)) s"
    have s0: "s0 = after_items s (set_dim d 0 (local_id s)) (x_init s) r []"
      by (simp add: s0_def store_local_id_after [where r = r])
    have "flat l (local_id s0)" "skipped peel s0 \<le> 1" "get_dim d (local_id s0) = of_nat 0"
      using s(2) flat_set_dim [OF s(1) ne1] by (auto simp: s0 skipped_def)
    from outer_loop [OF v d(1) ne1 n(1,2) this, of f] n
    obtain i where "do_loop f (exec f (AppendIncBlock c d)) (\<lambda>s. get_dim d (local_id s) < word_of_int n) s0 =
        Some (after_items s0 i (if peel then 0 else x_init s0) r (drop (skipped peel s0) (?U (local_id s0))))"
      "flat l i" "\<forall>e. e \<notin> insert d E \<longrightarrow> get_dim e i = get_dim e (local_id s0)" by auto
    moreover have "?U (local_id s0) = ?U (local_id s)" "skipped peel s0 = skipped peel s" "x_init s0 = x_init s"
      by (simp_all add: s0 skipped_def)
    ultimately show ?thesis
      using True by (intro exI [of _ i]) (auto simp: CreateLoopAround_def s0_def [symmetric], simp_all add: s0)
  next
    case False
    then have "n = 1" using n by simp
    then have "get_dim d (local_id s) = 0" using s(1) d(2) by (simp add: flat_def)
    then have "?U (local_id s) = T (local_id s)"
      using \<open>n = 1\<close> set_get_dim(1) [of d "local_id s"] by simp
    moreover obtain i where "exec f c s = Some (after_items s i (if peel then 0 else x_init s) r (drop (skipped peel s) (T (local_id s))))"
      "flat l i" "\<And>e. e \<notin> E \<Longrightarrow> get_dim e i = get_dim e (local_id s)"
      using visitsE [OF v s] by blast
    ultimately show ?thesis using \<open>n = 1\<close> by (intro exI [of _ i]) simp
  qed
  with cong ne show ?thesis by (rule visitsI)
qed

section \<open>The loops of a region\<close>

lemma unroll_count_divides: "unroll_count n u > 1 \<Longrightarrow> n mod unroll_count n u = 0 \<and> unroll_count n u \<le> n"
proof (induction n u rule: unroll_count.induct)
  case (1 n u)
  show ?case
    using 1 unfolding unroll_count.simps [of n u] by (auto split: if_splits)
qed

lemma loop_x:
  assumes n: "1 < n" "n < 2 ^ 31" "nat n \<le> f" and m: "0 < m" "m dvd nat n" "peel \<longrightarrow> m = 1"
    and l: "get_dim Dim_X (size3_of l) = word_of_int n"
    and body: "\<And>s. exec f (if inc then AppendIncBlock c Dim_X else c) s = exec f (chain m (AppendIncBlock (Region r) Dim_X)) s"
  shows "visits f peel l r {Dim_X} (\<lambda>i. map (\<lambda>v. set_dim Dim_X (of_nat v) i) [0..<nat n]) (CreateLoopAround c peel Dim_X n inc)"
    (is "visits _ _ _ _ _ ?T _")
proof -
  have ne1: "get_dim Dim_X (size3_of l) \<noteq> 1" using l n word_of_int_size_eq_1 [of n] by simp
  have cong: "?T i = ?T j" if "\<forall>e. e \<notin> {Dim_X} \<longrightarrow> get_dim e i = get_dim e j" for i j
  proof -
    have "set_dim Dim_X v i = set_dim Dim_X v j" for v
      using that unfolding size3_eq_iff by (metis get_set_other set_get_dim(2) singletonD)
    then show ?thesis by simp
  qed
  have run: "exec f (CreateLoopAround c peel Dim_X n inc) s =
      Some (after_items s (set_dim Dim_X (of_nat (nat n)) (local_id s)) (if peel then 0 else x_init s) r
        (drop (skipped peel s) (?T (local_id s))))"
    if s: "skipped peel s \<le> 1" for s
  proof -
    let ?x = "if peel then 0 else x_init s" and ?j = "skipped peel s"
    define s0 where "s0 = after_items s (set_dim Dim_X (of_nat ?j) (local_id s)) ?x r []"
    have init: "exec f (if peel then Seq (Load_x_init Dim_X) (Store_x_init 0) else Store_local_id Dim_X 0) s = Some s0"
      by (simp add: s0_def skipped_def store_local_id_after [where r = r]) (simp add: after_items_def)
    have "m dvd nat n - ?j" using m by (auto simp: skipped_def)
    moreover have "?j < nat n" "nat n - ?j \<le> f" using s n by linarith+
    ultimately have "do_loop f (exec f (if inc then AppendIncBlock c Dim_X else c)) (\<lambda>s. get_dim Dim_X (local_id s) < word_of_int n) s0 =
      Some (after_items s0 (set_dim Dim_X (of_nat (nat n)) (local_id s0)) (x_init s0) r
        (map (\<lambda>v. set_dim Dim_X (of_nat v) (local_id s0)) [?j..<nat n]))"
      using n m(1) body by (intro x_loop [where m = m]) (simp_all add: s0_def)
    moreover have "drop ?j (?T (local_id s)) = map (\<lambda>v. set_dim Dim_X (of_nat v) (local_id s0)) [?j..<nat n]"
      by (simp add: drop_map s0_def)
    ultimately show ?thesis
      unfolding CreateLoopAround_def exec.simps(8,9) init by (simp add: s0_def)
  qed
  show ?thesis
  proof (rule visitsI [OF cong])
    fix s assume s: "flat l (local_id s)" "skipped peel s \<le> 1"
    show "\<exists>i. exec f (CreateLoopAround c peel Dim_X n inc) s =
        Some (after_items s i (if peel then 0 else x_init s) r (drop (skipped peel s) (?T (local_id s)))) \<and>
      flat l i \<and> (\<forall>d. d \<notin> {Dim_X} \<longrightarrow> get_dim d i = get_dim d (local_id s))"
      unfolding run [OF s(2)] by (intro exI conjI, rule refl, rule flat_set_dim [OF s(1) ne1]) simp
  qed (use n in simp_all)
qed

lemma visits_x:
  fixes u :: int and r :: nat
  assumes n: "0 < n" "n < 2 ^ 31" "nat n \<le> f" and peel: "peel \<longrightarrow> n \<noteq> 1"
    and l: "get_dim Dim_X (size3_of l) = word_of_int n"
  defines "unrolled \<equiv> \<not> peel \<and> unroll_count n u > 1"
  defines "c \<equiv> if unrolled then chain (nat (unroll_count n u)) (AppendIncBlock (Region r) Dim_X) else Region r"
  shows "visits f peel l r {Dim_X} (\<lambda>i. map (\<lambda>v. set_dim Dim_X (of_nat v) i) [0..<nat n])
    (if n > 1 then CreateLoopAround c peel Dim_X n (\<not> unrolled) else c)"
proof (cases "n > 1")
  case True
  define m where "m = (if unrolled then nat (unroll_count n u) else 1)"
  have "0 < m" "m dvd nat n" "peel \<longrightarrow> m = 1"
    using unroll_count_divides [of n u] True by (auto simp: m_def unrolled_def dvd_eq_mod_eq_0 nat_mod_distrib [symmetric])
  moreover have "exec f (if \<not> unrolled then AppendIncBlock c Dim_X else c) s =
    exec f (chain m (AppendIncBlock (Region r) Dim_X)) s" for s
    by (simp add: m_def c_def)
  ultimately show ?thesis using True loop_x [OF True n(2,3), where inc = "\<not> unrolled"] l by simp
next
  case False
  then have n1: "n = 1" and np: "\<not> peel" using n peel by auto
  have c: "c = Region r" using unroll_count_divides [of n u] n1 by (auto simp: c_def unrolled_def)
  have one: "map (\<lambda>v. set_dim Dim_X (of_nat v) i) [0..<nat n] = [set_dim Dim_X 0 i]" for i using n1 by simp
  have same: "set_dim Dim_X 0 i = i" if "flat l i" for i
    using that l n1 by (metis flat_def of_int_1 set_get_dim(1))
  show ?thesis
    unfolding one c using n1
  proof (simp only: less_irrefl if_False, intro visitsI)
    show "[set_dim Dim_X 0 i] = [set_dim Dim_X 0 j]" if "\<forall>d. d \<notin> {Dim_X} \<longrightarrow> get_dim d i = get_dim d j" for i j
      using that by (simp add: size3_eq_iff) (metis get_set_other set_get_dim(2))
    show "\<exists>i. exec f (Region r) s = Some (after_items s i (if peel then 0 else x_init s) r
        (drop (skipped peel s) [set_dim Dim_X 0 (local_id s)])) \<and> flat l i \<and>
        (\<forall>d. d \<notin> {Dim_X} \<longrightarrow> get_dim d i = get_dim d (local_id s))" if "flat l (local_id s)" for s
      unfolding same [OF that] region_after using np that by (intro exI [of _ "local_id s"]) (simp add: skipped_def)
  qed simp
qed

text \<open>The loops over x, y and z.\<close>

definition good_sizes :: "int3 \<Rightarrow> nat \<Rightarrow> bool" where
  "good_sizes l f \<longleftrightarrow> (case l of (x, y, z) \<Rightarrow>
     0 < x \<and> 0 < y \<and> 0 < z \<and> x * y * z < 2 ^ 31 \<and> nat x \<le> f \<and> nat y \<le> f \<and> nat z \<le> f)"

lemma factor_le:
  fixes x y :: int
  assumes "0 < x" "0 < y"
  shows "x \<le> x * y" "y \<le> x * y"
  using assms by simp_all

lemma good_sizes_bounds:
  assumes "good_sizes (x, y, z) f"
  shows "0 < x" "0 < y" "0 < z" "x < 2 ^ 31" "y < 2 ^ 31" "z < 2 ^ 31" "nat x \<le> f" "nat y \<le> f" "nat z \<le> f" "x * y < 2 ^ 31"
proof -
  show pos: "0 < x" "0 < y" "0 < z" "nat x \<le> f" "nat y \<le> f" "nat z \<le> f"
    using assms by (simp_all add: good_sizes_def)
  have "0 < x * y" using pos by simp
  then have "x * y \<le> x * y * z" "z \<le> x * y * z" "x \<le> x * y" "y \<le> x * y"
    using factor_le [of "x * y" z] factor_le [of x y] pos by simp_all
  moreover have "x * y * z < 2 ^ 31" using assms by (simp add: good_sizes_def)
  ultimately show "x < 2 ^ 31" "y < 2 ^ 31" "z < 2 ^ 31" "x * y < 2 ^ 31" by linarith+
qed

lemma unat_size: "0 < n \<Longrightarrow> n < 2 ^ 31 \<Longrightarrow> unat (word_of_int n :: size_t) = nat n"
  by (simp add: unat_eq_nat_uint uint_word_of_int take_bit_int_eq_self)

lemma item_count_good: "good_sizes l f \<Longrightarrow> item_count l = Ret (case l of (x, y, z) \<Rightarrow> x * y * z)"
  using good_sizes_bounds [of "fst l" "fst (snd l)" "snd (snd l)" f]
  by (cases l) (simp add: item_count_def good_sizes_def abs_mult)

text \<open>All local ids of a work-group, x fastest.\<close>

definition local_ids :: "int3 \<Rightarrow> size3 list" where
  "local_ids l = group_ids (size3_of l)"

lemma local_ids_levels:
  assumes "good_sizes (x, y, z) f"
  shows "concat (map (\<lambda>w. concat (map (\<lambda>v. map (\<lambda>u. set_dim Dim_X (of_nat u) (set_dim Dim_Y (of_nat v) (set_dim Dim_Z (of_nat w) i)))
    [0..<nat x]) [0..<nat y])) [0..<nat z]) = local_ids (x, y, z)"
  using good_sizes_bounds [OF assms]
  by (cases i) (simp add: local_ids_def group_ids_def unat_size)

lemma local_ids_first:
  assumes "good_sizes l f"
  shows "local_ids l = (0, 0, 0) # drop 1 (local_ids l)"
proof (cases l)
  case (fields x y z)
  then show ?thesis
    using good_sizes_bounds [of x y z f] assms
    by (simp add: local_ids_def group_ids_def unat_size upt_conv_Cons)
qed

lemma loops_of_region:
  assumes "good_sizes l f" and "peel \<longrightarrow> fst l \<noteq> 1"
    and s: "flat l (local_id s)"
  shows "\<exists>i x. exec f (wi_loops l u peel r) s = Some (after_items s i x r (local_ids l)) \<and> flat l i"
proof (cases l)
  case (fields x y z)
  have good: "good_sizes (x, y, z) f" using assms(1) fields by simp
  note b = good_sizes_bounds [OF good]
  define cx where "cx = (let unrolled = \<not> peel \<and> unroll_count x u > 1;
    c = if unrolled then chain (nat (unroll_count x u)) (AppendIncBlock (Region r) Dim_X) else Region r
    in if x > 1 then CreateLoopAround c peel Dim_X x (\<not> unrolled) else c)"
  define cy where "cy = (if y > 1 then CreateLoopAround cx False Dim_Y y True else cx)"
  define cz where "cz = (if z > 1 then CreateLoopAround cy False Dim_Z z True else cy)"
  have vx: "visits f peel l r {Dim_X} (\<lambda>i. map (\<lambda>v. set_dim Dim_X (of_nat v) i) [0..<nat x]) cx"
    unfolding cx_def Let_def using assms(2) b fields by (intro visits_x) simp_all
  have vz: "visits f peel l r {Dim_Z, Dim_Y, Dim_X} (\<lambda>_. local_ids l) cz"
    using visits_outer [OF visits_outer [OF vx, of Dim_Y y], of Dim_Z z] b fields
    unfolding cy_def cz_def local_ids_levels [OF good] by simp
  have code: "wi_loops l u peel r =
    (if peel then Seq (Seq (Store_x_init 1) (Seq (insertLocalIdInit 0 0 0) (Region r))) cz else cz)"
    by (simp add: wi_loops_def fields cx_def cy_def cz_def Let_def)
  show ?thesis
  proof (cases peel)
    case False
    then have k: "skipped peel s \<le> 1" "skipped peel s = 0" by (simp_all add: skipped_def)
    obtain i where i: "exec f cz s = Some (after_items s i (if peel then 0 else x_init s) r (drop (skipped peel s) (local_ids l)))" "flat l i"
      using visitsE [OF vz s k(1)] by blast
    have "exec f (wi_loops l u peel r) s = Some (after_items s i (x_init s) r (local_ids l))"
      using i(1) unfolding code k(2) by (simp add: False)
    then show ?thesis using i(2) by blast
  next
    case True
    define s1 where "s1 = after_items s (0, 0, 0) 1 r [(0, 0, 0)]"
    have first: "exec f (Seq (Store_x_init 1) (Seq (insertLocalIdInit 0 0 0) (Region r))) s = Some s1"
      by (cases "local_id s") (simp add: insertLocalIdInit_def s1_def after_items_def store_local_id_def local_id_def)
    have k: "skipped peel s1 = 1" and zero: "get_dim d (local_id s1) = 0" for d
      by (simp_all add: s1_def skipped_def True) (cases d; simp)
    have "flat l (local_id s1)" "skipped peel s1 \<le> 1" using zero k by (simp_all add: flat_def)
    then obtain i where "exec f cz s1 =
        Some (after_items s1 i (if peel then 0 else x_init s1) r (drop (skipped peel s1) (local_ids l)))" and i: "flat l i"
      using visitsE [OF vz] by blast
    then have "exec f (wi_loops l u peel r) s = Some (after_items s i 0 r ((0, 0, 0) # drop 1 (local_ids l)))"
      unfolding code k using True first by (simp add: s1_def)
    then show ?thesis unfolding local_ids_first [OF assms(1), symmetric] using i by blast
  qed
qed

section \<open>Work-groups\<close>

text \<open>What a region sees, and the order barriers promise: all work-items run a region before any runs the next.\<close>

definition seen :: "pocl_context \<Rightarrow> work_item \<Rightarrow> int3 \<Rightarrow> size3 \<Rightarrow> work_item" where
  "seen c w l i = (store_context c w)\<lparr>wi_local_size := size3_of l, wi_local_id := i\<rparr>"

definition in_lockstep :: "nat list \<Rightarrow> (size3 \<Rightarrow> work_item) \<Rightarrow> int3 \<Rightarrow> (nat \<times> work_item) list" where
  "in_lockstep path w l = concat (map (\<lambda>r. map (\<lambda>i. (r, w i)) (local_ids l)) path)"

text \<open>A code for region \<open>r\<close> that runs it for every local id, from ids with \<open>P\<close>.\<close>

definition runs_all :: "nat \<Rightarrow> (size3 \<Rightarrow> bool) \<Rightarrow> int3 \<Rightarrow> nat \<Rightarrow> wi_code \<Rightarrow> bool" where
  "runs_all f P l r c \<longleftrightarrow> (\<forall>s. P (local_id s) \<longrightarrow>
     (\<exists>i x. exec f c s = Some (after_items s i x r (local_ids l)) \<and> P i))"

lemma runs_allE:
  assumes "runs_all f P l r c" "P (local_id s)"
  obtains i x where "exec f c s = Some (after_items s i x r (local_ids l))" "P i"
  using assms unfolding runs_all_def by blast

lemma runs_allI:
  assumes "\<And>s. P (local_id s) \<Longrightarrow> exec f c s = Some (after_items s (i s) (x s) r (local_ids l)) \<and> P (i s)"
  shows "runs_all f P l r c"
  using assms unfolding runs_all_def by blast

lemma exec_path_all:
  assumes "\<forall>r < length codes. runs_all f P l r (codes ! r)" "\<forall>r \<in> set path. r < length codes"
    and "P (local_id s)"
  shows "\<exists>s'. exec_path f codes path s = Some s' \<and>
    runs s' = runs s @ in_lockstep path (\<lambda>i. (item s)\<lparr>wi_local_id := i\<rparr>) l"
  using assms(2,3)
proof (induction path arbitrary: s)
  case (Cons r path)
  have r: "r < length codes" using Cons.prems by simp
  then obtain i x where step: "exec f (codes ! r) s = Some (after_items s i x r (local_ids l))" and i: "P i"
    using runs_allE [where P = P, OF _ Cons.prems(2)] assms(1) by blast
  let ?s = "after_items s i x r (local_ids l)"
  have "runs ?s = runs s @ map (\<lambda>i. (r, (item s)\<lparr>wi_local_id := i\<rparr>)) (local_ids l)"
    and same: "(item ?s)\<lparr>wi_local_id := j\<rparr> = (item s)\<lparr>wi_local_id := j\<rparr>" for j
    by (simp_all add: after_items_def)
  then show ?case
    using Cons.IH [of ?s] Cons.prems(1) step i by (auto simp: in_lockstep_def r)
qed (simp add: in_lockstep_def)

lemma run_work_group_all:
  assumes "\<forall>r < length (region_codes k). runs_all f P l r (region_codes k ! r)"
    and "\<forall>r \<in> set path. r < length (region_codes k)"
    and "exec f (entry_code k) \<lparr>item = store_context c w, x_init = x, runs = []\<rparr> =
      Some \<lparr>item = seen c w l i, x_init = x, runs = []\<rparr>" "P i"
  shows "run_work_group f k path c w x = Some (in_lockstep path (seen c w l) l)"
proof -
  let ?s = "\<lparr>item = seen c w l i, x_init = x, runs = []\<rparr>"
  have upd: "(seen c w l i)\<lparr>wi_local_id := j\<rparr> = seen c w l j" for j by (simp add: seen_def)
  have "P (local_id ?s)" using assms(4) by (simp add: local_id_def seen_def)
  from exec_path_all [OF assms(1,2) this] show ?thesis
    by (auto simp: run_work_group_def assms(3) upd)
qed

lemma exec_replicas:
  "exec f (foldl (\<lambda>c i. Seq c (replica r i)) Skip is) s =
     Some (after_items s (if is = [] then local_id s else size3_of (last is)) (x_init s) r (map size3_of is))"
proof (induction "is" rule: rev_induct)
  case (snoc i "is")
  have "exec f (replica r i) s = Some (after_items s (size3_of i) (x_init s) r [size3_of i])" for s
    by (cases i; cases "local_id s")
      (simp add: insertLocalIdInit_def after_items_def store_local_id_def local_id_def)
  then show ?case using snoc by simp
qed simp

lemma upto_upt: "[0..n - 1] = map int [0..<nat n]"
proof (cases "0 < n")
  case True
  then show ?thesis by (intro nth_equalityI) (simp_all add: nth_upto)
qed simp

lemma replica_ids_local:
  assumes "good_sizes l f"
  shows "map size3_of (replica_ids l) = local_ids l"
proof (cases l)
  case (fields x y z)
  then show ?thesis
    using good_sizes_bounds [of x y z f] assms
    by (simp add: local_ids_def replica_ids_def group_ids_def unat_size upto_upt map_concat comp_def)
qed

lemma replicated:
  assumes "good_sizes l f" "WorkitemReplication l entries = Ret k" "\<forall>r \<in> set path. r < length entries"
  shows "run_work_group f k path c w x = Some (in_lockstep path (seen c w l) l)"
proof -
  have k: "k = \<lparr>entry_code = Store_local_size (size3_of l),
      region_codes = map (\<lambda>r. foldl (\<lambda>c i. Seq c (replica r i)) Skip (replica_ids l)) [0..<length entries]\<rparr>"
    using assms(2) by (simp add: WorkitemReplication_def item_count_good [OF assms(1)] split: if_splits)
  have "runs_all f (\<lambda>_. True) l r (region_codes k ! r)" if "r < length (region_codes k)" for r
    using that by (intro runs_allI) (simp add: k exec_replicas replica_ids_local [OF assms(1)])
  moreover have "exec f (entry_code k) \<lparr>item = store_context c w, x_init = x, runs = []\<rparr> =
      Some \<lparr>item = seen c w l (wi_local_id w), x_init = x, runs = []\<rparr>"
    by (simp add: k seen_def init_local_size_def store_context_def)
  ultimately show ?thesis
    using assms(3) by (intro run_work_group_all [where P = "\<lambda>_. True"]) (simp_all add: k)
qed

lemma looped:
  assumes good: "good_sizes l f" and "WorkitemLoops e l entries = Ret k" "\<forall>r \<in> set path. r < length entries"
    and peel: "fst l = 1 \<longrightarrow> distinct entries \<or> l = (1, 1, 1)"
  shows "run_work_group f k path c w x = Some (in_lockstep path (seen c w l) l)"
proof -
  let ?init = "Seq (insertLocalIdInit 0 0 0) (Store_local_size (size3_of l))"
  have init: "exec f ?init \<lparr>item = store_context c w, x_init = x, runs = []\<rparr> =
      Some \<lparr>item = seen c w l (0, 0, 0), x_init = x, runs = []\<rparr>"
    by (cases "wi_local_id w")
      (simp add: insertLocalIdInit_def seen_def init_local_size_def store_local_id_def local_id_def store_context_def)
  have zero: "get_dim d (0, 0, 0) = 0" for d by (cases d) simp_all
  then have flat0: "flat l (0, 0, 0)" by (simp add: flat_def)
  have "\<exists>codes. k = \<lparr>entry_code = ?init, region_codes = codes\<rparr> \<and> length codes = length entries \<and>
    (\<forall>r < length entries. runs_all f (flat l) l r (codes ! r))"
  proof (cases "l = (1, 1, 1)")
    case True
    have "local_id s = (0, 0, 0)" if "flat l (local_id s)" for s
    proof -
      have "get_dim d (local_id s) = 0" for d using that by (cases d) (simp_all add: flat_def True)
      then show ?thesis by (simp add: size3_eq_iff zero)
    qed
    moreover have "local_ids l = [(0, 0, 0)]" by (simp add: True local_ids_def group_ids_def)
    ultimately have "runs_all f (flat l) l r (Region r)" for r
      by (intro runs_allI) (simp add: region_after del: exec.simps(2))
    then show ?thesis
      using assms(2) True
      by (intro exI [of _ "map Region [0..<length entries]"]) (auto simp: WorkitemLoops_def item_count_def Let_def)
  next
    case False
    then have "\<not> (case l of (x, y, z) \<Rightarrow> x * y * z) = 1"
      using good_sizes_bounds [of "fst l" "fst (snd l)" "snd (snd l)" f] good
      by (cases l) (auto simp: zmult_eq_1_iff)
    then obtain u where k: "k = \<lparr>entry_code = ?init,
      region_codes = map (\<lambda>r. wi_loops l u (count_list entries (entries ! r) > 1) r) [0..<length entries]\<rparr>"
      using assms(2) by (auto simp: WorkitemLoops_def item_count_good [OF good] Let_def obind_Ret_iff)
    have "\<not> count_list entries a > 1" if "distinct entries" for a
      using that by (induction entries) auto
    then have "runs_all f (flat l) l r (wi_loops l u (count_list entries (entries ! r) > 1) r)" if "r < length entries" for r
      unfolding runs_all_def using peel False that by (intro allI impI loops_of_region [OF good]) auto
    then show ?thesis by (simp add: k)
  qed
  then show ?thesis
    using assms(3) init flat0 by (elim exE conjE, intro run_work_group_all [where P = "flat l"]) simp_all
qed

lemma group_runs:
  assumes "good_sizes l f" "work_group_code e l entries = Ret k" "\<forall>r \<in> set path. r < length entries"
    and "fst l = 1 \<longrightarrow> distinct entries \<or> l = (1, 1, 1) \<or> chosenHandler e l = Ret POCL_WIH_FULL_REPLICATION"
  shows "run_work_group f k path c w x = Some (in_lockstep path (seen c w l) l)"
proof -
  obtain h where h: "chosenHandler e l = Ret h" "(case h of POCL_WIH_LOOPS \<Rightarrow> WorkitemLoops e l entries
      | POCL_WIH_FULL_REPLICATION \<Rightarrow> WorkitemReplication l entries) = Ret k"
    using assms(2) by (auto simp: work_group_code_def obind_Ret_iff)
  then show ?thesis
    using looped [OF assms(1) _ assms(3)] replicated [OF assms(1) _ assms(3)] assms(4) by (cases h) auto
qed

section \<open>Global ids\<close>

text \<open>One dimension: group and local id from an offset in the index space, and back.\<close>

lemma unat_less_64: "unat (x :: size_t) < 2 ^ 64"
  using unsigned_less [of x, where ?'a = nat] by simp

lemma mult_div_mod_size: "(l :: size_t) * (x div l) + x mod l = x"
  using word_mod_div_equality [of x l] by (simp add: mult.commute)

lemma div_mod_size:
  fixes l g :: size_t
  assumes "l \<noteq> 0" "g mod l = 0"
  shows "a < g div l \<Longrightarrow> b < l \<Longrightarrow> l * a + b < g"
    and "a < g div l \<Longrightarrow> b < l \<Longrightarrow> (l * a + b) div l = a"
    and "a < g div l \<Longrightarrow> b < l \<Longrightarrow> (l * a + b) mod l = b"
    and "x < g \<Longrightarrow> x div l < g div l"
    and "x mod l < l"
    and "l * (g div l) = g"
proof -
  have l: "0 < unat l" using assms(1) by (simp add: unat_gt_0)
  have "unat g mod unat l = 0" using assms(2) by (simp flip: unat_mod_distrib)
  then have g: "unat g = unat l * (unat g div unat l)" by (metis add.right_neutral mult_div_mod_eq)
  show "x < g \<Longrightarrow> x div l < g div l" "x mod l < l"
    using l g by (simp_all add: word_less_nat_alt unat_div_distrib unat_mod_distrib less_mult_imp_div_less mult.commute)
  show "l * (g div l) = g"
    using arg_cong [OF g, of "of_nat :: nat \<Rightarrow> size_t"] by (simp flip: unat_div_distrib)
  assume "a < g div l" "b < l"
  then have ab: "unat a < unat g div unat l" "unat b < unat l" by (simp_all add: word_less_nat_alt unat_div_distrib)
  have "unat l * Suc (unat a) \<le> unat l * (unat g div unat l)" using ab(1) by (intro mult_le_mono2) simp
  then have lt: "unat l * unat a + unat b < unat g" using ab(2) unfolding g [symmetric] by simp
  then have u: "unat (l * a + b) = unat l * unat a + unat b"
    using unat_less_64 [of g] by (simp add: unat_word_ariths)
  show "l * a + b < g" "(l * a + b) div l = a" "(l * a + b) mod l = b"
    using lt u ab l by (simp_all add: word_less_nat_alt word_unat_eq_iff unat_div_distrib unat_mod_distrib)
qed

text \<open>The index space of a launch, relative to its offset, and the id of the work-item \<open>i\<close> of group \<open>gid\<close>.\<close>

definition index_space :: "size3 \<Rightarrow> size3 \<Rightarrow> size3 set" where
  "index_space off glob = {p. \<forall>d. get_dim d p - get_dim d off < get_dim d glob}"

definition global_id :: "work_item \<Rightarrow> size3" where
  "global_id w = (get_global_id w 0, get_global_id w 1, get_global_id w 2)"

text \<open>The three dimensions at once.\<close>

definition divisible :: "size3 \<Rightarrow> size3 \<Rightarrow> bool" where
  "divisible glob loc \<longleftrightarrow> (\<forall>d. get_dim d loc \<noteq> 0 \<and> get_dim d glob mod get_dim d loc = 0)"

definition map3 :: "(dim \<Rightarrow> size_t) \<Rightarrow> size3" where
  "map3 f = (f Dim_X, f Dim_Y, f Dim_Z)"

lemma get_map3 [simp]: "get_dim d (map3 f) = f d"
  by (cases d) (simp_all add: map3_def)

lemma set_group_ids_dim: "i \<in> set (group_ids n) \<longleftrightarrow> (\<forall>d. get_dim d i < get_dim d n)"
proof -
  obtain x y z a b c where "i = (x, y, z)" "n = (a, b, c)" by (metis surj_pair)
  then show ?thesis by (simp add: set_group_ids all_dims)
qed

definition point :: "size3 \<Rightarrow> size3 \<Rightarrow> size3 \<times> size3 \<Rightarrow> size3" where
  "point off loc p = (case p of (gid, i) \<Rightarrow> map3 (\<lambda>d. get_dim d off + get_dim d loc * get_dim d gid + get_dim d i))"

lemma point_bij:
  assumes "divisible glob loc" "\<And>d. get_dim d groups = get_dim d glob div get_dim d loc"
  shows "bij_betw (point off loc) (set (group_ids groups) \<times> set (group_ids loc)) (index_space off glob)"
proof (rule bij_betw_byWitness [where f' = "\<lambda>p. (map3 (\<lambda>d. (get_dim d p - get_dim d off) div get_dim d loc),
    map3 (\<lambda>d. (get_dim d p - get_dim d off) mod get_dim d loc))"])
  have d: "get_dim d loc \<noteq> 0" "get_dim d glob mod get_dim d loc = 0" for d
    using assms(1) by (simp_all add: divisible_def)
  show "\<forall>a\<in>set (group_ids groups) \<times> set (group_ids loc).
      (map3 (\<lambda>d. (get_dim d (point off loc a) - get_dim d off) div get_dim d loc),
       map3 (\<lambda>d. (get_dim d (point off loc a) - get_dim d off) mod get_dim d loc)) = a"
    using div_mod_size(2,3) [OF d]
    by (auto simp: set_group_ids_dim assms(2) point_def size3_eq_iff algebra_simps simp del: split_paired_All)
  show "\<forall>p\<in>index_space off glob. point off loc
      (map3 (\<lambda>d. (get_dim d p - get_dim d off) div get_dim d loc), map3 (\<lambda>d. (get_dim d p - get_dim d off) mod get_dim d loc)) = p"
    by (simp add: point_def size3_eq_iff mult_div_mod_size add.assoc)
  show "point off loc ` (set (group_ids groups) \<times> set (group_ids loc)) \<subseteq> index_space off glob"
    using div_mod_size(1) [OF d] by (auto simp: index_space_def point_def set_group_ids_dim assms(2) add.assoc)
  show "(\<lambda>p. (map3 (\<lambda>d. (get_dim d p - get_dim d off) div get_dim d loc), map3 (\<lambda>d. (get_dim d p - get_dim d off) mod get_dim d loc))) `
      index_space off glob \<subseteq> set (group_ids groups) \<times> set (group_ids loc)"
    using div_mod_size(4,5) [OF d] by (auto simp: index_space_def set_group_ids_dim assms(2))
qed

lemma global_id_seen: "global_id (seen c w l i) = point (global_offset c) (size3_of l) (group_id c, i)"
  by (cases "global_offset c"; cases "group_id c"; cases i; cases l)
    (simp add: global_id_def get_global_id_def by_dim_def seen_def store_context_def point_def map3_def)

lemma divisible_checks:
  assumes "group_checks dev wdim glob loc n_wait wait = Ret CL_SUCCESS" "div3 glob loc = Ret groups"
  shows "divisible glob loc" "get_dim d groups = get_dim d glob div get_dim d loc"
proof -
  obtain x y z a b c where v: "glob = (x, y, z)" "loc = (a, b, c)" by (metis surj_pair)
  have "a \<noteq> 0 \<and> b \<noteq> 0 \<and> c \<noteq> 0 \<and> x mod a = 0 \<and> y mod b = 0 \<and> z mod c = 0" "groups = (x div a, y div b, z div c)"
    using assms by (auto simp: v group_checks_def div3_def Let_def split: if_splits)
  then show "divisible glob loc" "get_dim d groups = get_dim d glob div get_dim d loc"
    by (simp_all add: divisible_def v all_dims) (cases d; simp)
qed

text \<open>The ids of all work-items of a launch, group by group.\<close>

lemma launch_ids:
  fixes w :: work_item and r :: nat
  assumes "divisible glob loc" "\<And>d. get_dim d groups = get_dim d glob div get_dim d loc" "loc = size3_of l"
    and c: "\<And>gid. global_offset (c gid) = off" "\<And>gid. group_id (c gid) = gid"
  defines "ids \<equiv> concat (map (\<lambda>gid. map (\<lambda>(_, w). global_id w) (in_lockstep [r] (seen (c gid) w l) l)) (group_ids groups))"
  shows "distinct ids" "set ids = index_space off glob"
proof -
  have ids: "ids = map (point off loc) (List.product (group_ids groups) (group_ids loc))"
    by (simp add: ids_def in_lockstep_def global_id_seen c product_concat_map map_concat comp_def local_ids_def assms(3))
  have bij: "bij_betw (point off loc) (set (group_ids groups) \<times> set (group_ids loc)) (index_space off glob)"
    by (rule point_bij [OF assms(1,2)])
  show "distinct ids" "set ids = index_space off glob"
    using bij by (simp_all add: ids distinct_map distinct_product group_ids_distinct bij_betw_def)
qed

section \<open>Properties\<close>

text \<open>
  C8. Whatever way the passes handle a work-group (replication, loops, unrolled loops, a peeled first
  work-item), the work-group code returns and runs each region the kernel goes through for every work-item of the
  group exactly once, with its own local id, and all work-items run a region before any of them runs
  the next, as barriers require. The one case left out is a diverging region in loops over a group whose first
  dimension has size 1.
\<close>

theorem work_group_in_lockstep:
  assumes "good_sizes l f" "work_group_code e l entries = Ret k" "\<forall>r \<in> set path. r < length entries"
    and "fst l = 1 \<longrightarrow> distinct entries \<or> l = (1, 1, 1) \<or> chosenHandler e l = Ret POCL_WIH_FULL_REPLICATION"
  shows "run_work_group f k path c w x = Some (in_lockstep path (seen c w l) l)"
  using assms by (rule group_runs)

theorem work_group_in_lockstep_witness:
  "\<exists>k. work_group_code \<lparr>POCL_WORK_GROUP_METHOD = None, POCL_FULL_REPLICATION_THRESHOLD = None,
       POCL_WILOOPS_MAX_UNROLL_COUNT = Some ''2''\<rparr> (2, 2, 1) [5, 5, 7] = Ret k \<and>
     (\<forall>c w. run_work_group 2 k [0, 2] c w 9 = Some (map (\<lambda>(r, i). (r, seen c w (2, 2, 1) i))
       [(0, 0, 0, 0), (0, 1, 0, 0), (0, 0, 1, 0), (0, 1, 1, 0), (2, 0, 0, 0), (2, 1, 0, 0), (2, 0, 1, 0), (2, 1, 1, 0)]))"
proof -
  let ?e = "\<lparr>POCL_WORK_GROUP_METHOD = None, POCL_FULL_REPLICATION_THRESHOLD = None,
    POCL_WILOOPS_MAX_UNROLL_COUNT = Some ''2''\<rparr>"
  obtain k where k: "work_group_code ?e (2, 2, 1) [5, 5, 7] = Ret k"
    by (simp add: work_group_code_def chosenHandler_def auto_handler_def item_count_def WorkitemLoops_def Let_def atoi_def)
  have "run_work_group 2 k [0, 2] c w 9 = Some (in_lockstep [0, 2] (seen c w (2, 2, 1)) (2, 2, 1))" for c w
    using work_group_in_lockstep [of "(2, 2, 1)" 2 ?e "[5, 5, 7]" k "[0, 2]"] k by (simp add: good_sizes_def)
  then show ?thesis
    using k by (intro exI [of _ k]) (simp add: in_lockstep_def local_ids_def group_ids_def upt_rec)
qed

text \<open>
  C7. A launch computes every point of its index space exactly once. When the checks of
  \<open>clEnqueueNDRangeKernel\<close> have passed, the ids \<open>get_global_id\<close> gives the work-items of all work-groups of the launch are
  distinct, and are the points from the global offset on to the global size in each dimension;
  \<open>get_global_size\<close> gives that size.
\<close>

theorem launch_covers_index_space:
  fixes off :: size3 and env :: env
  assumes "group_checks dev wdim glob loc n_wait wait = Ret CL_SUCCESS" "div3 glob loc = Ret groups"
    and "good_sizes l f" "loc = size3_of l" "work_group_code e l entries = Ret k" "r < length entries"
    and "fst l = 1 \<longrightarrow> distinct entries \<or> l = (1, 1, 1) \<or> chosenHandler e l = Ret POCL_WIH_FULL_REPLICATION"
  defines "c \<equiv> \<lambda>gid. (launch_pc env wdim off glob loc groups)\<lparr>group_id := gid\<rparr>"
  shows "\<exists>items. (\<forall>gid. run_work_group f k [r] (c gid) w x = Some (items gid)) \<and>
    distinct (concat (map (\<lambda>gid. map (\<lambda>(_, w). global_id w) (items gid)) (group_ids groups))) \<and>
    set (concat (map (\<lambda>gid. map (\<lambda>(_, w). global_id w) (items gid)) (group_ids groups))) = index_space off glob \<and>
    (\<forall>gid. \<forall>(r', w') \<in> set (items gid). (get_global_size w' 0, get_global_size w' 1, get_global_size w' 2) = glob)"
proof -
  note dv = divisible_checks [OF assms(1,2)]
  let ?items = "\<lambda>gid. in_lockstep [r] (seen (c gid) w l) l"
  have c: "global_offset (c gid) = off" "group_id (c gid) = gid" "num_groups (c gid) = groups" for gid
    by (simp_all add: c_def launch_pc_def)
  have run: "run_work_group f k [r] (c gid) w x = Some (?items gid)" for gid
    using assms(6) by (intro group_runs [OF assms(3,5) _ assms(7)]) simp
  have "get_dim d loc * get_dim d groups = get_dim d glob" for d
    using div_mod_size(6) dv(1) unfolding dv(2) divisible_def by blast
  from this [of Dim_X] this [of Dim_Y] this [of Dim_Z]
  have size: "(get_global_size (seen (c gid) w l i) 0, get_global_size (seen (c gid) w l i) 1, get_global_size (seen (c gid) w l i) 2) = glob"
    for gid i
    by (cases groups; cases loc; cases glob) (simp add: get_global_size_def by_dim_def seen_def store_context_def c assms(4) [symmetric])
  show ?thesis
    using run size launch_ids [where c = c, OF dv assms(4) c(1,2)]
    by (intro exI [of _ ?items]) (simp add: in_lockstep_def)
qed

theorem launch_covers_index_space_witness:
  "\<exists>k items. work_group_code \<lparr>POCL_WORK_GROUP_METHOD = Some ''loops'', POCL_FULL_REPLICATION_THRESHOLD = None,
       POCL_WILOOPS_MAX_UNROLL_COUNT = None\<rparr> (4, 1, 1) [0] = Ret k \<and>
     (\<forall>gid w. run_work_group 4 k [0] ((launch_pc demo_env 1 (7, 0, 0) (20, 1, 1) (4, 1, 1) (5, 1, 1))\<lparr>group_id := gid\<rparr>)
       \<lparr>wi_work_dim = 0, wi_local_size = (0, 0, 0), wi_group_id = (0, 0, 0), wi_num_groups = (0, 0, 0), wi_global_offset = (0, 0, 0),
        wi_local_id = (0, 0, 0)\<rparr> 0 = Some (items gid)) \<and>
     (26, 0, 0) \<in> set (concat (map (\<lambda>gid. map (\<lambda>(_, w). global_id w) (items gid)) (group_ids (5, 1, 1))))"
proof -
  let ?e = "\<lparr>POCL_WORK_GROUP_METHOD = Some ''loops'', POCL_FULL_REPLICATION_THRESHOLD = None,
    POCL_WILOOPS_MAX_UNROLL_COUNT = None\<rparr>"
  let ?w = "\<lparr>wi_work_dim = 0, wi_local_size = (0, 0, 0), wi_group_id = (0, 0, 0), wi_num_groups = (0, 0, 0),
    wi_global_offset = (0, 0, 0), wi_local_id = (0, 0, 0)\<rparr>"
  obtain k where k: "work_group_code ?e (4, 1, 1) [0] = Ret k"
    by (simp add: work_group_code_def chosenHandler_def item_count_def WorkitemLoops_def Let_def)
  have "get_dim d (26, 0, 0) - get_dim d (7, 0, 0) < get_dim d (20, 1, 1)" for d by (cases d) simp_all
  then have "(26, 0, 0) \<in> index_space (7, 0, 0) (20, 1, 1)" by (simp add: index_space_def)
  moreover have "good_sizes (4, 1, 1) 4" "(4, 1, 1) = size3_of (4, 1, 1)" by (simp_all add: good_sizes_def)
  moreover note launch_covers_index_space [OF demo_group_checks(1,2) _ _ k, where f = 4 and r = 0 and off = "(7, 0, 0)"
    and env = demo_env and w = ?w and x = 0]
  ultimately show ?thesis using k by (intro exI [of _ k]) (simp, blast)
qed

text \<open>
  C40. The case left out does not work: in loops over a work-group of size 1 in the first dimension, a diverging
  region runs a second time for the first work-item. Its first run is peeled, and the loops over the other
  dimensions begin with the first work-item again, because only the loop over the first dimension skips it.
\<close>

theorem peeled_item_runs_twice:
  assumes "good_sizes (1, y, z) f" "(y, z) \<noteq> (1, 1)" "WorkitemLoops e (1, y, z) entries = Ret k"
    and "r < length entries" "count_list entries (entries ! r) > 1"
  shows "run_work_group f k [r] c w x =
    Some ((r, seen c w (1, y, z) (0, 0, 0)) # in_lockstep [r] (seen c w (1, y, z)) (1, y, z))"
proof -
  let ?l = "(1, y, z) :: int3"
  have "y * z \<noteq> 1" using assms(2) good_sizes_bounds [OF assms(1)] by (auto simp: zmult_eq_1_iff)
  then obtain u where k: "k = \<lparr>entry_code = Seq (insertLocalIdInit 0 0 0) (Store_local_size (size3_of ?l)),
      region_codes = map (\<lambda>r. wi_loops ?l u (count_list entries (entries ! r) > 1) r) [0..<length entries]\<rparr>"
    using assms(3) by (auto simp: WorkitemLoops_def item_count_good [OF assms(1)] Let_def obind_Ret_iff)
  define first where "first = Seq (Store_x_init 1) (Seq (insertLocalIdInit 0 0 0) (Region r))"
  have code: "wi_loops ?l u True r = Seq first (wi_loops ?l u False r)"
    using unroll_count_divides [of 1 u] by (auto simp: wi_loops_def Let_def first_def)
  define s where "s = \<lparr>item = seen c w ?l (0, 0, 0), x_init = 1, runs = [(r, seen c w ?l (0, 0, 0))]\<rparr>"
  have zero: "get_dim d (0, 0, 0) = 0" for d by (cases d) simp_all
  obtain s0 where first: "exec f (entry_code k) \<lparr>item = store_context c w, x_init = x, runs = []\<rparr> = Some s0" "exec f first s0 = Some s"
    by (cases "wi_local_id w")
      (simp add: k s_def first_def insertLocalIdInit_def seen_def init_local_size_def store_local_id_def local_id_def store_context_def)
  have "flat ?l (local_id s)" by (simp add: flat_def zero s_def local_id_def seen_def)
  then obtain i x' where second: "exec f (wi_loops ?l u False r) s = Some (after_items s i x' r (local_ids ?l))"
    using loops_of_region [OF assms(1), of False s u r] by blast
  have "region_codes k ! r = wi_loops ?l u True r" "r < length (region_codes k)" using assms(4,5) by (simp_all add: k)
  then have "Option.bind (exec f (entry_code k) \<lparr>item = store_context c w, x_init = x, runs = []\<rparr>)
      (exec_path f (region_codes k) [r]) = Some (after_items s i x' r (local_ids ?l))"
    using first second by (simp add: code)
  then show ?thesis
    by (simp only: run_work_group_def option.map) (simp add: s_def after_items_def in_lockstep_def seen_def)
qed

theorem peeled_item_runs_twice_witness:
  "\<exists>k. WorkitemLoops \<lparr>POCL_WORK_GROUP_METHOD = None, POCL_FULL_REPLICATION_THRESHOLD = None,
       POCL_WILOOPS_MAX_UNROLL_COUNT = None\<rparr> (1, 3, 1) [5, 5, 7] = Ret k \<and>
     (\<forall>c w. run_work_group 3 k [0] c w 9 = Some (map (\<lambda>i. (0, seen c w (1, 3, 1) i))
       [(0, 0, 0), (0, 0, 0), (0, 1, 0), (0, 2, 0)]))"
proof -
  let ?e = "\<lparr>POCL_WORK_GROUP_METHOD = None, POCL_FULL_REPLICATION_THRESHOLD = None, POCL_WILOOPS_MAX_UNROLL_COUNT = None\<rparr>"
  obtain k where k: "WorkitemLoops ?e (1, 3, 1) [5, 5, 7] = Ret k"
    by (simp add: item_count_def WorkitemLoops_def Let_def)
  have "run_work_group 3 k [0] c w 9 =
      Some ((0, seen c w (1, 3, 1) (0, 0, 0)) # in_lockstep [0] (seen c w (1, 3, 1)) (1, 3, 1))" for c w
    using peeled_item_runs_twice [OF _ _ k, of 3 0] by (simp add: good_sizes_def)
  then show ?thesis
    using k by (intro exI [of _ k]) (simp add: in_lockstep_def local_ids_def group_ids_def upt_rec)
qed

end
