(* ===== verification/Cellspu.thy ===== *)
theory Cellspu
  imports Memory
begin

text \<open>
  The memory operations of the Cell driver (\<open>lib/CL/devices/cellspu/cellspu.c\<close>). Its buffers are chunks of one region in the local
  store of the synergistic processor, which the host sees at an address that \<open>libspe2\<close> gives (\<open>spe_ls_area_get\<close>, a
  parameter). Most operations of the driver end the process. Compiling and running a kernel is left out.
\<close>

definition CELLSPU_OCL_BUFFERS_START :: size_t where "CELLSPU_OCL_BUFFERS_START = 0x10000"
definition CELLSPU_KERNEL_CMD_ADDR :: size_t where "CELLSPU_KERNEL_CMD_ADDR = 0x30000"

text \<open>The globals of the driver and what the device structure gets.\<close>

record cellspu =
  spe_local_mem :: memory_region
  cell_global_mem_size :: size_t
  cell_max_mem_alloc_size :: size_t

definition pocl_cellspu_init :: "memory_region \<Rightarrow> cellspu" where
  "pocl_cellspu_init r =
     (let global_mem_size = 256 * 1024; max_mem_alloc_size = global_mem_size div 2 in
      \<lparr>spe_local_mem = init_mem_region r CELLSPU_OCL_BUFFERS_START max_mem_alloc_size,
       cell_global_mem_size = global_mem_size, cell_max_mem_alloc_size = max_mem_alloc_size\<rparr>)"

text \<open>The region is the only one of its list.\<close>

definition cellspu_malloc_local :: "size_t \<Rightarrow> cellspu \<Rightarrow> (ptr option \<times> cellspu) outcome" where
  "cellspu_malloc_local sz d =
     obind (alloc_buffer [spe_local_mem d] sz) (\<lambda>(chunk, rs).
     Ret (map_option snd chunk, d\<lparr>spe_local_mem := (case rs of [] \<Rightarrow> spe_local_mem d | r # _ \<Rightarrow> r)\<rparr>))"

definition pocl_cellspu_malloc :: "size_t \<Rightarrow> cellspu \<Rightarrow> (ptr option \<times> cellspu) outcome" where
  "pocl_cellspu_malloc sz d =
     obind (alloc_buffer [spe_local_mem d] sz) (\<lambda>(chunk, rs).
     Ret (map_option snd chunk, d\<lparr>spe_local_mem := (case rs of [] \<Rightarrow> spe_local_mem d | r # _ \<Rightarrow> r)\<rparr>))"

definition pocl_cellspu_read :: "size_t \<Rightarrow> cellspu \<Rightarrow> memory \<Rightarrow> size_t \<Rightarrow> ptr \<Rightarrow> size_t \<Rightarrow> memory outcome" where
  "pocl_cellspu_read mmap_base d m host_ptr chunk cb =
     obind (c_assert (is_allocated (all_chunks (spe_local_mem d) chunk))) (\<lambda>_.
     memcpy m host_ptr (mmap_base + start_address (all_chunks (spe_local_mem d) chunk)) cb)"

definition cellspu_memwrite :: "size_t \<Rightarrow> memory \<Rightarrow> size_t \<Rightarrow> size_t \<Rightarrow> size_t \<Rightarrow> memory outcome" where
  "cellspu_memwrite mmap_base m lsa host_a n = memcpy m (mmap_base + lsa) host_a n"

definition pocl_cellspu_write :: "size_t \<Rightarrow> cellspu \<Rightarrow> memory \<Rightarrow> size_t \<Rightarrow> ptr \<Rightarrow> size_t \<Rightarrow> memory outcome" where
  "pocl_cellspu_write mmap_base d m host_ptr chunk cb =
     obind (c_assert (is_allocated (all_chunks (spe_local_mem d) chunk))) (\<lambda>_.
     cellspu_memwrite mmap_base m (start_address (all_chunks (spe_local_mem d) chunk)) host_ptr cb)"

text \<open>The operations that begin with \<open>POCL_ABORT_UNIMPLEMENTED\<close>.\<close>

definition pocl_cellspu_free :: "cellspu \<Rightarrow> ptr \<Rightarrow> cellspu outcome" where
  "pocl_cellspu_free d p = Abort"

definition pocl_cellspu_copy :: "memory \<Rightarrow> size_t \<Rightarrow> size_t \<Rightarrow> size_t \<Rightarrow> memory outcome" where
  "pocl_cellspu_copy m src_ptr dst_ptr cb = Abort"

definition pocl_cellspu_map_mem :: "memory \<Rightarrow> size_t \<Rightarrow> size_t \<Rightarrow> size_t \<Rightarrow> size_t outcome" where
  "pocl_cellspu_map_mem m buf_ptr offset host_ptr = Abort"

section \<open>Buffers keep what is written\<close>

lemma in_range_shift: "in_range (ls + p) n x \<longleftrightarrow> in_range p n (x - ls)"
  by (simp add: in_range_def algebra_simps)

lemma apart_shift: "apart p n q k \<Longrightarrow> apart (ls + p) n (ls + q) k"
  unfolding apart_def by (simp add: in_range_shift)

lemma apart_le: "apart p n q k \<Longrightarrow> n' \<le> n \<Longrightarrow> k' \<le> k \<Longrightarrow> apart p n' q k'"
  unfolding apart_def in_range_def by (meson order_less_le_trans)

text \<open>A state the driver gets to: the region has its invariant.\<close>

definition cell_inv :: "cellspu \<Rightarrow> bool" where
  "cell_inv d \<longleftrightarrow> region_inv 0x10000 0x30000 (spe_local_mem d)"

lemma cell_init_inv: "cell_inv (pocl_cellspu_init r)"
  using init_mem_region_inv(1) [of "0x20000" "0x10000" r]
  by (simp add: cell_inv_def pocl_cellspu_init_def CELLSPU_OCL_BUFFERS_START_def Let_def)

lemma cell_malloc:
  assumes "cell_inv d" "req_ok (spe_local_mem d) sz"
  shows "\<exists>res d'. pocl_cellspu_malloc sz d = Ret (res, d') \<and> cell_inv d' \<and>
    (case res of None \<Rightarrow> d' = d
     | Some c \<Rightarrow> \<exists>a n. live (spe_local_mem d) c = None \<and> live (spe_local_mem d') = (live (spe_local_mem d))(c \<mapsto> (a, n)) \<and>
         al (spe_local_mem d) dvd a \<and> unat sz \<le> n)"
proof -
  obtain res r' where r': "alloc_buffer_from_region (spe_local_mem d) sz = Ret (res, r')" "region_inv 0x10000 0x30000 r'"
    "case res of None \<Rightarrow> r' = spe_local_mem d
     | Some c \<Rightarrow> \<exists>a n. live (spe_local_mem d) c = None \<and> live r' = (live (spe_local_mem d))(c \<mapsto> (a, n)) \<and>
         al (spe_local_mem d) dvd a \<and> unat sz \<le> n"
    using alloc_region_spec [OF assms(1) [unfolded cell_inv_def] assms(2)] by blast
  define d' where "d' = d\<lparr>spe_local_mem := r'\<rparr>"
  have "pocl_cellspu_malloc sz d = Ret (res, d')"
    using r'(1,3) by (cases res) (simp_all add: pocl_cellspu_malloc_def d'_def)
  then show ?thesis using r'(2,3) by (intro exI [of _ res] exI [of _ d']) (simp add: cell_inv_def d'_def split: option.splits)
qed

lemma live_chunk:
  assumes "cell_inv d" "live (spe_local_mem d) c = Some (a, n)"
  shows "is_allocated (all_chunks (spe_local_mem d) c)" "unat (start_address (all_chunks (spe_local_mem d) c)) = a" "a + n \<le> 0x30000"
  using assms by (auto simp: live_def cell_inv_def region_inv_def c_start_def c_end_def split: if_splits)

text \<open>What is written to a buffer is read back after a write to another one.\<close>

theorem cell_write_write_read:
  assumes inv: "cell_inv d" and c: "live (spe_local_mem d) c = Some (a, n)" and e: "live (spe_local_mem d) e = Some (b, k)" "c \<noteq> e"
    and sizes: "unat x \<le> n" "unat y \<le> k"
    and w1: "pocl_cellspu_write ls d m h c x = Ret m1" and w2: "pocl_cellspu_write ls d m1 g e y = Ret m2"
    and r: "pocl_cellspu_read ls d m2 h' c x = Ret m3"
  shows "load m3 h' (unat x) = load m h (unat x)"
proof -
  let ?s = "\<lambda>c. start_address (all_chunks (spe_local_mem d) c)"
  note lc = live_chunk [OF inv c] and le = live_chunk [OF inv e(1)]
  have "a + n \<le> b \<or> b + k \<le> a" using live_disjoint [OF _ c] inv e unfolding cell_inv_def by blast
  then have "apart (?s e) k (?s c) n"
    using apart_linear [of "?s c" n "?s e" k] apart_linear [of "?s e" k "?s c" n] lc(2,3) le(2,3) apart_sym by fastforce
  then have "apart (ls + ?s e) k (ls + ?s c) n" by (rule apart_shift)
  then have ap: "apart (ls + ?s e) (unat y) (ls + ?s c) (unat x)" by (rule apart_le [OF _ sizes(2,1)])
  have m: "memcpy m (ls + ?s c) h x = Ret m1" "memcpy m1 (ls + ?s e) g y = Ret m2" "memcpy m2 h' (ls + ?s c) x = Ret m3"
    using w1 w2 r lc(1) le(1) by (simp_all add: pocl_cellspu_write_def pocl_cellspu_read_def cellspu_memwrite_def c_assert_def)
  obtain bs where bs: "load m h (unat x) = Ret bs"
    using m(1) by (auto simp: memcpy_Ret_iff load_def)
  have "load m2 (ls + ?s c) (unat x) = Ret bs"
    using load_memcpy_apart [OF m(2) ap unat_le_64] load_memcpy_dst [OF m(1) bs] by simp
  then show ?thesis using load_memcpy_dst [OF m(3)] bs by simp
qed

end
