(* ===== verification/Poclu.thy ===== *)
theory Poclu
  imports Pocl_Util
begin

text \<open>
  The byte swapping functions of the utility library for applications (\<open>lib/poclu/poclu_bswap.c\<close>), on a little-endian host. A
  \<open>float\<close> is its 32-bit representation, as in \<open>Pocl_Util\<close>; \<open>deviceLittle\<close> is the answer of \<open>clGetDeviceInfo\<close> to
  \<open>CL_DEVICE_ENDIAN_LITTLE\<close>. An array is the list of the elements the pointer gives access to.
\<close>

definition needs_swap :: "bool \<Rightarrow> bool" where
  "needs_swap deviceLittle \<longleftrightarrow> \<not> deviceLittle"

text \<open>The loop of the macro over the bytes of a 32-bit word.\<close>

definition GENERIC_BYTESWAP :: "32 word \<Rightarrow> 32 word" where
  "GENERIC_BYTESWAP w =
     (let neww = map (\<lambda>i. word_byte w (4 - i - 1)) [0..<4] in bytes_word (neww ! 0) (neww ! 1) (neww ! 2) (neww ! 3))"

definition poclu_bswap_cl_int :: "bool \<Rightarrow> 32 word \<Rightarrow> 32 word" where
  "poclu_bswap_cl_int deviceLittle original =
     (if \<not> needs_swap deviceLittle then original else GENERIC_BYTESWAP original)"

definition poclu_bswap_cl_float :: "bool \<Rightarrow> 32 word \<Rightarrow> 32 word" where
  "poclu_bswap_cl_float deviceLittle original =
     (if \<not> needs_swap deviceLittle then original else GENERIC_BYTESWAP original)"

definition swap_elements :: "('a \<Rightarrow> 'a) \<Rightarrow> nat \<Rightarrow> 'a list \<Rightarrow> 'a list outcome" where
  "swap_elements f num_elements arr =
     (if num_elements \<le> length arr then Ret (foldl (\<lambda>a i. a[i := f (a ! i)]) arr [0..<num_elements]) else Undef)"

definition poclu_bswap_cl_int_array :: "bool \<Rightarrow> 32 word list \<Rightarrow> nat \<Rightarrow> 32 word list outcome" where
  "poclu_bswap_cl_int_array deviceLittle arr num_elements =
     (if \<not> needs_swap deviceLittle then Ret arr else swap_elements GENERIC_BYTESWAP num_elements arr)"

definition poclu_bswap_cl_float_array :: "bool \<Rightarrow> 32 word list \<Rightarrow> nat \<Rightarrow> 32 word list outcome" where
  "poclu_bswap_cl_float_array deviceLittle arr num_elements =
     (if \<not> needs_swap deviceLittle then Ret arr else swap_elements GENERIC_BYTESWAP num_elements arr)"

definition poclu_bswap_cl_float2_array :: "bool \<Rightarrow> (32 word \<times> 32 word) list \<Rightarrow> nat \<Rightarrow> (32 word \<times> 32 word) list outcome" where
  "poclu_bswap_cl_float2_array deviceLittle arr num_elements =
     (if \<not> needs_swap deviceLittle then Ret arr
      else swap_elements (\<lambda>(x, y). (GENERIC_BYTESWAP x, GENERIC_BYTESWAP y)) num_elements arr)"

section \<open>Swapping is the same everywhere and undoes itself\<close>

lemma upt_4: "[0..<4] = [0, 1, 2, 3 :: nat]"
  by (simp add: upt_rec)

lemma generic_byteswap_byteswap: "GENERIC_BYTESWAP w = byteswap_uint32_t w True"
  by (simp add: GENERIC_BYTESWAP_def byteswap_uint32_t_def upt_4)

lemma generic_byteswap_twice [simp]: "GENERIC_BYTESWAP (GENERIC_BYTESWAP w) = w"
  unfolding generic_byteswap_byteswap
  by (simp add: byteswap_uint32_t_def word_byte_bytes_word bytes_word_word_byte
      word_byte_bytes_word [unfolded One_nat_def] bytes_word_word_byte [unfolded One_nat_def])

lemma swap_elements_map:
  assumes "n \<le> length arr"
  shows "swap_elements f n arr = Ret (map f (take n arr) @ drop n arr)"
proof -
  have "k \<le> length arr \<Longrightarrow> foldl (\<lambda>a i. a[i := f (a ! i)]) arr [0..<k] = map f (take k arr) @ drop k arr" for k
  proof (induction k)
    case (Suc k)
    then have "drop k arr = arr ! k # drop (Suc k) arr" by (simp add: Cons_nth_drop_Suc)
    then show ?case using Suc by (simp add: list_update_append nth_append take_Suc_conv_app_nth)
  qed simp
  then show ?thesis using assms by (simp add: swap_elements_def)
qed

theorem bswap_arrays_undo:
  assumes "n \<le> length arr"
  shows "\<exists>arr'. poclu_bswap_cl_int_array little arr n = Ret arr' \<and> length arr' = length arr \<and>
    (\<forall>i < length arr. arr' ! i = (if i < n then poclu_bswap_cl_int little (arr ! i) else arr ! i)) \<and>
    poclu_bswap_cl_int_array little arr' n = Ret arr \<and> poclu_bswap_cl_float_array little arr n = Ret arr'"
proof (cases little)
  case True
  then show ?thesis by (simp add: poclu_bswap_cl_int_array_def poclu_bswap_cl_float_array_def poclu_bswap_cl_int_def needs_swap_def)
next
  case False
  let ?a = "map GENERIC_BYTESWAP (take n arr) @ drop n arr"
  have "swap_elements GENERIC_BYTESWAP n ?a = Ret arr"
    using assms swap_elements_map [of n ?a GENERIC_BYTESWAP] by (simp add: comp_def)
  then show ?thesis
    using assms False
    by (intro exI [of _ ?a]) (auto simp: poclu_bswap_cl_int_array_def poclu_bswap_cl_float_array_def poclu_bswap_cl_int_def
        needs_swap_def swap_elements_map nth_append)
qed

end
