(* ===== verification/Spec2Isabelle.thy ===== *)
theory Spec2Isabelle
  imports Utlist Bufalloc Pocl_Util Queue_Claims Creation_Claims Context_Claims Info_Claims Kernel_Claims Rect_Claims Image_Claims
    Program_Claims Brig_Claims Kernel_Creation_Claims Hsa_Claims
    Kernel_Lib_Claims Regions Work_Item_Claims Cellspu Poclu
begin

text \<open>
  A verification library for the host runtime of pocl, the Portable Computing Language: the OpenCL
  API functions under \<open>lib/CL\<close>, with the helpers and device drivers they call.

  \<^bold>\<open>The program.\<close> An application finds the platform and its devices, creates a context, buffers and a command
  queue, and enqueues commands. Every object is a record with a reference count. A queued command
  holds references to what it uses; a blocking call and \<open>clFinish\<close> run the queue in order and
  give the references back. The work on memory is done by a device driver through a table of
  function pointers. Two CPU drivers are built in: \<open>basic\<close> works in the calling thread, \<open>pthread\<close>
  splits the work-groups of a kernel over threads and takes buffers from a region allocator. A third driver,
  \<open>hsa\<close>, packs the arguments of a kernel and dispatches it to a GPU. Programs are compiled by scripts that
  leave files, kernels are described by shared objects or found in the source text.

  \<^bold>\<open>Theories and code.\<close>
  \<^item> \<open>Pocl_Prelude\<close>: C types, the outcome of a call (a value, \<open>Abort\<close> when the process ends or the call
    does not return, \<open>Undef\<close> for undefined behaviour), loops over lists, rounding of addresses.
  \<^item> \<open>Utlist\<close> (\<open>include/utlist.h\<close>): the intrusive list macros as updates of a store of links, shown equal to
    operations on lists.
  \<^item> \<open>Bufalloc\<close> (\<open>lib/CL/devices/bufalloc.c\<close>): regions, chunks, allocation, freeing and merging, with the
    invariant that the chunks tile the region, kept by every run of operations.
  \<^item> \<open>Pocl_Util\<close> (\<open>lib/CL/pocl_util.c\<close>): byte swapping, the next power of two, aligned allocation.
  \<^item> \<open>Memory\<close>: bytes at 64-bit addresses and the blocks of the C library, whose choices are the record
    \<open>c_library\<close> with the documented promises \<open>library_ok\<close>.
  \<^item> \<open>Driver\<close> (\<open>lib/CL/devices/basic\<close>, \<open>lib/CL/devices/pthread\<close>): the function table and the memory operations of both
    drivers, and the table of image formats. The locale \<open>device_driver\<close> is what the runtime relies on, \<open>rect_driver\<close>
    extends it with rectangular transfers; both drivers interpret them.
  \<^item> \<open>Runtime\<close> (\<open>lib/CL/pocl_cl.h\<close>, \<open>include/pocl.h\<close>): the records of all objects, one store per type, the
    reference counting macros, and the environment \<open>env\<close> that answers what the runtime cannot decide.
  \<^item> \<open>Objects\<close>: the retain and release functions; the locale \<open>refcounted\<close> is interpreted for every
    object type.
  \<^item> \<open>Platform\<close> (\<open>devices.c\<close>, \<open>clGetPlatformIDs.c\<close>, \<open>clGetDeviceIDs.c\<close>): the device table.
  \<^item> \<open>Creation\<close>: buffers, sub-buffers, contexts and queues; \<open>Creation_Claims\<close> and \<open>Context_Claims\<close> hold their
    properties.
  \<^item> \<open>Queue\<close>: event status, execution of commands, waiting, transfers, filling, mapping. \<open>Queue_Proofs\<close> has
    the lemmas, \<open>Queue_Claims\<close> the properties and a small concrete runtime for the witnesses.
  \<^item> \<open>Rects\<close>: \<open>clEnqueueReadBufferRect\<close>, \<open>clEnqueueWriteBufferRect\<close> and \<open>clEnqueueCopyBufferRect\<close>; \<open>Rect_Claims\<close> has their properties.
  \<^item> \<open>Images\<close> (\<open>pocl_image_util.c\<close>, \<open>clGetSupportedImageFormats.c\<close>, \<open>clCreateImage.c\<close>, \<open>clCreateImage2D.c\<close>, the image
    commands and the samplers): formats of a context, creation of images, their transfers. \<open>Image_Claims\<close> has
    the properties.
  \<^item> \<open>Info\<close>: the \<open>clGet*Info\<close> queries as the bytes they store. \<open>Info_Claims\<close> states their contract as the
    locale \<open>info_query\<close>, interpreted for six of them, and compares the answers about a device with a table of
    the types and fields of its parameters.
  \<^item> \<open>Kernels\<close>: \<open>clSetKernelArg\<close>, \<open>clEnqueueNDRangeKernel\<close> and \<open>clEnqueueTask\<close>.
  \<^item> \<open>Execution\<close>: \<open>llvm_codegen\<close>, \<open>pocl_basic_run\<close> and \<open>pocl_pthread_run\<close>. A thread is the list of its steps (setting up an
    argument, running a work-group, cleaning up an argument) and a scheduler picks the next
    thread. \<open>Execution_Claims\<close> proves the locale \<open>independent_threads\<close>: steps that commute give the
    same state in every interleaving; it is interpreted on the threads of the pthread driver.
  \<^item> \<open>Kernel_Claims\<close>: setting arguments and whole launches.
  \<^item> \<open>Host\<close>: C strings, an explicit file system, and the record \<open>host\<close> of what the runtime asks the host for;
    \<open>pocl_create_temp_dir\<close>.
  \<^item> \<open>Brig\<close> (\<open>include/elf_utils.c\<close>, \<open>find_symbol_offset\<close>): loading a BRIG module and looking up a kernel in its bytes;
    \<open>Brig_Claims\<close> compares the search with a lookup in a list of directives, by the exact name and by its beginning.
  \<^item> \<open>Programs\<close>: \<open>clCreateProgramWithSource\<close> with the comment automaton, \<open>clCreateProgramWithBinary\<close>, \<open>clBuildProgram\<close>;
    \<open>Program_Claims\<close> has the properties.
  \<^item> \<open>Kernel_Creation\<close>: \<open>clCreateKernel\<close>, with the descriptor of a CPU kernel and the search of the parameter list of a
    GPU kernel; \<open>Kernel_Creation_Claims\<close> has the properties.
  \<^item> \<open>Hsa\<close> (\<open>lib/CL/devices/hsa/hsa.c\<close>): the memory operations, which interpret \<open>rect_driver\<close>, the argument buffer and the
    dispatch; \<open>Hsa_Claims\<close> has the layout of the arguments and of local memory.
  \<^item> \<open>Cellspu\<close> (\<open>lib/CL/devices/cellspu\<close>): the memory operations of the Cell driver on the region allocator; what is written to a
    buffer stays there. \<open>Poclu\<close> (\<open>lib/poclu/poclu_bswap.c\<close>): byte swapping for applications.
  \<^item> \<open>Regions\<close> (\<open>lib/llvmopencl/Kernel.cc\<close>, \<open>ParallelRegion.cc\<close>): control flow graphs, the search for the parallel regions between
    barriers, and its properties.
  \<^item> \<open>Work_Items\<close> (\<open>WorkitemHandlerChooser.cc\<close>, \<open>WorkitemLoops.cc\<close>, \<open>WorkitemReplication.cc\<close>, \<open>lib/kernel/get_*.c\<close>): the code the passes
    emit around a region, as a small language with its meaning, and the work-item functions; \<open>Work_Item_Claims\<close> has
    the properties, among them one of a whole launch.
  \<^item> \<open>Kernel_Lib\<close> (\<open>lib/kernel/*.cl\<close>, \<open>lib/kernel/templates.h\<close>): the integer functions of the kernel library on words of any
    width and sign; \<open>Kernel_Lib_Claims\<close> states what a signed and an unsigned type have in common as the locale \<open>int_type\<close>,
    interpreted for both, and compares the functions with the integers.

  \<^bold>\<open>State.\<close> Object pointers are numbers that are never reused; NULL is 0 and a freed object is absent, so that
  using it is undefined. Device memory of the CPU drivers is host memory. \<open>tick\<close> numbers the calls
  whose answer is up to the environment: allocation of records, the clock, the operating
  system, HSA. Early returns are result codes, failed assertions are \<open>Abort\<close>. Integers
  that can overflow in the code have their width: \<open>size_t\<close> is a 64-bit word, reference counts are
  \<open>int\<close> with undefined overflow.

  \<^bold>\<open>What is shown.\<close> The allocator fails no assertion, hands out aligned blocks apart from all live ones, keeps its invariant, and,
  for one of the two orders of evaluation C allows, gets everything back.
  Transfers, copies, maps and rectangular copies move exactly the bytes asked for, on both
  drivers; a box of a buffer whose rows do not overlap, and an image of floats by a blocking read on a CPU, read back as
  they were written, and an accepted box
  without an origin in z stays inside of its buffer; the supported image formats of a context are those
  all of its devices support, and their translation to HSA loses nothing; a queued read and a blocking one are equivalent; \<open>clFinish\<close> returns with a queue of
  transfers, maps and markers run in order and their references given back. Creating and releasing contexts of available CPU
  devices and buffers of one device is balanced. A kernel launched on the basic driver runs every work-group once, and the pthread driver refines the
  basic one for every number of threads and every interleaving. The search for a
  work-group size ends. Setting an argument stores exactly the bytes given and keeps kernels well-typed. A device query
  stores the value of the field that is asked for and never overruns the room it is given. Programs keep their source without its
  comments, are built into what the compiler makes of it for each device or report that it cannot, and give kernels with what the
  descriptor or the parameter list in the source says; the arguments of a GPU launch are packed
  whole and apart, its local arrays too when their sizes are those of the launch, and the packet says what a launch with sizes
  below 65536 says. The parallel regions of a kernel are the
  blocks in front of its barriers; the code around them runs every region for each work-item once before the next
  region begins (but for a diverging region in loops over groups of size 1 in the first dimension, which is shown to
  run twice for the first work-item), and the work-items of a launch have the points of the index space as their ids. The
  integer functions of the kernel library are exact, with the wrap-around of the machine where C leaves signed overflow open. Where the code does something else than it means to,
  the property states what it does.

  \<^bold>\<open>Bounds and parameters.\<close> All recursive functions terminate: over lists, or with a measure
  (\<open>wg_multiple\<close>, \<open>interleave\<close>, \<open>skip_prefixed\<close>); the search of a BRIG module may run forever and is a
  partial function, shown to return on well-formed modules. The loops of a work-group and the searches for regions have fuel;
  a loop needs as much as its dimension has work-items, and for the searches enough fuel is shown to exist. The compiled work-group function, the C library, HSA with its images and its finalizer, the GPU, libelf, \<open>lt_dlopen\<close>, the shell with the
  compiler scripts and the initialisation entries of the drivers are parameters. A work-group is one
  step of a thread. The GPU gets a packet and the memory and answers whether it has finished, with the memory it leaves in either
  case. A build script is assumed to do for a call in the form of its usage text what the compiler does, which may fail,
  and to touch no other files than its outputs. That work-groups commute is a hypothesis on the kernel, which OpenCL asks of
  kernels whose result must not depend on the order of work-groups. The refinement and the
  launch are stated for kernels without local memory, images and samplers.

  \<^bold>\<open>Not modelled.\<close> The TCE driver, and running kernels on the Cell processor; of the LLVM passes what they do to instructions, the saving of variables between
  regions, and vectorisation; of the kernel library floating-point functions, conversions, atomics, vector loads and
  images; the host topology queries, the removal of temporary directories, and debugging output. These work on data structures
  of LLVM, on hardware, or on the rounding of floating-point numbers.
\<close>

end
